(* ===== verification/Prelude.thy ===== *)
theory Prelude
  imports Main "HOL-Library.Word" "HOL-Library.Monad_Syntax"
begin

section \<open>Prelude: machine types, memory and list helpers\<close>

text \<open>
  What every component of the model shares: the C integer types as words, link-layer
  addresses, byte arrays whose out-of-range accesses are \<open>None\<close> (in C they are undefined
  behaviour), little-endian 16-bit fields, and the list operations of \<open>os/lib/list.c\<close>
  on lists of block indices.  The collection \<open>mem_simps\<close> holds the facts about byte
  arrays that the packet proofs use.
\<close>

unbundle bit_operations_syntax

type_synonym u8 = "8 word"
type_synonym u16 = "16 word"
type_synonym u32 = "32 word"

text \<open>A link-layer address is eight bytes; \<open>linkaddr_cmp\<close> is equality.\<close>

type_synonym linkaddr = "64 word"

text \<open>A computation that may run into undefined behaviour: \<open>None\<close> is the bad access.\<close>

type_synonym 'a ub = "'a option"

named_theorems mem_simps

lemma unat_ucast_8_16 [simp]: "unat (ucast (x :: u8) :: u16) = unat x"
proof -
  have "unat x < 2 ^ LENGTH(8)" by (rule unsigned_less)
  then show ?thesis by (simp add: unsigned_ucast_eq take_bit_eq_mod)
qed

lemma unat_u8_less: "unat (x :: u8) < 256"
proof -
  have "unat x < 2 ^ LENGTH(8)" by (rule unsigned_less)
  then show ?thesis by simp
qed

lemma unat_u16_less: "unat (x :: u16) < 65536"
proof -
  have "unat x < 2 ^ LENGTH(16)" by (rule unsigned_less)
  then show ?thesis by simp
qed

lemma uint_not_minus_one [simp]: "uint (x :: 'a::len word) \<noteq> -1"
proof -
  have "0 \<le> uint x" by simp
  then show ?thesis by linarith
qed

text \<open>A range that ends within \<open>len\<close> bytes lies inside any array of at least \<open>len\<close> bytes.\<close>

lemma nat_range_le:
  assumes "0 \<le> k" and "k + int w \<le> uint (len :: 'a::len word)" and "unat len \<le> n"
  shows "nat k + w \<le> n"
proof -
  have "int (unat len) = uint len" by simp
  with assms show ?thesis by linarith
qed

subsection \<open>Byte arrays\<close>

definition mem_read :: "'a list \<Rightarrow> nat \<Rightarrow> nat \<Rightarrow> 'a list ub" where
  "mem_read m off n = (if off + n \<le> length m then Some (take n (drop off m)) else None)"

definition mem_write :: "'a list \<Rightarrow> nat \<Rightarrow> 'a list \<Rightarrow> 'a list ub" where
  "mem_write m off bs =
     (if off + length bs \<le> length m
      then Some (take off m @ bs @ drop (off + length bs) m) else None)"

lemma mem_write_Some [mem_simps]:
  "off + length bs \<le> length m \<Longrightarrow>
   mem_write m off bs = Some (take off m @ bs @ drop (off + length bs) m)"
  by (simp add: mem_write_def)

lemma mem_read_Some [mem_simps]:
  "off + n \<le> length m \<Longrightarrow> mem_read m off n = Some (take n (drop off m))"
  by (simp add: mem_read_def)

lemma mem_write_None_iff: "mem_write m off bs = None \<longleftrightarrow> length m < off + length bs"
  by (auto simp: mem_write_def)

lemma mem_read_None_iff: "mem_read m off n = None \<longleftrightarrow> length m < off + n"
  by (auto simp: mem_read_def)

lemma mem_write_length: "mem_write m off bs = Some m' \<Longrightarrow> length m' = length m"
  by (auto simp: mem_write_def split: if_splits)

lemma mem_read_length: "mem_read m off n = Some bs \<Longrightarrow> length bs = n"
  by (auto simp: mem_read_def split: if_splits)

lemma mem_read_write_same:
  "mem_write m off bs = Some m' \<Longrightarrow> n = length bs \<Longrightarrow> mem_read m' off n = Some bs"
  by (auto simp: mem_write_def mem_read_def split: if_splits)

lemma mem_write_nth:
  assumes "mem_write m off bs = Some m'" and "i < length m"
  shows "m' ! i = (if off \<le> i \<and> i < off + length bs then bs ! (i - off) else m ! i)"
proof -
  from assms(1) have b: "off + length bs \<le> length m"
    and m': "m' = take off m @ bs @ drop (off + length bs) m"
    by (auto simp: mem_write_def split: if_splits)
  show ?thesis
    unfolding m' using b assms(2) by (auto simp: nth_append min_def)
qed

lemma mem_read_nth:
  "mem_read m off n = Some bs \<Longrightarrow> i < n \<Longrightarrow> bs ! i = m ! (off + i)"
  by (auto simp: mem_read_def split: if_splits)

lemma mem_read_write_disjoint:
  assumes w: "mem_write m off bs = Some m'"
    and d: "off' + n \<le> off \<or> off + length bs \<le> off'"
  shows "mem_read m' off' n = mem_read m off' n"
proof (cases "off' + n \<le> length m")
  case True
  have l: "length m' = length m" using w by (rule mem_write_length)
  have "take n (drop off' m') = take n (drop off' m)"
  proof (rule nth_equalityI)
    show "length (take n (drop off' m')) = length (take n (drop off' m))"
      using l by simp
    fix i assume "i < length (take n (drop off' m'))"
    then show "take n (drop off' m') ! i = take n (drop off' m) ! i"
      using True l d by (auto simp: mem_write_nth [OF w])
  qed
  with True l show ?thesis by (simp add: mem_read_def)
next
  case False
  with mem_write_length [OF w] show ?thesis by (simp add: mem_read_def)
qed

subsection \<open>Little-endian 16-bit fields\<close>

definition le16 :: "u16 \<Rightarrow> u8 list" where
  "le16 v = [ucast (v AND 255), ucast (drop_bit 8 v AND 255)]"

definition un_le16 :: "u8 list \<Rightarrow> u16" where
  "un_le16 bs = ucast (bs ! 0) + push_bit 8 (ucast (bs ! 1))"

lemma length_le16 [simp]: "length (le16 v) = 2"
  by (simp add: le16_def)

lemma u16_255_mask: "(255 :: u16) = mask 8"
  by (simp add: mask_eq_exp_minus_1)

lemma un_le16_le16 [simp]: "un_le16 (le16 v) = v"
proof -
  let ?lo = "ucast (ucast (v AND 255) :: u8) :: u16"
  let ?hi = "push_bit 8 (ucast (ucast (drop_bit 8 v AND 255) :: u8)) :: u16"
  have "?lo AND ?hi = 0"
    unfolding u16_255_mask by (rule bit_word_eqI) (auto simp: bit_simps)
  moreover have "?lo OR ?hi = v"
    unfolding u16_255_mask by (rule bit_word_eqI) (auto simp: bit_simps)
  ultimately show ?thesis
    unfolding un_le16_def le16_def by (simp add: disjunctive_add_eq_or)
qed

end
