(* ===== verification/Packetbuf.thy ===== *)
theory Packetbuf
  imports Prelude
begin

section \<open>The packet buffer\<close>

text \<open>
  Model of \<open>os/net/packetbuf.c\<close>: one global buffer of \<open>PACKETBUF_SIZE\<close> bytes holding a
  header part and a data part, with packet attributes and the two packet addresses.  The
  static variables of the file are the fields of \<open>packetbuf_state\<close>, which is the root of
  the chain of records that the other components extend.  Pointers into the buffer
  (\<open>packetbuf_dataptr\<close>, \<open>packetbuf_hdrptr\<close>) are offsets.  The invariant \<open>packetbuf_wf\<close> says that
  the used part stays inside the buffer; \<open>packetbuf_content\<close> is the packet as seen by a
  receiver.
\<close>

datatype packetbuf_attr_id =
    PACKETBUF_ATTR_NONE | PACKETBUF_ATTR_CHANNEL | PACKETBUF_ATTR_NETWORK_ID
  | PACKETBUF_ATTR_LINK_QUALITY | PACKETBUF_ATTR_RSSI
  | PACKETBUF_ATTR_MAX_MAC_TRANSMISSIONS | PACKETBUF_ATTR_MAC_SEQNO
  | PACKETBUF_ATTR_MAC_ACK | PACKETBUF_ATTR_MAC_METADATA
  | PACKETBUF_ATTR_MAC_NO_SRC_ADDR | PACKETBUF_ATTR_MAC_NO_DEST_ADDR
  | PACKETBUF_ATTR_TSCH_SLOTFRAME | PACKETBUF_ATTR_TSCH_TIMESLOT
  | PACKETBUF_ATTR_TSCH_CHANNEL_OFFSET | PACKETBUF_ATTR_FRAME_TYPE
  | PACKETBUF_ATTR_SECURITY_LEVEL | PACKETBUF_ATTR_KEY_ID_MODE | PACKETBUF_ATTR_KEY_INDEX
  | PACKETBUF_ATTR_FRAME_COUNTER_BYTES_0_1 | PACKETBUF_ATTR_FRAME_COUNTER_BYTES_2_3

datatype packetbuf_addr_id = PACKETBUF_ADDR_SENDER | PACKETBUF_ADDR_RECEIVER

definition PACKETBUF_SIZE :: nat where
  "PACKETBUF_SIZE = 128"

record packetbuf_state =
  pb_mem :: "u8 list"
  pb_buflen :: u16
  pb_bufptr :: u16
  pb_hdrlen :: u8
  pb_attrs :: "packetbuf_attr_id \<Rightarrow> u16"
  pb_addrs :: "packetbuf_addr_id \<Rightarrow> linkaddr"

subsection \<open>Operations\<close>

definition packetbuf_attr_clear :: "'a packetbuf_state_scheme \<Rightarrow> 'a packetbuf_state_scheme" where
  "packetbuf_attr_clear s = s\<lparr>pb_attrs := (\<lambda>_. 0), pb_addrs := (\<lambda>_. 0)\<rparr>"

definition packetbuf_clear :: "'a packetbuf_state_scheme \<Rightarrow> 'a packetbuf_state_scheme" where
  "packetbuf_clear s = packetbuf_attr_clear (s\<lparr>pb_buflen := 0, pb_bufptr := 0, pb_hdrlen := 0\<rparr>)"

definition packetbuf_hdrlen :: "'a packetbuf_state_scheme \<Rightarrow> u8" where
  "packetbuf_hdrlen s = ucast (pb_bufptr s + ucast (pb_hdrlen s))"

definition packetbuf_datalen :: "'a packetbuf_state_scheme \<Rightarrow> u16" where
  "packetbuf_datalen s = pb_buflen s"

definition packetbuf_totlen :: "'a packetbuf_state_scheme \<Rightarrow> u16" where
  "packetbuf_totlen s = ucast (packetbuf_hdrlen s) + packetbuf_datalen s"

definition packetbuf_remaininglen :: "'a packetbuf_state_scheme \<Rightarrow> u16" where
  "packetbuf_remaininglen s = of_nat PACKETBUF_SIZE - packetbuf_totlen s"

definition packetbuf_dataptr :: "'a packetbuf_state_scheme \<Rightarrow> nat" where
  "packetbuf_dataptr s = unat (packetbuf_hdrlen s)"

definition packetbuf_hdrptr :: "'a packetbuf_state_scheme \<Rightarrow> nat" where
  "packetbuf_hdrptr s = 0"

definition packetbuf_copyfrom ::
  "u8 list \<Rightarrow> u16 \<Rightarrow> 'a packetbuf_state_scheme \<Rightarrow> (int \<times> 'a packetbuf_state_scheme) ub" where
  "packetbuf_copyfrom src len s =
     (let s1 = packetbuf_clear s;
          l = min PACKETBUF_SIZE (unat len)
      in do {
        bs \<leftarrow> mem_read src 0 l;
        m \<leftarrow> mem_write (pb_mem s1) 0 bs;
        Some (int l, s1\<lparr>pb_mem := m, pb_buflen := of_nat l\<rparr>)
      })"

definition packetbuf_copyto :: "u8 list \<Rightarrow> 'a packetbuf_state_scheme \<Rightarrow> (int \<times> u8 list) ub" where
  "packetbuf_copyto dst s =
     (let h = unat (pb_hdrlen s); l = unat (pb_buflen s)
      in if h + l > PACKETBUF_SIZE then Some (0, dst)
         else do {
           hb \<leftarrow> mem_read (pb_mem s) (packetbuf_hdrptr s) h;
           d1 \<leftarrow> mem_write dst 0 hb;
           db \<leftarrow> mem_read (pb_mem s) (packetbuf_dataptr s) l;
           d2 \<leftarrow> mem_write d1 h db;
           Some (int (h + l), d2)
         })"

definition packetbuf_hdralloc ::
  "nat \<Rightarrow> 'a packetbuf_state_scheme \<Rightarrow> (int \<times> 'a packetbuf_state_scheme) ub" where
  "packetbuf_hdralloc sz s =
     (let t = unat (packetbuf_totlen s)
      in if sz + t > PACKETBUF_SIZE then Some (0, s)
         else do {
           bs \<leftarrow> mem_read (pb_mem s) 0 t;
           m \<leftarrow> mem_write (pb_mem s) sz bs;
           Some (1, s\<lparr>pb_mem := m, pb_hdrlen := pb_hdrlen s + of_nat sz\<rparr>)
         })"

definition packetbuf_hdrreduce ::
  "nat \<Rightarrow> 'a packetbuf_state_scheme \<Rightarrow> int \<times> 'a packetbuf_state_scheme" where
  "packetbuf_hdrreduce sz s =
     (if unat (pb_buflen s) < sz then (0, s)
      else (1, s\<lparr>pb_bufptr := pb_bufptr s + of_nat sz, pb_buflen := pb_buflen s - of_nat sz\<rparr>))"

definition packetbuf_set_datalen :: "u16 \<Rightarrow> 'a packetbuf_state_scheme \<Rightarrow> 'a packetbuf_state_scheme" where
  "packetbuf_set_datalen len s = s\<lparr>pb_buflen := len\<rparr>"

definition packetbuf_set_attr ::
  "packetbuf_attr_id \<Rightarrow> u16 \<Rightarrow> 'a packetbuf_state_scheme \<Rightarrow> 'a packetbuf_state_scheme" where
  "packetbuf_set_attr ty val s = s\<lparr>pb_attrs := (pb_attrs s)(ty := val)\<rparr>"

definition packetbuf_attr :: "packetbuf_attr_id \<Rightarrow> 'a packetbuf_state_scheme \<Rightarrow> u16" where
  "packetbuf_attr ty s = pb_attrs s ty"

definition packetbuf_set_addr ::
  "packetbuf_addr_id \<Rightarrow> linkaddr \<Rightarrow> 'a packetbuf_state_scheme \<Rightarrow> 'a packetbuf_state_scheme" where
  "packetbuf_set_addr ty addr s = s\<lparr>pb_addrs := (pb_addrs s)(ty := addr)\<rparr>"

definition packetbuf_addr :: "packetbuf_addr_id \<Rightarrow> 'a packetbuf_state_scheme \<Rightarrow> linkaddr" where
  "packetbuf_addr ty s = pb_addrs s ty"

definition packetbuf_holds_broadcast :: "'a packetbuf_state_scheme \<Rightarrow> bool" where
  "packetbuf_holds_broadcast s \<longleftrightarrow> pb_addrs s PACKETBUF_ADDR_RECEIVER = 0"

text \<open>Writing bytes through a pointer into the buffer (\<open>hdr[i] = ...\<close>, \<open>memcpy\<close>).\<close>

definition packetbuf_poke ::
  "nat \<Rightarrow> u8 list \<Rightarrow> 'a packetbuf_state_scheme \<Rightarrow> 'a packetbuf_state_scheme ub" where
  "packetbuf_poke off bs s = do { m \<leftarrow> mem_write (pb_mem s) off bs; Some (s\<lparr>pb_mem := m\<rparr>) }"

subsection \<open>Well-formedness and content\<close>

definition packetbuf_used :: "'a packetbuf_state_scheme \<Rightarrow> nat" where
  "packetbuf_used s = unat (pb_bufptr s) + unat (pb_hdrlen s) + unat (pb_buflen s)"

definition packetbuf_wf :: "'a packetbuf_state_scheme \<Rightarrow> bool" where
  "packetbuf_wf s \<longleftrightarrow> length (pb_mem s) = PACKETBUF_SIZE \<and> packetbuf_used s \<le> PACKETBUF_SIZE"

definition packetbuf_content :: "'a packetbuf_state_scheme \<Rightarrow> u8 list" where
  "packetbuf_content s = take (packetbuf_used s) (pb_mem s)"

lemma unat_hdrlen:
  assumes "packetbuf_wf s"
  shows "unat (packetbuf_hdrlen s) = unat (pb_bufptr s) + unat (pb_hdrlen s)"
proof -
  have le: "unat (pb_bufptr s) + unat (pb_hdrlen s) \<le> 128"
    using assms by (simp add: packetbuf_wf_def packetbuf_used_def PACKETBUF_SIZE_def)
  have "unat (pb_bufptr s + ucast (pb_hdrlen s) :: u16) = unat (pb_bufptr s) + unat (pb_hdrlen s)"
    using le by (subst unat_word_ariths) simp
  then show ?thesis
    using le by (simp add: packetbuf_hdrlen_def unsigned_ucast_eq take_bit_eq_mod)
qed

lemma unat_totlen:
  assumes "packetbuf_wf s"
  shows "unat (packetbuf_totlen s) = packetbuf_used s"
proof -
  have "unat (pb_bufptr s) + unat (pb_hdrlen s) + unat (pb_buflen s) \<le> 128"
    using assms by (simp add: packetbuf_wf_def packetbuf_used_def PACKETBUF_SIZE_def)
  then show ?thesis
    using unat_hdrlen [OF assms]
    by (simp add: packetbuf_totlen_def packetbuf_datalen_def packetbuf_used_def
        unat_word_ariths)
qed

lemma packetbuf_clear_wf:
  "length (pb_mem s) = PACKETBUF_SIZE \<Longrightarrow> packetbuf_wf (packetbuf_clear s)"
  by (simp add: packetbuf_wf_def packetbuf_used_def packetbuf_clear_def packetbuf_attr_clear_def)

lemma packetbuf_clear_simps [simp]:
  "pb_mem (packetbuf_clear s) = pb_mem s"
  "pb_buflen (packetbuf_clear s) = 0"
  "pb_bufptr (packetbuf_clear s) = 0"
  "pb_hdrlen (packetbuf_clear s) = 0"
  "packetbuf_used (packetbuf_clear s) = 0"
  by (simp_all add: packetbuf_clear_def packetbuf_attr_clear_def packetbuf_used_def)

lemma packetbuf_set_attr_wf [simp]: "packetbuf_wf (packetbuf_set_attr t v s) = packetbuf_wf s"
  by (simp add: packetbuf_set_attr_def packetbuf_wf_def packetbuf_used_def)

lemma packetbuf_set_addr_wf [simp]: "packetbuf_wf (packetbuf_set_addr t v s) = packetbuf_wf s"
  by (simp add: packetbuf_set_addr_def packetbuf_wf_def packetbuf_used_def)

lemma packetbuf_hdrreduce_wf:
  assumes wf: "packetbuf_wf s"
  shows "packetbuf_wf (snd (packetbuf_hdrreduce sz s))"
proof (cases "unat (pb_buflen s) < sz")
  case True
  with wf show ?thesis by (simp add: packetbuf_hdrreduce_def)
next
  case False
  have b: "unat (pb_bufptr s) + unat (pb_hdrlen s) + unat (pb_buflen s) \<le> 128"
    using wf by (simp add: packetbuf_wf_def packetbuf_used_def PACKETBUF_SIZE_def)
  have o: "unat (of_nat sz :: u16) = sz"
    using False b by (simp add: unat_of_nat)
  have "unat (pb_bufptr s + of_nat sz) = unat (pb_bufptr s) + sz"
    using False b o by (simp add: unat_word_ariths)
  moreover have "unat (pb_buflen s - of_nat sz) = unat (pb_buflen s) - sz"
    using False o by (simp add: unat_sub word_le_nat_alt)
  ultimately show ?thesis
    using wf False by (simp add: packetbuf_hdrreduce_def packetbuf_wf_def packetbuf_used_def)
qed

lemma packetbuf_hdralloc_full:
  "packetbuf_wf s \<Longrightarrow> PACKETBUF_SIZE < sz + packetbuf_used s \<Longrightarrow>
   packetbuf_hdralloc sz s = Some (0, s)"
  by (simp add: packetbuf_hdralloc_def unat_totlen)

text \<open>Allocating header space keeps the packet and puts \<open>sz\<close> bytes in front of it.\<close>

lemma packetbuf_hdralloc_room:
  assumes wf: "packetbuf_wf s" and room: "sz + packetbuf_used s \<le> PACKETBUF_SIZE"
  obtains s' where "packetbuf_hdralloc sz s = Some (1, s')"
    and "packetbuf_wf s'" and "packetbuf_used s' = sz + packetbuf_used s"
    and "packetbuf_content s' = take sz (pb_mem s) @ packetbuf_content s"
    and "pb_bufptr s' = pb_bufptr s" and "pb_buflen s' = pb_buflen s"
    and "unat (pb_hdrlen s') = unat (pb_hdrlen s) + sz"
    and "s' = s\<lparr>pb_mem := pb_mem s', pb_hdrlen := pb_hdrlen s'\<rparr>"
proof -
  let ?t = "packetbuf_used s"
  let ?m = "take sz (pb_mem s) @ take ?t (pb_mem s) @ drop (sz + ?t) (pb_mem s)"
  let ?s = "s\<lparr>pb_mem := ?m, pb_hdrlen := pb_hdrlen s + of_nat sz\<rparr>"
  have l: "length (pb_mem s) = 128" and r: "sz + ?t \<le> 128"
    using wf room by (auto simp: packetbuf_wf_def PACKETBUF_SIZE_def)
  have "mem_write (pb_mem s) sz (take ?t (pb_mem s)) = Some ?m"
    using l r by (simp add: mem_write_def min_def)
  then have a: "packetbuf_hdralloc sz s = Some (1, ?s)"
    using l r room by (simp add: packetbuf_hdralloc_def unat_totlen [OF wf] mem_read_def Let_def)
  have h: "unat (pb_hdrlen ?s) = unat (pb_hdrlen s) + sz"
  proof -
    have "unat (pb_hdrlen s) + sz \<le> 128" using r by (simp add: packetbuf_used_def)
    then show ?thesis by (simp add: unat_word_ariths unat_of_nat)
  qed
  then have u: "packetbuf_used ?s = sz + ?t" by (simp add: packetbuf_used_def)
  have lm: "length ?m = PACKETBUF_SIZE" using l r by (auto simp: PACKETBUF_SIZE_def min_def)
  have w: "packetbuf_wf ?s" using u lm room by (simp add: packetbuf_wf_def)
  have c: "packetbuf_content ?s = take sz (pb_mem s) @ packetbuf_content s"
    unfolding packetbuf_content_def u using l r by (auto simp: min_def)
  show ?thesis using that [OF a w u c _ _ h] by simp
qed

end
