(* ===== verification/Sixp_Pkt.thy ===== *)
theory Sixp_Pkt
  imports Packetbuf
begin

section \<open>6P packets\<close>

text \<open>
  Model of \<open>os/net/mac/tsch/sixtop/sixp-pkt.c\<close>: the offsets of the fields of a 6P message
  body, the set and get routine of every field, the parser of a received message and the
  construction of an outgoing one in the packet buffer.

  A pointer argument that may be NULL is an \<open>option\<close>: \<open>None\<close> is NULL, \<open>Some x\<close> points to \<open>x\<close>.
  A body is the byte array behind the pointer, and \<open>body_len\<close> is the length the caller
  passes, which need not be the size of the array.  A routine returns C's result (\<open>0\<close> or
  \<open>-1\<close>) with the new pointees, inside \<open>ub\<close>: \<open>None\<close> is an access outside the array.
  Pointers into a body (\<open>*cell_list = body + offset\<close>) are offsets.  Multi-byte fields that
  the code copies with \<open>memcpy\<close> are taken in little-endian order, the byte order of the
  supported targets.  The union \<open>sixp_pkt_code_t\<close> is its 8-bit \<open>value\<close>.

  The locale \<open>pkt_field\<close> is the contract of a fixed-width field: what is written is read
  back, and other bytes stay.  \<open>checked_pkt_field\<close> adds the length check of the setter.
\<close>

subsection \<open>Types and codes\<close>

datatype sixp_pkt_type =
    SIXP_PKT_TYPE_REQUEST | SIXP_PKT_TYPE_RESPONSE
  | SIXP_PKT_TYPE_CONFIRMATION | SIXP_PKT_TYPE_RESERVED

abbreviation (input) SIXP_PKT_VERSION :: u8 where "SIXP_PKT_VERSION \<equiv> 0"

abbreviation (input) SIXP_PKT_CMD_ADD :: u8 where "SIXP_PKT_CMD_ADD \<equiv> 1"
abbreviation (input) SIXP_PKT_CMD_DELETE :: u8 where "SIXP_PKT_CMD_DELETE \<equiv> 2"
abbreviation (input) SIXP_PKT_CMD_RELOCATE :: u8 where "SIXP_PKT_CMD_RELOCATE \<equiv> 3"
abbreviation (input) SIXP_PKT_CMD_COUNT :: u8 where "SIXP_PKT_CMD_COUNT \<equiv> 4"
abbreviation (input) SIXP_PKT_CMD_LIST :: u8 where "SIXP_PKT_CMD_LIST \<equiv> 5"
abbreviation (input) SIXP_PKT_CMD_SIGNAL :: u8 where "SIXP_PKT_CMD_SIGNAL \<equiv> 6"
abbreviation (input) SIXP_PKT_CMD_CLEAR :: u8 where "SIXP_PKT_CMD_CLEAR \<equiv> 7"
abbreviation (input) SIXP_PKT_CMD_UNAVAILABLE :: u8 where "SIXP_PKT_CMD_UNAVAILABLE \<equiv> 255"

abbreviation (input) SIXP_PKT_RC_SUCCESS :: u8 where "SIXP_PKT_RC_SUCCESS \<equiv> 0"
abbreviation (input) SIXP_PKT_RC_EOL :: u8 where "SIXP_PKT_RC_EOL \<equiv> 1"
abbreviation (input) SIXP_PKT_RC_ERR :: u8 where "SIXP_PKT_RC_ERR \<equiv> 2"
abbreviation (input) SIXP_PKT_RC_RESET :: u8 where "SIXP_PKT_RC_RESET \<equiv> 3"
abbreviation (input) SIXP_PKT_RC_ERR_VERSION :: u8 where "SIXP_PKT_RC_ERR_VERSION \<equiv> 4"
abbreviation (input) SIXP_PKT_RC_ERR_SFID :: u8 where "SIXP_PKT_RC_ERR_SFID \<equiv> 5"
abbreviation (input) SIXP_PKT_RC_ERR_SEQNUM :: u8 where "SIXP_PKT_RC_ERR_SEQNUM \<equiv> 6"
abbreviation (input) SIXP_PKT_RC_ERR_CELLLIST :: u8 where "SIXP_PKT_RC_ERR_CELLLIST \<equiv> 7"
abbreviation (input) SIXP_PKT_RC_ERR_BUSY :: u8 where "SIXP_PKT_RC_ERR_BUSY \<equiv> 8"
abbreviation (input) SIXP_PKT_RC_ERR_LOCKED :: u8 where "SIXP_PKT_RC_ERR_LOCKED \<equiv> 9"

abbreviation (input) SIXP_PKT_CELL_OPTION_TX :: u8 where "SIXP_PKT_CELL_OPTION_TX \<equiv> 1"

record sixp_pkt =
  pkt_version :: u8
  pkt_ptype :: sixp_pkt_type
  pkt_code :: u8
  pkt_sfid :: u8
  pkt_seqno :: u8
  pkt_body :: "u8 list option"
  pkt_body_len :: u16

definition sixp_pkt_zero :: sixp_pkt where
  "sixp_pkt_zero = \<lparr>pkt_version = 0, pkt_ptype = SIXP_PKT_TYPE_REQUEST, pkt_code = 0,
     pkt_sfid = 0, pkt_seqno = 0, pkt_body = None, pkt_body_len = 0\<rparr>"

fun sixp_pkt_type_val :: "sixp_pkt_type \<Rightarrow> u8" where
  "sixp_pkt_type_val SIXP_PKT_TYPE_REQUEST = 0"
| "sixp_pkt_type_val SIXP_PKT_TYPE_RESPONSE = 1"
| "sixp_pkt_type_val SIXP_PKT_TYPE_CONFIRMATION = 2"
| "sixp_pkt_type_val SIXP_PKT_TYPE_RESERVED = 3"

definition sixp_pkt_type_of :: "u8 \<Rightarrow> sixp_pkt_type" where
  "sixp_pkt_type_of v =
     (if v = 0 then SIXP_PKT_TYPE_REQUEST
      else if v = 1 then SIXP_PKT_TYPE_RESPONSE
      else if v = 2 then SIXP_PKT_TYPE_CONFIRMATION
      else SIXP_PKT_TYPE_RESERVED)"

subsection \<open>Field offsets\<close>

definition get_metadata_offset :: "sixp_pkt_type \<Rightarrow> u8 \<Rightarrow> int" where
  "get_metadata_offset type code = (if type = SIXP_PKT_TYPE_REQUEST then 0 else -1)"

definition get_cell_options_offset :: "sixp_pkt_type \<Rightarrow> u8 \<Rightarrow> int" where
  "get_cell_options_offset type code =
     (if type = SIXP_PKT_TYPE_REQUEST \<and>
         (code = SIXP_PKT_CMD_ADD \<or> code = SIXP_PKT_CMD_DELETE \<or>
          code = SIXP_PKT_CMD_RELOCATE \<or> code = SIXP_PKT_CMD_COUNT \<or> code = SIXP_PKT_CMD_LIST)
      then 2 else -1)"

definition get_num_cells_offset :: "sixp_pkt_type \<Rightarrow> u8 \<Rightarrow> int" where
  "get_num_cells_offset type code =
     (if type = SIXP_PKT_TYPE_REQUEST \<and>
         (code = SIXP_PKT_CMD_ADD \<or> code = SIXP_PKT_CMD_DELETE \<or> code = SIXP_PKT_CMD_RELOCATE)
      then 2 + 1 else -1)"

definition get_reserved_offset :: "sixp_pkt_type \<Rightarrow> u8 \<Rightarrow> int" where
  "get_reserved_offset type code =
     (if type = SIXP_PKT_TYPE_REQUEST \<and> code = SIXP_PKT_CMD_LIST then 2 + 1 else -1)"

definition get_offset_offset :: "sixp_pkt_type \<Rightarrow> u8 \<Rightarrow> int" where
  "get_offset_offset type code =
     (if type = SIXP_PKT_TYPE_REQUEST \<and> code = SIXP_PKT_CMD_LIST then 2 + 1 + 1 else -1)"

definition get_max_num_cells_offset :: "sixp_pkt_type \<Rightarrow> u8 \<Rightarrow> int" where
  "get_max_num_cells_offset type code =
     (if type = SIXP_PKT_TYPE_REQUEST \<and> code = SIXP_PKT_CMD_LIST then 2 + 1 + 1 + 2 else -1)"

definition get_cell_list_offset :: "sixp_pkt_type \<Rightarrow> u8 \<Rightarrow> int" where
  "get_cell_list_offset type code =
     (if type = SIXP_PKT_TYPE_REQUEST \<and> (code = SIXP_PKT_CMD_ADD \<or> code = SIXP_PKT_CMD_DELETE)
      then 2 + 1 + 1
      else if (type = SIXP_PKT_TYPE_RESPONSE \<or> type = SIXP_PKT_TYPE_CONFIRMATION) \<and>
              (code = SIXP_PKT_RC_SUCCESS \<or> code = SIXP_PKT_RC_EOL)
      then 0 else -1)"

definition get_rel_cell_list_offset :: "sixp_pkt_type \<Rightarrow> u8 \<Rightarrow> int" where
  "get_rel_cell_list_offset type code =
     (if type = SIXP_PKT_TYPE_REQUEST \<and> code = SIXP_PKT_CMD_RELOCATE then 2 + 1 + 1 else -1)"

definition get_total_num_cells_offset :: "sixp_pkt_type \<Rightarrow> u8 \<Rightarrow> int" where
  "get_total_num_cells_offset type code =
     (if type = SIXP_PKT_TYPE_RESPONSE \<and> code = SIXP_PKT_RC_SUCCESS then 0 else -1)"

definition get_payload_offset :: "sixp_pkt_type \<Rightarrow> u8 \<Rightarrow> int" where
  "get_payload_offset type code =
     (if type = SIXP_PKT_TYPE_REQUEST \<and> code = SIXP_PKT_CMD_SIGNAL then 2
      else if (type = SIXP_PKT_TYPE_RESPONSE \<or> type = SIXP_PKT_TYPE_CONFIRMATION) \<and>
              code = SIXP_PKT_RC_SUCCESS
      then 0 else -1)"

lemmas pkt_offset_defs =
  get_metadata_offset_def get_cell_options_offset_def get_num_cells_offset_def
  get_reserved_offset_def get_offset_offset_def get_max_num_cells_offset_def
  get_cell_list_offset_def get_rel_cell_list_offset_def get_total_num_cells_offset_def
  get_payload_offset_def

subsection \<open>Fixed-width fields\<close>

definition sixp_pkt_set_metadata ::
  "sixp_pkt_type \<Rightarrow> u8 \<Rightarrow> u16 \<Rightarrow> u8 list option \<Rightarrow> u16 \<Rightarrow> (int \<times> u8 list option) ub" where
  "sixp_pkt_set_metadata type code metadata body body_len =
     (let offset = get_metadata_offset type code
      in if body = None then Some (-1, body)
      else if offset < 0 then Some (-1, body)
      else if uint body_len < offset + 2 then Some (-1, body)
      else do { b \<leftarrow> mem_write (the body) (nat offset) (le16 metadata); Some (0, Some b) })"

definition sixp_pkt_get_metadata ::
  "sixp_pkt_type \<Rightarrow> u8 \<Rightarrow> u16 option \<Rightarrow> u8 list option \<Rightarrow> u16 \<Rightarrow> (int \<times> u16 option) ub" where
  "sixp_pkt_get_metadata type code metadata body body_len =
     (let offset = get_metadata_offset type code
      in if metadata = None \<or> body = None then Some (-1, metadata)
      else if offset < 0 then Some (-1, metadata)
      else if uint body_len < offset + 2 then Some (-1, metadata)
      else do { bs \<leftarrow> mem_read (the body) (nat offset) 2; Some (0, Some (un_le16 bs)) })"

definition sixp_pkt_set_cell_options ::
  "sixp_pkt_type \<Rightarrow> u8 \<Rightarrow> u8 \<Rightarrow> u8 list option \<Rightarrow> u16 \<Rightarrow> (int \<times> u8 list option) ub" where
  "sixp_pkt_set_cell_options type code cell_options body body_len =
     (let offset = get_cell_options_offset type code
      in if body = None then Some (-1, body)
      else if offset < 0 then Some (-1, body)
      else if uint body_len < offset + 1 then Some (-1, body)
      else do { b \<leftarrow> mem_write (the body) (nat offset) ([cell_options]); Some (0, Some b) })"

definition sixp_pkt_get_cell_options ::
  "sixp_pkt_type \<Rightarrow> u8 \<Rightarrow> u8 option \<Rightarrow> u8 list option \<Rightarrow> u16 \<Rightarrow> (int \<times> u8 option) ub" where
  "sixp_pkt_get_cell_options type code cell_options body body_len =
     (let offset = get_cell_options_offset type code
      in if cell_options = None \<or> body = None then Some (-1, cell_options)
      else if offset < 0 then Some (-1, cell_options)
      else if uint body_len < offset + 1 then Some (-1, cell_options)
      else do { bs \<leftarrow> mem_read (the body) (nat offset) 1; Some (0, Some (bs ! 0)) })"

definition sixp_pkt_set_num_cells ::
  "sixp_pkt_type \<Rightarrow> u8 \<Rightarrow> u8 \<Rightarrow> u8 list option \<Rightarrow> u16 \<Rightarrow> (int \<times> u8 list option) ub" where
  "sixp_pkt_set_num_cells type code num_cells body body_len =
     (let offset = get_num_cells_offset type code
      in if body = None then Some (-1, body)
      else if offset < 0 then Some (-1, body)
      else do { b \<leftarrow> mem_write (the body) (nat offset) ([num_cells]); Some (0, Some b) })"

definition sixp_pkt_get_num_cells ::
  "sixp_pkt_type \<Rightarrow> u8 \<Rightarrow> u8 option \<Rightarrow> u8 list option \<Rightarrow> u16 \<Rightarrow> (int \<times> u8 option) ub" where
  "sixp_pkt_get_num_cells type code num_cells body body_len =
     (let offset = get_num_cells_offset type code
      in if num_cells = None \<or> body = None then Some (-1, num_cells)
      else if offset < 0 then Some (-1, num_cells)
      else if uint body_len < offset + 1 then Some (-1, num_cells)
      else do { bs \<leftarrow> mem_read (the body) (nat offset) 1; Some (0, Some (bs ! 0)) })"

definition sixp_pkt_set_reserved ::
  "sixp_pkt_type \<Rightarrow> u8 \<Rightarrow> u8 \<Rightarrow> u8 list option \<Rightarrow> u16 \<Rightarrow> (int \<times> u8 list option) ub" where
  "sixp_pkt_set_reserved type code reserved body body_len =
     (let offset = get_reserved_offset type code
      in if body = None then Some (-1, body)
      else if offset < 0 then Some (-1, body)
      else if uint body_len < offset + 1 then Some (-1, body)
      else do { b \<leftarrow> mem_write (the body) (nat offset) ([reserved]); Some (0, Some b) })"

definition sixp_pkt_get_reserved ::
  "sixp_pkt_type \<Rightarrow> u8 \<Rightarrow> u8 option \<Rightarrow> u8 list option \<Rightarrow> u16 \<Rightarrow> (int \<times> u8 option) ub" where
  "sixp_pkt_get_reserved type code reserved body body_len =
     (let offset = get_reserved_offset type code
      in if reserved = None \<or> body = None then Some (-1, reserved)
      else if offset < 0 then Some (-1, reserved)
      else if uint body_len < offset + 1 then Some (-1, reserved)
      else do { bs \<leftarrow> mem_read (the body) (nat offset) 1; Some (0, Some (bs ! 0)) })"

definition sixp_pkt_set_offset ::
  "sixp_pkt_type \<Rightarrow> u8 \<Rightarrow> u16 \<Rightarrow> u8 list option \<Rightarrow> u16 \<Rightarrow> (int \<times> u8 list option) ub" where
  "sixp_pkt_set_offset type code cell_offset body body_len =
     (let offset = get_offset_offset type code
      in if body = None then Some (-1, body)
      else if offset < 0 then Some (-1, body)
      else if uint body_len < offset + 2 then Some (-1, body)
      else do { b \<leftarrow> mem_write (the body) (nat offset) (le16 cell_offset); Some (0, Some b) })"

definition sixp_pkt_get_offset ::
  "sixp_pkt_type \<Rightarrow> u8 \<Rightarrow> u16 option \<Rightarrow> u8 list option \<Rightarrow> u16 \<Rightarrow> (int \<times> u16 option) ub" where
  "sixp_pkt_get_offset type code cell_offset body body_len =
     (let offset = get_offset_offset type code
      in if cell_offset = None \<or> body = None then Some (-1, cell_offset)
      else if offset < 0 then Some (-1, cell_offset)
      else if uint body_len < offset + 2 then Some (-1, cell_offset)
      else do { bs \<leftarrow> mem_read (the body) (nat offset) 2; Some (0, Some (un_le16 bs)) })"

definition sixp_pkt_set_max_num_cells ::
  "sixp_pkt_type \<Rightarrow> u8 \<Rightarrow> u16 \<Rightarrow> u8 list option \<Rightarrow> u16 \<Rightarrow> (int \<times> u8 list option) ub" where
  "sixp_pkt_set_max_num_cells type code max_num_cells body body_len =
     (let offset = get_max_num_cells_offset type code
      in if body = None then Some (-1, body)
      else if offset < 0 then Some (-1, body)
      else if uint body_len < offset + 2 then Some (-1, body)
      else do { b \<leftarrow> mem_write (the body) (nat offset) (le16 max_num_cells); Some (0, Some b) })"

definition sixp_pkt_get_max_num_cells ::
  "sixp_pkt_type \<Rightarrow> u8 \<Rightarrow> u16 option \<Rightarrow> u8 list option \<Rightarrow> u16 \<Rightarrow> (int \<times> u16 option) ub" where
  "sixp_pkt_get_max_num_cells type code max_num_cells body body_len =
     (let offset = get_max_num_cells_offset type code
      in if max_num_cells = None \<or> body = None then Some (-1, max_num_cells)
      else if offset < 0 then Some (-1, max_num_cells)
      else if uint body_len < offset + 2 then Some (-1, max_num_cells)
      else do { bs \<leftarrow> mem_read (the body) (nat offset) 2; Some (0, Some (un_le16 bs)) })"

definition sixp_pkt_set_total_num_cells ::
  "sixp_pkt_type \<Rightarrow> u8 \<Rightarrow> u16 \<Rightarrow> u8 list option \<Rightarrow> u16 \<Rightarrow> (int \<times> u8 list option) ub" where
  "sixp_pkt_set_total_num_cells type code total_num_cells body body_len =
     (let offset = get_total_num_cells_offset type code
      in if body = None then Some (-1, body)
      else if offset < 0 then Some (-1, body)
      else do { b \<leftarrow> mem_write (the body) (nat offset) (le16 total_num_cells); Some (0, Some b) })"

definition sixp_pkt_get_total_num_cells ::
  "sixp_pkt_type \<Rightarrow> u8 \<Rightarrow> u16 option \<Rightarrow> u8 list option \<Rightarrow> u16 \<Rightarrow> (int \<times> u16 option) ub" where
  "sixp_pkt_get_total_num_cells type code total_num_cells body body_len =
     (let offset = get_total_num_cells_offset type code
      in if total_num_cells = None \<or> body = None then Some (-1, total_num_cells)
      else if offset < 0 then Some (-1, total_num_cells)
      else if uint body_len < offset + 2 then Some (-1, total_num_cells)
      else do { bs \<leftarrow> mem_read (the body) (nat offset) 2; Some (0, Some (un_le16 bs)) })"

subsection \<open>Cell lists\<close>

definition sixp_pkt_set_cell_list ::
  "sixp_pkt_type \<Rightarrow> u8 \<Rightarrow> u8 list option \<Rightarrow> u16 \<Rightarrow> u16 \<Rightarrow> u8 list option \<Rightarrow> u16 \<Rightarrow>
   (int \<times> u8 list option) ub" where
  "sixp_pkt_set_cell_list type code cell_list cell_list_len cell_offset body body_len =
     (if cell_list = None \<or> body = None then Some (-1, body)
      else if get_cell_list_offset type code < 0 then Some (-1, body)
      else let offset = get_cell_list_offset type code + uint cell_offset
      in if uint body_len < offset + uint cell_list_len then Some (-1, body)
      else if uint cell_list_len mod 4 \<noteq> 0 then Some (-1, body)
      else do {
        bs \<leftarrow> mem_read (the cell_list) 0 (unat cell_list_len);
        b \<leftarrow> mem_write (the body) (nat offset) bs;
        Some (0, Some b)
      })"

definition sixp_pkt_get_cell_list ::
  "sixp_pkt_type \<Rightarrow> u8 \<Rightarrow> nat option \<Rightarrow> u16 option \<Rightarrow> u8 list option \<Rightarrow> u16 \<Rightarrow>
   int \<times> nat option \<times> u16 option" where
  "sixp_pkt_get_cell_list type code cell_list cell_list_len body body_len =
     (let offset = get_cell_list_offset type code
      in if cell_list_len = None \<or> body = None then (-1, cell_list, cell_list_len)
      else if offset < 0 then (-1, cell_list, cell_list_len)
      else if uint body_len < offset then (-1, cell_list, cell_list_len)
      else if (uint body_len - offset) mod 4 \<noteq> 0 then (-1, cell_list, cell_list_len)
      else (0, map_option (\<lambda>_. nat offset) cell_list, Some (body_len - of_int offset)))"

definition sixp_pkt_set_rel_cell_list ::
  "sixp_pkt_type \<Rightarrow> u8 \<Rightarrow> u8 list option \<Rightarrow> u16 \<Rightarrow> u16 \<Rightarrow> u8 list option \<Rightarrow> u16 \<Rightarrow>
   (int \<times> u8 list option) ub" where
  "sixp_pkt_set_rel_cell_list type code rel_cell_list rel_cell_list_len cell_offset body body_len =
     (if rel_cell_list = None \<or> body = None then Some (-1, body)
      else do {
        (ret, nc) \<leftarrow> sixp_pkt_get_num_cells type code (Some 0) body body_len;
        (if ret < 0 then Some (-1, body)
         else if get_rel_cell_list_offset type code < 0 then Some (-1, body)
         else let offset = get_rel_cell_list_offset type code + uint cell_offset
         in if uint body_len < offset + uint rel_cell_list_len then Some (-1, body)
         else if offset + uint rel_cell_list_len > offset + uint (the nc) * 4 then Some (-1, body)
         else if uint rel_cell_list_len mod 4 \<noteq> 0 then Some (-1, body)
         else do {
           bs \<leftarrow> mem_read (the rel_cell_list) 0 (unat rel_cell_list_len);
           b \<leftarrow> mem_write (the body) (nat offset) bs;
           Some (0, Some b)
         })
      })"

definition sixp_pkt_get_rel_cell_list ::
  "sixp_pkt_type \<Rightarrow> u8 \<Rightarrow> nat option \<Rightarrow> u16 option \<Rightarrow> u8 list option \<Rightarrow> u16 \<Rightarrow>
   (int \<times> nat option \<times> u16 option) ub" where
  "sixp_pkt_get_rel_cell_list type code rel_cell_list rel_cell_list_len body body_len =
     (if rel_cell_list_len = None \<or> body = None then Some (-1, rel_cell_list, rel_cell_list_len)
      else do {
        (ret, nc) \<leftarrow> sixp_pkt_get_num_cells type code (Some 0) body body_len;
        (let offset = get_rel_cell_list_offset type code
         in if ret < 0 then Some (-1, rel_cell_list, rel_cell_list_len)
         else if offset < 0 then Some (-1, rel_cell_list, rel_cell_list_len)
         else if uint body_len < offset + uint (the nc) * 4
           then Some (-1, rel_cell_list, rel_cell_list_len)
         else if (uint body_len - offset) mod 4 \<noteq> 0 then Some (-1, rel_cell_list, rel_cell_list_len)
         else Some (0, map_option (\<lambda>_. nat offset) rel_cell_list, Some (ucast (the nc) * 4)))
      })"

definition sixp_pkt_set_cand_cell_list ::
  "sixp_pkt_type \<Rightarrow> u8 \<Rightarrow> u8 list option \<Rightarrow> u16 \<Rightarrow> u16 \<Rightarrow> u8 list option \<Rightarrow> u16 \<Rightarrow>
   (int \<times> u8 list option) ub" where
  "sixp_pkt_set_cand_cell_list type code cand_cell_list cand_cell_list_len cell_offset body body_len =
     (if cand_cell_list = None \<or> body = None then Some (-1, body)
      else do {
        (ret, nc) \<leftarrow> sixp_pkt_get_num_cells type code (Some 0) body body_len;
        (if ret < 0 then Some (-1, body)
         else if get_rel_cell_list_offset type code < 0 then Some (-1, body)
         else let offset = get_rel_cell_list_offset type code + (uint cell_offset + uint (the nc) * 4)
         in if uint body_len < offset + uint cand_cell_list_len then Some (-1, body)
         else if uint cand_cell_list_len mod 4 \<noteq> 0 then Some (-1, body)
         else do {
           bs \<leftarrow> mem_read (the cand_cell_list) 0 (unat cand_cell_list_len);
           b \<leftarrow> mem_write (the body) (nat offset) bs;
           Some (0, Some b)
         })
      })"

definition sixp_pkt_get_cand_cell_list ::
  "sixp_pkt_type \<Rightarrow> u8 \<Rightarrow> nat option \<Rightarrow> u16 option \<Rightarrow> u8 list option \<Rightarrow> u16 \<Rightarrow>
   (int \<times> nat option \<times> u16 option) ub" where
  "sixp_pkt_get_cand_cell_list type code cand_cell_list cand_cell_list_len body body_len =
     (if cand_cell_list_len = None \<or> body = None then Some (-1, cand_cell_list, cand_cell_list_len)
      else do {
        (ret, nc) \<leftarrow> sixp_pkt_get_num_cells type code (Some 0) body body_len;
        (if ret < 0 then Some (-1, cand_cell_list, cand_cell_list_len)
         else if get_rel_cell_list_offset type code < 0
           then Some (-1, cand_cell_list, cand_cell_list_len)
         else let offset = get_rel_cell_list_offset type code + uint (the nc) * 4
         in if uint body_len < offset then Some (-1, cand_cell_list, cand_cell_list_len)
         else if (uint body_len - offset) mod 4 \<noteq> 0
           then Some (-1, cand_cell_list, cand_cell_list_len)
         else Some (0, map_option (\<lambda>_. nat offset) cand_cell_list,
                    Some (body_len - of_int offset)))
      })"

subsection \<open>Payload\<close>

definition sixp_pkt_set_payload ::
  "sixp_pkt_type \<Rightarrow> u8 \<Rightarrow> u8 list \<Rightarrow> u16 \<Rightarrow> u8 list option \<Rightarrow> u16 \<Rightarrow> (int \<times> u8 list option) ub" where
  "sixp_pkt_set_payload type code payload payload_len body body_len =
     (let offset = get_payload_offset type code
      in if body = None then Some (-1, body)
      else if offset < 0 then Some (-1, body)
      else if uint body_len < offset + uint payload_len then Some (-1, body)
      else do {
        bs \<leftarrow> mem_read payload 0 (unat payload_len);
        b \<leftarrow> mem_write (the body) (nat offset) bs;
        Some (0, Some b)
      })"

definition sixp_pkt_get_payload ::
  "sixp_pkt_type \<Rightarrow> u8 \<Rightarrow> u8 list option \<Rightarrow> u16 \<Rightarrow> u8 list option \<Rightarrow> u16 \<Rightarrow>
   (int \<times> u8 list option) ub" where
  "sixp_pkt_get_payload type code buf buf_len body body_len =
     (let offset = get_payload_offset type code
      in if buf = None \<or> body = None then Some (-1, buf)
      else if offset < 0 then Some (-1, buf)
      else if uint body_len - offset > uint buf_len then Some (-1, buf)
      else do {
        bs \<leftarrow> mem_read (the body) (nat offset) (unat buf_len);
        b \<leftarrow> mem_write (the buf) 0 bs;
        Some (0, Some b)
      })"

subsection \<open>Parsing and creating a message\<close>

text \<open>The checks on the length of the message body, by type and code.\<close>

definition sixp_pkt_body_ok :: "sixp_pkt_type \<Rightarrow> u8 \<Rightarrow> u16 \<Rightarrow> bool" where
  "sixp_pkt_body_ok type code len =
     (case type of
        SIXP_PKT_TYPE_REQUEST \<Rightarrow>
          if code = SIXP_PKT_CMD_ADD \<or> code = SIXP_PKT_CMD_DELETE
          then \<not> (uint len < 2 + 1 + 1 \<or> uint len mod 4 \<noteq> 0)
          else if code = SIXP_PKT_CMD_RELOCATE
          then \<not> (uint len < 2 + 1 + 1 \<or> uint len mod 4 \<noteq> 0)
          else if code = SIXP_PKT_CMD_COUNT then uint len = 2 + 1
          else if code = SIXP_PKT_CMD_LIST then uint len = 2 + 1 + 1 + 2 + 2
          else if code = SIXP_PKT_CMD_SIGNAL then \<not> uint len < 2
          else if code = SIXP_PKT_CMD_CLEAR then uint len = 2
          else False
      | SIXP_PKT_TYPE_RESERVED \<Rightarrow> False
      | _ \<Rightarrow>
          if code = SIXP_PKT_RC_SUCCESS then True
          else if code = SIXP_PKT_RC_EOL then uint len mod 4 = 0
          else if code = SIXP_PKT_RC_ERR \<or> code = SIXP_PKT_RC_RESET \<or>
                  code = SIXP_PKT_RC_ERR_VERSION \<or> code = SIXP_PKT_RC_ERR_SFID \<or>
                  code = SIXP_PKT_RC_ERR_SEQNUM \<or> code = SIXP_PKT_RC_ERR_CELLLIST \<or>
                  code = SIXP_PKT_RC_ERR_BUSY \<or> code = SIXP_PKT_RC_ERR_LOCKED
          then len = 0
          else False)"

definition sixp_pkt_parse :: "u8 list \<Rightarrow> u16 \<Rightarrow> (int \<times> sixp_pkt) ub" where
  "sixp_pkt_parse buf len =
     (if len < 4 then Some (-1, sixp_pkt_zero)
      else do {
        h \<leftarrow> mem_read buf 0 4;
        (let pkt = sixp_pkt_zero
               \<lparr>pkt_version := h ! 0 AND 0x0f,
                pkt_ptype := sixp_pkt_type_of (drop_bit 4 (h ! 0 AND 0x30)),
                pkt_code := h ! 1, pkt_sfid := h ! 2, pkt_seqno := h ! 3\<rparr>;
             blen = len - 4
         in if pkt_version pkt \<noteq> SIXP_PKT_VERSION then Some (-1, pkt)
         else if \<not> sixp_pkt_body_ok (pkt_ptype pkt) (pkt_code pkt) blen then Some (-1, pkt)
         else Some (0, pkt\<lparr>pkt_body := Some (drop 4 buf), pkt_body_len := blen\<rparr>))
      })"

definition sixp_pkt_create ::
  "sixp_pkt_type \<Rightarrow> u8 \<Rightarrow> u8 \<Rightarrow> u8 \<Rightarrow> u8 list option \<Rightarrow> u16 \<Rightarrow> sixp_pkt option \<Rightarrow>
   'a packetbuf_state_scheme \<Rightarrow> (int \<times> sixp_pkt option \<times> 'a packetbuf_state_scheme) ub" where
  "sixp_pkt_create type code sfid seqno body body_len pkt s =
     (if (body = None \<and> 0 < body_len) \<or> (body \<noteq> None \<and> body_len = 0) then Some (-1, pkt, s)
      else let s1 = packetbuf_clear s
      in if PACKETBUF_SIZE < unat (packetbuf_totlen s1) + unat body_len then Some (-1, pkt, s1)
      else do {
        (ret, s2) \<leftarrow> packetbuf_hdralloc 4 s1;
        (if ret \<noteq> 1 then Some (-1, pkt, s2)
         else do {
           s3 \<leftarrow> packetbuf_poke (packetbuf_hdrptr s2)
                  [push_bit 4 (sixp_pkt_type_val type) OR SIXP_PKT_VERSION, code, sfid, seqno] s2;
           s4 \<leftarrow> (if 0 < body_len \<and> body \<noteq> None
                  then do {
                    bs \<leftarrow> mem_read (the body) 0 (unat body_len);
                    s' \<leftarrow> packetbuf_poke (packetbuf_dataptr s3) bs s3;
                    Some (packetbuf_set_datalen body_len s')
                  }
                  else Some s3);
           Some (0,
             map_option (\<lambda>p. p\<lparr>pkt_ptype := type, pkt_code := code, pkt_sfid := sfid,
                              pkt_seqno := seqno, pkt_body := body, pkt_body_len := body_len\<rparr>) pkt,
             s4)
         })
      })"

subsection \<open>The contract of a fixed-width field\<close>

locale pkt_field =
  fixes off :: "sixp_pkt_type \<Rightarrow> u8 \<Rightarrow> int"
    and width :: nat
    and enc :: "'v \<Rightarrow> u8 list"
    and dec :: "u8 list \<Rightarrow> 'v"
    and set_f :: "sixp_pkt_type \<Rightarrow> u8 \<Rightarrow> 'v \<Rightarrow> u8 list option \<Rightarrow> u16 \<Rightarrow> (int \<times> u8 list option) ub"
    and get_f :: "sixp_pkt_type \<Rightarrow> u8 \<Rightarrow> 'v option \<Rightarrow> u8 list option \<Rightarrow> u16 \<Rightarrow> (int \<times> 'v option) ub"
  assumes enc_length: "length (enc v) = width"
    and dec_enc: "dec (enc v) = v"
    and set_in: "0 \<le> off t c \<Longrightarrow> off t c + int width \<le> uint len \<Longrightarrow>
      set_f t c v (Some b) len =
        map_option (\<lambda>b'. (0, Some b')) (mem_write b (nat (off t c)) (enc v))"
    and set_no_field: "off t c < 0 \<Longrightarrow> set_f t c v (Some b) len = Some (-1, Some b)"
    and get_in: "0 \<le> off t c \<Longrightarrow> off t c + int width \<le> uint len \<Longrightarrow>
      get_f t c (Some x) (Some b) len =
        map_option (\<lambda>bs. (0, Some (dec bs))) (mem_read b (nat (off t c)) width)"
    and get_no_field: "off t c < 0 \<Longrightarrow> get_f t c (Some x) (Some b) len = Some (-1, Some x)"
    and get_short: "uint len < off t c + int width \<Longrightarrow>
      get_f t c (Some x) (Some b) len = Some (-1, Some x)"
begin

text \<open>A write inside the body succeeds, keeps every other byte and is read back.\<close>

lemma set_get:
  assumes o: "0 \<le> off t c" and fits: "off t c + int width \<le> uint len" and l: "unat len \<le> length b"
  obtains b' where "set_f t c v (Some b) len = Some (0, Some b')"
    and "mem_write b (nat (off t c)) (enc v) = Some b'"
    and "get_f t c (Some x) (Some b') len = Some (0, Some v)"
proof -
  have r: "nat (off t c) + length (enc v) \<le> length b"
    unfolding enc_length by (rule nat_range_le [OF o fits l])
  then obtain b' where b': "mem_write b (nat (off t c)) (enc v) = Some b'"
    by (simp add: mem_simps)
  have "mem_read b' (nat (off t c)) width = Some (enc v)"
    by (rule mem_read_write_same [OF b']) (simp add: enc_length)
  then have "get_f t c (Some x) (Some b') len = Some (0, Some v)"
    by (simp add: get_in [OF o fits] dec_enc)
  with b' that set_in [OF o fits] show ?thesis by simp
qed

text \<open>A write elsewhere does not change what the getter returns.\<close>

lemma get_frame:
  assumes w: "mem_write b p bs = Some b'"
    and d: "off t c < 0 \<or> nat (off t c) + width \<le> p \<or> p + length bs \<le> nat (off t c)"
  shows "get_f t c (Some x) (Some b') len = get_f t c (Some x) (Some b) len"
proof (cases "0 \<le> off t c \<and> off t c + int width \<le> uint len")
  case True
  then have "mem_read b' (nat (off t c)) width = mem_read b (nat (off t c)) width"
    using d by (intro mem_read_write_disjoint [OF w]) auto
  with True show ?thesis by (simp add: get_in)
next
  case False
  then show ?thesis by (metis get_no_field get_short linorder_not_less)
qed

lemma get_safe: "unat len \<le> length b \<Longrightarrow> get_f t c (Some x) (Some b) len \<noteq> None"
proof -
  assume l: "unat len \<le> length b"
  show "get_f t c (Some x) (Some b) len \<noteq> None"
  proof (cases "0 \<le> off t c \<and> off t c + int width \<le> uint len")
    case True
    then have "nat (off t c) + width \<le> length b"
      using l by (auto intro: nat_range_le)
    with True show ?thesis by (simp add: get_in mem_simps)
  next
    case False
    then show ?thesis by (cases "off t c < 0") (simp_all add: get_no_field get_short)
  qed
qed

end

locale checked_pkt_field = pkt_field +
  assumes set_short: "uint len < off t c + int width \<Longrightarrow>
      set_f t c v (Some b) len = Some (-1, Some b)"
begin

lemma set_safe:
  assumes l: "unat len \<le> length b"
  shows "set_f t c v (Some b) len \<noteq> None"
proof (cases "0 \<le> off t c \<and> off t c + int width \<le> uint len")
  case True
  with l show ?thesis by (auto elim: set_get [of t c len b v])
next
  case False
  then show ?thesis by (cases "off t c < 0") (simp_all add: set_no_field set_short)
qed

end

lemmas pkt_field_set_defs =
  sixp_pkt_set_metadata_def sixp_pkt_set_cell_options_def sixp_pkt_set_num_cells_def
  sixp_pkt_set_reserved_def sixp_pkt_set_offset_def sixp_pkt_set_max_num_cells_def
  sixp_pkt_set_total_num_cells_def

lemmas pkt_field_get_defs =
  sixp_pkt_get_metadata_def sixp_pkt_get_cell_options_def sixp_pkt_get_num_cells_def
  sixp_pkt_get_reserved_def sixp_pkt_get_offset_def sixp_pkt_get_max_num_cells_def
  sixp_pkt_get_total_num_cells_def

lemmas map_option_as_bind = map_conv_bind_option comp_def Let_def

interpretation metadata: checked_pkt_field get_metadata_offset 2 le16 un_le16
    sixp_pkt_set_metadata sixp_pkt_get_metadata
  by unfold_locales (simp_all add: pkt_field_set_defs pkt_field_get_defs map_option_as_bind)

interpretation cell_options: checked_pkt_field get_cell_options_offset 1 "\<lambda>v. [v]" "\<lambda>bs. bs ! 0"
    sixp_pkt_set_cell_options sixp_pkt_get_cell_options
  by unfold_locales (simp_all add: pkt_field_set_defs pkt_field_get_defs map_option_as_bind)

interpretation num_cells: pkt_field get_num_cells_offset 1 "\<lambda>v. [v]" "\<lambda>bs. bs ! 0"
    sixp_pkt_set_num_cells sixp_pkt_get_num_cells
  by unfold_locales (simp_all add: pkt_field_set_defs pkt_field_get_defs map_option_as_bind)

interpretation reserved: checked_pkt_field get_reserved_offset 1 "\<lambda>v. [v]" "\<lambda>bs. bs ! 0"
    sixp_pkt_set_reserved sixp_pkt_get_reserved
  by unfold_locales (simp_all add: pkt_field_set_defs pkt_field_get_defs map_option_as_bind)

interpretation cell_offset: checked_pkt_field get_offset_offset 2 le16 un_le16
    sixp_pkt_set_offset sixp_pkt_get_offset
  by unfold_locales (simp_all add: pkt_field_set_defs pkt_field_get_defs map_option_as_bind)

interpretation max_num_cells: checked_pkt_field get_max_num_cells_offset 2 le16 un_le16
    sixp_pkt_set_max_num_cells sixp_pkt_get_max_num_cells
  by unfold_locales (simp_all add: pkt_field_set_defs pkt_field_get_defs map_option_as_bind)

interpretation total_num_cells: pkt_field get_total_num_cells_offset 2 le16 un_le16
    sixp_pkt_set_total_num_cells sixp_pkt_get_total_num_cells
  by unfold_locales (simp_all add: pkt_field_set_defs pkt_field_get_defs map_option_as_bind)

lemma packetbuf_totlen_clear [simp]: "packetbuf_totlen (packetbuf_clear s) = 0"
  by (simp add: packetbuf_totlen_def packetbuf_hdrlen_def packetbuf_datalen_def)

lemma packetbuf_clear_content [simp]: "packetbuf_content (packetbuf_clear s) = []"
  by (simp add: packetbuf_content_def)

definition sixp_header :: "sixp_pkt_type \<Rightarrow> u8 \<Rightarrow> u8 \<Rightarrow> u8 \<Rightarrow> u8 list" where
  "sixp_header type code sfid seqno = [push_bit 4 (sixp_pkt_type_val type), code, sfid, seqno]"

lemma length_sixp_header [simp]: "length (sixp_header type code sfid seqno) = 4"
  by (simp add: sixp_header_def)

text \<open>The header part of the construction: four bytes in front of an empty packet.\<close>

lemma create_header:
  assumes l: "length (pb_mem s) = PACKETBUF_SIZE"
  obtains s2 s3 where "packetbuf_hdralloc 4 (packetbuf_clear s) = Some (1, s2)"
    and "packetbuf_poke (packetbuf_hdrptr s2)
           [push_bit 4 (sixp_pkt_type_val type) OR SIXP_PKT_VERSION, code, sfid, seqno] s2 = Some s3"
    and "packetbuf_wf s3" and "packetbuf_dataptr s3 = 4" and "pb_buflen s3 = 0"
    and "unat (pb_hdrlen s3) = 4" and "pb_bufptr s3 = 0"
    and "take 4 (pb_mem s3) = sixp_header type code sfid seqno"
proof -
  let ?s1 = "packetbuf_clear s"
  let ?h = "[push_bit 4 (sixp_pkt_type_val type) OR SIXP_PKT_VERSION, code, sfid, seqno]"
  have wf1: "packetbuf_wf ?s1" using l by (rule packetbuf_clear_wf)
  have room: "4 + packetbuf_used ?s1 \<le> PACKETBUF_SIZE" by (simp add: PACKETBUF_SIZE_def)
  obtain s2 where a: "packetbuf_hdralloc 4 ?s1 = Some (1, s2)" and wf2: "packetbuf_wf s2"
    and p: "pb_bufptr s2 = 0" "pb_buflen s2 = 0" "unat (pb_hdrlen s2) = 4"
    by (rule packetbuf_hdralloc_room [OF wf1 room]) simp
  have l2: "length (pb_mem s2) = 128" using wf2 by (simp add: packetbuf_wf_def PACKETBUF_SIZE_def)
  let ?s3 = "s2\<lparr>pb_mem := ?h @ drop 4 (pb_mem s2)\<rparr>"
  have b: "packetbuf_poke (packetbuf_hdrptr s2) ?h s2 = Some ?s3"
    using l2 by (simp add: packetbuf_poke_def packetbuf_hdrptr_def mem_write_def eval_nat_numeral)
  have wf3: "packetbuf_wf ?s3"
    using wf2 l2 by (simp add: packetbuf_wf_def packetbuf_used_def PACKETBUF_SIZE_def)
  have d: "packetbuf_dataptr ?s3 = 4"
    using unat_hdrlen [OF wf3] p by (simp add: packetbuf_dataptr_def)
  show ?thesis using that [OF a b wf3 d] p by (simp add: sixp_header_def)
qed

lemma sixp_pkt_create_empty:
  assumes l: "length (pb_mem s) = PACKETBUF_SIZE"
  obtains pkt' s' where "sixp_pkt_create type code sfid seqno None 0 pkt s = Some (0, pkt', s')"
    and "packetbuf_wf s'" and "packetbuf_content s' = sixp_header type code sfid seqno"
proof -
  obtain s2 s3 where h: "packetbuf_hdralloc 4 (packetbuf_clear s) = Some (1, s2)"
    "packetbuf_poke (packetbuf_hdrptr s2)
       [push_bit 4 (sixp_pkt_type_val type) OR SIXP_PKT_VERSION, code, sfid, seqno] s2 = Some s3"
    "packetbuf_wf s3" "pb_buflen s3 = 0" "unat (pb_hdrlen s3) = 4" "pb_bufptr s3 = 0"
    "take 4 (pb_mem s3) = sixp_header type code sfid seqno"
    using create_header [OF l, of type code sfid seqno] by metis
  have "packetbuf_content s3 = sixp_header type code sfid seqno"
    using h by (simp add: packetbuf_content_def packetbuf_used_def)
  with h that show ?thesis by (simp add: sixp_pkt_create_def)
qed

lemma sixp_pkt_create_body:
  assumes l: "length (pb_mem s) = PACKETBUF_SIZE"
    and n: "0 < blen" "unat blen \<le> length b" "4 + unat blen \<le> PACKETBUF_SIZE"
  obtains s' where "sixp_pkt_create type code sfid seqno (Some b) blen pkt s =
      Some (0, map_option (\<lambda>p. p\<lparr>pkt_ptype := type, pkt_code := code, pkt_sfid := sfid,
                 pkt_seqno := seqno, pkt_body := Some b, pkt_body_len := blen\<rparr>) pkt, s')"
    and "packetbuf_wf s'"
    and "packetbuf_content s' = sixp_header type code sfid seqno @ take (unat blen) b"
proof -
  obtain s2 s3 where h: "packetbuf_hdralloc 4 (packetbuf_clear s) = Some (1, s2)"
    "packetbuf_poke (packetbuf_hdrptr s2)
       [push_bit 4 (sixp_pkt_type_val type) OR SIXP_PKT_VERSION, code, sfid, seqno] s2 = Some s3"
    "packetbuf_wf s3" "packetbuf_dataptr s3 = 4" "unat (pb_hdrlen s3) = 4" "pb_bufptr s3 = 0"
    "take 4 (pb_mem s3) = sixp_header type code sfid seqno"
    using create_header [OF l, of type code sfid seqno] by metis
  have l3: "length (pb_mem s3) = 128" using h(3) by (simp add: packetbuf_wf_def PACKETBUF_SIZE_def)
  have n': "4 + unat blen \<le> 128" using n(3) by (simp add: PACKETBUF_SIZE_def)
  let ?m = "take 4 (pb_mem s3) @ take (unat blen) b @ drop (4 + unat blen) (pb_mem s3)"
  let ?s4 = "packetbuf_set_datalen blen (s3\<lparr>pb_mem := ?m\<rparr>)"
  have r: "mem_read b 0 (unat blen) = Some (take (unat blen) b)"
    using n(2) by (simp add: mem_read_def)
  have w: "packetbuf_poke (packetbuf_dataptr s3) (take (unat blen) b) s3 = Some (s3\<lparr>pb_mem := ?m\<rparr>)"
    using l3 n(2) n' h(4) by (simp add: packetbuf_poke_def mem_write_def min_def)
  have u: "packetbuf_used ?s4 = 4 + unat blen"
    using h by (simp add: packetbuf_used_def packetbuf_set_datalen_def)
  have wf: "packetbuf_wf ?s4"
    using u l3 n(2) n' by (simp add: packetbuf_wf_def PACKETBUF_SIZE_def packetbuf_set_datalen_def)
  have c: "packetbuf_content ?s4 = sixp_header type code sfid seqno @ take (unat blen) b"
    using l3 n(2) n' h(7) unfolding packetbuf_content_def u
    by (simp add: packetbuf_set_datalen_def min_def)
  show ?thesis
    using that [OF _ wf c] h r w n by (simp add: sixp_pkt_create_def PACKETBUF_SIZE_def)
qed

text \<open>
  \<open>sixp_pkt_create\<close> checks the length of the body before it reserves the four header
  bytes, so a body of 125 to 128 bytes passes the check and is copied past the end of the
  packet buffer.
\<close>

theorem sixp_pkt_create_overflow:
  assumes l: "length (pb_mem s) = PACKETBUF_SIZE"
    and n: "unat blen \<le> length b" "PACKETBUF_SIZE - 4 < unat blen" "unat blen \<le> PACKETBUF_SIZE"
  shows "sixp_pkt_create type code sfid seqno (Some b) blen pkt s = None"
proof -
  obtain s2 s3 where h: "packetbuf_hdralloc 4 (packetbuf_clear s) = Some (1, s2)"
    "packetbuf_poke (packetbuf_hdrptr s2)
       [push_bit 4 (sixp_pkt_type_val type) OR SIXP_PKT_VERSION, code, sfid, seqno] s2 = Some s3"
    "packetbuf_wf s3" "packetbuf_dataptr s3 = 4"
    using create_header [OF l, of type code sfid seqno] by metis
  have l3: "length (pb_mem s3) = 128" using h(3) by (simp add: packetbuf_wf_def PACKETBUF_SIZE_def)
  have "packetbuf_poke (packetbuf_dataptr s3) (take (unat blen) b) s3 = None"
    using l3 n h(4) by (simp add: packetbuf_poke_def mem_write_def PACKETBUF_SIZE_def)
  moreover have "0 < blen" using n(2) by (auto simp: word_gt_0 PACKETBUF_SIZE_def)
  ultimately show ?thesis
    using h n by (simp add: sixp_pkt_create_def mem_read_def PACKETBUF_SIZE_def)
qed

theorem sixp_pkt_create_overflow_witness:
  "sixp_pkt_create SIXP_PKT_TYPE_RESPONSE 0 0xf0 0 (Some (replicate 128 0)) 126 None
     \<lparr>pb_mem = replicate 128 0, pb_buflen = 0, pb_bufptr = 0, pb_hdrlen = 0,
      pb_attrs = (\<lambda>_. 0), pb_addrs = (\<lambda>_. 0)\<rparr> = None"
  by (rule sixp_pkt_create_overflow) (simp_all add: PACKETBUF_SIZE_def)

lemma sixp_pkt_type_roundtrip [simp]:
  "sixp_pkt_type_of (drop_bit 4 (push_bit 4 (sixp_pkt_type_val type) AND 0x30)) = type"
  "sixp_pkt_type_of (drop_bit 4 (push_bit 4 (sixp_pkt_type_val type)) AND 3) = type"
  by (cases type; simp add: sixp_pkt_type_of_def)+

lemma uint_mod4: "uint (n :: u16) mod 4 = int (unat n mod 4)"
  by (simp add: zmod_int)

lemma sixp_pkt_version_bits [simp]: "push_bit 4 (sixp_pkt_type_val type) AND 0x0f = (0 :: u8)"
  by (cases type) simp_all

lemma sixp_pkt_parse_header:
  assumes "length body = unat blen" and "unat blen + 4 < 2 ^ 16" and "sixp_pkt_body_ok type code blen"
  shows "sixp_pkt_parse (sixp_header type code sfid seqno @ body) (4 + blen) =
    Some (0, \<lparr>pkt_version = 0, pkt_ptype = type, pkt_code = code, pkt_sfid = sfid,
              pkt_seqno = seqno, pkt_body = Some body, pkt_body_len = blen\<rparr>)"
proof -
  have "unat (4 + blen) = 4 + unat blen" using assms(2) by (simp add: unat_word_ariths)
  then have "\<not> 4 + blen < 4" by (simp add: word_less_nat_alt)
  moreover have "mem_read (sixp_header type code sfid seqno @ body) 0 4 =
      Some (sixp_header type code sfid seqno)"
    by (simp add: mem_read_def)
  ultimately show ?thesis
    using assms(3) by (simp add: sixp_pkt_parse_def sixp_pkt_zero_def sixp_header_def Let_def)
qed

text \<open>
  What \<open>sixp_pkt_create\<close> puts in the packet buffer, \<open>sixp_pkt_parse\<close> reads back: type,
  code, SFID, SeqNum and body are those given, for every body that fits behind the header
  and satisfies the length rule of its type and code.
\<close>

theorem sixp_pkt_parse_create:
  assumes "length (pb_mem s) = PACKETBUF_SIZE"
    and "0 < blen" and "unat blen \<le> length b" and "4 + unat blen \<le> PACKETBUF_SIZE"
    and "sixp_pkt_body_ok type code blen"
  shows "\<exists>s'. sixp_pkt_create type code sfid seqno (Some b) blen None s = Some (0, None, s') \<and>
    packetbuf_wf s' \<and>
    sixp_pkt_parse (packetbuf_content s') (4 + blen) =
      Some (0, \<lparr>pkt_version = 0, pkt_ptype = type, pkt_code = code, pkt_sfid = sfid,
        pkt_seqno = seqno, pkt_body = Some (take (unat blen) b), pkt_body_len = blen\<rparr>)"
proof -
  obtain s' where c: "sixp_pkt_create type code sfid seqno (Some b) blen None s = Some (0, None, s')"
    and w: "packetbuf_wf s'"
    and k: "packetbuf_content s' = sixp_header type code sfid seqno @ take (unat blen) b"
    using sixp_pkt_create_body [OF assms(1-4), of type code sfid seqno None] by auto
  have "unat blen + 4 < 2 ^ 16" using assms(4) by (simp add: PACKETBUF_SIZE_def)
  with c w k assms(3,5) show ?thesis by (simp add: sixp_pkt_parse_header)
qed

theorem sixp_pkt_parse_create_witness:
  "\<exists>s'. sixp_pkt_create SIXP_PKT_TYPE_RESPONSE 0 0xf0 3 (Some [7, 0, 1, 0]) 4 None
       \<lparr>pb_mem = replicate 128 0, pb_buflen = 0, pb_bufptr = 0, pb_hdrlen = 0,
        pb_attrs = (\<lambda>_. 0), pb_addrs = (\<lambda>_. 0)\<rparr> = Some (0, None, s') \<and>
    packetbuf_wf s' \<and>
    sixp_pkt_parse (packetbuf_content s') (4 + 4) =
      Some (0, \<lparr>pkt_version = 0, pkt_ptype = SIXP_PKT_TYPE_RESPONSE, pkt_code = 0, pkt_sfid = 0xf0,
        pkt_seqno = 3, pkt_body = Some (take (unat (4::u16)) [7, 0, 1, 0]), pkt_body_len = 4\<rparr>)"
  by (rule sixp_pkt_parse_create) (simp_all add: PACKETBUF_SIZE_def sixp_pkt_body_ok_def)

text \<open>
  C38: The parser never reads outside the received bytes.  It returns \<open>0\<close> or \<open>-1\<close>, and on
  \<open>0\<close> the message has version 0, a known type, a body length that is legal for its type and
  code, and a body made of exactly the bytes behind the header.
\<close>

theorem sixp_pkt_parse_sound:
  assumes "unat len \<le> length buf"
  shows "\<exists>ret pkt. sixp_pkt_parse buf len = Some (ret, pkt) \<and> (ret = 0 \<or> ret = -1) \<and>
    (ret = 0 \<longrightarrow> pkt_version pkt = SIXP_PKT_VERSION \<and> pkt_ptype pkt \<noteq> SIXP_PKT_TYPE_RESERVED \<and>
       sixp_pkt_body_ok (pkt_ptype pkt) (pkt_code pkt) (pkt_body_len pkt) \<and>
       uint (pkt_body_len pkt) = uint len - 4 \<and> pkt_body pkt = Some (drop 4 buf))"
proof (cases "len < 4")
  case True
  then show ?thesis by (simp add: sixp_pkt_parse_def)
next
  case False
  then have l: "4 \<le> unat len" by (simp add: word_less_nat_alt)
  then have r: "mem_read buf 0 4 = Some (take 4 buf)" using assms by (simp add: mem_read_def)
  have u: "uint (len - 4) = uint len - 4"
  proof -
    have "4 \<le> len" using False by simp
    then show ?thesis using uint_minus_simple_alt [of 4 len] by simp
  qed
  have nr: "\<not> sixp_pkt_body_ok SIXP_PKT_TYPE_RESERVED c n" for c n
    by (simp add: sixp_pkt_body_ok_def)
  show ?thesis
    using False r u nr by (auto simp: sixp_pkt_parse_def Let_def)
qed

theorem sixp_pkt_parse_sound_witness:
  "\<exists>ret pkt. sixp_pkt_parse [0x10, 0, 0xf0, 3] 4 = Some (ret, pkt) \<and> (ret = 0 \<or> ret = -1) \<and>
    (ret = 0 \<longrightarrow> pkt_version pkt = SIXP_PKT_VERSION \<and> pkt_ptype pkt \<noteq> SIXP_PKT_TYPE_RESERVED \<and>
       sixp_pkt_body_ok (pkt_ptype pkt) (pkt_code pkt) (pkt_body_len pkt) \<and>
       uint (pkt_body_len pkt) = uint (4::u16) - 4 \<and> pkt_body pkt = Some (drop 4 [0x10, 0, 0xf0, 3]))"
  by (rule sixp_pkt_parse_sound) simp

subsection \<open>Properties of the field routines\<close>

lemma set_cell_list_in:
  assumes o: "0 \<le> get_cell_list_offset type code"
    and k: "k = nat (get_cell_list_offset type code) + unat co"
    and fits: "k + unat n \<le> unat body_len" and m: "unat n mod 4 = 0"
    and l: "unat body_len \<le> length b" "unat n \<le> length cells"
  obtains b' where "mem_write b k (take (unat n) cells) = Some b'"
    and "sixp_pkt_set_cell_list type code (Some cells) n co (Some b) body_len = Some (0, Some b')"
proof -
  have i: "int (unat body_len) = uint body_len" "int (unat n) = uint n" "int (unat co) = uint co"
    by simp_all
  have a: "\<not> uint body_len < get_cell_list_offset type code + uint co + uint n"
    and kk: "nat (get_cell_list_offset type code + uint co) = k"
    using o k fits i by linarith+
  have mm: "uint n mod 4 = 0" using m by (simp add: uint_mod4)
  have "k + length (take (unat n) cells) \<le> length b" using fits l by simp
  then obtain b' where b': "mem_write b k (take (unat n) cells) = Some b'" by (simp add: mem_simps)
  have "mem_read cells 0 (unat n) = Some (take (unat n) cells)" using l(2) by (simp add: mem_read_def)
  with a kk mm o b' that show ?thesis
    by (simp add: sixp_pkt_set_cell_list_def Let_def)
qed

text \<open>
  With a body and a cell list that are really as long as the caller says, writing a cell
  list stays inside the body: it either fails with \<open>-1\<close> and leaves the body alone, or it
  changes only the bytes from the field's offset plus \<open>cell_offset\<close> on, and as many as
  \<open>cell_list_len\<close> says.
\<close>

theorem sixp_pkt_set_cell_list_bounds:
  assumes "unat body_len \<le> length b" and "unat n \<le> length cells"
  shows "\<exists>ret b'. sixp_pkt_set_cell_list type code (Some cells) n co (Some b) body_len =
      Some (ret, Some b') \<and> length b' = length b \<and>
    (ret = -1 \<and> b' = b \<or>
     ret = 0 \<and> (\<forall>i. i < length b \<longrightarrow>
       b' ! i = (let k = nat (get_cell_list_offset type code) + unat co
                 in if k \<le> i \<and> i < k + unat n then cells ! (i - k) else b ! i)))"
proof (cases "0 \<le> get_cell_list_offset type code \<and>
    nat (get_cell_list_offset type code) + unat co + unat n \<le> unat body_len \<and> unat n mod 4 = 0")
  case True
  then have o: "0 \<le> get_cell_list_offset type code"
    and f: "nat (get_cell_list_offset type code) + unat co + unat n \<le> unat body_len"
    and m: "unat n mod 4 = 0" by simp_all
  obtain b' where w: "mem_write b (nat (get_cell_list_offset type code) + unat co)
        (take (unat n) cells) = Some b'"
    and s: "sixp_pkt_set_cell_list type code (Some cells) n co (Some b) body_len = Some (0, Some b')"
    by (rule set_cell_list_in [OF o refl f m assms])
  have lt: "length (take (unat n) cells) = unat n" using assms(2) by simp
  have "b' ! i = (let k = nat (get_cell_list_offset type code) + unat co
          in if k \<le> i \<and> i < k + unat n then cells ! (i - k) else b ! i)" if "i < length b" for i
    using mem_write_nth [OF w that, unfolded lt] by (auto simp: Let_def)
  with s mem_write_length [OF w] show ?thesis by simp
next
  case False
  have i: "int (unat body_len) = uint body_len" "int (unat n) = uint n" "int (unat co) = uint co"
    by simp_all
  have mm: "uint n mod 4 = 0 \<longleftrightarrow> unat n mod 4 = 0"
    by (simp add: uint_mod4)
  have "sixp_pkt_set_cell_list type code (Some cells) n co (Some b) body_len = Some (-1, Some b)"
  proof (rule ccontr)
    assume c: "\<not> ?thesis"
    then have o: "0 \<le> get_cell_list_offset type code"
      and f: "\<not> uint body_len < get_cell_list_offset type code + uint co + uint n"
      and m: "uint n mod 4 = 0"
      by (simp_all add: sixp_pkt_set_cell_list_def Let_def split: if_splits)
    have "nat (get_cell_list_offset type code) + unat co + unat n \<le> unat body_len"
      using o f i by linarith
    with False o m mm show False by simp
  qed
  then show ?thesis by simp
qed

theorem sixp_pkt_set_cell_list_bounds_witness:
  "\<exists>ret b'. sixp_pkt_set_cell_list SIXP_PKT_TYPE_REQUEST 1 (Some [1, 2, 3, 4]) 4 4
      (Some (replicate 12 0)) 12 = Some (ret, Some b') \<and> length b' = length (replicate 12 (0 :: u8)) \<and>
    (ret = -1 \<and> b' = replicate 12 0 \<or>
     ret = 0 \<and> (\<forall>i. i < length (replicate 12 (0 :: u8)) \<longrightarrow>
       b' ! i = (let k = nat (get_cell_list_offset SIXP_PKT_TYPE_REQUEST 1) + unat (4 :: u16)
                 in if k \<le> i \<and> i < k + unat (4 :: u16) then [1, 2, 3, 4] ! (i - k)
                    else replicate 12 0 ! i)))"
  by (rule sixp_pkt_set_cell_list_bounds) simp_all

text \<open>
  \<open>sixp_pkt_set_num_cells\<close> has no length check: on a body of at most three bytes it
  writes past the end, whatever \<open>body_len\<close> says, for every request that has a NumCells
  field; the getter returns \<open>-1\<close> on such a body.
\<close>

theorem sixp_pkt_set_num_cells_unchecked:
  assumes "code = SIXP_PKT_CMD_ADD \<or> code = SIXP_PKT_CMD_DELETE \<or> code = SIXP_PKT_CMD_RELOCATE"
    and "length b \<le> 3" and "body_len = of_nat (length b)"
  shows "sixp_pkt_set_num_cells SIXP_PKT_TYPE_REQUEST code v (Some b) body_len = None \<and>
    sixp_pkt_get_num_cells SIXP_PKT_TYPE_REQUEST code (Some x) (Some b) body_len = Some (-1, Some x)"
proof -
  have o: "get_num_cells_offset SIXP_PKT_TYPE_REQUEST code = 3"
    using assms(1) by (auto simp: get_num_cells_offset_def)
  have "uint body_len < 4" using assms(2,3) by (simp add: unsigned_of_nat take_bit_eq_mod)
  with o assms(2) show ?thesis
    by (simp add: sixp_pkt_set_num_cells_def sixp_pkt_get_num_cells_def mem_write_def)
qed

theorem sixp_pkt_set_num_cells_unchecked_witness:
  "sixp_pkt_set_num_cells SIXP_PKT_TYPE_REQUEST 1 5 (Some [0, 0, 0]) 3 = None \<and>
   sixp_pkt_get_num_cells SIXP_PKT_TYPE_REQUEST 1 (Some 0) (Some [0, 0, 0]) 3 = Some (-1, Some 0)"
  by (rule sixp_pkt_set_num_cells_unchecked) simp_all

text \<open>
  \<open>sixp_pkt_get_payload\<close> copies as many bytes as the caller's buffer holds, not as many
  as the payload has: with a buffer larger than the payload of a body that ends there, it
  reads past the end of the body.
\<close>

theorem sixp_pkt_get_payload_overread:
  assumes o: "0 \<le> get_payload_offset type code"
    and p: "nat (get_payload_offset type code) \<le> length b"
    and big: "length b - nat (get_payload_offset type code) < unat buf_len"
    and l: "length b = unat body_len"
  shows "sixp_pkt_get_payload type code (Some buf) buf_len (Some b) body_len = None"
proof -
  have i: "int (unat body_len) = uint body_len" "int (unat buf_len) = uint buf_len" by simp_all
  have "\<not> uint body_len - get_payload_offset type code > uint buf_len"
    using o p big l i by linarith
  moreover have "mem_read b (nat (get_payload_offset type code)) (unat buf_len) = None"
    using p big by (simp add: mem_read_def)
  ultimately show ?thesis using o by (simp add: sixp_pkt_get_payload_def)
qed

theorem sixp_pkt_get_payload_overread_witness:
  "sixp_pkt_get_payload SIXP_PKT_TYPE_REQUEST 6 (Some (replicate 16 0)) 16 (Some [0, 0, 1, 2]) 4 = None"
  by (rule sixp_pkt_get_payload_overread) (simp_all add: get_payload_offset_def)

lemma u16_4_plus:
  assumes "4 + unat n \<le> unat (m :: u16)"
  shows "unat (4 + n :: u16) = 4 + unat n" and "uint (4 + n :: u16) = 4 + uint n"
    and "4 \<le> uint m"
proof -
  have "unat m < 2 ^ LENGTH(16)" by (rule unsigned_less)
  with assms have b: "4 + unat n < 2 ^ 16" by simp
  then show u: "unat (4 + n :: u16) = 4 + unat n" by (simp add: unat_word_ariths)
  have i: "int (unat (4 + n)) = uint (4 + n)" "int (unat n) = uint n" "int (unat m) = uint m"
    by simp_all
  from u i show "uint (4 + n :: u16) = 4 + uint n" by linarith
  from assms i show "4 \<le> uint m" by linarith
qed

text \<open>
  The three writes that build a 6P ADD request (cell options, number of cells, cell
  list) succeed on a body with room for the list, and a receiver of the first
  \<open>4 + cell_list_len\<close> bytes reads back the options, the number and a cell list that starts
  at byte 4, has that length and holds the bytes written.
\<close>

theorem sixp_add_request_roundtrip:
  fixes n :: u16
  assumes l: "unat body_len \<le> length b" and fits: "4 + unat n \<le> unat body_len"
    and n: "unat n = length cells" and m: "unat n mod 4 = 0"
  shows "\<exists>b'. do {
      (r1, b1) \<leftarrow> sixp_pkt_set_cell_options SIXP_PKT_TYPE_REQUEST SIXP_PKT_CMD_ADD opts (Some b) body_len;
      (r2, b2) \<leftarrow> sixp_pkt_set_num_cells SIXP_PKT_TYPE_REQUEST SIXP_PKT_CMD_ADD num b1 body_len;
      (r3, b3) \<leftarrow> sixp_pkt_set_cell_list SIXP_PKT_TYPE_REQUEST SIXP_PKT_CMD_ADD (Some cells) n 0 b2 body_len;
      Some (r1, r2, r3, b3) } = Some (0, 0, 0, Some b') \<and>
    sixp_pkt_get_cell_options SIXP_PKT_TYPE_REQUEST SIXP_PKT_CMD_ADD (Some 0) (Some b') (4 + n) = Some (0, Some opts) \<and>
    sixp_pkt_get_num_cells SIXP_PKT_TYPE_REQUEST SIXP_PKT_CMD_ADD (Some 0) (Some b') (4 + n) = Some (0, Some num) \<and>
    sixp_pkt_get_cell_list SIXP_PKT_TYPE_REQUEST SIXP_PKT_CMD_ADD (Some 0) (Some 0) (Some b') (4 + n) = (0, Some 4, Some n) \<and>
    mem_read b' 4 (length cells) = Some cells"
proof -
  have oo: "get_cell_options_offset SIXP_PKT_TYPE_REQUEST SIXP_PKT_CMD_ADD = 2"
    and on: "get_num_cells_offset SIXP_PKT_TYPE_REQUEST SIXP_PKT_CMD_ADD = 3"
    and oc: "get_cell_list_offset SIXP_PKT_TYPE_REQUEST SIXP_PKT_CMD_ADD = 4"
    by (simp_all add: pkt_offset_defs)
  note w = u16_4_plus [OF fits]
  have l4: "4 \<le> length b" using l fits by linarith
  let ?R = SIXP_PKT_TYPE_REQUEST
  obtain b1 where s1: "sixp_pkt_set_cell_options ?R SIXP_PKT_CMD_ADD opts (Some b) body_len = Some (0, Some b1)"
    and w1: "mem_write b 2 [opts] = Some b1"
    using cell_options.set_get [of ?R SIXP_PKT_CMD_ADD body_len b opts] oo w(3) l by auto
  have l1: "length b1 = length b" by (rule mem_write_length [OF w1])
  obtain b2 where s2: "sixp_pkt_set_num_cells ?R SIXP_PKT_CMD_ADD num (Some b1) body_len = Some (0, Some b2)"
    and w2: "mem_write b1 3 [num] = Some b2"
    using num_cells.set_get [of ?R SIXP_PKT_CMD_ADD body_len b1 num] on w(3) l l1 by auto
  have l2: "length b2 = length b" using mem_write_length [OF w2] l1 by simp
  have c0: "0 \<le> get_cell_list_offset ?R SIXP_PKT_CMD_ADD" using oc by simp
  obtain b3 where w3: "mem_write b2 4 cells = Some b3"
    and s3: "sixp_pkt_set_cell_list ?R SIXP_PKT_CMD_ADD (Some cells) n 0 (Some b2) body_len = Some (0, Some b3)"
    using set_cell_list_in [OF c0, of 4 0 n body_len b2 cells] oc fits m l l2 n by auto
  have l3: "length b3 = length b" using mem_write_length [OF w3] l2 by simp
  have r: "mem_read b1 2 1 = Some [opts]" "mem_read b2 3 1 = Some [num]"
    "mem_read b3 4 (length cells) = Some cells"
    using mem_read_write_same [OF w1] mem_read_write_same [OF w2] mem_read_write_same [OF w3]
    by simp_all
  have "mem_read b3 2 1 = Some [opts]"
    using mem_read_write_disjoint [OF w3, of 2 1] mem_read_write_disjoint [OF w2, of 2 1] r by simp
  then have g1: "sixp_pkt_get_cell_options ?R SIXP_PKT_CMD_ADD (Some 0) (Some b3) (4 + n) = Some (0, Some opts)"
    using oo w(2) by (simp add: cell_options.get_in)
  have "mem_read b3 3 1 = Some [num]"
    using mem_read_write_disjoint [OF w3, of 3 1] r by simp
  then have g2: "sixp_pkt_get_num_cells ?R SIXP_PKT_CMD_ADD (Some 0) (Some b3) (4 + n) = Some (0, Some num)"
    using on w(2) by (simp add: num_cells.get_in)
  have "uint n mod 4 = 0" using m by (simp add: uint_mod4)
  then have g3: "sixp_pkt_get_cell_list ?R SIXP_PKT_CMD_ADD (Some 0) (Some 0) (Some b3) (4 + n) = (0, Some 4, Some n)"
    using oc w(2) by (simp add: sixp_pkt_get_cell_list_def)
  show ?thesis
    using s1 s2 s3 g1 g2 g3 r(3) by (intro exI [of _ b3]) simp
qed

theorem sixp_add_request_roundtrip_witness:
  "\<exists>b'. do {
      (r1, b1) \<leftarrow> sixp_pkt_set_cell_options SIXP_PKT_TYPE_REQUEST SIXP_PKT_CMD_ADD 1 (Some (replicate 20 0)) 20;
      (r2, b2) \<leftarrow> sixp_pkt_set_num_cells SIXP_PKT_TYPE_REQUEST SIXP_PKT_CMD_ADD 2 b1 20;
      (r3, b3) \<leftarrow> sixp_pkt_set_cell_list SIXP_PKT_TYPE_REQUEST SIXP_PKT_CMD_ADD (Some [7, 0, 1, 0]) 4 0 b2 20;
      Some (r1, r2, r3, b3) } = Some (0, 0, 0, Some b') \<and>
    sixp_pkt_get_cell_options SIXP_PKT_TYPE_REQUEST SIXP_PKT_CMD_ADD (Some 0) (Some b') (4 + 4) = Some (0, Some 1) \<and>
    sixp_pkt_get_num_cells SIXP_PKT_TYPE_REQUEST SIXP_PKT_CMD_ADD (Some 0) (Some b') (4 + 4) = Some (0, Some 2) \<and>
    sixp_pkt_get_cell_list SIXP_PKT_TYPE_REQUEST SIXP_PKT_CMD_ADD (Some 0) (Some 0) (Some b') (4 + 4) = (0, Some 4, Some 4) \<and>
    mem_read b' 4 (length [7, 0, 1, 0 :: u8]) = Some [7, 0, 1, 0]"
  by (rule sixp_add_request_roundtrip) simp_all

end
