(* ===== verification/Memb.thy ===== *)
theory Memb
  imports Prelude
begin

section \<open>Memory block pools\<close>

text \<open>
  Model of \<open>os/lib/memb.c\<close>.  A pool of \<open>num\<close> blocks is its list of \<open>used\<close> flags; a pointer to
  a block is the block's index, so a pointer outside the pool is an index that is not below
  the number of blocks.  The locale \<open>block_pool\<close> is the contract the clients rely on: an
  allocated block is a fresh one, allocation fails only when no block is free, freeing a
  block makes it available again and is detected when done twice.
\<close>

type_synonym memb = "bool list"

definition memb_init :: "memb \<Rightarrow> memb" where
  "memb_init m = replicate (length m) False"

text \<open>The loop over the flags, from block \<open>i\<close> on.\<close>

fun memb_first_free :: "nat \<Rightarrow> memb \<Rightarrow> nat option" where
  "memb_first_free i [] = None"
| "memb_first_free i (u # us) = (if u = False then Some i else memb_first_free (Suc i) us)"

definition memb_alloc :: "memb \<Rightarrow> nat option \<times> memb" where
  "memb_alloc m =
     (case memb_first_free 0 m of
        Some i \<Rightarrow> (Some i, m[i := True])
      | None \<Rightarrow> (None, m))"

definition memb_free :: "memb \<Rightarrow> nat \<Rightarrow> int \<times> memb" where
  "memb_free m ptr =
     (if ptr < length m
      then if m ! ptr = False then (-1, m) else (0, m[ptr := False])
      else (-1, m))"

definition memb_inmemb :: "memb \<Rightarrow> nat \<Rightarrow> bool" where
  "memb_inmemb m ptr \<longleftrightarrow> ptr < length m"

fun memb_numfree :: "memb \<Rightarrow> nat" where
  "memb_numfree [] = 0"
| "memb_numfree (u # us) = (if u = False then Suc (memb_numfree us) else memb_numfree us)"

text \<open>The allocated blocks.\<close>

definition memb_blocks :: "memb \<Rightarrow> nat set" where
  "memb_blocks m = {i. i < length m \<and> m ! i}"

subsection \<open>The contract\<close>

locale block_pool =
  fixes alloc :: "'p \<Rightarrow> nat option \<times> 'p"
    and free :: "'p \<Rightarrow> nat \<Rightarrow> int \<times> 'p"
    and numfree :: "'p \<Rightarrow> nat"
    and blocks :: "'p \<Rightarrow> nat set"
    and capacity :: "'p \<Rightarrow> nat"
  assumes alloc_fresh: "alloc p = (Some i, p') \<Longrightarrow>
      i \<notin> blocks p \<and> i < capacity p \<and> blocks p' = insert i (blocks p) \<and> capacity p' = capacity p"
    and alloc_fail: "alloc p = (None, p') \<Longrightarrow> numfree p = 0 \<and> p' = p"
    and free_used: "i \<in> blocks p \<Longrightarrow>
      fst (free p i) = 0 \<and> blocks (snd (free p i)) = blocks p - {i} \<and>
      capacity (snd (free p i)) = capacity p"
    and free_unused: "i \<notin> blocks p \<Longrightarrow> free p i = (-1, p)"
    and blocks_bound: "blocks p \<subseteq> {..<capacity p}"
    and numfree_card: "numfree p + card (blocks p) = capacity p"
begin

lemma finite_blocks: "finite (blocks p)"
  using blocks_bound by (rule finite_subset) simp

text \<open>Allocation succeeds exactly when a block is free.\<close>

lemma alloc_succeeds_iff: "(\<exists>i p'. alloc p = (Some i, p')) \<longleftrightarrow> 0 < numfree p"
proof
  assume "\<exists>i p'. alloc p = (Some i, p')"
  then obtain i p' where a: "alloc p = (Some i, p')" by blast
  note f = alloc_fresh [OF a]
  have "card (insert i (blocks p)) \<le> card {..<capacity p}"
    using f blocks_bound [of p] by (intro card_mono) auto
  then have "Suc (card (blocks p)) \<le> capacity p" using f finite_blocks by simp
  with numfree_card [of p] show "0 < numfree p" by linarith
next
  assume "0 < numfree p"
  then show "\<exists>i p'. alloc p = (Some i, p')"
    using alloc_fail [of p] by (cases "alloc p"; cases "fst (alloc p)") auto
qed

lemma alloc_numfree: "alloc p = (Some i, p') \<Longrightarrow> numfree p = Suc (numfree p')"
proof -
  assume a: "alloc p = (Some i, p')"
  note f = alloc_fresh [OF a]
  have "card (blocks p') = Suc (card (blocks p))" using f finite_blocks by simp
  with f numfree_card [of p] numfree_card [of p'] show ?thesis by linarith
qed

text \<open>Freeing what was just allocated restores the pool; freeing it again is refused.\<close>

lemma alloc_free:
  assumes a: "alloc p = (Some i, p')"
  shows "fst (free p' i) = 0 \<and> blocks (snd (free p' i)) = blocks p \<and>
    fst (free (snd (free p' i)) i) = -1"
proof -
  note f = alloc_fresh [OF a]
  then have "i \<in> blocks p'" by simp
  from free_used [OF this] f have "fst (free p' i) = 0" "blocks (snd (free p' i)) = blocks p"
    by auto
  moreover from this f have "free (snd (free p' i)) i = (-1, snd (free p' i))"
    by (intro free_unused) simp
  ultimately show ?thesis by simp
qed

end

subsection \<open>The pools of the code\<close>

lemma memb_first_free_Some:
  "memb_first_free i m = Some j \<Longrightarrow> i \<le> j \<and> j < i + length m \<and> \<not> m ! (j - i) \<and> (\<forall>k < j - i. m ! k)"
proof (induction i m rule: memb_first_free.induct)
  case (2 i u us)
  show ?case
  proof (cases u)
    case True
    with 2 have "Suc i \<le> j \<and> j < Suc i + length us \<and> \<not> us ! (j - Suc i) \<and> (\<forall>k < j - Suc i. us ! k)"
      by simp
    with True show ?thesis by (auto simp: nth_Cons' Suc_diff_Suc)
  next
    case False
    with 2 show ?thesis by simp
  qed
qed simp

lemma memb_first_free_None: "memb_first_free i m = None \<longleftrightarrow> (\<forall>u \<in> set m. u)"
  by (induction i m rule: memb_first_free.induct) auto

lemma memb_alloc_Some:
  assumes "memb_alloc m = (Some i, m')"
  shows "i < length m" "\<not> m ! i" "m' = m[i := True]" "\<forall>k < i. m ! k"
  using assms memb_first_free_Some [of 0 m i] by (auto simp: memb_alloc_def split: option.splits)

lemma memb_numfree_zero: "memb_numfree m = 0 \<longleftrightarrow> (\<forall>u \<in> set m. u)"
  by (induction m) auto

lemma memb_numfree_card: "memb_numfree m + card (memb_blocks m) = length m"
proof (induction m)
  case Nil
  then show ?case by (simp add: memb_blocks_def)
next
  case (Cons u us)
  have e: "memb_blocks (u # us) = (if u then insert 0 else id) (Suc ` memb_blocks us)"
  proof (rule set_eqI)
    fix i
    show "i \<in> memb_blocks (u # us) \<longleftrightarrow> i \<in> (if u then insert 0 else id) (Suc ` memb_blocks us)"
      by (cases i) (auto simp: memb_blocks_def)
  qed
  have fin: "finite (memb_blocks us)" by (simp add: memb_blocks_def)
  have c: "card (Suc ` memb_blocks us) = card (memb_blocks us)" by (simp add: card_image)
  show ?case
  proof (cases u)
    case True
    have "card (memb_blocks (u # us)) = Suc (card (memb_blocks us))"
      unfolding e using True fin c by simp
    with Cons True show ?thesis by simp
  next
    case False
    with Cons c show ?thesis unfolding e by simp
  qed
qed

interpretation memb: block_pool memb_alloc memb_free memb_numfree memb_blocks length
proof unfold_locales
  fix p :: memb and i p'
  assume "memb_alloc p = (Some i, p')"
  from memb_alloc_Some [OF this]
  show "i \<notin> memb_blocks p \<and> i < length p \<and> memb_blocks p' = insert i (memb_blocks p) \<and> length p' = length p"
    by (auto simp: memb_blocks_def nth_list_update)
next
  fix p p' :: memb
  assume "memb_alloc p = (None, p')"
  then show "memb_numfree p = 0 \<and> p' = p"
    by (auto simp: memb_alloc_def memb_numfree_zero memb_first_free_None split: option.splits)
next
  fix p :: memb and i
  assume "i \<in> memb_blocks p"
  then show "fst (memb_free p i) = 0 \<and> memb_blocks (snd (memb_free p i)) = memb_blocks p - {i} \<and>
      length (snd (memb_free p i)) = length p"
    by (auto simp: memb_blocks_def memb_free_def nth_list_update)
next
  fix p :: memb and i
  assume "i \<notin> memb_blocks p"
  then show "memb_free p i = (-1, p)" by (auto simp: memb_blocks_def memb_free_def)
next
  fix p :: memb
  show "memb_blocks p \<subseteq> {..<length p}" by (auto simp: memb_blocks_def)
  show "memb_numfree p + card (memb_blocks p) = length p" by (rule memb_numfree_card)
qed

lemma memb_init_blocks [simp]: "memb_blocks (memb_init m) = {}" "length (memb_init m) = length m"
  by (auto simp: memb_blocks_def memb_init_def)

lemma memb_free_length [simp]: "length (snd (memb_free m i)) = length m"
  by (simp add: memb_free_def)

text \<open>
  A pool hands out a block exactly when one is free; the block is one that was not in
  use, the other blocks stay as they are, giving it back restores the pool, and giving it
  back a second time is refused with \<open>-1\<close>.
\<close>

theorem memb_alloc_free:
  "(0 < memb_numfree m \<longleftrightarrow> (\<exists>i m'. memb_alloc m = (Some i, m'))) \<and>
   (memb_alloc m = (Some i, m') \<longrightarrow>
      i \<notin> memb_blocks m \<and> memb_blocks m' = insert i (memb_blocks m) \<and>
      memb_numfree m = Suc (memb_numfree m') \<and>
      fst (memb_free m' i) = 0 \<and> memb_blocks (snd (memb_free m' i)) = memb_blocks m \<and>
      fst (memb_free (snd (memb_free m' i)) i) = -1)"
  using memb.alloc_succeeds_iff [of m] memb.alloc_free [of m i m'] memb.alloc_fresh [of m i m']
    memb.alloc_numfree [of m i m']
  by blast

theorem memb_alloc_free_witness:
  "memb_alloc [True, False, False] = (Some 1, [True, True, False]) \<and>
   memb_blocks (snd (memb_free [True, True, False] 1)) = memb_blocks [True, False, False]"
  using memb_alloc_free [of "[True, False, False]" 1 "[True, True, False]"]
  by (simp add: memb_alloc_def)

end
