(* ===== verification/Nbr_Table.thy ===== *)
theory Nbr_Table
  imports Packetbuf Memb
begin

section \<open>Neighbour tables\<close>

text \<open>
  Model of \<open>os/net/nbr-table.c\<close>.  All neighbour tables share one pool of link-layer
  addresses (the keys); a table keeps, for each key index, one item in its own array, and
  two bitmaps say which tables use and which lock the neighbour of an index.

  Key and item pointers are indices (\<open>None\<close> for NULL and for the index \<open>-1\<close>); the list of
  keys is the list of their indices in list order.  A table is named by a number
  (\<open>tbl_id\<close>); \<open>tbl_zero\<close> clears an item of its array (the \<open>memset\<close> of the code).  What the
  platform configures with macros, the replacement policy, and the callbacks that other
  modules register are the fields of \<open>nbr_env\<close>; the defaults of the file are the definitions
  \<open>nbr_table_gc_get_worst\<close> and \<open>nbr_table_can_accept_new\<close>.
\<close>

record nbr_state = packetbuf_state +
  nt_mem :: memb                              \<comment> \<open>\<open>neighbor_addr_mem\<close>\<close>
  nt_lladdr :: "linkaddr list"                \<comment> \<open>the \<open>lladdr\<close> field of every key\<close>
  nt_keys :: "nat list"                       \<comment> \<open>\<open>nbr_table_keys\<close>\<close>
  nt_used_map :: "u8 list"
  nt_locked_map :: "u8 list"
  nt_all_tables :: "nat option list"          \<comment> \<open>\<open>all_tables\<close>\<close>
  nt_num_tables :: nat
  nt_index :: "nat \<Rightarrow> nat"                    \<comment> \<open>the \<open>index\<close> field of every table\<close>
  nt_callback :: "nat \<Rightarrow> bool"                \<comment> \<open>does the table have a callback?\<close>

record 's nbr_table =
  tbl_id :: nat
  tbl_zero :: "nat \<Rightarrow> 's \<Rightarrow> 's"

record 's nbr_env =
  env_gc_get_worst :: "'s \<Rightarrow> linkaddr \<Rightarrow> linkaddr \<Rightarrow> linkaddr"
  env_can_accept_new :: "'s \<Rightarrow> linkaddr \<Rightarrow> linkaddr option \<Rightarrow> nat \<Rightarrow> bool"
  env_nbr_callback :: "nat \<Rightarrow> nat \<Rightarrow> 's \<Rightarrow> 's"

definition MAX_NUM_TABLES :: nat where
  "MAX_NUM_TABLES = 8"

text \<open>The item behind an item of a list (\<open>list_item_next\<close>); an unlinked one has no next.\<close>

definition items_after :: "'b \<Rightarrow> 'b list \<Rightarrow> 'b list" where
  "items_after x xs = tl (dropWhile (\<lambda>y. y \<noteq> x) xs)"

subsection \<open>Lookup\<close>

definition index_from_lladdr :: "linkaddr option \<Rightarrow> 'a nbr_state_scheme \<Rightarrow> nat option" where
  "index_from_lladdr lladdr s =
     (let a = (case lladdr of None \<Rightarrow> 0 | Some a \<Rightarrow> a)
      in find (\<lambda>k. nt_lladdr s ! k = a) (nt_keys s))"

definition nbr_get_bit :: "u8 list \<Rightarrow> nat \<Rightarrow> nat option \<Rightarrow> bool" where
  "nbr_get_bit bitmap tindex item =
     (case item of None \<Rightarrow> False | Some i \<Rightarrow> bitmap ! i AND push_bit tindex 1 \<noteq> 0)"

definition nbr_set_bit :: "u8 list \<Rightarrow> nat \<Rightarrow> nat option \<Rightarrow> bool \<Rightarrow> int \<times> u8 list" where
  "nbr_set_bit bitmap tindex item val =
     (case item of
        None \<Rightarrow> (0, bitmap)
      | Some i \<Rightarrow>
          (1, bitmap[i := (if val then bitmap ! i OR push_bit tindex 1
                           else bitmap ! i AND NOT (push_bit tindex 1))]))"

definition nbr_table_get_from_lladdr ::
  "('a nbr_state_scheme) nbr_table \<Rightarrow> linkaddr option \<Rightarrow> 'a nbr_state_scheme \<Rightarrow> nat option" where
  "nbr_table_get_from_lladdr t lladdr s =
     (let item = index_from_lladdr lladdr s
      in if nbr_get_bit (nt_used_map s) (nt_index s (tbl_id t)) item then item else None)"

definition nbr_table_get_lladdr :: "nat option \<Rightarrow> 'a nbr_state_scheme \<Rightarrow> linkaddr option" where
  "nbr_table_get_lladdr item s = map_option (\<lambda>i. nt_lladdr s ! i) item"

definition nbr_table_next :: "('a nbr_state_scheme) nbr_table \<Rightarrow> nat option \<Rightarrow> 'a nbr_state_scheme \<Rightarrow> nat option" where
  "nbr_table_next t item s =
     (case item of
        None \<Rightarrow> None
      | Some i \<Rightarrow> find (\<lambda>k. nbr_get_bit (nt_used_map s) (nt_index s (tbl_id t)) (Some k))
                      (items_after i (nt_keys s)))"

definition nbr_table_head :: "('a nbr_state_scheme) nbr_table \<Rightarrow> 'a nbr_state_scheme \<Rightarrow> nat option" where
  "nbr_table_head t s =
     (let item = (case nt_keys s of [] \<Rightarrow> None | k # _ \<Rightarrow> Some k)
      in if nbr_get_bit (nt_used_map s) (nt_index s (tbl_id t)) item then item
         else nbr_table_next t item s)"

text \<open>
  The items that a loop from \<open>nbr_table_head\<close> along \<open>nbr_table_next\<close> visits, in order
  (lemma \<open>nbr_table_items_loop\<close>).
\<close>

definition nbr_table_items :: "('a nbr_state_scheme) nbr_table \<Rightarrow> 'a nbr_state_scheme \<Rightarrow> nat list" where
  "nbr_table_items t s =
     filter (\<lambda>k. nbr_get_bit (nt_used_map s) (nt_index s (tbl_id t)) (Some k)) (nt_keys s)"

definition nbr_table_count_entries :: "'a nbr_state_scheme \<Rightarrow> nat" where
  "nbr_table_count_entries s = length (filter (\<lambda>u. u > 0) (nt_used_map s))"

subsection \<open>Removal and the replacement policy\<close>

text \<open>The loop that calls the callback of every table that uses the removed neighbour.\<close>

definition remove_key_callback ::
  "('a nbr_state_scheme) nbr_env \<Rightarrow> nat \<Rightarrow> nat \<Rightarrow> 'a nbr_state_scheme \<Rightarrow> 'a nbr_state_scheme" where
  "remove_key_callback env key i s =
     (case nt_all_tables s ! i of
        None \<Rightarrow> s
      | Some t \<Rightarrow>
          if nt_callback s t \<and> nbr_get_bit (nt_used_map s) (nt_index s t) (Some key)
          then env_nbr_callback env t key s else s)"

definition remove_key ::
  "('a nbr_state_scheme) nbr_env \<Rightarrow> nat \<Rightarrow> bool \<Rightarrow> 'a nbr_state_scheme \<Rightarrow> 'a nbr_state_scheme" where
  "remove_key env key do_free s =
     (let s1 = fold (remove_key_callback env key) [0..<MAX_NUM_TABLES] s;
          s2 = s1\<lparr>nt_used_map := (nt_used_map s1)[key := 0],
                  nt_locked_map := (nt_locked_map s1)[key := 0],
                  nt_keys := remove1 key (nt_keys s1)\<rparr>
      in if do_free then s2\<lparr>nt_mem := snd (memb_free (nt_mem s2) key)\<rparr> else s2)"

fun count_ones :: "nat \<Rightarrow> nat" where
  "count_ones used =
     (if used = 0 then 0 else (if used mod 2 = 1 then 1 else 0) + count_ones (used div 2))"

declare count_ones.simps [simp del]

definition used_count :: "linkaddr \<Rightarrow> 'a nbr_state_scheme \<Rightarrow> nat" where
  "used_count lladdr s =
     (case index_from_lladdr (Some lladdr) s of
        None \<Rightarrow> 0 | Some i \<Rightarrow> count_ones (unat (nt_used_map s ! i)))"

definition nbr_table_gc_get_worst :: "'a nbr_state_scheme \<Rightarrow> linkaddr \<Rightarrow> linkaddr \<Rightarrow> linkaddr" where
  "nbr_table_gc_get_worst s lladdr1 lladdr2 =
     (if used_count lladdr2 s < used_count lladdr1 s then lladdr2 else lladdr1)"

definition nbr_table_can_accept_new ::
  "'a nbr_state_scheme \<Rightarrow> linkaddr \<Rightarrow> linkaddr option \<Rightarrow> nat \<Rightarrow> bool" where
  "nbr_table_can_accept_new s new candidate_for_removal reason = True"

definition select_for_removal ::
  "('a nbr_state_scheme) nbr_env \<Rightarrow> linkaddr \<Rightarrow> nat \<Rightarrow> 'a nbr_state_scheme \<Rightarrow> linkaddr option" where
  "select_for_removal env new reason s =
     (let worst = fold (\<lambda>k worst.
            if nt_locked_map s ! k \<noteq> 0 then worst
            else case worst of
                None \<Rightarrow> Some (nt_lladdr s ! k)
              | Some w \<Rightarrow> Some (env_gc_get_worst env s w (nt_lladdr s ! k)))
          (nt_keys s) None
      in if worst \<noteq> None \<and> env_can_accept_new env s new worst reason then worst else None)"

definition entry_is_allowed ::
  "('a nbr_state_scheme) nbr_env \<Rightarrow> ('a nbr_state_scheme) nbr_table \<Rightarrow> linkaddr \<Rightarrow> nat \<Rightarrow>
   'a nbr_state_scheme \<Rightarrow> bool \<times> linkaddr option" where
  "entry_is_allowed env t lladdr reason s =
     (if nbr_table_get_from_lladdr t (Some lladdr) s \<noteq> None then (True, None)
      else if index_from_lladdr (Some lladdr) s \<noteq> None \<or> 0 < memb_numfree (nt_mem s)
      then (env_can_accept_new env s lladdr None reason, None)
      else let r = select_for_removal env lladdr reason s in (r \<noteq> None, r))"

definition nbr_table_allocate ::
  "('a nbr_state_scheme) nbr_env \<Rightarrow> linkaddr option \<Rightarrow> 'a nbr_state_scheme \<Rightarrow>
   nat option \<times> 'a nbr_state_scheme" where
  "nbr_table_allocate env to_be_removed_lladdr s =
     (case memb_alloc (nt_mem s) of
        (Some i, m) \<Rightarrow> (Some i, s\<lparr>nt_mem := m\<rparr>)
      | (None, m) \<Rightarrow>
          (case to_be_removed_lladdr of
             None \<Rightarrow> (None, s)
           | Some a \<Rightarrow>
               (case index_from_lladdr (Some a) s of
                  None \<Rightarrow> (None, s)
                | Some k \<Rightarrow> (Some k, remove_key env k False s))))"

subsection \<open>Registering, adding, removing and locking\<close>

definition nbr_table_is_registered :: "nat \<Rightarrow> 'a nbr_state_scheme \<Rightarrow> bool" where
  "nbr_table_is_registered t s \<longleftrightarrow>
     nt_index s t < MAX_NUM_TABLES \<and> nt_all_tables s ! nt_index s t = Some t"

definition nbr_table_register ::
  "nat \<Rightarrow> bool \<Rightarrow> 'a nbr_state_scheme \<Rightarrow> int \<times> 'a nbr_state_scheme" where
  "nbr_table_register t callback s =
     (if nbr_table_is_registered t s then (1, s\<lparr>nt_callback := (nt_callback s)(t := callback)\<rparr>)
      else if nt_num_tables s < MAX_NUM_TABLES
      then (1, s\<lparr>nt_index := (nt_index s)(t := nt_num_tables s),
                 nt_num_tables := Suc (nt_num_tables s),
                 nt_callback := (nt_callback s)(t := callback),
                 nt_all_tables := (nt_all_tables s)[nt_num_tables s := Some t]\<rparr>)
      else (0, s))"

text \<open>Adding the neighbour of an address that is not in the pool yet: a key for it.\<close>

definition nbr_table_new_key ::
  "('a nbr_state_scheme) nbr_env \<Rightarrow> linkaddr \<Rightarrow> linkaddr option \<Rightarrow> 'a nbr_state_scheme \<Rightarrow>
   nat option \<times> 'a nbr_state_scheme" where
  "nbr_table_new_key env a to_be_removed s =
     (case nbr_table_allocate env to_be_removed s of
        (None, s1) \<Rightarrow> (None, s1)
      | (Some k, s1) \<Rightarrow>
          (Some k, s1\<lparr>nt_keys := remove1 k (nt_keys s1) @ [k],
                      nt_lladdr := (nt_lladdr s1)[k := a]\<rparr>))"

definition nbr_table_add_lladdr ::
  "('a nbr_state_scheme) nbr_env \<Rightarrow> ('a nbr_state_scheme) nbr_table \<Rightarrow> linkaddr option \<Rightarrow> nat \<Rightarrow>
   'a nbr_state_scheme \<Rightarrow> nat option \<times> 'a nbr_state_scheme" where
  "nbr_table_add_lladdr env t lladdr reason s =
     (let a = (case lladdr of None \<Rightarrow> 0 | Some a \<Rightarrow> a);
          allowed = entry_is_allowed env t a reason s
      in if \<not> fst allowed then (None, s)
      else let new = (case index_from_lladdr (Some a) s of
              Some i \<Rightarrow> (Some i, s)
            | None \<Rightarrow> nbr_table_new_key env a (snd allowed) s)
      in case new of
           (None, s1) \<Rightarrow> (None, s1)
         | (Some i, s1) \<Rightarrow>
             (let s2 = tbl_zero t i s1
              in (Some i, s2\<lparr>nt_used_map :=
                     snd (nbr_set_bit (nt_used_map s2) (nt_index s2 (tbl_id t)) (Some i) True)\<rparr>)))"

definition nbr_table_remove ::
  "('a nbr_state_scheme) nbr_table \<Rightarrow> nat option \<Rightarrow> 'a nbr_state_scheme \<Rightarrow> int \<times> 'a nbr_state_scheme" where
  "nbr_table_remove t item s =
     (let u = nbr_set_bit (nt_used_map s) (nt_index s (tbl_id t)) item False;
          l = nbr_set_bit (nt_locked_map s) (nt_index s (tbl_id t)) item False
      in (fst u, s\<lparr>nt_used_map := snd u, nt_locked_map := snd l\<rparr>))"

definition nbr_table_lock ::
  "('a nbr_state_scheme) nbr_table \<Rightarrow> nat option \<Rightarrow> 'a nbr_state_scheme \<Rightarrow> int \<times> 'a nbr_state_scheme" where
  "nbr_table_lock t item s =
     (let l = nbr_set_bit (nt_locked_map s) (nt_index s (tbl_id t)) item True
      in (fst l, s\<lparr>nt_locked_map := snd l\<rparr>))"

definition nbr_table_unlock ::
  "('a nbr_state_scheme) nbr_table \<Rightarrow> nat option \<Rightarrow> 'a nbr_state_scheme \<Rightarrow> int \<times> 'a nbr_state_scheme" where
  "nbr_table_unlock t item s =
     (let l = nbr_set_bit (nt_locked_map s) (nt_index s (tbl_id t)) item False
      in (fst l, s\<lparr>nt_locked_map := snd l\<rparr>))"

subsection \<open>Invariant\<close>

definition nbr_wf :: "'a nbr_state_scheme \<Rightarrow> bool" where
  "nbr_wf s \<longleftrightarrow>
     length (nt_lladdr s) = length (nt_mem s) \<and> length (nt_used_map s) = length (nt_mem s) \<and>
     length (nt_locked_map s) = length (nt_mem s) \<and> length (nt_all_tables s) = MAX_NUM_TABLES \<and>
     distinct (nt_keys s) \<and> set (nt_keys s) = memb_blocks (nt_mem s) \<and>
     inj_on (\<lambda>k. nt_lladdr s ! k) (set (nt_keys s))"

text \<open>What the module needs of a client's array: clearing an item leaves the tables alone.\<close>

definition zero_ok :: "('a nbr_state_scheme) nbr_table \<Rightarrow> bool" where
  "zero_ok t \<longleftrightarrow> (\<forall>i s. nbr_state.truncate (tbl_zero t i s) = nbr_state.truncate s)"

lemma zero_ok_fields:
  assumes "zero_ok t"
  shows "nt_mem (tbl_zero t i s) = nt_mem s" "nt_lladdr (tbl_zero t i s) = nt_lladdr s"
    "nt_keys (tbl_zero t i s) = nt_keys s" "nt_used_map (tbl_zero t i s) = nt_used_map s"
    "nt_locked_map (tbl_zero t i s) = nt_locked_map s"
    "nt_all_tables (tbl_zero t i s) = nt_all_tables s"
    "nt_index (tbl_zero t i s) = nt_index s" "nt_callback (tbl_zero t i s) = nt_callback s"
proof -
  have e: "nbr_state.truncate (tbl_zero t i s) = nbr_state.truncate s"
    using assms by (simp add: zero_ok_def)
  show "nt_mem (tbl_zero t i s) = nt_mem s" "nt_lladdr (tbl_zero t i s) = nt_lladdr s"
    "nt_keys (tbl_zero t i s) = nt_keys s" "nt_used_map (tbl_zero t i s) = nt_used_map s"
    "nt_locked_map (tbl_zero t i s) = nt_locked_map s"
    "nt_all_tables (tbl_zero t i s) = nt_all_tables s"
    "nt_index (tbl_zero t i s) = nt_index s" "nt_callback (tbl_zero t i s) = nt_callback s"
    using e by (simp_all add: nbr_state.truncate_def)
qed

lemma find_filter: "find P xs = (case filter P xs of [] \<Rightarrow> None | x # _ \<Rightarrow> Some x)"
  by (induction xs) auto

lemma items_after_split: "x \<notin> set xs \<Longrightarrow> items_after x (xs @ x # ys) = ys"
  by (induction xs) (auto simp: items_after_def)

text \<open>Walking the table with \<open>nbr_table_head\<close> and \<open>nbr_table_next\<close> visits \<open>nbr_table_items\<close>.\<close>

lemma nbr_table_items_loop:
  assumes "distinct (nt_keys s)"
  shows "nbr_table_head t s = (case nbr_table_items t s of [] \<Rightarrow> None | x # _ \<Rightarrow> Some x)"
    and "nbr_table_items t s = xs @ x # ys \<Longrightarrow>
      nbr_table_next t (Some x) s = (case ys of [] \<Rightarrow> None | y # _ \<Rightarrow> Some y)"
proof -
  show "nbr_table_head t s = (case nbr_table_items t s of [] \<Rightarrow> None | x # _ \<Rightarrow> Some x)"
  proof (cases "nt_keys s")
    case Nil
    then show ?thesis
      by (simp add: nbr_table_head_def nbr_table_items_def nbr_table_next_def nbr_get_bit_def)
  next
    case (Cons k ks)
    then have "items_after k (nt_keys s) = ks" by (simp add: items_after_def)
    with Cons show ?thesis
      by (auto simp: nbr_table_head_def nbr_table_items_def nbr_table_next_def find_filter Let_def)
  qed
  let ?P = "\<lambda>k. nbr_get_bit (nt_used_map s) (nt_index s (tbl_id t)) (Some k)"
  assume i: "nbr_table_items t s = xs @ x # ys"
  then have x: "x \<in> set (nbr_table_items t s)" by simp
  then have "x \<in> set (nt_keys s)" by (simp add: nbr_table_items_def)
  then obtain us vs where k: "nt_keys s = us @ x # vs" and nu: "x \<notin> set us"
    by (metis split_list_first)
  have px: "?P x" using x by (simp add: nbr_table_items_def)
  have "filter ?P us @ x # filter ?P vs = xs @ x # ys"
    using i px by (simp add: nbr_table_items_def k)
  moreover have "x \<notin> set xs" "x \<notin> set ys"
  proof -
    have "distinct (nbr_table_items t s)" using assms by (simp add: nbr_table_items_def)
    then have "distinct (xs @ x # ys)" unfolding i .
    then show "x \<notin> set xs" "x \<notin> set ys" by simp_all
  qed
  ultimately have "ys = filter ?P vs" by (metis append_Cons_eq_iff)
  then show "nbr_table_next t (Some x) s = (case ys of [] \<Rightarrow> None | y # _ \<Rightarrow> Some y)"
    by (simp add: nbr_table_next_def k items_after_split [OF nu] find_filter)
qed

lemma index_from_lladdr_Some:
  "index_from_lladdr (Some a) s = Some k \<Longrightarrow> k \<in> set (nt_keys s) \<and> nt_lladdr s ! k = a"
  by (auto simp: index_from_lladdr_def find_Some_iff)

lemma index_from_lladdr_None:
  "index_from_lladdr (Some a) s = None \<Longrightarrow> k \<in> set (nt_keys s) \<Longrightarrow> nt_lladdr s ! k \<noteq> a"
  by (auto simp: index_from_lladdr_def find_None_iff)

lemma index_from_lladdr_iff:
  assumes "nbr_wf s"
  shows "index_from_lladdr (Some a) s = Some k \<longleftrightarrow> k \<in> set (nt_keys s) \<and> nt_lladdr s ! k = a"
proof
  assume k: "k \<in> set (nt_keys s) \<and> nt_lladdr s ! k = a"
  then obtain k' where k': "index_from_lladdr (Some a) s = Some k'"
    using index_from_lladdr_None [of a s k] by (cases "index_from_lladdr (Some a) s") auto
  from index_from_lladdr_Some [OF this] k assms have "k' = k"
    by (auto simp: nbr_wf_def inj_on_def)
  with k' show "index_from_lladdr (Some a) s = Some k" by simp
qed (rule index_from_lladdr_Some)

lemma nbr_get_set_bit:
  assumes "i < length m" and "k < 8"
  shows "nbr_get_bit (snd (nbr_set_bit m k (Some i) v)) k' item =
    (if item = Some i \<and> k' = k then v else nbr_get_bit m k' item)"
  using assms
  by (cases item; cases "the item = i")
     (auto simp: nbr_get_bit_def nbr_set_bit_def and_exp_eq_0_iff_not_bit bit_simps dest: bit_imp_le_length)

lemma nbr_set_bit_length [simp]: "length (snd (nbr_set_bit m k item v)) = length m"
  by (simp add: nbr_set_bit_def split: option.split)

lemma fold_remove_key_callback:
  "(\<And>x. \<not> nt_callback s x) \<Longrightarrow> fold (remove_key_callback env key) xs s = s"
  by (induction xs) (auto simp: remove_key_callback_def split: option.split)

lemma remove_key_no_callback:
  "(\<And>x. \<not> nt_callback s x) \<Longrightarrow> remove_key env key False s =
     s\<lparr>nt_used_map := (nt_used_map s)[key := 0], nt_locked_map := (nt_locked_map s)[key := 0],
       nt_keys := remove1 key (nt_keys s)\<rparr>"
  by (simp add: remove_key_def fold_remove_key_callback Let_def)

definition gc_policy_ok :: "'s nbr_env \<Rightarrow> bool" where
  "gc_policy_ok env \<longleftrightarrow> (\<forall>s x y. env_gc_get_worst env s x y = x \<or> env_gc_get_worst env s x y = y)"

text \<open>The neighbour chosen for removal is one of the list that no table has locked.\<close>

lemma select_for_removal_unlocked:
  assumes p: "gc_policy_ok env" and r: "select_for_removal env new reason s = Some w"
  shows "\<exists>k \<in> set (nt_keys s). nt_lladdr s ! k = w \<and> nt_locked_map s ! k = 0"
proof -
  let ?f = "\<lambda>k worst. if nt_locked_map s ! k \<noteq> 0 then worst
            else case worst of None \<Rightarrow> Some (nt_lladdr s ! k)
              | Some w \<Rightarrow> Some (env_gc_get_worst env s w (nt_lladdr s ! k))"
  have g: "fold ?f ks acc = Some w \<Longrightarrow>
      (\<forall>v. acc = Some v \<longrightarrow> Q v) \<Longrightarrow> (\<forall>k \<in> set ks. nt_locked_map s ! k = 0 \<longrightarrow> Q (nt_lladdr s ! k)) \<Longrightarrow> Q w"
    for ks acc Q
  proof (induction ks arbitrary: acc)
    case (Cons k ks)
    have "\<forall>v. ?f k acc = Some v \<longrightarrow> Q v"
      using Cons.prems(2,3) p by (auto simp: gc_policy_ok_def split: option.splits) metis
    with Cons show ?case by simp
  qed simp
  have "fold ?f (nt_keys s) None = Some w"
    using r by (auto simp: select_for_removal_def Let_def split: if_splits)
  from g [OF this, of "\<lambda>w. \<exists>k \<in> set (nt_keys s). nt_lladdr s ! k = w \<and> nt_locked_map s ! k = 0"]
  show ?thesis by auto
qed


lemma nbr_get_bit_clear:
  "k < length m \<Longrightarrow>
   nbr_get_bit (m[k := 0]) x item = (if item = Some k then False else nbr_get_bit m x item)"
  by (auto simp: nbr_get_bit_def nth_list_update split: option.splits)

text \<open>A new key: the pool of keys stays well-formed, and only an unlocked neighbour may go.\<close>

lemma nbr_table_new_key_spec:
  assumes wf: "nbr_wf s" and cb: "\<And>x. \<not> nt_callback s x" and new: "index_from_lladdr (Some a) s = None"
    and r: "nbr_table_new_key env a w s = (Some k, s')"
    and w: "\<And>v. w = Some v \<Longrightarrow> \<exists>k \<in> set (nt_keys s). nt_lladdr s ! k = v \<and> nt_locked_map s ! k = 0"
  shows "nbr_wf s' \<and> k \<in> set (nt_keys s') \<and> nt_lladdr s' ! k = a \<and> nt_index s' = nt_index s \<and>
      (k \<in> set (nt_keys s) \<longrightarrow> nt_locked_map s ! k = 0) \<and>
      (\<forall>j x. j \<noteq> k \<longrightarrow> (j \<in> set (nt_keys s') \<longleftrightarrow> j \<in> set (nt_keys s)) \<and>
        nt_lladdr s' ! j = nt_lladdr s ! j \<and>
        nbr_get_bit (nt_used_map s') x (Some j) = nbr_get_bit (nt_used_map s) x (Some j))"
proof -
  have na: "\<And>j. j \<in> set (nt_keys s) \<Longrightarrow> nt_lladdr s ! j \<noteq> a"
    by (rule index_from_lladdr_None [OF new])
  note W = wf [unfolded nbr_wf_def]
  show ?thesis
  proof (cases "fst (memb_alloc (nt_mem s))")
    case (Some i)
    then obtain m where m: "memb_alloc (nt_mem s) = (Some i, m)" by (cases "memb_alloc (nt_mem s)") auto
    note f = memb.alloc_fresh [OF m]
    have ni: "i \<notin> set (nt_keys s)" using f W by simp
    have k: "k = i" and s': "s' = s\<lparr>nt_mem := m, nt_keys := nt_keys s @ [i], nt_lladdr := (nt_lladdr s)[i := a]\<rparr>"
      using r m ni by (auto simp: nbr_table_new_key_def nbr_table_allocate_def remove1_idem)
    have inj: "inj_on (\<lambda>j. (nt_lladdr s)[i := a] ! j) (insert i (set (nt_keys s)))"
      using W ni na f by (auto simp: inj_on_def nth_list_update)
    show ?thesis
      using W f ni inj k unfolding s' by (simp add: nbr_wf_def insert_commute)
  next
    case None
    then obtain m where m: "memb_alloc (nt_mem s) = (None, m)" by (cases "memb_alloc (nt_mem s)") auto
    obtain v i where v: "w = Some v" and i: "index_from_lladdr (Some v) s = Some i"
      using r m by (auto simp: nbr_table_new_key_def nbr_table_allocate_def split: option.splits)
    have ik: "i \<in> set (nt_keys s)" "nt_lladdr s ! i = v" using index_from_lladdr_Some [OF i] by simp_all
    have lk: "nt_locked_map s ! i = 0" using w [OF v] ik W by (auto simp: inj_on_def)
    have il: "i < length (nt_mem s)" using ik W by (auto simp: memb_blocks_def)
    have ni: "i \<notin> set (remove1 i (nt_keys s))" using W by simp
    have k: "k = i" and s': "s' = s\<lparr>nt_used_map := (nt_used_map s)[i := 0],
        nt_locked_map := (nt_locked_map s)[i := 0],
        nt_keys := remove1 i (nt_keys s) @ [i], nt_lladdr := (nt_lladdr s)[i := a]\<rparr>"
      using r m v i ni
      by (auto simp: nbr_table_new_key_def nbr_table_allocate_def remove_key_no_callback [OF cb] remove1_idem)
    have st: "set (remove1 i (nt_keys s) @ [i]) = set (nt_keys s)" using ik W by auto
    have inj: "inj_on (\<lambda>j. (nt_lladdr s)[i := a] ! j) (set (nt_keys s))"
      using W na il by (auto simp: inj_on_def nth_list_update)
    show ?thesis
      using W lk ik il inj st k unfolding s' by (simp add: nbr_wf_def nbr_get_bit_clear)
  qed
qed

text \<open>
  Adding a neighbour to a table.  When \<open>nbr_table_add_lladdr\<close> returns an item, the
  tables are well-formed again and a lookup of the address in the table finds that item.  For
  every other address and every table the lookup is as before, unless the address was the
  previous owner of the reused entry, and such an entry was not locked by any table.  The
  hypotheses say that the registered tables have no removal callbacks (those of TSCH and of
  6top have none) and that the configured policy picks one of the two candidates it is given.
\<close>

theorem nbr_table_add_lladdr_get:
  assumes wf: "nbr_wf s" and cb: "\<forall>x. \<not> nt_callback s x" and z: "zero_ok t"
    and ti: "nt_index s (tbl_id t) < MAX_NUM_TABLES" and p: "gc_policy_ok env"
    and r: "nbr_table_add_lladdr env t (Some a) reason s = (Some i, s')"
  shows "nbr_wf s' \<and> nbr_table_get_from_lladdr t (Some a) s' = Some i \<and>
    (\<forall>u b. b \<noteq> a \<longrightarrow>
       nbr_table_get_from_lladdr u (Some b) s' = nbr_table_get_from_lladdr u (Some b) s \<or>
       nbr_table_get_from_lladdr u (Some b) s' = None \<and>
       nbr_table_get_from_lladdr u (Some b) s = Some i \<and> nt_locked_map s ! i = 0)"
proof -
  let ?k = "nt_index s (tbl_id t)"
  obtain s1 where s': "s' = (tbl_zero t i s1)\<lparr>nt_used_map :=
        snd (nbr_set_bit (nt_used_map (tbl_zero t i s1)) (nt_index (tbl_zero t i s1) (tbl_id t)) (Some i) True)\<rparr>"
    and n1: "nbr_wf s1" "i \<in> set (nt_keys s1)" "nt_lladdr s1 ! i = a" "nt_index s1 = nt_index s"
    and n2: "i \<in> set (nt_keys s) \<Longrightarrow> nt_lladdr s ! i \<noteq> a \<Longrightarrow> nt_locked_map s ! i = 0"
    and n3: "\<And>j x. j \<noteq> i \<Longrightarrow> (j \<in> set (nt_keys s1) \<longleftrightarrow> j \<in> set (nt_keys s)) \<and>
        nt_lladdr s1 ! j = nt_lladdr s ! j \<and>
        nbr_get_bit (nt_used_map s1) x (Some j) = nbr_get_bit (nt_used_map s) x (Some j)"
  proof (cases "index_from_lladdr (Some a) s")
    case (Some k)
    with r have "k = i" "s' = (tbl_zero t i s)\<lparr>nt_used_map := snd (nbr_set_bit
        (nt_used_map (tbl_zero t i s)) (nt_index (tbl_zero t i s) (tbl_id t)) (Some i) True)\<rparr>"
      by (auto simp: nbr_table_add_lladdr_def Let_def split: if_splits)
    with index_from_lladdr_Some [OF Some] wf that [of s] show ?thesis by auto
  next
    case None
    define w where "w = snd (entry_is_allowed env t a reason s)"
    have sel: "\<exists>k \<in> set (nt_keys s). nt_lladdr s ! k = v \<and> nt_locked_map s ! k = 0" if "w = Some v" for v
      using that select_for_removal_unlocked [OF p, of a reason s v]
      by (auto simp: w_def entry_is_allowed_def Let_def split: if_splits)
    obtain s1 where n: "nbr_table_new_key env a w s = (Some i, s1)"
      and e: "s' = (tbl_zero t i s1)\<lparr>nt_used_map := snd (nbr_set_bit
        (nt_used_map (tbl_zero t i s1)) (nt_index (tbl_zero t i s1) (tbl_id t)) (Some i) True)\<rparr>"
      using r None by (auto simp: nbr_table_add_lladdr_def Let_def w_def split: if_splits prod.splits option.splits)
    have ncb: "\<And>x. \<not> nt_callback s x" using cb by simp
    note S = nbr_table_new_key_spec [OF wf ncb None n sel]
    from S e that [of s1] show ?thesis by auto
  qed
  note zf = zero_ok_fields [OF z, of i s1]
  have il: "i < length (nt_used_map s1)" using n1 by (auto simp: nbr_wf_def memb_blocks_def)
  have f: "nt_keys s' = nt_keys s1" "nt_lladdr s' = nt_lladdr s1" "nt_index s' = nt_index s"
    using n1 by (simp_all add: s' zf)
  have bits: "nbr_get_bit (nt_used_map s') x item =
      (if item = Some i \<and> x = ?k then True else nbr_get_bit (nt_used_map s1) x item)" for x item
    using nbr_get_set_bit [of i "nt_used_map s1" ?k True x item] il ti n1
    by (simp add: s' zf MAX_NUM_TABLES_def)
  have f2: "nt_mem s' = nt_mem s1" "length (nt_used_map s') = length (nt_used_map s1)"
    "nt_locked_map s' = nt_locked_map s1" "nt_all_tables s' = nt_all_tables s1"
    by (simp_all add: s' zf)
  have wf': "nbr_wf s'" using n1(1) unfolding nbr_wf_def f f2 .
  have ia: "index_from_lladdr (Some a) s' = Some i"
    using n1 f by (simp add: index_from_lladdr_iff [OF wf'])
  have ga: "nbr_table_get_from_lladdr t (Some a) s' = Some i"
    by (simp add: nbr_table_get_from_lladdr_def ia bits f)
  have other: "nbr_table_get_from_lladdr u (Some b) s' = nbr_table_get_from_lladdr u (Some b) s \<or>
      nbr_table_get_from_lladdr u (Some b) s' = None \<and>
      nbr_table_get_from_lladdr u (Some b) s = Some i \<and> nt_locked_map s ! i = 0"
    if ba: "b \<noteq> a" for u b
  proof -
    have ib: "index_from_lladdr (Some b) s' =
        (if index_from_lladdr (Some b) s = Some i then None else index_from_lladdr (Some b) s)"
    proof -
      have e: "index_from_lladdr (Some b) s' = Some j \<longleftrightarrow> j \<noteq> i \<and> index_from_lladdr (Some b) s = Some j" for j
        using n1 n3 [of j] f ba by (cases "j = i") (auto simp: index_from_lladdr_iff [OF wf'] index_from_lladdr_iff [OF wf])
      show ?thesis
      proof (cases "index_from_lladdr (Some b) s'")
        case None
        then have "index_from_lladdr (Some b) s = Some j \<Longrightarrow> j = i" for j using e [of j] by simp
        with None show ?thesis by (cases "index_from_lladdr (Some b) s") simp_all
      next
        case (Some j)
        with e [of j] show ?thesis by simp
      qed
    qed
    show ?thesis
    proof (cases "index_from_lladdr (Some b) s = Some i")
      case True
      with index_from_lladdr_Some [OF True] n2 ba ib show ?thesis
        by (auto simp: nbr_table_get_from_lladdr_def nbr_get_bit_def)
    next
      case False
      have "nbr_get_bit (nt_used_map s') x (index_from_lladdr (Some b) s) =
          nbr_get_bit (nt_used_map s) x (index_from_lladdr (Some b) s)" for x
      proof (cases "index_from_lladdr (Some b) s")
        case None
        then show ?thesis by (simp add: nbr_get_bit_def)
      next
        case (Some j)
        with False bits [of x "Some j"] n3 [of j x] show ?thesis by simp
      qed
      with False ib show ?thesis by (simp add: nbr_table_get_from_lladdr_def f)
    qed
  qed
  from wf' ga other show ?thesis by blast
qed

definition nbr_example :: nbr_state where
  "nbr_example = \<lparr>pb_mem = replicate 128 0, pb_buflen = 0, pb_bufptr = 0, pb_hdrlen = 0,
     pb_attrs = (\<lambda>_. 0), pb_addrs = (\<lambda>_. 0), nt_mem = [True, False], nt_lladdr = [7, 0],
     nt_keys = [0], nt_used_map = [1, 0], nt_locked_map = [0, 0],
     nt_all_tables = Some 0 # replicate 7 None, nt_num_tables = 1, nt_index = (\<lambda>_. 0),
     nt_callback = (\<lambda>_. False)\<rparr>"

definition nbr_env_default :: "('a nbr_state_scheme) nbr_env" where
  "nbr_env_default = \<lparr>env_gc_get_worst = nbr_table_gc_get_worst,
     env_can_accept_new = nbr_table_can_accept_new, env_nbr_callback = (\<lambda>_ _ s. s)\<rparr>"

theorem nbr_table_add_lladdr_get_witness:
  "\<exists>s'. nbr_table_add_lladdr nbr_env_default \<lparr>tbl_id = 0, tbl_zero = (\<lambda>_ s. s)\<rparr> (Some 9) 1 nbr_example = (Some 1, s') \<and>
    nbr_wf s' \<and>
    nbr_table_get_from_lladdr (\<lparr>tbl_id = 0, tbl_zero = (\<lambda>_ s. s)\<rparr> :: nbr_state nbr_table) (Some 9) s' = Some 1"
proof -
  let ?t = "\<lparr>tbl_id = 0, tbl_zero = (\<lambda>_ s. s)\<rparr> :: nbr_state nbr_table"
  have b: "memb_blocks [True, False] = {0}" by (auto simp: memb_blocks_def nth_Cons')
  have wf: "nbr_wf nbr_example" by (simp add: nbr_wf_def nbr_example_def b MAX_NUM_TABLES_def)
  obtain s' where r: "nbr_table_add_lladdr nbr_env_default ?t (Some 9) 1 nbr_example = (Some 1, s')"
    by (simp add: nbr_table_add_lladdr_def nbr_example_def entry_is_allowed_def Let_def
        nbr_table_get_from_lladdr_def index_from_lladdr_def nbr_get_bit_def nbr_env_default_def
        nbr_table_can_accept_new_def nbr_table_new_key_def nbr_table_allocate_def memb_alloc_def)
  have c: "\<forall>x. \<not> nt_callback nbr_example x" and i: "nt_index nbr_example (tbl_id ?t) < MAX_NUM_TABLES"
    by (simp_all add: nbr_example_def MAX_NUM_TABLES_def)
  have z: "zero_ok ?t" by (simp add: zero_ok_def)
  have g: "gc_policy_ok (nbr_env_default :: nbr_state nbr_env)"
    by (simp add: gc_policy_ok_def nbr_env_default_def nbr_table_gc_get_worst_def)
  from nbr_table_add_lladdr_get [OF wf c z i g r] r show ?thesis by blast
qed

end
