(* ===== verification/Queuebuf.thy ===== *)
theory Queuebuf
  imports Nbr_Table
begin

section \<open>Queue buffers\<close>

text \<open>
  Model of \<open>os/net/queuebuf.c\<close> in its default configuration (all buffers in RAM): copies of
  the packet buffer with its attributes and addresses, kept until they are sent.  Two pools,
  one of handles and one of buffers; a handle points to its buffer (\<open>qb_ram_ptr\<close>).
  \<open>packetbuf_packet\<close> is the packet that a copy of the packet buffer holds.
\<close>

record queuebuf_data =
  qd_data :: "u8 list"
  qd_len :: u16
  qd_attrs :: "packetbuf_attr_id \<Rightarrow> u16"
  qd_addrs :: "packetbuf_addr_id \<Rightarrow> linkaddr"

record queuebuf_state = nbr_state +
  qb_bufmem :: memb
  qb_buframmem :: memb
  qb_ram_ptr :: "nat option list"          \<comment> \<open>the \<open>ram_ptr\<close> field of every queuebuf\<close>
  qb_ram :: "queuebuf_data list"

text \<open>\<open>memb_init\<close> also clears the memory of the blocks.\<close>

definition queuebuf_data_zero :: "queuebuf_data \<Rightarrow> queuebuf_data" where
  "queuebuf_data_zero d =
     \<lparr>qd_data = replicate (length (qd_data d)) 0, qd_len = 0, qd_attrs = (\<lambda>_. 0), qd_addrs = (\<lambda>_. 0)\<rparr>"

definition queuebuf_init :: "'a queuebuf_state_scheme \<Rightarrow> 'a queuebuf_state_scheme" where
  "queuebuf_init s =
     s\<lparr>qb_buframmem := memb_init (qb_buframmem s), qb_ram := map queuebuf_data_zero (qb_ram s),
       qb_bufmem := memb_init (qb_bufmem s), qb_ram_ptr := replicate (length (qb_ram_ptr s)) None\<rparr>"

definition queuebuf_numfree :: "'a queuebuf_state_scheme \<Rightarrow> nat" where
  "queuebuf_numfree s = memb_numfree (qb_bufmem s)"

text \<open>The buffer of a handle; following a NULL \<open>ram_ptr\<close> is \<open>None\<close>, a bad access.\<close>

definition queuebuf_load_to_ram :: "nat \<Rightarrow> 'a queuebuf_state_scheme \<Rightarrow> nat ub" where
  "queuebuf_load_to_ram b s = qb_ram_ptr s ! b"

text \<open>\<open>packetbuf_attr_copyto\<close> and \<open>packetbuf_attr_copyfrom\<close> copy both attribute tables.\<close>

definition packetbuf_attr_copyto :: "nat \<Rightarrow> 'a queuebuf_state_scheme \<Rightarrow> 'a queuebuf_state_scheme" where
  "packetbuf_attr_copyto r s =
     s\<lparr>qb_ram := (qb_ram s)[r := (qb_ram s ! r)\<lparr>qd_attrs := pb_attrs s, qd_addrs := pb_addrs s\<rparr>]\<rparr>"

definition packetbuf_attr_copyfrom :: "nat \<Rightarrow> 'a queuebuf_state_scheme \<Rightarrow> 'a queuebuf_state_scheme" where
  "packetbuf_attr_copyfrom r s =
     s\<lparr>pb_attrs := qd_attrs (qb_ram s ! r), pb_addrs := qd_addrs (qb_ram s ! r)\<rparr>"

definition queuebuf_copy_data ::
  "nat \<Rightarrow> 'a queuebuf_state_scheme \<Rightarrow> 'a queuebuf_state_scheme ub" where
  "queuebuf_copy_data r s =
     do {
       (len, d) \<leftarrow> packetbuf_copyto (qd_data (qb_ram s ! r)) s;
       Some (s\<lparr>qb_ram := (qb_ram s)[r := (qb_ram s ! r)\<lparr>qd_data := d, qd_len := word_of_int len\<rparr>]\<rparr>)
     }"

definition queuebuf_new_from_packetbuf ::
  "'a queuebuf_state_scheme \<Rightarrow> (nat option \<times> 'a queuebuf_state_scheme) ub" where
  "queuebuf_new_from_packetbuf s =
     (case memb_alloc (qb_bufmem s) of
        (None, _) \<Rightarrow> Some (None, s)
      | (Some b, m) \<Rightarrow>
          (case memb_alloc (qb_buframmem s) of
             (None, _) \<Rightarrow> Some (None, s\<lparr>qb_bufmem := snd (memb_free m b), qb_ram_ptr := (qb_ram_ptr s)[b := None]\<rparr>)
           | (Some r, rm) \<Rightarrow>
               do {
                 s1 \<leftarrow> queuebuf_copy_data r
                   (s\<lparr>qb_bufmem := m, qb_buframmem := rm, qb_ram_ptr := (qb_ram_ptr s)[b := Some r]\<rparr>);
                 Some (Some b, packetbuf_attr_copyto r s1)
               }))"

definition queuebuf_update_attr_from_packetbuf ::
  "nat \<Rightarrow> 'a queuebuf_state_scheme \<Rightarrow> 'a queuebuf_state_scheme ub" where
  "queuebuf_update_attr_from_packetbuf b s =
     do { r \<leftarrow> queuebuf_load_to_ram b s; Some (packetbuf_attr_copyto r s) }"

definition queuebuf_update_from_packetbuf ::
  "nat \<Rightarrow> 'a queuebuf_state_scheme \<Rightarrow> 'a queuebuf_state_scheme ub" where
  "queuebuf_update_from_packetbuf b s =
     do { r \<leftarrow> queuebuf_load_to_ram b s; queuebuf_copy_data r (packetbuf_attr_copyto r s) }"

definition queuebuf_free :: "nat \<Rightarrow> 'a queuebuf_state_scheme \<Rightarrow> 'a queuebuf_state_scheme" where
  "queuebuf_free b s =
     (if memb_inmemb (qb_bufmem s) b
      then s\<lparr>qb_buframmem := (case qb_ram_ptr s ! b of
                 None \<Rightarrow> qb_buframmem s | Some r \<Rightarrow> snd (memb_free (qb_buframmem s) r)),
             qb_bufmem := snd (memb_free (qb_bufmem s) b)\<rparr>
      else s)"

definition queuebuf_to_packetbuf ::
  "nat \<Rightarrow> 'a queuebuf_state_scheme \<Rightarrow> 'a queuebuf_state_scheme ub" where
  "queuebuf_to_packetbuf b s =
     (if memb_inmemb (qb_bufmem s) b
      then do {
        r \<leftarrow> queuebuf_load_to_ram b s;
        (_, s1) \<leftarrow> packetbuf_copyfrom (qd_data (qb_ram s ! r)) (qd_len (qb_ram s ! r)) s;
        Some (packetbuf_attr_copyfrom r s1)
      }
      else Some s)"

definition queuebuf_datalen :: "nat \<Rightarrow> 'a queuebuf_state_scheme \<Rightarrow> int ub" where
  "queuebuf_datalen b s = do { r \<leftarrow> queuebuf_load_to_ram b s; Some (uint (qd_len (qb_ram s ! r))) }"

definition queuebuf_addr ::
  "nat \<Rightarrow> packetbuf_addr_id \<Rightarrow> 'a queuebuf_state_scheme \<Rightarrow> linkaddr ub" where
  "queuebuf_addr b ty s = do { r \<leftarrow> queuebuf_load_to_ram b s; Some (qd_addrs (qb_ram s ! r) ty) }"

definition queuebuf_attr ::
  "nat \<Rightarrow> packetbuf_attr_id \<Rightarrow> 'a queuebuf_state_scheme \<Rightarrow> u16 ub" where
  "queuebuf_attr b ty s = do { r \<leftarrow> queuebuf_load_to_ram b s; Some (qd_attrs (qb_ram s ! r) ty) }"

subsection \<open>Correctness\<close>

definition qb_wf :: "'a queuebuf_state_scheme \<Rightarrow> bool" where
  "qb_wf s \<longleftrightarrow>
     length (qb_buframmem s) = length (qb_bufmem s) \<and> length (qb_ram_ptr s) = length (qb_bufmem s) \<and>
     length (qb_ram s) = length (qb_bufmem s) \<and>
     (\<forall>r < length (qb_ram s). length (qd_data (qb_ram s ! r)) = PACKETBUF_SIZE) \<and>
     Some ` memb_blocks (qb_buframmem s) = (\<lambda>b. qb_ram_ptr s ! b) ` memb_blocks (qb_bufmem s) \<and>
     inj_on (\<lambda>b. qb_ram_ptr s ! b) (memb_blocks (qb_bufmem s))"

definition packetbuf_packet :: "'a packetbuf_state_scheme \<Rightarrow> u8 list" where
  "packetbuf_packet s =
     take (unat (pb_hdrlen s)) (pb_mem s) @
     take (unat (pb_buflen s)) (drop (unat (pb_bufptr s) + unat (pb_hdrlen s)) (pb_mem s))"

lemma packetbuf_copyto_spec:
  assumes wf: "packetbuf_wf s" and l: "length dst = PACKETBUF_SIZE"
  shows "\<exists>d. packetbuf_copyto dst s = Some (int (length (packetbuf_packet s)), d) \<and>
    length d = PACKETBUF_SIZE \<and> take (length (packetbuf_packet s)) d = packetbuf_packet s \<and>
    length (packetbuf_packet s) \<le> PACKETBUF_SIZE"
proof -
  let ?h = "unat (pb_hdrlen s)" and ?p = "unat (pb_bufptr s)" and ?l = "unat (pb_buflen s)"
  have m: "length (pb_mem s) = 128" "?p + ?h + ?l \<le> 128"
    using wf by (simp_all add: packetbuf_wf_def packetbuf_used_def PACKETBUF_SIZE_def)
  have len: "length (packetbuf_packet s) = ?h + ?l"
    using m by (simp add: packetbuf_packet_def)
  let ?d1 = "take ?h (pb_mem s) @ drop ?h dst"
  let ?d = "take ?h (pb_mem s) @ take ?l (drop (?p + ?h) (pb_mem s)) @ drop (?h + ?l) dst"
  have w1: "mem_write dst 0 (take ?h (pb_mem s)) = Some ?d1"
    using m l by (simp add: mem_write_def PACKETBUF_SIZE_def)
  have w2: "mem_write ?d1 ?h (take ?l (drop (?p + ?h) (pb_mem s))) = Some ?d"
    using m l by (simp add: mem_write_def PACKETBUF_SIZE_def add.commute)
  have "packetbuf_copyto dst s = Some (int (?h + ?l), ?d)"
    using m w1 w2
    by (simp add: packetbuf_copyto_def Let_def PACKETBUF_SIZE_def mem_read_def packetbuf_hdrptr_def
        packetbuf_dataptr_def unat_hdrlen [OF wf])
  moreover have "length ?d = PACKETBUF_SIZE" using m l by (simp add: PACKETBUF_SIZE_def)
  moreover have "take (?h + ?l) ?d = packetbuf_packet s" using m by (simp add: packetbuf_packet_def)
  ultimately show ?thesis unfolding len using m by (auto simp: PACKETBUF_SIZE_def)
qed

lemma queuebuf_copy_data_spec:
  assumes "packetbuf_wf s" and "length (qd_data (qb_ram s ! r)) = PACKETBUF_SIZE"
  shows "\<exists>d. queuebuf_copy_data r s = Some (s\<lparr>qb_ram := (qb_ram s)[r := (qb_ram s ! r)
      \<lparr>qd_data := d, qd_len := of_nat (length (packetbuf_packet s))\<rparr>]\<rparr>) \<and>
    length d = PACKETBUF_SIZE \<and> take (length (packetbuf_packet s)) d = packetbuf_packet s \<and>
    length (packetbuf_packet s) \<le> PACKETBUF_SIZE"
proof -
  from packetbuf_copyto_spec [OF assms] obtain d where d:
    "packetbuf_copyto (qd_data (qb_ram s ! r)) s = Some (int (length (packetbuf_packet s)), d)"
    "length d = PACKETBUF_SIZE" "take (length (packetbuf_packet s)) d = packetbuf_packet s"
    "length (packetbuf_packet s) \<le> PACKETBUF_SIZE" by blast
  show ?thesis by (rule exI [of _ d]) (simp add: queuebuf_copy_data_def d)
qed

lemma memb_not_full_both:
  assumes "qb_wf s" and "memb_alloc (qb_bufmem s) = (Some b, m)"
  shows "\<exists>r rm. memb_alloc (qb_buframmem s) = (Some r, rm)"
proof -
  note c = memb.alloc_fresh [OF assms(2)]
  have fin: "finite (memb_blocks (qb_bufmem s))" by (simp add: memb_blocks_def)
  have "card (Some ` memb_blocks (qb_buframmem s)) = card (memb_blocks (qb_bufmem s))"
    using assms(1) by (simp add: qb_wf_def card_image)
  then have "card (memb_blocks (qb_buframmem s)) = card (memb_blocks (qb_bufmem s))"
    by (simp add: card_image)
  moreover have "0 < memb_numfree (qb_bufmem s)" using memb.alloc_numfree [OF assms(2)] by simp
  ultimately have "0 < memb_numfree (qb_buframmem s)"
    using memb_numfree_card [of "qb_bufmem s"] memb_numfree_card [of "qb_buframmem s"] assms(1)
    by (simp add: qb_wf_def)
  then show ?thesis using memb.alloc_succeeds_iff [of "qb_buframmem s"] by blast
qed

text \<open>Saving the packet buffer succeeds exactly when a handle is free.\<close>

lemma queuebuf_new_spec:
  assumes wf: "qb_wf s" and pw: "packetbuf_wf s"
  shows "(memb_numfree (qb_bufmem s) = 0 \<and> queuebuf_new_from_packetbuf s = Some (None, s)) \<or>
    (\<exists>b s' r. queuebuf_new_from_packetbuf s = Some (Some b, s') \<and> qb_wf s' \<and>
      nbr_state.truncate s' = nbr_state.truncate s \<and>
      b \<notin> memb_blocks (qb_bufmem s) \<and> memb_blocks (qb_bufmem s') = insert b (memb_blocks (qb_bufmem s)) \<and>
      memb_numfree (qb_bufmem s) = Suc (memb_numfree (qb_bufmem s')) \<and>
      qb_ram_ptr s' ! b = Some r \<and>
      unat (qd_len (qb_ram s' ! r)) = length (packetbuf_packet s) \<and>
      take (length (packetbuf_packet s)) (qd_data (qb_ram s' ! r)) = packetbuf_packet s \<and>
      qd_attrs (qb_ram s' ! r) = pb_attrs s \<and> qd_addrs (qb_ram s' ! r) = pb_addrs s \<and>
      (\<forall>b' \<in> memb_blocks (qb_bufmem s). qb_ram_ptr s' ! b' = qb_ram_ptr s ! b' \<and>
         qb_ram s' ! the (qb_ram_ptr s ! b') = qb_ram s ! the (qb_ram_ptr s ! b')))"
proof (cases "memb_alloc (qb_bufmem s)")
  case (Pair bo m)
  show ?thesis
  proof (cases bo)
    case None
    with Pair have "memb_alloc (qb_bufmem s) = (None, m)" by simp
    from memb.alloc_fail [OF this] show ?thesis
      using Pair None by (simp add: queuebuf_new_from_packetbuf_def)
  next
    case (Some b)
    with Pair have a: "memb_alloc (qb_bufmem s) = (Some b, m)" by simp
    obtain r rm where ra: "memb_alloc (qb_buframmem s) = (Some r, rm)"
      using memb_not_full_both [OF wf a] by blast
    note mb = memb.alloc_fresh [OF a] and mr = memb.alloc_fresh [OF ra]
    let ?s = "s\<lparr>qb_bufmem := m, qb_buframmem := rm, qb_ram_ptr := (qb_ram_ptr s)[b := Some r]\<rparr>"
    have lr: "r < length (qb_ram s)" using mr wf by (simp add: qb_wf_def)
    have pw': "packetbuf_wf ?s" using pw by (simp add: packetbuf_wf_def packetbuf_used_def)
    have ld: "length (qd_data (qb_ram ?s ! r)) = PACKETBUF_SIZE"
      using wf lr by (simp add: qb_wf_def)
    have pp: "packetbuf_packet ?s = packetbuf_packet s" by (simp add: packetbuf_packet_def)
    have "\<exists>d. queuebuf_copy_data r ?s = Some (?s\<lparr>qb_ram := (qb_ram s)[r := (qb_ram s ! r)
        \<lparr>qd_data := d, qd_len := of_nat (length (packetbuf_packet s))\<rparr>]\<rparr>) \<and>
      length d = PACKETBUF_SIZE \<and> take (length (packetbuf_packet s)) d = packetbuf_packet s \<and>
      length (packetbuf_packet s) \<le> PACKETBUF_SIZE"
      using queuebuf_copy_data_spec [OF pw' ld] by (simp add: pp)
    then obtain d where d: "queuebuf_copy_data r ?s = Some (?s\<lparr>qb_ram := (qb_ram s)[r := (qb_ram s ! r)
        \<lparr>qd_data := d, qd_len := of_nat (length (packetbuf_packet s))\<rparr>]\<rparr>)"
      "length d = PACKETBUF_SIZE" "take (length (packetbuf_packet s)) d = packetbuf_packet s"
      "length (packetbuf_packet s) \<le> PACKETBUF_SIZE"
      by (elim exE conjE) (rule that)
    let ?t = "packetbuf_attr_copyto r (?s\<lparr>qb_ram := (qb_ram s)[r := (qb_ram s ! r)
        \<lparr>qd_data := d, qd_len := of_nat (length (packetbuf_packet s))\<rparr>]\<rparr>)"
    have n: "queuebuf_new_from_packetbuf s = Some (Some b, ?t)"
      using a ra d(1) by (simp add: queuebuf_new_from_packetbuf_def)
    have bl: "b < length (qb_ram_ptr s)" using mb wf by (simp add: qb_wf_def)
    have other: "qb_ram_ptr ?t ! b' = qb_ram_ptr s ! b'" if "b' \<in> memb_blocks (qb_bufmem s)" for b'
    proof -
      have "b \<noteq> b'" using that mb by blast
      then show ?thesis by (simp add: packetbuf_attr_copyto_def)
    qed
    have otherr: "the (qb_ram_ptr s ! b') \<noteq> r" if b': "b' \<in> memb_blocks (qb_bufmem s)" for b'
    proof -
      have "qb_ram_ptr s ! b' \<in> Some ` memb_blocks (qb_buframmem s)"
        using wf b' by (simp add: qb_wf_def)
      then show ?thesis using mr by auto
    qed
    have old: "inj_on (\<lambda>b. qb_ram_ptr s ! b) (memb_blocks (qb_bufmem s))"
      and oldr: "(\<lambda>b. qb_ram_ptr s ! b) ` memb_blocks (qb_bufmem s) = Some ` memb_blocks (qb_buframmem s)"
      using wf by (simp_all add: qb_wf_def)
    have eq: "(qb_ram_ptr s)[b := Some r] ! x = qb_ram_ptr s ! x" if "x \<in> memb_blocks (qb_bufmem s)" for x
      using other [OF that] by (simp add: packetbuf_attr_copyto_def)
    have imgB: "(\<lambda>x. (qb_ram_ptr s)[b := Some r] ! x) ` memb_blocks (qb_bufmem s) =
        Some ` memb_blocks (qb_buframmem s)"
      unfolding oldr [symmetric] by (rule image_cong) (auto simp: eq)
    have mblocks: "memb_blocks m = insert b (memb_blocks (qb_bufmem s))" using mb by simp
    have fb: "(qb_ram_ptr s)[b := Some r] ! b = Some r" using bl by simp
    have img: "(\<lambda>x. (qb_ram_ptr s)[b := Some r] ! x) ` memb_blocks m = Some ` memb_blocks rm"
      unfolding mblocks image_insert imgB fb using mr by simp
    have "inj_on (\<lambda>x. (qb_ram_ptr s)[b := Some r] ! x) (memb_blocks (qb_bufmem s))"
      using old eq by (simp cong: inj_on_cong)
    then have inj: "inj_on (\<lambda>x. (qb_ram_ptr s)[b := Some r] ! x) (memb_blocks m)"
      unfolding mblocks inj_on_insert using mr mb imgB fb by auto
    have w: "qb_wf ?t"
    proof -
      have ds: "\<forall>k < length (qb_ram s). length (qd_data (qb_ram s ! k)) = PACKETBUF_SIZE"
        using wf by (simp add: qb_wf_def)
      have "\<forall>k < length (qb_ram s). length (qd_data (qb_ram ?t ! k)) = PACKETBUF_SIZE"
        using ds d(2) lr by (simp add: packetbuf_attr_copyto_def nth_list_update)
      then show ?thesis
        using wf mb mr img inj by (simp add: qb_wf_def packetbuf_attr_copyto_def)
    qed
    have u: "unat (of_nat (length (packetbuf_packet s)) :: u16) = length (packetbuf_packet s)"
      using d(4) by (simp add: unat_of_nat PACKETBUF_SIZE_def)
    show ?thesis
    proof (rule disjI2, rule exI [of _ b], rule exI [of _ ?t], rule exI [of _ r], intro conjI)
      show "nbr_state.truncate ?t = nbr_state.truncate s"
        by (simp add: packetbuf_attr_copyto_def nbr_state.truncate_def)
      show "memb_numfree (qb_bufmem s) = Suc (memb_numfree (qb_bufmem ?t))"
        using memb.alloc_numfree [OF a] by (simp add: packetbuf_attr_copyto_def)
      show "memb_blocks (qb_bufmem ?t) = insert b (memb_blocks (qb_bufmem s))"
        using mb by (simp add: packetbuf_attr_copyto_def)
      show "\<forall>b' \<in> memb_blocks (qb_bufmem s). qb_ram_ptr ?t ! b' = qb_ram_ptr s ! b' \<and>
         qb_ram ?t ! the (qb_ram_ptr s ! b') = qb_ram s ! the (qb_ram_ptr s ! b')"
        using other otherr [THEN not_sym] by (simp add: packetbuf_attr_copyto_def)
    qed (use n w mb bl lr d(3) u in \<open>simp_all add: packetbuf_attr_copyto_def\<close>)
  qed
qed

lemma packetbuf_copyfrom_spec:
  assumes "length (pb_mem s) = PACKETBUF_SIZE" and "unat len \<le> PACKETBUF_SIZE"
    and "unat len \<le> length src"
  shows "packetbuf_copyfrom src len s =
    Some (int (unat len), (packetbuf_clear s)
      \<lparr>pb_mem := take (unat len) src @ drop (unat len) (pb_mem s), pb_buflen := len\<rparr>)"
proof -
  have "mem_write (pb_mem s) 0 (take (unat len) src) =
      Some (take (unat len) src @ drop (unat len) (pb_mem s))"
    using assms by (simp add: mem_write_def)
  then show ?thesis
    using assms by (simp add: packetbuf_copyfrom_def Let_def min_absorb2 mem_read_def)
qed

text \<open>
  saving and restoring the packet buffer.  If \<open>queuebuf_new_from_packetbuf\<close> succeeds, then
  after anything that leaves the queue buffers alone, whatever it does to the packet buffer and
  the neighbour tables, \<open>queuebuf_to_packetbuf\<close> of the new handle puts the saved packet back:
  the same header and payload bytes, the same attributes and addresses, in a well-formed packet
  buffer.
\<close>

theorem queuebuf_roundtrip:
  assumes "qb_wf s" and "packetbuf_wf s"
    and "queuebuf_new_from_packetbuf s = Some (Some b, s1)"
    and "length (pb_mem s2) = PACKETBUF_SIZE"
    and "qb_bufmem s2 = qb_bufmem s1" and "qb_ram_ptr s2 = qb_ram_ptr s1" and "qb_ram s2 = qb_ram s1"
  shows "\<exists>s3. queuebuf_to_packetbuf b s2 = Some s3 \<and> packetbuf_wf s3 \<and>
    packetbuf_content s3 = packetbuf_packet s \<and> packetbuf_packet s3 = packetbuf_packet s \<and>
    pb_attrs s3 = pb_attrs s \<and> pb_addrs s3 = pb_addrs s"
proof -
  let ?n = "length (packetbuf_packet s)"
  have pl: "?n \<le> PACKETBUF_SIZE"
    using packetbuf_copyto_spec [OF assms(2), of "replicate PACKETBUF_SIZE 0"] by auto
  from queuebuf_new_spec [OF assms(1,2)] assms(3) obtain r where
    w: "qb_wf s1" and bb: "b \<in> memb_blocks (qb_bufmem s1)" and r: "qb_ram_ptr s1 ! b = Some r"
    and len: "unat (qd_len (qb_ram s1 ! r)) = ?n"
    and dat: "take ?n (qd_data (qb_ram s1 ! r)) = packetbuf_packet s"
    and at: "qd_attrs (qb_ram s1 ! r) = pb_attrs s" "qd_addrs (qb_ram s1 ! r) = pb_addrs s"
    by auto
  have "Some r \<in> Some ` memb_blocks (qb_buframmem s1)"
    using w bb r by (metis image_eqI qb_wf_def)
  then have "r < length (qb_ram s1)" using w by (auto simp: qb_wf_def memb_blocks_def)
  then have ld: "length (qd_data (qb_ram s1 ! r)) = PACKETBUF_SIZE" using w by (simp add: qb_wf_def)
  have bi: "memb_inmemb (qb_bufmem s2) b"
    using bb assms(5) by (simp add: memb_blocks_def memb_inmemb_def)
  let ?s3 = "packetbuf_attr_copyfrom r ((packetbuf_clear s2)
      \<lparr>pb_mem := packetbuf_packet s @ drop ?n (pb_mem s2), pb_buflen := qd_len (qb_ram s1 ! r)\<rparr>)"
  have ram: "qb_ram (packetbuf_clear s2) = qb_ram s2"
    by (simp add: packetbuf_clear_def packetbuf_attr_clear_def)
  have e: "queuebuf_to_packetbuf b s2 = Some ?s3"
    using bi packetbuf_copyfrom_spec [OF assms(4), of "qd_len (qb_ram s1 ! r)" "qd_data (qb_ram s1 ! r)"]
      assms(6,7) r len dat ld pl
    by (simp add: queuebuf_to_packetbuf_def queuebuf_load_to_ram_def)
  have u: "packetbuf_used ?s3 = ?n"
    using len by (simp add: packetbuf_attr_copyfrom_def packetbuf_used_def)
  show ?thesis
  proof (intro exI conjI)
    show "queuebuf_to_packetbuf b s2 = Some ?s3" by (rule e)
    show "packetbuf_wf ?s3"
      using u pl assms(4) by (simp add: packetbuf_wf_def) (simp add: packetbuf_attr_copyfrom_def)
    show "packetbuf_content ?s3 = packetbuf_packet s"
      unfolding packetbuf_content_def u by (simp add: packetbuf_attr_copyfrom_def)
    show "packetbuf_packet ?s3 = packetbuf_packet s"
      unfolding packetbuf_packet_def [of ?s3] using len by (simp add: packetbuf_attr_copyfrom_def)
    show "pb_attrs ?s3 = pb_attrs s" "pb_addrs ?s3 = pb_addrs s"
      using at assms(7) ram by (simp_all add: packetbuf_attr_copyfrom_def)
  qed
qed

definition queuebuf_example :: queuebuf_state where
  "queuebuf_example =
     \<lparr>pb_mem = [7, 8, 9] @ replicate 125 0, pb_buflen = 2, pb_bufptr = 0, pb_hdrlen = 1,
      pb_attrs = (\<lambda>_. 5), pb_addrs = (\<lambda>_. 6),
      nt_mem = [], nt_lladdr = [], nt_keys = [], nt_used_map = [], nt_locked_map = [],
      nt_all_tables = [], nt_num_tables = 0, nt_index = (\<lambda>_. 0), nt_callback = (\<lambda>_. False),
      qb_bufmem = [False], qb_buframmem = [False], qb_ram_ptr = [None],
      qb_ram = [\<lparr>qd_data = replicate 128 0, qd_len = 0, qd_attrs = (\<lambda>_. 0), qd_addrs = (\<lambda>_. 0)\<rparr>]\<rparr>"

theorem queuebuf_roundtrip_witness:
  "\<exists>s1 s3. queuebuf_new_from_packetbuf queuebuf_example = Some (Some 0, s1) \<and>
     queuebuf_to_packetbuf 0 (packetbuf_clear s1) = Some s3 \<and> packetbuf_content s3 = [7, 8, 9] \<and>
     pb_attrs s3 PACKETBUF_ATTR_CHANNEL = 5"
proof -
  have w: "qb_wf queuebuf_example"
    by (auto simp: qb_wf_def queuebuf_example_def memb_blocks_def PACKETBUF_SIZE_def inj_on_def)
  have p: "packetbuf_wf queuebuf_example"
    by (simp add: packetbuf_wf_def packetbuf_used_def queuebuf_example_def PACKETBUF_SIZE_def)
  have pk: "packetbuf_packet queuebuf_example = [7, 8, 9]"
    by (simp add: packetbuf_packet_def queuebuf_example_def)
  from queuebuf_new_spec [OF w p] obtain b s1 where
    n: "queuebuf_new_from_packetbuf queuebuf_example = Some (Some b, s1)" "qb_wf s1"
    "nbr_state.truncate s1 = nbr_state.truncate queuebuf_example" "b \<notin> {}"
    "memb_blocks (qb_bufmem s1) = insert b (memb_blocks (qb_bufmem queuebuf_example))"
    by (auto simp: queuebuf_example_def)
  have b: "b = 0"
    using n(1) by (auto simp: queuebuf_new_from_packetbuf_def queuebuf_example_def memb_alloc_def
        split: bind_splits prod.splits)
  have "pb_mem s1 = pb_mem queuebuf_example"
    using n(3) by (simp add: nbr_state.truncate_def)
  then have l: "length (pb_mem (packetbuf_clear s1)) = PACKETBUF_SIZE"
    by (simp add: queuebuf_example_def PACKETBUF_SIZE_def)
  from queuebuf_roundtrip [OF w p n(1) l] b n(1) pk show ?thesis
    by (auto simp: packetbuf_clear_def packetbuf_attr_clear_def queuebuf_example_def)
qed

end
