(* ===== verification/Ringbufindex.thy ===== *)
theory Ringbufindex
  imports Prelude
begin

section \<open>Ring buffer of indices\<close>

text \<open>
  Model of \<open>os/lib/ringbufindex.c\<close> and of the inline functions of its header: a ring buffer
  that manages only the put and get index, on 8-bit counters with a mask.  The size is a
  power of two, and one slot always stays free.  \<open>rb_indices\<close> is the queue of the indices in
  use, oldest first; the locale \<open>index_queue\<close> is the first-in first-out contract.
\<close>

record ringbufindex =
  rb_mask :: u8
  rb_put_ptr :: u8
  rb_get_ptr :: u8

definition ringbufindex_init :: "u8 \<Rightarrow> ringbufindex" where
  "ringbufindex_init sz = \<lparr>rb_mask = sz - 1, rb_put_ptr = 0, rb_get_ptr = 0\<rparr>"

definition ringbufindex_put :: "ringbufindex \<Rightarrow> int \<times> ringbufindex" where
  "ringbufindex_put r =
     (if (rb_put_ptr r - rb_get_ptr r) AND rb_mask r = rb_mask r then (0, r)
      else (1, r\<lparr>rb_put_ptr := (rb_put_ptr r + 1) AND rb_mask r\<rparr>))"

definition ringbufindex_peek_put :: "ringbufindex \<Rightarrow> int" where
  "ringbufindex_peek_put r =
     (if (rb_put_ptr r - rb_get_ptr r) AND rb_mask r = rb_mask r then -1
      else uint (rb_put_ptr r))"

definition ringbufindex_get :: "ringbufindex \<Rightarrow> int \<times> ringbufindex" where
  "ringbufindex_get r =
     (if (rb_put_ptr r - rb_get_ptr r) AND rb_mask r \<noteq> 0
      then (uint (rb_get_ptr r), r\<lparr>rb_get_ptr := (rb_get_ptr r + 1) AND rb_mask r\<rparr>)
      else (-1, r))"

definition ringbufindex_peek_get :: "ringbufindex \<Rightarrow> int" where
  "ringbufindex_peek_get r =
     (if (rb_put_ptr r - rb_get_ptr r) AND rb_mask r \<noteq> 0 then uint (rb_get_ptr r) else -1)"

definition ringbufindex_size :: "ringbufindex \<Rightarrow> int" where
  "ringbufindex_size r = uint (rb_mask r) + 1"

definition ringbufindex_elements :: "ringbufindex \<Rightarrow> int" where
  "ringbufindex_elements r = uint ((rb_put_ptr r - rb_get_ptr r) AND rb_mask r)"

definition ringbufindex_full :: "ringbufindex \<Rightarrow> bool" where
  "ringbufindex_full r \<longleftrightarrow> (rb_put_ptr r - rb_get_ptr r) AND rb_mask r = rb_mask r"

definition ringbufindex_empty :: "ringbufindex \<Rightarrow> bool" where
  "ringbufindex_empty r \<longleftrightarrow> ringbufindex_elements r = 0"

subsection \<open>Abstraction\<close>

definition rb_size :: "ringbufindex \<Rightarrow> nat" where
  "rb_size r = unat (rb_mask r) + 1"

definition rb_wf :: "ringbufindex \<Rightarrow> bool" where
  "rb_wf r \<longleftrightarrow> (\<exists>k \<le> 8. rb_mask r = mask k) \<and>
     rb_put_ptr r \<le> rb_mask r \<and> rb_get_ptr r \<le> rb_mask r"

definition rb_count :: "ringbufindex \<Rightarrow> nat" where
  "rb_count r = (unat (rb_put_ptr r) + rb_size r - unat (rb_get_ptr r)) mod rb_size r"

definition rb_indices :: "ringbufindex \<Rightarrow> nat list" where
  "rb_indices r = map (\<lambda>i. (unat (rb_get_ptr r) + i) mod rb_size r) [0..<rb_count r]"

lemma unat_mask_u8: "k \<le> 8 \<Longrightarrow> unat (mask k :: u8) = 2 ^ k - 1"
proof -
  assume "k \<le> 8"
  then have "k \<in> {0, 1, 2, 3, 4, 5, 6, 7, 8}" by auto
  then show ?thesis by (auto simp: mask_eq_exp_minus_1)
qed

lemma rb_wf_size:
  assumes "rb_wf r"
  shows "\<exists>k \<le> 8. rb_size r = 2 ^ k" and "unat (x AND rb_mask r) = unat x mod rb_size r"
    and "unat (rb_put_ptr r) < rb_size r" and "unat (rb_get_ptr r) < rb_size r"
proof -
  obtain k where k: "k \<le> 8" and m: "rb_mask r = mask k" using assms by (auto simp: rb_wf_def)
  then have s: "rb_size r = 2 ^ k" by (simp add: rb_size_def unat_mask_u8)
  then show "\<exists>k \<le> 8. rb_size r = 2 ^ k" using k by blast
  have "x AND rb_mask r = take_bit k x" by (simp add: m take_bit_eq_mask)
  then show "unat (x AND rb_mask r) = unat x mod rb_size r"
    by (simp only: s unsigned_take_bit_eq) (simp add: take_bit_eq_mod)
  show "unat (rb_put_ptr r) < rb_size r" "unat (rb_get_ptr r) < rb_size r"
    using assms by (auto simp: rb_wf_def rb_size_def word_le_nat_alt)
qed

lemma rb_diff:
  assumes wf: "rb_wf r"
  shows "unat ((rb_put_ptr r - rb_get_ptr r) AND rb_mask r) = rb_count r"
proof -
  obtain k where k: "k \<le> 8" "rb_size r = 2 ^ k" using rb_wf_size(1) [OF wf] by blast
  note a = rb_wf_size(2) [OF wf] and b = rb_wf_size(3,4) [OF wf]
  let ?p = "unat (rb_put_ptr r)" and ?g = "unat (rb_get_ptr r)"
  have d: "rb_size r dvd 256"
  proof -
    have "(2 :: nat) ^ k dvd 2 ^ 8" using k by (intro le_imp_power_dvd) simp
    with k show ?thesis by simp
  qed
  have u: "unat (rb_put_ptr r - rb_get_ptr r) = (if ?g \<le> ?p then ?p - ?g else ?p + 256 - ?g)"
    by (simp add: unat_sub_if_size word_size)
  show ?thesis
  proof (cases "?g \<le> ?p")
    case True
    then have "?p + rb_size r - ?g = (?p - ?g) + rb_size r" by simp
    then have "rb_count r = (?p - ?g) mod rb_size r"
      by (simp only: rb_count_def mod_add_self2)
    with True u a show ?thesis by simp
  next
    case False
    obtain q where q: "256 = rb_size r * q" using d by (auto simp: dvd_def)
    then have "q \<noteq> 0" by (cases q) auto
    then obtain q' where q': "q = Suc q'" by (cases q) auto
    have "?p + 256 - ?g = (?p + rb_size r - ?g) + rb_size r * q'"
      using q q' b by simp
    then show ?thesis using False u a by (simp add: rb_count_def)
  qed
qed

lemma rb_count_less: "rb_count r < rb_size r"
  by (simp add: rb_count_def rb_size_def)

lemma rb_length [simp]: "length (rb_indices r) = rb_count r"
  by (simp add: rb_indices_def)

lemma rb_full_iff: "rb_wf r \<Longrightarrow> (rb_put_ptr r - rb_get_ptr r) AND rb_mask r = rb_mask r \<longleftrightarrow> Suc (rb_count r) = rb_size r"
  by (simp add: rb_diff [symmetric] rb_size_def word_unat_eq_iff)

lemma rb_empty_iff: "rb_wf r \<Longrightarrow> (rb_put_ptr r - rb_get_ptr r) AND rb_mask r = 0 \<longleftrightarrow> rb_count r = 0"
  by (simp add: rb_diff [symmetric] word_unat_eq_iff)

subsection \<open>The operations on the queue of indices\<close>

lemma rb_put_index:
  assumes "rb_wf r"
  shows "(unat (rb_get_ptr r) + rb_count r) mod rb_size r = unat (rb_put_ptr r)"
proof -
  note b = rb_wf_size(3,4) [OF assms]
  have "(unat (rb_get_ptr r) + rb_count r) mod rb_size r =
      (unat (rb_get_ptr r) + (unat (rb_put_ptr r) + rb_size r - unat (rb_get_ptr r))) mod rb_size r"
    unfolding rb_count_def by (rule mod_add_right_eq)
  also have "\<dots> = (unat (rb_put_ptr r) + rb_size r) mod rb_size r" using b by simp
  finally show ?thesis using b by simp
qed

text \<open>Only the pointers decide: the count is the one number below the size that fits.\<close>

lemma rb_count_unique:
  assumes "rb_wf r" and "c < rb_size r"
    and "(unat (rb_get_ptr r) + c) mod rb_size r = unat (rb_put_ptr r)"
  shows "rb_count r = c"
proof -
  note b = rb_wf_size(3,4) [OF assms(1)]
  let ?g = "unat (rb_get_ptr r)" and ?n = "rb_size r"
  have "rb_count r = ((?g + c) mod ?n + (?n - ?g)) mod ?n"
    using b assms(3) by (simp add: rb_count_def)
  also have "\<dots> = (?g + c + (?n - ?g)) mod ?n" by (rule mod_add_left_eq)
  also have "\<dots> = c" using b assms(2) by simp
  finally show ?thesis .
qed

lemma unat_next_ptr:
  assumes "rb_wf r" and "x \<le> rb_mask r"
  shows "unat ((x + 1) AND rb_mask r) = (unat x + 1) mod rb_size r"
proof -
  obtain k where k: "k \<le> 8" "rb_size r = 2 ^ k" using rb_wf_size(1) [OF assms(1)] by blast
  have "rb_size r dvd 256"
  proof -
    have "(2 :: nat) ^ k dvd 2 ^ 8" using k by (intro le_imp_power_dvd) simp
    with k show ?thesis by simp
  qed
  moreover have "unat (x + 1) = (unat x + 1) mod 256" by (simp add: unat_word_ariths)
  ultimately show ?thesis
    using assms(1) by (simp add: rb_wf_size(2) mod_mod_cancel)
qed

lemma rb_and_mask_le: "x AND rb_mask r \<le> rb_mask r"
  by (simp add: word_and_le1)

lemma rb_put_wf:
  assumes "rb_wf r"
  shows "rb_wf (snd (ringbufindex_put r))" and "rb_size (snd (ringbufindex_put r)) = rb_size r"
  using assms rb_and_mask_le [of _ r] by (auto simp: ringbufindex_put_def rb_wf_def rb_size_def)

lemma rb_get_wf:
  assumes "rb_wf r"
  shows "rb_wf (snd (ringbufindex_get r))" and "rb_size (snd (ringbufindex_get r)) = rb_size r"
  using assms rb_and_mask_le [of _ r] by (auto simp: ringbufindex_get_def rb_wf_def rb_size_def)

lemma ringbufindex_put_room:
  assumes wf: "rb_wf r" and room: "Suc (rb_count r) < rb_size r"
  shows "ringbufindex_peek_put r = int (unat (rb_put_ptr r))"
    and "fst (ringbufindex_put r) = 1"
    and "rb_indices (snd (ringbufindex_put r)) = rb_indices r @ [unat (rb_put_ptr r)]"
proof -
  have nf: "(rb_put_ptr r - rb_get_ptr r) AND rb_mask r \<noteq> rb_mask r"
    using rb_full_iff [OF wf] room by simp
  then show "ringbufindex_peek_put r = int (unat (rb_put_ptr r))"
    by (simp add: ringbufindex_peek_put_def)
  show "fst (ringbufindex_put r) = 1" using nf by (simp add: ringbufindex_put_def)
  let ?r = "snd (ringbufindex_put r)"
  have f: "rb_get_ptr ?r = rb_get_ptr r" "rb_put_ptr ?r = (rb_put_ptr r + 1) AND rb_mask r"
    using nf by (simp_all add: ringbufindex_put_def)
  note sz = rb_put_wf [OF wf]
  have "unat (rb_put_ptr ?r) = (unat (rb_put_ptr r) + 1) mod rb_size r"
    using wf unat_next_ptr [OF wf] by (simp add: f rb_wf_def)
  also have "\<dots> = (unat (rb_get_ptr r) + Suc (rb_count r)) mod rb_size r"
    using rb_put_index [OF wf] by (metis Suc_eq_plus1 add_Suc_right mod_Suc_eq)
  finally have "rb_count ?r = Suc (rb_count r)"
    using rb_count_unique [OF sz(1), of "Suc (rb_count r)"] room f sz(2) by simp
  then show "rb_indices ?r = rb_indices r @ [unat (rb_put_ptr r)]"
    using f sz(2) rb_put_index [OF wf] by (simp add: rb_indices_def)
qed

lemma ringbufindex_put_full:
  assumes "rb_wf r" and "\<not> Suc (rb_count r) < rb_size r"
  shows "ringbufindex_peek_put r = -1" and "ringbufindex_put r = (0, r)"
  using assms rb_full_iff [OF assms(1)] rb_count_less [of r]
  by (simp_all add: ringbufindex_put_def ringbufindex_peek_put_def)

lemma ringbufindex_get_some:
  assumes wf: "rb_wf r" and ne: "rb_count r \<noteq> 0"
  shows "ringbufindex_peek_get r = int (unat (rb_get_ptr r))"
    and "fst (ringbufindex_get r) = int (unat (rb_get_ptr r))"
    and "rb_indices r = unat (rb_get_ptr r) # rb_indices (snd (ringbufindex_get r))"
proof -
  have nf: "(rb_put_ptr r - rb_get_ptr r) AND rb_mask r \<noteq> 0"
    using rb_empty_iff [OF wf] ne by simp
  then show "ringbufindex_peek_get r = int (unat (rb_get_ptr r))"
    "fst (ringbufindex_get r) = int (unat (rb_get_ptr r))"
    by (simp_all add: ringbufindex_peek_get_def ringbufindex_get_def)
  let ?r = "snd (ringbufindex_get r)"
  have f: "rb_put_ptr ?r = rb_put_ptr r" "rb_get_ptr ?r = (rb_get_ptr r + 1) AND rb_mask r"
    using nf by (simp_all add: ringbufindex_get_def)
  note sz = rb_get_wf [OF wf]
  obtain c where c: "rb_count r = Suc c" using ne by (cases "rb_count r") auto
  have g: "unat (rb_get_ptr ?r) = (unat (rb_get_ptr r) + 1) mod rb_size r"
    using wf unat_next_ptr [OF wf] by (simp add: f rb_wf_def)
  have step: "(unat (rb_get_ptr ?r) + i) mod rb_size r = (unat (rb_get_ptr r) + Suc i) mod rb_size r" for i
    unfolding g by (simp add: mod_add_left_eq)
  have "rb_count ?r = c"
    using rb_count_unique [OF sz(1), of c] rb_count_less [of r] c step [of c] f sz(2)
      rb_put_index [OF wf] by simp
  then show "rb_indices r = unat (rb_get_ptr r) # rb_indices ?r"
    using c sz(2) step rb_wf_size(4) [OF wf]
    by (simp add: rb_indices_def upt_conv_Cons map_Suc_upt [symmetric] del: upt_Suc map_Suc_upt)
qed

lemma ringbufindex_get_none:
  assumes "rb_wf r" and "rb_count r = 0"
  shows "ringbufindex_peek_get r = -1" and "ringbufindex_get r = (-1, r)"
  using assms rb_empty_iff [OF assms(1)]
  by (simp_all add: ringbufindex_get_def ringbufindex_peek_get_def)

lemma ringbufindex_empty_iff: "rb_wf r \<Longrightarrow> ringbufindex_empty r \<longleftrightarrow> rb_indices r = []"
  using rb_diff [of r]
  by (auto simp: ringbufindex_empty_def ringbufindex_elements_def rb_indices_def uint_nat)

lemma ringbufindex_elements_eq: "rb_wf r \<Longrightarrow> ringbufindex_elements r = int (length (rb_indices r))"
  using rb_diff [of r] by (simp add: ringbufindex_elements_def uint_nat)

lemma rb_indices_bound: "i \<in> set (rb_indices r) \<Longrightarrow> i < rb_size r"
  by (auto simp: rb_indices_def rb_size_def)

lemma mod_add_inj_le:
  assumes "(g + i) mod n = (g + j) mod n" and "i \<le> j" and "j < (n :: nat)"
  shows "i = j"
proof -
  have "n dvd (g + j) - (g + i)" using assms(1,2) by (metis add_le_cancel_left mod_eq_dvd_iff_nat)
  then have "n dvd j - i" by simp
  then show ?thesis using assms(2,3) by (auto dest: dvd_imp_le)
qed

lemma mod_add_inj:
  assumes "(g + i) mod n = (g + j) mod n" and "i < n" and "j < (n :: nat)"
  shows "i = j"
  using mod_add_inj_le [of g i n j] mod_add_inj_le [of g j n i] assms by (metis nat_le_linear)

lemma rb_put_not_queued:
  assumes "rb_wf r" and "Suc (rb_count r) < rb_size r"
  shows "unat (rb_put_ptr r) \<notin> set (rb_indices r)"
proof
  assume "unat (rb_put_ptr r) \<in> set (rb_indices r)"
  then obtain i where i: "i < rb_count r"
    "(unat (rb_get_ptr r) + i) mod rb_size r = (unat (rb_get_ptr r) + rb_count r) mod rb_size r"
    using rb_put_index [OF assms(1)] by (auto simp: rb_indices_def)
  from mod_add_inj [OF i(2)] i(1) assms(2) show False by simp
qed

lemma ringbufindex_init_wf:
  assumes "k \<le> 7"
  shows "rb_wf (ringbufindex_init (2 ^ k))" and "rb_indices (ringbufindex_init (2 ^ k)) = []"
    and "rb_size (ringbufindex_init (2 ^ k)) = 2 ^ k"
proof -
  have m: "(2 :: u8) ^ k - 1 = mask k" by (simp add: mask_eq_exp_minus_1)
  then show "rb_wf (ringbufindex_init (2 ^ k))"
    using assms by (auto simp: rb_wf_def ringbufindex_init_def intro: exI [of _ k])
  show "rb_size (ringbufindex_init (2 ^ k)) = 2 ^ k"
    using assms by (simp add: rb_size_def ringbufindex_init_def m unat_mask_u8)
  then show "rb_indices (ringbufindex_init (2 ^ k)) = []"
    by (simp add: rb_indices_def rb_count_def) (simp add: ringbufindex_init_def)
qed

subsection \<open>The first-in first-out contract\<close>

text \<open>Take \<open>n\<close> elements from a queue, one after the other.\<close>

fun drain :: "('s \<Rightarrow> int \<times> 's) \<Rightarrow> nat \<Rightarrow> 's \<Rightarrow> int list \<times> 's" where
  "drain get 0 s = ([], s)"
| "drain get (Suc n) s =
     (case get s of (x, s') \<Rightarrow> (case drain get n s' of (xs, s'') \<Rightarrow> (x # xs, s'')))"

text \<open>The queue after \<open>n\<close> puts.\<close>

fun puts :: "('s \<Rightarrow> int \<times> 's) \<Rightarrow> nat \<Rightarrow> 's \<Rightarrow> 's" where
  "puts put 0 s = s"
| "puts put (Suc n) s = snd (put (puts put n s))"

locale index_queue =
  fixes wf :: "'s \<Rightarrow> bool" and abs :: "'s \<Rightarrow> nat list" and cap :: "'s \<Rightarrow> nat"
    and peek :: "'s \<Rightarrow> int" and put get :: "'s \<Rightarrow> int \<times> 's"
  assumes put_wf: "wf s \<Longrightarrow> wf (snd (put s))"
    and put_cap: "wf s \<Longrightarrow> cap (snd (put s)) = cap s"
    and get_wf: "wf s \<Longrightarrow> wf (snd (get s))"
    and put_room: "wf s \<Longrightarrow> Suc (length (abs s)) < cap s \<Longrightarrow>
      fst (put s) = 1 \<and> 0 \<le> peek s \<and> abs (snd (put s)) = abs s @ [nat (peek s)]"
    and put_full: "wf s \<Longrightarrow> \<not> Suc (length (abs s)) < cap s \<Longrightarrow> put s = (0, s)"
    and get_some: "wf s \<Longrightarrow> abs s = i # js \<Longrightarrow> fst (get s) = int i \<and> abs (snd (get s)) = js"
    and get_none: "wf s \<Longrightarrow> abs s = [] \<Longrightarrow> get s = (-1, s)"
begin

lemma puts_abs:
  assumes "wf s" and "length (abs s) + n < cap s"
  shows "wf (puts put n s) \<and> cap (puts put n s) = cap s \<and>
    abs (puts put n s) = abs s @ map (\<lambda>i. nat (peek (puts put i s))) [0..<n]"
  using assms(2)
proof (induction n)
  case (Suc n)
  let ?s = "puts put n s"
  have h: "wf ?s \<and> cap ?s = cap s \<and>
    abs ?s = abs s @ map (\<lambda>i. nat (peek (puts put i s))) [0..<n]"
    by (rule Suc.IH) (use Suc.prems in simp)
  with Suc.prems put_room [of ?s] put_wf [of ?s] put_cap [of ?s] show ?case by simp
qed (use assms(1) in simp)

lemma drain_all:
  "wf s \<Longrightarrow> fst (drain get (length (abs s)) s) = map int (abs s) \<and>
     abs (snd (drain get (length (abs s)) s)) = []"
proof (induction "abs s" arbitrary: s)
  case (Cons i js)
  have g: "fst (get s) = int i" "abs (snd (get s)) = js"
    using get_some [OF Cons.prems Cons.hyps(2) [symmetric]] by simp_all
  from Cons.hyps(1) [OF g(2) [symmetric] get_wf [OF Cons.prems]] Cons.hyps(2) [symmetric] g
  show ?case by (simp add: split_beta)
qed simp

lemma fifo:
  assumes "wf s" and "length (abs s) + n < cap s"
  shows "fst (drain get (length (abs s) + n) (puts put n s)) =
    map int (abs s) @ map (\<lambda>i. int (nat (peek (puts put i s)))) [0..<n]"
  using puts_abs [OF assms] drain_all [of "puts put n s"] by simp

end

interpretation rb: index_queue rb_wf rb_indices rb_size ringbufindex_peek_put ringbufindex_put
  ringbufindex_get
proof
  fix r i js
  assume "rb_wf r"
  then show "rb_wf (snd (ringbufindex_put r))" "rb_size (snd (ringbufindex_put r)) = rb_size r"
    "rb_wf (snd (ringbufindex_get r))"
    by (rule rb_put_wf rb_get_wf)+
  show "ringbufindex_put r = (0, r)" if "\<not> Suc (length (rb_indices r)) < rb_size r"
    using that ringbufindex_put_full(2) [OF \<open>rb_wf r\<close>] by simp
  show "fst (ringbufindex_put r) = 1 \<and> 0 \<le> ringbufindex_peek_put r \<and>
      rb_indices (snd (ringbufindex_put r)) = rb_indices r @ [nat (ringbufindex_peek_put r)]"
    if "Suc (length (rb_indices r)) < rb_size r"
    using that ringbufindex_put_room [OF \<open>rb_wf r\<close>] by simp
  show "fst (ringbufindex_get r) = int i \<and> rb_indices (snd (ringbufindex_get r)) = js"
    if q: "rb_indices r = i # js"
  proof -
    have "rb_count r \<noteq> 0" using q by (metis length_0_conv list.distinct(1) rb_length)
    from ringbufindex_get_some(2,3) [OF \<open>rb_wf r\<close> this] q show ?thesis by simp
  qed
  show "ringbufindex_get r = (-1, r)" if q: "rb_indices r = []"
  proof -
    have "rb_count r = 0" using q by (metis length_0_conv rb_length)
    then show ?thesis by (rule ringbufindex_get_none(2) [OF \<open>rb_wf r\<close>])
  qed
qed

text \<open>
  first in, first out.  On a ring buffer with room for \<open>n\<close> more indices, \<open>n\<close> calls of
  \<open>ringbufindex_put\<close> followed by as many calls of \<open>ringbufindex_get\<close> as there are elements
  return first the indices that were in use, oldest first, and then exactly the indices that
  \<open>ringbufindex_peek_put\<close> announced before each put, in the order of the puts, over any
  number of wrap-arounds of the 8-bit pointers.
\<close>

theorem ringbuf_fifo:
  assumes "rb_wf r" and "length (rb_indices r) + n < rb_size r"
  shows "fst (drain ringbufindex_get (length (rb_indices r) + n) (puts ringbufindex_put n r)) =
    map int (rb_indices r) @
    map (\<lambda>i. int (nat (ringbufindex_peek_put (puts ringbufindex_put i r)))) [0..<n]"
  by (rule rb.fifo [OF assms])

theorem ringbuf_fifo_witness:
  "fst (drain ringbufindex_get 3 (puts ringbufindex_put 2 \<lparr>rb_mask = 3, rb_put_ptr = 3, rb_get_ptr = 2\<rparr>)) =
     [2, 3, 0]"
proof -
  let ?r = "\<lparr>rb_mask = 3, rb_put_ptr = 3, rb_get_ptr = 2\<rparr>"
  have wf: "rb_wf ?r"
    unfolding rb_wf_def by (auto simp: mask_eq_exp_minus_1 intro: exI [of _ 2])
  have i: "rb_indices ?r = [2]"
    by (simp add: rb_indices_def rb_count_def rb_size_def)
  have "length (rb_indices ?r) + 2 < rb_size ?r" unfolding i by (simp add: rb_size_def)
  note f = ringbuf_fifo [OF wf this]
  have p: "puts ringbufindex_put 1 ?r = \<lparr>rb_mask = 3, rb_put_ptr = 0, rb_get_ptr = 2\<rparr>"
    by (simp add: ringbufindex_put_def)
  have u: "[0..<2] = [0, 1]" by (simp add: upt_rec)
  have l: "length [2 :: nat] + 2 = 3" by simp
  from f show ?thesis
    unfolding i l u list.map p
    by (simp add: ringbufindex_peek_put_def del: drain.simps puts.simps(2))
qed

end
