(* ===== verification/Tsch_Queue.thy ===== *)
theory Tsch_Queue
  imports Queuebuf Ringbufindex
begin

section \<open>TSCH queues\<close>

text \<open>
  Model of \<open>os/net/mac/tsch/tsch-queue.c\<close>, with the types of \<open>tsch-types.h\<close> and the TSCH lock
  of \<open>tsch-slot-operation.c\<close>.  Every neighbour with a queue is an item of the neighbour table
  \<open>tsch_neighbors\<close>; its queue is a ring buffer over an array of packet pointers.  Pointers to
  neighbours, packets, queue buffers and links are indices; \<open>nbr_queue\<close> is the queue of a
  neighbour, oldest packet first.

  The configuration is the one of the example: no link selector, no packet-ready callback, no
  TSCH statistics.  The MAC callbacks of the packets, the keep-alive timer and the policies
  of the neighbour table are the fields of \<open>queue_env\<close>; the results of \<open>random_rand\<close> come from
  the stream \<open>rand_src\<close>.  The interrupt of the slot operation is not modelled: \<open>tsch_get_lock\<close>
  fails when the lock is taken, and its busy wait for the end of a slot is skipped.
\<close>

datatype link_type = LINK_TYPE_NORMAL | LINK_TYPE_ADVERTISING | LINK_TYPE_ADVERTISING_ONLY

record tsch_link =
  link_handle :: u16
  link_addr :: linkaddr
  link_slotframe_handle :: u16
  link_timeslot :: u16
  link_channel_offset :: u16
  link_options :: u8
  link_link_type :: link_type
  link_data :: "nat option"

record tsch_packet =
  pkt_qb :: "nat option"
  pkt_sent :: "nat option"
  pkt_ptr :: nat
  pkt_transmissions :: u8
  pkt_max_transmissions :: u8
  pkt_ret :: u8
  pkt_header_len :: u8
  pkt_tsch_sync_ie_offset :: u8

record tsch_neighbor =
  is_broadcast :: bool
  is_time_source :: bool
  backoff_exponent :: u8
  backoff_window :: u16
  tx_links_count :: u8
  dedicated_tx_links_count :: u8
  tx_array :: "nat option list"
  tx_ringbuf :: ringbufindex

record tsch_queue_state = queuebuf_state +
  q_packet_memb :: memb
  q_packets :: "tsch_packet list"
  q_nbrs :: "tsch_neighbor list"                 \<comment> \<open>the items of \<open>tsch_neighbors\<close>\<close>
  q_n_broadcast :: "nat option"
  q_n_eb :: "nat option"
  tsch_locked :: bool
  tsch_is_coordinator :: bool
  rand_src :: "nat \<Rightarrow> u16"
  rand_pos :: nat

record 's queue_env =
  qe_nbr :: "'s nbr_env"
  qe_sent :: "nat \<Rightarrow> nat \<Rightarrow> u8 \<Rightarrow> u8 \<Rightarrow> 's \<Rightarrow> 's"       \<comment> \<open>the \<open>sent\<close> callbacks\<close>
  qe_set_ka_timeout :: "u32 \<Rightarrow> 's \<Rightarrow> 's"

definition LINK_OPTION_TX :: u8 where "LINK_OPTION_TX = 1"
definition LINK_OPTION_RX :: u8 where "LINK_OPTION_RX = 2"
definition LINK_OPTION_SHARED :: u8 where "LINK_OPTION_SHARED = 4"
definition LINK_OPTION_TIME_KEEPING :: u8 where "LINK_OPTION_TIME_KEEPING = 8"

definition MAC_TX_OK :: u8 where "MAC_TX_OK = 0"
definition MAC_TX_COLLISION :: u8 where "MAC_TX_COLLISION = 1"
definition MAC_TX_NOACK :: u8 where "MAC_TX_NOACK = 2"
definition MAC_TX_DEFERRED :: u8 where "MAC_TX_DEFERRED = 3"
definition MAC_TX_ERR :: u8 where "MAC_TX_ERR = 4"
definition MAC_TX_ERR_FATAL :: u8 where "MAC_TX_ERR_FATAL = 5"

definition QUEUEBUF_NUM :: nat where "QUEUEBUF_NUM = 32"
definition TSCH_QUEUE_NUM_PER_NEIGHBOR :: nat where "TSCH_QUEUE_NUM_PER_NEIGHBOR = 32"
definition TSCH_MAC_MIN_BE :: u8 where "TSCH_MAC_MIN_BE = 1"
definition TSCH_MAC_MAX_BE :: u8 where "TSCH_MAC_MAX_BE = 5"
definition NBR_TABLE_REASON_MAC :: nat where "NBR_TABLE_REASON_MAC = 6"
definition TSCH_KEEPALIVE_TIMEOUT :: u32 where "TSCH_KEEPALIVE_TIMEOUT = 12 * 128"

definition tsch_broadcast_address :: linkaddr where "tsch_broadcast_address = -1"
definition tsch_eb_address :: linkaddr where "tsch_eb_address = 0"

definition nbr_memset0 :: tsch_neighbor where
  "nbr_memset0 = \<lparr>is_broadcast = False, is_time_source = False, backoff_exponent = 0,
     backoff_window = 0, tx_links_count = 0, dedicated_tx_links_count = 0,
     tx_array = replicate TSCH_QUEUE_NUM_PER_NEIGHBOR None,
     tx_ringbuf = \<lparr>rb_mask = 0, rb_put_ptr = 0, rb_get_ptr = 0\<rparr>\<rparr>"

definition tsch_packet_zero :: tsch_packet where
  "tsch_packet_zero = \<lparr>pkt_qb = None, pkt_sent = None, pkt_ptr = 0, pkt_transmissions = 0,
     pkt_max_transmissions = 0, pkt_ret = 0, pkt_header_len = 0, pkt_tsch_sync_ie_offset = 0\<rparr>"

definition tsch_link_zero :: tsch_link where
  "tsch_link_zero = \<lparr>link_handle = 0, link_addr = 0, link_slotframe_handle = 0, link_timeslot = 0,
     link_channel_offset = 0, link_options = 0, link_link_type = LINK_TYPE_NORMAL, link_data = None\<rparr>"

definition tsch_neighbors :: "('a tsch_queue_state_scheme) nbr_table" where
  "tsch_neighbors = \<lparr>tbl_id = 0, tbl_zero = (\<lambda>i s. s\<lparr>q_nbrs := (q_nbrs s)[i := nbr_memset0]\<rparr>)\<rparr>"

definition upd_nbr ::
  "nat \<Rightarrow> (tsch_neighbor \<Rightarrow> tsch_neighbor) \<Rightarrow> 'a tsch_queue_state_scheme \<Rightarrow> 'a tsch_queue_state_scheme" where
  "upd_nbr n f s = s\<lparr>q_nbrs := (q_nbrs s)[n := f (q_nbrs s ! n)]\<rparr>"

definition random_rand :: "'a tsch_queue_state_scheme \<Rightarrow> u16 \<times> 'a tsch_queue_state_scheme" where
  "random_rand s = (rand_src s (rand_pos s), s\<lparr>rand_pos := Suc (rand_pos s)\<rparr>)"

subsection \<open>The lock\<close>

definition tsch_is_locked :: "'a tsch_queue_state_scheme \<Rightarrow> bool" where
  "tsch_is_locked s = tsch_locked s"

definition tsch_get_lock :: "'a tsch_queue_state_scheme \<Rightarrow> bool \<times> 'a tsch_queue_state_scheme" where
  "tsch_get_lock s = (if \<not> tsch_locked s then (True, s\<lparr>tsch_locked := True\<rparr>) else (False, s))"

definition tsch_release_lock :: "'a tsch_queue_state_scheme \<Rightarrow> 'a tsch_queue_state_scheme" where
  "tsch_release_lock s = s\<lparr>tsch_locked := False\<rparr>"

subsection \<open>Backoff\<close>

definition tsch_queue_backoff_expired :: "tsch_neighbor \<Rightarrow> bool" where
  "tsch_queue_backoff_expired n \<longleftrightarrow> backoff_window n = 0"

definition tsch_queue_backoff_reset :: "tsch_neighbor \<Rightarrow> tsch_neighbor" where
  "tsch_queue_backoff_reset n = n\<lparr>backoff_window := 0, backoff_exponent := TSCH_MAC_MIN_BE\<rparr>"

definition tsch_queue_backoff_inc :: "nat \<Rightarrow> 'a tsch_queue_state_scheme \<Rightarrow> 'a tsch_queue_state_scheme" where
  "tsch_queue_backoff_inc n s =
     (let e = word_of_int (min (uint (backoff_exponent (q_nbrs s ! n)) + 1) (uint TSCH_MAC_MAX_BE));
          (r, s1) = random_rand s;
          w = word_of_int (uint (drop_bit 6 r) mod 2 ^ unat e);
          w1 = (if w < 0xffff then w + 1 else w)
      in upd_nbr n (\<lambda>b. b\<lparr>backoff_exponent := e, backoff_window := w1\<rparr>) s1)"

subsection \<open>Neighbours\<close>

definition tsch_queue_get_nbr :: "linkaddr \<Rightarrow> 'a tsch_queue_state_scheme \<Rightarrow> nat option" where
  "tsch_queue_get_nbr addr s =
     (if \<not> tsch_is_locked s then nbr_table_get_from_lladdr tsch_neighbors (Some addr) s else None)"

definition tsch_queue_init_nbr ::
  "linkaddr \<Rightarrow> nat \<Rightarrow> 'a tsch_queue_state_scheme \<Rightarrow> 'a tsch_queue_state_scheme" where
  "tsch_queue_init_nbr addr n s =
     upd_nbr n (\<lambda>_. tsch_queue_backoff_reset (nbr_memset0
        \<lparr>tx_ringbuf := ringbufindex_init (of_nat TSCH_QUEUE_NUM_PER_NEIGHBOR),
         is_broadcast := addr = tsch_eb_address \<or> addr = tsch_broadcast_address\<rparr>)) s"

definition tsch_queue_add_nbr ::
  "('a tsch_queue_state_scheme) queue_env \<Rightarrow> linkaddr \<Rightarrow> 'a tsch_queue_state_scheme \<Rightarrow>
   nat option \<times> 'a tsch_queue_state_scheme" where
  "tsch_queue_add_nbr env addr s =
     (case tsch_queue_get_nbr addr s of
        Some n \<Rightarrow> (Some n, s)
      | None \<Rightarrow>
          (case tsch_get_lock s of
             (False, s1) \<Rightarrow> (None, s1)
           | (True, s1) \<Rightarrow>
               (case nbr_table_add_lladdr (qe_nbr env) tsch_neighbors (Some addr) NBR_TABLE_REASON_MAC s1 of
                  (None, s2) \<Rightarrow> (None, tsch_release_lock s2)
                | (Some n, s2) \<Rightarrow>
                    (Some n, tsch_release_lock
                       (tsch_queue_init_nbr addr n (snd (nbr_table_lock tsch_neighbors (Some n) s2)))))))"

definition tsch_queue_get_time_source :: "'a tsch_queue_state_scheme \<Rightarrow> nat option" where
  "tsch_queue_get_time_source s =
     (if \<not> tsch_is_locked s
      then find (\<lambda>n. is_time_source (q_nbrs s ! n)) (nbr_table_items tsch_neighbors s) else None)"

definition tsch_queue_get_nbr_address :: "nat option \<Rightarrow> 'a tsch_queue_state_scheme \<Rightarrow> linkaddr option" where
  "tsch_queue_get_nbr_address n s = nbr_table_get_lladdr n s"

definition tsch_queue_change_time_source ::
  "('a tsch_queue_state_scheme) queue_env \<Rightarrow> nat option \<Rightarrow> nat option \<Rightarrow>
   'a tsch_queue_state_scheme \<Rightarrow> 'a tsch_queue_state_scheme" where
  "tsch_queue_change_time_source env old_time_src new_time_src s =
     (if new_time_src \<noteq> old_time_src
      then let s1 = (case new_time_src of
                Some n \<Rightarrow> qe_set_ka_timeout env TSCH_KEEPALIVE_TIMEOUT (upd_nbr n (\<lambda>b. b\<lparr>is_time_source := True\<rparr>) s)
              | None \<Rightarrow> qe_set_ka_timeout env 0 s)
           in case old_time_src of
                Some n \<Rightarrow> upd_nbr n (\<lambda>b. b\<lparr>is_time_source := False\<rparr>) s1
              | None \<Rightarrow> s1
      else s)"

definition tsch_queue_update_time_source ::
  "('a tsch_queue_state_scheme) queue_env \<Rightarrow> linkaddr option \<Rightarrow> 'a tsch_queue_state_scheme \<Rightarrow>
   int \<times> 'a tsch_queue_state_scheme" where
  "tsch_queue_update_time_source env new_addr s =
     (if \<not> tsch_is_locked s \<and> \<not> tsch_is_coordinator s
      then let old_time_src = tsch_queue_get_time_source s
           in case new_addr of
                None \<Rightarrow> (1, tsch_queue_change_time_source env old_time_src None s)
              | Some a \<Rightarrow>
                  (case tsch_queue_add_nbr env a s of
                     (None, s1) \<Rightarrow> (0, s1)
                   | (Some n, s1) \<Rightarrow> (1, tsch_queue_change_time_source env old_time_src (Some n) s1))
      else (0, s))"

subsection \<open>Packets\<close>

definition tsch_queue_is_empty :: "nat option \<Rightarrow> 'a tsch_queue_state_scheme \<Rightarrow> bool" where
  "tsch_queue_is_empty n s \<longleftrightarrow>
     \<not> tsch_is_locked s \<and> (\<exists>i \<in> set_option n. ringbufindex_empty (tx_ringbuf (q_nbrs s ! i)))"

text \<open>Filling in the packet and committing it to the ring buffer at \<open>put_index\<close>.\<close>

definition tsch_queue_enqueue ::
  "nat \<Rightarrow> nat \<Rightarrow> int \<Rightarrow> nat \<Rightarrow> u8 \<Rightarrow> nat option \<Rightarrow> nat \<Rightarrow> 'a tsch_queue_state_scheme \<Rightarrow>
   'a tsch_queue_state_scheme" where
  "tsch_queue_enqueue n p put_index qb max_transmissions sent ptr s =
     upd_nbr n (\<lambda>b. b\<lparr>tx_array := (tx_array b)[nat put_index := Some p],
                      tx_ringbuf := snd (ringbufindex_put (tx_ringbuf b))\<rparr>)
       (s\<lparr>q_packets := (q_packets s)[p := (q_packets s ! p)
            \<lparr>pkt_qb := Some qb, pkt_sent := sent, pkt_ptr := ptr, pkt_ret := MAC_TX_DEFERRED,
             pkt_transmissions := 0, pkt_max_transmissions := max_transmissions\<rparr>]\<rparr>)"

definition tsch_queue_add_packet ::
  "('a tsch_queue_state_scheme) queue_env \<Rightarrow> linkaddr \<Rightarrow> u8 \<Rightarrow> nat option \<Rightarrow> nat \<Rightarrow>
   'a tsch_queue_state_scheme \<Rightarrow> (nat option \<times> 'a tsch_queue_state_scheme) ub" where
  "tsch_queue_add_packet env addr max_transmissions sent ptr s =
     (if tsch_is_locked s then Some (None, s)
      else case tsch_queue_add_nbr env addr s of
        (None, s1) \<Rightarrow> Some (None, s1)
      | (Some n, s1) \<Rightarrow>
          (let put_index = ringbufindex_peek_put (tx_ringbuf (q_nbrs s1 ! n))
           in if put_index = -1 then Some (None, s1)
              else case memb_alloc (q_packet_memb s1) of
                (None, _) \<Rightarrow> Some (None, s1)
              | (Some p, m) \<Rightarrow>
                  do {
                    (qb, s2) \<leftarrow> queuebuf_new_from_packetbuf (s1\<lparr>q_packet_memb := m\<rparr>);
                    Some (case qb of
                        Some b \<Rightarrow> (Some p, tsch_queue_enqueue n p put_index b max_transmissions sent ptr s2)
                      | None \<Rightarrow> (None, s2\<lparr>q_packet_memb := snd (memb_free (q_packet_memb s2) p),
                                         q_packets := (q_packets s2)[p := (q_packets s2 ! p)\<lparr>pkt_qb := None\<rparr>]\<rparr>))
                  }))"

definition tsch_queue_global_packet_count :: "'a tsch_queue_state_scheme \<Rightarrow> int" where
  "tsch_queue_global_packet_count s = int QUEUEBUF_NUM - int (memb_numfree (q_packet_memb s))"

definition tsch_queue_nbr_packet_count :: "nat option \<Rightarrow> 'a tsch_queue_state_scheme \<Rightarrow> int" where
  "tsch_queue_nbr_packet_count n s =
     (case n of Some i \<Rightarrow> ringbufindex_elements (tx_ringbuf (q_nbrs s ! i)) | None \<Rightarrow> -1)"

definition tsch_queue_remove_packet_from_queue ::
  "nat option \<Rightarrow> 'a tsch_queue_state_scheme \<Rightarrow> nat option \<times> 'a tsch_queue_state_scheme" where
  "tsch_queue_remove_packet_from_queue n s =
     (if \<not> tsch_is_locked s
      then case n of
        Some i \<Rightarrow>
          (let (get_index, r) = ringbufindex_get (tx_ringbuf (q_nbrs s ! i));
               s1 = upd_nbr i (\<lambda>b. b\<lparr>tx_ringbuf := r\<rparr>) s
           in if get_index \<noteq> -1 then (tx_array (q_nbrs s ! i) ! nat get_index, s1) else (None, s1))
      | None \<Rightarrow> (None, s)
      else (None, s))"

definition tsch_queue_free_packet ::
  "nat option \<Rightarrow> 'a tsch_queue_state_scheme \<Rightarrow> 'a tsch_queue_state_scheme" where
  "tsch_queue_free_packet po s =
     (case po of
        None \<Rightarrow> s
      | Some p \<Rightarrow>
          (let s1 = (case pkt_qb (q_packets s ! p) of Some b \<Rightarrow> queuebuf_free b s | None \<Rightarrow> s)
           in s1\<lparr>q_packet_memb := snd (memb_free (q_packet_memb s1) p)\<rparr>))"

text \<open>\<open>mac_call_sent_callback\<close> of \<open>os/net/mac/mac.c\<close>: call the callback, if there is one.\<close>

definition call_sent_callback ::
  "('a tsch_queue_state_scheme) queue_env \<Rightarrow> nat \<Rightarrow> 'a tsch_queue_state_scheme \<Rightarrow>
   'a tsch_queue_state_scheme" where
  "call_sent_callback env p s =
     (let pk = q_packets s ! p
      in case pkt_sent pk of
           Some f \<Rightarrow> qe_sent env f (pkt_ptr pk) (pkt_ret pk) (pkt_transmissions pk) s
         | None \<Rightarrow> s)"

definition tsch_queue_flush_packet ::
  "('a tsch_queue_state_scheme) queue_env \<Rightarrow> nat \<Rightarrow> 'a tsch_queue_state_scheme \<Rightarrow>
   'a tsch_queue_state_scheme" where
  "tsch_queue_flush_packet env p s =
     tsch_queue_free_packet (Some p) (call_sent_callback env p
       (s\<lparr>q_packets := (q_packets s)[p := (q_packets s ! p)\<lparr>pkt_ret := MAC_TX_ERR\<rparr>]\<rparr>))"

text \<open>The \<open>while\<close> loop; it need not end (the callbacks may add packets), and then it is \<open>None\<close>.\<close>

partial_function (option) tsch_queue_flush_nbr_queue ::
  "('a tsch_queue_state_scheme) queue_env \<Rightarrow> nat \<Rightarrow> 'a tsch_queue_state_scheme \<Rightarrow>
   'a tsch_queue_state_scheme option" where
  "tsch_queue_flush_nbr_queue env n s =
     (if tsch_queue_is_empty (Some n) s then Some s
      else case tsch_queue_remove_packet_from_queue (Some n) s of
             (None, s1) \<Rightarrow> tsch_queue_flush_nbr_queue env n s1
           | (Some p, s1) \<Rightarrow> tsch_queue_flush_nbr_queue env n (tsch_queue_flush_packet env p s1))"

definition tsch_queue_remove_nbr ::
  "('a tsch_queue_state_scheme) queue_env \<Rightarrow> nat option \<Rightarrow> 'a tsch_queue_state_scheme \<Rightarrow>
   'a tsch_queue_state_scheme option" where
  "tsch_queue_remove_nbr env no s =
     (case no of
        None \<Rightarrow> Some s
      | Some n \<Rightarrow>
          (case tsch_get_lock s of
             (False, s1) \<Rightarrow> Some s1
           | (True, s1) \<Rightarrow>
               do {
                 s2 \<leftarrow> tsch_queue_flush_nbr_queue env n (tsch_release_lock s1);
                 Some (snd (nbr_table_remove tsch_neighbors (Some n) s2))
               }))"

definition tsch_queue_free_packets_to ::
  "('a tsch_queue_state_scheme) queue_env \<Rightarrow> linkaddr \<Rightarrow> 'a tsch_queue_state_scheme \<Rightarrow>
   'a tsch_queue_state_scheme option" where
  "tsch_queue_free_packets_to env addr s =
     (if \<not> tsch_is_locked s
      then case tsch_queue_get_nbr addr s of
             Some n \<Rightarrow> tsch_queue_flush_nbr_queue env n s
           | None \<Rightarrow> Some s
      else Some s)"

definition tsch_queue_packet_sent ::
  "nat \<Rightarrow> nat \<Rightarrow> tsch_link \<Rightarrow> u8 \<Rightarrow> 'a tsch_queue_state_scheme \<Rightarrow> int \<times> 'a tsch_queue_state_scheme" where
  "tsch_queue_packet_sent n p link mac_tx_status s =
     (let is_shared_link = link_options link AND LINK_OPTION_SHARED \<noteq> 0;
          is_unicast = (\<not> is_broadcast (q_nbrs s ! n))
      in if mac_tx_status = MAC_TX_OK
         then let s1 = snd (tsch_queue_remove_packet_from_queue (Some n) s)
              in (0, if is_unicast \<and> (is_shared_link \<or> tsch_queue_is_empty (Some n) s1)
                     then upd_nbr n tsch_queue_backoff_reset s1 else s1)
         else let drop_it = pkt_max_transmissions (q_packets s ! p) \<le> pkt_transmissions (q_packets s ! p);
                  s1 = (if drop_it then snd (tsch_queue_remove_packet_from_queue (Some n) s) else s)
              in (if drop_it then 0 else 1,
                  if is_unicast \<and> is_shared_link then tsch_queue_backoff_inc n s1 else s1))"

partial_function (option) tsch_queue_reset_loop ::
  "('a tsch_queue_state_scheme) queue_env \<Rightarrow> nat option \<Rightarrow> 'a tsch_queue_state_scheme \<Rightarrow>
   'a tsch_queue_state_scheme option" where
  "tsch_queue_reset_loop env no s =
     (case no of
        None \<Rightarrow> Some s
      | Some n \<Rightarrow>
          do {
            let next_n = nbr_table_next tsch_neighbors (Some n) s;
            s1 \<leftarrow> tsch_queue_flush_nbr_queue env n s;
            tsch_queue_reset_loop env next_n (upd_nbr n tsch_queue_backoff_reset s1)
          })"

definition tsch_queue_reset ::
  "('a tsch_queue_state_scheme) queue_env \<Rightarrow> 'a tsch_queue_state_scheme \<Rightarrow>
   'a tsch_queue_state_scheme option" where
  "tsch_queue_reset env s =
     (if \<not> tsch_is_locked s then tsch_queue_reset_loop env (nbr_table_head tsch_neighbors s) s
      else Some s)"

definition tsch_queue_unused :: "nat \<Rightarrow> 'a tsch_queue_state_scheme \<Rightarrow> bool" where
  "tsch_queue_unused n s \<longleftrightarrow>
     \<not> is_broadcast (q_nbrs s ! n) \<and> \<not> is_time_source (q_nbrs s ! n) \<and>
     tx_links_count (q_nbrs s ! n) = 0 \<and> tsch_queue_is_empty (Some n) s"

partial_function (option) tsch_queue_free_unused_loop ::
  "('a tsch_queue_state_scheme) queue_env \<Rightarrow> nat option \<Rightarrow> 'a tsch_queue_state_scheme \<Rightarrow>
   'a tsch_queue_state_scheme option" where
  "tsch_queue_free_unused_loop env no s =
     (case no of
        None \<Rightarrow> Some s
      | Some n \<Rightarrow>
          do {
            let next_n = nbr_table_next tsch_neighbors (Some n) s;
            s1 \<leftarrow> (if tsch_queue_unused n s then tsch_queue_remove_nbr env (Some n) s else Some s);
            tsch_queue_free_unused_loop env next_n s1
          })"

definition tsch_queue_free_unused_neighbors ::
  "('a tsch_queue_state_scheme) queue_env \<Rightarrow> 'a tsch_queue_state_scheme \<Rightarrow>
   'a tsch_queue_state_scheme option" where
  "tsch_queue_free_unused_neighbors env s =
     (if \<not> tsch_is_locked s then tsch_queue_free_unused_loop env (nbr_table_head tsch_neighbors s) s
      else Some s)"

definition tsch_queue_get_packet_for_nbr ::
  "nat option \<Rightarrow> tsch_link option \<Rightarrow> 'a tsch_queue_state_scheme \<Rightarrow> nat option" where
  "tsch_queue_get_packet_for_nbr no link s =
     (if \<not> tsch_is_locked s
      then let is_shared_link = (case link of
                 Some l \<Rightarrow> link_options l AND LINK_OPTION_SHARED \<noteq> 0 | None \<Rightarrow> False)
           in case no of
                Some n \<Rightarrow>
                  (let get_index = ringbufindex_peek_get (tx_ringbuf (q_nbrs s ! n))
                   in if get_index \<noteq> -1 \<and>
                         \<not> (is_shared_link \<and> \<not> tsch_queue_backoff_expired (q_nbrs s ! n))
                      then tx_array (q_nbrs s ! n) ! nat get_index else None)
              | None \<Rightarrow> None
      else None)"

definition tsch_queue_get_packet_for_dest_addr ::
  "linkaddr \<Rightarrow> tsch_link option \<Rightarrow> 'a tsch_queue_state_scheme \<Rightarrow> nat option" where
  "tsch_queue_get_packet_for_dest_addr addr link s =
     (if \<not> tsch_is_locked s
      then tsch_queue_get_packet_for_nbr (tsch_queue_get_nbr addr s) link s else None)"

definition tsch_queue_get_unicast_packet_for_any ::
  "tsch_link option \<Rightarrow> 'a tsch_queue_state_scheme \<Rightarrow> (nat \<times> nat) option" where
  "tsch_queue_get_unicast_packet_for_any link s =
     (if \<not> tsch_is_locked s
      then case find (\<lambda>n. \<not> is_broadcast (q_nbrs s ! n) \<and> tx_links_count (q_nbrs s ! n) = 0 \<and>
                       tsch_queue_get_packet_for_nbr (Some n) link s \<noteq> None)
                     (nbr_table_items tsch_neighbors s) of
             Some n \<Rightarrow> map_option (\<lambda>p. (p, n)) (tsch_queue_get_packet_for_nbr (Some n) link s)
           | None \<Rightarrow> None
      else None)"

definition tsch_queue_update_backoff_window ::
  "linkaddr \<Rightarrow> nat \<Rightarrow> 'a tsch_queue_state_scheme \<Rightarrow> 'a tsch_queue_state_scheme" where
  "tsch_queue_update_backoff_window dest_addr n s =
     (let b = q_nbrs s ! n
      in if backoff_window b \<noteq> 0 \<and>
            (tx_links_count b = 0 \<and> dest_addr = tsch_broadcast_address \<or>
             0 < tx_links_count b \<and> Some dest_addr = tsch_queue_get_nbr_address (Some n) s)
         then upd_nbr n (\<lambda>b. b\<lparr>backoff_window := backoff_window b - 1\<rparr>) s else s)"

definition tsch_queue_update_all_backoff_windows ::
  "linkaddr \<Rightarrow> 'a tsch_queue_state_scheme \<Rightarrow> 'a tsch_queue_state_scheme" where
  "tsch_queue_update_all_backoff_windows dest_addr s =
     (if \<not> tsch_is_locked s
      then fold (tsch_queue_update_backoff_window dest_addr) (nbr_table_items tsch_neighbors s) s
      else s)"

definition tsch_queue_init ::
  "('a tsch_queue_state_scheme) queue_env \<Rightarrow> 'a tsch_queue_state_scheme \<Rightarrow> 'a tsch_queue_state_scheme" where
  "tsch_queue_init env s =
     (let s1 = snd (nbr_table_register (tbl_id (tsch_neighbors :: ('a tsch_queue_state_scheme) nbr_table)) False s);
          s2 = s1\<lparr>q_packet_memb := memb_init (q_packet_memb s1),
                  q_packets := replicate (length (q_packets s1)) tsch_packet_zero\<rparr>;
          (n_eb, s3) = tsch_queue_add_nbr env tsch_eb_address s2;
          (n_broadcast, s4) = tsch_queue_add_nbr env tsch_broadcast_address (s3\<lparr>q_n_eb := n_eb\<rparr>)
      in s4\<lparr>q_n_broadcast := n_broadcast\<rparr>)"

subsection \<open>The queue of a neighbour\<close>

definition nbr_packets :: "tsch_neighbor \<Rightarrow> nat option list" where
  "nbr_packets b = map (\<lambda>i. tx_array b ! i) (rb_indices (tx_ringbuf b))"

definition nbr_queue :: "nat \<Rightarrow> 'a tsch_queue_state_scheme \<Rightarrow> nat option list" where
  "nbr_queue n s = nbr_packets (q_nbrs s ! n)"

definition nbr_ring_ok :: "tsch_neighbor \<Rightarrow> bool" where
  "nbr_ring_ok b \<longleftrightarrow> rb_wf (tx_ringbuf b) \<and> rb_size (tx_ringbuf b) = TSCH_QUEUE_NUM_PER_NEIGHBOR \<and>
     length (tx_array b) = TSCH_QUEUE_NUM_PER_NEIGHBOR"

lemma nbr_packets_length: "length (nbr_packets b) = length (rb_indices (tx_ringbuf b))"
  by (simp add: nbr_packets_def)

lemma nbr_enqueue:
  assumes ok: "nbr_ring_ok b" and room: "Suc (length (nbr_packets b)) < TSCH_QUEUE_NUM_PER_NEIGHBOR"
    and b': "b' = b\<lparr>tx_array := (tx_array b)[nat (ringbufindex_peek_put (tx_ringbuf b)) := x],
                  tx_ringbuf := snd (ringbufindex_put (tx_ringbuf b))\<rparr>"
  shows "ringbufindex_peek_put (tx_ringbuf b) \<noteq> -1" and "nbr_packets b' = nbr_packets b @ [x]"
    and "nbr_ring_ok b'"
proof -
  let ?r = "tx_ringbuf b" and ?i = "unat (rb_put_ptr (tx_ringbuf b))"
  have wf: "rb_wf ?r" and sz: "rb_size ?r = TSCH_QUEUE_NUM_PER_NEIGHBOR"
    and la: "length (tx_array b) = TSCH_QUEUE_NUM_PER_NEIGHBOR"
    using ok by (simp_all add: nbr_ring_ok_def)
  have c: "Suc (rb_count ?r) < rb_size ?r" using room sz by (simp add: nbr_packets_def)
  note p = ringbufindex_put_room [OF wf c] and w = rb_put_wf [OF wf]
  show "ringbufindex_peek_put ?r \<noteq> -1" using p(1) by simp
  have i: "?i \<notin> set (rb_indices ?r)" by (rule rb_put_not_queued [OF wf c])
  have il: "?i < length (tx_array b)" using rb_wf_size(3) [OF wf] sz la by simp
  have e: "b' = b\<lparr>tx_array := (tx_array b)[?i := x], tx_ringbuf := snd (ringbufindex_put ?r)\<rparr>"
    using b' p(1) by simp
  show "nbr_packets b' = nbr_packets b @ [x]"
    using i il p(3) by (auto simp: e nbr_packets_def intro!: nth_list_update_neq)
  show "nbr_ring_ok b'" using w sz la by (simp add: e nbr_ring_ok_def)
qed

lemma nbr_full:
  assumes "nbr_ring_ok b" and "\<not> Suc (length (nbr_packets b)) < TSCH_QUEUE_NUM_PER_NEIGHBOR"
  shows "ringbufindex_peek_put (tx_ringbuf b) = -1"
  using assms ringbufindex_put_full(1) [of "tx_ringbuf b"]
  by (simp add: nbr_ring_ok_def nbr_packets_def)

lemma nbr_dequeue:
  assumes ok: "nbr_ring_ok b" and q: "nbr_packets b = x # xs"
    and b': "b' = b\<lparr>tx_ringbuf := snd (ringbufindex_get (tx_ringbuf b))\<rparr>"
  shows "fst (ringbufindex_get (tx_ringbuf b)) \<noteq> -1"
    and "ringbufindex_peek_get (tx_ringbuf b) \<noteq> -1"
    and "tx_array b ! nat (fst (ringbufindex_get (tx_ringbuf b))) = x"
    and "tx_array b ! nat (ringbufindex_peek_get (tx_ringbuf b)) = x"
    and "nbr_packets b' = xs" and "nbr_ring_ok b'"
proof -
  let ?r = "tx_ringbuf b"
  have wf: "rb_wf ?r" using ok by (simp add: nbr_ring_ok_def)
  have "rb_count ?r \<noteq> 0" using q by (metis length_0_conv list.distinct(1) nbr_packets_length rb_length)
  note g = ringbufindex_get_some [OF wf this] and w = rb_get_wf [OF wf]
  show "fst (ringbufindex_get ?r) \<noteq> -1" "ringbufindex_peek_get ?r \<noteq> -1" using g by simp_all
  have "nbr_packets b = tx_array b ! unat (rb_get_ptr ?r) # nbr_packets b'"
    unfolding nbr_packets_def g(3) by (simp add: b')
  with q have h: "tx_array b ! unat (rb_get_ptr ?r) = x" "nbr_packets b' = xs" by simp_all
  then show "tx_array b ! nat (fst (ringbufindex_get ?r)) = x"
    "tx_array b ! nat (ringbufindex_peek_get ?r) = x" "nbr_packets b' = xs"
    by (simp_all add: g(1,2))
  show "nbr_ring_ok b'" using ok w by (simp add: nbr_ring_ok_def b')
qed

lemma nbr_dequeue_empty:
  assumes "nbr_ring_ok b" and "nbr_packets b = []"
  shows "ringbufindex_get (tx_ringbuf b) = (-1, tx_ringbuf b)"
    and "ringbufindex_peek_get (tx_ringbuf b) = -1"
  using assms ringbufindex_get_none [of "tx_ringbuf b"]
  by (simp_all add: nbr_ring_ok_def nbr_packets_def rb_indices_def)

lemma nbr_empty_iff: "nbr_ring_ok b \<Longrightarrow> ringbufindex_empty (tx_ringbuf b) \<longleftrightarrow> nbr_packets b = []"
  by (simp add: nbr_ring_ok_def ringbufindex_empty_iff nbr_packets_def)

lemma nth_upd_nbr: "n < length (q_nbrs s) \<Longrightarrow>
   q_nbrs (upd_nbr n f s) ! m = (if m = n then f (q_nbrs s ! n) else q_nbrs s ! m)"
  by (simp add: upd_nbr_def nth_list_update)

lemma upd_nbr_simps [simp]:
  "length (q_nbrs (upd_nbr n f s)) = length (q_nbrs s)"
  "tsch_locked (upd_nbr n f s) = tsch_locked s"
  "q_packets (upd_nbr n f s) = q_packets s" "q_packet_memb (upd_nbr n f s) = q_packet_memb s"
  "queuebuf_state.truncate (upd_nbr n f s) = queuebuf_state.truncate s"
  by (simp_all add: upd_nbr_def queuebuf_state.truncate_def)

lemma remove_packet_cons:
  assumes "\<not> tsch_locked s" and "nbr_ring_ok (q_nbrs s ! n)" and "nbr_queue n s = x # xs"
  shows "tsch_queue_remove_packet_from_queue (Some n) s =
    (x, upd_nbr n (\<lambda>b. b\<lparr>tx_ringbuf := snd (ringbufindex_get (tx_ringbuf b))\<rparr>) s)"
  using assms nbr_dequeue(1,3) [OF assms(2) assms(3) [unfolded nbr_queue_def] refl]
  by (simp add: tsch_queue_remove_packet_from_queue_def tsch_is_locked_def split_beta upd_nbr_def)

lemma remove_packet_nil:
  assumes "nbr_ring_ok (q_nbrs s ! n)" and "nbr_queue n s = []"
  shows "tsch_queue_remove_packet_from_queue (Some n) s = (None, s)"
proof -
  have "upd_nbr n (\<lambda>b. b\<lparr>tx_ringbuf := tx_ringbuf (q_nbrs s ! n)\<rparr>) s = s"
    by (simp add: upd_nbr_def)
  then show ?thesis
    using nbr_dequeue_empty(1) [OF assms(1) assms(2) [unfolded nbr_queue_def]]
    by (simp add: tsch_queue_remove_packet_from_queue_def)
qed

lemma is_empty_iff:
  "\<not> tsch_locked s \<Longrightarrow> nbr_ring_ok (q_nbrs s ! n) \<Longrightarrow>
   tsch_queue_is_empty (Some n) s \<longleftrightarrow> nbr_queue n s = []"
  by (simp add: tsch_queue_is_empty_def tsch_is_locked_def nbr_empty_iff nbr_queue_def)

subsection \<open>Adding a packet\<close>

lemma queue_truncate_fields:
  assumes "nbr_state.truncate s' = nbr_state.truncate s"
  shows "nt_used_map s' = nt_used_map s" "nt_index s' = nt_index s" "nt_keys s' = nt_keys s"
    "nt_lladdr s' = nt_lladdr s" "pb_mem s' = pb_mem s"
  using assms by (simp_all add: nbr_state.truncate_def)

text \<open>\<open>queuebuf_new_from_packetbuf\<close> does not touch the queues.\<close>

lemma queuebuf_new_frame:
  fixes s s' :: "'a tsch_queue_state_scheme"
  assumes "queuebuf_new_from_packetbuf s = Some (r, s')"
  shows "q_nbrs s' = q_nbrs s" "q_packets s' = q_packets s" "q_packet_memb s' = q_packet_memb s"
    "tsch_locked s' = tsch_locked s"
  using assms
  by (auto simp: queuebuf_new_from_packetbuf_def queuebuf_copy_data_def packetbuf_attr_copyto_def
      split: prod.splits option.splits bind_splits)

lemma upd_packets_wf:
  "qb_wf (s\<lparr>q_packet_memb := m\<rparr>) = qb_wf s" "packetbuf_wf (s\<lparr>q_packet_memb := m\<rparr>) = packetbuf_wf s"
  "nbr_state.truncate (s\<lparr>q_packet_memb := m\<rparr>) = nbr_state.truncate s"
  by (simp_all add: qb_wf_def packetbuf_wf_def packetbuf_used_def nbr_state.truncate_def)

text \<open>
  adding a packet for a neighbour that has a queue.  When TSCH is not locked,
  \<open>tsch_queue_add_packet\<close> succeeds exactly when the neighbour's queue holds fewer than 31
  packets, a packet structure is free and a queue buffer is free.  It then returns a packet
  structure that was not in use, appends it to the queue of that neighbour and to no other, and
  records the transmission limit, the callback and the saved packet buffer; otherwise it returns
  NULL and leaves all queues and the allocated packet structures as they were.
\<close>

theorem tsch_queue_add_packet_spec:
  fixes s :: "'a tsch_queue_state_scheme"
  assumes unl: "\<not> tsch_locked s" and nb: "tsch_queue_get_nbr addr s = Some n"
    and n: "n < length (q_nbrs s)" and ok: "nbr_ring_ok (q_nbrs s ! n)"
    and qb: "qb_wf s" and pb: "packetbuf_wf s" and pl: "length (q_packets s) = length (q_packet_memb s)"
  shows "if length (nbr_queue n s) < 31 \<and> 0 < memb_numfree (q_packet_memb s) \<and> 0 < queuebuf_numfree s
    then \<exists>p b s'. tsch_queue_add_packet env addr maxtx sent ptr s = Some (Some p, s') \<and>
      p \<notin> memb_blocks (q_packet_memb s) \<and>
      memb_blocks (q_packet_memb s') = insert p (memb_blocks (q_packet_memb s)) \<and>
      nbr_queue n s' = nbr_queue n s @ [Some p] \<and> nbr_ring_ok (q_nbrs s' ! n) \<and>
      (\<forall>m. m \<noteq> n \<longrightarrow> q_nbrs s' ! m = q_nbrs s ! m) \<and>
      q_packets s' ! p = \<lparr>pkt_qb = Some b, pkt_sent = sent, pkt_ptr = ptr, pkt_transmissions = 0,
        pkt_max_transmissions = maxtx, pkt_ret = MAC_TX_DEFERRED,
        pkt_header_len = pkt_header_len (q_packets s ! p), pkt_tsch_sync_ie_offset = pkt_tsch_sync_ie_offset (q_packets s ! p)\<rparr> \<and>
      b \<notin> memb_blocks (qb_bufmem s) \<and> qb_wf s'
    else \<exists>s'. tsch_queue_add_packet env addr maxtx sent ptr s = Some (None, s') \<and>
      q_nbrs s' = q_nbrs s \<and> memb_blocks (q_packet_memb s') = memb_blocks (q_packet_memb s) \<and> qb_wf s'"
proof -
  have a: "tsch_queue_add_nbr env addr s = (Some n, s)" using nb by (simp add: tsch_queue_add_nbr_def)
  have lq: "length (nbr_queue n s) = length (nbr_packets (q_nbrs s ! n))" by (simp add: nbr_queue_def)
  let ?pi = "ringbufindex_peek_put (tx_ringbuf (q_nbrs s ! n))"
  show ?thesis
  proof (cases "length (nbr_queue n s) < 31")
    case False
    then have "?pi = -1"
      using nbr_full [OF ok] lq by (simp add: TSCH_QUEUE_NUM_PER_NEIGHBOR_def)
    then have "tsch_queue_add_packet env addr maxtx sent ptr s = Some (None, s)"
      using unl a by (simp add: tsch_queue_add_packet_def tsch_is_locked_def)
    with False qb show ?thesis by simp
  next
    case True
    then have room: "Suc (length (nbr_packets (q_nbrs s ! n))) < TSCH_QUEUE_NUM_PER_NEIGHBOR"
      by (simp add: lq TSCH_QUEUE_NUM_PER_NEIGHBOR_def)
    note e = nbr_enqueue [OF ok room refl]
    show ?thesis
    proof (cases "memb_alloc (q_packet_memb s)")
      case (Pair po m)
      show ?thesis
      proof (cases po)
        case None
        with Pair have mf: "memb_alloc (q_packet_memb s) = (None, m)" by simp
        have "tsch_queue_add_packet env addr maxtx sent ptr s = Some (None, s)"
          using unl a e(1) mf by (simp add: tsch_queue_add_packet_def tsch_is_locked_def Let_def)
        with memb.alloc_fail [OF mf] qb show ?thesis by simp
      next
        case (Some p)
        with Pair have ma: "memb_alloc (q_packet_memb s) = (Some p, m)" by simp
        note fr = memb.alloc_fresh [OF ma]
        have free: "0 < memb_numfree (q_packet_memb s)" using memb.alloc_numfree [OF ma] by simp
        let ?s1 = "s\<lparr>q_packet_memb := m\<rparr>"
        have w1: "qb_wf ?s1" "packetbuf_wf ?s1" using qb pb by (simp_all add: upd_packets_wf)
        have add: "tsch_queue_add_packet env addr maxtx sent ptr s =
            do { (qb, s2) \<leftarrow> queuebuf_new_from_packetbuf ?s1;
                 Some (case qb of
                     Some b \<Rightarrow> (Some p, tsch_queue_enqueue n p ?pi b maxtx sent ptr s2)
                   | None \<Rightarrow> (None, s2\<lparr>q_packet_memb := snd (memb_free (q_packet_memb s2) p),
                       q_packets := (q_packets s2)[p := (q_packets s2 ! p)\<lparr>pkt_qb := None\<rparr>]\<rparr>)) }"
          using unl a e(1) ma by (simp add: tsch_queue_add_packet_def tsch_is_locked_def Let_def)
        from queuebuf_new_spec [OF w1] show ?thesis
        proof (elim disjE)
          assume no: "memb_numfree (qb_bufmem ?s1) = 0 \<and> queuebuf_new_from_packetbuf ?s1 = Some (None, ?s1)"
          have "memb_blocks (snd (memb_free m p)) = memb_blocks (q_packet_memb s)"
            using memb.alloc_free [OF ma] by simp
          moreover have "qb_wf (?s1\<lparr>q_packet_memb := snd (memb_free m p),
              q_packets := (q_packets s)[p := (q_packets s ! p)\<lparr>pkt_qb := None\<rparr>]\<rparr>)"
            using qb by (simp add: qb_wf_def)
          ultimately show ?thesis using no add by (simp add: queuebuf_numfree_def)
        next
          assume "\<exists>b s' r. queuebuf_new_from_packetbuf ?s1 = Some (Some b, s') \<and> qb_wf s' \<and>
            nbr_state.truncate s' = nbr_state.truncate ?s1 \<and>
            b \<notin> memb_blocks (qb_bufmem ?s1) \<and> memb_blocks (qb_bufmem s') = insert b (memb_blocks (qb_bufmem ?s1)) \<and>
            memb_numfree (qb_bufmem ?s1) = Suc (memb_numfree (qb_bufmem s')) \<and>
            qb_ram_ptr s' ! b = Some r \<and>
            unat (qd_len (qb_ram s' ! r)) = length (packetbuf_packet ?s1) \<and>
            take (length (packetbuf_packet ?s1)) (qd_data (qb_ram s' ! r)) = packetbuf_packet ?s1 \<and>
            qd_attrs (qb_ram s' ! r) = pb_attrs ?s1 \<and> qd_addrs (qb_ram s' ! r) = pb_addrs ?s1 \<and>
            (\<forall>b' \<in> memb_blocks (qb_bufmem ?s1). qb_ram_ptr s' ! b' = qb_ram_ptr ?s1 ! b' \<and>
               qb_ram s' ! the (qb_ram_ptr ?s1 ! b') = qb_ram ?s1 ! the (qb_ram_ptr ?s1 ! b'))"
          then obtain b s2 where b: "queuebuf_new_from_packetbuf ?s1 = Some (Some b, s2)" "qb_wf s2"
            "b \<notin> memb_blocks (qb_bufmem s)" "0 < memb_numfree (qb_bufmem s)"
            by auto
          note f = queuebuf_new_frame [OF b(1)]
          let ?t = "tsch_queue_enqueue n p ?pi b maxtx sent ptr s2"
          have t: "tsch_queue_add_packet env addr maxtx sent ptr s = Some (Some p, ?t)"
            using add b(1) by simp
          have nb': "q_nbrs ?t ! k = (if k = n then (q_nbrs s ! n)\<lparr>tx_array := (tx_array (q_nbrs s ! n))[nat ?pi := Some p],
              tx_ringbuf := snd (ringbufindex_put (tx_ringbuf (q_nbrs s ! n)))\<rparr> else q_nbrs s ! k)" for k
            using n f by (simp add: tsch_queue_enqueue_def upd_nbr_def nth_list_update)
          have w: "qb_wf ?t" using b(2) by (simp add: qb_wf_def tsch_queue_enqueue_def upd_nbr_def)
          have pk: "q_packets ?t ! p = \<lparr>pkt_qb = Some b, pkt_sent = sent, pkt_ptr = ptr,
              pkt_transmissions = 0, pkt_max_transmissions = maxtx, pkt_ret = MAC_TX_DEFERRED,
        pkt_header_len = pkt_header_len (q_packets s ! p), pkt_tsch_sync_ie_offset = pkt_tsch_sync_ie_offset (q_packets s ! p)\<rparr>"
            using f fr pl by (simp add: tsch_queue_enqueue_def)
          have mb: "memb_blocks (q_packet_memb ?t) = insert p (memb_blocks (q_packet_memb s))"
            using f fr by (simp add: tsch_queue_enqueue_def)
          have q: "nbr_queue n ?t = nbr_queue n s @ [Some p]" "nbr_ring_ok (q_nbrs ?t ! n)"
            using e(2,3) by (simp_all add: nbr_queue_def nb')
          have oth: "\<forall>k. k \<noteq> n \<longrightarrow> q_nbrs ?t ! k = q_nbrs s ! k" by (simp add: nb')
          have c: "length (nbr_queue n s) < 31 \<and> 0 < memb_numfree (q_packet_memb s) \<and> 0 < queuebuf_numfree s"
            using True free b(4) by (simp add: queuebuf_numfree_def)
          show ?thesis
            unfolding if_P [OF c]
            by (rule exI [of _ p], rule exI [of _ b], rule exI [of _ ?t]) (use t fr mb q oth pk b(3) w in blast)
        qed
      qed
    qed
  qed
qed

definition tsch_example :: tsch_queue_state where
  "tsch_example =
     \<lparr>pb_mem = [7, 8, 9] @ replicate 125 0, pb_buflen = 2, pb_bufptr = 0, pb_hdrlen = 1,
      pb_attrs = (\<lambda>_. 5), pb_addrs = (\<lambda>_. 6),
      nt_mem = [True, False], nt_lladdr = [7, 0], nt_keys = [0], nt_used_map = [1, 0],
      nt_locked_map = [1, 0], nt_all_tables = Some 0 # replicate 7 None, nt_num_tables = 1,
      nt_index = (\<lambda>_. 0), nt_callback = (\<lambda>_. False),
      qb_bufmem = [False], qb_buframmem = [False], qb_ram_ptr = [None],
      qb_ram = [\<lparr>qd_data = replicate 128 0, qd_len = 0, qd_attrs = (\<lambda>_. 0), qd_addrs = (\<lambda>_. 0)\<rparr>],
      q_packet_memb = [True, False],
      q_packets = replicate 2 \<lparr>pkt_qb = None, pkt_sent = None, pkt_ptr = 0, pkt_transmissions = 0,
        pkt_max_transmissions = 3, pkt_ret = 0, pkt_header_len = 0, pkt_tsch_sync_ie_offset = 0\<rparr>,
      q_nbrs = [nbr_memset0\<lparr>tx_array := Some 0 # replicate 31 None,
                  tx_ringbuf := \<lparr>rb_mask = 31, rb_put_ptr = 1, rb_get_ptr = 0\<rparr>\<rparr>, nbr_memset0],
      q_n_broadcast = None, q_n_eb = None, tsch_locked = False, tsch_is_coordinator = False,
      rand_src = (\<lambda>_. 0x1234), rand_pos = 0\<rparr>"

definition queue_env_default :: "('a tsch_queue_state_scheme) queue_env" where
  "queue_env_default =
     \<lparr>qe_nbr = nbr_env_default, qe_sent = (\<lambda>_ _ _ _ s. s), qe_set_ka_timeout = (\<lambda>_ s. s)\<rparr>"

lemma tsch_example_facts:
  "nbr_ring_ok (q_nbrs tsch_example ! 0)" "nbr_queue 0 tsch_example = [Some 0]"
  "tsch_queue_get_nbr 7 tsch_example = Some 0" "\<not> tsch_locked tsch_example"
  "qb_wf tsch_example" "packetbuf_wf tsch_example" "length (q_nbrs tsch_example) = 2"
proof -
  have m: "(31 :: u8) = mask 5" by (simp add: mask_eq_exp_minus_1)
  show "nbr_ring_ok (q_nbrs tsch_example ! 0)"
    unfolding nbr_ring_ok_def
    by (auto simp: tsch_example_def rb_wf_def rb_size_def TSCH_QUEUE_NUM_PER_NEIGHBOR_def m
        intro: exI [of _ 5])
      (simp_all add: mask_eq_exp_minus_1)
  show "nbr_queue 0 tsch_example = [Some 0]"
    by (simp add: nbr_queue_def nbr_packets_def tsch_example_def rb_indices_def rb_count_def rb_size_def)
  show "tsch_queue_get_nbr 7 tsch_example = Some 0"
    by (simp add: tsch_queue_get_nbr_def tsch_example_def tsch_is_locked_def tsch_neighbors_def
        nbr_table_get_from_lladdr_def index_from_lladdr_def nbr_get_bit_def)
  show "\<not> tsch_locked tsch_example" "length (q_nbrs tsch_example) = 2"
    by (simp_all add: tsch_example_def)
  show "qb_wf tsch_example"
    by (auto simp: qb_wf_def tsch_example_def memb_blocks_def PACKETBUF_SIZE_def inj_on_def)
  show "packetbuf_wf tsch_example"
    by (simp add: packetbuf_wf_def packetbuf_used_def tsch_example_def PACKETBUF_SIZE_def)
qed

theorem tsch_queue_add_packet_spec_witness:
  "\<exists>p s'. tsch_queue_add_packet queue_env_default 7 3 (Some 1) 2 tsch_example = Some (Some p, s') \<and>
     nbr_queue 0 s' = [Some 0, Some p]"
proof -
  have l: "length (q_packets tsch_example) = length (q_packet_memb tsch_example)"
    "0 < memb_numfree (q_packet_memb tsch_example)" "0 < queuebuf_numfree tsch_example"
    by (simp_all add: tsch_example_def queuebuf_numfree_def)
  have n: "0 < length (q_nbrs tsch_example)" by (simp add: tsch_example_facts)
  note f = tsch_example_facts
  from tsch_queue_add_packet_spec [OF f(4,3) n f(1,5,6) l(1), of queue_env_default 3 "Some 1" 2] l(2,3) f(2)
  show ?thesis by auto
qed

subsection \<open>Flushing a queue\<close>

text \<open>A callback that leaves the queues and everything below them alone.\<close>

definition sent_frame :: "('a tsch_queue_state_scheme) queue_env \<Rightarrow> bool" where
  "sent_frame env \<longleftrightarrow>
     (\<forall>f p r t s. tsch_queue_state.truncate (qe_sent env f p r t s) = tsch_queue_state.truncate s)"

lemma sent_frame_fields:
  assumes "sent_frame env"
  shows "q_nbrs (call_sent_callback env p s) = q_nbrs s"
    "q_packets (call_sent_callback env p s) = q_packets s"
    "q_packet_memb (call_sent_callback env p s) = q_packet_memb s"
    "tsch_locked (call_sent_callback env p s) = tsch_locked s"
proof -
  have "tsch_queue_state.truncate (call_sent_callback env p s) = tsch_queue_state.truncate s"
    using assms by (simp add: sent_frame_def call_sent_callback_def Let_def split: option.split)
  then show "q_nbrs (call_sent_callback env p s) = q_nbrs s"
    "q_packets (call_sent_callback env p s) = q_packets s"
    "q_packet_memb (call_sent_callback env p s) = q_packet_memb s"
    "tsch_locked (call_sent_callback env p s) = tsch_locked s"
    by (simp_all add: tsch_queue_state.truncate_def)
qed

lemma memb_free_blocks: "memb_blocks (snd (memb_free m p)) = memb_blocks m - {p}"
  by (auto simp: memb_free_def memb_blocks_def nth_list_update split: if_splits)

lemma flush_packet_fields:
  assumes "sent_frame env"
  shows "q_nbrs (tsch_queue_flush_packet env p s) = q_nbrs s"
    "tsch_locked (tsch_queue_flush_packet env p s) = tsch_locked s"
    "memb_blocks (q_packet_memb (tsch_queue_flush_packet env p s)) = memb_blocks (q_packet_memb s) - {p}"
  using sent_frame_fields [OF assms]
  by (auto simp: tsch_queue_flush_packet_def tsch_queue_free_packet_def Let_def queuebuf_free_def
      memb_free_blocks split: option.splits)

text \<open>
  flushing a neighbour's queue ends, for callbacks that leave the queues alone.  It empties the
  queue of that neighbour, frees exactly its packet structures and leaves the other neighbours
  alone.  (With the lock taken the same loop would never end; see
  \<open>tsch_queue_flush_locked\<close>.)
\<close>

theorem tsch_queue_flush_empties:
  fixes s :: "'a tsch_queue_state_scheme"
  assumes fr: "sent_frame env" and unl: "\<not> tsch_locked s" and n: "n < length (q_nbrs s)"
    and ok: "nbr_ring_ok (q_nbrs s ! n)" and some: "None \<notin> set (nbr_queue n s)"
  shows "\<exists>s'. tsch_queue_flush_nbr_queue env n s = Some s' \<and> nbr_queue n s' = [] \<and>
    nbr_ring_ok (q_nbrs s' ! n) \<and> (\<forall>m. m \<noteq> n \<longrightarrow> q_nbrs s' ! m = q_nbrs s ! m) \<and>
    memb_blocks (q_packet_memb s') = memb_blocks (q_packet_memb s) - the ` set (nbr_queue n s)"
  using unl n ok some
proof (induction "nbr_queue n s" arbitrary: s)
  case Nil
  from Nil(1) [symmetric] show ?case
    using Nil.prems is_empty_iff [of s n]
    by (subst tsch_queue_flush_nbr_queue.simps) simp
next
  case (Cons x xs)
  note q = Cons.hyps(2) [symmetric]
  obtain p where p: "x = Some p" using Cons.prems(4) q by (cases x) auto
  let ?s1 = "upd_nbr n (\<lambda>b. b\<lparr>tx_ringbuf := snd (ringbufindex_get (tx_ringbuf b))\<rparr>) s"
  let ?s2 = "tsch_queue_flush_packet env p ?s1"
  note d = nbr_dequeue(5,6) [OF Cons.prems(3) q [unfolded nbr_queue_def] refl]
  note f = flush_packet_fields [OF fr, of p ?s1]
  have nb: "q_nbrs ?s2 ! m = (if m = n then (q_nbrs s ! n)
      \<lparr>tx_ringbuf := snd (ringbufindex_get (tx_ringbuf (q_nbrs s ! n)))\<rparr> else q_nbrs s ! m)" for m
    using Cons.prems(2) by (simp add: f nth_upd_nbr)
  have q2: "xs = nbr_queue n ?s2" using d(1) by (simp add: nbr_queue_def nb)
  have step: "tsch_queue_flush_nbr_queue env n s = tsch_queue_flush_nbr_queue env n ?s2"
    using Cons.prems(1,3) q p is_empty_iff [of s n] remove_packet_cons [of s n x xs]
    by (subst tsch_queue_flush_nbr_queue.simps) simp
  have "\<exists>s'. tsch_queue_flush_nbr_queue env n ?s2 = Some s' \<and> nbr_queue n s' = [] \<and>
    nbr_ring_ok (q_nbrs s' ! n) \<and> (\<forall>m. m \<noteq> n \<longrightarrow> q_nbrs s' ! m = q_nbrs ?s2 ! m) \<and>
    memb_blocks (q_packet_memb s') = memb_blocks (q_packet_memb ?s2) - the ` set (nbr_queue n ?s2)"
    by (rule Cons.hyps(1) [OF q2]) (use Cons.prems d q2 q nb f in auto)
  then show ?case
    unfolding step using q q2 nb f p by auto
qed

theorem tsch_queue_flush_empties_witness:
  "\<exists>s'. tsch_queue_flush_nbr_queue queue_env_default 0 tsch_example = Some s' \<and>
     nbr_queue 0 s' = [] \<and> memb_blocks (q_packet_memb s') = {}"
proof -
  note f = tsch_example_facts
  have e: "sent_frame queue_env_default" by (simp add: sent_frame_def queue_env_default_def)
  have n: "0 < length (q_nbrs tsch_example)" "None \<notin> set (nbr_queue 0 tsch_example)"
    by (simp_all add: f)
  have b: "memb_blocks (q_packet_memb tsch_example) = {0}"
    by (auto simp: tsch_example_def memb_blocks_def less_Suc_eq)
  from tsch_queue_flush_empties [OF e f(4) n(1) f(1) n(2)] show ?thesis
    by (auto simp: f b)
qed

text \<open>With the lock taken, the loop of \<open>tsch_queue_flush_nbr_queue\<close> never ends.\<close>

lemma tsch_queue_flush_locked:
  assumes "tsch_locked s"
  shows "tsch_queue_flush_nbr_queue env n s = None"
proof -
  have "tsch_locked s \<longrightarrow> False" if "tsch_queue_flush_nbr_queue env n s = Some s'" for s'
    by (rule tsch_queue_flush_nbr_queue.raw_induct [where P = "\<lambda>env n s s'. tsch_locked s \<longrightarrow> False", OF _ that])
      (auto simp: tsch_queue_is_empty_def tsch_queue_remove_packet_from_queue_def tsch_is_locked_def)
  with assms show ?thesis by (cases "tsch_queue_flush_nbr_queue env n s") auto
qed

subsection \<open>Backoff and transmission results\<close>

lemma backoff_window_range:
  assumes "e \<le> (5 :: u8)"
  shows "unat (word_of_int (uint (drop_bit 6 (r :: u16)) mod 2 ^ unat e) :: u16) < 2 ^ unat e"
proof -
  have e: "unat e \<le> 5" using assms by (simp add: word_le_nat_alt)
  have "(2 :: int) ^ unat e \<le> 2 ^ 5" using e by (intro power_increasing) simp_all
  then have p: "(2 :: int) ^ unat e \<le> 32" by simp
  let ?x = "uint (drop_bit 6 r) mod 2 ^ unat e"
  have x: "0 \<le> ?x" "?x < 2 ^ unat e" by simp_all
  then have "?x < 65536" using p by linarith
  then have "?x mod 65536 = ?x" using x(1) by (rule mod_pos_pos_trivial [rotated])
  then have "uint (word_of_int ?x :: u16) = ?x" by (simp add: uint_word_of_int)
  with x(2) show ?thesis
    by (metis of_nat_less_iff of_nat_numeral of_nat_power uint_nat)
qed

lemma backoff_inc_spec:
  assumes n: "n < length (q_nbrs s)"
  shows "let b = q_nbrs s ! n; s' = tsch_queue_backoff_inc n s; b' = q_nbrs s' ! n
    in unat (backoff_exponent b') = min (unat (backoff_exponent b) + 1) 5 \<and>
       1 \<le> unat (backoff_window b') \<and> unat (backoff_window b') \<le> 2 ^ unat (backoff_exponent b') \<and>
       b' = b\<lparr>backoff_exponent := backoff_exponent b', backoff_window := backoff_window b'\<rparr> \<and>
       (\<forall>m. m \<noteq> n \<longrightarrow> q_nbrs s' ! m = q_nbrs s ! m) \<and> tsch_locked s' = tsch_locked s"
proof -
  let ?b = "q_nbrs s ! n" and ?r = "rand_src s (rand_pos s)"
  define e :: u8 where "e = word_of_int (min (uint (backoff_exponent ?b) + 1) (uint TSCH_MAC_MAX_BE))"
  define w :: u16 where "w = word_of_int (uint (drop_bit 6 ?r) mod 2 ^ unat e)"
  have ue: "unat e = min (unat (backoff_exponent ?b) + 1) 5"
  proof -
    let ?m = "min (uint (backoff_exponent ?b) + 1) 5"
    have "0 \<le> ?m" "?m < 256" by simp_all
    then have "?m mod 256 = ?m" by (rule mod_pos_pos_trivial)
    then have "uint e = ?m" by (simp add: e_def uint_word_of_int TSCH_MAC_MAX_BE_def)
    then have "int (unat e) = int (min (unat (backoff_exponent ?b) + 1) 5)"
      by (simp add: of_nat_min add.commute)
    then show ?thesis by (simp only: of_nat_eq_iff)
  qed
  then have e5: "e \<le> 5" by (simp add: word_le_nat_alt)
  have w: "unat w < 2 ^ unat e" unfolding w_def by (rule backoff_window_range [OF e5])
  have "(2 :: nat) ^ unat e \<le> 2 ^ 5" using ue by (intro power_increasing) simp_all
  then have wl: "unat w < 32" using w by simp
  have lt: "w < 0xffff" using wl by (simp add: word_less_nat_alt)
  have s1: "unat (w + 1) = unat w + 1" using wl by (simp add: unat_word_ariths)
  have inc: "tsch_queue_backoff_inc n s =
      upd_nbr n (\<lambda>b. b\<lparr>backoff_exponent := e, backoff_window := w + 1\<rparr>) (s\<lparr>rand_pos := Suc (rand_pos s)\<rparr>)"
    unfolding tsch_queue_backoff_inc_def random_rand_def Let_def split e_def [symmetric]
      w_def [symmetric] if_P [OF lt] ..
  have b': "q_nbrs (tsch_queue_backoff_inc n s) ! m = (if m = n
      then ?b\<lparr>backoff_exponent := e, backoff_window := w + 1\<rparr> else q_nbrs s ! m)" for m
    unfolding inc using n by (simp add: upd_nbr_def nth_list_update)
  have l: "tsch_locked (tsch_queue_backoff_inc n s) = tsch_locked s"
    unfolding inc by simp
  show ?thesis
    unfolding Let_def b' l if_P [OF refl] tsch_neighbor.simps ue [symmetric] using w s1 by simp
qed

lemma remove_packet_tl:
  assumes "\<not> tsch_locked s" and "n < length (q_nbrs s)" and "nbr_ring_ok (q_nbrs s ! n)"
  shows "nbr_queue n (snd (tsch_queue_remove_packet_from_queue (Some n) s)) = tl (nbr_queue n s)"
    and "nbr_ring_ok (q_nbrs (snd (tsch_queue_remove_packet_from_queue (Some n) s)) ! n)"
    and "length (q_nbrs (snd (tsch_queue_remove_packet_from_queue (Some n) s))) = length (q_nbrs s)"
    and "tsch_locked (snd (tsch_queue_remove_packet_from_queue (Some n) s)) = tsch_locked s"
    and "\<exists>r. q_nbrs (snd (tsch_queue_remove_packet_from_queue (Some n) s)) ! n = (q_nbrs s ! n)\<lparr>tx_ringbuf := r\<rparr>"
proof -
  have "nbr_queue n (snd (tsch_queue_remove_packet_from_queue (Some n) s)) = tl (nbr_queue n s) \<and>
    nbr_ring_ok (q_nbrs (snd (tsch_queue_remove_packet_from_queue (Some n) s)) ! n) \<and>
    length (q_nbrs (snd (tsch_queue_remove_packet_from_queue (Some n) s))) = length (q_nbrs s) \<and>
    tsch_locked (snd (tsch_queue_remove_packet_from_queue (Some n) s)) = tsch_locked s \<and>
    (\<exists>r. q_nbrs (snd (tsch_queue_remove_packet_from_queue (Some n) s)) ! n = (q_nbrs s ! n)\<lparr>tx_ringbuf := r\<rparr>)"
  proof (cases "nbr_queue n s")
    case Nil
    with remove_packet_nil [OF assms(3) Nil] assms(3) show ?thesis
      by (simp add: exI [of _ "tx_ringbuf (q_nbrs s ! n)"])
  next
    case (Cons x xs)
    note d = nbr_dequeue(5,6) [OF assms(3) Cons [unfolded nbr_queue_def] refl]
    show ?thesis
      unfolding remove_packet_cons [OF assms(1,3) Cons]
      using assms(2) d Cons by (auto simp: nbr_queue_def nth_upd_nbr)
  qed
  then show "nbr_queue n (snd (tsch_queue_remove_packet_from_queue (Some n) s)) = tl (nbr_queue n s)"
    "nbr_ring_ok (q_nbrs (snd (tsch_queue_remove_packet_from_queue (Some n) s)) ! n)"
    "length (q_nbrs (snd (tsch_queue_remove_packet_from_queue (Some n) s))) = length (q_nbrs s)"
    "tsch_locked (snd (tsch_queue_remove_packet_from_queue (Some n) s)) = tsch_locked s"
    "\<exists>r. q_nbrs (snd (tsch_queue_remove_packet_from_queue (Some n) s)) ! n = (q_nbrs s ! n)\<lparr>tx_ringbuf := r\<rparr>"
    by blast+
qed

lemma nbr_packets_backoff [simp]:
  "nbr_packets (b\<lparr>backoff_exponent := e, backoff_window := w\<rparr>) = nbr_packets b"
  "nbr_packets (tsch_queue_backoff_reset b) = nbr_packets b"
  by (simp_all add: nbr_packets_def tsch_queue_backoff_reset_def)

lemma tsch_queue_packet_sent_parts:
  fixes s :: "'a tsch_queue_state_scheme" and p :: nat and link :: tsch_link and st :: u8
  assumes unl: "\<not> tsch_locked s" and n: "n < length (q_nbrs s)" and ok: "nbr_ring_ok (q_nbrs s ! n)"
  defines "r \<equiv> tsch_queue_packet_sent n p link st s"
  defines "b \<equiv> q_nbrs s ! n" and "b' \<equiv> q_nbrs (snd r) ! n"
  defines "gone \<equiv> st = MAC_TX_OK \<or> pkt_max_transmissions (q_packets s ! p) \<le> pkt_transmissions (q_packets s ! p)"
    and "shared \<equiv> link_options link AND LINK_OPTION_SHARED \<noteq> 0"
  shows "nbr_queue n (snd r) = (if gone then tl (nbr_queue n s) else nbr_queue n s)"
    and "fst r = (if gone then 0 else 1)"
    and "if \<not> is_broadcast b \<and> st = MAC_TX_OK \<and> (shared \<or> tl (nbr_queue n s) = [])
         then backoff_window b' = 0 \<and> backoff_exponent b' = TSCH_MAC_MIN_BE
         else if \<not> is_broadcast b \<and> st \<noteq> MAC_TX_OK \<and> shared
         then unat (backoff_exponent b') = min (unat (backoff_exponent b) + 1) 5 \<and>
              1 \<le> unat (backoff_window b') \<and> unat (backoff_window b') \<le> 2 ^ unat (backoff_exponent b')
         else backoff_window b' = backoff_window b \<and> backoff_exponent b' = backoff_exponent b"
proof -
  define s1 where "s1 = (if gone then snd (tsch_queue_remove_packet_from_queue (Some n) s) else s)"
  note rp = remove_packet_tl [OF unl n ok]
  have q1: "nbr_queue n s1 = (if gone then tl (nbr_queue n s) else nbr_queue n s)" using rp by (simp add: s1_def)
  have ok1: "nbr_ring_ok (q_nbrs s1 ! n)" "n < length (q_nbrs s1)" "\<not> tsch_locked s1"
    using rp ok n unl by (simp_all add: s1_def)
  obtain ring where b1: "q_nbrs s1 ! n = b\<lparr>tx_ringbuf := ring\<rparr>"
  proof (cases gone)
    case True
    with rp(5) that show ?thesis by (auto simp: b_def s1_def)
  next
    case False
    then show ?thesis using that [of "tx_ringbuf b"] by (simp add: b_def s1_def)
  qed
  have e1: "tsch_queue_is_empty (Some n) s1 \<longleftrightarrow> nbr_queue n s1 = []"
    by (rule is_empty_iff [OF ok1(3,1)])
  show "fst r = (if gone then 0 else 1)"
    by (simp add: r_def tsch_queue_packet_sent_def gone_def Let_def)
  have sr: "snd r = (if st = MAC_TX_OK
      then if \<not> is_broadcast b \<and> (shared \<or> tsch_queue_is_empty (Some n) s1)
           then upd_nbr n tsch_queue_backoff_reset s1 else s1
      else if \<not> is_broadcast b \<and> shared then tsch_queue_backoff_inc n s1 else s1)"
    by (simp add: r_def tsch_queue_packet_sent_def gone_def shared_def b_def s1_def Let_def)
  note inc = backoff_inc_spec [OF ok1(2), unfolded Let_def]
  have qi: "nbr_queue n (tsch_queue_backoff_inc n s1) = nbr_queue n s1"
    unfolding nbr_queue_def using inc by (metis nbr_packets_backoff(1))
  have qr: "nbr_queue n (upd_nbr n tsch_queue_backoff_reset s1) = nbr_queue n s1"
    using ok1(2) by (simp add: nbr_queue_def nth_upd_nbr)
  show "nbr_queue n (snd r) = (if gone then tl (nbr_queue n s) else nbr_queue n s)"
    unfolding q1 [symmetric] sr using qi qr by simp
  have gt: "st = MAC_TX_OK \<Longrightarrow> gone" by (simp add: gone_def)
  show "if \<not> is_broadcast b \<and> st = MAC_TX_OK \<and> (shared \<or> tl (nbr_queue n s) = [])
         then backoff_window b' = 0 \<and> backoff_exponent b' = TSCH_MAC_MIN_BE
         else if \<not> is_broadcast b \<and> st \<noteq> MAC_TX_OK \<and> shared
         then unat (backoff_exponent b') = min (unat (backoff_exponent b) + 1) 5 \<and>
              1 \<le> unat (backoff_window b') \<and> unat (backoff_window b') \<le> 2 ^ unat (backoff_exponent b')
         else backoff_window b' = backoff_window b \<and> backoff_exponent b' = backoff_exponent b"
  proof (cases "st = MAC_TX_OK")
    case True
    then show ?thesis
      using gt q1 e1 ok1(2) b1 unfolding b'_def sr
      by (auto simp: nth_upd_nbr tsch_queue_backoff_reset_def)
  next
    case False
    define c where "c = q_nbrs (tsch_queue_backoff_inc n s1) ! n"
    have be: "backoff_exponent (q_nbrs s1 ! n) = backoff_exponent b" using b1 by simp
    have c: "unat (backoff_exponent c) = min (unat (backoff_exponent b) + 1) 5"
      "1 \<le> unat (backoff_window c)" "unat (backoff_window c) \<le> 2 ^ unat (backoff_exponent c)"
      using inc unfolding c_def be by blast+
    have "b' = (if \<not> is_broadcast b \<and> shared then c else b\<lparr>tx_ringbuf := ring\<rparr>)"
      using False b1 by (simp add: b'_def sr c_def)
    with False c show ?thesis by simp
  qed
qed

text \<open>
  what a transmission result does to a neighbour's queue and backoff.  The first packet leaves
  the queue exactly when it was sent or its transmissions are used up, and the return value says
  whether it is still queued.  For a unicast neighbour the backoff is reset after a success on
  a shared link or one that emptied the queue; after a failure on a shared link the exponent
  grows by one up to 5 and the new window lies between 1 and 2 to the exponent; in all other cases
  exponent and window stay as they were.
\<close>

theorem tsch_queue_packet_sent_spec:
  fixes s :: "'a tsch_queue_state_scheme"
  assumes "\<not> tsch_locked s" and "n < length (q_nbrs s)" and "nbr_ring_ok (q_nbrs s ! n)"
  shows "let r = tsch_queue_packet_sent n p link st s;
             b = q_nbrs s ! n; b' = q_nbrs (snd r) ! n;
             gone = (st = MAC_TX_OK \<or> pkt_max_transmissions (q_packets s ! p) \<le> pkt_transmissions (q_packets s ! p));
             shared = (link_options link AND LINK_OPTION_SHARED \<noteq> 0)
    in fst r = (if gone then 0 else 1) \<and>
       nbr_queue n (snd r) = (if gone then tl (nbr_queue n s) else nbr_queue n s) \<and>
       (if \<not> is_broadcast b \<and> st = MAC_TX_OK \<and> (shared \<or> tl (nbr_queue n s) = [])
        then backoff_window b' = 0 \<and> backoff_exponent b' = TSCH_MAC_MIN_BE
        else if \<not> is_broadcast b \<and> st \<noteq> MAC_TX_OK \<and> shared
        then unat (backoff_exponent b') = min (unat (backoff_exponent b) + 1) 5 \<and>
             1 \<le> unat (backoff_window b') \<and> unat (backoff_window b') \<le> 2 ^ unat (backoff_exponent b')
        else backoff_window b' = backoff_window b \<and> backoff_exponent b' = backoff_exponent b)"
  unfolding Let_def using tsch_queue_packet_sent_parts [OF assms, where p = p and link = link and st = st] by blast

theorem tsch_queue_packet_sent_spec_witness:
  "nbr_queue 0 (snd (tsch_queue_packet_sent 0 0 \<lparr>link_handle = 0, link_addr = 7,
     link_slotframe_handle = 0, link_timeslot = 1, link_channel_offset = 0, link_options = 5,
     link_link_type = LINK_TYPE_NORMAL, link_data = None\<rparr> MAC_TX_NOACK tsch_example)) = [Some 0]"
proof -
  note f = tsch_example_facts
  have n: "0 < length (q_nbrs tsch_example)" by (simp add: f)
  have k: "pkt_transmissions (q_packets tsch_example ! 0) < pkt_max_transmissions (q_packets tsch_example ! 0)"
    by (simp add: tsch_example_def)
  from tsch_queue_packet_sent_spec [OF f(4) n f(1), where p = 0 and st = MAC_TX_NOACK and
     link = "\<lparr>link_handle = 0, link_addr = 7,
       link_slotframe_handle = 0, link_timeslot = 1, link_channel_offset = 0, link_options = 5,
       link_link_type = LINK_TYPE_NORMAL, link_data = None\<rparr>"] k
  show ?thesis by (simp add: Let_def f MAC_TX_OK_def MAC_TX_NOACK_def not_le)
qed

end
