(* ===== verification/Tsch_Asn.thy ===== *)
theory Tsch_Asn
  imports Prelude
begin

section \<open>Absolute slot numbers\<close>

text \<open>
  Model of the macros of \<open>os/net/mac/tsch/tsch-asn.h\<close>: the 40-bit absolute slot number (ASN)
  of a TSCH network, kept as 32 low and 8 high bits, its increment, decrement and difference,
  and the remainder by a slotframe size, which the code computes in 32-bit arithmetic with a
  precomputed remainder of \<open>2 ^ 32\<close>.  \<open>asn_value\<close> is the number an ASN stands for.
\<close>

record tsch_asn =
  ls4b :: u32
  ms1b :: u8

record tsch_asn_divisor =
  div_val :: u16
  asn_ms1b_remainder :: u16

definition TSCH_ASN_INIT :: "u8 \<Rightarrow> u32 \<Rightarrow> tsch_asn" where
  "TSCH_ASN_INIT m l = \<lparr>ls4b = l, ms1b = m\<rparr>"

definition TSCH_ASN_INC :: "tsch_asn \<Rightarrow> u32 \<Rightarrow> tsch_asn" where
  "TSCH_ASN_INC a inc =
     (let new_ls4b = ls4b a + inc
      in \<lparr>ls4b = new_ls4b, ms1b = (if new_ls4b < ls4b a then ms1b a + 1 else ms1b a)\<rparr>)"

definition TSCH_ASN_DEC :: "tsch_asn \<Rightarrow> u32 \<Rightarrow> tsch_asn" where
  "TSCH_ASN_DEC a dec =
     (let new_ls4b = ls4b a - dec
      in \<lparr>ls4b = new_ls4b, ms1b = (if ls4b a < new_ls4b then ms1b a - 1 else ms1b a)\<rparr>)"

definition TSCH_ASN_DIFF :: "tsch_asn \<Rightarrow> tsch_asn \<Rightarrow> u32" where
  "TSCH_ASN_DIFF a b = ls4b a - ls4b b"

definition TSCH_ASN_DIVISOR_INIT :: "u16 \<Rightarrow> tsch_asn_divisor" where
  "TSCH_ASN_DIVISOR_INIT v =
     \<lparr>div_val = v,
      asn_ms1b_remainder = ucast (((0xffffffff :: u32) mod ucast v + 1) mod ucast v)\<rparr>"

definition TSCH_ASN_MOD :: "tsch_asn \<Rightarrow> tsch_asn_divisor \<Rightarrow> int" where
  "TSCH_ASN_MOD a d =
     (uint (ucast (ls4b a mod ucast (div_val d)) :: u16) +
      uint (word_of_int ((uint (ms1b a) * uint (asn_ms1b_remainder d)) mod uint (div_val d)) :: u16))
     mod uint (div_val d)"

definition asn_value :: "tsch_asn \<Rightarrow> int" where
  "asn_value a = uint (ms1b a) * 2 ^ 32 + uint (ls4b a)"

lemma asn_value_bounds: "0 \<le> asn_value a" "asn_value a < 2 ^ 40"
proof -
  have "uint (ls4b a) < 2 ^ 32" "uint (ms1b a) < 2 ^ 8"
    using uint_bounded [of "ls4b a"] uint_bounded [of "ms1b a"] by simp_all
  then show "asn_value a < 2 ^ 40" by (simp add: asn_value_def)
  show "0 \<le> asn_value a" by (simp add: asn_value_def)
qed

lemma asn_value_inc: "asn_value (TSCH_ASN_INC a inc) = (asn_value a + uint inc) mod 2 ^ 40"
proof -
  have b: "uint (ls4b a) < 2 ^ 32" "uint inc < 2 ^ 32" "uint (ms1b a) < 2 ^ 8"
    using uint_bounded [of "ls4b a"] uint_bounded [of inc] uint_bounded [of "ms1b a"] by simp_all
  have w: "uint (ls4b a + inc) = (if uint (ls4b a) + uint inc < 2 ^ 32
      then uint (ls4b a) + uint inc else uint (ls4b a) + uint inc - 2 ^ 32)"
    by (simp add: uint_plus_if_size word_size)
  have o: "uint (ms1b a + 1) = (if uint (ms1b a) = 255 then 0 else uint (ms1b a) + 1)"
    using b(3) by (simp add: uint_plus_if_size word_size)
  show ?thesis
  proof (cases "uint (ls4b a) + uint inc < 2 ^ 32")
    case True
    then have "\<not> ls4b a + inc < ls4b a" using w by (simp add: word_less_def)
    then show ?thesis
      using True w b by (simp add: asn_value_def TSCH_ASN_INC_def mod_pos_pos_trivial)
  next
    case False
    then have lt: "ls4b a + inc < ls4b a" using w b by (simp add: word_less_def)
    show ?thesis
    proof (cases "uint (ms1b a) = 255")
      case True
      have "(uint (ms1b a) * 2 ^ 32 + uint (ls4b a) + uint inc) mod 2 ^ 40 =
          (uint (ls4b a) + uint inc - 2 ^ 32 + 2 ^ 40) mod 2 ^ 40" using True by (simp add: add.assoc)
      also have "\<dots> = uint (ls4b a) + uint inc - 2 ^ 32"
        using False b by (simp only: mod_add_self2) (simp add: mod_pos_pos_trivial)
      finally show ?thesis
        using lt w o False True by (simp add: asn_value_def TSCH_ASN_INC_def)
    next
      case False': False
      with lt w o False b show ?thesis
        by (simp add: asn_value_def TSCH_ASN_INC_def mod_pos_pos_trivial algebra_simps)
    qed
  qed
qed

lemma asn_dec_inc: "TSCH_ASN_DEC (TSCH_ASN_INC a inc) inc = a"
  by (auto simp: TSCH_ASN_DEC_def TSCH_ASN_INC_def Let_def)

lemma uint_ucast_u16_u32 [simp]: "uint (ucast (v :: u16) :: u32) = uint v"
proof -
  have "uint v < 2 ^ 16" using uint_bounded [of v] by simp
  then show ?thesis by (simp add: unsigned_ucast_eq take_bit_eq_mod)
qed

lemma u16_trunc: "0 \<le> x \<Longrightarrow> x < uint (v :: u16) \<Longrightarrow> x mod 65536 = x"
  using uint_bounded [of v] by simp

lemma divisor_remainder:
  assumes "v \<noteq> 0"
  shows "uint (asn_ms1b_remainder (TSCH_ASN_DIVISOR_INIT v)) = 2 ^ 32 mod uint v"
proof -
  have v: "0 < uint v" using assms by (simp add: word_greater_zero_iff [symmetric] word_less_def)
  have vb: "uint v < 2 ^ 16" using uint_bounded [of v] by simp
  let ?m = "(0xffffffff :: int) mod uint v"
  have m: "0 \<le> ?m" "?m < uint v" using v by simp_all
  have "uint ((0xffffffff :: u32) mod ucast v + 1) = ?m + 1"
    using m vb by (simp add: uint_plus_if_size word_size uint_mod)
  then have "uint (((0xffffffff :: u32) mod ucast v + 1) mod ucast v) = (?m + 1) mod uint v"
    by (simp add: uint_mod)
  also have "\<dots> = 2 ^ 32 mod uint v" by (simp add: mod_add_left_eq)
  finally have e: "uint (((0xffffffff :: u32) mod ucast v + 1) mod ucast v) = 2 ^ 32 mod uint v" .
  have "2 ^ 32 mod uint v < uint v" "0 \<le> 2 ^ 32 mod uint v" using v by simp_all
  then show ?thesis
    using vb by (simp add: TSCH_ASN_DIVISOR_INIT_def unsigned_ucast_eq e take_bit_eq_mod)
qed

lemma asn_mod:
  assumes "v \<noteq> 0"
  shows "TSCH_ASN_MOD a (TSCH_ASN_DIVISOR_INIT v) = asn_value a mod uint v"
proof -
  have v: "0 < uint v" using assms by (simp add: word_greater_zero_iff [symmetric] word_less_def)
  have d: "div_val (TSCH_ASN_DIVISOR_INIT v) = v" by (simp add: TSCH_ASN_DIVISOR_INIT_def)
  have l: "uint (ucast (ls4b a mod ucast v) :: u16) = uint (ls4b a) mod uint v"
    using v u16_trunc [of "uint (ls4b a) mod uint v" v]
    by (simp add: unsigned_ucast_eq uint_mod take_bit_eq_mod)
  let ?h = "(uint (ms1b a) * (2 ^ 32 mod uint v)) mod uint v"
  have h: "uint (word_of_int ?h :: u16) = ?h"
    using v u16_trunc [of ?h v] by (simp add: uint_word_of_int)
  show ?thesis
    unfolding TSCH_ASN_MOD_def d divisor_remainder [OF assms] l h asn_value_def
    by (simp add: mod_add_eq mod_mult_right_eq add.commute)
qed

text \<open>
  C40: the 40-bit remainder.  For every slotframe size other than zero, \<open>TSCH_ASN_MOD\<close> with the
  divisor that \<open>TSCH_ASN_DIVISOR_INIT\<close> prepares is the ASN, as a 40-bit number, modulo the
  size, although the macro only uses 32-bit arithmetic and cuts both partial remainders to
  16 bits.
\<close>

theorem tsch_asn_mod_correct:
  assumes "v \<noteq> 0"
  shows "TSCH_ASN_MOD a (TSCH_ASN_DIVISOR_INIT v) = asn_value a mod uint v"
  using assms by (rule asn_mod)

theorem tsch_asn_mod_correct_witness:
  "TSCH_ASN_MOD \<lparr>ls4b = 0xfffffff0, ms1b = 3\<rparr> (TSCH_ASN_DIVISOR_INIT 101) = 17179869168 mod 101"
  using tsch_asn_mod_correct [of 101 "\<lparr>ls4b = 0xfffffff0, ms1b = 3\<rparr>"]
  by (simp add: asn_value_def)

text \<open>
  moving the ASN.  \<open>TSCH_ASN_INC\<close> adds its argument modulo \<open>2 ^ 40\<close>, carrying from the low
  word into the high byte exactly when the 32-bit addition wraps; \<open>TSCH_ASN_DEC\<close> undoes it for
  every ASN and every amount; and the 32-bit \<open>TSCH_ASN_DIFF\<close> of the two is the amount.
\<close>

theorem tsch_asn_inc_dec:
  "asn_value (TSCH_ASN_INC a inc) = (asn_value a + uint inc) mod 2 ^ 40 \<and>
   TSCH_ASN_DEC (TSCH_ASN_INC a inc) inc = a \<and>
   TSCH_ASN_DIFF (TSCH_ASN_INC a inc) a = inc"
  using asn_value_inc [of a inc] asn_dec_inc [of a inc]
  by (simp add: TSCH_ASN_DIFF_def TSCH_ASN_INC_def Let_def)

end
