(* ===== verification/Tsch_Schedule.thy ===== *)
theory Tsch_Schedule
  imports Tsch_Queue Tsch_Asn
begin

section \<open>The TSCH schedule\<close>

text \<open>
  Model of \<open>os/net/mac/tsch/tsch-schedule.c\<close>: slotframes, each with a list of links (cells),
  both taken from fixed pools.  Slotframe and link pointers are indices into \<open>sch_slotframes\<close>
  and \<open>sch_links\<close> (\<open>None\<close> for NULL); the lists are lists of indices in list order, which
  \<open>Linked_List\<close> justifies for the pointer structure of the code.  Every operation takes and
  releases the TSCH lock as the code does and fails when the lock is taken.  The logging
  functions are not modelled, and the comparator of links is the default one.
\<close>

record tsch_slotframe =
  sf_handle :: u16
  sf_size :: tsch_asn_divisor
  sf_links_list :: "nat list"

record tsch_sched_state = tsch_queue_state +
  sch_link_memb :: memb
  sch_links :: "tsch_link list"
  sch_slotframe_memb :: memb
  sch_slotframes :: "tsch_slotframe list"
  sch_slotframe_list :: "nat list"
  sch_current_link :: "nat option"
  sch_current_link_handle :: int

definition tsch_slotframe_zero :: tsch_slotframe where
  "tsch_slotframe_zero =
     \<lparr>sf_handle = 0, sf_size = \<lparr>div_val = 0, asn_ms1b_remainder = 0\<rparr>, sf_links_list = []\<rparr>"

definition TSCH_SCHEDULE_DEFAULT_LENGTH :: u16 where "TSCH_SCHEDULE_DEFAULT_LENGTH = 101"

text \<open>\<open>list_add\<close> and \<open>list_remove\<close> on lists of indices.\<close>

definition index_list_add :: "nat \<Rightarrow> nat list \<Rightarrow> nat list" where
  "index_list_add x xs = remove1 x xs @ [x]"

definition upd_slotframe ::
  "nat \<Rightarrow> (tsch_slotframe \<Rightarrow> tsch_slotframe) \<Rightarrow> 'a tsch_sched_state_scheme \<Rightarrow> 'a tsch_sched_state_scheme" where
  "upd_slotframe i f s = s\<lparr>sch_slotframes := (sch_slotframes s)[i := f (sch_slotframes s ! i)]\<rparr>"

subsection \<open>Lookups\<close>

definition tsch_schedule_get_slotframe_by_handle ::
  "u16 \<Rightarrow> 'a tsch_sched_state_scheme \<Rightarrow> nat option" where
  "tsch_schedule_get_slotframe_by_handle handle s =
     (if \<not> tsch_is_locked s
      then find (\<lambda>i. sf_handle (sch_slotframes s ! i) = handle) (sch_slotframe_list s) else None)"

definition tsch_schedule_get_link_by_handle ::
  "u16 \<Rightarrow> 'a tsch_sched_state_scheme \<Rightarrow> nat option" where
  "tsch_schedule_get_link_by_handle handle s =
     (if \<not> tsch_is_locked s
      then find (\<lambda>l. link_handle (sch_links s ! l) = handle)
             (concat (map (\<lambda>i. sf_links_list (sch_slotframes s ! i)) (sch_slotframe_list s)))
      else None)"

definition tsch_schedule_get_link_by_offsets ::
  "nat option \<Rightarrow> u16 \<Rightarrow> u16 \<Rightarrow> 'a tsch_sched_state_scheme \<Rightarrow> nat option" where
  "tsch_schedule_get_link_by_offsets slotframe timeslot channel_offset s =
     (if \<not> tsch_is_locked s
      then case slotframe of
             Some i \<Rightarrow> find (\<lambda>l. link_timeslot (sch_links s ! l) = timeslot \<and>
                                link_channel_offset (sch_links s ! l) = channel_offset)
                          (sf_links_list (sch_slotframes s ! i))
           | None \<Rightarrow> None
      else None)"

definition tsch_schedule_get_link_by_timeslot ::
  "nat option \<Rightarrow> u16 \<Rightarrow> 'a tsch_sched_state_scheme \<Rightarrow> nat option" where
  "tsch_schedule_get_link_by_timeslot slotframe timeslot s =
     (if \<not> tsch_is_locked s
      then case slotframe of
             Some i \<Rightarrow> find (\<lambda>l. link_timeslot (sch_links s ! l) = timeslot)
                          (sf_links_list (sch_slotframes s ! i))
           | None \<Rightarrow> None
      else None)"

definition tsch_schedule_slotframe_head :: "'a tsch_sched_state_scheme \<Rightarrow> nat option" where
  "tsch_schedule_slotframe_head s = (case sch_slotframe_list s of [] \<Rightarrow> None | i # _ \<Rightarrow> Some i)"

definition tsch_schedule_slotframe_next :: "nat option \<Rightarrow> 'a tsch_sched_state_scheme \<Rightarrow> nat option" where
  "tsch_schedule_slotframe_next sf s =
     (case sf of
        None \<Rightarrow> None
      | Some i \<Rightarrow> (case items_after i (sch_slotframe_list s) of [] \<Rightarrow> None | j # _ \<Rightarrow> Some j))"

subsection \<open>Slotframes and links\<close>

definition tsch_schedule_add_slotframe ::
  "u16 \<Rightarrow> u16 \<Rightarrow> 'a tsch_sched_state_scheme \<Rightarrow> nat option \<times> 'a tsch_sched_state_scheme" where
  "tsch_schedule_add_slotframe handle sz s =
     (if sz = 0 then (None, s)
      else if tsch_schedule_get_slotframe_by_handle handle s \<noteq> None then (None, s)
      else case tsch_get_lock s of
        (False, s1) \<Rightarrow> (None, s1)
      | (True, s1) \<Rightarrow>
          (case memb_alloc (sch_slotframe_memb s1) of
             (None, _) \<Rightarrow> (None, tsch_release_lock s1)
           | (Some i, m) \<Rightarrow>
               (Some i, tsch_release_lock (s1
                  \<lparr>sch_slotframe_memb := m,
                   sch_slotframes := (sch_slotframes s1)[i := \<lparr>sf_handle = handle,
                       sf_size = TSCH_ASN_DIVISOR_INIT sz, sf_links_list = []\<rparr>],
                   sch_slotframe_list := index_list_add i (sch_slotframe_list s1)\<rparr>))))"

text \<open>The counters of the neighbour of a removed link.\<close>

definition tsch_schedule_uncount_link ::
  "u8 \<Rightarrow> linkaddr \<Rightarrow> 'a tsch_sched_state_scheme \<Rightarrow> 'a tsch_sched_state_scheme" where
  "tsch_schedule_uncount_link options addr s =
     (if options AND LINK_OPTION_TX \<noteq> 0
      then case tsch_queue_get_nbr addr s of
             None \<Rightarrow> s
           | Some n \<Rightarrow>
               upd_nbr n (\<lambda>b. b\<lparr>tx_links_count := tx_links_count b - 1,
                 dedicated_tx_links_count :=
                   (if options AND LINK_OPTION_SHARED = 0 then dedicated_tx_links_count b - 1
                    else dedicated_tx_links_count b)\<rparr>) s
      else s)"

definition tsch_schedule_remove_link ::
  "nat option \<Rightarrow> nat option \<Rightarrow> 'a tsch_sched_state_scheme \<Rightarrow> int \<times> 'a tsch_sched_state_scheme" where
  "tsch_schedule_remove_link slotframe lo s =
     (case (slotframe, lo) of
        (Some i, Some l) \<Rightarrow>
          if link_slotframe_handle (sch_links s ! l) = sf_handle (sch_slotframes s ! i)
          then case tsch_get_lock s of
                 (False, s1) \<Rightarrow> (0, s1)
               | (True, s1) \<Rightarrow>
                   (let link = sch_links s1 ! l;
                        s2 = (if sch_current_link s1 = Some l then s1\<lparr>sch_current_link := None\<rparr> else s1);
                        s3 = upd_slotframe i (\<lambda>sf. sf\<lparr>sf_links_list := remove1 l (sf_links_list sf)\<rparr>) s2;
                        s4 = tsch_release_lock (s3\<lparr>sch_link_memb := snd (memb_free (sch_link_memb s3) l)\<rparr>)
                    in (1, tsch_schedule_uncount_link (link_options link) (link_addr link) s4))
          else (0, s)
      | _ \<Rightarrow> (0, s))"

text \<open>The counters of the neighbour of a new link, which is added if need be.\<close>

definition tsch_schedule_count_link ::
  "('a tsch_sched_state_scheme) queue_env \<Rightarrow> nat \<Rightarrow> 'a tsch_sched_state_scheme \<Rightarrow> 'a tsch_sched_state_scheme" where
  "tsch_schedule_count_link env l s =
     (let link = sch_links s ! l
      in if link_options link AND LINK_OPTION_TX \<noteq> 0
         then case tsch_queue_add_nbr env (link_addr link) s of
                (None, s1) \<Rightarrow> s1
              | (Some n, s1) \<Rightarrow>
                  upd_nbr n (\<lambda>b. b\<lparr>tx_links_count := tx_links_count b + 1,
                    dedicated_tx_links_count :=
                      (if link_options link AND LINK_OPTION_SHARED = 0 then dedicated_tx_links_count b + 1
                       else dedicated_tx_links_count b)\<rparr>) s1
         else s)"

definition tsch_schedule_install_link ::
  "nat \<Rightarrow> nat \<Rightarrow> u8 \<Rightarrow> link_type \<Rightarrow> linkaddr option \<Rightarrow> u16 \<Rightarrow> u16 \<Rightarrow>
   'a tsch_sched_state_scheme \<Rightarrow> 'a tsch_sched_state_scheme" where
  "tsch_schedule_install_link i l options ltype address timeslot channel_offset s =
     (upd_slotframe i (\<lambda>sf. sf\<lparr>sf_links_list := index_list_add l (sf_links_list sf)\<rparr>) s)
       \<lparr>sch_links := (sch_links s)[l := \<lparr>link_handle = word_of_int (sch_current_link_handle s),
          link_addr = (case address of None \<Rightarrow> 0 | Some a \<Rightarrow> a),
          link_slotframe_handle = sf_handle (sch_slotframes s ! i), link_timeslot = timeslot,
          link_channel_offset = channel_offset, link_options = options,
          link_link_type = ltype, link_data = None\<rparr>],
        sch_current_link_handle := sch_current_link_handle s + 1\<rparr>"

definition tsch_schedule_add_link ::
  "('a tsch_sched_state_scheme) queue_env \<Rightarrow> nat option \<Rightarrow> u8 \<Rightarrow> link_type \<Rightarrow> linkaddr option \<Rightarrow>
   u16 \<Rightarrow> u16 \<Rightarrow> bool \<Rightarrow> 'a tsch_sched_state_scheme \<Rightarrow> nat option \<times> 'a tsch_sched_state_scheme" where
  "tsch_schedule_add_link env slotframe options ltype address timeslot channel_offset do_remove s =
     (case slotframe of
        None \<Rightarrow> (None, s)
      | Some i \<Rightarrow>
          if uint (div_val (sf_size (sch_slotframes s ! i))) - 1 < uint timeslot then (None, s)
          else let s1 = (if do_remove
                then case tsch_schedule_get_link_by_timeslot slotframe timeslot s of
                       None \<Rightarrow> s
                     | Some l \<Rightarrow> snd (tsch_schedule_remove_link slotframe (Some l) s)
                else s)
          in case tsch_get_lock s1 of
               (False, s2) \<Rightarrow> (None, s2)
             | (True, s2) \<Rightarrow>
                 (case memb_alloc (sch_link_memb s2) of
                    (None, _) \<Rightarrow> (None, tsch_release_lock s2)
                  | (Some l, m) \<Rightarrow>
                      (Some l, tsch_schedule_count_link env l (tsch_release_lock
                         (tsch_schedule_install_link i l options ltype address timeslot channel_offset
                            (s2\<lparr>sch_link_memb := m\<rparr>))))))"

text \<open>The loop of \<open>tsch_schedule_remove_link_by_offsets\<close>; \<open>next\<close> is read before the removal.\<close>

definition tsch_schedule_remove_link_by_offsets ::
  "nat option \<Rightarrow> u16 \<Rightarrow> u16 \<Rightarrow> 'a tsch_sched_state_scheme \<Rightarrow> int \<times> 'a tsch_sched_state_scheme" where
  "tsch_schedule_remove_link_by_offsets slotframe timeslot channel_offset s =
     (if \<not> tsch_is_locked s
      then case slotframe of
             None \<Rightarrow> (0, s)
           | Some i \<Rightarrow>
               fold (\<lambda>l (ret, s1).
                   if link_timeslot (sch_links s1 ! l) = timeslot \<and>
                      link_channel_offset (sch_links s1 ! l) = channel_offset
                   then (let (r, s2) = tsch_schedule_remove_link slotframe (Some l) s1
                         in (if r \<noteq> 0 then 1 else ret, s2))
                   else (ret, s1))
                 (sf_links_list (sch_slotframes s ! i)) (0, s)
      else (0, s))"

text \<open>
  \<open>tsch_schedule_remove_slotframe\<close>: the loop removes the first link of the list until the list
  is empty; a removal that fails leaves the list as it is, and the loop goes on for ever.
\<close>

partial_function (option) tsch_schedule_remove_links_loop ::
  "nat \<Rightarrow> 'a tsch_sched_state_scheme \<Rightarrow> 'a tsch_sched_state_scheme option" where
  "tsch_schedule_remove_links_loop i s =
     (case sf_links_list (sch_slotframes s ! i) of
        [] \<Rightarrow> Some s
      | l # _ \<Rightarrow> tsch_schedule_remove_links_loop i (snd (tsch_schedule_remove_link (Some i) (Some l) s)))"

definition tsch_schedule_remove_slotframe ::
  "nat option \<Rightarrow> 'a tsch_sched_state_scheme \<Rightarrow> (int \<times> 'a tsch_sched_state_scheme) option" where
  "tsch_schedule_remove_slotframe slotframe s =
     (case slotframe of
        None \<Rightarrow> Some (0, s)
      | Some i \<Rightarrow>
          do {
            s1 \<leftarrow> tsch_schedule_remove_links_loop i s;
            Some (case tsch_get_lock s1 of
                (False, s2) \<Rightarrow> (0, s2)
              | (True, s2) \<Rightarrow>
                  (1, tsch_release_lock (s2
                    \<lparr>sch_slotframe_memb := snd (memb_free (sch_slotframe_memb s2) i),
                     sch_slotframe_list := remove1 i (sch_slotframe_list s2)\<rparr>)))
          })"

partial_function (option) tsch_schedule_remove_all_slotframes ::
  "'a tsch_sched_state_scheme \<Rightarrow> (int \<times> 'a tsch_sched_state_scheme) option" where
  "tsch_schedule_remove_all_slotframes s =
     (case sch_slotframe_list s of
        [] \<Rightarrow> Some (1, s)
      | i # _ \<Rightarrow>
          do {
            (r, s1) \<leftarrow> tsch_schedule_remove_slotframe (Some i) s;
            if r = 0 then Some (0, s1) else tsch_schedule_remove_all_slotframes s1
          })"

definition tsch_schedule_init :: "'a tsch_sched_state_scheme \<Rightarrow> int \<times> 'a tsch_sched_state_scheme" where
  "tsch_schedule_init s =
     (case tsch_get_lock s of
        (False, s1) \<Rightarrow> (0, s1)
      | (True, s1) \<Rightarrow>
          (1, tsch_release_lock (s1\<lparr>sch_link_memb := memb_init (sch_link_memb s1),
             sch_links := replicate (length (sch_links s1)) tsch_link_zero,
             sch_slotframe_memb := memb_init (sch_slotframe_memb s1),
             sch_slotframes := replicate (length (sch_slotframes s1)) tsch_slotframe_zero,
             sch_slotframe_list := []\<rparr>)))"

definition tsch_schedule_create_minimal ::
  "('a tsch_sched_state_scheme) queue_env \<Rightarrow> 'a tsch_sched_state_scheme \<Rightarrow> 'a tsch_sched_state_scheme option" where
  "tsch_schedule_create_minimal env s =
     do {
       (_, s1) \<leftarrow> tsch_schedule_remove_all_slotframes s;
       let (sf_min, s2) = tsch_schedule_add_slotframe 0 TSCH_SCHEDULE_DEFAULT_LENGTH s1;
       Some (snd (tsch_schedule_add_link env sf_min
         (LINK_OPTION_RX OR LINK_OPTION_TX OR LINK_OPTION_SHARED OR LINK_OPTION_TIME_KEEPING)
         LINK_TYPE_ADVERTISING (Some tsch_broadcast_address) 0 0 True s2))
     }"

subsection \<open>The next active link\<close>

definition default_tsch_link_comparator :: "nat \<Rightarrow> nat \<Rightarrow> 'a tsch_sched_state_scheme \<Rightarrow> nat" where
  "default_tsch_link_comparator a b s =
     (let la = sch_links s ! a; lb = sch_links s ! b
      in if link_options la AND LINK_OPTION_TX = 0 then a
         else if link_addr la \<noteq> link_addr lb
         then let count = (\<lambda>n. case n of Some i \<Rightarrow> ringbufindex_elements (tx_ringbuf (q_nbrs s ! i)) | None \<Rightarrow> 0);
                  a_packet_count = count (tsch_queue_get_nbr (link_addr la) s);
                  b_packet_count = count (tsch_queue_get_nbr (link_addr lb) s)
              in if b_packet_count \<le> a_packet_count then a else b
         else a)"

record next_link =
  nl_time :: u16                        \<comment> \<open>\<open>time_to_curr_best\<close>\<close>
  nl_best :: "nat option"
  nl_backup :: "nat option"

text \<open>\<open>if(flag && (curr_backup == NULL || l->slotframe_handle < ...)) curr_backup = l\<close>\<close>

definition use_as_backup ::
  "'a tsch_sched_state_scheme \<Rightarrow> nat option \<Rightarrow> nat \<Rightarrow> nat option \<Rightarrow> nat option" where
  "use_as_backup s new_best l backup =
     (if new_best \<noteq> Some l \<and> link_options (sch_links s ! l) AND LINK_OPTION_RX \<noteq> 0
      then case backup of
             None \<Rightarrow> Some l
           | Some k \<Rightarrow> if link_slotframe_handle (sch_links s ! l) < link_slotframe_handle (sch_links s ! k)
                      then Some l else backup
      else backup)"

definition tsch_link_new_best :: "'a tsch_sched_state_scheme \<Rightarrow> nat \<Rightarrow> nat \<Rightarrow> nat option" where
  "tsch_link_new_best s best l =
     (let lb = sch_links s ! best; ll = sch_links s ! l
      in if link_options lb AND LINK_OPTION_TX = link_options ll AND LINK_OPTION_TX
         then if link_slotframe_handle ll \<noteq> link_slotframe_handle lb
              then if link_slotframe_handle ll < link_slotframe_handle lb then Some l else None
              else Some (default_tsch_link_comparator best l s)
         else if link_options ll AND LINK_OPTION_TX \<noteq> 0 then Some l else None)"

definition next_link_step ::
  "'a tsch_sched_state_scheme \<Rightarrow> tsch_slotframe \<Rightarrow> u16 \<Rightarrow> nat \<Rightarrow> next_link \<Rightarrow> next_link" where
  "next_link_step s sf timeslot l c =
     (let lt = link_timeslot (sch_links s ! l);
          time_to_timeslot = (if timeslot < lt then lt - timeslot else div_val (sf_size sf) + lt - timeslot)
      in case nl_best c of
           None \<Rightarrow> \<lparr>nl_time = time_to_timeslot, nl_best = Some l, nl_backup = None\<rparr>
         | Some best \<Rightarrow>
             if time_to_timeslot < nl_time c
             then \<lparr>nl_time = time_to_timeslot, nl_best = Some l, nl_backup = None\<rparr>
             else if time_to_timeslot = nl_time c
             then let new_best = tsch_link_new_best s best l;
                      backup1 = use_as_backup s new_best l (nl_backup c);
                      backup2 = use_as_backup s new_best best backup1
                  in \<lparr>nl_time = nl_time c,
                      nl_best = (case new_best of None \<Rightarrow> Some best | Some b \<Rightarrow> Some b),
                      nl_backup = backup2\<rparr>
             else c)"

definition next_link_slotframe ::
  "'a tsch_sched_state_scheme \<Rightarrow> tsch_asn \<Rightarrow> nat \<Rightarrow> next_link \<Rightarrow> next_link" where
  "next_link_slotframe s asn i c =
     (let sf = sch_slotframes s ! i;
          timeslot = word_of_int (TSCH_ASN_MOD asn (sf_size sf))
      in fold (next_link_step s sf timeslot) (sf_links_list sf) c)"

text \<open>The link, the time offset (\<open>None\<close> when the code does not write it) and the backup link.\<close>

definition tsch_schedule_get_next_active_link ::
  "tsch_asn \<Rightarrow> 'a tsch_sched_state_scheme \<Rightarrow> nat option \<times> u16 option \<times> nat option" where
  "tsch_schedule_get_next_active_link asn s =
     (if \<not> tsch_is_locked s
      then let c = fold (next_link_slotframe s asn) (sch_slotframe_list s)
                     \<lparr>nl_time = 0, nl_best = None, nl_backup = None\<rparr>
           in (nl_best c, Some (nl_time c), nl_backup c)
      else (None, None, None))"

subsection \<open>Well-formed schedules\<close>

definition sf_links :: "'a tsch_sched_state_scheme \<Rightarrow> nat \<Rightarrow> nat list" where
  "sf_links s i = sf_links_list (sch_slotframes s ! i)"

definition slotframe_ok :: "'a tsch_sched_state_scheme \<Rightarrow> nat \<Rightarrow> bool" where
  "slotframe_ok s i \<longleftrightarrow>
     div_val (sf_size (sch_slotframes s ! i)) \<noteq> 0 \<and>
     sf_size (sch_slotframes s ! i) = TSCH_ASN_DIVISOR_INIT (div_val (sf_size (sch_slotframes s ! i))) \<and>
     distinct (sf_links s i) \<and>
     (\<forall>l \<in> set (sf_links s i).
        link_slotframe_handle (sch_links s ! l) = sf_handle (sch_slotframes s ! i) \<and>
        link_timeslot (sch_links s ! l) < div_val (sf_size (sch_slotframes s ! i)))"

definition sched_wf :: "'a tsch_sched_state_scheme \<Rightarrow> bool" where
  "sched_wf s \<longleftrightarrow>
     length (sch_links s) = length (sch_link_memb s) \<and>
     length (sch_slotframes s) = length (sch_slotframe_memb s) \<and>
     distinct (sch_slotframe_list s) \<and>
     set (sch_slotframe_list s) = memb_blocks (sch_slotframe_memb s) \<and>
     inj_on (\<lambda>i. sf_handle (sch_slotframes s ! i)) (set (sch_slotframe_list s)) \<and>
     (\<forall>i \<in> set (sch_slotframe_list s). slotframe_ok s i) \<and>
     memb_blocks (sch_link_memb s) = (\<Union>i \<in> set (sch_slotframe_list s). set (sf_links s i))"

subsection \<open>The next active link is the first one\<close>

text \<open>The cell \<open>l\<close> of slotframe \<open>i\<close> is active in slot \<open>x\<close>.\<close>

definition active_at :: "'a tsch_sched_state_scheme \<Rightarrow> int \<Rightarrow> nat \<Rightarrow> nat \<Rightarrow> bool" where
  "active_at s x i l \<longleftrightarrow>
     x mod uint (div_val (sf_size (sch_slotframes s ! i))) = uint (link_timeslot (sch_links s ! l))"

definition time_to :: "'a tsch_sched_state_scheme \<Rightarrow> tsch_asn \<Rightarrow> nat \<times> nat \<Rightarrow> u16" where
  "time_to s asn il =
     (let sf = sch_slotframes s ! fst il; lt = link_timeslot (sch_links s ! snd il);
          timeslot = word_of_int (TSCH_ASN_MOD asn (sf_size sf))
      in if timeslot < lt then lt - timeslot else div_val (sf_size sf) + lt - timeslot)"

definition tx_link :: "'a tsch_sched_state_scheme \<Rightarrow> nat \<Rightarrow> bool" where
  "tx_link s l \<longleftrightarrow> link_options (sch_links s ! l) AND LINK_OPTION_TX \<noteq> 0"

definition rx_link :: "'a tsch_sched_state_scheme \<Rightarrow> nat \<Rightarrow> bool" where
  "rx_link s l \<longleftrightarrow> link_options (sch_links s ! l) AND LINK_OPTION_RX \<noteq> 0"

definition handle_of :: "'a tsch_sched_state_scheme \<Rightarrow> nat \<Rightarrow> u16" where
  "handle_of s l = link_slotframe_handle (sch_links s ! l)"

definition sched_cells :: "'a tsch_sched_state_scheme \<Rightarrow> (nat \<times> nat) list" where
  "sched_cells s = concat (map (\<lambda>i. map (Pair i) (sf_links s i)) (sch_slotframe_list s))"

lemma first_slot:
  fixes z x t :: int
  assumes "0 < z" and "0 \<le> t" and "t < z"
  defines "d \<equiv> (if x mod z < t then t - x mod z else z + t - x mod z)"
  shows "0 < d" and "d \<le> z" and "(x + d) mod z = t" and "0 < u \<Longrightarrow> u < d \<Longrightarrow> (x + u) mod z \<noteq> t"
proof -
  have m: "0 \<le> x mod z" "x mod z < z" using assms by simp_all
  define r where "r = x mod z"
  have "0 < d" "d \<le> z" using m assms(1-3) unfolding d_def r_def [symmetric] by (auto split: if_splits)
  then show "0 < d" "d \<le> z" .
  have "(x + d) mod z = (x mod z + d) mod z" by (simp add: mod_add_left_eq)
  also have "\<dots> = t"
  proof (cases "x mod z < t")
    case True
    then show ?thesis using assms by (simp add: d_def)
  next
    case False
    then have "x mod z + d = t + z" by (simp add: d_def)
    then have "(x mod z + d) mod z = (t + z) mod z" by (rule arg_cong)
    then show ?thesis using assms by simp
  qed
  finally show "(x + d) mod z = t" .
  assume u: "0 < u" "u < d"
  have e: "(x + u) mod z = (x mod z + u) mod z" by (simp add: mod_add_left_eq)
  show "(x + u) mod z \<noteq> t"
  proof (cases "x mod z + u < z")
    case True
    then have "(x mod z + u) mod z = x mod z + u" using m u by simp
    then show ?thesis unfolding e using u True m by (auto simp: d_def split: if_splits)
  next
    case False
    then have "x mod z + u - z < z" "0 \<le> x mod z + u - z" using u \<open>d \<le> z\<close> m by linarith+
    then have "(x mod z + u) mod z = x mod z + u - z"
      by (metis mod_pos_pos_trivial minus_mod_self2)
    then show ?thesis unfolding e using u False m assms by (auto simp: d_def split: if_splits)
  qed
qed

lemma time_to_spec:
  assumes ok: "slotframe_ok s i" and l: "l \<in> set (sf_links s i)"
  shows "0 < uint (time_to s asn (i, l))"
    and "active_at s (asn_value asn + uint (time_to s asn (i, l))) i l"
    and "0 < u \<Longrightarrow> u < uint (time_to s asn (i, l)) \<Longrightarrow> \<not> active_at s (asn_value asn + u) i l"
proof -
  let ?v = "div_val (sf_size (sch_slotframes s ! i))" and ?t = "link_timeslot (sch_links s ! l)"
  let ?m = "asn_value asn mod uint ?v"
  have v: "?v \<noteq> 0" and tl: "?t < ?v"
    and d: "sf_size (sch_slotframes s ! i) = TSCH_ASN_DIVISOR_INIT ?v"
    using ok l by (simp_all add: slotframe_ok_def)
  have vp: "0 < uint ?v" using v by (simp add: word_greater_zero_iff [symmetric] word_less_def)
  have tb: "uint ?t < uint ?v" using tl by (simp add: word_less_def)
  have vb: "uint ?v < 65536" using uint_bounded [of ?v] by simp
  have t0: "0 \<le> uint ?t" by simp
  have mb: "0 \<le> ?m" "?m < uint ?v" using vp by simp_all
  have am: "TSCH_ASN_MOD asn (sf_size (sch_slotframes s ! i)) = ?m"
    by (subst d) (rule tsch_asn_mod_correct [OF v])
  have um: "uint (word_of_int ?m :: u16) = ?m"
    using mb vb by (simp add: uint_word_of_int)
  have "uint (time_to s asn (i, l)) = (if ?m < uint ?t then uint ?t - ?m else uint ?v + uint ?t - ?m)"
  proof (cases "?m < uint ?t")
    case True
    then have "uint (?t - word_of_int ?m) = uint ?t - ?m"
      using um by (simp add: uint_sub_if_size)
    with True show ?thesis by (simp add: time_to_def am word_less_def um Let_def)
  next
    case False
    have c: "0 \<le> uint ?v + uint ?t - ?m" "uint ?v + uint ?t - ?m < 65536"
      using False mb vb tb t0 by linarith+
    have "uint (?v + ?t - word_of_int ?m) = (uint ?v + uint ?t - ?m) mod 65536"
      by (simp add: uint_word_ariths um mod_diff_left_eq)
    also have "\<dots> = uint ?v + uint ?t - ?m" using c by (intro mod_pos_pos_trivial)
    finally show ?thesis using False by (simp add: time_to_def am word_less_def um Let_def)
  qed
  note e = this
  note f = first_slot [OF vp t0 tb, where x = "asn_value asn"]
  show "0 < uint (time_to s asn (i, l))" unfolding e by (rule f(1))
  show "active_at s (asn_value asn + uint (time_to s asn (i, l))) i l"
    unfolding e active_at_def by (rule f(3))
  show "\<not> active_at s (asn_value asn + u) i l" if "0 < u" "u < uint (time_to s asn (i, l))"
    using f(4) that unfolding e active_at_def by blast
qed

text \<open>What the two loops keep, for the cells \<open>ps\<close> they have seen.\<close>

definition next_link_inv ::
  "'a tsch_sched_state_scheme \<Rightarrow> tsch_asn \<Rightarrow> (nat \<times> nat) list \<Rightarrow> next_link \<Rightarrow> bool" where
  "next_link_inv s asn ps c \<longleftrightarrow>
     (case nl_best c of
        None \<Rightarrow> ps = [] \<and> nl_backup c = None
      | Some b \<Rightarrow>
          (\<exists>i. (i, b) \<in> set ps \<and> time_to s asn (i, b) = nl_time c) \<and>
          (\<forall>p \<in> set ps. nl_time c \<le> time_to s asn p) \<and>
          (\<forall>p \<in> set ps. time_to s asn p = nl_time c \<longrightarrow>
             (tx_link s (snd p) \<longrightarrow> tx_link s b) \<and>
             (tx_link s (snd p) = tx_link s b \<longrightarrow> handle_of s b \<le> handle_of s (snd p))) \<and>
          (\<forall>k. nl_backup c = Some k \<longrightarrow> rx_link s k \<and>
             (\<exists>i. (i, k) \<in> set ps \<and> time_to s asn (i, k) = nl_time c)))"

lemma and_tx_cases: "(x :: u8) AND LINK_OPTION_TX = 0 \<or> x AND LINK_OPTION_TX = 1"
  by (simp add: LINK_OPTION_TX_def and_one_eq mod_2_eq_odd)

lemma tx_link_eq_iff:
  "(link_options (sch_links s ! b) AND LINK_OPTION_TX = link_options (sch_links s ! l) AND LINK_OPTION_TX) \<longleftrightarrow>
   (tx_link s b = tx_link s l)"
  using and_tx_cases [of "link_options (sch_links s ! b)"] and_tx_cases [of "link_options (sch_links s ! l)"]
  by (auto simp: tx_link_def)

lemma comparator_cases: "default_tsch_link_comparator a b s = a \<or> default_tsch_link_comparator a b s = b"
  by (auto simp: default_tsch_link_comparator_def Let_def)

text \<open>Of two cells in the same slot the code keeps one that has priority.\<close>

lemma tsch_link_new_best_eq:
  "tsch_link_new_best s b l =
     (if tx_link s b = tx_link s l
      then if handle_of s l \<noteq> handle_of s b then if handle_of s l < handle_of s b then Some l else None
           else Some (default_tsch_link_comparator b l s)
      else if tx_link s l then Some l else None)"
  unfolding tsch_link_new_best_def Let_def tx_link_eq_iff handle_of_def [symmetric] tx_link_def [symmetric] ..

lemma new_best_spec:
  assumes k: "k = (case tsch_link_new_best s b l of None \<Rightarrow> b | Some k \<Rightarrow> k)"
  shows "k = b \<or> k = l"
    and "tx_link s k \<longleftrightarrow> tx_link s b \<or> tx_link s l"
    and "tx_link s b = tx_link s k \<Longrightarrow> handle_of s k \<le> handle_of s b"
    and "tx_link s l = tx_link s k \<Longrightarrow> handle_of s k \<le> handle_of s l"
proof -
  have "(k = b \<or> k = l) \<and> (tx_link s k \<longleftrightarrow> tx_link s b \<or> tx_link s l) \<and>
    (tx_link s b = tx_link s k \<longrightarrow> handle_of s k \<le> handle_of s b) \<and>
    (tx_link s l = tx_link s k \<longrightarrow> handle_of s k \<le> handle_of s l)"
  proof (cases "default_tsch_link_comparator b l s = b")
    case True
    then show ?thesis unfolding k tsch_link_new_best_eq by (auto simp: not_less)
  next
    case False
    then have "default_tsch_link_comparator b l s = l" using comparator_cases [of b l s] by blast
    then show ?thesis unfolding k tsch_link_new_best_eq by (auto simp: not_less)
  qed
  then show "k = b \<or> k = l" "tx_link s k \<longleftrightarrow> tx_link s b \<or> tx_link s l"
    "tx_link s b = tx_link s k \<Longrightarrow> handle_of s k \<le> handle_of s b"
    "tx_link s l = tx_link s k \<Longrightarrow> handle_of s k \<le> handle_of s l" by blast+
qed

lemma use_as_backup_cases:
  "use_as_backup s nb l bk = Some k \<Longrightarrow> bk = Some k \<or> k = l \<and> rx_link s l"
  by (auto simp: use_as_backup_def rx_link_def split: if_splits option.splits)

lemma next_link_step_inv:
  assumes inv: "next_link_inv s asn ps c"
    and ts: "ts = word_of_int (TSCH_ASN_MOD asn (sf_size (sch_slotframes s ! i)))"
  shows "next_link_inv s asn (ps @ [(i, l)]) (next_link_step s (sch_slotframes s ! i) ts l c)"
proof -
  let ?t = "time_to s asn (i, l)"
  have tt: "(if ts < link_timeslot (sch_links s ! l) then link_timeslot (sch_links s ! l) - ts
      else div_val (sf_size (sch_slotframes s ! i)) + link_timeslot (sch_links s ! l) - ts) = ?t"
    by (simp add: time_to_def ts Let_def)
  show ?thesis
  proof (cases "nl_best c")
    case None
    then have "ps = []" using inv by (simp add: next_link_inv_def)
    with None show ?thesis
      by (simp add: next_link_step_def tt Let_def) (simp add: next_link_inv_def)
  next
    case (Some b)
    have I: "\<exists>i. (i, b) \<in> set ps \<and> time_to s asn (i, b) = nl_time c"
      "\<And>p. p \<in> set ps \<Longrightarrow> nl_time c \<le> time_to s asn p"
      "\<And>p. p \<in> set ps \<Longrightarrow> time_to s asn p = nl_time c \<Longrightarrow> tx_link s (snd p) \<Longrightarrow> tx_link s b"
      "\<And>p. p \<in> set ps \<Longrightarrow> time_to s asn p = nl_time c \<Longrightarrow> tx_link s (snd p) = tx_link s b \<Longrightarrow>
         handle_of s b \<le> handle_of s (snd p)"
      "\<And>k. nl_backup c = Some k \<Longrightarrow> rx_link s k \<and> (\<exists>i. (i, k) \<in> set ps \<and> time_to s asn (i, k) = nl_time c)"
      using inv by (auto simp: next_link_inv_def Some)
    consider (lt) "?t < nl_time c" | (eq) "?t = nl_time c" | (gt) "nl_time c < ?t" by force
    then show ?thesis
    proof cases
      case lt
      then have "next_link_step s (sch_slotframes s ! i) ts l c =
          \<lparr>nl_time = ?t, nl_best = Some l, nl_backup = None\<rparr>"
        by (simp add: next_link_step_def tt Let_def Some)
      moreover have "?t \<le> time_to s asn p" "time_to s asn p \<noteq> ?t" if "p \<in> set ps" for p
        using lt I(2) [OF that] by auto
      ultimately show ?thesis by (auto simp: next_link_inv_def)
    next
      case gt
      then have "next_link_step s (sch_slotframes s ! i) ts l c = c"
        by (simp add: next_link_step_def tt Let_def Some)
      moreover have "next_link_inv s asn (ps @ [(i, l)]) c"
        using inv gt by (auto simp: next_link_inv_def Some)
      ultimately show ?thesis by simp
    next
      case eq
      define nb where "nb = tsch_link_new_best s b l"
      define b' where "b' = (case nb of None \<Rightarrow> b | Some k \<Rightarrow> k)"
      define bk where "bk = use_as_backup s nb b (use_as_backup s nb l (nl_backup c))"
      have st: "next_link_step s (sch_slotframes s ! i) ts l c =
          \<lparr>nl_time = nl_time c, nl_best = Some b', nl_backup = bk\<rparr>"
        using eq by (simp add: next_link_step_def tt Let_def Some nb_def b'_def bk_def split: option.split)
      note N = new_best_spec [where k = b' and s = s and b = b and l = l, folded nb_def, OF b'_def]
      have bk: "rx_link s k \<and> (k = l \<or> k = b \<or> (\<exists>i. (i, k) \<in> set ps \<and> time_to s asn (i, k) = nl_time c))"
        if "bk = Some k" for k
        using use_as_backup_cases [OF that [unfolded bk_def]]
          use_as_backup_cases [of s nb l "nl_backup c" k] I(5) [of k] by blast
      have "\<exists>j. (j, b') \<in> set (ps @ [(i, l)]) \<and> time_to s asn (j, b') = nl_time c"
        using N(1) I(1) eq by auto
      moreover have "\<forall>p \<in> set (ps @ [(i, l)]). nl_time c \<le> time_to s asn p" using I(2) eq by auto
      moreover have "\<forall>p \<in> set (ps @ [(i, l)]). time_to s asn p = nl_time c \<longrightarrow>
          (tx_link s (snd p) \<longrightarrow> tx_link s b') \<and>
          (tx_link s (snd p) = tx_link s b' \<longrightarrow> handle_of s b' \<le> handle_of s (snd p))"
      proof (intro ballI impI conjI)
        fix p
        assume p: "p \<in> set (ps @ [(i, l)])" "time_to s asn p = nl_time c"
        show "tx_link s b'" if "tx_link s (snd p)" using p that I(3) [of p] N(2) by auto
        show "handle_of s b' \<le> handle_of s (snd p)" if h: "tx_link s (snd p) = tx_link s b'"
        proof (cases "p \<in> set ps")
          case False
          with p(1) h N(4) show ?thesis by simp
        next
          case True
          note i3 = I(3) [OF True p(2)] and i4 = I(4) [OF True p(2)]
          show ?thesis
          proof (cases "tx_link s (snd p) = tx_link s b")
            case True
            have "handle_of s b' \<le> handle_of s b" by (rule N(3)) (use True h in simp)
            with i4 [OF True] show ?thesis by simp
          next
            case False
            with i3 have "tx_link s b" "\<not> tx_link s (snd p)" by auto
            with h N(2) show ?thesis by simp
          qed
        qed
      qed
      moreover have "\<forall>k. bk = Some k \<longrightarrow> rx_link s k \<and>
          (\<exists>j. (j, k) \<in> set (ps @ [(i, l)]) \<and> time_to s asn (j, k) = nl_time c)"
        using bk I(1) eq by auto
      ultimately show ?thesis unfolding st next_link_inv_def by simp
    qed
  qed
qed

lemma next_link_slotframe_inv:
  assumes "next_link_inv s asn ps c"
  shows "next_link_inv s asn (ps @ map (Pair i) (sf_links s i)) (next_link_slotframe s asn i c)"
proof -
  let ?ts = "word_of_int (TSCH_ASN_MOD asn (sf_size (sch_slotframes s ! i))) :: u16"
  have "next_link_inv s asn ps c \<Longrightarrow>
      next_link_inv s asn (ps @ map (Pair i) ls) (fold (next_link_step s (sch_slotframes s ! i) ?ts) ls c)" for ls
  proof (induction ls arbitrary: ps c)
    case (Cons l ls)
    from Cons.IH [OF next_link_step_inv [OF Cons.prems refl, of i l]] show ?case by simp
  qed simp
  from this [OF assms] show ?thesis by (simp add: next_link_slotframe_def Let_def sf_links_def)
qed

lemma next_link_all_inv:
  "next_link_inv s asn (sched_cells s) (fold (next_link_slotframe s asn) (sch_slotframe_list s)
     \<lparr>nl_time = 0, nl_best = None, nl_backup = None\<rparr>)"
proof -
  have "next_link_inv s asn ps c \<Longrightarrow> next_link_inv s asn
      (ps @ concat (map (\<lambda>i. map (Pair i) (sf_links s i)) is)) (fold (next_link_slotframe s asn) is c)" for ps c "is"
  proof (induction "is" arbitrary: ps c)
    case (Cons i js)
    from Cons.IH [OF next_link_slotframe_inv [OF Cons.prems, of i]] show ?case by simp
  qed simp
  from this [of "[]"] show ?thesis by (simp add: next_link_inv_def sched_cells_def)
qed

lemma sched_cells_set:
  "(i, l) \<in> set (sched_cells s) \<longleftrightarrow> i \<in> set (sch_slotframe_list s) \<and> l \<in> set (sf_links s i)"
  by (auto simp: sched_cells_def)

text \<open>What is promised of the next link.\<close>

definition next_active_ok ::
  "'a tsch_sched_state_scheme \<Rightarrow> tsch_asn \<Rightarrow> nat option \<Rightarrow> u16 option \<Rightarrow> nat option \<Rightarrow> bool" where
  "next_active_ok s asn best t backup \<longleftrightarrow>
    (case best of
      None \<Rightarrow> (\<forall>i \<in> set (sch_slotframe_list s). sf_links s i = []) \<and> backup = None
    | Some b \<Rightarrow>
        (\<exists>n i. t = Some n \<and> 0 < uint n \<and> i \<in> set (sch_slotframe_list s) \<and> b \<in> set (sf_links s i) \<and>
           active_at s (asn_value asn + uint n) i b \<and>
           (\<forall>j \<in> set (sch_slotframe_list s). \<forall>l \<in> set (sf_links s j).
              (\<forall>u. 0 < u \<and> u < uint n \<longrightarrow> \<not> active_at s (asn_value asn + u) j l) \<and>
              (active_at s (asn_value asn + uint n) j l \<longrightarrow>
                 (tx_link s l \<longrightarrow> tx_link s b) \<and>
                 (tx_link s l = tx_link s b \<longrightarrow> handle_of s b \<le> handle_of s l))) \<and>
           (\<forall>k. backup = Some k \<longrightarrow> rx_link s k \<and>
              (\<exists>j \<in> set (sch_slotframe_list s). k \<in> set (sf_links s j) \<and>
                 active_at s (asn_value asn + uint n) j k))))"

lemma next_active_link_ok:
  assumes wf: "sched_wf s" and unl: "\<not> tsch_locked s"
    and r: "tsch_schedule_get_next_active_link asn s = (best, t, backup)"
  shows "next_active_ok s asn best t backup"
proof -
  let ?c = "fold (next_link_slotframe s asn) (sch_slotframe_list s)
     \<lparr>nl_time = 0, nl_best = None, nl_backup = None\<rparr>"
  have res: "best = nl_best ?c" "t = Some (nl_time ?c)" "backup = nl_backup ?c"
    using r unl by (simp_all add: tsch_schedule_get_next_active_link_def tsch_is_locked_def Let_def)
  note inv = next_link_all_inv [of s asn]
  have ok: "slotframe_ok s i" if "i \<in> set (sch_slotframe_list s)" for i
    using wf that by (simp add: sched_wf_def)
  show ?thesis
  proof (cases best)
    case None
    then have "sched_cells s = []" "backup = None" using inv res by (simp_all add: next_link_inv_def)
    with None show ?thesis by (auto simp: sched_cells_def next_active_ok_def)
  next
    case (Some b)
    let ?n = "nl_time ?c"
    have b: "nl_best ?c = Some b" using Some res by simp
    obtain i where i: "(i, b) \<in> set (sched_cells s)" "time_to s asn (i, b) = ?n"
      using inv b by (auto simp: next_link_inv_def)
    have ib: "i \<in> set (sch_slotframe_list s)" "b \<in> set (sf_links s i)" using i by (simp_all add: sched_cells_set)
    note T = time_to_spec [OF ok]
    have n0: "0 < uint ?n" "active_at s (asn_value asn + uint ?n) i b"
      using T(1,2) [OF ib, of asn] i(2) by simp_all
    have early: "?n \<le> time_to s asn (j, l)" "\<And>u. 0 < u \<Longrightarrow> u < uint ?n \<Longrightarrow> \<not> active_at s (asn_value asn + u) j l"
      if j: "j \<in> set (sch_slotframe_list s)" "l \<in> set (sf_links s j)" for j l
    proof -
      show le: "?n \<le> time_to s asn (j, l)"
        using inv b j by (auto simp: next_link_inv_def sched_cells_set)
      show "\<not> active_at s (asn_value asn + u) j l" if "0 < u" "u < uint ?n" for u
        using T(3) [OF j, of u asn] that le by (simp add: word_le_def)
    qed
    have same: "time_to s asn (j, l) = ?n"
      if j: "j \<in> set (sch_slotframe_list s)" "l \<in> set (sf_links s j)"
        and a: "active_at s (asn_value asn + uint ?n) j l" for j l
    proof (rule ccontr)
      assume "time_to s asn (j, l) \<noteq> ?n"
      with early(1) [OF j] have "uint ?n < uint (time_to s asn (j, l))"
        by (metis order_le_less word_less_def)
      with T(3) [OF j n0(1)] a show False by blast
    qed
    have prio: "(tx_link s l \<longrightarrow> tx_link s b) \<and> (tx_link s l = tx_link s b \<longrightarrow> handle_of s b \<le> handle_of s l)"
      if j: "j \<in> set (sch_slotframe_list s)" "l \<in> set (sf_links s j)"
        and a: "active_at s (asn_value asn + uint ?n) j l" for j l
    proof -
      have "(j, l) \<in> set (sched_cells s)" using j by (simp add: sched_cells_set)
      with same [OF j a] inv b show ?thesis by (force simp: next_link_inv_def)
    qed
    have bk: "rx_link s k \<and> (\<exists>j \<in> set (sch_slotframe_list s). k \<in> set (sf_links s j) \<and>
        active_at s (asn_value asn + uint ?n) j k)" if k: "backup = Some k" for k
    proof -
      obtain j where "rx_link s k" "(j, k) \<in> set (sched_cells s)" "time_to s asn (j, k) = ?n"
        using inv b k res by (auto simp: next_link_inv_def)
      moreover from this have j: "j \<in> set (sch_slotframe_list s)" "k \<in> set (sf_links s j)"
        by (simp_all add: sched_cells_set)
      ultimately show ?thesis using T(2) [OF j, of asn] by auto
    qed
    show ?thesis
      unfolding Some option.case next_active_ok_def
      by (rule exI [of _ ?n], rule exI [of _ i]) (use res ib n0 early(2) prio bk in blast)
  qed
qed

text \<open>
  C1: the next active link.  In a well-formed, unlocked schedule,
  \<open>tsch_schedule_get_next_active_link\<close> returns NULL exactly when there is no cell at all.
  Otherwise the cell it returns is active, by the 40-bit slot number, exactly \<open>t\<close> slots after
  the given one, with \<open>t\<close> positive, and no cell of any slotframe is active earlier.  Among the
  cells active in that slot it has the priority of the standard: it is a transmit cell if there
  is one, and no cell of the same kind belongs to a slotframe with a lower handle.  A backup
  cell is one with the receive option that is active in the same slot.
\<close>

theorem tsch_next_active_link_first:
  assumes wf: "sched_wf s" and unl: "\<not> tsch_locked s"
    and r: "tsch_schedule_get_next_active_link asn s = (best, t, backup)"
  shows "(case best of
      None \<Rightarrow> (\<forall>i \<in> set (sch_slotframe_list s). sf_links s i = []) \<and> backup = None
    | Some b \<Rightarrow>
        (\<exists>n i. t = Some n \<and> 0 < uint n \<and> i \<in> set (sch_slotframe_list s) \<and> b \<in> set (sf_links s i) \<and>
           active_at s (asn_value asn + uint n) i b \<and>
           (\<forall>j \<in> set (sch_slotframe_list s). \<forall>l \<in> set (sf_links s j).
              (\<forall>u. 0 < u \<and> u < uint n \<longrightarrow> \<not> active_at s (asn_value asn + u) j l) \<and>
              (active_at s (asn_value asn + uint n) j l \<longrightarrow>
                 (tx_link s l \<longrightarrow> tx_link s b) \<and>
                 (tx_link s l = tx_link s b \<longrightarrow> handle_of s b \<le> handle_of s l))) \<and>
           (\<forall>k. backup = Some k \<longrightarrow> rx_link s k \<and>
              (\<exists>j \<in> set (sch_slotframe_list s). k \<in> set (sf_links s j) \<and>
                 active_at s (asn_value asn + uint n) j k))))"
  using next_active_link_ok [OF assms] by (simp only: next_active_ok_def)

definition sched_example :: tsch_sched_state where
  "sched_example = tsch_queue_state.extend tsch_example
     \<lparr>sch_link_memb = [True, True, False],
      sch_links = [\<lparr>link_handle = 0, link_addr = 7, link_slotframe_handle = 0, link_timeslot = 3,
          link_channel_offset = 1, link_options = 1, link_link_type = LINK_TYPE_NORMAL, link_data = None\<rparr>,
        \<lparr>link_handle = 1, link_addr = 7, link_slotframe_handle = 0, link_timeslot = 9,
          link_channel_offset = 1, link_options = 2, link_link_type = LINK_TYPE_NORMAL, link_data = None\<rparr>,
        \<lparr>link_handle = 0, link_addr = 0, link_slotframe_handle = 0, link_timeslot = 0,
          link_channel_offset = 0, link_options = 0, link_link_type = LINK_TYPE_NORMAL, link_data = None\<rparr>],
      sch_slotframe_memb = [True],
      sch_slotframes = [\<lparr>sf_handle = 0, sf_size = TSCH_ASN_DIVISOR_INIT 101, sf_links_list = [0, 1]\<rparr>],
      sch_slotframe_list = [0], sch_current_link = None, sch_current_link_handle = 2\<rparr>"

lemma sched_example_wf: "sched_wf sched_example" "\<not> tsch_locked sched_example"
  by (auto simp: sched_wf_def sched_example_def tsch_queue_state.extend_def slotframe_ok_def sf_links_def
      memb_blocks_def TSCH_ASN_DIVISOR_INIT_def tsch_example_def less_Suc_eq numeral_3_eq_3 inj_on_def)

theorem tsch_next_active_link_first_witness:
  "\<exists>b. fst (tsch_schedule_get_next_active_link \<lparr>ls4b = 5, ms1b = 0\<rparr> sched_example) = Some b"
proof (rule ccontr)
  assume no: "\<not> (\<exists>b. fst (tsch_schedule_get_next_active_link \<lparr>ls4b = 5, ms1b = 0\<rparr> sched_example) = Some b)"
  obtain best t bk where r:
    "tsch_schedule_get_next_active_link \<lparr>ls4b = 5, ms1b = 0\<rparr> sched_example = (best, t, bk)"
    by (cases "tsch_schedule_get_next_active_link \<lparr>ls4b = 5, ms1b = 0\<rparr> sched_example") auto
  with no have "best = None" by (cases best) auto
  with tsch_next_active_link_first [OF sched_example_wf r] show False
    by (simp add: sched_example_def tsch_queue_state.extend_def sf_links_def)
qed

subsection \<open>The schedule is separate from the neighbours\<close>

definition sched_view :: "'a tsch_sched_state_scheme \<Rightarrow>
    memb \<times> tsch_link list \<times> memb \<times> tsch_slotframe list \<times> nat list \<times> nat option \<times> int" where
  "sched_view s = (sch_link_memb s, sch_links s, sch_slotframe_memb s, sch_slotframes s,
     sch_slotframe_list s, sch_current_link s, sch_current_link_handle s)"

lemma sched_view_fields:
  assumes "sched_view s' = sched_view s"
  shows "sch_link_memb s' = sch_link_memb s" "sch_links s' = sch_links s"
    "sch_slotframe_memb s' = sch_slotframe_memb s" "sch_slotframes s' = sch_slotframes s"
    "sch_slotframe_list s' = sch_slotframe_list s" "sch_current_link s' = sch_current_link s"
    "sch_current_link_handle s' = sch_current_link_handle s" "sf_links s' = sf_links s"
  using assms by (auto simp: sched_view_def sf_links_def)

lemma sched_wf_view: "sched_view s' = sched_view s \<Longrightarrow> sched_wf s' = sched_wf s"
  using sched_view_fields [of s' s] by (simp add: sched_wf_def slotframe_ok_def)

lemma sched_view_lower [simp]:
  "sched_view (upd_nbr n f s) = sched_view s" "sched_view (tsch_release_lock s) = sched_view s"
  "sched_view (snd (tsch_get_lock s)) = sched_view s"
  by (simp_all add: sched_view_def upd_nbr_def tsch_release_lock_def tsch_get_lock_def)

lemma locked_lower [simp]:
  "\<not> tsch_locked (tsch_release_lock s)" "nt_callback (tsch_release_lock s) = nt_callback s"
  by (simp_all add: tsch_release_lock_def)

definition no_nbr_callbacks :: "'a nbr_state_scheme \<Rightarrow> bool" where
  "no_nbr_callbacks s \<longleftrightarrow> (\<forall>x. \<not> nt_callback s x)"

lemma nbr_table_add_view:
  fixes s :: "'a tsch_sched_state_scheme"
  assumes "no_nbr_callbacks s"
  shows "sched_view (snd (nbr_table_add_lladdr env tsch_neighbors a r s)) = sched_view s \<and>
    nt_callback (snd (nbr_table_add_lladdr env tsch_neighbors a r s)) = nt_callback s"
proof -
  have k: "remove_key env k False s = s\<lparr>nt_used_map := (nt_used_map s)[k := 0],
      nt_locked_map := (nt_locked_map s)[k := 0], nt_keys := remove1 k (nt_keys s)\<rparr>" for k
    by (rule remove_key_no_callback) (use assms in \<open>simp add: no_nbr_callbacks_def\<close>)
  have n: "sched_view (snd (nbr_table_new_key env b w s)) = sched_view s \<and>
      nt_callback (snd (nbr_table_new_key env b w s)) = nt_callback s" for b w
    by (auto simp: nbr_table_new_key_def nbr_table_allocate_def k sched_view_def split: option.splits prod.splits)
  have z: "sched_view (tbl_zero tsch_neighbors i t) = sched_view t \<and>
      nt_callback (tbl_zero tsch_neighbors i t) = nt_callback t" for i and t :: "'a tsch_sched_state_scheme"
    by (simp add: tsch_neighbors_def sched_view_def)
  have u: "sched_view (t\<lparr>nt_used_map := m\<rparr>) = sched_view t" for m and t :: "'a tsch_sched_state_scheme"
    by (simp add: sched_view_def)
  show ?thesis
    unfolding nbr_table_add_lladdr_def Let_def
    using n [of "case a of None \<Rightarrow> 0 | Some a \<Rightarrow> a"] z u
    by (auto split: option.splits prod.splits) (metis snd_conv)+
qed

lemma add_nbr_view:
  fixes s :: "'a tsch_sched_state_scheme"
  assumes "no_nbr_callbacks s"
  shows "sched_view (snd (tsch_queue_add_nbr env a s)) = sched_view s"
    and "no_nbr_callbacks (snd (tsch_queue_add_nbr env a s))"
    and "\<not> tsch_locked s \<Longrightarrow> \<not> tsch_locked (snd (tsch_queue_add_nbr env a s))"
proof -
  let ?s1 = "s\<lparr>tsch_locked := True\<rparr>"
  have c: "no_nbr_callbacks ?s1" "sched_view ?s1 = sched_view s" "nt_callback ?s1 = nt_callback s"
    using assms by (simp_all add: no_nbr_callbacks_def sched_view_def)
  note v = nbr_table_add_view [OF c(1), of "qe_nbr env" "Some a" NBR_TABLE_REASON_MAC, unfolded c(2,3)]
  have l: "sched_view (tsch_release_lock (tsch_queue_init_nbr a n (snd (nbr_table_lock tsch_neighbors m t)))) =
      sched_view t" "nt_callback (tsch_release_lock (tsch_queue_init_nbr a n
        (snd (nbr_table_lock tsch_neighbors m t)))) = nt_callback t" for n m and t :: "'a tsch_sched_state_scheme"
    by (simp_all add: tsch_queue_init_nbr_def nbr_table_lock_def Let_def upd_nbr_def tsch_release_lock_def sched_view_def)
  have "sched_view (snd (tsch_queue_add_nbr env a s)) = sched_view s \<and>
      nt_callback (snd (tsch_queue_add_nbr env a s)) = nt_callback s"
    using v l by (auto simp: tsch_queue_add_nbr_def tsch_get_lock_def split: option.splits prod.splits)
  then show "sched_view (snd (tsch_queue_add_nbr env a s)) = sched_view s"
    "no_nbr_callbacks (snd (tsch_queue_add_nbr env a s))"
    using assms by (simp_all add: no_nbr_callbacks_def)
  show "\<not> tsch_locked (snd (tsch_queue_add_nbr env a s))" if "\<not> tsch_locked s"
    using that by (auto simp: tsch_queue_add_nbr_def tsch_get_lock_def split: option.splits prod.splits)
qed

lemma count_link_view:
  fixes s :: "'a tsch_sched_state_scheme"
  assumes "no_nbr_callbacks s"
  shows "sched_view (tsch_schedule_count_link env l s) = sched_view s"
    and "no_nbr_callbacks (tsch_schedule_count_link env l s)"
    and "\<not> tsch_locked s \<Longrightarrow> \<not> tsch_locked (tsch_schedule_count_link env l s)"
proof -
  note a = add_nbr_view [OF assms, of env "link_addr (sch_links s ! l)"]
  have u: "no_nbr_callbacks (upd_nbr n f t) = no_nbr_callbacks t" for n f and t :: "'a tsch_sched_state_scheme"
    by (simp add: no_nbr_callbacks_def upd_nbr_def)
  show "sched_view (tsch_schedule_count_link env l s) = sched_view s"
    "no_nbr_callbacks (tsch_schedule_count_link env l s)"
    "\<not> tsch_locked s \<Longrightarrow> \<not> tsch_locked (tsch_schedule_count_link env l s)"
    using a assms
    by (auto simp: tsch_schedule_count_link_def Let_def u split: prod.splits option.splits)
qed

lemma uncount_link_view [simp]:
  "sched_view (tsch_schedule_uncount_link opts a s) = sched_view s"
  "nt_callback (tsch_schedule_uncount_link opts a s) = nt_callback s"
  "tsch_locked (tsch_schedule_uncount_link opts a s) = tsch_locked s"
  by (simp_all add: tsch_schedule_uncount_link_def split: option.split) (simp_all add: upd_nbr_def)

subsection \<open>Removing a link\<close>

definition same_slotframe :: "tsch_slotframe \<Rightarrow> tsch_slotframe \<Rightarrow> bool" where
  "same_slotframe a b \<longleftrightarrow> sf_handle a = sf_handle b \<and> sf_size a = sf_size b"

lemma sched_wf_links_disjoint:
  assumes "sched_wf s" and "i \<in> set (sch_slotframe_list s)" and "j \<in> set (sch_slotframe_list s)"
    and "l \<in> set (sf_links s i)" and "l \<in> set (sf_links s j)"
  shows "i = j"
proof -
  have "slotframe_ok s i" "slotframe_ok s j" using assms(1-3) by (simp_all add: sched_wf_def)
  with assms(4,5) have "sf_handle (sch_slotframes s ! i) = sf_handle (sch_slotframes s ! j)"
    by (metis slotframe_ok_def)
  with assms(1-3) show ?thesis by (auto simp: sched_wf_def inj_on_def)
qed

lemma sched_wf_index: "sched_wf s \<Longrightarrow> i \<in> set (sch_slotframe_list s) \<Longrightarrow> i < length (sch_slotframes s)"
  by (auto simp: sched_wf_def memb_blocks_def)

lemma remove_link_spec:
  fixes s :: "'a tsch_sched_state_scheme"
  assumes wf: "sched_wf s" and unl: "\<not> tsch_locked s"
    and i: "i \<in> set (sch_slotframe_list s)" and l: "l \<in> set (sf_links s i)"
  shows "\<exists>s'. tsch_schedule_remove_link (Some i) (Some l) s = (1, s') \<and> sched_wf s' \<and>
    \<not> tsch_locked s' \<and> nt_callback s' = nt_callback s \<and>
    sch_links s' = sch_links s \<and> sch_slotframe_list s' = sch_slotframe_list s \<and>
    sch_slotframe_memb s' = sch_slotframe_memb s \<and>
    (\<forall>j. same_slotframe (sch_slotframes s' ! j) (sch_slotframes s ! j)) \<and>
    (\<forall>j. sf_links s' j = (if j = i then remove1 l (sf_links s i) else sf_links s j)) \<and>
    memb_blocks (sch_link_memb s') = memb_blocks (sch_link_memb s) - {l} \<and>
    length (sch_link_memb s') = length (sch_link_memb s) \<and>
    sch_current_link s' = (if sch_current_link s = Some l then None else sch_current_link s)"
proof -
  have ok: "slotframe_ok s i" using wf i by (simp add: sched_wf_def)
  have h: "link_slotframe_handle (sch_links s ! l) = sf_handle (sch_slotframes s ! i)"
    using ok l by (simp add: slotframe_ok_def)
  define s2 where "s2 = (let s1 = s\<lparr>tsch_locked := True\<rparr>
    in if sch_current_link s1 = Some l then s1\<lparr>sch_current_link := None\<rparr> else s1)"
  define s3 where "s3 = upd_slotframe i (\<lambda>sf. sf\<lparr>sf_links_list := remove1 l (sf_links_list sf)\<rparr>) s2"
  define s4 where "s4 = tsch_release_lock (s3\<lparr>sch_link_memb := snd (memb_free (sch_link_memb s3) l)\<rparr>)"
  define s' where "s' = tsch_schedule_uncount_link (link_options (sch_links s ! l)) (link_addr (sch_links s ! l)) s4"
  have r: "tsch_schedule_remove_link (Some i) (Some l) s = (1, s')"
    using h unl by (simp add: tsch_schedule_remove_link_def tsch_get_lock_def s'_def s4_def s3_def s2_def Let_def)
  have f2: "sch_links s2 = sch_links s" "sch_slotframe_list s2 = sch_slotframe_list s"
    "sch_slotframe_memb s2 = sch_slotframe_memb s" "sch_slotframes s2 = sch_slotframes s"
    "sch_link_memb s2 = sch_link_memb s" "nt_callback s2 = nt_callback s"
    "sch_current_link s2 = (if sch_current_link s = Some l then None else sch_current_link s)"
    by (simp_all add: s2_def Let_def)
  have sv: "sched_view s' = sched_view s4" by (simp add: s'_def)
  have l4: "\<not> tsch_locked s'" "nt_callback s' = nt_callback s"
    by (simp_all add: s'_def s4_def s3_def upd_slotframe_def f2)
  have f4: "sch_links s4 = sch_links s" "sch_slotframe_list s4 = sch_slotframe_list s"
    "sch_slotframe_memb s4 = sch_slotframe_memb s"
    "sch_slotframes s4 = (sch_slotframes s)[i := (sch_slotframes s ! i)\<lparr>sf_links_list := remove1 l (sf_links s i)\<rparr>]"
    "sch_link_memb s4 = snd (memb_free (sch_link_memb s) l)"
    "sch_current_link s4 = (if sch_current_link s = Some l then None else sch_current_link s)"
    by (simp_all add: s4_def s3_def upd_slotframe_def tsch_release_lock_def sf_links_def f2)
  have f: "sch_links s' = sch_links s" "sch_slotframe_list s' = sch_slotframe_list s"
    "sch_slotframe_memb s' = sch_slotframe_memb s"
    "sch_slotframes s' = (sch_slotframes s)[i := (sch_slotframes s ! i)\<lparr>sf_links_list := remove1 l (sf_links s i)\<rparr>]"
    "sch_link_memb s' = snd (memb_free (sch_link_memb s) l)"
    "sch_current_link s' = (if sch_current_link s = Some l then None else sch_current_link s)"
    "\<not> tsch_locked s'" "nt_callback s' = nt_callback s"
    using sched_view_fields [OF sv] l4 f4 by simp_all
  have il: "i < length (sch_slotframes s)" by (rule sched_wf_index [OF wf i])
  have same: "\<forall>j. same_slotframe (sch_slotframes s' ! j) (sch_slotframes s ! j)"
    using il by (simp add: f same_slotframe_def nth_list_update)
  have sl: "\<forall>j. sf_links s' j = (if j = i then remove1 l (sf_links s i) else sf_links s j)"
    using il by (simp add: sf_links_def f nth_list_update)
  have bl: "memb_blocks (sch_link_memb s') = memb_blocks (sch_link_memb s) - {l}"
    by (simp add: f memb_free_blocks)
  have ok': "slotframe_ok s' j" if "j \<in> set (sch_slotframe_list s)" for j
  proof -
    have "slotframe_ok s j" using wf that by (simp add: sched_wf_def)
    with same sl show ?thesis
      by (auto simp: slotframe_ok_def same_slotframe_def f(1) distinct_remove1 dest: notin_set_remove1 [rotated])
  qed
  have un: "memb_blocks (sch_link_memb s') = (\<Union>j \<in> set (sch_slotframe_list s). set (sf_links s' j))"
  proof -
    have di: "distinct (sf_links s i)" using ok by (simp add: slotframe_ok_def)
    have nl: "l \<notin> set (sf_links s j)" if "j \<in> set (sch_slotframe_list s)" "j \<noteq> i" for j
      using sched_wf_links_disjoint [OF wf i that(1) l] that(2) by blast
    have "set (sf_links s' j) = set (sf_links s j) - {l}" if "j \<in> set (sch_slotframe_list s)" for j
      using sl di nl [OF that] by auto
    then have "(\<Union>j \<in> set (sch_slotframe_list s). set (sf_links s' j)) =
        (\<Union>j \<in> set (sch_slotframe_list s). set (sf_links s j)) - {l}" by auto
    then show ?thesis using wf by (simp add: bl sched_wf_def)
  qed
  have inj: "inj_on (\<lambda>j. sf_handle (sch_slotframes s' ! j)) (set (sch_slotframe_list s))"
  proof -
    have e: "sf_handle (sch_slotframes s' ! j) = sf_handle (sch_slotframes s ! j)" for j
      using same by (simp add: same_slotframe_def)
    have "inj_on (\<lambda>j. sf_handle (sch_slotframes s ! j)) (set (sch_slotframe_list s))"
      using wf unfolding sched_wf_def by blast
    then show ?thesis unfolding e .
  qed
  have w: "sched_wf s'"
    using wf ok' un inj unfolding sched_wf_def f(1-3) by (simp add: f(4,5))
  show ?thesis
    by (intro exI [of _ s'] conjI) (use r w f(1-3,6-8) same sl bl in \<open>simp_all add: f\<close>)
qed

text \<open>Under a taken lock nothing happens.\<close>

lemma remove_link_locked:
  "tsch_locked s \<Longrightarrow> tsch_schedule_remove_link sf l s = (0, s)"
  by (auto simp: tsch_schedule_remove_link_def tsch_get_lock_def split: option.split)

subsection \<open>Removing a slotframe\<close>

lemma remove_links_loop_spec:
  fixes s :: "'a tsch_sched_state_scheme"
  assumes "sched_wf s" and "\<not> tsch_locked s" and "i \<in> set (sch_slotframe_list s)"
  shows "\<exists>s'. tsch_schedule_remove_links_loop i s = Some s' \<and> sched_wf s' \<and> \<not> tsch_locked s' \<and>
    nt_callback s' = nt_callback s \<and> sch_links s' = sch_links s \<and>
    sch_slotframe_list s' = sch_slotframe_list s \<and> sch_slotframe_memb s' = sch_slotframe_memb s \<and>
    (\<forall>j. same_slotframe (sch_slotframes s' ! j) (sch_slotframes s ! j)) \<and>
    (\<forall>j. sf_links s' j = (if j = i then [] else sf_links s j)) \<and>
    memb_blocks (sch_link_memb s') = memb_blocks (sch_link_memb s) - set (sf_links s i) \<and>
    length (sch_link_memb s') = length (sch_link_memb s)"
  using assms
proof (induction "length (sf_links s i)" arbitrary: s)
  case 0
  then have "sf_links s i = []" by simp
  then show ?case
    using 0 by (subst tsch_schedule_remove_links_loop.simps) (simp add: sf_links_def same_slotframe_def)
next
  case (Suc k)
  then obtain l ls where ll: "sf_links s i = l # ls" by (cases "sf_links s i") auto
  then have l: "l \<in> set (sf_links s i)" by simp
  from remove_link_spec [OF Suc.prems l] obtain s1 where s1:
    "tsch_schedule_remove_link (Some i) (Some l) s = (1, s1)" "sched_wf s1" "\<not> tsch_locked s1"
    "nt_callback s1 = nt_callback s" "sch_links s1 = sch_links s"
    "sch_slotframe_list s1 = sch_slotframe_list s" "sch_slotframe_memb s1 = sch_slotframe_memb s"
    "\<forall>j. same_slotframe (sch_slotframes s1 ! j) (sch_slotframes s ! j)"
    "\<forall>j. sf_links s1 j = (if j = i then remove1 l (sf_links s i) else sf_links s j)"
    "memb_blocks (sch_link_memb s1) = memb_blocks (sch_link_memb s) - {l}"
    "length (sch_link_memb s1) = length (sch_link_memb s)"
    by blast
  have step: "tsch_schedule_remove_links_loop i s = tsch_schedule_remove_links_loop i s1"
    using ll s1(1) by (subst tsch_schedule_remove_links_loop.simps) (simp add: sf_links_def)
  have e: "sf_links s1 i = ls" using s1(9) ll by simp
  have k: "k = length (sf_links s1 i)" using Suc.hyps(2) ll e by simp
  have i1: "i \<in> set (sch_slotframe_list s1)" using Suc.prems(3) s1(6) by simp
  from Suc.hyps(1) [OF k s1(2,3) i1] obtain s' where s':
    "tsch_schedule_remove_links_loop i s1 = Some s'" "sched_wf s'" "\<not> tsch_locked s'"
    "nt_callback s' = nt_callback s1" "sch_links s' = sch_links s1"
    "sch_slotframe_list s' = sch_slotframe_list s1" "sch_slotframe_memb s' = sch_slotframe_memb s1"
    "\<forall>j. same_slotframe (sch_slotframes s' ! j) (sch_slotframes s1 ! j)"
    "\<forall>j. sf_links s' j = (if j = i then [] else sf_links s1 j)"
    "memb_blocks (sch_link_memb s') = memb_blocks (sch_link_memb s1) - set (sf_links s1 i)"
    "length (sch_link_memb s') = length (sch_link_memb s1)"
    by blast
  have "same_slotframe (sch_slotframes s' ! j) (sch_slotframes s ! j)" for j
    using s1(8) s'(8) by (simp add: same_slotframe_def)
  moreover have "memb_blocks (sch_link_memb s') = memb_blocks (sch_link_memb s) - set (sf_links s i)"
    using s1(10) s'(10) ll e by auto
  ultimately show ?case
    unfolding step using s' s1(4-7,9,11) by (intro exI [of _ s']) simp
qed

text \<open>
  removing a slotframe.  In a well-formed, unlocked schedule
  \<open>tsch_schedule_remove_slotframe\<close> ends and returns 1; the slotframe and exactly its links go
  back to their pools, every other slotframe keeps its links, and the schedule stays
  well-formed.
\<close>

theorem tsch_remove_slotframe_spec:
  fixes s :: "'a tsch_sched_state_scheme"
  assumes wf: "sched_wf s" and unl: "\<not> tsch_locked s" and i: "i \<in> set (sch_slotframe_list s)"
  shows "\<exists>s'. tsch_schedule_remove_slotframe (Some i) s = Some (1, s') \<and> sched_wf s' \<and> \<not> tsch_locked s' \<and>
    nt_callback s' = nt_callback s \<and> sch_links s' = sch_links s \<and>
    sch_slotframe_list s' = remove1 i (sch_slotframe_list s) \<and>
    memb_blocks (sch_slotframe_memb s') = memb_blocks (sch_slotframe_memb s) - {i} \<and>
    memb_blocks (sch_link_memb s') = memb_blocks (sch_link_memb s) - set (sf_links s i) \<and>
    length (sch_link_memb s') = length (sch_link_memb s) \<and>
    length (sch_slotframe_memb s') = length (sch_slotframe_memb s) \<and>
    (\<forall>j. j \<noteq> i \<longrightarrow> sf_links s' j = sf_links s j \<and> same_slotframe (sch_slotframes s' ! j) (sch_slotframes s ! j))"
proof -
  from remove_links_loop_spec [OF assms] obtain s1 where s1:
    "tsch_schedule_remove_links_loop i s = Some s1" "sched_wf s1" "\<not> tsch_locked s1"
    "nt_callback s1 = nt_callback s" "sch_links s1 = sch_links s"
    "sch_slotframe_list s1 = sch_slotframe_list s" "sch_slotframe_memb s1 = sch_slotframe_memb s"
    "\<forall>j. same_slotframe (sch_slotframes s1 ! j) (sch_slotframes s ! j)"
    "\<forall>j. sf_links s1 j = (if j = i then [] else sf_links s j)"
    "memb_blocks (sch_link_memb s1) = memb_blocks (sch_link_memb s) - set (sf_links s i)"
    "length (sch_link_memb s1) = length (sch_link_memb s)"
    by blast
  define s' where "s' = tsch_release_lock (s1\<lparr>tsch_locked := True,
      sch_slotframe_memb := snd (memb_free (sch_slotframe_memb s1) i),
      sch_slotframe_list := remove1 i (sch_slotframe_list s1)\<rparr>)"
  have r: "tsch_schedule_remove_slotframe (Some i) s = Some (1, s')"
    using s1(1,3) by (simp add: tsch_schedule_remove_slotframe_def tsch_get_lock_def s'_def)
  have f: "sch_links s' = sch_links s1" "sch_slotframes s' = sch_slotframes s1"
    "sch_link_memb s' = sch_link_memb s1" "sf_links s' = sf_links s1"
    "sch_slotframe_list s' = remove1 i (sch_slotframe_list s1)"
    "sch_slotframe_memb s' = snd (memb_free (sch_slotframe_memb s1) i)"
    "\<not> tsch_locked s'" "nt_callback s' = nt_callback s1"
    by (simp_all add: s'_def tsch_release_lock_def fun_eq_iff sf_links_def)
  note W = s1(2) [unfolded sched_wf_def]
  have st: "set (remove1 i (sch_slotframe_list s1)) = set (sch_slotframe_list s1) - {i}"
    using W by simp
  have ok: "slotframe_ok s' j = slotframe_ok s1 j" for j by (simp add: slotframe_ok_def f)
  have un: "(\<Union>j \<in> set (sch_slotframe_list s1) - {i}. set (sf_links s1 j)) =
      (\<Union>j \<in> set (sch_slotframe_list s1). set (sf_links s1 j))"
    using s1(9) by (auto split: if_splits)
  have inj: "inj_on (\<lambda>j. sf_handle (sch_slotframes s1 ! j)) (set (sch_slotframe_list s1) - {i})"
    using W by (auto intro: inj_on_subset)
  have "sched_wf s'"
    using W un inj by (simp add: sched_wf_def f ok memb_free_blocks)
  moreover have "memb_blocks (sch_slotframe_memb s') = memb_blocks (sch_slotframe_memb s) - {i}"
    by (simp add: f s1 memb_free_blocks)
  ultimately show ?thesis
    using r f s1 by (intro exI [of _ s']) simp
qed

theorem tsch_remove_slotframe_spec_witness:
  "\<exists>s'. tsch_schedule_remove_slotframe (Some 0) sched_example = Some (1, s') \<and>
     sch_slotframe_list s' = [] \<and> memb_blocks (sch_link_memb s') = {}"
proof -
  have i: "0 \<in> set (sch_slotframe_list sched_example)" "sch_slotframe_list sched_example = [0]"
    "sf_links sched_example 0 = [0, 1]"
    by (simp_all add: sched_example_def tsch_queue_state.extend_def sf_links_def)
  have b: "memb_blocks (sch_link_memb sched_example) = {0, 1}"
    using sched_example_wf(1) i by (auto simp: sched_wf_def)
  from tsch_remove_slotframe_spec [OF sched_example_wf i(1)] show ?thesis
    by (auto simp: i b)
qed

text \<open>With the lock taken and a link left, \<open>tsch_schedule_remove_slotframe\<close> does not end.\<close>

lemma remove_links_loop_locked:
  assumes "tsch_locked s" and "sf_links s i \<noteq> []"
  shows "tsch_schedule_remove_links_loop i s = None"
proof -
  have "tsch_locked s \<and> sf_links s i \<noteq> [] \<longrightarrow> False"
    if "tsch_schedule_remove_links_loop i s = Some s'" for s'
    by (rule tsch_schedule_remove_links_loop.raw_induct
        [where P = "\<lambda>i s s'. tsch_locked s \<and> sf_links s i \<noteq> [] \<longrightarrow> False", OF _ that])
      (auto simp: remove_link_locked sf_links_def split: list.splits)
  with assms show ?thesis by (cases "tsch_schedule_remove_links_loop i s") auto
qed

subsection \<open>Adding slotframes and links\<close>

lemma add_slotframe_spec:
  fixes s :: "'a tsch_sched_state_scheme"
  assumes wf: "sched_wf s" and unl: "\<not> tsch_locked s" and z: "sz \<noteq> 0"
    and new: "\<forall>i \<in> set (sch_slotframe_list s). sf_handle (sch_slotframes s ! i) \<noteq> h"
    and free: "memb_numfree (sch_slotframe_memb s) \<noteq> 0"
  shows "\<exists>i s'. tsch_schedule_add_slotframe h sz s = (Some i, s') \<and> sched_wf s' \<and> \<not> tsch_locked s' \<and>
    nt_callback s' = nt_callback s \<and> i \<notin> set (sch_slotframe_list s) \<and>
    sch_slotframe_list s' = sch_slotframe_list s @ [i] \<and> sf_links s' i = [] \<and>
    sf_handle (sch_slotframes s' ! i) = h \<and> sf_size (sch_slotframes s' ! i) = TSCH_ASN_DIVISOR_INIT sz \<and>
    sch_links s' = sch_links s \<and> sch_link_memb s' = sch_link_memb s \<and>
    (\<forall>j \<in> set (sch_slotframe_list s). sch_slotframes s' ! j = sch_slotframes s ! j)"
proof -
  obtain i m where a: "memb_alloc (sch_slotframe_memb s) = (Some i, m)"
    using memb.alloc_succeeds_iff [of "sch_slotframe_memb s"] free by blast
  note fr = memb.alloc_fresh [OF a]
  note W = wf [unfolded sched_wf_def]
  have ni: "i \<notin> set (sch_slotframe_list s)" using fr W by simp
  have g: "tsch_schedule_get_slotframe_by_handle h s = None"
    using new by (auto simp: tsch_schedule_get_slotframe_by_handle_def find_None_iff)
  define sf where "sf = \<lparr>sf_handle = h, sf_size = TSCH_ASN_DIVISOR_INIT sz, sf_links_list = []\<rparr>"
  define s' where "s' = tsch_release_lock (s\<lparr>tsch_locked := True, sch_slotframe_memb := m,
      sch_slotframes := (sch_slotframes s)[i := sf], sch_slotframe_list := sch_slotframe_list s @ [i]\<rparr>)"
  have r: "tsch_schedule_add_slotframe h sz s = (Some i, s')"
    using z g unl a ni
    by (simp add: tsch_schedule_add_slotframe_def tsch_get_lock_def s'_def sf_def index_list_add_def remove1_idem)
  have f: "sch_links s' = sch_links s" "sch_link_memb s' = sch_link_memb s" "sch_slotframe_memb s' = m"
    "sch_slotframes s' = (sch_slotframes s)[i := sf]" "sch_slotframe_list s' = sch_slotframe_list s @ [i]"
    "\<not> tsch_locked s'" "nt_callback s' = nt_callback s"
    by (simp_all add: s'_def tsch_release_lock_def)
  have il: "i < length (sch_slotframes s)" using fr W by simp
  have same: "sch_slotframes s' ! j = sch_slotframes s ! j" if "j \<in> set (sch_slotframe_list s)" for j
    using that ni by (cases "j = i") (simp_all add: f)
  have at: "sch_slotframes s' ! i = sf" using il by (simp add: f)
  have ok: "slotframe_ok s' j" if "j \<in> set (sch_slotframe_list s @ [i])" for j
  proof (cases "j = i")
    case True
    then show ?thesis using z by (simp add: slotframe_ok_def at sf_links_def) (simp add: sf_def TSCH_ASN_DIVISOR_INIT_def)
  next
    case False
    with that have j: "j \<in> set (sch_slotframe_list s)" by simp
    with W have "slotframe_ok s j" by blast
    then show ?thesis by (simp add: slotframe_ok_def sf_links_def same [OF j] f(1))
  qed
  have inj: "inj_on (\<lambda>j. sf_handle (sch_slotframes s' ! j)) (insert i (set (sch_slotframe_list s)))"
  proof -
    have "inj_on (\<lambda>j. sf_handle (sch_slotframes s ! j)) (set (sch_slotframe_list s))"
      using W by blast
    then have "inj_on (\<lambda>j. sf_handle (sch_slotframes s' ! j)) (set (sch_slotframe_list s))"
      using inj_on_cong [of "set (sch_slotframe_list s)" "\<lambda>j. sf_handle (sch_slotframes s' ! j)"
          "\<lambda>j. sf_handle (sch_slotframes s ! j)"] same by simp
    moreover have "sf_handle (sch_slotframes s' ! i) \<notin>
        (\<lambda>j. sf_handle (sch_slotframes s' ! j)) ` (set (sch_slotframe_list s) - {i})"
      using new same by (auto simp: at sf_def)
    ultimately show ?thesis by (simp add: inj_on_insert)
  qed
  have un: "(\<Union>j \<in> insert i (set (sch_slotframe_list s)). set (sf_links s' j)) =
      (\<Union>j \<in> set (sch_slotframe_list s). set (sf_links s j))"
    using same by (auto simp: sf_links_def at) (simp_all add: sf_def)
  have "sched_wf s'"
    using W fr ni ok inj un by (simp add: sched_wf_def f insert_commute)
  with r f ni at same show ?thesis
    by (intro exI [of _ i] exI [of _ s']) (simp add: sf_links_def sf_def)
qed

lemma install_link_spec:
  fixes s :: "'a tsch_sched_state_scheme"
  assumes wf: "sched_wf s" and i: "i \<in> set (sch_slotframe_list s)"
    and ts: "ts < div_val (sf_size (sch_slotframes s ! i))"
    and a: "memb_alloc (sch_link_memb s) = (Some l, m)"
    and s': "sched_view s' = sched_view (tsch_schedule_install_link i l opts ty addr ts ch (s\<lparr>sch_link_memb := m\<rparr>))"
  shows "sched_wf s'" and "l \<notin> memb_blocks (sch_link_memb s)"
    and "memb_blocks (sch_link_memb s') = insert l (memb_blocks (sch_link_memb s))"
    and "sch_slotframe_list s' = sch_slotframe_list s"
    and "same_slotframe (sch_slotframes s' ! j) (sch_slotframes s ! j)"
    and "sf_links s' j = (if j = i then sf_links s i @ [l] else sf_links s j)"
    and "sch_links s' ! l = \<lparr>link_handle = word_of_int (sch_current_link_handle s),
          link_addr = (case addr of None \<Rightarrow> 0 | Some a \<Rightarrow> a),
          link_slotframe_handle = sf_handle (sch_slotframes s ! i), link_timeslot = ts,
          link_channel_offset = ch, link_options = opts, link_link_type = ty, link_data = None\<rparr>"
    and "k \<noteq> l \<Longrightarrow> sch_links s' ! k = sch_links s ! k"
proof -
  note fr = memb.alloc_fresh [OF a]
  note W = wf [unfolded sched_wf_def]
  show nl: "l \<notin> memb_blocks (sch_link_memb s)" using fr by simp
  define lk where "lk = \<lparr>link_handle = word_of_int (sch_current_link_handle s),
          link_addr = (case addr of None \<Rightarrow> 0 | Some a \<Rightarrow> a),
          link_slotframe_handle = sf_handle (sch_slotframes s ! i), link_timeslot = ts,
          link_channel_offset = ch, link_options = opts, link_link_type = ty, link_data = None\<rparr>"
  have nli: "l \<notin> set (sf_links s i)" using nl W i by auto
  have il: "i < length (sch_slotframes s)" by (rule sched_wf_index [OF wf i])
  have ll: "l < length (sch_links s)" using fr W by simp
  have f: "sch_links s' = (sch_links s)[l := lk]" "sch_link_memb s' = m"
    "sch_slotframe_memb s' = sch_slotframe_memb s" "sch_slotframe_list s' = sch_slotframe_list s"
    "sch_slotframes s' = (sch_slotframes s)[i := (sch_slotframes s ! i)\<lparr>sf_links_list := sf_links s i @ [l]\<rparr>]"
    using sched_view_fields [OF s'] nli
    by (simp_all add: tsch_schedule_install_link_def upd_slotframe_def index_list_add_def sf_links_def
        remove1_idem lk_def)
  show "sch_slotframe_list s' = sch_slotframe_list s" by (rule f(4))
  show mb: "memb_blocks (sch_link_memb s') = insert l (memb_blocks (sch_link_memb s))" using fr by (simp add: f)
  have same: "same_slotframe (sch_slotframes s' ! j) (sch_slotframes s ! j)" for j
    using il by (simp add: f same_slotframe_def nth_list_update)
  then show "same_slotframe (sch_slotframes s' ! j) (sch_slotframes s ! j)" .
  have sl: "sf_links s' j = (if j = i then sf_links s i @ [l] else sf_links s j)" for j
    using il by (simp add: f sf_links_def nth_list_update)
  then show "sf_links s' j = (if j = i then sf_links s i @ [l] else sf_links s j)" .
  have at: "sch_links s' ! l = lk" using ll by (simp add: f)
  then show "sch_links s' ! l = \<lparr>link_handle = word_of_int (sch_current_link_handle s),
          link_addr = (case addr of None \<Rightarrow> 0 | Some a \<Rightarrow> a),
          link_slotframe_handle = sf_handle (sch_slotframes s ! i), link_timeslot = ts,
          link_channel_offset = ch, link_options = opts, link_link_type = ty, link_data = None\<rparr>"
    by (simp add: lk_def)
  have oth: "sch_links s' ! k = sch_links s ! k" if "k \<noteq> l" for k using that by (simp add: f)
  then show "k \<noteq> l \<Longrightarrow> sch_links s' ! k = sch_links s ! k" .
  have ok: "slotframe_ok s' j" if j: "j \<in> set (sch_slotframe_list s)" for j
  proof -
    have o: "slotframe_ok s j" using W j by blast
    have "k \<noteq> l" if "k \<in> set (sf_links s j)" for k using that nl W j by auto
    then have k: "sch_links s' ! k = sch_links s ! k" if "k \<in> set (sf_links s j)" for k using oth that by blast
    have "link_slotframe_handle (sch_links s' ! l) = sf_handle (sch_slotframes s ! i)"
      "link_timeslot (sch_links s' ! l) = ts"
      by (simp_all add: at lk_def)
    with o k same [of j] nli ts show ?thesis
      by (auto simp: slotframe_ok_def sl same_slotframe_def)
  qed
  have inj: "inj_on (\<lambda>j. sf_handle (sch_slotframes s' ! j)) (set (sch_slotframe_list s))"
  proof -
    have e: "sf_handle (sch_slotframes s' ! j) = sf_handle (sch_slotframes s ! j)" for j
      using same by (simp add: same_slotframe_def)
    show ?thesis unfolding e using W by blast
  qed
  have un: "memb_blocks (sch_link_memb s') = (\<Union>j \<in> set (sch_slotframe_list s). set (sf_links s' j))"
    unfolding mb using W i by (auto simp: sl split: if_splits)
  show "sched_wf s'"
    using W ok inj un fr unfolding sched_wf_def f(1,3,4) by (simp add: f(2,5))
qed

text \<open>At most one link per timeslot, which is what \<open>add_link\<close> with \<open>do_remove\<close> maintains.\<close>

definition one_per_timeslot :: "'a tsch_sched_state_scheme \<Rightarrow> nat \<Rightarrow> bool" where
  "one_per_timeslot s i \<longleftrightarrow> inj_on (\<lambda>l. link_timeslot (sch_links s ! l)) (set (sf_links s i))"

lemma find_remove1: "\<not> P x \<Longrightarrow> find P (remove1 x xs) = find P xs"
  by (induction xs) auto

lemma find_append: "find P (xs @ ys) = (case find P xs of None \<Rightarrow> find P ys | Some x \<Rightarrow> Some x)"
  by (induction xs) auto

lemma find_cong_set: "(\<And>x. x \<in> set xs \<Longrightarrow> P x = Q x) \<Longrightarrow> find P xs = find Q xs"
  by (induction xs) auto

lemma find_SomeD: "find P xs = Some x \<Longrightarrow> x \<in> set xs \<and> P x"
  by (auto simp: find_Some_iff)

lemma find_NoneD: "find P xs = None \<Longrightarrow> x \<in> set xs \<Longrightarrow> \<not> P x"
  by (auto simp: find_None_iff)

lemma get_link_by_timeslot_eq:
  "\<not> tsch_locked s \<Longrightarrow> tsch_schedule_get_link_by_timeslot (Some i) ts s =
     find (\<lambda>l. link_timeslot (sch_links s ! l) = ts) (sf_links s i)"
  by (simp add: tsch_schedule_get_link_by_timeslot_def tsch_is_locked_def sf_links_def)

text \<open>The state in which \<open>add_link\<close> allocates: the link at the timeslot is gone.\<close>

lemma add_link_remove_old:
  fixes s :: "'a tsch_sched_state_scheme" and ts :: u16
  assumes wf: "sched_wf s" and unl: "\<not> tsch_locked s" and i: "i \<in> set (sch_slotframe_list s)"
  defines "old \<equiv> tsch_schedule_get_link_by_timeslot (Some i) ts s"
  defines "s1 \<equiv> (case old of None \<Rightarrow> s | Some l \<Rightarrow> snd (tsch_schedule_remove_link (Some i) (Some l) s))"
  shows "sched_wf s1 \<and> \<not> tsch_locked s1 \<and> nt_callback s1 = nt_callback s \<and> sch_links s1 = sch_links s \<and>
    sch_slotframe_list s1 = sch_slotframe_list s \<and>
    (\<forall>j. same_slotframe (sch_slotframes s1 ! j) (sch_slotframes s ! j)) \<and>
    (\<forall>j. sf_links s1 j = (if j = i then case old of None \<Rightarrow> sf_links s i | Some l \<Rightarrow> remove1 l (sf_links s i)
                         else sf_links s j)) \<and>
    memb_blocks (sch_link_memb s1) = memb_blocks (sch_link_memb s) - set_option old \<and>
    (0 < memb_numfree (sch_link_memb s1) \<longleftrightarrow> old \<noteq> None \<or> 0 < memb_numfree (sch_link_memb s))"
proof (cases old)
  case None
  then show ?thesis using wf unl by (simp add: s1_def same_slotframe_def)
next
  case (Some l)
  have l: "l \<in> set (sf_links s i)"
    using Some find_SomeD by (fastforce simp: old_def get_link_by_timeslot_eq [OF unl])
  from remove_link_spec [OF wf unl i l] obtain s2 where s2:
    "tsch_schedule_remove_link (Some i) (Some l) s = (1, s2)" "sched_wf s2" "\<not> tsch_locked s2"
    "nt_callback s2 = nt_callback s" "sch_links s2 = sch_links s"
    "sch_slotframe_list s2 = sch_slotframe_list s"
    "\<forall>j. same_slotframe (sch_slotframes s2 ! j) (sch_slotframes s ! j)"
    "\<forall>j. sf_links s2 j = (if j = i then remove1 l (sf_links s i) else sf_links s j)"
    "memb_blocks (sch_link_memb s2) = memb_blocks (sch_link_memb s) - {l}"
    "length (sch_link_memb s2) = length (sch_link_memb s)"
    by blast
  have e: "s1 = s2" by (simp add: s1_def Some s2)
  have lb: "l \<in> memb_blocks (sch_link_memb s)" using wf i l by (auto simp: sched_wf_def)
  have "finite (memb_blocks (sch_link_memb s))" by (simp add: memb_blocks_def)
  then have "card (memb_blocks (sch_link_memb s2)) < card (memb_blocks (sch_link_memb s))"
    unfolding s2(9) using lb by (rule card_Diff1_less)
  then have "0 < memb_numfree (sch_link_memb s2)"
    using memb_numfree_card [of "sch_link_memb s2"] memb_numfree_card [of "sch_link_memb s"] s2(10) by linarith
  then show ?thesis unfolding e using s2 by (simp add: Some)
qed

text \<open>The effect of adding a link that replaces the one at its timeslot.\<close>

lemma add_link_effect:
  fixes s :: "'a tsch_sched_state_scheme"
  assumes wf: "sched_wf s" and unl: "\<not> tsch_locked s" and cb: "no_nbr_callbacks s"
    and i: "i \<in> set (sch_slotframe_list s)" and one: "one_per_timeslot s i"
    and ts: "ts < div_val (sf_size (sch_slotframes s ! i))"
  shows "if tsch_schedule_get_link_by_timeslot (Some i) ts s \<noteq> None \<or> 0 < memb_numfree (sch_link_memb s)
    then \<exists>l s'. tsch_schedule_add_link env (Some i) opts ty addr ts ch True s = (Some l, s') \<and>
      sched_wf s' \<and> \<not> tsch_locked s' \<and> no_nbr_callbacks s' \<and> one_per_timeslot s' i \<and>
      tsch_schedule_get_link_by_timeslot (Some i) ts s' = Some l \<and>
      link_options (sch_links s' ! l) = opts \<and> link_channel_offset (sch_links s' ! l) = ch \<and>
      link_addr (sch_links s' ! l) = (case addr of None \<Rightarrow> 0 | Some a \<Rightarrow> a) \<and>
      (\<forall>t. t \<noteq> ts \<longrightarrow> tsch_schedule_get_link_by_timeslot (Some i) t s' =
                      tsch_schedule_get_link_by_timeslot (Some i) t s) \<and>
      (\<forall>j. j \<noteq> i \<longrightarrow> sf_links s' j = sf_links s j) \<and>
      (\<forall>k. k \<noteq> l \<longrightarrow> sch_links s' ! k = sch_links s ! k) \<and>
      sch_slotframe_list s' = sch_slotframe_list s \<and>
      (\<forall>j. same_slotframe (sch_slotframes s' ! j) (sch_slotframes s ! j))
    else \<exists>s'. tsch_schedule_add_link env (Some i) opts ty addr ts ch True s = (None, s') \<and>
      sched_view s' = sched_view s \<and> \<not> tsch_locked s'"
proof -
  let ?old = "tsch_schedule_get_link_by_timeslot (Some i) ts s"
  define s1 where "s1 = (case ?old of None \<Rightarrow> s | Some l \<Rightarrow> snd (tsch_schedule_remove_link (Some i) (Some l) s))"
  note A = add_link_remove_old [OF wf unl i, of ts, folded s1_def]
  let ?s2 = "s1\<lparr>tsch_locked := True\<rparr>"
  have bound: "\<not> uint (div_val (sf_size (sch_slotframes s ! i))) - 1 < uint ts"
    using ts by (simp add: word_less_def)
  have unl1: "\<not> tsch_locked s1" using A by blast
  have add: "tsch_schedule_add_link env (Some i) opts ty addr ts ch True s =
     (case memb_alloc (sch_link_memb s1) of
        (None, _) \<Rightarrow> (None, tsch_release_lock ?s2)
      | (Some l, m) \<Rightarrow> (Some l, tsch_schedule_count_link env l (tsch_release_lock
           (tsch_schedule_install_link i l opts ty addr ts ch (?s2\<lparr>sch_link_memb := m\<rparr>)))))"
    using bound unl1 by (simp add: tsch_schedule_add_link_def s1_def [symmetric] tsch_get_lock_def Let_def)
  have v2: "sched_view ?s2 = sched_view s1" by (simp add: sched_view_def)
  show ?thesis
  proof (cases "?old \<noteq> None \<or> 0 < memb_numfree (sch_link_memb s)")
    case False
    then have "memb_numfree (sch_link_memb s1) = 0" "s1 = s" using A by (auto simp: s1_def)
    then obtain m where m: "memb_alloc (sch_link_memb s1) = (None, m)"
      using memb.alloc_succeeds_iff [of "sch_link_memb s1"]
      by (metis not_gr_zero option.exhaust prod.exhaust)
    have "sched_view (tsch_release_lock ?s2) = sched_view s" using \<open>s1 = s\<close> v2 by simp
    then show ?thesis
      unfolding if_not_P [OF False] add m by (intro exI [of _ "tsch_release_lock ?s2"]) simp
  next
    case True
    then have "0 < memb_numfree (sch_link_memb s1)" using A by blast
    then obtain l m where m: "memb_alloc (sch_link_memb s1) = (Some l, m)"
      using memb.alloc_succeeds_iff [of "sch_link_memb s1"] by blast
    define s3 where "s3 = tsch_release_lock
        (tsch_schedule_install_link i l opts ty addr ts ch (?s2\<lparr>sch_link_memb := m\<rparr>))"
    define s' where "s' = tsch_schedule_count_link env l s3"
    have r: "tsch_schedule_add_link env (Some i) opts ty addr ts ch True s = (Some l, s')"
      unfolding add m s'_def s3_def by simp
    have cb3: "no_nbr_callbacks s3"
      using cb A by (simp add: s3_def no_nbr_callbacks_def tsch_schedule_install_link_def upd_slotframe_def)
    note cv = count_link_view [OF cb3, of env l, folded s'_def]
    have unl': "\<not> tsch_locked s'" by (rule cv(3)) (simp add: s3_def)
    have v: "sched_view s' = sched_view (tsch_schedule_install_link i l opts ty addr ts ch (s1\<lparr>sch_link_memb := m\<rparr>))"
      unfolding cv(1) s3_def sched_view_lower(2)
      by (simp add: tsch_schedule_install_link_def upd_slotframe_def sched_view_def)
    have wf1: "sched_wf s1" and i1: "i \<in> set (sch_slotframe_list s1)"
      and ts1: "ts < div_val (sf_size (sch_slotframes s1 ! i))"
      using A i ts by (auto simp: same_slotframe_def)
    note I = install_link_spec [OF wf1 i1 ts1 m v]
    have sl1: "sf_links s1 i = (case ?old of None \<Rightarrow> sf_links s i | Some k \<Rightarrow> remove1 k (sf_links s i))"
      and sl1': "\<And>j. j \<noteq> i \<Longrightarrow> sf_links s1 j = sf_links s j" and lk1: "sch_links s1 = sch_links s"
      using A by auto
    have nl: "l \<notin> set (sf_links s1 i)" using I(2) wf1 i1 by (auto simp: sched_wf_def)
    have di: "distinct (sf_links s i)" using wf i by (simp add: sched_wf_def slotframe_ok_def)
    have noold: "link_timeslot (sch_links s ! k) \<noteq> ts" if "k \<in> set (sf_links s1 i)" for k
    proof (cases ?old)
      case None
      with that sl1 find_NoneD show ?thesis by (fastforce simp: get_link_by_timeslot_eq [OF unl])
    next
      case (Some o')
      then have o: "o' \<in> set (sf_links s i)" "link_timeslot (sch_links s ! o') = ts"
        using find_SomeD by (fastforce simp: get_link_by_timeslot_eq [OF unl])+
      have "k \<in> set (sf_links s i)" "k \<noteq> o'" using that sl1 Some di by auto
      with o one show ?thesis by (auto simp: one_per_timeslot_def inj_on_def)
    qed
    have sub: "set (sf_links s1 i) \<subseteq> set (sf_links s i)"
      using sl1 by (auto split: option.splits dest: subsetD [OF set_remove1_subset])
    have same_ts: "link_timeslot (sch_links s' ! k) = link_timeslot (sch_links s ! k)"
      if "k \<in> set (sf_links s1 i)" for k
      using that nl I(8) [of k] lk1 by metis
    have lts: "link_timeslot (sch_links s' ! l) = ts" by (simp add: I(7))
    have look: "tsch_schedule_get_link_by_timeslot (Some i) t s' =
        (case find (\<lambda>k. link_timeslot (sch_links s ! k) = t) (sf_links s1 i) of
           None \<Rightarrow> if t = ts then Some l else None | Some k \<Rightarrow> Some k)" for t
    proof -
      have sl': "sf_links s' i = sf_links s1 i @ [l]" by (simp add: I(6))
      have "find (\<lambda>k. link_timeslot (sch_links s' ! k) = t) (sf_links s1 i) =
          find (\<lambda>k. link_timeslot (sch_links s ! k) = t) (sf_links s1 i)"
        by (rule find_cong_set) (simp add: same_ts)
      then show ?thesis
        by (simp add: get_link_by_timeslot_eq [OF unl'] sl' find_append lts split: option.split)
    qed
    have g1: "tsch_schedule_get_link_by_timeslot (Some i) ts s' = Some l"
    proof -
      have "find (\<lambda>k. link_timeslot (sch_links s ! k) = ts) (sf_links s1 i) = None"
        using noold by (simp add: find_None_iff)
      then show ?thesis by (simp add: look)
    qed
    have g2: "tsch_schedule_get_link_by_timeslot (Some i) t s' = tsch_schedule_get_link_by_timeslot (Some i) t s"
      if "t \<noteq> ts" for t
    proof -
      have "find (\<lambda>k. link_timeslot (sch_links s ! k) = t) (sf_links s1 i) =
          find (\<lambda>k. link_timeslot (sch_links s ! k) = t) (sf_links s i)"
      proof (cases ?old)
        case None
        then show ?thesis using sl1 by simp
      next
        case (Some o')
        then have "link_timeslot (sch_links s ! o') = ts"
          using find_SomeD by (fastforce simp: get_link_by_timeslot_eq [OF unl])
        with that have "\<not> link_timeslot (sch_links s ! o') = t" by simp
        then show ?thesis using sl1 Some by (simp add: find_remove1)
      qed
      then show ?thesis using that
        by (simp add: look get_link_by_timeslot_eq [OF unl] split: option.split)
    qed
    have one': "one_per_timeslot s' i"
    proof -
      let ?f = "\<lambda>k. link_timeslot (sch_links s' ! k)"
      have "inj_on (\<lambda>k. link_timeslot (sch_links s ! k)) (set (sf_links s1 i))"
        using inj_on_subset [OF one [unfolded one_per_timeslot_def] sub] .
      moreover have "inj_on ?f (set (sf_links s1 i)) =
          inj_on (\<lambda>k. link_timeslot (sch_links s ! k)) (set (sf_links s1 i))"
        by (rule inj_on_cong) (rule same_ts)
      ultimately have "inj_on ?f (set (sf_links s1 i))" by simp
      moreover have "?f l \<notin> ?f ` (set (sf_links s1 i) - {l})"
      proof
        assume "?f l \<in> ?f ` (set (sf_links s1 i) - {l})"
        then obtain k where k: "k \<in> set (sf_links s1 i)" "?f k = ts" unfolding lts by auto
        with noold [OF k(1)] same_ts [OF k(1)] show False by simp
      qed
      moreover have "set (sf_links s' i) = insert l (set (sf_links s1 i))" by (simp add: I(6))
      ultimately show ?thesis by (simp only: one_per_timeslot_def inj_on_insert simp_thms)
    qed
    have p: "link_options (sch_links s' ! l) = opts" "link_channel_offset (sch_links s' ! l) = ch"
      "link_addr (sch_links s' ! l) = (case addr of None \<Rightarrow> 0 | Some a \<Rightarrow> a)"
      by (simp_all add: I(7))
    have q: "\<forall>t. t \<noteq> ts \<longrightarrow> tsch_schedule_get_link_by_timeslot (Some i) t s' =
        tsch_schedule_get_link_by_timeslot (Some i) t s"
      "\<forall>j. j \<noteq> i \<longrightarrow> sf_links s' j = sf_links s j" "\<forall>k. k \<noteq> l \<longrightarrow> sch_links s' ! k = sch_links s ! k"
      "sch_slotframe_list s' = sch_slotframe_list s"
      using g2 A by (simp_all add: I(4,6,8) sl1' lk1)
    have ss: "\<forall>j. same_slotframe (sch_slotframes s' ! j) (sch_slotframes s ! j)"
      using A I(5) by (simp add: same_slotframe_def)
    show ?thesis
      unfolding if_P [OF True]
      by (rule exI [of _ l], rule exI [of _ s']) (use r I(1) unl' cv(2) one' g1 p q ss in blast)
  qed
qed

text \<open>
  C37: adding a cell.  In a well-formed, unlocked schedule with at most one link per timeslot in the
  slotframe, \<open>tsch_schedule_add_link\<close> with \<open>do_remove\<close> succeeds exactly when the timeslot is
  already used in the slotframe or a link structure is free.  Then looking up the timeslot finds
  the new link, with the given options, address and channel offset; the lookup of every other
  timeslot of the slotframe is as before, other slotframes keep their links, no other link
  structure changes, and the schedule stays well-formed with one link per timeslot.  Otherwise it
  returns NULL with the schedule unchanged.  (The neighbour tables have no callbacks.)
\<close>

theorem tsch_add_link_spec:
  fixes s :: "'a tsch_sched_state_scheme"
  assumes wf: "sched_wf s" and unl: "\<not> tsch_locked s" and cb: "no_nbr_callbacks s"
    and i: "i \<in> set (sch_slotframe_list s)" and one: "one_per_timeslot s i"
    and ts: "ts < div_val (sf_size (sch_slotframes s ! i))"
  shows "if tsch_schedule_get_link_by_timeslot (Some i) ts s \<noteq> None \<or> 0 < memb_numfree (sch_link_memb s)
    then \<exists>l s'. tsch_schedule_add_link env (Some i) opts ty addr ts ch True s = (Some l, s') \<and>
      sched_wf s' \<and> \<not> tsch_locked s' \<and> no_nbr_callbacks s' \<and> one_per_timeslot s' i \<and>
      tsch_schedule_get_link_by_timeslot (Some i) ts s' = Some l \<and>
      link_options (sch_links s' ! l) = opts \<and> link_channel_offset (sch_links s' ! l) = ch \<and>
      link_addr (sch_links s' ! l) = (case addr of None \<Rightarrow> 0 | Some a \<Rightarrow> a) \<and>
      (\<forall>t. t \<noteq> ts \<longrightarrow> tsch_schedule_get_link_by_timeslot (Some i) t s' =
                      tsch_schedule_get_link_by_timeslot (Some i) t s) \<and>
      (\<forall>j. j \<noteq> i \<longrightarrow> sf_links s' j = sf_links s j) \<and>
      (\<forall>k. k \<noteq> l \<longrightarrow> sch_links s' ! k = sch_links s ! k) \<and>
      sch_slotframe_list s' = sch_slotframe_list s \<and>
      (\<forall>j. same_slotframe (sch_slotframes s' ! j) (sch_slotframes s ! j))
    else \<exists>s'. tsch_schedule_add_link env (Some i) opts ty addr ts ch True s = (None, s') \<and>
      sched_view s' = sched_view s \<and> \<not> tsch_locked s'"
  using assms by (rule add_link_effect)

theorem tsch_add_link_spec_witness:
  "\<exists>l s'. tsch_schedule_add_link queue_env_default (Some 0) 2 LINK_TYPE_NORMAL (Some 7) 3 2 True sched_example =
     (Some l, s') \<and> sched_wf s' \<and> tsch_schedule_get_link_by_timeslot (Some 0) 3 s' = Some l \<and>
     link_channel_offset (sch_links s' ! l) = 2 \<and>
     tsch_schedule_get_link_by_timeslot (Some 0) 9 s' = Some 1"
proof -
  have i: "0 \<in> set (sch_slotframe_list sched_example)" "no_nbr_callbacks sched_example"
    "one_per_timeslot sched_example 0" "3 < div_val (sf_size (sch_slotframes sched_example ! 0))"
    "0 < memb_numfree (sch_link_memb sched_example)"
    "tsch_schedule_get_link_by_timeslot (Some 0) 9 sched_example = Some 1"
    by (simp_all add: sched_example_def tsch_queue_state.extend_def no_nbr_callbacks_def tsch_example_def
        one_per_timeslot_def sf_links_def TSCH_ASN_DIVISOR_INIT_def tsch_schedule_get_link_by_timeslot_def
        tsch_is_locked_def)
  from tsch_add_link_spec [OF sched_example_wf i(2,1,3,4), of queue_env_default 2 LINK_TYPE_NORMAL "Some 7" 2] i(5,6)
  show ?thesis by auto
qed

subsection \<open>The whole schedule\<close>

text \<open>
  \<open>tsch_schedule_remove_all_slotframes\<close> ends with an empty schedule: every slotframe and every
  link is back in its pool.
\<close>

lemma remove_all_slotframes_spec:
  fixes s :: "'a tsch_sched_state_scheme"
  assumes "sched_wf s" and "\<not> tsch_locked s"
  shows "\<exists>s'. tsch_schedule_remove_all_slotframes s = Some (1, s') \<and> sched_wf s' \<and> \<not> tsch_locked s' \<and>
    nt_callback s' = nt_callback s \<and> sch_slotframe_list s' = [] \<and>
    memb_blocks (sch_slotframe_memb s') = {} \<and> memb_blocks (sch_link_memb s') = {} \<and>
    length (sch_link_memb s') = length (sch_link_memb s) \<and>
    length (sch_slotframe_memb s') = length (sch_slotframe_memb s)"
  using assms
proof (induction "length (sch_slotframe_list s)" arbitrary: s)
  case 0
  then have e: "sch_slotframe_list s = []" by simp
  with 0 show ?case
    by (subst tsch_schedule_remove_all_slotframes.simps) (simp add: sched_wf_def)
next
  case (Suc k)
  then obtain i is' where ii: "sch_slotframe_list s = i # is'" by (cases "sch_slotframe_list s") auto
  have i: "i \<in> set (sch_slotframe_list s)" using ii by simp
  from tsch_remove_slotframe_spec [OF Suc.prems i] obtain s1 where s1:
    "tsch_schedule_remove_slotframe (Some i) s = Some (1, s1)" "sched_wf s1" "\<not> tsch_locked s1"
    "nt_callback s1 = nt_callback s" "sch_slotframe_list s1 = remove1 i (sch_slotframe_list s)"
    "length (sch_link_memb s1) = length (sch_link_memb s)"
    "length (sch_slotframe_memb s1) = length (sch_slotframe_memb s)"
    by blast
  have step: "tsch_schedule_remove_all_slotframes s = tsch_schedule_remove_all_slotframes s1"
    using ii s1(1) by (subst tsch_schedule_remove_all_slotframes.simps) simp
  have "k = length (sch_slotframe_list s1)" using Suc.hyps(2) ii s1(5) by simp
  from Suc.hyps(1) [OF this s1(2,3)] show ?case unfolding step using s1(4,6,7) by simp
qed

text \<open>
  the minimal schedule.  In any well-formed, unlocked schedule with room for at least one
  slotframe and one link, \<open>tsch_schedule_create_minimal\<close> ends; afterwards the schedule consists of
  exactly one slotframe, with handle 0 and the default length of 101 slots, holding exactly one
  link: timeslot 0, channel offset 0, the broadcast address, and the options transmit, receive,
  shared and time keeping.
\<close>

theorem tsch_create_minimal_spec:
  fixes s :: "'a tsch_sched_state_scheme"
  assumes wf: "sched_wf s" and unl: "\<not> tsch_locked s" and cb: "no_nbr_callbacks s"
    and pools: "0 < length (sch_slotframe_memb s)" "0 < length (sch_link_memb s)"
  shows "\<exists>s' i l. tsch_schedule_create_minimal env s = Some s' \<and> sched_wf s' \<and>
    sch_slotframe_list s' = [i] \<and> sf_handle (sch_slotframes s' ! i) = 0 \<and>
    div_val (sf_size (sch_slotframes s' ! i)) = 101 \<and> sf_links s' i = [l] \<and>
    link_timeslot (sch_links s' ! l) = 0 \<and> link_channel_offset (sch_links s' ! l) = 0 \<and>
    link_addr (sch_links s' ! l) = tsch_broadcast_address \<and> link_options (sch_links s' ! l) = 15 \<and>
    memb_blocks (sch_link_memb s') = {l}"
proof -
  from remove_all_slotframes_spec [OF wf unl] obtain s1 where s1:
    "tsch_schedule_remove_all_slotframes s = Some (1, s1)" "sched_wf s1" "\<not> tsch_locked s1"
    "nt_callback s1 = nt_callback s" "sch_slotframe_list s1 = []"
    "memb_blocks (sch_slotframe_memb s1) = {}" "memb_blocks (sch_link_memb s1) = {}"
    "length (sch_link_memb s1) = length (sch_link_memb s)"
    "length (sch_slotframe_memb s1) = length (sch_slotframe_memb s)"
    by blast
  have fr: "memb_numfree (sch_slotframe_memb s1) \<noteq> 0" "0 < memb_numfree (sch_link_memb s1)"
    using memb_numfree_card [of "sch_slotframe_memb s1"] memb_numfree_card [of "sch_link_memb s1"]
      s1(6-9) pools by simp_all
  have z: "TSCH_SCHEDULE_DEFAULT_LENGTH \<noteq> 0" by (simp add: TSCH_SCHEDULE_DEFAULT_LENGTH_def)
  have nn: "\<forall>i \<in> set (sch_slotframe_list s1). sf_handle (sch_slotframes s1 ! i) \<noteq> 0" by (simp add: s1(5))
  from add_slotframe_spec [OF s1(2,3) z nn fr(1)] obtain i s2 where s2:
    "tsch_schedule_add_slotframe 0 TSCH_SCHEDULE_DEFAULT_LENGTH s1 = (Some i, s2)"
    "sched_wf s2" "\<not> tsch_locked s2" "nt_callback s2 = nt_callback s1"
    "sch_slotframe_list s2 = sch_slotframe_list s1 @ [i]" "sf_links s2 i = []"
    "sf_handle (sch_slotframes s2 ! i) = 0"
    "sf_size (sch_slotframes s2 ! i) = TSCH_ASN_DIVISOR_INIT TSCH_SCHEDULE_DEFAULT_LENGTH"
    "sch_link_memb s2 = sch_link_memb s1"
    by blast
  have dv: "div_val (sf_size (sch_slotframes s2 ! i)) = 101"
    by (simp add: s2(8) TSCH_ASN_DIVISOR_INIT_def TSCH_SCHEDULE_DEFAULT_LENGTH_def)
  have i2: "i \<in> set (sch_slotframe_list s2)" by (simp add: s2(5))
  obtain l m where m: "memb_alloc (sch_link_memb s2) = (Some l, m)"
    using memb.alloc_succeeds_iff [of "sch_link_memb s2"] fr(2) s2(9) by auto
  have g: "tsch_schedule_get_link_by_timeslot (Some i) 0 s2 = None"
    using s2(6) by (simp add: get_link_by_timeslot_eq [OF s2(3)])
  let ?opts = "LINK_OPTION_RX OR LINK_OPTION_TX OR LINK_OPTION_SHARED OR LINK_OPTION_TIME_KEEPING"
  define s3 where "s3 = tsch_release_lock (tsch_schedule_install_link i l ?opts LINK_TYPE_ADVERTISING
      (Some tsch_broadcast_address) 0 0 (s2\<lparr>tsch_locked := True, sch_link_memb := m\<rparr>))"
  define s' where "s' = tsch_schedule_count_link env l s3"
  have add: "tsch_schedule_add_link env (Some i) ?opts LINK_TYPE_ADVERTISING (Some tsch_broadcast_address) 0 0 True s2
      = (Some l, s')"
    using s2(3) g m dv by (simp add: tsch_schedule_add_link_def tsch_get_lock_def s'_def s3_def)
  have r: "tsch_schedule_create_minimal env s = Some s'"
    by (simp add: tsch_schedule_create_minimal_def s1(1) s2(1) add)
  have cb3: "no_nbr_callbacks s3"
    using cb s1(4) s2(4)
    by (simp add: s3_def no_nbr_callbacks_def tsch_schedule_install_link_def upd_slotframe_def)
  have v: "sched_view s' = sched_view (tsch_schedule_install_link i l ?opts LINK_TYPE_ADVERTISING
      (Some tsch_broadcast_address) 0 0 (s2\<lparr>sch_link_memb := m\<rparr>))"
    unfolding s'_def count_link_view(1) [OF cb3]
    unfolding s3_def sched_view_lower(2)
    by (simp add: tsch_schedule_install_link_def upd_slotframe_def sched_view_def)
  have ts: "0 < div_val (sf_size (sch_slotframes s2 ! i))" by (simp add: dv)
  note I = install_link_spec [OF s2(2) i2 ts m v]
  have "?opts = 15"
    by (simp add: LINK_OPTION_RX_def LINK_OPTION_TX_def LINK_OPTION_SHARED_def LINK_OPTION_TIME_KEEPING_def)
  then show ?thesis
    using r I(1,3,4) I(5) [of i] I(6) [of i] I(7) s1(5,7) s2(5-7,9) dv
    by (intro exI [of _ s'] exI [of _ i] exI [of _ l]) (simp add: same_slotframe_def)
qed

theorem tsch_create_minimal_spec_witness:
  "\<exists>s' i. tsch_schedule_create_minimal queue_env_default sched_example = Some s' \<and>
     sch_slotframe_list s' = [i] \<and> sf_handle (sch_slotframes s' ! i) = 0"
proof -
  have p: "0 < length (sch_slotframe_memb sched_example)" "0 < length (sch_link_memb sched_example)"
    "no_nbr_callbacks sched_example"
    by (simp_all add: sched_example_def tsch_queue_state.extend_def no_nbr_callbacks_def tsch_example_def)
  from tsch_create_minimal_spec [OF sched_example_wf p(3,1,2), of queue_env_default]
  show ?thesis by blast
qed

subsection \<open>Removing a link by its offsets\<close>

definition at_offsets :: "'a tsch_sched_state_scheme \<Rightarrow> u16 \<Rightarrow> u16 \<Rightarrow> nat \<Rightarrow> bool" where
  "at_offsets s ts ch l \<longleftrightarrow> link_timeslot (sch_links s ! l) = ts \<and> link_channel_offset (sch_links s ! l) = ch"

text \<open>One step of the loop over the links, and the loop over part of the list.\<close>

definition remove_at_offsets ::
  "nat \<Rightarrow> u16 \<Rightarrow> u16 \<Rightarrow> nat \<Rightarrow> int \<times> 'a tsch_sched_state_scheme \<Rightarrow> int \<times> 'a tsch_sched_state_scheme" where
  "remove_at_offsets i ts ch l rs =
     (if at_offsets (snd rs) ts ch l
      then (if fst (tsch_schedule_remove_link (Some i) (Some l) (snd rs)) \<noteq> 0 then 1 else fst rs,
            snd (tsch_schedule_remove_link (Some i) (Some l) (snd rs)))
      else rs)"

lemma remove_link_by_offsets_eq:
  assumes "\<not> tsch_locked s"
  shows "tsch_schedule_remove_link_by_offsets (Some i) ts ch s = fold (remove_at_offsets i ts ch) (sf_links s i) (0, s)"
proof -
  have f: "(\<lambda>l (ret, s1). if link_timeslot (sch_links s1 ! l) = ts \<and> link_channel_offset (sch_links s1 ! l) = ch
      then (let (r, s2) = tsch_schedule_remove_link (Some i) (Some l) s1 in (if r \<noteq> 0 then 1 else ret, s2))
      else (ret, s1)) = remove_at_offsets i ts ch"
    by (simp add: fun_eq_iff remove_at_offsets_def at_offsets_def split: prod.split)
  show ?thesis
    using assms unfolding tsch_schedule_remove_link_by_offsets_def tsch_is_locked_def sf_links_def f by simp
qed

definition kept_links :: "'a tsch_sched_state_scheme \<Rightarrow> nat \<Rightarrow> nat list \<Rightarrow> 'a tsch_sched_state_scheme \<Rightarrow> bool" where
  "kept_links s i ls s' \<longleftrightarrow> sched_wf s' \<and> \<not> tsch_locked s' \<and> nt_callback s' = nt_callback s \<and>
     sch_links s' = sch_links s \<and> sch_slotframe_list s' = sch_slotframe_list s \<and>
     (\<forall>j. same_slotframe (sch_slotframes s' ! j) (sch_slotframes s ! j)) \<and>
     (\<forall>j. sf_links s' j = (if j = i then ls else sf_links s j))"

lemma fold_remove_at_offsets:
  fixes s :: "'a tsch_sched_state_scheme"
  assumes "sched_wf s" and "\<not> tsch_locked s" and "i \<in> set (sch_slotframe_list s)"
    and "distinct ls" and "set ls \<subseteq> set (sf_links s i)"
  shows "\<exists>s'. fold (remove_at_offsets i ts ch) ls (ret, s) =
      (if \<exists>l\<in>set ls. at_offsets s ts ch l then 1 else ret, s') \<and>
    kept_links s i (filter (\<lambda>l. \<not> (l \<in> set ls \<and> at_offsets s ts ch l)) (sf_links s i)) s'"
  using assms
proof (induction ls arbitrary: s ret)
  case Nil
  then show ?case by (simp add: kept_links_def same_slotframe_def)
next
  case (Cons l ls)
  show ?case
  proof (cases "at_offsets s ts ch l")
    case False
    then have "remove_at_offsets i ts ch l (ret, s) = (ret, s)" by (auto simp: remove_at_offsets_def)
    moreover have "filter (\<lambda>k. \<not> (k \<in> set (l # ls) \<and> at_offsets s ts ch k)) (sf_links s i) =
        filter (\<lambda>k. \<not> (k \<in> set ls \<and> at_offsets s ts ch k)) (sf_links s i)"
      by (rule filter_cong [OF refl]) (use False in auto)
    ultimately show ?thesis using Cons.IH [of s ret] Cons.prems False by simp
  next
    case True
    have li: "l \<in> set (sf_links s i)" using Cons.prems(5) by simp
    from remove_link_spec [OF Cons.prems(1-3) li] obtain s1 where s1:
      "tsch_schedule_remove_link (Some i) (Some l) s = (1, s1)" "sched_wf s1" "\<not> tsch_locked s1"
      "nt_callback s1 = nt_callback s" "sch_links s1 = sch_links s" "sch_slotframe_list s1 = sch_slotframe_list s"
      "\<forall>j. same_slotframe (sch_slotframes s1 ! j) (sch_slotframes s ! j)"
      "\<forall>j. sf_links s1 j = (if j = i then remove1 l (sf_links s i) else sf_links s j)"
      by blast
    have di: "distinct (sf_links s i)" using Cons.prems(1,3) by (simp add: sched_wf_def slotframe_ok_def)
    have step: "remove_at_offsets i ts ch l (ret, s) = (1, s1)"
      using True s1(1) by (auto simp: remove_at_offsets_def)
    have rm: "remove1 l (sf_links s i) = filter (\<lambda>k. l \<noteq> k) (sf_links s i)"
      using di by (simp add: distinct_remove1_removeAll removeAll_filter_not_eq)
    have "set ls \<subseteq> set (sf_links s1 i)" using Cons.prems(4,5) s1(8) rm by auto
    from Cons.IH [OF s1(2,3) _ _ this, of 1] obtain s' where s':
      "fold (remove_at_offsets i ts ch) ls (1, s1) = (1, s')"
      "kept_links s1 i (filter (\<lambda>k. \<not> (k \<in> set ls \<and> at_offsets s1 ts ch k)) (sf_links s1 i)) s'"
      using Cons.prems s1(6) by auto
    have fl: "filter (\<lambda>k. \<not> (k \<in> set ls \<and> at_offsets s1 ts ch k)) (sf_links s1 i) =
        filter (\<lambda>k. \<not> (k \<in> set (l # ls) \<and> at_offsets s ts ch k)) (sf_links s i)"
      using s1(5,8) True by (simp add: rm at_offsets_def) (rule filter_cong, auto)
    have "kept_links s i (filter (\<lambda>k. \<not> (k \<in> set (l # ls) \<and> at_offsets s ts ch k)) (sf_links s i)) s'"
      using s'(2) s1 unfolding kept_links_def fl same_slotframe_def by simp
    then show ?thesis using step s'(1) True by auto
  qed
qed

text \<open>
  Removing by offsets takes exactly the links at the timeslot and channel offset out of the
  slotframe, and reports whether there was one.
\<close>

lemma remove_link_by_offsets_spec:
  fixes s :: "'a tsch_sched_state_scheme"
  assumes wf: "sched_wf s" and "\<not> tsch_locked s" and i: "i \<in> set (sch_slotframe_list s)"
  shows "\<exists>s'. tsch_schedule_remove_link_by_offsets (Some i) ts ch s =
      (if tsch_schedule_get_link_by_offsets (Some i) ts ch s = None then 0 else 1, s') \<and>
    kept_links s i (filter (\<lambda>l. \<not> at_offsets s ts ch l) (sf_links s i)) s'"
proof -
  have d: "distinct (sf_links s i)" using wf i by (simp add: sched_wf_def slotframe_ok_def)
  have g: "tsch_schedule_get_link_by_offsets (Some i) ts ch s = None \<longleftrightarrow> \<not> (\<exists>l\<in>set (sf_links s i). at_offsets s ts ch l)"
    using assms(2) by (auto simp: at_offsets_def tsch_schedule_get_link_by_offsets_def tsch_is_locked_def sf_links_def find_None_iff)
  have f: "filter (\<lambda>l. \<not> (l \<in> set (sf_links s i) \<and> at_offsets s ts ch l)) (sf_links s i) =
      filter (\<lambda>l. \<not> at_offsets s ts ch l) (sf_links s i)"
    by (rule filter_cong) auto
  show ?thesis
    using fold_remove_at_offsets [OF assms d subset_refl, of ts ch 0]
    unfolding remove_link_by_offsets_eq [OF assms(2)] g f by auto
qed

end
