(* ===== verification/Sixp_Nbr.thy ===== *)
theory Sixp_Nbr
  imports Tsch_Schedule
begin

section \<open>6P neighbours\<close>

text \<open>
  Model of \<open>os/net/mac/tsch/sixtop/sixp-nbr.c\<close>: the table \<open>sixp_nbrs\<close> of the peers 6P has talked
  to, with the sequence number of the next request to each.  The number wraps from 255 to 1:
  0 is reserved for a new neighbour and for the time after a CLEAR transaction.
\<close>

record sixp_nbr =
  nbr_addr :: linkaddr
  nbr_next_seqno :: u8

record sixp_nbr_state = tsch_sched_state +
  sixp_nbr_items :: "sixp_nbr list"              \<comment> \<open>the items of \<open>sixp_nbrs\<close>\<close>

definition NBR_TABLE_REASON_SIXTOP :: nat where "NBR_TABLE_REASON_SIXTOP = 10"
definition SIXP_INITIAL_SEQUENCE_NUMBER :: u8 where "SIXP_INITIAL_SEQUENCE_NUMBER = 0"

definition sixp_nbrs :: "('a sixp_nbr_state_scheme) nbr_table" where
  "sixp_nbrs = \<lparr>tbl_id = 1, tbl_zero =
     (\<lambda>i s. s\<lparr>sixp_nbr_items := (sixp_nbr_items s)[i := \<lparr>nbr_addr = 0, nbr_next_seqno = 0\<rparr>]\<rparr>)\<rparr>"

definition upd_sixp_nbr ::
  "nat \<Rightarrow> (sixp_nbr \<Rightarrow> sixp_nbr) \<Rightarrow> 'a sixp_nbr_state_scheme \<Rightarrow> 'a sixp_nbr_state_scheme" where
  "upd_sixp_nbr i f s = s\<lparr>sixp_nbr_items := (sixp_nbr_items s)[i := f (sixp_nbr_items s ! i)]\<rparr>"

definition sixp_nbr_find :: "linkaddr option \<Rightarrow> 'a sixp_nbr_state_scheme \<Rightarrow> nat option" where
  "sixp_nbr_find addr s =
     (case addr of None \<Rightarrow> None | Some a \<Rightarrow> nbr_table_get_from_lladdr sixp_nbrs (Some a) s)"

definition sixp_nbr_alloc ::
  "('a sixp_nbr_state_scheme) nbr_env \<Rightarrow> linkaddr option \<Rightarrow> 'a sixp_nbr_state_scheme \<Rightarrow>
   nat option \<times> 'a sixp_nbr_state_scheme" where
  "sixp_nbr_alloc env addr s =
     (case addr of
        None \<Rightarrow> (None, s)
      | Some a \<Rightarrow>
          if sixp_nbr_find addr s \<noteq> None then (None, s)
          else case nbr_table_add_lladdr env sixp_nbrs addr NBR_TABLE_REASON_SIXTOP s of
            (None, s1) \<Rightarrow> (None, s1)
          | (Some i, s1) \<Rightarrow>
              (Some i, upd_sixp_nbr i (\<lambda>n. n\<lparr>nbr_addr := a, nbr_next_seqno := SIXP_INITIAL_SEQUENCE_NUMBER\<rparr>) s1))"

definition sixp_nbr_free :: "nat option \<Rightarrow> 'a sixp_nbr_state_scheme \<Rightarrow> 'a sixp_nbr_state_scheme" where
  "sixp_nbr_free nbr s =
     (if nbr \<noteq> None then snd (nbr_table_remove sixp_nbrs nbr s) else s)"

definition sixp_nbr_get_next_seqno :: "nat option \<Rightarrow> 'a sixp_nbr_state_scheme \<Rightarrow> int" where
  "sixp_nbr_get_next_seqno nbr s =
     (case nbr of None \<Rightarrow> -1 | Some i \<Rightarrow> uint (nbr_next_seqno (sixp_nbr_items s ! i)))"

definition sixp_nbr_set_next_seqno ::
  "nat option \<Rightarrow> u16 \<Rightarrow> 'a sixp_nbr_state_scheme \<Rightarrow> int \<times> 'a sixp_nbr_state_scheme" where
  "sixp_nbr_set_next_seqno nbr seqno s =
     (case nbr of
        None \<Rightarrow> (-1, s)
      | Some i \<Rightarrow> (0, upd_sixp_nbr i (\<lambda>n. n\<lparr>nbr_next_seqno := ucast seqno\<rparr>) s))"

definition sixp_nbr_reset_next_seqno ::
  "nat option \<Rightarrow> 'a sixp_nbr_state_scheme \<Rightarrow> int \<times> 'a sixp_nbr_state_scheme" where
  "sixp_nbr_reset_next_seqno nbr s =
     (case nbr of
        None \<Rightarrow> (-1, s)
      | Some i \<Rightarrow> (0, upd_sixp_nbr i (\<lambda>n. n\<lparr>nbr_next_seqno := 0\<rparr>) s))"

definition sixp_nbr_increment_next_seqno ::
  "nat option \<Rightarrow> 'a sixp_nbr_state_scheme \<Rightarrow> int \<times> 'a sixp_nbr_state_scheme" where
  "sixp_nbr_increment_next_seqno nbr s =
     (case nbr of
        None \<Rightarrow> (-1, s)
      | Some i \<Rightarrow>
          (0, upd_sixp_nbr i (\<lambda>n.
             let n1 = n\<lparr>nbr_next_seqno := nbr_next_seqno n + 1\<rparr>
             in if nbr_next_seqno n1 = 0 then n1\<lparr>nbr_next_seqno := 1\<rparr> else n1) s))"

text \<open>The loop of \<open>sixp_nbr_init\<close> over the table; freeing only clears table bits.\<close>

fun sixp_nbr_free_all :: "nat list \<Rightarrow> 'a sixp_nbr_state_scheme \<Rightarrow> 'a sixp_nbr_state_scheme" where
  "sixp_nbr_free_all [] s = s"
| "sixp_nbr_free_all (i # is) s = sixp_nbr_free_all is (sixp_nbr_free (Some i) s)"

definition sixp_nbr_init :: "'a sixp_nbr_state_scheme \<Rightarrow> int \<times> 'a sixp_nbr_state_scheme" where
  "sixp_nbr_init s =
     (if \<not> nbr_table_is_registered (tbl_id (sixp_nbrs :: ('a sixp_nbr_state_scheme) nbr_table)) s
      then (0, snd (nbr_table_register (tbl_id (sixp_nbrs :: ('a sixp_nbr_state_scheme) nbr_table)) False s))
      else (0, sixp_nbr_free_all (nbr_table_items sixp_nbrs s) s))"

subsection \<open>Sequence numbers\<close>

text \<open>The number after \<open>k\<close> increments of \<open>x\<close>: it runs through 1 to 255.\<close>

definition seqno_after :: "nat \<Rightarrow> nat \<Rightarrow> nat" where
  "seqno_after x k = (if k = 0 then x else (x + k - 1) mod 255 + 1)"

lemma increment_next_seqno_value:
  assumes "i < length (sixp_nbr_items s)"
  shows "unat (nbr_next_seqno (sixp_nbr_items (snd (sixp_nbr_increment_next_seqno (Some i) s)) ! i)) =
    seqno_after (unat (nbr_next_seqno (sixp_nbr_items s ! i))) 1"
proof -
  let ?x = "nbr_next_seqno (sixp_nbr_items s ! i)"
  have e: "nbr_next_seqno (sixp_nbr_items (snd (sixp_nbr_increment_next_seqno (Some i) s)) ! i) =
      (if ?x + 1 = 0 then 1 else ?x + 1)"
    using assms by (simp add: sixp_nbr_increment_next_seqno_def upd_sixp_nbr_def Let_def)
  have b: "unat ?x < 256" using unat_u8_less [of ?x] by simp
  have u: "unat (?x + 1) = (unat ?x + 1) mod 256" by (simp add: unat_word_ariths)
  have z: "?x + 1 = 0 \<longleftrightarrow> unat ?x = 255"
    using b u by (auto simp: word_unat_eq_iff mod_if split: if_splits)
  show ?thesis
  proof (cases "unat ?x = 255")
    case True
    then show ?thesis unfolding e using z by (simp add: seqno_after_def)
  next
    case False
    then have "unat (?x + 1) = unat ?x + 1" using u b by simp
    then show ?thesis unfolding e using z False b by (simp add: seqno_after_def)
  qed
qed

lemma increment_next_seqno_length [simp]:
  "length (sixp_nbr_items (snd (sixp_nbr_increment_next_seqno n s))) = length (sixp_nbr_items s)"
  by (simp add: sixp_nbr_increment_next_seqno_def upd_sixp_nbr_def split: option.split)

lemma seqno_after_Suc:
  assumes "x \<le> 255"
  shows "seqno_after (seqno_after x k) 1 = seqno_after x (Suc k)"
proof (cases k)
  case 0
  then show ?thesis by (simp add: seqno_after_def)
next
  case (Suc j)
  have "((x + j) mod 255 + 1) mod 255 = (x + j + 1) mod 255" by (rule mod_add_left_eq)
  then show ?thesis by (simp add: seqno_after_def Suc)
qed

text \<open>
  6P sequence numbers.  Incrementing the next sequence number of a neighbour \<open>k\<close> times gives,
  for \<open>k\<close> at least one, the number \<open>(x + k - 1) mod 255 + 1\<close>: it wraps from 255 to 1 and is
  never 0 again, so that 0 keeps its meaning of a fresh or cleared neighbour, and 255 successive
  requests all get different numbers.
\<close>

theorem sixp_seqno_cycle:
  assumes "i < length (sixp_nbr_items s)"
  shows "let x = unat (nbr_next_seqno (sixp_nbr_items s ! i));
             val = (\<lambda>k. unat (nbr_next_seqno (sixp_nbr_items
               (((\<lambda>t. snd (sixp_nbr_increment_next_seqno (Some i) t)) ^^ k) s) ! i)))
    in (\<forall>k. val k = seqno_after x k) \<and> (\<forall>k. 0 < k \<longrightarrow> val k \<noteq> 0) \<and>
       (\<forall>j k. 0 < j \<longrightarrow> j < k \<longrightarrow> k < j + 255 \<longrightarrow> val j \<noteq> val k)"
proof -
  let ?x = "unat (nbr_next_seqno (sixp_nbr_items s ! i))"
  let ?s = "\<lambda>k. ((\<lambda>t. snd (sixp_nbr_increment_next_seqno (Some i) t)) ^^ k) s"
  have xb: "?x \<le> 255" using unat_u8_less [of "nbr_next_seqno (sixp_nbr_items s ! i)"] by simp
  have l: "length (sixp_nbr_items (?s k)) = length (sixp_nbr_items s)" for k by (induction k) simp_all
  have v: "unat (nbr_next_seqno (sixp_nbr_items (?s k) ! i)) = seqno_after ?x k" for k
  proof (induction k)
    case 0
    then show ?case by (simp add: seqno_after_def)
  next
    case (Suc k)
    have "i < length (sixp_nbr_items (?s k))" using assms l by simp
    from increment_next_seqno_value [OF this] Suc seqno_after_Suc [OF xb] show ?case by simp
  qed
  have d: "seqno_after ?x j \<noteq> seqno_after ?x k" if "0 < j" "j < k" "k < j + 255" for j k
  proof
    assume "seqno_after ?x j = seqno_after ?x k"
    then have "(?x + j - 1) mod 255 = (?x + k - 1) mod 255" using that by (simp add: seqno_after_def)
    then have "255 dvd (?x + k - 1) - (?x + j - 1)" using that by (metis mod_eq_dvd_iff_nat diff_le_mono add_le_mono less_imp_le order_refl)
    then have "255 dvd k - j" using that by simp
    then show False using that by (auto dest: dvd_imp_le)
  qed
  show ?thesis unfolding Let_def v using d by (simp add: seqno_after_def)
qed

definition sixp_nbr_example :: sixp_nbr_state where
  "sixp_nbr_example = tsch_sched_state.extend
     (sched_example\<lparr>nt_used_map := [3, 0], nt_all_tables := Some 0 # Some 1 # replicate 6 None,
        nt_num_tables := 2, nt_index := (\<lambda>_. 0)(1 := 1)\<rparr>)
     \<lparr>sixp_nbr_items = [\<lparr>nbr_addr = 7, nbr_next_seqno = 254\<rparr>, \<lparr>nbr_addr = 0, nbr_next_seqno = 0\<rparr>]\<rparr>"

theorem sixp_seqno_cycle_witness:
  "unat (nbr_next_seqno (sixp_nbr_items
     (((\<lambda>t. snd (sixp_nbr_increment_next_seqno (Some 0) t)) ^^ 3) sixp_nbr_example) ! 0)) = 2"
proof -
  have i: "0 < length (sixp_nbr_items sixp_nbr_example)"
    "unat (nbr_next_seqno (sixp_nbr_items sixp_nbr_example ! 0)) = 254"
    by (simp_all add: sixp_nbr_example_def tsch_sched_state.extend_def)
  have "unat (nbr_next_seqno (sixp_nbr_items
     (((\<lambda>t. snd (sixp_nbr_increment_next_seqno (Some 0) t)) ^^ 3) sixp_nbr_example) ! 0)) = seqno_after 254 3"
    using sixp_seqno_cycle [OF i(1)] unfolding Let_def i(2) by blast
  then show ?thesis by (simp add: seqno_after_def)
qed

end
