(* ===== verification/Sixp_Trans.thy ===== *)
theory Sixp_Trans
  imports Sixp_Pkt Sixp_Nbr
begin

section \<open>6P transactions\<close>

text \<open>
  Model of \<open>os/net/mac/tsch/sixtop/sixp-trans.c\<close>: the pool \<open>trans_memb\<close> and the list
  \<open>trans_list\<close> of the running transactions, their state machine, their timers and their end.
  A transaction is the index of its block.  A transaction's ctimer is \<open>None\<close> when stopped, and
  otherwise says which of the two handlers it will call; \<open>trans_timer_expire\<close> is the call by the
  ctimer process.  The scheduling functions registered with \<open>sixtop_add_sf\<close> are pointers to the
  drivers of \<open>sx_sf\<close>; the drivers' handlers and the sent callbacks are parameters.  Following a
  NULL pointer to a driver is \<open>None\<close>.  The \<open>assert\<close>s that precede a check of the same
  condition are left out, since the check follows.
\<close>

datatype sixp_trans_state =
    SIXP_TRANS_STATE_UNAVAILABLE | SIXP_TRANS_STATE_INIT
  | SIXP_TRANS_STATE_REQUEST_SENDING | SIXP_TRANS_STATE_REQUEST_SENT
  | SIXP_TRANS_STATE_REQUEST_RECEIVED
  | SIXP_TRANS_STATE_RESPONSE_SENDING | SIXP_TRANS_STATE_RESPONSE_SENT
  | SIXP_TRANS_STATE_RESPONSE_RECEIVED
  | SIXP_TRANS_STATE_CONFIRMATION_SENDING | SIXP_TRANS_STATE_CONFIRMATION_SENT
  | SIXP_TRANS_STATE_CONFIRMATION_RECEIVED
  | SIXP_TRANS_STATE_TERMINATING | SIXP_TRANS_STATE_WAIT_FREE

datatype sixp_trans_mode =
  SIXP_TRANS_MODE_UNAVAILABLE | SIXP_TRANS_MODE_2_STEP | SIXP_TRANS_MODE_3_STEP

datatype sixp_output_status =
  SIXP_OUTPUT_STATUS_SUCCESS | SIXP_OUTPUT_STATUS_FAILURE | SIXP_OUTPUT_STATUS_ABORTED

datatype sixp_error =
    SIXP_ERROR_SCHEDULE_INCONSISTENCY | SIXP_ERROR_TX_AFTER_TRANSACTION_TERMINATION
  | SIXP_ERROR_INVALID_TRANS_STATE_TRANSITION | SIXP_ERROR_UNDEFINED

datatype trans_timer = TIMER_TIMEOUT nat | TIMER_PROCESS

record sixp_trans =
  tr_sf :: "nat option"
  tr_peer_addr :: linkaddr
  tr_seqno :: u8
  tr_cmd :: u8
  tr_state :: sixp_trans_state
  tr_mode :: sixp_trans_mode
  tr_cb_func :: "nat option"
  tr_cb_arg :: nat
  tr_cb_arg_len :: u16
  tr_timer :: "trans_timer option"

record sixp_state = sixp_nbr_state +
  trans_memb :: memb
  transs :: "sixp_trans list"                    \<comment> \<open>the blocks of \<open>trans_memb\<close>\<close>
  trans_list :: "nat list"
  scheduling_functions :: "nat option list"

text \<open>The drivers, the callbacks and the MAC layer that 6P calls.\<close>

record 's sixtop_sf =
  sf_sfid :: u8
  sf_timeout_interval :: nat
  sf_init :: "('s \<Rightarrow> 's ub) option"
  sf_timeout :: "(u8 \<Rightarrow> linkaddr \<Rightarrow> 's \<Rightarrow> 's ub) option"
  sf_error :: "(sixp_error \<Rightarrow> u8 \<Rightarrow> u8 \<Rightarrow> linkaddr \<Rightarrow> 's \<Rightarrow> 's ub) option"

record 's sixp_env =
  sx_queue :: "'s queue_env"
  sx_sf :: "nat \<Rightarrow> 's sixtop_sf"
  sx_sent_cb :: "nat \<Rightarrow> nat \<Rightarrow> u16 \<Rightarrow> linkaddr \<Rightarrow> sixp_output_status \<Rightarrow> 's \<Rightarrow> 's ub"
  sx_mac_send :: "nat option \<Rightarrow> 's \<Rightarrow> (u8 option \<times> 's) ub"
  sx_node_addr :: linkaddr

definition SIXTOP_MAX_SCHEDULING_FUNCTIONS :: nat where "SIXTOP_MAX_SCHEDULING_FUNCTIONS = 1"
definition SIXTOP_MAX_TRANSACTIONS :: nat where "SIXTOP_MAX_TRANSACTIONS = 1"

definition sixp_trans_zero :: sixp_trans where
  "sixp_trans_zero = \<lparr>tr_sf = None, tr_peer_addr = 0, tr_seqno = 0, tr_cmd = 0,
     tr_state = SIXP_TRANS_STATE_UNAVAILABLE, tr_mode = SIXP_TRANS_MODE_UNAVAILABLE,
     tr_cb_func = None, tr_cb_arg = 0, tr_cb_arg_len = 0, tr_timer = None\<rparr>"

definition upd_trans ::
  "nat \<Rightarrow> (sixp_trans \<Rightarrow> sixp_trans) \<Rightarrow> 'a sixp_state_scheme \<Rightarrow> 'a sixp_state_scheme" where
  "upd_trans i f s = s\<lparr>transs := (transs s)[i := f (transs s ! i)]\<rparr>"

subsection \<open>Scheduling functions\<close>

definition sixtop_find_sf ::
  "('a sixp_state_scheme) sixp_env \<Rightarrow> u8 \<Rightarrow> 'a sixp_state_scheme \<Rightarrow> nat option" where
  "sixtop_find_sf env sfid s =
     (case find (\<lambda>p. p \<noteq> None \<and> sf_sfid (sx_sf env (the p)) = sfid) (scheduling_functions s) of
        Some p \<Rightarrow> p
      | None \<Rightarrow> None)"

subsection \<open>Timers\<close>

definition start_trans_timer ::
  "('a sixp_state_scheme) sixp_env \<Rightarrow> nat \<Rightarrow> 'a sixp_state_scheme \<Rightarrow> 'a sixp_state_scheme ub" where
  "start_trans_timer env i s =
     (case tr_sf (transs s ! i) of
        None \<Rightarrow> None
      | Some f \<Rightarrow>
          Some (upd_trans i (\<lambda>t. t\<lparr>tr_timer := Some (TIMER_TIMEOUT (sf_timeout_interval (sx_sf env f)))\<rparr>) s))"

definition schedule_trans_process :: "nat option \<Rightarrow> 'a sixp_state_scheme \<Rightarrow> 'a sixp_state_scheme" where
  "schedule_trans_process trp s =
     (case trp of None \<Rightarrow> s | Some i \<Rightarrow> upd_trans i (\<lambda>t. t\<lparr>tr_timer := Some TIMER_PROCESS\<rparr>) s)"

definition stop_trans_timer :: "nat \<Rightarrow> 'a sixp_state_scheme \<Rightarrow> 'a sixp_state_scheme" where
  "stop_trans_timer i s = upd_trans i (\<lambda>t. t\<lparr>tr_timer := None\<rparr>) s"

subsection \<open>Accessors\<close>

definition sixp_trans_get_sf :: "nat option \<Rightarrow> 'a sixp_state_scheme \<Rightarrow> nat option" where
  "sixp_trans_get_sf trp s = (case trp of None \<Rightarrow> None | Some i \<Rightarrow> tr_sf (transs s ! i))"

definition sixp_trans_get_cmd :: "nat option \<Rightarrow> 'a sixp_state_scheme \<Rightarrow> u8" where
  "sixp_trans_get_cmd trp s =
     (case trp of None \<Rightarrow> SIXP_PKT_CMD_UNAVAILABLE | Some i \<Rightarrow> tr_cmd (transs s ! i))"

definition sixp_trans_get_state :: "nat option \<Rightarrow> 'a sixp_state_scheme \<Rightarrow> sixp_trans_state" where
  "sixp_trans_get_state trp s =
     (case trp of None \<Rightarrow> SIXP_TRANS_STATE_UNAVAILABLE | Some i \<Rightarrow> tr_state (transs s ! i))"

definition sixp_trans_get_seqno :: "nat option \<Rightarrow> 'a sixp_state_scheme \<Rightarrow> int" where
  "sixp_trans_get_seqno trp s =
     (case trp of None \<Rightarrow> -1 | Some i \<Rightarrow> uint (tr_seqno (transs s ! i)))"

definition sixp_trans_get_mode :: "nat option \<Rightarrow> 'a sixp_state_scheme \<Rightarrow> sixp_trans_mode" where
  "sixp_trans_get_mode trp s =
     (case trp of None \<Rightarrow> SIXP_TRANS_MODE_UNAVAILABLE | Some i \<Rightarrow> tr_mode (transs s ! i))"

definition sixp_trans_get_peer_addr :: "nat option \<Rightarrow> 'a sixp_state_scheme \<Rightarrow> linkaddr option" where
  "sixp_trans_get_peer_addr trp s =
     (case trp of None \<Rightarrow> None | Some i \<Rightarrow> Some (tr_peer_addr (transs s ! i)))"

definition sixp_trans_invoke_callback ::
  "('a sixp_state_scheme) sixp_env \<Rightarrow> nat option \<Rightarrow> sixp_output_status \<Rightarrow> 'a sixp_state_scheme \<Rightarrow>
   'a sixp_state_scheme ub" where
  "sixp_trans_invoke_callback env trp status s =
     (case trp of
        None \<Rightarrow> Some s
      | Some i \<Rightarrow>
          let t = transs s ! i
          in case tr_cb_func t of
               None \<Rightarrow> Some s
             | Some func \<Rightarrow>
                 sx_sent_cb env func (tr_cb_arg t) (tr_cb_arg_len t) (tr_peer_addr t) status s)"

definition sixp_trans_set_callback ::
  "nat option \<Rightarrow> nat option \<Rightarrow> nat \<Rightarrow> u16 \<Rightarrow> 'a sixp_state_scheme \<Rightarrow> 'a sixp_state_scheme" where
  "sixp_trans_set_callback trp func arg arg_len s =
     (case trp of
        None \<Rightarrow> s
      | Some i \<Rightarrow> upd_trans i (\<lambda>t. t\<lparr>tr_cb_func := func, tr_cb_arg := arg, tr_cb_arg_len := arg_len\<rparr>) s)"

definition sixp_trans_find :: "linkaddr option \<Rightarrow> 'a sixp_state_scheme \<Rightarrow> nat option" where
  "sixp_trans_find peer_addr s =
     (case peer_addr of
        None \<Rightarrow> None
      | Some a \<Rightarrow> find (\<lambda>i. a = tr_peer_addr (transs s ! i)) (trans_list s))"

subsection \<open>The state machine\<close>

text \<open>The transition rules that \<open>sixp_trans_transit_state\<close> enforces.\<close>

definition transit_ok :: "sixp_trans_mode \<Rightarrow> sixp_trans_state \<Rightarrow> sixp_trans_state \<Rightarrow> bool" where
  "transit_ok mode state new_state \<longleftrightarrow>
     new_state = SIXP_TRANS_STATE_TERMINATING \<or>
     (new_state = SIXP_TRANS_STATE_REQUEST_SENDING \<and> state = SIXP_TRANS_STATE_INIT) \<or>
     (new_state = SIXP_TRANS_STATE_REQUEST_SENT \<and> state = SIXP_TRANS_STATE_REQUEST_SENDING) \<or>
     (new_state = SIXP_TRANS_STATE_REQUEST_RECEIVED \<and> state = SIXP_TRANS_STATE_INIT) \<or>
     (new_state = SIXP_TRANS_STATE_RESPONSE_SENDING \<and> state = SIXP_TRANS_STATE_REQUEST_RECEIVED) \<or>
     (new_state = SIXP_TRANS_STATE_RESPONSE_SENT \<and> state = SIXP_TRANS_STATE_RESPONSE_SENDING) \<or>
     (new_state = SIXP_TRANS_STATE_RESPONSE_RECEIVED \<and>
        (state = SIXP_TRANS_STATE_REQUEST_SENDING \<or> state = SIXP_TRANS_STATE_REQUEST_SENT)) \<or>
     (new_state = SIXP_TRANS_STATE_CONFIRMATION_RECEIVED \<and>
        (state = SIXP_TRANS_STATE_RESPONSE_SENT \<or> state = SIXP_TRANS_STATE_RESPONSE_SENDING) \<and>
        mode = SIXP_TRANS_MODE_3_STEP) \<or>
     (new_state = SIXP_TRANS_STATE_CONFIRMATION_SENDING \<and>
        state = SIXP_TRANS_STATE_RESPONSE_RECEIVED \<and> mode = SIXP_TRANS_MODE_3_STEP) \<or>
     (new_state = SIXP_TRANS_STATE_CONFIRMATION_SENT \<and>
        state = SIXP_TRANS_STATE_CONFIRMATION_SENDING \<and> mode = SIXP_TRANS_MODE_3_STEP)"

definition sixp_trans_transit_state ::
  "('a sixp_state_scheme) sixp_env \<Rightarrow> nat option \<Rightarrow> sixp_trans_state \<Rightarrow> 'a sixp_state_scheme \<Rightarrow>
   (int \<times> 'a sixp_state_scheme) ub" where
  "sixp_trans_transit_state env trp new_state s =
     (case trp of
        None \<Rightarrow> Some (-1, s)
      | Some i \<Rightarrow>
          let t = transs s ! i
          in if transit_ok (tr_mode t) (tr_state t) new_state
          then let s1 =
              (if new_state = SIXP_TRANS_STATE_RESPONSE_SENT
               then case sixp_nbr_find (Some (tr_peer_addr t)) s of
                      None \<Rightarrow> s
                    | Some nbr \<Rightarrow>
                        if tr_cmd t = SIXP_PKT_CMD_CLEAR then s
                        else snd (sixp_nbr_increment_next_seqno (Some nbr)
                               (snd (sixp_nbr_set_next_seqno (Some nbr) (ucast (tr_seqno t)) s)))
               else s)
            in Some (0, schedule_trans_process trp (upd_trans i (\<lambda>t. t\<lparr>tr_state := new_state\<rparr>) s1))
          else case tr_sf t of
                 None \<Rightarrow> None
               | Some f \<Rightarrow>
                   (case sf_error (sx_sf env f) of
                      None \<Rightarrow> Some (-1, s)
                    | Some h \<Rightarrow> do {
                        s1 \<leftarrow> h SIXP_ERROR_INVALID_TRANS_STATE_TRANSITION (tr_cmd t) (tr_seqno t)
                                (tr_peer_addr t) s;
                        Some (-1, s1)
                      }))"

definition sixp_trans_terminate ::
  "('a sixp_state_scheme) sixp_env \<Rightarrow> nat option \<Rightarrow> 'a sixp_state_scheme \<Rightarrow> 'a sixp_state_scheme ub" where
  "sixp_trans_terminate env trp s =
     (case trp of
        None \<Rightarrow> Some s
      | Some i \<Rightarrow> map_option snd (sixp_trans_transit_state env trp SIXP_TRANS_STATE_TERMINATING s))"

definition handle_trans_timeout ::
  "('a sixp_state_scheme) sixp_env \<Rightarrow> nat option \<Rightarrow> 'a sixp_state_scheme \<Rightarrow> 'a sixp_state_scheme ub" where
  "handle_trans_timeout env trp s =
     (case trp of
        None \<Rightarrow> Some s
      | Some i \<Rightarrow>
          let t = transs s ! i
          in case tr_sf t of
               None \<Rightarrow> None
             | Some f \<Rightarrow> do {
                 s1 \<leftarrow> (case sf_timeout (sx_sf env f) of
                         None \<Rightarrow> Some s
                       | Some h \<Rightarrow> h (tr_cmd t) (tr_peer_addr t) s);
                 (_, s2) \<leftarrow> sixp_trans_transit_state env trp SIXP_TRANS_STATE_TERMINATING s1;
                 Some s2
               })"

definition sixp_trans_free :: "nat option \<Rightarrow> 'a sixp_state_scheme \<Rightarrow> 'a sixp_state_scheme" where
  "sixp_trans_free trp s =
     (case trp of
        None \<Rightarrow> s
      | Some i \<Rightarrow>
          let s1 = (if tr_state (transs s ! i) = SIXP_TRANS_STATE_WAIT_FREE
                    then upd_trans i (\<lambda>t. t\<lparr>tr_state := SIXP_TRANS_STATE_UNAVAILABLE\<rparr>) s
                    else (stop_trans_timer i s)\<lparr>trans_list := remove1 i (trans_list s)\<rparr>)
          in if tr_state (transs s1 ! i) = SIXP_TRANS_STATE_REQUEST_SENDING \<or>
                tr_state (transs s1 ! i) = SIXP_TRANS_STATE_RESPONSE_SENDING \<or>
                tr_state (transs s1 ! i) = SIXP_TRANS_STATE_CONFIRMATION_SENDING
             then upd_trans i (\<lambda>t. t\<lparr>tr_state := SIXP_TRANS_STATE_WAIT_FREE\<rparr>) s1
             else let s2 = upd_trans i (\<lambda>_. sixp_trans_zero) s1
                  in s2\<lparr>trans_memb := snd (memb_free (trans_memb s2) i)\<rparr>)"

definition process_trans ::
  "('a sixp_state_scheme) sixp_env \<Rightarrow> nat option \<Rightarrow> 'a sixp_state_scheme \<Rightarrow> 'a sixp_state_scheme ub" where
  "process_trans env trp s =
     (case trp of
        None \<Rightarrow> Some s
      | Some i \<Rightarrow>
          let s1 = stop_trans_timer i s; t = transs s1 ! i
          in if tr_state t = SIXP_TRANS_STATE_TERMINATING
             then Some (sixp_trans_free trp s1)
             else do {
               s2 \<leftarrow> (if tr_state t = SIXP_TRANS_STATE_RESPONSE_SENT \<or>
                         tr_state t = SIXP_TRANS_STATE_RESPONSE_RECEIVED
                      then if tr_mode t = SIXP_TRANS_MODE_2_STEP
                           then map_option snd
                             (sixp_trans_transit_state env trp SIXP_TRANS_STATE_TERMINATING s1)
                           else Some s1
                      else if tr_state t = SIXP_TRANS_STATE_CONFIRMATION_SENT \<or>
                              tr_state t = SIXP_TRANS_STATE_CONFIRMATION_RECEIVED
                      then map_option snd
                        (sixp_trans_transit_state env trp SIXP_TRANS_STATE_TERMINATING s1)
                      else Some s1);
               (if tr_state (transs s2 ! i) \<noteq> SIXP_TRANS_STATE_TERMINATING
                then start_trans_timer env i s2 else Some s2)
             })"

text \<open>The ctimer of a transaction expires: it becomes inactive and calls its handler.\<close>

definition trans_timer_expire ::
  "('a sixp_state_scheme) sixp_env \<Rightarrow> nat \<Rightarrow> 'a sixp_state_scheme \<Rightarrow> 'a sixp_state_scheme ub" where
  "trans_timer_expire env i s =
     (case tr_timer (transs s ! i) of
        None \<Rightarrow> Some s
      | Some (TIMER_TIMEOUT _) \<Rightarrow> handle_trans_timeout env (Some i) (stop_trans_timer i s)
      | Some TIMER_PROCESS \<Rightarrow> process_trans env (Some i) (stop_trans_timer i s))"

definition determine_trans_mode :: "sixp_pkt option \<Rightarrow> sixp_trans_mode" where
  "determine_trans_mode req =
     (case req of
        None \<Rightarrow> SIXP_TRANS_MODE_UNAVAILABLE
      | Some r \<Rightarrow>
          let (ret, _, cell_list_len) =
            sixp_pkt_get_cell_list (pkt_ptype r) (pkt_code r) None (Some 0) (pkt_body r) (pkt_body_len r)
          in if pkt_ptype r = SIXP_PKT_TYPE_REQUEST \<and>
                (pkt_code r = SIXP_PKT_CMD_ADD \<or> pkt_code r = SIXP_PKT_CMD_DELETE) \<and>
                ret = 0 \<and> cell_list_len = Some 0
             then SIXP_TRANS_MODE_3_STEP else SIXP_TRANS_MODE_2_STEP)"

definition sixp_trans_alloc ::
  "('a sixp_state_scheme) sixp_env \<Rightarrow> sixp_pkt option \<Rightarrow> linkaddr option \<Rightarrow> 'a sixp_state_scheme \<Rightarrow>
   (nat option \<times> 'a sixp_state_scheme) ub" where
  "sixp_trans_alloc env pkt peer_addr s =
     (case (pkt, peer_addr) of
        (Some p, Some a) \<Rightarrow>
          (case sixtop_find_sf env (pkt_sfid p) s of
             None \<Rightarrow> Some (None, s)
           | Some sf \<Rightarrow>
               if sixp_trans_find (Some a) s \<noteq> None then Some (None, s)
               else (case memb_alloc (trans_memb s) of
                   (None, _) \<Rightarrow> Some (None, s)
                 | (Some i, m) \<Rightarrow>
                     let s1 = upd_trans i (\<lambda>_. sixp_trans_zero
                           \<lparr>tr_sf := Some sf, tr_peer_addr := a, tr_seqno := pkt_seqno p,
                            tr_cmd := pkt_code p, tr_state := SIXP_TRANS_STATE_INIT,
                            tr_mode := determine_trans_mode (Some p)\<rparr>) (s\<lparr>trans_memb := m\<rparr>)
                     in do {
                       s2 \<leftarrow> start_trans_timer env i (s1\<lparr>trans_list := remove1 i (trans_list s1) @ [i]\<rparr>);
                       Some (Some i, s2)
                     }))
      | _ \<Rightarrow> Some (None, s))"

definition sixp_trans_abort ::
  "('a sixp_state_scheme) sixp_env \<Rightarrow> nat option \<Rightarrow> 'a sixp_state_scheme \<Rightarrow> 'a sixp_state_scheme ub" where
  "sixp_trans_abort env trp s =
     (case trp of
        None \<Rightarrow> Some s
      | Some i \<Rightarrow> do {
          s1 \<leftarrow> sixp_trans_terminate env trp s;
          s2 \<leftarrow> sixp_trans_invoke_callback env trp SIXP_OUTPUT_STATUS_ABORTED s1;
          process_trans env trp (stop_trans_timer i s2)
        })"

text \<open>The loop of \<open>sixp_trans_init\<close>; freeing an item does not change the rest of the list.\<close>

fun sixp_trans_free_all :: "nat list \<Rightarrow> 'a sixp_state_scheme \<Rightarrow> 'a sixp_state_scheme" where
  "sixp_trans_free_all [] s = s"
| "sixp_trans_free_all (i # is) s =
     sixp_trans_free_all is (sixp_trans_free (Some i) (stop_trans_timer i s))"

definition sixp_trans_init :: "'a sixp_state_scheme \<Rightarrow> int \<times> 'a sixp_state_scheme" where
  "sixp_trans_init s =
     (let s1 = sixp_trans_free_all (trans_list s) s
      in (0, s1\<lparr>trans_list := [], trans_memb := memb_init (trans_memb s1),
                transs := replicate (length (transs s1)) sixp_trans_zero\<rparr>))"

subsection \<open>The protocol as a step relation\<close>

text \<open>
  The transitions that 6P allows in a transaction of the given mode: the first six rules are the
  steps of the node that sent the request, the next five those of the node that received it.
\<close>

inductive trans_step :: "sixp_trans_mode \<Rightarrow> sixp_trans_state \<Rightarrow> sixp_trans_state \<Rightarrow> bool" for m where
  send_request: "trans_step m SIXP_TRANS_STATE_INIT SIXP_TRANS_STATE_REQUEST_SENDING"
| request_sent: "trans_step m SIXP_TRANS_STATE_REQUEST_SENDING SIXP_TRANS_STATE_REQUEST_SENT"
| response_early: "trans_step m SIXP_TRANS_STATE_REQUEST_SENDING SIXP_TRANS_STATE_RESPONSE_RECEIVED"
| response_received: "trans_step m SIXP_TRANS_STATE_REQUEST_SENT SIXP_TRANS_STATE_RESPONSE_RECEIVED"
| send_confirmation: "m = SIXP_TRANS_MODE_3_STEP \<Longrightarrow>
    trans_step m SIXP_TRANS_STATE_RESPONSE_RECEIVED SIXP_TRANS_STATE_CONFIRMATION_SENDING"
| confirmation_sent: "m = SIXP_TRANS_MODE_3_STEP \<Longrightarrow>
    trans_step m SIXP_TRANS_STATE_CONFIRMATION_SENDING SIXP_TRANS_STATE_CONFIRMATION_SENT"
| request_received: "trans_step m SIXP_TRANS_STATE_INIT SIXP_TRANS_STATE_REQUEST_RECEIVED"
| send_response: "trans_step m SIXP_TRANS_STATE_REQUEST_RECEIVED SIXP_TRANS_STATE_RESPONSE_SENDING"
| response_sent: "trans_step m SIXP_TRANS_STATE_RESPONSE_SENDING SIXP_TRANS_STATE_RESPONSE_SENT"
| confirmation_early: "m = SIXP_TRANS_MODE_3_STEP \<Longrightarrow>
    trans_step m SIXP_TRANS_STATE_RESPONSE_SENDING SIXP_TRANS_STATE_CONFIRMATION_RECEIVED"
| confirmation_received: "m = SIXP_TRANS_MODE_3_STEP \<Longrightarrow>
    trans_step m SIXP_TRANS_STATE_RESPONSE_SENT SIXP_TRANS_STATE_CONFIRMATION_RECEIVED"
| terminate: "trans_step m st SIXP_TRANS_STATE_TERMINATING"

inductive_cases trans_step_from_init: "trans_step m SIXP_TRANS_STATE_INIT st"
inductive_simps trans_step_simps: "trans_step m st st'"

lemma transit_ok_iff_step: "transit_ok m st st' \<longleftrightarrow> trans_step m st st'"
  by (cases st; cases st'; simp add: transit_ok_def trans_step_simps)

text \<open>The states a node can be in, by its role in the transaction.\<close>

definition requester_states :: "sixp_trans_mode \<Rightarrow> sixp_trans_state set" where
  "requester_states m =
     {SIXP_TRANS_STATE_REQUEST_SENDING, SIXP_TRANS_STATE_REQUEST_SENT,
      SIXP_TRANS_STATE_RESPONSE_RECEIVED} \<union>
     (if m = SIXP_TRANS_MODE_3_STEP
      then {SIXP_TRANS_STATE_CONFIRMATION_SENDING, SIXP_TRANS_STATE_CONFIRMATION_SENT} else {})"

definition responder_states :: "sixp_trans_mode \<Rightarrow> sixp_trans_state set" where
  "responder_states m =
     {SIXP_TRANS_STATE_REQUEST_RECEIVED, SIXP_TRANS_STATE_RESPONSE_SENDING,
      SIXP_TRANS_STATE_RESPONSE_SENT} \<union>
     (if m = SIXP_TRANS_MODE_3_STEP then {SIXP_TRANS_STATE_CONFIRMATION_RECEIVED} else {})"

fun trans_rank :: "sixp_trans_state \<Rightarrow> nat" where
  "trans_rank SIXP_TRANS_STATE_REQUEST_SENDING = 1"
| "trans_rank SIXP_TRANS_STATE_REQUEST_RECEIVED = 1"
| "trans_rank SIXP_TRANS_STATE_REQUEST_SENT = 2"
| "trans_rank SIXP_TRANS_STATE_RESPONSE_SENDING = 2"
| "trans_rank SIXP_TRANS_STATE_RESPONSE_RECEIVED = 3"
| "trans_rank SIXP_TRANS_STATE_RESPONSE_SENT = 3"
| "trans_rank SIXP_TRANS_STATE_CONFIRMATION_SENDING = 4"
| "trans_rank SIXP_TRANS_STATE_CONFIRMATION_RECEIVED = 4"
| "trans_rank SIXP_TRANS_STATE_CONFIRMATION_SENT = 5"
| "trans_rank SIXP_TRANS_STATE_TERMINATING = 6"
| "trans_rank _ = 0"

lemma trans_step_rank:
  assumes "trans_step m st st'" and "st' \<noteq> SIXP_TRANS_STATE_TERMINATING"
  shows "trans_rank st < trans_rank st'"
  using assms by cases simp_all

lemma trans_step_role:
  assumes "trans_step m st st'" and "st' \<noteq> SIXP_TRANS_STATE_TERMINATING"
  shows "(st = SIXP_TRANS_STATE_INIT \<longrightarrow> st' \<in> requester_states m \<union> responder_states m) \<and>
    (st \<in> requester_states m \<longrightarrow> st' \<in> requester_states m) \<and>
    (st \<in> responder_states m \<longrightarrow> st' \<in> responder_states m)"
  using assms by cases (auto simp: requester_states_def responder_states_def)

lemma trans_step_mode_2:
  assumes "trans_step m st st'" and "m \<noteq> SIXP_TRANS_MODE_3_STEP"
  shows "st' \<notin> {SIXP_TRANS_STATE_CONFIRMATION_SENDING, SIXP_TRANS_STATE_CONFIRMATION_SENT,
    SIXP_TRANS_STATE_CONFIRMATION_RECEIVED}"
  using assms by cases simp_all

subsection \<open>Updates of a transaction\<close>

lemma upd_trans_fields [simp]:
  "trans_memb (upd_trans i f s) = trans_memb s"
  "trans_list (upd_trans i f s) = trans_list s"
  "scheduling_functions (upd_trans i f s) = scheduling_functions s"
  "length (transs (upd_trans i f s)) = length (transs s)"
  "sixp_nbr_items (upd_trans i f s) = sixp_nbr_items s"
  by (simp_all add: upd_trans_def)

lemma upd_trans_nth [simp]:
  "i < length (transs s) \<Longrightarrow> transs (upd_trans i f s) ! i = f (transs s ! i)"
  "i \<noteq> j \<Longrightarrow> transs (upd_trans i f s) ! j = transs s ! j"
  by (simp_all add: upd_trans_def)

lemma upd_nbr_trans [simp]:
  "trans_memb (upd_sixp_nbr i g s) = trans_memb s"
  "transs (upd_sixp_nbr i g s) = transs s"
  "trans_list (upd_sixp_nbr i g s) = trans_list s"
  "scheduling_functions (upd_sixp_nbr i g s) = scheduling_functions s"
  by (simp_all add: upd_sixp_nbr_def)

definition trans_frame :: "'a sixp_state_scheme \<Rightarrow> 'a sixp_state_scheme \<Rightarrow> bool" where
  "trans_frame s s' \<longleftrightarrow> trans_memb s' = trans_memb s \<and> transs s' = transs s \<and>
     trans_list s' = trans_list s \<and> scheduling_functions s' = scheduling_functions s"

lemma trans_frame_refl [simp]: "trans_frame s s"
  by (simp add: trans_frame_def)

text \<open>
  The handlers and callbacks return, and do not themselves run 6P transactions.
\<close>

definition handlers_ok :: "('a sixp_state_scheme) sixp_env \<Rightarrow> bool" where
  "handlers_ok env \<longleftrightarrow>
     (\<forall>f h. sf_timeout (sx_sf env f) = Some h \<longrightarrow> (\<forall>c a s. \<exists>s'. h c a s = Some s' \<and> trans_frame s s')) \<and>
     (\<forall>f h. sf_error (sx_sf env f) = Some h \<longrightarrow> (\<forall>e c n a s. \<exists>s'. h e c n a s = Some s' \<and> trans_frame s s')) \<and>
     (\<forall>f x l a st s. \<exists>s'. sx_sent_cb env f x l a st s = Some s' \<and> trans_frame s s')"

text \<open>The neighbour part of a transition: the sequence number is updated when a response is sent.\<close>

lemma transit_state_ok:
  assumes "transit_ok (tr_mode (transs s ! i)) (tr_state (transs s ! i)) st"
  obtains s1 where "trans_frame s s1"
    and "sixp_trans_transit_state env (Some i) st s =
      Some (0, upd_trans i (\<lambda>t. t\<lparr>tr_timer := Some TIMER_PROCESS\<rparr>)
                 (upd_trans i (\<lambda>t. t\<lparr>tr_state := st\<rparr>) s1))"
proof -
  define s1 where "s1 =
    (if st = SIXP_TRANS_STATE_RESPONSE_SENT
     then case sixp_nbr_find (Some (tr_peer_addr (transs s ! i))) s of
            None \<Rightarrow> s
          | Some nbr \<Rightarrow>
              if tr_cmd (transs s ! i) = SIXP_PKT_CMD_CLEAR then s
              else snd (sixp_nbr_increment_next_seqno (Some nbr)
                     (snd (sixp_nbr_set_next_seqno (Some nbr) (ucast (tr_seqno (transs s ! i))) s)))
     else s)"
  have "trans_frame s s1"
    by (auto simp: s1_def trans_frame_def sixp_nbr_increment_next_seqno_def
        sixp_nbr_set_next_seqno_def split: option.splits)
  with that assms show ?thesis
    by (simp add: sixp_trans_transit_state_def Let_def s1_def [symmetric] schedule_trans_process_def
        del: s1_def)
qed

subsection \<open>The invariant of the transactions\<close>

definition live_trans_ok :: "sixp_trans \<Rightarrow> bool" where
  "live_trans_ok t \<longleftrightarrow> tr_sf t \<noteq> None \<and> tr_timer t \<noteq> None \<and>
     tr_state t \<noteq> SIXP_TRANS_STATE_UNAVAILABLE \<and> tr_state t \<noteq> SIXP_TRANS_STATE_WAIT_FREE \<and>
     (tr_state t = SIXP_TRANS_STATE_TERMINATING \<longrightarrow> tr_timer t = Some TIMER_PROCESS) \<and>
     tr_mode t \<noteq> SIXP_TRANS_MODE_UNAVAILABLE"

definition trans_wf :: "'a sixp_state_scheme \<Rightarrow> bool" where
  "trans_wf s \<longleftrightarrow> length (transs s) = length (trans_memb s) \<and> distinct (trans_list s) \<and>
     set (trans_list s) = memb_blocks (trans_memb s) \<and>
     distinct (map (\<lambda>i. tr_peer_addr (transs s ! i)) (trans_list s)) \<and>
     (\<forall>i \<in> set (trans_list s). live_trans_ok (transs s ! i))"

lemma trans_wf_frame: "trans_frame s s' \<Longrightarrow> trans_wf s' = trans_wf s"
  by (simp add: trans_frame_def trans_wf_def)

lemma trans_wf_cong:
  "trans_memb s' = trans_memb s \<Longrightarrow> trans_list s' = trans_list s \<Longrightarrow> transs s' = transs s \<Longrightarrow>
   trans_wf s' = trans_wf s"
  by (simp add: trans_wf_def)

lemma trans_wf_bound: "trans_wf s \<Longrightarrow> i \<in> set (trans_list s) \<Longrightarrow> i < length (transs s)"
  by (simp add: trans_wf_def memb_blocks_def)

lemma trans_wf_live: "trans_wf s \<Longrightarrow> i \<in> set (trans_list s) \<Longrightarrow> live_trans_ok (transs s ! i)"
  by (simp add: trans_wf_def)

text \<open>Changing one transaction, but not its peer.\<close>

lemma trans_wf_upd:
  assumes wf: "trans_wf s" and i: "i \<in> set (trans_list s)"
    and p: "tr_peer_addr (f (transs s ! i)) = tr_peer_addr (transs s ! i)"
    and ok: "live_trans_ok (f (transs s ! i))"
  shows "trans_wf (upd_trans i f s)"
proof -
  have b: "i < length (transs s)" by (rule trans_wf_bound [OF wf i])
  have n: "transs (upd_trans i f s) ! j = (if j = i then f (transs s ! i) else transs s ! j)" for j
    using b by simp
  have m: "map (\<lambda>j. tr_peer_addr (transs (upd_trans i f s) ! j)) (trans_list s) =
      map (\<lambda>j. tr_peer_addr (transs s ! j)) (trans_list s)"
    by (simp add: n p)
  have l: "live_trans_ok (transs (upd_trans i f s) ! j)" if "j \<in> set (trans_list s)" for j
    using wf ok that by (simp add: n trans_wf_def)
  from wf l show ?thesis unfolding trans_wf_def by (simp add: m)
qed

lemma trans_wf_transit:
  assumes wf: "trans_wf s" and i: "i \<in> set (trans_list s)" and h: "handlers_ok env"
  shows "\<exists>r s'. sixp_trans_transit_state env (Some i) st s = Some (r, s') \<and> trans_wf s' \<and>
    trans_list s' = trans_list s \<and> trans_memb s' = trans_memb s \<and>
    scheduling_functions s' = scheduling_functions s \<and>
    (if transit_ok (tr_mode (transs s ! i)) (tr_state (transs s ! i)) st
     then r = 0 \<and> transs s' = (transs s)[i := (transs s ! i)\<lparr>tr_state := st, tr_timer := Some TIMER_PROCESS\<rparr>]
     else r = -1 \<and> transs s' = transs s)"
proof (cases "transit_ok (tr_mode (transs s ! i)) (tr_state (transs s ! i)) st")
  case True
  note l = trans_wf_live [OF wf i] and b = trans_wf_bound [OF wf i]
  from True obtain s1 where f: "trans_frame s s1"
    and e: "sixp_trans_transit_state env (Some i) st s =
      Some (0, upd_trans i (\<lambda>t. t\<lparr>tr_timer := Some TIMER_PROCESS\<rparr>)
                 (upd_trans i (\<lambda>t. t\<lparr>tr_state := st\<rparr>) s1))"
    by (rule transit_state_ok)
  have t: "upd_trans i (\<lambda>t. t\<lparr>tr_timer := Some TIMER_PROCESS\<rparr>) (upd_trans i (\<lambda>t. t\<lparr>tr_state := st\<rparr>) s1) =
      upd_trans i (\<lambda>t. t\<lparr>tr_state := st, tr_timer := Some TIMER_PROCESS\<rparr>) s1"
    using f b by (simp add: upd_trans_def trans_frame_def)
  have "st \<noteq> SIXP_TRANS_STATE_UNAVAILABLE" "st \<noteq> SIXP_TRANS_STATE_WAIT_FREE"
    using True by (auto simp: transit_ok_def)
  then have ok: "live_trans_ok ((transs s1 ! i)\<lparr>tr_state := st, tr_timer := Some TIMER_PROCESS\<rparr>)"
    using f l by (simp add: live_trans_ok_def trans_frame_def)
  have w1: "trans_wf s1" using wf f by (simp add: trans_wf_frame)
  have i1: "i \<in> set (trans_list s1)" using i f by (simp add: trans_frame_def)
  have "trans_wf (upd_trans i (\<lambda>t. t\<lparr>tr_state := st, tr_timer := Some TIMER_PROCESS\<rparr>) s1)"
    by (rule trans_wf_upd [OF w1 i1]) (simp_all add: ok)
  with True f show ?thesis unfolding e t by (simp add: trans_frame_def upd_trans_def)
next
  case False
  from trans_wf_live [OF wf i] obtain f where sf: "tr_sf (transs s ! i) = Some f"
    by (auto simp: live_trans_ok_def)
  show ?thesis
  proof (cases "sf_error (sx_sf env f)")
    case None
    with False sf wf show ?thesis by (simp add: sixp_trans_transit_state_def Let_def)
  next
    case (Some g)
    let ?t = "transs s ! i"
    obtain s1 where "g SIXP_ERROR_INVALID_TRANS_STATE_TRANSITION (tr_cmd ?t) (tr_seqno ?t) (tr_peer_addr ?t) s =
        Some s1" "trans_frame s s1"
      using h Some unfolding handlers_ok_def by blast
    with False sf Some wf trans_wf_frame [of s s1] show ?thesis
      by (simp add: sixp_trans_transit_state_def Let_def trans_frame_def)
  qed
qed

lemma trans_wf_free:
  assumes wf: "trans_wf s" and i: "i \<in> set (trans_list s)"
    and st: "tr_state (transs s ! i) = SIXP_TRANS_STATE_TERMINATING"
  shows "trans_wf (sixp_trans_free (Some i) s) \<and>
    trans_list (sixp_trans_free (Some i) s) = remove1 i (trans_list s) \<and>
    memb_blocks (trans_memb (sixp_trans_free (Some i) s)) = memb_blocks (trans_memb s) - {i} \<and>
    transs (sixp_trans_free (Some i) s) = (transs s)[i := sixp_trans_zero]"
proof -
  have b: "i < length (transs s)" by (rule trans_wf_bound [OF wf i])
  let ?s = "sixp_trans_free (Some i) s"
  have e: "trans_list ?s = remove1 i (trans_list s)" "transs ?s = (transs s)[i := sixp_trans_zero]"
    "trans_memb ?s = snd (memb_free (trans_memb s) i)"
    using b st by (simp_all add: sixp_trans_free_def Let_def stop_trans_timer_def upd_trans_def)
  have u: "i \<in> memb_blocks (trans_memb s)" using wf i by (simp add: trans_wf_def)
  note fr = memb.free_used [OF u]
  have n: "transs ?s ! j = transs s ! j" if "j \<noteq> i" for j using that e by simp
  have m: "map (\<lambda>j. tr_peer_addr (transs ?s ! j)) (remove1 i (trans_list s)) =
      map (\<lambda>j. tr_peer_addr (transs s ! j)) (remove1 i (trans_list s))"
    using wf n by (auto simp: trans_wf_def)
  have "distinct (map (\<lambda>j. tr_peer_addr (transs s ! j)) (remove1 i (trans_list s)))"
    using wf by (auto simp: trans_wf_def distinct_map intro: inj_on_subset)
  then have d: "distinct (map (\<lambda>j. tr_peer_addr (transs ?s ! j)) (trans_list ?s))"
    by (simp only: e(1) m)
  have l: "\<forall>j \<in> set (trans_list ?s). live_trans_ok (transs ?s ! j)"
    using wf n by (auto simp: trans_wf_def e(1))
  have "trans_wf ?s" using wf fr d l unfolding trans_wf_def by (simp add: e)
  with fr show ?thesis by (simp add: e)
qed

text \<open>
  What the expiry of a timer does to a transaction: a timeout terminates it, the end of a
  terminating one frees it, a finished exchange terminates it, and any other state waits.
\<close>

definition trans_done :: "sixp_trans \<Rightarrow> bool" where
  "trans_done t \<longleftrightarrow>
     (tr_state t \<in> {SIXP_TRANS_STATE_RESPONSE_SENT, SIXP_TRANS_STATE_RESPONSE_RECEIVED} \<and>
      tr_mode t = SIXP_TRANS_MODE_2_STEP) \<or>
     tr_state t \<in> {SIXP_TRANS_STATE_CONFIRMATION_SENT, SIXP_TRANS_STATE_CONFIRMATION_RECEIVED}"

lemma stop_trans_timer_fields [simp]:
  "trans_memb (stop_trans_timer i s) = trans_memb s"
  "trans_list (stop_trans_timer i s) = trans_list s"
  "scheduling_functions (stop_trans_timer i s) = scheduling_functions s"
  "transs (stop_trans_timer i s) = (transs s)[i := (transs s ! i)\<lparr>tr_timer := None\<rparr>]"
  by (simp_all add: stop_trans_timer_def upd_trans_def)

lemma stop_trans_timer_idem [simp]: "stop_trans_timer i (stop_trans_timer i s) = stop_trans_timer i s"
  by (cases "i < length (transs s)") (simp_all add: stop_trans_timer_def upd_trans_def list_update_beyond)

text \<open>A transition of a live transaction whose timer may have been stopped.\<close>

lemma transit_terminating:
  assumes wf: "trans_wf s" and i: "i \<in> set (trans_list s)"
    and f: "trans_memb s1 = trans_memb s" "trans_list s1 = trans_list s"
      "scheduling_functions s1 = scheduling_functions s"
      "transs s1 = (transs s)[i := (transs s ! i)\<lparr>tr_timer := tm\<rparr>]"
  shows "\<exists>s'. sixp_trans_transit_state env (Some i) SIXP_TRANS_STATE_TERMINATING s1 = Some (0, s') \<and>
    trans_wf s' \<and> trans_list s' = trans_list s \<and> trans_memb s' = trans_memb s \<and>
    scheduling_functions s' = scheduling_functions s \<and>
    transs s' = (transs s)[i := (transs s ! i)\<lparr>tr_state := SIXP_TRANS_STATE_TERMINATING,
                                                tr_timer := Some TIMER_PROCESS\<rparr>]"
proof -
  note b = trans_wf_bound [OF wf i]
  let ?t = "(transs s ! i)\<lparr>tr_state := SIXP_TRANS_STATE_TERMINATING, tr_timer := Some TIMER_PROCESS\<rparr>"
  have "sixp_trans_transit_state env (Some i) SIXP_TRANS_STATE_TERMINATING s1 =
      Some (0, s1\<lparr>transs := (transs s)[i := ?t]\<rparr>)"
    using b by (simp add: sixp_trans_transit_state_def transit_ok_def Let_def
        schedule_trans_process_def upd_trans_def f)
  moreover have "trans_wf (s1\<lparr>transs := (transs s)[i := ?t]\<rparr>)"
  proof -
    have "trans_wf (upd_trans i (\<lambda>_. ?t) s)"
      by (rule trans_wf_upd [OF wf i])
        (use trans_wf_live [OF wf i] in \<open>simp_all add: live_trans_ok_def\<close>)
    then show ?thesis using f by (simp add: trans_wf_def upd_trans_def)
  qed
  ultimately show ?thesis using f by simp
qed

lemma process_trans_spec:
  assumes wf: "trans_wf s" and i: "i \<in> set (trans_list s)"
    and f: "trans_memb s1 = trans_memb s" "trans_list s1 = trans_list s"
      "scheduling_functions s1 = scheduling_functions s"
      "transs s1 = (transs s)[i := (transs s ! i)\<lparr>tr_timer := tm\<rparr>]"
  shows "\<exists>s' n. process_trans env (Some i) s1 = Some s' \<and> trans_wf s' \<and>
    scheduling_functions s' = scheduling_functions s \<and>
    (let t = transs s ! i
     in if tr_state t = SIXP_TRANS_STATE_TERMINATING
        then trans_list s' = remove1 i (trans_list s) \<and>
             memb_blocks (trans_memb s') = memb_blocks (trans_memb s) - {i} \<and>
             transs s' = (transs s)[i := sixp_trans_zero]
        else trans_list s' = trans_list s \<and> trans_memb s' = trans_memb s \<and>
             transs s' = (transs s)[i :=
               (if trans_done t
                then t\<lparr>tr_state := SIXP_TRANS_STATE_TERMINATING, tr_timer := Some TIMER_PROCESS\<rparr>
                else t\<lparr>tr_timer := Some (TIMER_TIMEOUT n)\<rparr>)])"
proof -
  note b = trans_wf_bound [OF wf i] and live = trans_wf_live [OF wf i]
  let ?t = "transs s ! i" and ?s1 = "stop_trans_timer i s1"
  have g: "trans_memb ?s1 = trans_memb s" "trans_list ?s1 = trans_list s"
    "scheduling_functions ?s1 = scheduling_functions s"
    "transs ?s1 = (transs s)[i := ?t\<lparr>tr_timer := None\<rparr>]"
    using b by (simp_all add: f)
  have t1: "transs ?s1 ! i = ?t\<lparr>tr_timer := None\<rparr>" using b by (simp add: f)
  consider (free) "tr_state ?t = SIXP_TRANS_STATE_TERMINATING"
    | (stop) "tr_state ?t \<noteq> SIXP_TRANS_STATE_TERMINATING" "trans_done ?t"
    | (wait) "tr_state ?t \<noteq> SIXP_TRANS_STATE_TERMINATING" "\<not> trans_done ?t" by blast
  then show ?thesis
  proof cases
    case free
    have l: "trans_list (sixp_trans_free (Some i) ?s1) = trans_list (sixp_trans_free (Some i) s)"
      "transs (sixp_trans_free (Some i) ?s1) = transs (sixp_trans_free (Some i) s)"
      "trans_memb (sixp_trans_free (Some i) ?s1) = trans_memb (sixp_trans_free (Some i) s)"
      "scheduling_functions (sixp_trans_free (Some i) ?s1) = scheduling_functions s"
      using free b by (simp_all add: sixp_trans_free_def Let_def upd_trans_def f)
    then have "trans_wf (sixp_trans_free (Some i) ?s1)"
      using trans_wf_free [OF wf i free] trans_wf_cong [OF l(3,1,2)] by blast
    with free l t1 trans_wf_free [OF wf i free] show ?thesis
      by (simp add: process_trans_def Let_def)
  next
    case stop
    from transit_terminating [OF wf i g, of env] obtain s2 where
      s2: "sixp_trans_transit_state env (Some i) SIXP_TRANS_STATE_TERMINATING ?s1 = Some (0, s2)"
        "trans_wf s2" "trans_list s2 = trans_list s" "trans_memb s2 = trans_memb s"
        "scheduling_functions s2 = scheduling_functions s"
        "transs s2 = (transs s)[i := ?t\<lparr>tr_state := SIXP_TRANS_STATE_TERMINATING, tr_timer := Some TIMER_PROCESS\<rparr>]"
      by blast
    have "process_trans env (Some i) s1 = Some s2"
      using stop s2(1,6) t1 b by (auto simp: process_trans_def Let_def trans_done_def)
    with stop s2 show ?thesis by (auto simp: Let_def)
  next
    case wait
    from live obtain k where k: "tr_sf ?t = Some k" by (auto simp: live_trans_ok_def)
    let ?n = "sf_timeout_interval (sx_sf env k)"
    let ?s2 = "upd_trans i (\<lambda>t. t\<lparr>tr_timer := Some (TIMER_TIMEOUT ?n)\<rparr>) ?s1"
    have "process_trans env (Some i) s1 = Some ?s2"
      using wait t1 k live
      by (cases "tr_state ?t"; cases "tr_mode ?t")
        (simp_all add: process_trans_def Let_def trans_done_def start_trans_timer_def live_trans_ok_def)
    moreover have tr: "transs ?s2 = (transs s)[i := ?t\<lparr>tr_timer := Some (TIMER_TIMEOUT ?n)\<rparr>]"
      using b by (simp add: upd_trans_def f)
    moreover have "trans_wf ?s2"
    proof -
      have "trans_wf (upd_trans i (\<lambda>t. t\<lparr>tr_timer := Some (TIMER_TIMEOUT ?n)\<rparr>) s)"
        by (rule trans_wf_upd [OF wf i]) (use live wait in \<open>simp_all add: live_trans_ok_def\<close>)
      then show ?thesis unfolding trans_wf_def tr using g by (simp add: upd_trans_def)
    qed
    ultimately show ?thesis using wait g by (auto simp: Let_def)
  qed
qed

lemma handle_trans_timeout_spec:
  assumes wf: "trans_wf s" and i: "i \<in> set (trans_list s)" and h: "handlers_ok env"
    and f: "trans_memb s1 = trans_memb s" "trans_list s1 = trans_list s"
      "scheduling_functions s1 = scheduling_functions s"
      "transs s1 = (transs s)[i := (transs s ! i)\<lparr>tr_timer := tm\<rparr>]"
  shows "\<exists>s'. handle_trans_timeout env (Some i) s1 = Some s' \<and> trans_wf s' \<and>
    scheduling_functions s' = scheduling_functions s \<and>
    trans_list s' = trans_list s \<and> trans_memb s' = trans_memb s \<and>
    transs s' = (transs s)[i := (transs s ! i)\<lparr>tr_state := SIXP_TRANS_STATE_TERMINATING,
                                                tr_timer := Some TIMER_PROCESS\<rparr>]"
proof -
  note b = trans_wf_bound [OF wf i] and live = trans_wf_live [OF wf i]
  let ?t = "transs s ! i"
  have t1: "transs s1 ! i = ?t\<lparr>tr_timer := tm\<rparr>" using b by (simp add: f)
  from live obtain k where k: "tr_sf ?t = Some k" by (auto simp: live_trans_ok_def)
  obtain s2 where s2: "(case sf_timeout (sx_sf env k) of None \<Rightarrow> Some s1
      | Some g \<Rightarrow> g (tr_cmd ?t) (tr_peer_addr ?t) s1) = Some s2" "trans_frame s1 s2"
  proof (cases "sf_timeout (sx_sf env k)")
    case None
    then show ?thesis by (intro that [of s1]) simp_all
  next
    case (Some g)
    then obtain s2 where "g (tr_cmd ?t) (tr_peer_addr ?t) s1 = Some s2" "trans_frame s1 s2"
      using h unfolding handlers_ok_def by blast
    with Some show ?thesis by (intro that [of s2]) simp_all
  qed
  have g: "trans_memb s2 = trans_memb s" "trans_list s2 = trans_list s"
    "scheduling_functions s2 = scheduling_functions s"
    "transs s2 = (transs s)[i := ?t\<lparr>tr_timer := tm\<rparr>]"
    using s2(2) f by (simp_all add: trans_frame_def)
  from transit_terminating [OF wf i g, of env] obtain s3 where
    s3: "sixp_trans_transit_state env (Some i) SIXP_TRANS_STATE_TERMINATING s2 = Some (0, s3)"
      "trans_wf s3 \<and> trans_list s3 = trans_list s \<and> trans_memb s3 = trans_memb s \<and>
        scheduling_functions s3 = scheduling_functions s \<and>
        transs s3 = (transs s)[i := ?t\<lparr>tr_state := SIXP_TRANS_STATE_TERMINATING, tr_timer := Some TIMER_PROCESS\<rparr>]"
    by blast
  have "handle_trans_timeout env (Some i) s1 = Some s3"
    using k s2(1) s3(1) t1
    by (cases "sf_timeout (sx_sf env k)") (simp_all add: handle_trans_timeout_def Let_def)
  with s3(2) show ?thesis by blast
qed

text \<open>The state of a transaction after its timer expired; \<open>None\<close> when it was freed.\<close>

definition after_expiry :: "nat \<Rightarrow> sixp_trans \<Rightarrow> sixp_trans option" where
  "after_expiry n t =
     (if tr_timer t = Some TIMER_PROCESS
      then if tr_state t = SIXP_TRANS_STATE_TERMINATING then None
        else if trans_done t
        then Some (t\<lparr>tr_state := SIXP_TRANS_STATE_TERMINATING, tr_timer := Some TIMER_PROCESS\<rparr>)
        else Some (t\<lparr>tr_timer := Some (TIMER_TIMEOUT n)\<rparr>)
      else Some (t\<lparr>tr_state := SIXP_TRANS_STATE_TERMINATING, tr_timer := Some TIMER_PROCESS\<rparr>))"

lemma trans_timer_expire_spec:
  assumes wf: "trans_wf s" and i: "i \<in> set (trans_list s)" and h: "handlers_ok env"
  shows "\<exists>s' n. trans_timer_expire env i s = Some s' \<and> trans_wf s' \<and>
    scheduling_functions s' = scheduling_functions s \<and>
    (case after_expiry n (transs s ! i) of
       None \<Rightarrow> trans_list s' = remove1 i (trans_list s) \<and>
               memb_blocks (trans_memb s') = memb_blocks (trans_memb s) - {i} \<and>
               transs s' = (transs s)[i := sixp_trans_zero]
     | Some t \<Rightarrow> trans_list s' = trans_list s \<and> trans_memb s' = trans_memb s \<and>
                  transs s' = (transs s)[i := t])"
proof -
  let ?t = "transs s ! i"
  have f: "trans_memb (stop_trans_timer i s) = trans_memb s" "trans_list (stop_trans_timer i s) = trans_list s"
    "scheduling_functions (stop_trans_timer i s) = scheduling_functions s"
    "transs (stop_trans_timer i s) = (transs s)[i := ?t\<lparr>tr_timer := None\<rparr>]"
    by simp_all
  have "tr_timer ?t \<noteq> None" using trans_wf_live [OF wf i] by (simp add: live_trans_ok_def)
  then consider (proc) "tr_timer ?t = Some TIMER_PROCESS" | (tmo) m where "tr_timer ?t = Some (TIMER_TIMEOUT m)"
    by (metis trans_timer.exhaust not_None_eq)
  then show ?thesis
  proof cases
    case proc
    from process_trans_spec [OF wf i f, of env] show ?thesis
      by (auto simp: trans_timer_expire_def proc after_expiry_def Let_def)
  next
    case tmo
    from handle_trans_timeout_spec [OF wf i h f] show ?thesis
      by (auto simp: trans_timer_expire_def tmo after_expiry_def)
  qed
qed

subsection \<open>Allocation, abort and initialisation\<close>

lemma sixp_trans_find_Some:
  "sixp_trans_find (Some a) s = Some i \<Longrightarrow> i \<in> set (trans_list s) \<and> tr_peer_addr (transs s ! i) = a"
  by (auto simp: sixp_trans_find_def find_Some_iff)

lemma sixp_trans_find_None:
  "sixp_trans_find (Some a) s = None \<longleftrightarrow> (\<forall>i \<in> set (trans_list s). tr_peer_addr (transs s ! i) \<noteq> a)"
  by (auto simp: sixp_trans_find_def find_None_iff)

text \<open>In a well-formed state the transaction with a peer is the one that is found.\<close>

lemma sixp_trans_find_iff:
  assumes "trans_wf s"
  shows "sixp_trans_find (Some a) s = Some i \<longleftrightarrow>
    i \<in> set (trans_list s) \<and> tr_peer_addr (transs s ! i) = a"
proof
  assume r: "i \<in> set (trans_list s) \<and> tr_peer_addr (transs s ! i) = a"
  then obtain j where j: "sixp_trans_find (Some a) s = Some j"
    using sixp_trans_find_None [of a s] by (cases "sixp_trans_find (Some a) s") auto
  from sixp_trans_find_Some [OF j] r assms have "i = j"
    by (auto simp: trans_wf_def distinct_map dest: inj_onD)
  with j show "sixp_trans_find (Some a) s = Some i" by simp
qed (rule sixp_trans_find_Some)

definition fresh_trans :: "nat \<Rightarrow> nat \<Rightarrow> sixp_pkt \<Rightarrow> linkaddr \<Rightarrow> sixp_trans" where
  "fresh_trans sf n p a =
     \<lparr>tr_sf = Some sf, tr_peer_addr = a, tr_seqno = pkt_seqno p, tr_cmd = pkt_code p,
      tr_state = SIXP_TRANS_STATE_INIT, tr_mode = determine_trans_mode (Some p),
      tr_cb_func = None, tr_cb_arg = 0, tr_cb_arg_len = 0, tr_timer = Some (TIMER_TIMEOUT n)\<rparr>"

lemma determine_trans_mode_available: "determine_trans_mode (Some p) \<noteq> SIXP_TRANS_MODE_UNAVAILABLE"
  by (simp add: determine_trans_mode_def Let_def split: prod.split)

lemma trans_alloc_new:
  assumes wf: "trans_wf s" and sf: "sixtop_find_sf env (pkt_sfid p) s = Some f"
    and nf: "sixp_trans_find (Some a) s = None" and al: "memb_alloc (trans_memb s) = (Some i, m)"
  shows "i \<notin> set (trans_list s)"
    and "sixp_trans_alloc env (Some p) (Some a) s = Some (Some i, s\<lparr>trans_memb := m,
      transs := (transs s)[i := fresh_trans f (sf_timeout_interval (sx_sf env f)) p a],
      trans_list := trans_list s @ [i]\<rparr>)"
    and "trans_wf (s\<lparr>trans_memb := m,
      transs := (transs s)[i := fresh_trans f (sf_timeout_interval (sx_sf env f)) p a],
      trans_list := trans_list s @ [i]\<rparr>)"
proof -
  note fr = memb.alloc_fresh [OF al]
  have i: "i < length (transs s)" using fr wf by (simp add: trans_wf_def)
  show ni: "i \<notin> set (trans_list s)" using fr wf by (simp add: trans_wf_def)
  show "sixp_trans_alloc env (Some p) (Some a) s = Some (Some i, s\<lparr>trans_memb := m,
      transs := (transs s)[i := fresh_trans f (sf_timeout_interval (sx_sf env f)) p a],
      trans_list := trans_list s @ [i]\<rparr>)"
    using sf nf al i ni
    by (simp add: sixp_trans_alloc_def Let_def start_trans_timer_def upd_trans_def fresh_trans_def
        sixp_trans_zero_def remove1_idem)
  let ?t = "fresh_trans f (sf_timeout_interval (sx_sf env f)) p a"
  have m: "map (\<lambda>j. tr_peer_addr ((transs s)[i := ?t] ! j)) (trans_list s) =
      map (\<lambda>j. tr_peer_addr (transs s ! j)) (trans_list s)"
    using ni by (intro map_cong refl) (metis nth_list_update_neq)
  have l: "live_trans_ok ?t"
    by (simp add: live_trans_ok_def fresh_trans_def determine_trans_mode_available)
  have d: "distinct (map (\<lambda>j. tr_peer_addr ((transs s)[i := ?t] ! j)) (trans_list s @ [i]))"
    unfolding map_append m using wf nf i
    by (auto simp: trans_wf_def sixp_trans_find_None fresh_trans_def)
  have "live_trans_ok ((transs s)[i := ?t] ! j)" if "j \<in> set (trans_list s @ [i])" for j
    using that wf l i by (auto simp: trans_wf_def nth_list_update)
  with wf fr d ni show "trans_wf (s\<lparr>trans_memb := m, transs := (transs s)[i := ?t],
      trans_list := trans_list s @ [i]\<rparr>)"
    by (auto simp: trans_wf_def)
qed

lemma trans_alloc_refused:
  assumes "sixtop_find_sf env (pkt_sfid p) s = None \<or> sixp_trans_find (Some a) s \<noteq> None \<or>
    memb_numfree (trans_memb s) = 0"
  shows "sixp_trans_alloc env (Some p) (Some a) s = Some (None, s)"
  using assms memb.alloc_succeeds_iff [of "trans_memb s"]
  by (auto simp: sixp_trans_alloc_def split: option.splits prod.splits)

lemma trans_wf_alloc:
  assumes "trans_wf s" and "sixp_trans_alloc env pkt addr s = Some (r, s')"
  shows "trans_wf s'"
proof (cases "\<exists>p a f i m. pkt = Some p \<and> addr = Some a \<and> sixtop_find_sf env (pkt_sfid p) s = Some f \<and>
    sixp_trans_find (Some a) s = None \<and> memb_alloc (trans_memb s) = (Some i, m)")
  case True
  then obtain p a f i m where "pkt = Some p" "addr = Some a" "sixtop_find_sf env (pkt_sfid p) s = Some f"
    "sixp_trans_find (Some a) s = None" "memb_alloc (trans_memb s) = (Some i, m)" by blast
  with trans_alloc_new [OF assms(1) this(3-5)] assms(2) show ?thesis by simp
next
  case False
  with assms show ?thesis
    by (auto simp: sixp_trans_alloc_def split: option.splits prod.splits if_splits)
qed

lemma trans_wf_abort:
  assumes wf: "trans_wf s" and i: "i \<in> set (trans_list s)" and h: "handlers_ok env"
  shows "\<exists>s'. sixp_trans_abort env (Some i) s = Some s' \<and> trans_wf s' \<and>
    trans_list s' = remove1 i (trans_list s) \<and>
    memb_blocks (trans_memb s') = memb_blocks (trans_memb s) - {i} \<and>
    scheduling_functions s' = scheduling_functions s \<and>
    transs s' = (transs s)[i := sixp_trans_zero]"
proof -
  let ?t = "(transs s ! i)\<lparr>tr_state := SIXP_TRANS_STATE_TERMINATING, tr_timer := Some TIMER_PROCESS\<rparr>"
  note b = trans_wf_bound [OF wf i]
  from trans_wf_transit [OF wf i h, of SIXP_TRANS_STATE_TERMINATING] obtain s1 where
    s1: "sixp_trans_transit_state env (Some i) SIXP_TRANS_STATE_TERMINATING s = Some (0, s1)"
      "trans_wf s1" "trans_list s1 = trans_list s" "trans_memb s1 = trans_memb s"
      "scheduling_functions s1 = scheduling_functions s" "transs s1 = (transs s)[i := ?t]"
    by (auto simp: transit_ok_def)
  obtain s2 where s2: "sixp_trans_invoke_callback env (Some i) SIXP_OUTPUT_STATUS_ABORTED s1 = Some s2"
    "trans_frame s1 s2"
  proof (cases "tr_cb_func (transs s1 ! i)")
    case None
    then show ?thesis by (intro that [of s1]) (simp_all add: sixp_trans_invoke_callback_def)
  next
    case (Some g)
    obtain s2 where "sx_sent_cb env g (tr_cb_arg (transs s1 ! i)) (tr_cb_arg_len (transs s1 ! i))
        (tr_peer_addr (transs s1 ! i)) SIXP_OUTPUT_STATUS_ABORTED s1 = Some s2" "trans_frame s1 s2"
      using h unfolding handlers_ok_def by blast
    with Some show ?thesis by (intro that [of s2]) (simp_all add: sixp_trans_invoke_callback_def)
  qed
  have w2: "trans_wf s2" using s1(2) s2(2) by (simp add: trans_wf_frame)
  have i2: "i \<in> set (trans_list s2)" using i s1 s2(2) by (simp add: trans_frame_def)
  have b2: "i < length (transs s2)" by (rule trans_wf_bound [OF w2 i2])
  have t2: "tr_state (transs s2 ! i) = SIXP_TRANS_STATE_TERMINATING"
    using s1(6) s2(2) b by (simp add: trans_frame_def)
  have f: "trans_memb (stop_trans_timer i s2) = trans_memb s2"
    "trans_list (stop_trans_timer i s2) = trans_list s2"
    "scheduling_functions (stop_trans_timer i s2) = scheduling_functions s2"
    "transs (stop_trans_timer i s2) = (transs s2)[i := (transs s2 ! i)\<lparr>tr_timer := None\<rparr>]"
    by simp_all
  from process_trans_spec [OF w2 i2 f, of env] t2 s1 s2 show ?thesis
    by (auto simp: sixp_trans_abort_def sixp_trans_terminate_def trans_frame_def)
qed

lemma trans_free_all_length [simp]:
  "length (transs (sixp_trans_free_all is s)) = length (transs s) \<and>
   length (trans_memb (sixp_trans_free_all is s)) = length (trans_memb s)"
  by (induction "is" s rule: sixp_trans_free_all.induct) (simp_all add: sixp_trans_free_def Let_def)

lemma trans_wf_init:
  assumes "length (transs s) = length (trans_memb s)"
  shows "fst (sixp_trans_init s) = 0 \<and> trans_wf (snd (sixp_trans_init s)) \<and>
    trans_list (snd (sixp_trans_init s)) = [] \<and>
    (\<forall>t \<in> set (transs (snd (sixp_trans_init s))). t = sixp_trans_zero)"
  using assms by (simp add: sixp_trans_init_def trans_wf_def Let_def)

subsection \<open>Runs\<close>

text \<open>
  The operations that 6P applies to its transactions: any sequence of them, with arbitrary
  packets, peers and times, is a run.
\<close>

inductive sixp_trans_op ::
  "('a sixp_state_scheme) sixp_env \<Rightarrow> 'a sixp_state_scheme \<Rightarrow> 'a sixp_state_scheme \<Rightarrow> bool" for env where
  op_init: "sixp_trans_op env s (snd (sixp_trans_init s))"
| op_alloc: "sixp_trans_alloc env pkt addr s = Some (r, s') \<Longrightarrow> sixp_trans_op env s s'"
| op_transit: "sixp_trans_find addr s = Some i \<Longrightarrow>
    sixp_trans_transit_state env (Some i) st s = Some (r, s') \<Longrightarrow> sixp_trans_op env s s'"
| op_set_callback: "sixp_trans_find addr s = Some i \<Longrightarrow>
    sixp_trans_op env s (sixp_trans_set_callback (Some i) func arg len s)"
| op_expire: "i \<in> set (trans_list s) \<Longrightarrow> trans_timer_expire env i s = Some s' \<Longrightarrow> sixp_trans_op env s s'"
| op_abort: "sixp_trans_find addr s = Some i \<Longrightarrow> sixp_trans_abort env (Some i) s = Some s' \<Longrightarrow>
    sixp_trans_op env s s'"

lemma find_in_list: "sixp_trans_find addr s = Some i \<Longrightarrow> i \<in> set (trans_list s)"
  by (cases addr) (auto simp: sixp_trans_find_def find_Some_iff)

lemma sixp_trans_op_wf:
  assumes "sixp_trans_op env s s'" and wf: "trans_wf s" and h: "handlers_ok env"
  shows "trans_wf s'"
  using assms(1)
proof cases
  case op_init
  have "length (transs s) = length (trans_memb s)" using wf by (simp add: trans_wf_def)
  from trans_wf_init [OF this] op_init show ?thesis by simp
next
  case op_alloc
  then show ?thesis using trans_wf_alloc [OF wf] by blast
next
  case (op_transit addr i st r)
  then show ?thesis using trans_wf_transit [OF wf find_in_list h, of addr i st] by auto
next
  case (op_set_callback addr i func arg len)
  then have i: "i \<in> set (trans_list s)" by (simp add: find_in_list)
  show ?thesis
    unfolding op_set_callback(1) sixp_trans_set_callback_def option.case
    by (rule trans_wf_upd [OF wf i]) (use trans_wf_live [OF wf i] in \<open>simp_all add: live_trans_ok_def\<close>)
next
  case (op_expire i)
  then show ?thesis using trans_timer_expire_spec [OF wf _ h, of i] by auto
next
  case (op_abort addr i)
  then show ?thesis using trans_wf_abort [OF wf find_in_list h, of addr i] by auto
qed

lemma sixp_trans_run_wf:
  assumes "(sixp_trans_op env)\<^sup>*\<^sup>* s s'" and "trans_wf s" and "handlers_ok env"
  shows "trans_wf s'"
  using assms by (induction rule: rtranclp_induct) (auto intro: sixp_trans_op_wf)

text \<open>The timer of a transaction expires \<open>k\<close> times.\<close>

primrec trans_timer_expire_n ::
  "('a sixp_state_scheme) sixp_env \<Rightarrow> nat \<Rightarrow> nat \<Rightarrow> 'a sixp_state_scheme \<Rightarrow> 'a sixp_state_scheme ub" where
  "trans_timer_expire_n env i 0 s = Some s"
| "trans_timer_expire_n env i (Suc k) s =
     do { s1 \<leftarrow> trans_timer_expire env i s; trans_timer_expire_n env i k s1 }"

text \<open>A bound on the expirations that a transaction survives.\<close>

definition expiries_left :: "sixp_trans \<Rightarrow> nat" where
  "expiries_left t =
     (if tr_timer t = Some TIMER_PROCESS
      then if tr_state t = SIXP_TRANS_STATE_TERMINATING then 1 else if trans_done t then 2 else 3
      else 2)"

lemma after_expiry_decreases:
  "after_expiry n t = Some t' \<Longrightarrow> expiries_left t' < expiries_left t"
  by (auto simp: after_expiry_def expiries_left_def trans_done_def split: if_splits)

lemma trans_expires:
  assumes "trans_wf s" and "i \<in> set (trans_list s)" and h: "handlers_ok env"
  shows "\<exists>k \<le> expiries_left (transs s ! i). \<exists>s'. trans_timer_expire_n env i k s = Some s' \<and>
    trans_list s' = remove1 i (trans_list s) \<and> memb_blocks (trans_memb s') = memb_blocks (trans_memb s) - {i} \<and>
    (\<forall>j. j \<noteq> i \<longrightarrow> transs s' ! j = transs s ! j)"
  using assms(1,2)
proof (induction "expiries_left (transs s ! i)" arbitrary: s rule: less_induct)
  case less
  from trans_timer_expire_spec [OF less.prems h] obtain s1 n where
    s1: "trans_timer_expire env i s = Some s1" "trans_wf s1"
    and c: "case after_expiry n (transs s ! i) of
       None \<Rightarrow> trans_list s1 = remove1 i (trans_list s) \<and>
               memb_blocks (trans_memb s1) = memb_blocks (trans_memb s) - {i} \<and>
               transs s1 = (transs s)[i := sixp_trans_zero]
     | Some t \<Rightarrow> trans_list s1 = trans_list s \<and> trans_memb s1 = trans_memb s \<and>
                  transs s1 = (transs s)[i := t]" by blast
  show ?case
  proof (cases "after_expiry n (transs s ! i)")
    case None
    have "trans_timer_expire_n env i 1 s = Some s1" by (simp add: s1)
    moreover have "1 \<le> expiries_left (transs s ! i)" by (simp add: expiries_left_def)
    ultimately show ?thesis using c None by (intro exI [of _ 1]) simp
  next
    case (Some t)
    have "i < length (transs s)" using less.prems by (rule trans_wf_bound)
    with Some c have t: "transs s1 ! i = t" "trans_list s1 = trans_list s"
      "trans_memb s1 = trans_memb s" "transs s1 = (transs s)[i := t]" by simp_all
    have d: "expiries_left (transs s1 ! i) < expiries_left (transs s ! i)"
      using after_expiry_decreases [OF Some] t by simp
    have "i \<in> set (trans_list s1)" using less.prems t by simp
    from less.hyps [OF d s1(2) this] obtain k s' where
      k: "k \<le> expiries_left (transs s1 ! i)" "trans_timer_expire_n env i k s1 = Some s'"
        "trans_list s' = remove1 i (trans_list s1)"
        "memb_blocks (trans_memb s') = memb_blocks (trans_memb s1) - {i}"
        "\<forall>j. j \<noteq> i \<longrightarrow> transs s' ! j = transs s1 ! j" by blast
    then show ?thesis using d t s1 by (intro exI [of _ "Suc k"] conjI exI [of _ s']) simp_all
  qed
qed

subsection \<open>Properties\<close>

text \<open>
  C2: Whatever 6P does after \<open>sixp_trans_init\<close> - starting transactions, moving them, setting
  their callbacks, letting their timers expire, aborting them, initialising again - every
  transaction in the list has a block of the pool of its own, a peer that no other transaction
  has, a driver and a running timer, and is neither unavailable nor waiting to be freed; and
  every block that is not in the list is free.
\<close>

theorem sixp_trans_invariant:
  assumes "length (transs s) = length (trans_memb s)" and "handlers_ok env"
    and "(sixp_trans_op env)\<^sup>*\<^sup>* (snd (sixp_trans_init s)) s'"
  shows "distinct (trans_list s') \<and> set (trans_list s') = memb_blocks (trans_memb s') \<and>
    (\<forall>i \<in> set (trans_list s'). \<forall>j \<in> set (trans_list s').
       tr_peer_addr (transs s' ! i) = tr_peer_addr (transs s' ! j) \<longrightarrow> i = j) \<and>
    (\<forall>i \<in> set (trans_list s'). tr_sf (transs s' ! i) \<noteq> None \<and> tr_timer (transs s' ! i) \<noteq> None \<and>
       tr_state (transs s' ! i) \<notin> {SIXP_TRANS_STATE_UNAVAILABLE, SIXP_TRANS_STATE_WAIT_FREE})"
proof -
  have "trans_wf s'" using sixp_trans_run_wf [OF assms(3)] trans_wf_init [OF assms(1)] assms(2) by blast
  then show ?thesis
    by (auto simp: trans_wf_def live_trans_ok_def distinct_map dest: inj_onD)
qed

text \<open>
  C36: No transaction leaks.  Three expirations of its timer, whichever handler they run and
  whatever its state was, take any live transaction out of the list and give its block back,
  without touching the other transactions; so a peer that stops answering blocks further
  transactions only until its timeout.
\<close>

theorem sixp_trans_freed:
  assumes wf: "trans_wf s" and i: "i \<in> set (trans_list s)" and h: "handlers_ok env"
  shows "\<exists>k \<le> 3. \<exists>s'. trans_timer_expire_n env i k s = Some s' \<and>
    trans_list s' = remove1 i (trans_list s) \<and> memb_blocks (trans_memb s') = memb_blocks (trans_memb s) - {i} \<and>
    (\<forall>j. j \<noteq> i \<longrightarrow> transs s' ! j = transs s ! j)"
proof -
  have "expiries_left (transs s ! i) \<le> 3" by (simp add: expiries_left_def)
  then show ?thesis using trans_expires [OF wf i h] order_trans by blast
qed

text \<open>A state with one transaction waiting for its response, and an environment of silent handlers.\<close>

definition sixp_trans_example :: sixp_trans where
  "sixp_trans_example = \<lparr>tr_sf = Some 0, tr_peer_addr = 7, tr_seqno = 254, tr_cmd = SIXP_PKT_CMD_ADD,
     tr_state = SIXP_TRANS_STATE_REQUEST_SENT, tr_mode = SIXP_TRANS_MODE_2_STEP,
     tr_cb_func = Some 0, tr_cb_arg = 0, tr_cb_arg_len = 0, tr_timer = Some TIMER_PROCESS\<rparr>"

definition sixp_example :: sixp_state where
  "sixp_example = sixp_nbr_state.extend sixp_nbr_example
     \<lparr>trans_memb = [True], transs = [sixp_trans_example], trans_list = [0], scheduling_functions = [Some 0]\<rparr>"

definition silent_sf :: "'s sixtop_sf" where
  "silent_sf = \<lparr>sf_sfid = 0xf0, sf_timeout_interval = 256, sf_init = None,
     sf_timeout = Some (\<lambda>_ _ s. Some s), sf_error = None\<rparr>"

definition sixp_env_silent :: "('a sixp_state_scheme) sixp_env" where
  "sixp_env_silent = \<lparr>sx_queue = queue_env_default, sx_sf = (\<lambda>_. silent_sf),
     sx_sent_cb = (\<lambda>_ _ _ _ _ s. Some s), sx_mac_send = (\<lambda>_ s. Some (None, s)), sx_node_addr = 1\<rparr>"

lemma sixp_env_silent_ok: "handlers_ok sixp_env_silent"
  by (simp add: handlers_ok_def sixp_env_silent_def silent_sf_def)

lemma sixp_example_fields [simp]:
  "trans_memb sixp_example = [True]" "transs sixp_example = [sixp_trans_example]"
  "trans_list sixp_example = [0]" "scheduling_functions sixp_example = [Some 0]"
  by (simp_all add: sixp_example_def sixp_nbr_state.extend_def)

lemma sixp_example_wf: "trans_wf sixp_example"
  by (simp add: trans_wf_def live_trans_ok_def sixp_trans_example_def memb_blocks_def less_Suc_eq Collect_conv_if)

definition sixp_pkt_example :: sixp_pkt where
  "sixp_pkt_example = \<lparr>pkt_version = 0, pkt_ptype = SIXP_PKT_TYPE_REQUEST, pkt_code = SIXP_PKT_CMD_ADD,
     pkt_sfid = 0xf0, pkt_seqno = 0, pkt_body = Some [0, 0, 1, 1, 3, 0, 2, 0], pkt_body_len = 8\<rparr>"

theorem sixp_trans_freed_witness:
  "\<exists>k \<le> 3. \<exists>s'. trans_timer_expire_n sixp_env_silent 0 k sixp_example = Some s' \<and> trans_list s' = [] \<and>
     memb_blocks (trans_memb s') = {}"
proof -
  have "(0 :: nat) \<in> set (trans_list sixp_example)" by simp
  from sixp_trans_freed [OF sixp_example_wf this sixp_env_silent_ok]
  obtain k s' where "k \<le> 3" "trans_timer_expire_n sixp_env_silent 0 k sixp_example = Some s'"
    "trans_list s' = remove1 0 (trans_list sixp_example)"
    "memb_blocks (trans_memb s') = memb_blocks (trans_memb sixp_example) - {0}" by blast
  then show ?thesis by (intro exI [of _ k] conjI exI [of _ s']) (auto simp: memb_blocks_def)
qed

lemma sixp_alloc_example:
  "\<exists>s'. sixp_trans_alloc sixp_env_silent (Some sixp_pkt_example) (Some 9) (snd (sixp_trans_init sixp_example)) =
     Some (Some 0, s') \<and> trans_list s' = [0]"
proof -
  let ?s = "snd (sixp_trans_init sixp_example)"
  have l: "trans_list ?s = []" "trans_memb ?s = [False]" "scheduling_functions ?s = [Some 0]"
    "length (transs ?s) = 1"
    by (simp_all add: sixp_trans_init_def Let_def memb_init_def sixp_trans_free_def
        sixp_trans_example_def sixp_example_def sixp_nbr_state.extend_def stop_trans_timer_def upd_trans_def
        memb_free_def)
  have w: "trans_wf ?s" using trans_wf_init [of sixp_example] by simp
  have sf: "sixtop_find_sf sixp_env_silent (pkt_sfid sixp_pkt_example) ?s = Some 0"
    by (simp add: sixtop_find_sf_def l sixp_env_silent_def silent_sf_def sixp_pkt_example_def)
  have nf: "sixp_trans_find (Some 9) ?s = None" by (simp add: sixp_trans_find_def l)
  have al: "memb_alloc (trans_memb ?s) = (Some 0, [True])" by (simp add: l memb_alloc_def)
  from trans_alloc_new(2) [OF w sf nf al] show ?thesis by (simp add: l)
qed

theorem sixp_trans_invariant_witness:
  "\<exists>s'. (sixp_trans_op sixp_env_silent)\<^sup>*\<^sup>* (snd (sixp_trans_init sixp_example)) s' \<and>
     trans_list s' = [0] \<and> memb_blocks (trans_memb s') = {0} \<and> tr_timer (transs s' ! 0) \<noteq> None"
proof -
  obtain s' where a: "sixp_trans_alloc sixp_env_silent (Some sixp_pkt_example) (Some 9)
      (snd (sixp_trans_init sixp_example)) = Some (Some 0, s')" and l: "trans_list s' = [0]"
    using sixp_alloc_example by blast
  have r: "(sixp_trans_op sixp_env_silent)\<^sup>*\<^sup>* (snd (sixp_trans_init sixp_example)) s'"
    using op_alloc [OF a] by (rule r_into_rtranclp)
  have "length (transs sixp_example) = length (trans_memb sixp_example)" by simp
  from sixp_trans_invariant [OF this sixp_env_silent_ok r] l r show ?thesis
    by (intro exI [of _ s']) auto
qed

text \<open>
  Starting a transaction.  \<open>sixp_trans_alloc\<close> refuses - and changes nothing - exactly when no
  scheduling function has the packet's SFID, when there is a transaction with the peer already,
  or when the pool is exhausted.  Otherwise it takes a free block, which \<open>sixp_trans_find\<close> then
  returns for the peer, in the initial state with the packet's sequence number and command and
  with the driver's timeout running; transactions with other peers are found as before.
\<close>

theorem sixp_trans_alloc_spec:
  assumes wf: "trans_wf s"
  shows "if sixtop_find_sf env (pkt_sfid p) s = None \<or> sixp_trans_find (Some a) s \<noteq> None \<or>
            memb_numfree (trans_memb s) = 0
    then sixp_trans_alloc env (Some p) (Some a) s = Some (None, s)
    else \<exists>i s'. sixp_trans_alloc env (Some p) (Some a) s = Some (Some i, s') \<and> trans_wf s' \<and>
      i \<notin> memb_blocks (trans_memb s) \<and> sixp_trans_find (Some a) s' = Some i \<and>
      (\<forall>b. b \<noteq> a \<longrightarrow> sixp_trans_find (Some b) s' = sixp_trans_find (Some b) s) \<and>
      tr_state (transs s' ! i) = SIXP_TRANS_STATE_INIT \<and>
      tr_seqno (transs s' ! i) = pkt_seqno p \<and> tr_cmd (transs s' ! i) = pkt_code p \<and>
      tr_timer (transs s' ! i) =
        Some (TIMER_TIMEOUT (sf_timeout_interval (sx_sf env (the (sixtop_find_sf env (pkt_sfid p) s)))))"
proof (cases "sixtop_find_sf env (pkt_sfid p) s = None \<or> sixp_trans_find (Some a) s \<noteq> None \<or>
    memb_numfree (trans_memb s) = 0")
  case True
  then show ?thesis using trans_alloc_refused [of env p s a] by simp
next
  case False
  then obtain f i m where sf: "sixtop_find_sf env (pkt_sfid p) s = Some f"
    and nf: "sixp_trans_find (Some a) s = None" and al: "memb_alloc (trans_memb s) = (Some i, m)"
    using memb.alloc_succeeds_iff [of "trans_memb s"] by auto
  note new = trans_alloc_new [OF wf sf nf al]
  let ?s = "s\<lparr>trans_memb := m, transs := (transs s)[i := fresh_trans f (sf_timeout_interval (sx_sf env f)) p a],
    trans_list := trans_list s @ [i]\<rparr>"
  note fr = memb.alloc_fresh [OF al]
  have i: "i < length (transs s)" using fr wf by (simp add: trans_wf_def)
  have "sixp_trans_find (Some a) ?s = Some i"
    unfolding sixp_trans_find_iff [OF new(3)] using i by (simp add: fresh_trans_def)
  moreover have "sixp_trans_find (Some b) ?s = sixp_trans_find (Some b) s" if "b \<noteq> a" for b
  proof -
    have "sixp_trans_find (Some b) ?s = Some j \<longleftrightarrow> sixp_trans_find (Some b) s = Some j" for j
      unfolding sixp_trans_find_iff [OF new(3)] sixp_trans_find_iff [OF wf]
      using i new(1) that by (auto simp: fresh_trans_def nth_list_update)
    then show ?thesis by (metis option.exhaust)
  qed
  ultimately show ?thesis using False new fr i sf by (auto simp: fresh_trans_def)
qed

theorem sixp_trans_alloc_spec_witness:
  "sixp_trans_alloc sixp_env_silent (Some sixp_pkt_example) (Some 9) sixp_example = Some (None, sixp_example) \<and>
   memb_numfree (trans_memb sixp_example) = 0"
  using sixp_trans_alloc_spec [OF sixp_example_wf, of sixp_env_silent sixp_pkt_example 9] by simp

subsection \<open>Transitions of a transaction over time\<close>

text \<open>
  A list of requested transitions, and the trace of those that were accepted.
\<close>

fun transit_all ::
  "('a sixp_state_scheme) sixp_env \<Rightarrow> nat \<Rightarrow> sixp_trans_state list \<Rightarrow> 'a sixp_state_scheme \<Rightarrow>
   (sixp_trans_state list \<times> 'a sixp_state_scheme) ub" where
  "transit_all env i [] s = Some ([], s)"
| "transit_all env i (st # sts) s = do {
     (r, s1) \<leftarrow> sixp_trans_transit_state env (Some i) st s;
     (tr, s2) \<leftarrow> transit_all env i sts s1;
     Some (if r = 0 then st # tr else tr, s2)
   }"

fun trans_trace :: "sixp_trans_mode \<Rightarrow> sixp_trans_state \<Rightarrow> sixp_trans_state list \<Rightarrow> bool" where
  "trans_trace m st [] = True"
| "trans_trace m st (st' # sts) = (trans_step m st st' \<and> trans_trace m st' sts)"

lemma transit_all_trace:
  assumes "trans_wf s" and "i \<in> set (trans_list s)" and h: "handlers_ok env"
  shows "\<exists>tr s'. transit_all env i sts s = Some (tr, s') \<and> trans_wf s' \<and> i \<in> set (trans_list s') \<and>
    tr_mode (transs s' ! i) = tr_mode (transs s ! i) \<and>
    trans_trace (tr_mode (transs s ! i)) (tr_state (transs s ! i)) tr \<and>
    tr_state (transs s' ! i) = last (tr_state (transs s ! i) # tr)"
  using assms(1,2)
proof (induction sts arbitrary: s)
  case (Cons st sts)
  note b = trans_wf_bound [OF Cons.prems]
  from trans_wf_transit [OF Cons.prems h, of st] obtain r s1 where
    s1: "sixp_trans_transit_state env (Some i) st s = Some (r, s1)" "trans_wf s1"
      "trans_list s1 = trans_list s"
    and c: "if transit_ok (tr_mode (transs s ! i)) (tr_state (transs s ! i)) st
     then r = 0 \<and> transs s1 = (transs s)[i := (transs s ! i)\<lparr>tr_state := st, tr_timer := Some TIMER_PROCESS\<rparr>]
     else r = -1 \<and> transs s1 = transs s" by blast
  have "i \<in> set (trans_list s1)" using Cons.prems s1 by simp
  from Cons.IH [OF s1(2) this] obtain tr s2 where
    s2: "transit_all env i sts s1 = Some (tr, s2)" "trans_wf s2" "i \<in> set (trans_list s2)"
      "tr_mode (transs s2 ! i) = tr_mode (transs s1 ! i)"
      "trans_trace (tr_mode (transs s1 ! i)) (tr_state (transs s1 ! i)) tr"
      "tr_state (transs s2 ! i) = last (tr_state (transs s1 ! i) # tr)" by blast
  show ?case
  proof (cases "transit_ok (tr_mode (transs s ! i)) (tr_state (transs s ! i)) st")
    case True
    with c b have "r = 0" "transs s1 ! i = (transs s ! i)\<lparr>tr_state := st, tr_timer := Some TIMER_PROCESS\<rparr>"
      by simp_all
    with True s1 s2 show ?thesis by (auto simp: transit_ok_iff_step)
  next
    case False
    with c have "r = -1" "transs s1 = transs s" by simp_all
    with s1 s2 show ?thesis by auto
  qed
qed simp

lemma trace_terminated:
  assumes "trans_trace m SIXP_TRANS_STATE_TERMINATING sts"
  shows "set sts \<subseteq> {SIXP_TRANS_STATE_TERMINATING}"
  using assms by (induction sts) (auto simp: trans_step_simps)

lemma trace_in_role:
  assumes "trans_trace m st sts" and "st \<in> R" and "R = requester_states m \<or> R = responder_states m"
  shows "set sts \<subseteq> insert SIXP_TRANS_STATE_TERMINATING R"
  using assms(1,2)
proof (induction sts arbitrary: st)
  case (Cons st' sts)
  show ?case
  proof (cases "st' = SIXP_TRANS_STATE_TERMINATING")
    case True
    then show ?thesis using Cons.prems trace_terminated [of m sts] by auto
  next
    case False
    then have "st' \<in> R" using trans_step_role [of m st st'] Cons.prems assms(3) by auto
    with Cons show ?thesis by auto
  qed
qed simp

lemma trace_rank:
  assumes "trans_trace m st sts" and "st \<noteq> SIXP_TRANS_STATE_TERMINATING"
  shows "trans_rank st + length (filter (\<lambda>x. x \<noteq> SIXP_TRANS_STATE_TERMINATING) sts) \<le> 5"
  using assms
proof (induction sts arbitrary: st)
  case Nil
  then show ?case by (cases st) simp_all
next
  case (Cons st' sts)
  show ?case
  proof (cases "st' = SIXP_TRANS_STATE_TERMINATING")
    case True
    then have "filter (\<lambda>x. x \<noteq> SIXP_TRANS_STATE_TERMINATING) (st' # sts) = []"
      using Cons.prems trace_terminated [of m sts] by (auto simp: filter_empty_conv)
    then show ?thesis using Cons.prems(2) by (cases st) simp_all
  next
    case False
    then show ?thesis using Cons.IH [of st'] Cons.prems trans_step_rank [of m st st'] by simp
  qed
qed

lemma trace_first:
  assumes "trans_step m SIXP_TRANS_STATE_INIT st" and "trans_trace m st sts"
  shows "length (filter (\<lambda>x. x \<noteq> SIXP_TRANS_STATE_TERMINATING) (st # sts)) \<le> 5"
proof (cases "st = SIXP_TRANS_STATE_TERMINATING")
  case True
  then have "filter (\<lambda>x. x \<noteq> SIXP_TRANS_STATE_TERMINATING) sts = []"
    using assms trace_terminated [of m sts] by (auto simp: filter_empty_conv)
  with True show ?thesis by simp
next
  case False
  then show ?thesis
    using trans_step_rank [OF assms(1) False] trace_rank [OF assms(2) False] by simp
qed

text \<open>
  A 6P transaction plays one role.  Whatever transitions are requested of a transaction in its
  initial state, in any order, the accepted ones are all those of the requesting node (request
  sending and sent, response received, and in a 3-step transaction confirmation sending and
  sent) or all those of the responding node (request received, response sending and sent, and
  in a 3-step transaction confirmation received), apart from termination; a 2-step transaction
  has no confirmation; at most five transitions precede termination, so no sequence of messages
  keeps a transaction moving for ever.
\<close>

theorem sixp_trans_roles:
  assumes wf: "trans_wf s" and i: "i \<in> set (trans_list s)" and h: "handlers_ok env"
    and st: "tr_state (transs s ! i) = SIXP_TRANS_STATE_INIT"
  shows "\<exists>tr s'. transit_all env i sts s = Some (tr, s') \<and>
    (set tr \<subseteq> insert SIXP_TRANS_STATE_TERMINATING (requester_states (tr_mode (transs s ! i))) \<or>
     set tr \<subseteq> insert SIXP_TRANS_STATE_TERMINATING (responder_states (tr_mode (transs s ! i)))) \<and>
    length (filter (\<lambda>x. x \<noteq> SIXP_TRANS_STATE_TERMINATING) tr) \<le> 5 \<and>
    tr_state (transs s' ! i) = last (SIXP_TRANS_STATE_INIT # tr)"
proof -
  let ?m = "tr_mode (transs s ! i)"
  obtain tr s' where t: "transit_all env i sts s = Some (tr, s')"
    "trans_trace ?m SIXP_TRANS_STATE_INIT tr" "tr_state (transs s' ! i) = last (SIXP_TRANS_STATE_INIT # tr)"
    using transit_all_trace [OF wf i h, of sts] unfolding st by blast
  have "(set tr \<subseteq> insert SIXP_TRANS_STATE_TERMINATING (requester_states ?m) \<or>
     set tr \<subseteq> insert SIXP_TRANS_STATE_TERMINATING (responder_states ?m)) \<and>
    length (filter (\<lambda>x. x \<noteq> SIXP_TRANS_STATE_TERMINATING) tr) \<le> 5"
  proof (cases tr)
    case (Cons st' rest)
    with t have step: "trans_step ?m SIXP_TRANS_STATE_INIT st'" and rest: "trans_trace ?m st' rest" by simp_all
    from step consider "st' \<in> requester_states ?m" | "st' \<in> responder_states ?m"
      | "st' = SIXP_TRANS_STATE_TERMINATING"
      by (auto elim: trans_step_from_init simp: requester_states_def responder_states_def)
    then show ?thesis
    proof cases
      case 3
      then have "filter (\<lambda>x. x \<noteq> SIXP_TRANS_STATE_TERMINATING) (st' # rest) = []"
        using rest trace_terminated [of ?m rest] by (auto simp: filter_empty_conv)
      then show ?thesis using 3 rest trace_terminated [of ?m rest] unfolding Cons by auto
    qed (use trace_in_role [OF rest] trace_first [OF step rest] in \<open>auto simp: Cons\<close>)
  qed simp
  with t show ?thesis by blast
qed

definition sixp_example_init :: sixp_state where
  "sixp_example_init = sixp_example
     \<lparr>transs := [sixp_trans_example\<lparr>tr_state := SIXP_TRANS_STATE_INIT\<rparr>]\<rparr>"

theorem sixp_trans_roles_witness:
  "\<exists>tr s'. transit_all sixp_env_silent 0
      [SIXP_TRANS_STATE_REQUEST_SENDING, SIXP_TRANS_STATE_RESPONSE_SENDING,
       SIXP_TRANS_STATE_REQUEST_SENT, SIXP_TRANS_STATE_CONFIRMATION_SENDING] sixp_example_init = Some (tr, s') \<and>
     length (filter (\<lambda>x. x \<noteq> SIXP_TRANS_STATE_TERMINATING) tr) \<le> 5"
proof -
  have w: "trans_wf sixp_example_init"
    by (simp add: sixp_example_init_def trans_wf_def live_trans_ok_def sixp_trans_example_def
        memb_blocks_def less_Suc_eq Collect_conv_if)
  have i: "(0 :: nat) \<in> set (trans_list sixp_example_init)" by (simp add: sixp_example_init_def)
  have st: "tr_state (transs sixp_example_init ! 0) = SIXP_TRANS_STATE_INIT"
    by (simp add: sixp_example_init_def)
  show ?thesis
    using sixp_trans_roles [OF w i sixp_env_silent_ok st] by blast
qed

lemma ucast_u8_u16: "ucast (ucast (x :: u8) :: u16) = x"
  by (rule bit_word_eqI) (simp add: bit_simps)

text \<open>
  When a response has been sent, the sequence number of the neighbour becomes the one after
  the number of the answered request (after 255 comes 1), unless the request was CLEAR, which
  leaves it alone; no other transition touches a neighbour's sequence number.
\<close>

theorem sixp_trans_response_sent_seqno:
  assumes ok: "transit_ok (tr_mode (transs s ! i)) (tr_state (transs s ! i)) st"
    and nbr: "sixp_nbr_find (Some (tr_peer_addr (transs s ! i))) s = Some n"
    and n: "n < length (sixp_nbr_items s)"
  shows "\<exists>s'. sixp_trans_transit_state env (Some i) st s = Some (0, s') \<and>
    (if st = SIXP_TRANS_STATE_RESPONSE_SENT \<and> tr_cmd (transs s ! i) \<noteq> SIXP_PKT_CMD_CLEAR
     then unat (nbr_next_seqno (sixp_nbr_items s' ! n)) = seqno_after (unat (tr_seqno (transs s ! i))) 1 \<and>
          (\<forall>k. k \<noteq> n \<longrightarrow> sixp_nbr_items s' ! k = sixp_nbr_items s ! k)
     else sixp_nbr_items s' = sixp_nbr_items s)"
proof (cases "st = SIXP_TRANS_STATE_RESPONSE_SENT \<and> tr_cmd (transs s ! i) \<noteq> SIXP_PKT_CMD_CLEAR")
  case True
  let ?s1 = "snd (sixp_nbr_set_next_seqno (Some n) (ucast (tr_seqno (transs s ! i))) s)"
  let ?s2 = "snd (sixp_nbr_increment_next_seqno (Some n) ?s1)"
  have l: "n < length (sixp_nbr_items ?s1)"
    using n by (simp add: sixp_nbr_set_next_seqno_def upd_sixp_nbr_def)
  have v: "nbr_next_seqno (sixp_nbr_items ?s1 ! n) = tr_seqno (transs s ! i)"
    using n by (simp add: sixp_nbr_set_next_seqno_def upd_sixp_nbr_def ucast_u8_u16)
  have r: "unat (nbr_next_seqno (sixp_nbr_items ?s2 ! n)) = seqno_after (unat (tr_seqno (transs s ! i))) 1"
    using increment_next_seqno_value [OF l] v by simp
  have o: "sixp_nbr_items ?s2 ! k = sixp_nbr_items s ! k" if "k \<noteq> n" for k
    using that by (simp add: sixp_nbr_set_next_seqno_def sixp_nbr_increment_next_seqno_def upd_sixp_nbr_def)
  let ?s' = "schedule_trans_process (Some i) (upd_trans i (\<lambda>t. t\<lparr>tr_state := st\<rparr>) ?s2)"
  have "sixp_trans_transit_state env (Some i) st s = Some (0, ?s')"
    using ok nbr True by (simp add: sixp_trans_transit_state_def Let_def)
  moreover have "sixp_nbr_items ?s' = sixp_nbr_items ?s2" by (simp add: schedule_trans_process_def)
  ultimately show ?thesis using True r o by simp
next
  case False
  then show ?thesis using ok nbr
    by (auto simp: sixp_trans_transit_state_def Let_def schedule_trans_process_def)
qed

theorem sixp_trans_response_sent_seqno_witness:
  "\<exists>s'. sixp_trans_transit_state sixp_env_silent (Some 0) SIXP_TRANS_STATE_RESPONSE_SENT
      (sixp_example\<lparr>transs := [sixp_trans_example\<lparr>tr_state := SIXP_TRANS_STATE_RESPONSE_SENDING\<rparr>]\<rparr>) = Some (0, s') \<and>
    unat (nbr_next_seqno (sixp_nbr_items s' ! 0)) = 255"
proof -
  let ?s = "sixp_example\<lparr>transs := [sixp_trans_example\<lparr>tr_state := SIXP_TRANS_STATE_RESPONSE_SENDING\<rparr>]\<rparr>"
  have ok: "transit_ok (tr_mode (transs ?s ! 0)) (tr_state (transs ?s ! 0)) SIXP_TRANS_STATE_RESPONSE_SENT"
    by (simp add: transit_ok_def)
  have n: "0 < length (sixp_nbr_items ?s)"
    by (simp add: sixp_example_def sixp_nbr_state.extend_def sixp_nbr_example_def tsch_sched_state.extend_def)
  have f: "sixp_nbr_find (Some (tr_peer_addr (transs ?s ! 0))) ?s = Some 0"
    by (simp add: sixp_nbr_find_def nbr_table_get_from_lladdr_def index_from_lladdr_def nbr_get_bit_def
        sixp_nbrs_def sixp_example_def sixp_nbr_state.extend_def sixp_nbr_example_def
        tsch_sched_state.extend_def sched_example_def tsch_queue_state.extend_def tsch_example_def
        sixp_trans_example_def)
  from sixp_trans_response_sent_seqno [OF ok f n, of sixp_env_silent] show ?thesis
    by (auto simp add: sixp_trans_example_def seqno_after_def)
qed

end
