(* ===== verification/Frame_Ie.thy ===== *)
theory Frame_Ie
  imports Tsch_Asn
begin

section \<open>Information elements\<close>

text \<open>
  Model of \<open>os/net/mac/framer/frame802154e-ie.c\<close>: the information elements (IEs) of a frame, which
  carry the 6P messages and the contents of the beacons.  A creation routine writes one element
  at the offset \<open>p\<close> of the memory \<open>m\<close> that the pointer \<open>buf\<close> points into; \<open>len\<close> is the room the
  caller promises.  The parser walks over the elements from an offset on; \<open>None\<close> is an access
  outside the memory.  The loop of \<open>frame802154e_parse_information_elements\<close> is the function
  \<open>parse_ie_loop\<close> with the body \<open>parse_ie_step\<close>, which either returns a result or the next
  parsing state with the length to skip.
\<close>

record tsch_slotframe_and_links_link =
  sl_timeslot :: u16
  sl_channel_offset :: u16
  sl_link_options :: u8

record tsch_slotframe_and_links =
  sl_num_slotframes :: u8
  sl_slotframe_handle :: u8
  sl_slotframe_size :: u16
  sl_num_links :: u8
  sl_links :: "tsch_slotframe_and_links_link list"

record ieee802154_ies =
  ie_time_correction :: u16
  ie_is_nack :: u8
  ie_payload_ie_offset :: u8
  ie_mlme_len :: u16
  ie_asn :: tsch_asn
  ie_join_priority :: u8
  ie_tsch_timeslot_id :: u8
  ie_tsch_timeslot :: "u16 list"
  ie_slotframe_and_link :: tsch_slotframe_and_links
  ie_channel_hopping_sequence_id :: u8
  ie_hopping_sequence_len :: u16
  ie_hopping_sequence_list :: "u8 list"
  sixtop_ie_content_ptr :: "nat option"
  sixtop_ie_content_len :: u16

definition FRAME802154E_IE_MAX_LINKS :: nat where "FRAME802154E_IE_MAX_LINKS = 4"
definition TSCH_HOPPING_SEQUENCE_MAX_LEN :: nat where "TSCH_HOPPING_SEQUENCE_MAX_LEN = 4"
definition tsch_ts_elements_count :: nat where "tsch_ts_elements_count = 12"

definition HEADER_IE_ACK_NACK_TIME_CORRECTION :: u8 where "HEADER_IE_ACK_NACK_TIME_CORRECTION = 0x1e"
definition HEADER_IE_LIST_TERMINATION_1 :: u8 where "HEADER_IE_LIST_TERMINATION_1 = 0x7e"
definition HEADER_IE_LIST_TERMINATION_2 :: u8 where "HEADER_IE_LIST_TERMINATION_2 = 0x7f"
definition PAYLOAD_IE_MLME :: u8 where "PAYLOAD_IE_MLME = 1"
definition PAYLOAD_IE_IETF :: u8 where "PAYLOAD_IE_IETF = 0x5"
definition PAYLOAD_IE_LIST_TERMINATION :: u8 where "PAYLOAD_IE_LIST_TERMINATION = 0xf"
definition MLME_SHORT_IE_TSCH_SYNCHRONIZATION :: u8 where "MLME_SHORT_IE_TSCH_SYNCHRONIZATION = 0x1a"
definition MLME_SHORT_IE_TSCH_SLOFTRAME_AND_LINK :: u8 where
  "MLME_SHORT_IE_TSCH_SLOFTRAME_AND_LINK = 0x1b"
definition MLME_SHORT_IE_TSCH_TIMESLOT :: u8 where "MLME_SHORT_IE_TSCH_TIMESLOT = 0x1c"
definition MLME_LONG_IE_TSCH_CHANNEL_HOPPING_SEQUENCE :: u8 where
  "MLME_LONG_IE_TSCH_CHANNEL_HOPPING_SEQUENCE = 0x9"
definition SIXTOP_SUBIE_ID :: u8 where "SIXTOP_SUBIE_ID = 0xc9"

lemmas ie_id_defs =
  HEADER_IE_ACK_NACK_TIME_CORRECTION_def HEADER_IE_LIST_TERMINATION_1_def
  HEADER_IE_LIST_TERMINATION_2_def PAYLOAD_IE_MLME_def PAYLOAD_IE_IETF_def
  PAYLOAD_IE_LIST_TERMINATION_def MLME_SHORT_IE_TSCH_SYNCHRONIZATION_def
  MLME_SHORT_IE_TSCH_SLOFTRAME_AND_LINK_def MLME_SHORT_IE_TSCH_TIMESLOT_def
  MLME_LONG_IE_TSCH_CHANNEL_HOPPING_SEQUENCE_def SIXTOP_SUBIE_ID_def

definition link_zero :: tsch_slotframe_and_links_link where
  "link_zero = \<lparr>sl_timeslot = 0, sl_channel_offset = 0, sl_link_options = 0\<rparr>"

definition ies_zero :: ieee802154_ies where
  "ies_zero = \<lparr>ie_time_correction = 0, ie_is_nack = 0, ie_payload_ie_offset = 0, ie_mlme_len = 0,
     ie_asn = \<lparr>ls4b = 0, ms1b = 0\<rparr>, ie_join_priority = 0, ie_tsch_timeslot_id = 0,
     ie_tsch_timeslot = replicate tsch_ts_elements_count 0,
     ie_slotframe_and_link = \<lparr>sl_num_slotframes = 0, sl_slotframe_handle = 0, sl_slotframe_size = 0,
       sl_num_links = 0, sl_links = replicate FRAME802154E_IE_MAX_LINKS link_zero\<rparr>,
     ie_channel_hopping_sequence_id = 0, ie_hopping_sequence_len = 0,
     ie_hopping_sequence_list = replicate TSCH_HOPPING_SEQUENCE_MAX_LEN 0,
     sixtop_ie_content_ptr = None, sixtop_ie_content_len = 0\<rparr>"

subsection \<open>Descriptors\<close>

definition header_ie_desc :: "u8 \<Rightarrow> int \<Rightarrow> u16" where
  "header_ie_desc element_id ie_len =
     (word_of_int ie_len AND 0x7f) + push_bit 7 (ucast element_id AND 0xff)"

definition payload_ie_desc :: "u8 \<Rightarrow> int \<Rightarrow> u16" where
  "payload_ie_desc group_id ie_len =
     (word_of_int ie_len AND 0x07ff) + push_bit 11 (ucast group_id AND 0x0f) + push_bit 15 1"

definition mlme_short_ie_desc :: "u8 \<Rightarrow> int \<Rightarrow> u16" where
  "mlme_short_ie_desc sub_id ie_len =
     (word_of_int ie_len AND 0xff) + push_bit 8 (ucast sub_id AND 0x7f)"

definition mlme_long_ie_desc :: "u8 \<Rightarrow> int \<Rightarrow> u16" where
  "mlme_long_ie_desc sub_id ie_len =
     (word_of_int ie_len AND 0x07ff) + push_bit 11 (ucast sub_id AND 0x0f) + push_bit 15 1"

definition create_header_ie_descriptor :: "u8 list \<Rightarrow> nat \<Rightarrow> u8 \<Rightarrow> int \<Rightarrow> u8 list ub" where
  "create_header_ie_descriptor m p element_id ie_len =
     mem_write m p (le16 (header_ie_desc element_id ie_len))"

definition create_payload_ie_descriptor :: "u8 list \<Rightarrow> nat \<Rightarrow> u8 \<Rightarrow> int \<Rightarrow> u8 list ub" where
  "create_payload_ie_descriptor m p group_id ie_len =
     mem_write m p (le16 (payload_ie_desc group_id ie_len))"

definition create_mlme_short_ie_descriptor :: "u8 list \<Rightarrow> nat \<Rightarrow> u8 \<Rightarrow> int \<Rightarrow> u8 list ub" where
  "create_mlme_short_ie_descriptor m p sub_id ie_len =
     mem_write m p (le16 (mlme_short_ie_desc sub_id ie_len))"

definition create_mlme_long_ie_descriptor :: "u8 list \<Rightarrow> nat \<Rightarrow> u8 \<Rightarrow> int \<Rightarrow> u8 list ub" where
  "create_mlme_long_ie_descriptor m p sub_id ie_len =
     mem_write m p (le16 (mlme_long_ie_desc sub_id ie_len))"

subsection \<open>Creating elements\<close>

definition frame80215e_create_ie_header_ack_nack_time_correction ::
  "u8 list \<Rightarrow> nat \<Rightarrow> int \<Rightarrow> ieee802154_ies option \<Rightarrow> (int \<times> u8 list) ub" where
  "frame80215e_create_ie_header_ack_nack_time_correction m p len ies =
     (case ies of
        Some e \<Rightarrow>
          if 2 + 2 \<le> len
          then let time_sync_field = ie_time_correction e AND 0x0fff;
                   field = (if ie_is_nack e \<noteq> 0 then time_sync_field OR 0x8000 else time_sync_field)
               in do {
                 m1 \<leftarrow> mem_write m (p + 2) (le16 field);
                 m2 \<leftarrow> create_header_ie_descriptor m1 p HEADER_IE_ACK_NACK_TIME_CORRECTION 2;
                 Some (2 + 2, m2)
               }
          else Some (-1, m)
      | None \<Rightarrow> Some (-1, m))"

definition frame80215e_create_ie_header_list_termination_1 ::
  "u8 list \<Rightarrow> nat \<Rightarrow> int \<Rightarrow> ieee802154_ies option \<Rightarrow> (int \<times> u8 list) ub" where
  "frame80215e_create_ie_header_list_termination_1 m p len ies =
     (if 2 + 0 \<le> len \<and> ies \<noteq> None
      then do { m1 \<leftarrow> create_header_ie_descriptor m p HEADER_IE_LIST_TERMINATION_1 0; Some (2 + 0, m1) }
      else Some (-1, m))"

definition frame80215e_create_ie_header_list_termination_2 ::
  "u8 list \<Rightarrow> nat \<Rightarrow> int \<Rightarrow> ieee802154_ies option \<Rightarrow> (int \<times> u8 list) ub" where
  "frame80215e_create_ie_header_list_termination_2 m p len ies =
     (if 2 + 0 \<le> len \<and> ies \<noteq> None
      then do { m1 \<leftarrow> create_header_ie_descriptor m p HEADER_IE_LIST_TERMINATION_2 0; Some (2 + 0, m1) }
      else Some (-1, m))"

definition frame80215e_create_ie_payload_list_termination ::
  "u8 list \<Rightarrow> nat \<Rightarrow> int \<Rightarrow> ieee802154_ies option \<Rightarrow> (int \<times> u8 list) ub" where
  "frame80215e_create_ie_payload_list_termination m p len ies =
     (if 2 + 0 \<le> len \<and> ies \<noteq> None
      then do { m1 \<leftarrow> create_payload_ie_descriptor m p PAYLOAD_IE_LIST_TERMINATION 0; Some (2 + 0, m1) }
      else Some (-1, m))"

definition frame80215e_create_ie_ietf ::
  "u8 list \<Rightarrow> nat \<Rightarrow> int \<Rightarrow> ieee802154_ies option \<Rightarrow> (int \<times> u8 list) ub" where
  "frame80215e_create_ie_ietf m p len ies =
     (case ies of
        Some e \<Rightarrow>
          if 2 \<le> len
          then do {
            m1 \<leftarrow> create_payload_ie_descriptor m p PAYLOAD_IE_IETF (uint (sixtop_ie_content_len e));
            Some (2 + uint (sixtop_ie_content_len e), m1)
          }
          else Some (-1, m)
      | None \<Rightarrow> Some (-1, m))"

definition frame80215e_create_ie_mlme ::
  "u8 list \<Rightarrow> nat \<Rightarrow> int \<Rightarrow> ieee802154_ies option \<Rightarrow> (int \<times> u8 list) ub" where
  "frame80215e_create_ie_mlme m p len ies =
     (case ies of
        Some e \<Rightarrow>
          if 2 + 0 \<le> len
          then do {
            m1 \<leftarrow> create_payload_ie_descriptor m p PAYLOAD_IE_MLME (uint (ie_mlme_len e));
            Some (2 + 0, m1)
          }
          else Some (-1, m)
      | None \<Rightarrow> Some (-1, m))"

definition frame80215e_create_ie_tsch_synchronization ::
  "u8 list \<Rightarrow> nat \<Rightarrow> int \<Rightarrow> ieee802154_ies option \<Rightarrow> (int \<times> u8 list) ub" where
  "frame80215e_create_ie_tsch_synchronization m p len ies =
     (case ies of
        Some e \<Rightarrow>
          if 2 + 6 \<le> len
          then do {
            m1 \<leftarrow> mem_write m (p + 2)
              [ucast (ls4b (ie_asn e)), ucast (drop_bit 8 (ls4b (ie_asn e))),
               ucast (drop_bit 16 (ls4b (ie_asn e))), ucast (drop_bit 24 (ls4b (ie_asn e))),
               ms1b (ie_asn e), ie_join_priority e];
            m2 \<leftarrow> create_mlme_short_ie_descriptor m1 p MLME_SHORT_IE_TSCH_SYNCHRONIZATION 6;
            Some (2 + 6, m2)
          }
          else Some (-1, m)
      | None \<Rightarrow> Some (-1, m))"

text \<open>The bytes of the links, in a loop over the first \<open>num_links\<close> of them.\<close>

fun write_links :: "u8 list \<Rightarrow> nat \<Rightarrow> tsch_slotframe_and_links_link list \<Rightarrow> u8 list ub" where
  "write_links m p [] = Some m"
| "write_links m p (l # ls) = do {
     m1 \<leftarrow> mem_write m p (le16 (sl_timeslot l));
     m2 \<leftarrow> mem_write m1 (p + 2) (le16 (sl_channel_offset l));
     m3 \<leftarrow> mem_write m2 (p + 4) [sl_link_options l];
     write_links m3 (p + 5) ls
   }"

definition frame80215e_create_ie_tsch_slotframe_and_link ::
  "u8 list \<Rightarrow> nat \<Rightarrow> int \<Rightarrow> ieee802154_ies option \<Rightarrow> (int \<times> u8 list) ub" where
  "frame80215e_create_ie_tsch_slotframe_and_link m p len ies =
     (case ies of
        None \<Rightarrow> Some (-1, m)
      | Some e \<Rightarrow>
          let sl = ie_slotframe_and_link e;
              num_slotframes = uint (sl_num_slotframes sl); num_links = uint (sl_num_links sl);
              ie_len = 1 + num_slotframes * (4 + 5 * num_links)
          in if 1 < num_slotframes \<or> int FRAME802154E_IE_MAX_LINKS < num_links \<or> len < 2 + ie_len
             then Some (-1, m)
             else do {
               m1 \<leftarrow> mem_write m (p + 2) [sl_num_slotframes sl];
               m2 \<leftarrow> (if num_slotframes = 1
                      then do {
                        m3 \<leftarrow> mem_write m1 (p + 2 + 1) [sl_slotframe_handle sl];
                        m4 \<leftarrow> mem_write m3 (p + 2 + 2) (le16 (sl_slotframe_size sl));
                        m5 \<leftarrow> mem_write m4 (p + 2 + 4) [sl_num_links sl];
                        write_links m5 (p + 2 + 5) (take (nat num_links) (sl_links sl))
                      }
                      else Some m1);
               m6 \<leftarrow> create_mlme_short_ie_descriptor m2 p MLME_SHORT_IE_TSCH_SLOFTRAME_AND_LINK ie_len;
               Some (2 + ie_len, m6)
             })"

fun write_u16s :: "u8 list \<Rightarrow> nat \<Rightarrow> u16 list \<Rightarrow> u8 list ub" where
  "write_u16s m p [] = Some m"
| "write_u16s m p (v # vs) = do { m1 \<leftarrow> mem_write m p (le16 v); write_u16s m1 (p + 2) vs }"

definition frame80215e_create_ie_tsch_timeslot ::
  "u8 list \<Rightarrow> nat \<Rightarrow> int \<Rightarrow> ieee802154_ies option \<Rightarrow> (int \<times> u8 list) ub" where
  "frame80215e_create_ie_tsch_timeslot m p len ies =
     (case ies of
        None \<Rightarrow> Some (-1, m)
      | Some e \<Rightarrow>
          let ie_len = (if ie_tsch_timeslot_id e = 0 then 1 else 25)
          in if 2 + ie_len \<le> len
             then do {
               m1 \<leftarrow> mem_write m (p + 2) [ie_tsch_timeslot_id e];
               m2 \<leftarrow> (if ie_tsch_timeslot_id e \<noteq> 0 then write_u16s m1 (p + 3) (ie_tsch_timeslot e) else Some m1);
               m3 \<leftarrow> create_mlme_short_ie_descriptor m2 p MLME_SHORT_IE_TSCH_TIMESLOT ie_len;
               Some (2 + ie_len, m3)
             }
             else Some (-1, m))"

definition frame80215e_create_ie_tsch_channel_hopping_sequence ::
  "u8 list \<Rightarrow> nat \<Rightarrow> int \<Rightarrow> ieee802154_ies option \<Rightarrow> (int \<times> u8 list) ub" where
  "frame80215e_create_ie_tsch_channel_hopping_sequence m p len ies =
     (case ies of
        None \<Rightarrow> Some (-1, m)
      | Some e \<Rightarrow>
          if TSCH_HOPPING_SEQUENCE_MAX_LEN < unat (ie_hopping_sequence_len e) then Some (-1, m)
          else let n = unat (ie_hopping_sequence_len e);
                   ie_len = (if ie_channel_hopping_sequence_id e = 0 then 1 else 12 + int n)
          in if 2 + ie_len \<le> len
             then do {
               m1 \<leftarrow> mem_write m (p + 2) [ie_channel_hopping_sequence_id e, 0];
               m2 \<leftarrow> mem_write m1 (p + 4) (le16 0);
               m3 \<leftarrow> mem_write m2 (p + 6) (le16 0);
               m4 \<leftarrow> mem_write m3 (p + 8) (le16 0);
               m5 \<leftarrow> mem_write m4 (p + 10) (le16 (ie_hopping_sequence_len e));
               m6 \<leftarrow> mem_write m5 (p + 12) (take n (ie_hopping_sequence_list e));
               m7 \<leftarrow> mem_write m6 (p + 12 + n) (le16 0);
               m8 \<leftarrow> create_mlme_long_ie_descriptor m7 p MLME_LONG_IE_TSCH_CHANNEL_HOPPING_SEQUENCE ie_len;
               Some (2 + ie_len, m8)
             }
             else Some (-1, m))"

subsection \<open>Parsing elements\<close>

definition read16 :: "u8 list \<Rightarrow> nat \<Rightarrow> u16 ub" where
  "read16 m p = do { bs \<leftarrow> mem_read m p 2; Some (un_le16 bs) }"

definition read8 :: "u8 list \<Rightarrow> nat \<Rightarrow> u8 ub" where
  "read8 m p = do { bs \<leftarrow> mem_read m p 1; Some (bs ! 0) }"

definition frame802154e_parse_header_ie ::
  "u8 list \<Rightarrow> nat \<Rightarrow> int \<Rightarrow> u8 \<Rightarrow> ieee802154_ies \<Rightarrow> (int \<times> ieee802154_ies) ub" where
  "frame802154e_parse_header_ie m p len element_id ies =
     (if element_id = HEADER_IE_ACK_NACK_TIME_CORRECTION \<and> len = 2
      then do {
        time_sync_field \<leftarrow> read16 m p;
        Some (len, ies\<lparr>ie_is_nack := (if time_sync_field AND 0x8000 \<noteq> 0 then 1 else 0),
          ie_time_correction := (if time_sync_field AND 0x0800 \<noteq> 0 then time_sync_field OR 0xf000
                                 else time_sync_field AND 0x0fff)\<rparr>)
      }
      else Some (-1, ies))"

fun read_links ::
  "u8 list \<Rightarrow> nat \<Rightarrow> nat \<Rightarrow> tsch_slotframe_and_links_link list ub" where
  "read_links m p 0 = Some []"
| "read_links m p (Suc n) = do {
     ts \<leftarrow> read16 m p;
     ch \<leftarrow> read16 m (p + 2);
     opt \<leftarrow> read8 m (p + 4);
     ls \<leftarrow> read_links m (p + 5) n;
     Some (\<lparr>sl_timeslot = ts, sl_channel_offset = ch, sl_link_options = opt\<rparr> # ls)
   }"

fun read_u16s :: "u8 list \<Rightarrow> nat \<Rightarrow> nat \<Rightarrow> u16 list ub" where
  "read_u16s m p 0 = Some []"
| "read_u16s m p (Suc n) = do { v \<leftarrow> read16 m p; vs \<leftarrow> read_u16s m (p + 2) n; Some (v # vs) }"

definition frame802154e_parse_mlme_short_ie ::
  "u8 list \<Rightarrow> nat \<Rightarrow> int \<Rightarrow> u8 \<Rightarrow> ieee802154_ies \<Rightarrow> (int \<times> ieee802154_ies) ub" where
  "frame802154e_parse_mlme_short_ie m p len sub_id ies =
     (if sub_id = MLME_SHORT_IE_TSCH_SLOFTRAME_AND_LINK
      then if 1 \<le> len
        then do {
          num_slotframes \<leftarrow> read8 m p;
          num_links \<leftarrow> read8 m (p + 4);
          (if num_slotframes = 0 then Some (len, ies)
           else if uint num_slotframes \<le> 1 \<and> unat num_links \<le> FRAME802154E_IE_MAX_LINKS \<and>
                   len = 1 + uint num_slotframes * (4 + 5 * uint num_links)
           then do {
             hd \<leftarrow> read8 m (p + 1);
             sz \<leftarrow> read16 m (p + 2);
             ls \<leftarrow> read_links m (p + 5) (unat num_links);
             Some (len, ies\<lparr>ie_slotframe_and_link :=
               \<lparr>sl_num_slotframes = num_slotframes, sl_slotframe_handle = hd, sl_slotframe_size = sz,
                sl_num_links = num_links,
                sl_links = ls @ drop (unat num_links) (sl_links (ie_slotframe_and_link ies))\<rparr>\<rparr>)
           }
           else Some (-1, ies))
        }
        else Some (-1, ies)
      else if sub_id = MLME_SHORT_IE_TSCH_SYNCHRONIZATION
      then if len = 6
        then do {
          b \<leftarrow> mem_read m p 6;
          Some (len, ies\<lparr>ie_asn :=
             \<lparr>ls4b = ucast (b ! 0) OR push_bit 8 (ucast (b ! 1)) OR push_bit 16 (ucast (b ! 2)) OR
                     push_bit 24 (ucast (b ! 3)), ms1b = b ! 4\<rparr>,
             ie_join_priority := b ! 5\<rparr>)
        }
        else Some (-1, ies)
      else if sub_id = MLME_SHORT_IE_TSCH_TIMESLOT
      then if len = 1 \<or> len = 25
        then do {
          tid \<leftarrow> read8 m p;
          (if len = 25
           then do {
             ts \<leftarrow> read_u16s m (p + 1) tsch_ts_elements_count;
             Some (len, ies\<lparr>ie_tsch_timeslot_id := tid, ie_tsch_timeslot := ts\<rparr>)
           }
           else Some (len, ies\<lparr>ie_tsch_timeslot_id := tid\<rparr>))
        }
        else Some (-1, ies)
      else Some (-1, ies))"

definition frame802154e_parse_mlme_long_ie ::
  "u8 list \<Rightarrow> nat \<Rightarrow> int \<Rightarrow> u8 \<Rightarrow> ieee802154_ies \<Rightarrow> (int \<times> ieee802154_ies) ub" where
  "frame802154e_parse_mlme_long_ie m p len sub_id ies =
     (if sub_id = MLME_LONG_IE_TSCH_CHANNEL_HOPPING_SEQUENCE \<and> 0 < len
      then do {
        hid \<leftarrow> read8 m p;
        (let ies1 = ies\<lparr>ie_channel_hopping_sequence_id := hid\<rparr>
         in if 1 < len
         then do {
           n \<leftarrow> read16 m (p + 8);
           (let ies2 = ies1\<lparr>ie_hopping_sequence_len := n\<rparr>
            in if unat n \<le> TSCH_HOPPING_SEQUENCE_MAX_LEN \<and> len = 12 + uint n
            then do {
              l \<leftarrow> mem_read m (p + 10) (unat n);
              Some (len, ies2\<lparr>ie_hopping_sequence_list :=
                                l @ drop (unat n) (ie_hopping_sequence_list ies2)\<rparr>)
            }
            else Some (len, ies2))
         }
         else Some (len, ies1))
      }
      else Some (-1, ies))"

datatype parsing_state = PARSING_HEADER_IE | PARSING_PAYLOAD_IE | PARSING_MLME_SUBIE

text \<open>
  One round of the loop, behind the descriptor \<open>ie_desc\<close>: \<open>Inl\<close> is a \<open>return\<close> of the function,
  \<open>Inr\<close> the new parsing state, the length to skip and the rest of the nested IE.
\<close>

type_synonym ie_round =
  "(int \<times> ieee802154_ies) + (parsing_state \<times> u16 \<times> int \<times> ieee802154_ies)"

definition parse_header_step ::
  "u8 list \<Rightarrow> nat \<Rightarrow> nat \<Rightarrow> u8 \<Rightarrow> u16 \<Rightarrow> int \<Rightarrow> ieee802154_ies \<Rightarrow> ie_round ub" where
  "parse_header_step m start p buf_size ie_desc nested ies =
     (let len = ie_desc AND 0x007f; iid = (ucast (drop_bit 7 (ie_desc AND 0x7f80)) :: u8)
      in if ie_desc AND 0x8000 \<noteq> 0 then Some (Inl (-1, ies))
      else if iid = HEADER_IE_LIST_TERMINATION_1
      then if len = 0
        then Some (Inr (PARSING_PAYLOAD_IE, len, nested, ies\<lparr>ie_payload_ie_offset := of_nat (p - start)\<rparr>))
        else Some (Inl (-1, ies))
      else if iid = HEADER_IE_LIST_TERMINATION_2
      then if len = 0
        then Some (Inl (int (p + unat len - start), ies\<lparr>ie_payload_ie_offset := of_nat (p - start)\<rparr>))
        else Some (Inl (-1, ies))
      else if uint buf_size < uint len then Some (Inl (-1, ies))
      else do {
        (r, ies1) \<leftarrow> frame802154e_parse_header_ie m p (uint len) iid ies;
        Some (if r = -1 then Inl (-1, ies1) else Inr (PARSING_HEADER_IE, len, nested, ies1))
      })"

definition parse_payload_step ::
  "u8 list \<Rightarrow> nat \<Rightarrow> nat \<Rightarrow> u8 \<Rightarrow> u16 \<Rightarrow> int \<Rightarrow> ieee802154_ies \<Rightarrow> ie_round ub" where
  "parse_payload_step m start p buf_size ie_desc nested ies =
     (let len = ie_desc AND 0x7ff; iid = (ucast (drop_bit 11 (ie_desc AND 0x7800)) :: u8)
      in if ie_desc AND 0x8000 = 0 then Some (Inl (-1, ies))
      else if iid = PAYLOAD_IE_MLME then Some (Inr (PARSING_MLME_SUBIE, 0, uint len, ies))
      else if iid = PAYLOAD_IE_IETF
      then do {
        b \<leftarrow> read8 m p;
        Some (Inr (PARSING_PAYLOAD_IE, len, nested,
          (if b = SIXTOP_SUBIE_ID
           then ies\<lparr>sixtop_ie_content_ptr := Some (p + 1), sixtop_ie_content_len := len - 1\<rparr>
           else ies)))
      }
      else if iid = PAYLOAD_IE_LIST_TERMINATION
      then Some (Inl (if len = 0 then int (p + unat len - start) else -1, ies))
      else Some (Inl (-1, ies)))"

definition parse_mlme_step ::
  "u8 list \<Rightarrow> nat \<Rightarrow> nat \<Rightarrow> u8 \<Rightarrow> u16 \<Rightarrow> int \<Rightarrow> ieee802154_ies \<Rightarrow> ie_round ub" where
  "parse_mlme_step m start p buf_size ie_desc nested ies =
     (let short = (ie_desc AND 0x8000 = 0);
          len = (if short then ie_desc AND 0x00ff else ie_desc AND 0x7ff);
          iid = (if short then ucast (drop_bit 8 (ie_desc AND 0x7f00)) else ucast (drop_bit 11 (ie_desc AND 0x7800)))
      in if uint buf_size < uint len then Some (Inl (-1, ies))
      else do {
        (r, ies1) \<leftarrow> (if short then frame802154e_parse_mlme_short_ie m p (uint len) iid ies
                     else frame802154e_parse_mlme_long_ie m p (uint len) iid ies);
        (let nested1 = nested - (2 + uint len)
         in Some (if r = -1 then Inl (-1, ies1)
                  else if nested1 < 0 then Inl (-1, ies1)
                  else Inr (if nested1 = 0 then PARSING_PAYLOAD_IE else PARSING_MLME_SUBIE, len, nested1, ies1)))
      })"

definition parse_ie_step ::
  "u8 list \<Rightarrow> nat \<Rightarrow> parsing_state \<Rightarrow> nat \<Rightarrow> u8 \<Rightarrow> u16 \<Rightarrow> int \<Rightarrow> ieee802154_ies \<Rightarrow> ie_round ub" where
  "parse_ie_step m start st p buf_size ie_desc nested ies =
     (case st of
        PARSING_HEADER_IE \<Rightarrow> parse_header_step m start p buf_size ie_desc nested ies
      | PARSING_PAYLOAD_IE \<Rightarrow> parse_payload_step m start p buf_size ie_desc nested ies
      | PARSING_MLME_SUBIE \<Rightarrow> parse_mlme_step m start p buf_size ie_desc nested ies)"

function parse_ie_loop ::
  "u8 list \<Rightarrow> nat \<Rightarrow> parsing_state \<Rightarrow> nat \<Rightarrow> u8 \<Rightarrow> int \<Rightarrow> ieee802154_ies \<Rightarrow> (int \<times> ieee802154_ies) ub" where
  "parse_ie_loop m start st p buf_size nested ies =
     (if buf_size = 0
      then Some (int (p - start),
        (if st = PARSING_HEADER_IE then ies\<lparr>ie_payload_ie_offset := of_nat (p - start)\<rparr> else ies))
      else if buf_size < 2 then Some (-1, ies)
      else case read16 m p of
        None \<Rightarrow> None
      | Some ie_desc \<Rightarrow>
          (case parse_ie_step m start st (p + 2) (buf_size - 2) ie_desc nested ies of
             None \<Rightarrow> None
           | Some (Inl r) \<Rightarrow> Some r
           | Some (Inr (st1, len, nested1, ies1)) \<Rightarrow>
               parse_ie_loop m start st1 (p + 2 + unat len) (buf_size - 2 - ucast len) nested1 ies1))"
  by pat_completeness auto
termination
  by (relation "measure (\<lambda>(m, start, st, p, _). length m - p)")
    (auto simp: read16_def mem_read_def bind_eq_Some_conv split: if_splits)

declare parse_ie_loop.simps [simp del]

definition frame802154e_parse_information_elements ::
  "u8 list \<Rightarrow> nat \<Rightarrow> u8 \<Rightarrow> ieee802154_ies option \<Rightarrow> (int \<times> ieee802154_ies option) ub" where
  "frame802154e_parse_information_elements m p buf_size ies =
     (case ies of
        None \<Rightarrow> Some (-1, None)
      | Some e \<Rightarrow> do {
          (r, e1) \<leftarrow> parse_ie_loop m p PARSING_HEADER_IE p buf_size 0 (e\<lparr>ie_payload_ie_offset := 0\<rparr>);
          Some (r, Some e1)
        })"

subsection \<open>Reading a descriptor back\<close>

lemma u16_masks:
  "(0x7f :: u16) = mask 7" "(0xff :: u16) = mask 8" "(0x7ff :: u16) = mask 11" "(0x0f :: u16) = mask 4"
  "(0x8000 :: u16) = NOT (mask 15)"
  by (simp_all add: mask_eq_exp_minus_1)

lemma push_15: "(push_bit 15 1 :: u16) = NOT (mask 15)"
  by (simp add: mask_eq_exp_minus_1)

lemma add_disjoint: "(a :: u16) AND b = 0 \<Longrightarrow> a + b = a OR b"
  by (rule disjunctive_add_eq_or)

lemma header_ie_desc_or:
  "header_ie_desc e l = (word_of_int l AND mask 7) OR push_bit 7 (ucast e AND mask 8)"
  unfolding header_ie_desc_def u16_masks
  by (rule add_disjoint) (rule bit_word_eqI, auto simp: bit_simps)

lemma u8_masks: "(0x7f :: u8) = mask 7" "(0x0f :: u8) = mask 4"
  by (simp_all add: mask_eq_exp_minus_1)

lemma short_ie_desc_or:
  "mlme_short_ie_desc e l = (word_of_int l AND mask 8) OR push_bit 8 (ucast e AND mask 7)"
  unfolding mlme_short_ie_desc_def u16_masks(1,2)
  by (rule add_disjoint) (rule bit_word_eqI, auto simp: bit_simps)

lemma payload_ie_desc_or:
  "payload_ie_desc e l = (word_of_int l AND mask 11) OR push_bit 11 (ucast e AND mask 4) OR NOT (mask 15)"
proof -
  let ?a = "word_of_int l AND mask 11 :: u16" and ?b = "push_bit 11 (ucast e AND mask 4) :: u16"
  have "?a AND ?b = 0" by (rule bit_word_eqI) (auto simp: bit_simps)
  then have ab: "?a + ?b = ?a OR ?b" by (rule add_disjoint)
  have "(?a OR ?b) AND NOT (mask 15) = 0" by (rule bit_word_eqI) (auto simp: bit_simps)
  from add_disjoint [OF this] show ?thesis
    unfolding payload_ie_desc_def u16_masks(3,4) push_15 ab by (simp add: or.assoc)
qed

lemma payload_ie_desc_type [simp]: "payload_ie_desc e l AND 0x8000 \<noteq> 0"
proof
  assume "payload_ie_desc e l AND 0x8000 = 0"
  then have "\<not> bit (payload_ie_desc e l AND 0x8000) 15" by simp
  then show False unfolding payload_ie_desc_or u16_masks(5) by (simp add: bit_simps)
qed

lemma payload_ie_desc_len [simp]: "payload_ie_desc e l AND 0x7ff = word_of_int l AND 0x7ff"
  unfolding payload_ie_desc_or u16_masks(3) by (rule bit_word_eqI) (auto simp: bit_simps)

lemma payload_ie_desc_id [simp]:
  "(ucast (drop_bit 11 (payload_ie_desc e l) AND 0x0f) :: u8) = e AND 0x0f"
  unfolding payload_ie_desc_or u16_masks(4) u8_masks(2)
  by (rule bit_word_eqI) (auto simp: bit_simps)

lemma header_ie_desc_type [simp]: "header_ie_desc e l AND 0x8000 = 0"
  unfolding header_ie_desc_or u16_masks(5) by (rule bit_word_eqI) (auto simp: bit_simps)

lemma header_ie_desc_len [simp]: "header_ie_desc e l AND 0x7f = word_of_int l AND 0x7f"
  unfolding header_ie_desc_or u16_masks(1) by (rule bit_word_eqI) (auto simp: bit_simps)

lemma header_ie_desc_id [simp]: "(ucast (drop_bit 7 (header_ie_desc e l) AND 0xff) :: u8) = e"
  unfolding header_ie_desc_or u16_masks(2) by (rule bit_word_eqI) (auto simp: bit_simps)

lemma short_ie_desc_type [simp]: "mlme_short_ie_desc e l AND 0x8000 = 0"
  unfolding short_ie_desc_or u16_masks(5) by (rule bit_word_eqI) (auto simp: bit_simps)

lemma short_ie_desc_len [simp]: "mlme_short_ie_desc e l AND 0xff = word_of_int l AND 0xff"
  unfolding short_ie_desc_or u16_masks(2) by (rule bit_word_eqI) (auto simp: bit_simps)

lemma short_ie_desc_id [simp]:
  "(ucast (drop_bit 8 (mlme_short_ie_desc e l) AND 0x7f) :: u8) = e AND 0x7f"
  unfolding short_ie_desc_or u16_masks(1) u8_masks(1)
  by (rule bit_word_eqI) (auto simp: bit_simps)

lemma mask_small:
  assumes "0 \<le> l" and "l < 2 ^ n"
  shows "word_of_int l AND mask n = (word_of_int l :: u16)"
proof -
  have "take_bit n l = l" using assms by (simp add: take_bit_int_eq_self)
  then have "bit l k \<longleftrightarrow> k < n \<and> bit l k" for k by (metis bit_take_bit_iff)
  then show ?thesis by (intro bit_word_eqI) (auto simp: bit_simps)
qed

lemma mask_small_consts:
  "0 \<le> l \<Longrightarrow> l < 256 \<Longrightarrow> word_of_int l AND 0xff = (word_of_int l :: u16)"
  "0 \<le> l \<Longrightarrow> l < 2048 \<Longrightarrow> word_of_int l AND 0x7ff = (word_of_int l :: u16)"
  using mask_small [of l 8] mask_small [of l 11] unfolding u16_masks(2,3) by simp_all

lemma mem_read_sub:
  assumes "mem_read m p k = Some bs" and "i + j \<le> k"
  shows "mem_read m (p + i) j = Some (take j (drop i bs))"
proof -
  have "bs = take k (drop p m)" "p + k \<le> length m"
    using assms(1) by (auto simp: mem_read_def split: if_splits)
  then show ?thesis using assms(2) by (auto simp: mem_read_def drop_take add.commute take_take min_def)
qed

lemma read16_sub:
  assumes "mem_read m p k = Some bs" and "i + 2 \<le> k" and "take 2 (drop i bs) = le16 v"
  shows "read16 m (p + i) = Some v"
  using mem_read_sub [OF assms(1,2)] assms(3) by (simp add: read16_def)

lemma read8_sub:
  assumes "mem_read m p k = Some bs" and "i < k"
  shows "read8 m (p + i) = Some (bs ! i)"
proof -
  have "length bs = k" using assms(1) by (rule mem_read_length)
  with assms(2) have "take 1 (drop i bs) ! 0 = bs ! i" by simp
  then show ?thesis using mem_read_sub [OF assms(1), of i 1] assms(2) by (simp add: read8_def)
qed

text \<open>One round of the loop, when neither the buffer is used up nor the memory ends.\<close>

lemma parse_ie_loop_round:
  assumes "2 \<le> unat buf_size" and "read16 m p = Some d"
    and "parse_ie_step m start st (p + 2) (buf_size - 2) d nested ies = Some (Inr (st1, len, nested1, ies1))"
  shows "parse_ie_loop m start st p buf_size nested ies =
    parse_ie_loop m start st1 (p + 2 + unat len) (buf_size - 2 - ucast len) nested1 ies1"
proof -
  have "buf_size \<noteq> 0" "\<not> buf_size < 2" using assms(1) by (auto simp: word_less_nat_alt)
  then show ?thesis by (subst parse_ie_loop.simps) (simp add: assms del: add_2_eq_Suc')
qed

lemma parse_ie_loop_end:
  "parse_ie_loop m start st p 0 nested ies = Some (int (p - start),
     (if st = PARSING_HEADER_IE then ies\<lparr>ie_payload_ie_offset := of_nat (p - start)\<rparr> else ies))"
  by (subst parse_ie_loop.simps) simp

lemma parse_header_termination:
  "parse_ie_step m start PARSING_HEADER_IE p bs (header_ie_desc HEADER_IE_LIST_TERMINATION_1 0) nested ies =
     Some (Inr (PARSING_PAYLOAD_IE, 0, nested, ies\<lparr>ie_payload_ie_offset := of_nat (p - start)\<rparr>))"
  by (simp add: parse_ie_step_def parse_header_step_def Let_def)

lemma parse_sixtop_ie:
  assumes "read8 m p = Some SIXTOP_SUBIE_ID" and "0 \<le> l" and "l < 2048"
  shows "parse_ie_step m start PARSING_PAYLOAD_IE p bs (payload_ie_desc PAYLOAD_IE_IETF l) nested ies =
     Some (Inr (PARSING_PAYLOAD_IE, word_of_int l, nested,
       ies\<lparr>sixtop_ie_content_ptr := Some (p + 1), sixtop_ie_content_len := word_of_int l - 1\<rparr>))"
  using assms by (simp add: parse_ie_step_def parse_payload_step_def Let_def mask_small_consts
      PAYLOAD_IE_IETF_def PAYLOAD_IE_MLME_def)

text \<open>The information elements that carry a 6P message.\<close>

definition sixtop_frame :: "u8 list \<Rightarrow> u8 list" where
  "sixtop_frame content =
     le16 (header_ie_desc HEADER_IE_LIST_TERMINATION_1 0) @
     le16 (payload_ie_desc PAYLOAD_IE_IETF (int (length content) + 1)) @ SIXTOP_SUBIE_ID # content"

lemma sixtop_frame_parse:
  assumes fr: "mem_read m p k = Some (sixtop_frame content)" and n: "length content \<le> 250"
  shows "parse_ie_loop m p PARSING_HEADER_IE p (of_nat k) 0 ies =
    Some (int k, ies\<lparr>ie_payload_ie_offset := 2, sixtop_ie_content_ptr := Some (p + 5),
                     sixtop_ie_content_len := of_nat (length content)\<rparr>)"
proof -
  let ?n = "length content"
  have k: "k = 5 + ?n" using mem_read_length [OF fr] by (simp add: sixtop_frame_def)
  have u: "unat (of_nat k :: u8) = k" using k n by (simp add: unat_of_nat del: of_nat_add)
  let ?e1 = "ies\<lparr>ie_payload_ie_offset := of_nat (p + 2 - p)\<rparr>"
  have r0: "read16 m p = Some (header_ie_desc HEADER_IE_LIST_TERMINATION_1 0)"
    using read16_sub [OF fr, of 0] k by (simp add: sixtop_frame_def)
  have s1: "parse_ie_loop m p PARSING_HEADER_IE p (of_nat k) 0 ies =
      parse_ie_loop m p PARSING_PAYLOAD_IE (p + 2) (of_nat k - 2) 0 ?e1"
    using parse_ie_loop_round [OF _ r0 parse_header_termination, of "of_nat k" p 0 ies] u k by simp
  have r1: "read16 m (p + 2) = Some (payload_ie_desc PAYLOAD_IE_IETF (int ?n + 1))"
    using read16_sub [OF fr, of 2] k by (simp add: sixtop_frame_def)
  have r2: "read8 m (p + 2 + 2) = Some SIXTOP_SUBIE_ID"
    using read8_sub [OF fr, of 4] k by (simp add: sixtop_frame_def nth_append add.assoc del: add_2_eq_Suc')
  have b: "unat (of_nat k - 2 :: u8) = k - 2"
    using u k by (subst unat_sub) (simp_all add: word_le_nat_alt)
  have two: "2 \<le> unat (of_nat k - 2 :: u8)" using b k by simp
  have w: "(word_of_int (int ?n + 1) :: u16) = of_nat (?n + 1)" by simp
  have len: "unat (word_of_int (int ?n + 1) :: u16) = ?n + 1"
    unfolding w using n by (simp add: unat_of_nat del: of_nat_add of_nat_Suc)
  have c: "(ucast (word_of_int (int ?n + 1) :: u16) :: u8) = of_nat (?n + 1)"
    unfolding w using n
    by (subst word_unat_eq_iff) (simp add: unat_of_nat unsigned_ucast_eq take_bit_eq_mod del: of_nat_add of_nat_Suc)
  have z: "(of_nat k - 2 - 2 - ucast (word_of_int (int ?n + 1) :: u16) :: u8) = 0"
    unfolding c k by simp
  have s2: "parse_ie_loop m p PARSING_PAYLOAD_IE (p + 2) (of_nat k - 2) 0 ?e1 =
      parse_ie_loop m p PARSING_PAYLOAD_IE (p + 2 + 2 + (?n + 1)) 0 0
        (?e1\<lparr>sixtop_ie_content_ptr := Some (p + 2 + 2 + 1),
             sixtop_ie_content_len := word_of_int (int ?n + 1) - 1\<rparr>)"
    using parse_ie_loop_round [OF two r1 parse_sixtop_ie [OF r2], of p 0 ?e1] n len z by simp
  show ?thesis unfolding s1 s2 parse_ie_loop_end using k by simp
qed

subsection \<open>Properties\<close>

lemma mem_read_append:
  assumes "mem_read m p i = Some a" and "mem_read m (p + i) j = Some b"
  shows "mem_read m p (i + j) = Some (a @ b)"
  using assms by (auto simp: mem_read_def take_add add.commute split: if_splits)

text \<open>
  6top information elements.  Let \<open>content\<close> be a 6P message of at most 250 bytes behind the
  6top sub-IE identifier.  Then writing the IETF payload IE and the header termination IE in front
  of it, as \<open>sixtop_output\<close> does, and parsing the result gives back the position and the length
  of exactly that message, and consumes exactly these elements.
\<close>

theorem sixtop_ie_roundtrip:
  assumes c: "mem_read m (p + 4) (1 + length content) = Some (SIXTOP_SUBIE_ID # content)"
    and n: "length content \<le> 250" and e: "sixtop_ie_content_len e = of_nat (length content + 1)"
  shows "\<exists>m1 m2. frame80215e_create_ie_ietf m (p + 2) 2 (Some e) = Some (2 + int (length content + 1), m1) \<and>
    frame80215e_create_ie_header_list_termination_1 m1 p 2 (Some e') = Some (2, m2) \<and>
    frame802154e_parse_information_elements m2 p (of_nat (5 + length content)) (Some ies) =
      Some (5 + int (length content), Some (ies\<lparr>ie_payload_ie_offset := 2,
        sixtop_ie_content_ptr := Some (p + 5), sixtop_ie_content_len := of_nat (length content)\<rparr>)) \<and>
    mem_read m2 (p + 5) (length content) = Some content"
proof -
  let ?n = "length content"
  let ?d1 = "payload_ie_desc PAYLOAD_IE_IETF (int ?n + 1)" and ?d0 = "header_ie_desc HEADER_IE_LIST_TERMINATION_1 0"
  have l: "p + 5 + ?n \<le> length m" using c by (auto simp: mem_read_def split: if_splits)
  then obtain m1 where m1: "mem_write m (p + 2) (le16 ?d1) = Some m1" by (simp add: mem_simps)
  have l1: "length m1 = length m" by (rule mem_write_length [OF m1])
  then obtain m2 where m2: "mem_write m1 p (le16 ?d0) = Some m2" using l by (simp add: mem_simps)
  have u: "uint (sixtop_ie_content_len e) = int ?n + 1"
    using n e by (simp add: uint_nat unat_of_nat del: of_nat_add of_nat_Suc)
  have a: "mem_read m2 p 2 = Some (le16 ?d0)" by (rule mem_read_write_same [OF m2]) simp
  have b: "mem_read m2 (p + 2) 2 = Some (le16 ?d1)"
    using mem_read_write_same [OF m1] mem_read_write_disjoint [OF m2, of "p + 2" 2] by simp
  have d: "mem_read m2 (p + 4) (1 + ?n) = Some (SIXTOP_SUBIE_ID # content)"
    using c mem_read_write_disjoint [OF m2, of "p + 4" "1 + ?n"]
      mem_read_write_disjoint [OF m1, of "p + 4" "1 + ?n"] by simp
  have ab: "mem_read m2 p 4 = Some (le16 ?d0 @ le16 ?d1)"
    using mem_read_append [OF a b] by simp
  have fr: "mem_read m2 p (5 + ?n) = Some (sixtop_frame content)"
    using mem_read_append [OF ab d] by (simp add: sixtop_frame_def)
  have pc: "mem_read m2 (p + 5) ?n = Some content"
    using mem_read_sub [OF d, of 1 ?n] by (simp add: add.commute)
  have "frame80215e_create_ie_ietf m (p + 2) 2 (Some e) = Some (2 + int (?n + 1), m1)"
    by (simp add: frame80215e_create_ie_ietf_def create_payload_ie_descriptor_def u m1 del: add_2_eq_Suc')
  moreover have "frame80215e_create_ie_header_list_termination_1 m1 p 2 (Some e') = Some (2, m2)"
    by (simp add: frame80215e_create_ie_header_list_termination_1_def create_header_ie_descriptor_def m2)
  moreover have "frame802154e_parse_information_elements m2 p (of_nat (5 + ?n)) (Some ies) =
      Some (5 + int ?n, Some (ies\<lparr>ie_payload_ie_offset := 2,
        sixtop_ie_content_ptr := Some (p + 5), sixtop_ie_content_len := of_nat ?n\<rparr>))"
    using sixtop_frame_parse [OF fr n, of "ies\<lparr>ie_payload_ie_offset := 0\<rparr>"]
    by (simp add: frame802154e_parse_information_elements_def)
  ultimately show ?thesis using pc by blast
qed

theorem sixtop_ie_roundtrip_witness:
  "\<exists>m1 m2. frame80215e_create_ie_ietf [0, 0, 0, 0, 0xc9, 1, 2] 2 2 (Some (ies_zero\<lparr>sixtop_ie_content_len := 3\<rparr>)) =
      Some (5, m1) \<and>
    frame80215e_create_ie_header_list_termination_1 m1 0 2 (Some ies_zero) = Some (2, m2) \<and>
    map_option fst (frame802154e_parse_information_elements m2 0 7 (Some ies_zero)) = Some 7 \<and>
    mem_read m2 5 2 = Some [1, 2]"
proof -
  have c: "mem_read [0, 0, 0, 0, 0xc9, 1, 2] (0 + 4) (1 + length [1, 2]) = Some (SIXTOP_SUBIE_ID # [1, 2])"
    by (simp add: mem_read_def SIXTOP_SUBIE_ID_def)
  have l: "length [1, 2] \<le> 250" by simp
  have e: "sixtop_ie_content_len (ies_zero\<lparr>sixtop_ie_content_len := 3\<rparr>) = of_nat (length [1, 2] + 1)" by simp
  from sixtop_ie_roundtrip [OF c l e, of ies_zero ies_zero] show ?thesis by (auto simp: numeral_eq_Suc)
qed

text \<open>
  The parser does not compare the length of a 6top element with the bytes that are left.  A
  five-byte frame whose 6top element announces \<open>256 * k + 1\<close> bytes is accepted: the counter
  of the remaining bytes, an 8-bit number, wraps to 0, and the caller is told of a 6P message
  of \<open>256 * k\<close> bytes that starts where the frame ends.
\<close>

theorem sixtop_ie_length_unchecked:
  assumes k: "k < 8"
  shows "frame802154e_parse_information_elements
      (le16 (header_ie_desc HEADER_IE_LIST_TERMINATION_1 0) @
       le16 (payload_ie_desc PAYLOAD_IE_IETF (256 * int k + 1)) @ [SIXTOP_SUBIE_ID]) 0 5 (Some ies) =
    Some (5 + 256 * int k, Some (ies\<lparr>ie_payload_ie_offset := 2, sixtop_ie_content_ptr := Some 5,
      sixtop_ie_content_len := of_nat (256 * k)\<rparr>))"
proof -
  let ?m = "le16 (header_ie_desc HEADER_IE_LIST_TERMINATION_1 0) @
       le16 (payload_ie_desc PAYLOAD_IE_IETF (256 * int k + 1)) @ [SIXTOP_SUBIE_ID]"
  have fr: "mem_read ?m 0 5 = Some ?m" by (simp add: mem_read_def)
  have r0: "read16 ?m 0 = Some (header_ie_desc HEADER_IE_LIST_TERMINATION_1 0)"
    using read16_sub [OF fr, of 0] by simp
  have r1: "read16 ?m (0 + 2) = Some (payload_ie_desc PAYLOAD_IE_IETF (256 * int k + 1))"
    using read16_sub [OF fr, of 2] by simp
  have r2: "read8 ?m (0 + 2 + 2) = Some SIXTOP_SUBIE_ID"
    using read8_sub [OF fr, of 4] by (simp add: nth_append del: add_2_eq_Suc')
  have w: "(word_of_int (256 * int k + 1) :: u16) = of_nat (256 * k + 1)" by simp
  have u: "unat (word_of_int (256 * int k + 1) :: u16) = 256 * k + 1"
    unfolding w using k by (simp add: unat_of_nat del: of_nat_add of_nat_Suc of_nat_mult)
  have c: "(ucast (word_of_int (256 * int k + 1) :: u16) :: u8) = 1"
    unfolding w using k
    by (subst word_unat_eq_iff)
      (simp add: unat_of_nat unsigned_ucast_eq take_bit_eq_mod del: of_nat_add of_nat_Suc of_nat_mult)
  have s1: "parse_ie_loop ?m 0 PARSING_HEADER_IE 0 5 0 e =
      parse_ie_loop ?m 0 PARSING_PAYLOAD_IE 2 3 0 (e\<lparr>ie_payload_ie_offset := 2\<rparr>)" for e
    using parse_ie_loop_round [OF _ r0 parse_header_termination, of 5 0 0 e] by (simp del: add_2_eq_Suc add_2_eq_Suc')
  have s2: "parse_ie_loop ?m 0 PARSING_PAYLOAD_IE 2 3 0 e =
      parse_ie_loop ?m 0 PARSING_PAYLOAD_IE (5 + 256 * k) 0 0
        (e\<lparr>sixtop_ie_content_ptr := Some 5, sixtop_ie_content_len := of_nat (256 * k)\<rparr>)" for e
  proof -
    have "parse_ie_step ?m 0 PARSING_PAYLOAD_IE (0 + 2 + 2) (3 - 2)
        (payload_ie_desc PAYLOAD_IE_IETF (256 * int k + 1)) 0 e =
      Some (Inr (PARSING_PAYLOAD_IE, word_of_int (256 * int k + 1), 0,
       e\<lparr>sixtop_ie_content_ptr := Some (0 + 2 + 2 + 1), sixtop_ie_content_len := word_of_int (256 * int k + 1) - 1\<rparr>))"
      by (rule parse_sixtop_ie [OF r2]) (use k in auto)
    from parse_ie_loop_round [OF _ r1 this] show ?thesis
      using u c by (simp del: add_2_eq_Suc add_2_eq_Suc')
  qed
  show ?thesis
    by (simp add: frame802154e_parse_information_elements_def s1 s2 parse_ie_loop_end)
qed

theorem sixtop_ie_length_unchecked_witness:
  "map_option fst (frame802154e_parse_information_elements [0x00, 0x3f, 0x01, 0xaf, 0xc9] 0 5 (Some ies_zero)) = Some 1797"
proof -
  have m: "le16 (header_ie_desc HEADER_IE_LIST_TERMINATION_1 0) @
       le16 (payload_ie_desc PAYLOAD_IE_IETF (256 * int 7 + 1)) @ [SIXTOP_SUBIE_ID] = [0x00, 0x3f, 0x01, 0xaf, 0xc9]"
    by (simp add: le16_def header_ie_desc_def payload_ie_desc_def ie_id_defs)
  show ?thesis using sixtop_ie_length_unchecked [of 7 ies_zero, unfolded m] by simp
qed

text \<open>The links of a slotframe element, written and read back.\<close>

lemma write_links_spec:
  assumes "p + 5 * length ls \<le> length m"
  shows "\<exists>m'. write_links m p ls = Some m' \<and> length m' = length m \<and> read_links m' p (length ls) = Some ls \<and>
    (\<forall>q n. q + n \<le> p \<or> p + 5 * length ls \<le> q \<longrightarrow> mem_read m' q n = mem_read m q n)"
  using assms
proof (induction ls arbitrary: m p)
  case (Cons l ls)
  obtain m1 where m1: "mem_write m p (le16 (sl_timeslot l)) = Some m1"
    using Cons.prems by (simp add: mem_simps)
  note l1 = mem_write_length [OF m1]
  obtain m2 where m2: "mem_write m1 (p + 2) (le16 (sl_channel_offset l)) = Some m2"
    using Cons.prems l1 by (simp add: mem_simps)
  note l2 = mem_write_length [OF m2]
  obtain m3 where m3: "mem_write m2 (p + 4) [sl_link_options l] = Some m3"
    using Cons.prems l1 l2 by (simp add: mem_simps)
  note l3 = mem_write_length [OF m3]
  have "p + 5 + 5 * length ls \<le> length m3" using Cons.prems l1 l2 l3 by simp
  from Cons.IH [OF this] obtain m' where m': "write_links m3 (p + 5) ls = Some m'" "length m' = length m3"
    "read_links m' (p + 5) (length ls) = Some ls"
    "\<forall>q n. q + n \<le> p + 5 \<or> p + 5 + 5 * length ls \<le> q \<longrightarrow> mem_read m' q n = mem_read m3 q n" by blast
  have a: "mem_read m' p 2 = Some (le16 (sl_timeslot l))"
    using m'(4) mem_read_write_disjoint [OF m3, of p 2] mem_read_write_disjoint [OF m2, of p 2]
      mem_read_write_same [OF m1, of 2] by simp
  have b: "mem_read m' (p + 2) 2 = Some (le16 (sl_channel_offset l))"
    using m'(4) mem_read_write_disjoint [OF m3, of "p + 2" 2] mem_read_write_same [OF m2, of 2] by simp
  have c: "mem_read m' (p + 4) 1 = Some [sl_link_options l]"
    using m'(4) mem_read_write_same [OF m3, of 1] by simp
  have fr: "mem_read m' q n = mem_read m q n" if "q + n \<le> p \<or> p + 5 * length (l # ls) \<le> q" for q n
  proof -
    have "mem_read m' q n = mem_read m3 q n" using m'(4) that by auto
    also have "\<dots> = mem_read m2 q n" by (rule mem_read_write_disjoint [OF m3]) (use that in auto)
    also have "\<dots> = mem_read m1 q n" by (rule mem_read_write_disjoint [OF m2]) (use that in auto)
    also have "\<dots> = mem_read m q n" by (rule mem_read_write_disjoint [OF m1]) (use that in auto)
    finally show ?thesis .
  qed
  have "read_links m' p (length (l # ls)) = Some (l # ls)"
    using a b c m'(3) by (simp add: read16_def read8_def del: add_2_eq_Suc')
  moreover have "write_links m p (l # ls) = Some m'" using m1 m2 m3 m'(1) by (simp del: add_2_eq_Suc')
  ultimately show ?case using fr l1 l2 l3 m'(2) by auto
qed simp

lemma read_links_cong:
  assumes "\<And>q k. p \<le> q \<Longrightarrow> q + k \<le> p + 5 * n \<Longrightarrow> mem_read m' q k = mem_read m q k"
  shows "read_links m' p n = read_links m p n"
  using assms
proof (induction n arbitrary: p)
  case (Suc n)
  have "mem_read m' p 2 = mem_read m p 2" "mem_read m' (p + 2) 2 = mem_read m (p + 2) 2"
    "mem_read m' (p + 4) 1 = mem_read m (p + 4) 1"
    using Suc.prems by simp_all
  moreover have "read_links m' (p + 5) n = read_links m (p + 5) n" using Suc.prems by (intro Suc.IH) simp
  ultimately show ?case by (simp add: read16_def read8_def del: add_2_eq_Suc')
qed simp

text \<open>
  The schedule element of a beacon.  For at most one slotframe with at most four links, the
  element that \<open>frame80215e_create_ie_tsch_slotframe_and_link\<close> writes is parsed back by
  \<open>frame802154e_parse_mlme_short_ie\<close> to the same handle, size, and links, and the descriptor
  in front of it announces its type and its length.
\<close>

theorem slotframe_and_link_ie_roundtrip:
  fixes e :: ieee802154_ies
  defines "sl \<equiv> ie_slotframe_and_link e"
  assumes one: "sl_num_slotframes sl = 1" and nl: "unat (sl_num_links sl) \<le> FRAME802154E_IE_MAX_LINKS"
    and ls: "length (sl_links sl) = FRAME802154E_IE_MAX_LINKS"
    and len: "len = 7 + 5 * unat (sl_num_links sl)" and m: "p + len \<le> length m"
    and ies: "length (sl_links (ie_slotframe_and_link ies)) = FRAME802154E_IE_MAX_LINKS"
  shows "\<exists>m'. frame80215e_create_ie_tsch_slotframe_and_link m p (int len) (Some e) = Some (int len, m') \<and>
    read16 m' p = Some (mlme_short_ie_desc MLME_SHORT_IE_TSCH_SLOFTRAME_AND_LINK (int len - 2)) \<and>
    (\<exists>ies'. frame802154e_parse_mlme_short_ie m' (p + 2) (int len - 2) MLME_SHORT_IE_TSCH_SLOFTRAME_AND_LINK ies =
       Some (int len - 2, ies') \<and>
       sl_num_slotframes (ie_slotframe_and_link ies') = 1 \<and>
       sl_slotframe_handle (ie_slotframe_and_link ies') = sl_slotframe_handle sl \<and>
       sl_slotframe_size (ie_slotframe_and_link ies') = sl_slotframe_size sl \<and>
       sl_num_links (ie_slotframe_and_link ies') = sl_num_links sl \<and>
       take (unat (sl_num_links sl)) (sl_links (ie_slotframe_and_link ies')) =
         take (unat (sl_num_links sl)) (sl_links sl))"
proof -
  let ?n = "unat (sl_num_links sl)" and ?ls = "take (unat (sl_num_links sl)) (sl_links sl)"
  have n: "length ?ls = ?n" using nl ls by simp
  have un: "nat (uint (sl_num_links sl)) = ?n" by simp
  have ui: "uint (sl_num_links sl) = int ?n" by simp
  obtain m1 where m1: "mem_write m (p + 2) [1] = Some m1" using m len by (simp add: mem_simps)
  note l1 = mem_write_length [OF m1]
  obtain m3 where m3: "mem_write m1 (p + 2 + 1) [sl_slotframe_handle sl] = Some m3"
    using m len l1 by (simp add: mem_simps)
  note l3 = mem_write_length [OF m3]
  obtain m4 where m4: "mem_write m3 (p + 2 + 2) (le16 (sl_slotframe_size sl)) = Some m4"
    using m len l1 l3 by (simp add: mem_simps)
  note l4 = mem_write_length [OF m4]
  obtain m5 where m5: "mem_write m4 (p + 2 + 4) [sl_num_links sl] = Some m5"
    using m len l1 l3 l4 by (simp add: mem_simps)
  note l5 = mem_write_length [OF m5]
  have "p + 2 + 5 + 5 * length ?ls \<le> length m5" using m len l1 l3 l4 l5 n by simp
  from write_links_spec [OF this] obtain m6 where m6: "write_links m5 (p + 2 + 5) ?ls = Some m6"
    "length m6 = length m5" "read_links m6 (p + 2 + 5) ?n = Some ?ls"
    "\<And>q k. q + k \<le> p + 2 + 5 \<Longrightarrow> mem_read m6 q k = mem_read m5 q k" unfolding n by blast
  let ?d = "mlme_short_ie_desc MLME_SHORT_IE_TSCH_SLOFTRAME_AND_LINK (int len - 2)"
  obtain m7 where m7: "mem_write m6 p (le16 ?d) = Some m7"
    using m len l1 l3 l4 l5 m6(2) by (simp add: mem_simps)
  have u1: "uint (sl_num_slotframes sl) = 1" by (simp add: one)
  have il: "1 + 1 * (4 + 5 * uint (sl_num_links sl)) = int len - 2" unfolding ui len by simp
  have cnd: "(1 < (1 :: int) \<or> int FRAME802154E_IE_MAX_LINKS < uint (sl_num_links sl) \<or> int len < 2 + (int len - 2)) = False"
  proof -
    have "uint (sl_num_links sl) \<le> int FRAME802154E_IE_MAX_LINKS"
      unfolding ui using nl by (simp only: of_nat_le_iff)
    then show ?thesis by simp
  qed
  have c: "frame80215e_create_ie_tsch_slotframe_and_link m p (int len) (Some e) = Some (int len, m7)"
    unfolding frame80215e_create_ie_tsch_slotframe_and_link_def option.case Let_def sl_def [symmetric]
      create_mlme_short_ie_descriptor_def il u1
    by (simp only: cnd m1 one m3 m4 m5 m6(1) m7 un bind.bind_lunit if_True if_False simp_thms) (simp add: len)
  have g: "mem_read m7 q k = mem_read m5 q k" if "p + 2 \<le> q" "q + k \<le> p + 2 + 5" for q k
    using mem_read_write_disjoint [OF m7, of q k] m6(4) [of q k] that by simp
  have r0: "read8 m7 (p + 2) = Some 1"
    using g [of "p + 2" 1] mem_read_write_disjoint [OF m5, of "p + 2" 1]
      mem_read_write_disjoint [OF m4, of "p + 2" 1] mem_read_write_disjoint [OF m3, of "p + 2" 1]
      mem_read_write_same [OF m1, of 1] by (simp add: read8_def)
  have r1: "read8 m7 (p + 2 + 1) = Some (sl_slotframe_handle sl)"
    using g [of "p + 2 + 1" 1] mem_read_write_disjoint [OF m5, of "p + 2 + 1" 1]
      mem_read_write_disjoint [OF m4, of "p + 2 + 1" 1] mem_read_write_same [OF m3, of 1]
    by (simp add: read8_def)
  have r2: "read16 m7 (p + 2 + 2) = Some (sl_slotframe_size sl)"
    using g [of "p + 2 + 2" 2] mem_read_write_disjoint [OF m5, of "p + 2 + 2" 2]
      mem_read_write_same [OF m4, of 2] by (simp add: read16_def)
  have r4: "read8 m7 (p + 2 + 4) = Some (sl_num_links sl)"
    using g [of "p + 2 + 4" 1] mem_read_write_same [OF m5, of 1] by (simp add: read8_def)
  have rl: "read_links m7 (p + 2 + 5) ?n = Some ?ls"
    unfolding m6(3) [symmetric]
    by (rule read_links_cong) (rule mem_read_write_disjoint [OF m7], simp)
  have ge: "(1 \<le> int len - 2) = True" using len by simp
  have cond: "(int len - 2 = 1 + uint (1 :: u8) * (4 + 5 * uint (sl_num_links sl))) = True"
    unfolding ui len by simp
  have ne: "((1 :: u8) = 0) = False" and one_le: "(uint (1 :: u8) \<le> 1) = True" by simp_all
  have "read16 m7 p = Some ?d" using mem_read_write_same [OF m7, of 2] by (simp add: read16_def)
  moreover have "\<exists>ies'. frame802154e_parse_mlme_short_ie m7 (p + 2) (int len - 2)
      MLME_SHORT_IE_TSCH_SLOFTRAME_AND_LINK ies = Some (int len - 2, ies') \<and>
       ie_slotframe_and_link ies' = \<lparr>sl_num_slotframes = 1, sl_slotframe_handle = sl_slotframe_handle sl,
         sl_slotframe_size = sl_slotframe_size sl, sl_num_links = sl_num_links sl,
         sl_links = ?ls @ drop ?n (sl_links (ie_slotframe_and_link ies))\<rparr>"
    unfolding frame802154e_parse_mlme_short_ie_def
    by (simp only: r0 r1 r2 r4 rl ge cond nl bind.bind_lunit if_True simp_thms ne one_le) simp
  ultimately obtain ies' where "read16 m7 p = Some ?d"
    and p: "frame802154e_parse_mlme_short_ie m7 (p + 2) (int len - 2)
      MLME_SHORT_IE_TSCH_SLOFTRAME_AND_LINK ies = Some (int len - 2, ies')"
    and i: "ie_slotframe_and_link ies' = \<lparr>sl_num_slotframes = 1, sl_slotframe_handle = sl_slotframe_handle sl,
         sl_slotframe_size = sl_slotframe_size sl, sl_num_links = sl_num_links sl,
         sl_links = ?ls @ drop ?n (sl_links (ie_slotframe_and_link ies))\<rparr>" by blast
  moreover have "take ?n (sl_links (ie_slotframe_and_link ies')) = ?ls"
    unfolding i using n by simp
  ultimately show ?thesis using c by (intro exI [of _ m7] conjI exI [of _ ies']) simp_all
qed

theorem slotframe_and_link_ie_roundtrip_witness:
  "\<exists>m'. frame80215e_create_ie_tsch_slotframe_and_link (replicate 20 0) 1 12
      (Some (ies_zero\<lparr>ie_slotframe_and_link := \<lparr>sl_num_slotframes = 1, sl_slotframe_handle = 3,
         sl_slotframe_size = 101, sl_num_links = 1,
         sl_links = [\<lparr>sl_timeslot = 0, sl_channel_offset = 2, sl_link_options = 15\<rparr>, link_zero, link_zero, link_zero]\<rparr>\<rparr>)) =
    Some (12, m') \<and>
    (\<exists>ies'. frame802154e_parse_mlme_short_ie m' 3 10 MLME_SHORT_IE_TSCH_SLOFTRAME_AND_LINK ies_zero = Some (10, ies') \<and>
       sl_slotframe_size (ie_slotframe_and_link ies') = 101 \<and>
       take 1 (sl_links (ie_slotframe_and_link ies')) =
         [\<lparr>sl_timeslot = 0, sl_channel_offset = 2, sl_link_options = 15\<rparr>])"
proof -
  let ?l = "\<lparr>sl_timeslot = 0, sl_channel_offset = 2, sl_link_options = 15\<rparr>"
  let ?e = "ies_zero\<lparr>ie_slotframe_and_link := \<lparr>sl_num_slotframes = 1, sl_slotframe_handle = 3,
         sl_slotframe_size = 101, sl_num_links = 1, sl_links = [?l, link_zero, link_zero, link_zero]\<rparr>\<rparr>"
  have h: "sl_num_slotframes (ie_slotframe_and_link ?e) = 1"
    "unat (sl_num_links (ie_slotframe_and_link ?e)) \<le> FRAME802154E_IE_MAX_LINKS"
    "length (sl_links (ie_slotframe_and_link ?e)) = FRAME802154E_IE_MAX_LINKS"
    "(12 :: nat) = 7 + 5 * unat (sl_num_links (ie_slotframe_and_link ?e))"
    "1 + 12 \<le> length (replicate 20 (0 :: u8))"
    "length (sl_links (ie_slotframe_and_link ies_zero)) = FRAME802154E_IE_MAX_LINKS"
    by (simp_all add: FRAME802154E_IE_MAX_LINKS_def ies_zero_def)
  from slotframe_and_link_ie_roundtrip [OF h] obtain m' ies' where
    "frame80215e_create_ie_tsch_slotframe_and_link (replicate 20 0) 1 (int 12) (Some ?e) = Some (int 12, m')"
    "frame802154e_parse_mlme_short_ie m' (1 + 2) (int 12 - 2) MLME_SHORT_IE_TSCH_SLOFTRAME_AND_LINK ies_zero =
       Some (int 12 - 2, ies')"
    "sl_slotframe_size (ie_slotframe_and_link ies') = sl_slotframe_size (ie_slotframe_and_link ?e)"
    "take (unat (sl_num_links (ie_slotframe_and_link ?e))) (sl_links (ie_slotframe_and_link ies')) =
       take (unat (sl_num_links (ie_slotframe_and_link ?e))) (sl_links (ie_slotframe_and_link ?e))"
    by blast
  then show ?thesis by (intro exI [of _ m'] conjI exI [of _ ies']) (simp_all add: numeral_3_eq_3)
qed

text \<open>
  The synchronisation element of a beacon carries the ASN and the join priority unchanged: the
  40-bit ASN is split into five bytes and put together again.
\<close>

theorem synchronization_ie_roundtrip:
  assumes "p + 8 \<le> length m"
  shows "\<exists>m'. frame80215e_create_ie_tsch_synchronization m p 8 (Some e) = Some (8, m') \<and>
    read16 m' p = Some (mlme_short_ie_desc MLME_SHORT_IE_TSCH_SYNCHRONIZATION 6) \<and>
    frame802154e_parse_mlme_short_ie m' (p + 2) 6 MLME_SHORT_IE_TSCH_SYNCHRONIZATION ies =
      Some (6, ies\<lparr>ie_asn := ie_asn e, ie_join_priority := ie_join_priority e\<rparr>)"
proof -
  let ?a = "ls4b (ie_asn e)"
  let ?b = "[ucast ?a, ucast (drop_bit 8 ?a), ucast (drop_bit 16 ?a), ucast (drop_bit 24 ?a),
    ms1b (ie_asn e), ie_join_priority e] :: u8 list"
  obtain m1 where m1: "mem_write m (p + 2) ?b = Some m1" using assms by (simp add: mem_simps)
  note l1 = mem_write_length [OF m1]
  obtain m2 where m2: "mem_write m1 p (le16 (mlme_short_ie_desc MLME_SHORT_IE_TSCH_SYNCHRONIZATION 6)) = Some m2"
    using assms l1 by (simp add: mem_simps)
  have r: "mem_read m2 (p + 2) 6 = Some ?b"
    using mem_read_write_disjoint [OF m2, of "p + 2" 6] mem_read_write_same [OF m1, of 6] by simp
  have a: "(ucast (ucast ?a :: u8) OR push_bit 8 (ucast (ucast (drop_bit 8 ?a) :: u8)) OR
      push_bit 16 (ucast (ucast (drop_bit 16 ?a) :: u8)) OR
      push_bit 24 (ucast (ucast (drop_bit 24 ?a) :: u8)) :: u32) = ?a"
  proof (rule bit_word_eqI)
    fix n assume n: "n < LENGTH(32)"
    consider "n < 8" | "8 \<le> n" "n < 16" | "16 \<le> n" "n < 24" | "24 \<le> n" "n < 32" using n by fastforce
    then show "bit (ucast (ucast ?a :: u8) OR push_bit 8 (ucast (ucast (drop_bit 8 ?a) :: u8)) OR
      push_bit 16 (ucast (ucast (drop_bit 16 ?a) :: u8)) OR
      push_bit 24 (ucast (ucast (drop_bit 24 ?a) :: u8)) :: u32) n = bit ?a n"
      by cases (auto simp: bit_simps)
  qed
  have c: "frame80215e_create_ie_tsch_synchronization m p 8 (Some e) = Some (8, m2)"
    using m1 m2 by (simp add: frame80215e_create_ie_tsch_synchronization_def
        create_mlme_short_ie_descriptor_def del: add_2_eq_Suc')
  have d: "read16 m2 p = Some (mlme_short_ie_desc MLME_SHORT_IE_TSCH_SYNCHRONIZATION 6)"
    using mem_read_write_same [OF m2, of 2] by (simp add: read16_def)
  have ne: "MLME_SHORT_IE_TSCH_SYNCHRONIZATION \<noteq> MLME_SHORT_IE_TSCH_SLOFTRAME_AND_LINK"
    by (simp add: ie_id_defs)
  have asn: "\<lparr>ls4b = ?a, ms1b = ms1b (ie_asn e)\<rparr> = ie_asn e" by simp
  have "frame802154e_parse_mlme_short_ie m2 (p + 2) 6 MLME_SHORT_IE_TSCH_SYNCHRONIZATION ies =
      Some (6, ies\<lparr>ie_asn := ie_asn e, ie_join_priority := ie_join_priority e\<rparr>)"
    unfolding frame802154e_parse_mlme_short_ie_def r
    using ne a asn by (simp add: numeral_eq_Suc)
  with c d show ?thesis by blast
qed

theorem synchronization_ie_roundtrip_witness:
  "\<exists>m'. frame80215e_create_ie_tsch_synchronization (replicate 8 0) 0 8
      (Some (ies_zero\<lparr>ie_asn := \<lparr>ls4b = 0x12345678, ms1b = 0x9a\<rparr>\<rparr>)) = Some (8, m') \<and>
    map_option (\<lambda>r. ie_asn (snd r)) (frame802154e_parse_mlme_short_ie m' 2 6 MLME_SHORT_IE_TSCH_SYNCHRONIZATION ies_zero) =
      Some \<lparr>ls4b = 0x12345678, ms1b = 0x9a\<rparr>"
proof -
  have "0 + 8 \<le> length (replicate 8 (0 :: u8))" by simp
  from synchronization_ie_roundtrip [OF this, of "ies_zero\<lparr>ie_asn := \<lparr>ls4b = 0x12345678, ms1b = 0x9a\<rparr>\<rparr>" ies_zero]
  show ?thesis by (auto simp: numeral_2_eq_2)
qed

lemma bind_None: "(\<And>y. x = Some y \<Longrightarrow> f y = None) \<Longrightarrow> x \<bind> f = None"
  by (cases x) simp_all

text \<open>
  The hopping sequence element with identifier 0 claims three bytes, and only these are checked
  against the room in the buffer, but the whole sequence description is written: with fewer than
  \<open>14 + n\<close> bytes left, where \<open>n\<close> is the length of the sequence, the routine writes past the end of
  the buffer.
\<close>

theorem hopping_sequence_ie_overflow:
  assumes i: "ie_channel_hopping_sequence_id e = 0"
    and n: "unat (ie_hopping_sequence_len e) \<le> TSCH_HOPPING_SEQUENCE_MAX_LEN"
    and l: "length (ie_hopping_sequence_list e) = TSCH_HOPPING_SEQUENCE_MAX_LEN"
    and room: "3 \<le> len" "len < 14 + unat (ie_hopping_sequence_len e)" and m: "length m = p + len"
  shows "frame80215e_create_ie_tsch_channel_hopping_sequence m p (int len) (Some e) = None"
proof -
  let ?n = "unat (ie_hopping_sequence_len e)"
  have w: "mem_write x (p + 12 + ?n) (le16 0) = None" if "length x = length m" for x
    using that room m by (simp add: mem_write_None_iff)
  have c: "\<not> TSCH_HOPPING_SEQUENCE_MAX_LEN < ?n" "(2 + 1 :: int) \<le> int len" using n room by simp_all
  let ?rest = "\<lambda>m6. do { m7 \<leftarrow> mem_write m6 (p + 12 + ?n) (le16 0);
     m8 \<leftarrow> create_mlme_long_ie_descriptor m7 p MLME_LONG_IE_TSCH_CHANNEL_HOPPING_SEQUENCE 1; Some (2 + 1 :: int, m8) }"
  have "frame80215e_create_ie_tsch_channel_hopping_sequence m p (int len) (Some e) =
      do { m1 \<leftarrow> mem_write m (p + 2) [ie_channel_hopping_sequence_id e, 0]; m2 \<leftarrow> mem_write m1 (p + 4) (le16 0);
        m3 \<leftarrow> mem_write m2 (p + 6) (le16 0); m4 \<leftarrow> mem_write m3 (p + 8) (le16 0);
        m5 \<leftarrow> mem_write m4 (p + 10) (le16 (ie_hopping_sequence_len e));
        m6 \<leftarrow> mem_write m5 (p + 12) (take ?n (ie_hopping_sequence_list e)); ?rest m6 }"
    using c i by (simp add: frame80215e_create_ie_tsch_channel_hopping_sequence_def Let_def del: unat_gt_0)
  also have "\<dots> = None"
    by (intro bind_None) (simp add: w mem_write_length)
  finally show ?thesis .
qed

theorem hopping_sequence_ie_overflow_witness:
  "frame80215e_create_ie_tsch_channel_hopping_sequence (replicate 10 0) 0 10 (Some ies_zero) = None"
  using hopping_sequence_ie_overflow [of ies_zero 10 "replicate 10 0" 0]
  by (simp add: ies_zero_def)

end
