(* ===== verification/Sixtop.thy ===== *)
theory Sixtop
  imports Sixp_Trans Frame_Ie
begin

section \<open>The 6top sublayer\<close>

text \<open>
  Model of \<open>os/net/mac/tsch/sixtop/sixtop.c\<close>: the registration of the scheduling functions and
  \<open>sixtop_output\<close>, which wraps the 6P message in the packet buffer into information elements and
  gives the frame to the MAC layer.  \<open>sixtop_input\<close> and \<open>sixtop_init\<close>, which call 6P, are in the
  theory \<open>Sixp\<close>.

  A MAC callback is \<open>None\<close> for NULL, otherwise the function that is called with the pointer \<open>arg\<close>
  (a transaction) and the status.  The MAC layer \<open>sx_mac_send\<close> is a parameter: it gets the
  pointer, or NULL when there is no callback, and returns the status with which it calls the
  callback before it returns, if it does so.  The payload termination IE is off, as in the
  default configuration.
\<close>

type_synonym 's mac_callback = "(nat option \<Rightarrow> u8 \<Rightarrow> 's \<Rightarrow> 's ub) option"

definition FRAME802154_DATAFRAME :: u16 where "FRAME802154_DATAFRAME = 1"

subsection \<open>Scheduling functions\<close>

definition call_sf_init ::
  "('a sixp_state_scheme) sixp_env \<Rightarrow> nat \<Rightarrow> 'a sixp_state_scheme \<Rightarrow> 'a sixp_state_scheme ub" where
  "call_sf_init env sf s = (case sf_init (sx_sf env sf) of None \<Rightarrow> Some s | Some f \<Rightarrow> f s)"

definition sixtop_add_sf ::
  "('a sixp_state_scheme) sixp_env \<Rightarrow> nat \<Rightarrow> 'a sixp_state_scheme \<Rightarrow> (int \<times> 'a sixp_state_scheme) ub" where
  "sixtop_add_sf env sf s =
     (if sixtop_find_sf env (sf_sfid (sx_sf env sf)) s \<noteq> None then Some (-1, s)
      else case find (\<lambda>i. scheduling_functions s ! i = None) [0..<SIXTOP_MAX_SCHEDULING_FUNCTIONS] of
        None \<Rightarrow> Some (-1, s)
      | Some i \<Rightarrow> do {
          s1 \<leftarrow> call_sf_init env sf (s\<lparr>scheduling_functions := (scheduling_functions s)[i := Some sf]\<rparr>);
          s2 \<leftarrow> call_sf_init env sf s1;
          Some (0, s2)
        })"

fun init_sf_loop ::
  "('a sixp_state_scheme) sixp_env \<Rightarrow> nat list \<Rightarrow> 'a sixp_state_scheme \<Rightarrow> 'a sixp_state_scheme ub" where
  "init_sf_loop env [] s = Some s"
| "init_sf_loop env (i # is) s = do {
     s1 \<leftarrow> (case scheduling_functions s ! i of None \<Rightarrow> Some s | Some sf \<Rightarrow> call_sf_init env sf s);
     init_sf_loop env is s1
   }"

definition sixtop_init_sf ::
  "('a sixp_state_scheme) sixp_env \<Rightarrow> 'a sixp_state_scheme \<Rightarrow> 'a sixp_state_scheme ub" where
  "sixtop_init_sf env s = init_sf_loop env [0..<SIXTOP_MAX_SCHEDULING_FUNCTIONS] s"

subsection \<open>Output\<close>

definition strip_payload_termination_ie :: "'a packetbuf_state_scheme \<Rightarrow> 'a packetbuf_state_scheme ub" where
  "strip_payload_termination_ie s =
     (let ptr = packetbuf_dataptr s
      in do {
        b0 \<leftarrow> read8 (pb_mem s) ptr;
        (if b0 = 0x00
         then do {
           b1 \<leftarrow> read8 (pb_mem s) (ptr + 1);
           Some (if b1 = 0xf8 then snd (packetbuf_hdrreduce 2 s) else s)
         }
         else Some s)
      })"

text \<open>\<open>NETSTACK_MAC.send\<close>, and the callback that it may run.\<close>

definition netstack_mac_send ::
  "('a sixp_state_scheme) sixp_env \<Rightarrow> ('a sixp_state_scheme) mac_callback \<Rightarrow> nat option \<Rightarrow>
   'a sixp_state_scheme \<Rightarrow> 'a sixp_state_scheme ub" where
  "netstack_mac_send env callback arg s = do {
     (status, s1) \<leftarrow> sx_mac_send env (if callback = None then None else arg) s;
     (case (callback, status) of
        (Some cb, Some st) \<Rightarrow> cb arg st s1
      | _ \<Rightarrow> Some s1)
   }"

definition output_error ::
  "('a sixp_state_scheme) mac_callback \<Rightarrow> nat option \<Rightarrow> 'a sixp_state_scheme \<Rightarrow>
   (int \<times> 'a sixp_state_scheme) ub" where
  "output_error callback arg s =
     (case callback of
        None \<Rightarrow> Some (-1, s)
      | Some cb \<Rightarrow> do { s1 \<leftarrow> cb arg MAC_TX_ERR_FATAL s; Some (-1, s1) })"

text \<open>The rest of \<open>sixtop_output\<close>, once the payload descriptor is in place.\<close>

definition sixtop_output_tail ::
  "('a sixp_state_scheme) sixp_env \<Rightarrow> linkaddr \<Rightarrow> ('a sixp_state_scheme) mac_callback \<Rightarrow> nat option \<Rightarrow>
   'a sixp_state_scheme \<Rightarrow> (int \<times> 'a sixp_state_scheme) ub" where
  "sixtop_output_tail env dest callback arg s4 = do {
     (r3, s5) \<leftarrow> packetbuf_hdralloc 2 s4;
     (len1, m1) \<leftarrow> (if r3 = 0 then Some (0, pb_mem s5)
                   else frame80215e_create_ie_header_list_termination_1 (pb_mem s5)
                          (packetbuf_hdrptr s5) 2 (Some ies_zero));
     (let s6 = s5\<lparr>pb_mem := m1\<rparr>
      in if r3 \<noteq> 0 \<and> len1 < 0
      then (case callback of
              None \<Rightarrow> None
            | Some cb \<Rightarrow> do { s7 \<leftarrow> cb arg MAC_TX_ERR_FATAL s6; Some (-1, s7) })
      else do {
        s7 \<leftarrow> netstack_mac_send env callback arg
          (packetbuf_set_addr PACKETBUF_ADDR_SENDER (sx_node_addr env)
          (packetbuf_set_addr PACKETBUF_ADDR_RECEIVER dest
          (packetbuf_set_attr PACKETBUF_ATTR_FRAME_TYPE FRAME802154_DATAFRAME
          (packetbuf_set_attr PACKETBUF_ATTR_MAC_METADATA 1 s6))));
        Some (0, s7)
      })
   }"

definition sixtop_output ::
  "('a sixp_state_scheme) sixp_env \<Rightarrow> linkaddr option \<Rightarrow> ('a sixp_state_scheme) mac_callback \<Rightarrow> nat option \<Rightarrow>
   'a sixp_state_scheme \<Rightarrow> (int \<times> 'a sixp_state_scheme) ub" where
  "sixtop_output env dest_addr callback arg s =
     (case dest_addr of
        None \<Rightarrow> output_error callback arg s
      | Some dest \<Rightarrow> do {
          (r1, s1) \<leftarrow> packetbuf_hdralloc 1 s;
          (if r1 \<noteq> 1 then Some (-1, s1)
           else do {
             s2 \<leftarrow> packetbuf_poke (packetbuf_hdrptr s1) [SIXTOP_SUBIE_ID] s1;
             (let ies = ies_zero\<lparr>sixtop_ie_content_len := packetbuf_totlen s2\<rparr>
              in do {
                (r2, s3) \<leftarrow> packetbuf_hdralloc 2 s2;
                (len, m) \<leftarrow> (if r2 \<noteq> 1 then Some (-1, pb_mem s3)
                            else frame80215e_create_ie_ietf (pb_mem s3) (packetbuf_hdrptr s3) 2 (Some ies));
                (let s4 = s3\<lparr>pb_mem := m\<rparr>
                 in if len < 0 then output_error callback arg s4
                 else sixtop_output_tail env dest callback arg s4)
              })
           })
        })"

subsection \<open>The frame that is sent\<close>

text \<open>Allocating header space and filling it puts bytes in front of the packet.\<close>

lemma hdralloc_poke:
  assumes wf: "packetbuf_wf s" and room: "length bs + packetbuf_used s \<le> PACKETBUF_SIZE"
  obtains s1 m where "packetbuf_hdralloc (length bs) s = Some (1, s1)"
    and "mem_write (pb_mem s1) 0 bs = Some m"
    and "packetbuf_wf (s1\<lparr>pb_mem := m\<rparr>)"
    and "packetbuf_used (s1\<lparr>pb_mem := m\<rparr>) = length bs + packetbuf_used s"
    and "packetbuf_content (s1\<lparr>pb_mem := m\<rparr>) = bs @ packetbuf_content s"
    and "s1 = s\<lparr>pb_mem := pb_mem s1, pb_hdrlen := pb_hdrlen s1\<rparr>"
proof -
  obtain s1 where a: "packetbuf_hdralloc (length bs) s = Some (1, s1)" and w: "packetbuf_wf s1"
    and u: "packetbuf_used s1 = length bs + packetbuf_used s"
    and c: "packetbuf_content s1 = take (length bs) (pb_mem s) @ packetbuf_content s"
    and e: "s1 = s\<lparr>pb_mem := pb_mem s1, pb_hdrlen := pb_hdrlen s1\<rparr>"
    by (rule packetbuf_hdralloc_room [OF wf room])
  have l: "length (pb_mem s1) = 128" "length (pb_mem s) = 128" and r: "length bs + packetbuf_used s \<le> 128"
    using w wf room by (simp_all add: packetbuf_wf_def PACKETBUF_SIZE_def)
  let ?m = "bs @ drop (length bs) (pb_mem s1)"
  have m: "mem_write (pb_mem s1) 0 bs = Some ?m" using l r by (simp add: mem_write_def)
  have u': "packetbuf_used (s1\<lparr>pb_mem := ?m\<rparr>) = packetbuf_used s1" by (simp add: packetbuf_used_def)
  have w': "packetbuf_wf (s1\<lparr>pb_mem := ?m\<rparr>)"
    using w l r u' by (simp add: packetbuf_wf_def PACKETBUF_SIZE_def)
  have "drop (length bs) (packetbuf_content s1) = packetbuf_content s"
    using c l r by simp
  then have c': "packetbuf_content (s1\<lparr>pb_mem := ?m\<rparr>) = bs @ packetbuf_content s"
    unfolding packetbuf_content_def u' u by (simp add: drop_take)
  show ?thesis by (rule that [OF a m w' _ c' e]) (simp add: u' u)
qed

definition tag_6p :: "linkaddr \<Rightarrow> linkaddr \<Rightarrow> 'a packetbuf_state_scheme \<Rightarrow> 'a packetbuf_state_scheme" where
  "tag_6p src dest s =
     packetbuf_set_addr PACKETBUF_ADDR_SENDER src
       (packetbuf_set_addr PACKETBUF_ADDR_RECEIVER dest
         (packetbuf_set_attr PACKETBUF_ATTR_FRAME_TYPE FRAME802154_DATAFRAME
           (packetbuf_set_attr PACKETBUF_ATTR_MAC_METADATA 1 s)))"

lemma packetbuf_set_attr_content [simp]:
  "packetbuf_content (packetbuf_set_attr t v s) = packetbuf_content s"
  "packetbuf_content (packetbuf_set_addr u a s) = packetbuf_content s"
  by (simp_all add: packetbuf_content_def packetbuf_used_def packetbuf_set_attr_def packetbuf_set_addr_def)

text \<open>\<open>sixtop_output\<close> up to the payload descriptor.\<close>

lemma sixtop_output_payload:
  assumes wf: "packetbuf_wf s" and n: "packetbuf_used s \<le> 125"
  obtains m h where
    "sixtop_output env (Some dest) cb arg s = sixtop_output_tail env dest cb arg (s\<lparr>pb_mem := m, pb_hdrlen := h\<rparr>)"
    and "packetbuf_wf (s\<lparr>pb_mem := m, pb_hdrlen := h\<rparr>)"
    and "packetbuf_used (s\<lparr>pb_mem := m, pb_hdrlen := h\<rparr>) = 3 + packetbuf_used s"
    and "packetbuf_content (s\<lparr>pb_mem := m, pb_hdrlen := h\<rparr>) =
      le16 (payload_ie_desc PAYLOAD_IE_IETF (int (packetbuf_used s) + 1)) @ SIXTOP_SUBIE_ID # packetbuf_content s"
proof -
  let ?n = "packetbuf_used s"
  let ?d1 = "[SIXTOP_SUBIE_ID]" and ?d2 = "le16 (payload_ie_desc PAYLOAD_IE_IETF (int ?n + 1))"
  have r1: "length ?d1 + packetbuf_used s \<le> PACKETBUF_SIZE" using n by (simp add: PACKETBUF_SIZE_def)
  obtain a1 m1 where a1: "packetbuf_hdralloc (length ?d1) s = Some (1, a1)" "mem_write (pb_mem a1) 0 ?d1 = Some m1"
    and w1: "packetbuf_wf (a1\<lparr>pb_mem := m1\<rparr>)"
    and u1: "packetbuf_used (a1\<lparr>pb_mem := m1\<rparr>) = length ?d1 + ?n"
    and c1: "packetbuf_content (a1\<lparr>pb_mem := m1\<rparr>) = ?d1 @ packetbuf_content s"
    and e1: "a1 = s\<lparr>pb_mem := pb_mem a1, pb_hdrlen := pb_hdrlen a1\<rparr>"
    by (rule hdralloc_poke [OF wf r1])
  let ?s1 = "a1\<lparr>pb_mem := m1\<rparr>"
  have "int (unat (packetbuf_totlen ?s1)) = uint (packetbuf_totlen ?s1)" by simp
  with unat_totlen [OF w1] u1 have t: "uint (packetbuf_totlen ?s1) = int ?n + 1" by simp
  have r2: "length ?d2 + packetbuf_used ?s1 \<le> PACKETBUF_SIZE" using n by (simp add: u1 PACKETBUF_SIZE_def)
  obtain a2 m2 where a2: "packetbuf_hdralloc (length ?d2) ?s1 = Some (1, a2)" "mem_write (pb_mem a2) 0 ?d2 = Some m2"
    and w2: "packetbuf_wf (a2\<lparr>pb_mem := m2\<rparr>)"
    and u2: "packetbuf_used (a2\<lparr>pb_mem := m2\<rparr>) = length ?d2 + packetbuf_used ?s1"
    and c2: "packetbuf_content (a2\<lparr>pb_mem := m2\<rparr>) = ?d2 @ packetbuf_content ?s1"
    and e2: "a2 = ?s1\<lparr>pb_mem := pb_mem a2, pb_hdrlen := pb_hdrlen a2\<rparr>"
    by (rule hdralloc_poke [OF w1 r2])
  have e: "a2\<lparr>pb_mem := m2\<rparr> = s\<lparr>pb_mem := m2, pb_hdrlen := pb_hdrlen a2\<rparr>"
    by (subst e2, subst e1) simp
  have f1: "frame80215e_create_ie_ietf (pb_mem a2) 0 2
      (Some (ies_zero\<lparr>sixtop_ie_content_len := packetbuf_totlen ?s1\<rparr>)) = Some (2 + (int ?n + 1), m2)"
    using a2(2) t by (simp add: frame80215e_create_ie_ietf_def create_payload_ie_descriptor_def add.commute)
  have run: "sixtop_output env (Some dest) cb arg s = sixtop_output_tail env dest cb arg (a2\<lparr>pb_mem := m2\<rparr>)"
    using a1 a2(1) [unfolded length_le16] f1
    by (simp add: sixtop_output_def packetbuf_poke_def packetbuf_hdrptr_def Let_def)
  show ?thesis
  proof (rule that [of "pb_hdrlen a2" m2])
    show "sixtop_output env (Some dest) cb arg s =
        sixtop_output_tail env dest cb arg (s\<lparr>pb_mem := m2, pb_hdrlen := pb_hdrlen a2\<rparr>)"
      using run by (simp flip: e)
    show "packetbuf_wf (s\<lparr>pb_mem := m2, pb_hdrlen := pb_hdrlen a2\<rparr>)" using w2 by (simp only: e)
    show "packetbuf_used (s\<lparr>pb_mem := m2, pb_hdrlen := pb_hdrlen a2\<rparr>) = 3 + packetbuf_used s"
      using u2 u1 by (simp only: e) simp
    show "packetbuf_content (s\<lparr>pb_mem := m2, pb_hdrlen := pb_hdrlen a2\<rparr>) = ?d2 @ SIXTOP_SUBIE_ID # packetbuf_content s"
      using c2 c1 by (simp only: e) simp
  qed
qed

lemma sixtop_output_steps:
  assumes wf: "packetbuf_wf s" and n: "packetbuf_used s \<le> 123"
  obtains m h where "sixtop_output env (Some dest) cb arg s = do {
      s1 \<leftarrow> netstack_mac_send env cb arg (tag_6p (sx_node_addr env) dest (s\<lparr>pb_mem := m, pb_hdrlen := h\<rparr>));
      Some (0, s1) }"
    and "packetbuf_wf (s\<lparr>pb_mem := m, pb_hdrlen := h\<rparr>)"
    and "packetbuf_content (s\<lparr>pb_mem := m, pb_hdrlen := h\<rparr>) = sixtop_frame (packetbuf_content s)"
proof -
  have n': "packetbuf_used s \<le> 125" using n by simp
  obtain m h where out: "sixtop_output env (Some dest) cb arg s =
      sixtop_output_tail env dest cb arg (s\<lparr>pb_mem := m, pb_hdrlen := h\<rparr>)"
    and w2: "packetbuf_wf (s\<lparr>pb_mem := m, pb_hdrlen := h\<rparr>)"
    and u2: "packetbuf_used (s\<lparr>pb_mem := m, pb_hdrlen := h\<rparr>) = 3 + packetbuf_used s"
    and c2: "packetbuf_content (s\<lparr>pb_mem := m, pb_hdrlen := h\<rparr>) =
      le16 (payload_ie_desc PAYLOAD_IE_IETF (int (packetbuf_used s) + 1)) @ SIXTOP_SUBIE_ID # packetbuf_content s"
    by (rule sixtop_output_payload [OF wf n'])
  let ?s2 = "s\<lparr>pb_mem := m, pb_hdrlen := h\<rparr>" and ?d3 = "le16 (header_ie_desc HEADER_IE_LIST_TERMINATION_1 0)"
  have r3: "length ?d3 + packetbuf_used ?s2 \<le> PACKETBUF_SIZE" using n by (simp add: u2 PACKETBUF_SIZE_def)
  obtain a3 m3 where a3: "packetbuf_hdralloc (length ?d3) ?s2 = Some (1, a3)" "mem_write (pb_mem a3) 0 ?d3 = Some m3"
    and w3: "packetbuf_wf (a3\<lparr>pb_mem := m3\<rparr>)"
    and c3: "packetbuf_content (a3\<lparr>pb_mem := m3\<rparr>) = ?d3 @ packetbuf_content ?s2"
    and e3: "a3 = ?s2\<lparr>pb_mem := pb_mem a3, pb_hdrlen := pb_hdrlen a3\<rparr>"
    by (rule hdralloc_poke [OF w2 r3])
  have f2: "frame80215e_create_ie_header_list_termination_1 (pb_mem a3) 0 2 (Some ies_zero) = Some (2, m3)"
    using a3(2) by (simp add: frame80215e_create_ie_header_list_termination_1_def create_header_ie_descriptor_def)
  have e: "a3\<lparr>pb_mem := m3\<rparr> = s\<lparr>pb_mem := m3, pb_hdrlen := pb_hdrlen a3\<rparr>" by (subst e3) simp
  have len: "length (packetbuf_content s) = packetbuf_used s"
    using wf by (simp add: packetbuf_content_def packetbuf_wf_def)
  have "sixtop_output env (Some dest) cb arg s = do {
      s1 \<leftarrow> netstack_mac_send env cb arg (tag_6p (sx_node_addr env) dest (a3\<lparr>pb_mem := m3\<rparr>));
      Some (0, s1) }"
    using a3(1) [unfolded length_le16] f2 by (simp add: out sixtop_output_tail_def packetbuf_hdrptr_def tag_6p_def)
  moreover have "packetbuf_content (a3\<lparr>pb_mem := m3\<rparr>) = sixtop_frame (packetbuf_content s)"
    by (simp add: c3 c2 sixtop_frame_def len)
  ultimately show ?thesis using w3 by (intro that [of "pb_hdrlen a3" m3]) (simp_all flip: e)
qed

text \<open>A payload element where a header element has to be: the parser gives up.\<close>

lemma parse_headless:
  assumes "2 \<le> unat buf_size" and "read16 m p = Some (payload_ie_desc g l)"
  shows "parse_ie_loop m p PARSING_HEADER_IE p buf_size nested ies = Some (-1, ies)"
proof -
  have "buf_size \<noteq> 0" "\<not> buf_size < 2" using assms(1) by (auto simp: word_less_nat_alt)
  then show ?thesis using assms(2)
    by (subst parse_ie_loop.simps) (simp add: parse_ie_step_def parse_header_step_def Let_def)
qed

subsection \<open>Properties\<close>

lemma length_content: "packetbuf_wf s \<Longrightarrow> length (packetbuf_content s) = packetbuf_used s"
  by (simp add: packetbuf_content_def packetbuf_wf_def)

lemma tag_6p_simps [simp]:
  "packetbuf_content (tag_6p src dest s) = packetbuf_content s"
  "packetbuf_addr PACKETBUF_ADDR_RECEIVER (tag_6p src dest s) = dest"
  "packetbuf_addr PACKETBUF_ADDR_SENDER (tag_6p src dest s) = src"
  "packetbuf_attr PACKETBUF_ATTR_FRAME_TYPE (tag_6p src dest s) = FRAME802154_DATAFRAME"
  "packetbuf_attr PACKETBUF_ATTR_MAC_METADATA (tag_6p src dest s) = 1"
  by (simp add: tag_6p_def)
    (simp_all add: tag_6p_def packetbuf_set_addr_def packetbuf_set_attr_def packetbuf_addr_def packetbuf_attr_def)

text \<open>
  C29: \<open>sixtop_output\<close> hands a 6P message to the MAC layer in a frame that the receiver takes apart
  again.  For a message of at most 123 bytes in a well-formed packet buffer, the MAC layer finds in
  the buffer the message behind its three information elements, as a data frame with metadata from
  this node to the destination; the parser of information elements accepts the whole frame and
  points at the very bytes of the message.  The call returns 0 whatever the MAC layer does.
\<close>

theorem sixtop_output_delivers:
  assumes wf: "packetbuf_wf s" and n: "packetbuf_used s \<le> 123"
  shows "\<exists>s1 ies'. sixtop_output env (Some dest) callback arg s =
      do { s2 \<leftarrow> netstack_mac_send env callback arg s1; Some (0, s2) } \<and>
    packetbuf_addr PACKETBUF_ADDR_RECEIVER s1 = dest \<and>
    packetbuf_addr PACKETBUF_ADDR_SENDER s1 = sx_node_addr env \<and>
    packetbuf_attr PACKETBUF_ATTR_FRAME_TYPE s1 = FRAME802154_DATAFRAME \<and>
    packetbuf_attr PACKETBUF_ATTR_MAC_METADATA s1 = 1 \<and>
    frame802154e_parse_information_elements (packetbuf_content s1) 0
      (of_nat (length (packetbuf_content s1))) (Some ies) =
      Some (int (length (packetbuf_content s1)), Some ies') \<and>
    sixtop_ie_content_ptr ies' = Some 5 \<and>
    mem_read (packetbuf_content s1) 5 (unat (sixtop_ie_content_len ies')) = Some (packetbuf_content s)"
proof -
  let ?c = "packetbuf_content s"
  obtain m h where out: "sixtop_output env (Some dest) callback arg s = do {
      s1 \<leftarrow> netstack_mac_send env callback arg (tag_6p (sx_node_addr env) dest (s\<lparr>pb_mem := m, pb_hdrlen := h\<rparr>));
      Some (0, s1) }"
    and c: "packetbuf_content (s\<lparr>pb_mem := m, pb_hdrlen := h\<rparr>) = sixtop_frame ?c"
    by (rule sixtop_output_steps [OF wf n])
  let ?s1 = "tag_6p (sx_node_addr env) dest (s\<lparr>pb_mem := m, pb_hdrlen := h\<rparr>)"
  have l: "length ?c \<le> 123" using n by (simp add: length_content [OF wf])
  let ?ies = "ies\<lparr>ie_payload_ie_offset := 2, sixtop_ie_content_ptr := Some 5,
      sixtop_ie_content_len := of_nat (length ?c)\<rparr>"
  have r: "mem_read (sixtop_frame ?c) 0 (length (sixtop_frame ?c)) = Some (sixtop_frame ?c)"
    by (simp add: mem_read_def)
  have p: "frame802154e_parse_information_elements (sixtop_frame ?c) 0
      (of_nat (length (sixtop_frame ?c))) (Some ies) = Some (int (length (sixtop_frame ?c)), Some ?ies)"
    using sixtop_frame_parse [OF r, of "ies\<lparr>ie_payload_ie_offset := 0\<rparr>"] l
    by (simp add: frame802154e_parse_information_elements_def)
  have u: "unat (of_nat (length ?c) :: u16) = length ?c" using l by (simp add: unat_of_nat)
  have b: "mem_read (sixtop_frame ?c) 5 (length ?c) = Some ?c"
    by (simp add: mem_read_def sixtop_frame_def)
  show ?thesis
    using out p b by (intro exI [of _ ?s1] exI [of _ ?ies]) (simp add: c u)
qed

text \<open>
  A message of 124 or 125 bytes fits in the buffer with its sub-element identifier and its
  payload descriptor but not with the header termination, and \<open>sixtop_output\<close> does not look at
  that: the last \<open>packetbuf_hdralloc\<close> fails, the frame goes to the MAC layer without the header
  termination, the call reports success, and the receiver's parser rejects the frame.
\<close>

theorem sixtop_output_drops_termination:
  assumes wf: "packetbuf_wf s" and n: "packetbuf_used s = 124 \<or> packetbuf_used s = 125"
  shows "\<exists>s1. sixtop_output env (Some dest) callback arg s =
      do { s2 \<leftarrow> netstack_mac_send env callback arg s1; Some (0, s2) } \<and>
    packetbuf_content s1 = le16 (payload_ie_desc PAYLOAD_IE_IETF (int (packetbuf_used s) + 1)) @
      SIXTOP_SUBIE_ID # packetbuf_content s \<and>
    (\<exists>ies'. frame802154e_parse_information_elements (packetbuf_content s1) 0
       (of_nat (length (packetbuf_content s1))) (Some ies) = Some (-1, ies'))"
proof -
  let ?n = "packetbuf_used s" and ?c = "le16 (payload_ie_desc PAYLOAD_IE_IETF (int (packetbuf_used s) + 1)) @
      SIXTOP_SUBIE_ID # packetbuf_content s"
  have n': "packetbuf_used s \<le> 125" using n by auto
  obtain m h where out: "sixtop_output env (Some dest) callback arg s =
      sixtop_output_tail env dest callback arg (s\<lparr>pb_mem := m, pb_hdrlen := h\<rparr>)"
    and w2: "packetbuf_wf (s\<lparr>pb_mem := m, pb_hdrlen := h\<rparr>)"
    and u2: "packetbuf_used (s\<lparr>pb_mem := m, pb_hdrlen := h\<rparr>) = 3 + packetbuf_used s"
    and c2: "packetbuf_content (s\<lparr>pb_mem := m, pb_hdrlen := h\<rparr>) = ?c"
    by (rule sixtop_output_payload [OF wf n'])
  let ?s2 = "s\<lparr>pb_mem := m, pb_hdrlen := h\<rparr>"
  have a3: "packetbuf_hdralloc 2 ?s2 = Some (0, ?s2)"
    by (rule packetbuf_hdralloc_full [OF w2]) (use n in \<open>auto simp: u2 PACKETBUF_SIZE_def\<close>)
  have l: "length ?c = ?n + 3" by (simp add: length_content [OF wf])
  have u: "2 \<le> unat (of_nat (length ?c) :: u8)" unfolding l using n by auto
  have r: "read16 ?c 0 = Some (payload_ie_desc PAYLOAD_IE_IETF (int ?n + 1))"
    by (simp add: read16_def mem_read_def)
  have "frame802154e_parse_information_elements ?c 0 (of_nat (length ?c)) (Some ies) =
      Some (-1, Some (ies\<lparr>ie_payload_ie_offset := 0\<rparr>))"
    unfolding frame802154e_parse_information_elements_def by (simp only: option.case parse_headless [OF u r]) simp
  moreover have "sixtop_output env (Some dest) callback arg s = do {
      s1 \<leftarrow> netstack_mac_send env callback arg (tag_6p (sx_node_addr env) dest ?s2);
      Some (0, s1) }"
    using a3 by (simp add: out sixtop_output_tail_def tag_6p_def)
  ultimately show ?thesis
    by (intro exI [of _ "tag_6p (sx_node_addr env) dest ?s2"] conjI)
      (simp_all only: tag_6p_simps c2, blast)
qed

text \<open>A state whose packet buffer holds \<open>n\<close> zero bytes.\<close>

definition sixp_buf_example :: "nat \<Rightarrow> sixp_state" where
  "sixp_buf_example n = sixp_example
     \<lparr>pb_mem := replicate 128 0, pb_buflen := of_nat n, pb_bufptr := 0, pb_hdrlen := 0\<rparr>"

lemma sixp_buf_example_used: "n \<le> 128 \<Longrightarrow> packetbuf_used (sixp_buf_example n) = n"
  by (simp add: sixp_buf_example_def packetbuf_used_def unat_of_nat)

lemma sixp_buf_example_wf: "n \<le> 128 \<Longrightarrow> packetbuf_wf (sixp_buf_example n)"
  using sixp_buf_example_used [of n]
  by (simp add: packetbuf_wf_def PACKETBUF_SIZE_def) (simp add: sixp_buf_example_def)

theorem sixtop_output_delivers_witness:
  "\<exists>s1. sixtop_output sixp_env_silent (Some 7) None None (sixp_buf_example 4) = Some (0, s1) \<and>
     packetbuf_addr PACKETBUF_ADDR_RECEIVER s1 = 7 \<and>
     mem_read (packetbuf_content s1) 5 4 = Some [0, 0, 0, 0]"
proof -
  have c: "packetbuf_content (sixp_buf_example 4) = [0, 0, 0, 0]"
    using sixp_buf_example_used [of 4]
    by (simp add: packetbuf_content_def) (simp add: sixp_buf_example_def numeral_eq_Suc)
  have u: "packetbuf_used (sixp_buf_example 4) \<le> 123" by (simp add: sixp_buf_example_used)
  have w: "packetbuf_wf (sixp_buf_example 4)" by (rule sixp_buf_example_wf) simp
  note d = sixtop_output_delivers [OF w u, of sixp_env_silent 7 None None ies_zero, unfolded c]
  show ?thesis
  proof (rule exE [OF d], elim exE conjE, intro exI conjI)
    fix s1 :: sixp_state and ies'
    assume o: "sixtop_output sixp_env_silent (Some 7) None None (sixp_buf_example 4) =
        netstack_mac_send sixp_env_silent None None s1 \<bind> (\<lambda>s2. Some (0, s2))"
      and a: "packetbuf_addr PACKETBUF_ADDR_RECEIVER s1 = 7"
      and m: "mem_read (packetbuf_content s1) 5 (unat (sixtop_ie_content_len ies')) = Some [0, 0, 0, 0]"
    show "sixtop_output sixp_env_silent (Some 7) None None (sixp_buf_example 4) = Some (0, s1)"
      using o by (simp add: netstack_mac_send_def sixp_env_silent_def)
    show "packetbuf_addr PACKETBUF_ADDR_RECEIVER s1 = 7" by (rule a)
    have "unat (sixtop_ie_content_len ies') = 4" using mem_read_length [OF m] by simp
    with m show "mem_read (packetbuf_content s1) 5 4 = Some [0, 0, 0, 0]" by simp
  qed
qed

theorem sixtop_output_drops_termination_witness:
  "\<exists>s1. sixtop_output sixp_env_silent (Some 7) None None (sixp_buf_example 124) = Some (0, s1) \<and>
     (\<exists>ies'. frame802154e_parse_information_elements (packetbuf_content s1) 0
       (of_nat (length (packetbuf_content s1))) (Some ies_zero) = Some (-1, ies'))"
proof -
  have w: "packetbuf_wf (sixp_buf_example 124)" by (rule sixp_buf_example_wf) simp
  have u: "packetbuf_used (sixp_buf_example 124) = 124 \<or> packetbuf_used (sixp_buf_example 124) = 125"
    by (simp add: sixp_buf_example_used)
  from sixtop_output_drops_termination [OF w u, of sixp_env_silent 7 None None ies_zero]
  show ?thesis by (auto simp: netstack_mac_send_def sixp_env_silent_def)
qed

text \<open>
  When the buffer has no room for the information elements, \<open>sixtop_output\<close> fails without
  giving anything to the MAC layer, but whether the caller's callback learns of it depends on the
  element that does not fit: with two or three bytes left the callback gets
  \<open>MAC_TX_ERR_FATAL\<close>, with none left it is never called.
\<close>

theorem sixtop_output_no_room:
  assumes wf: "packetbuf_wf s" and n: "125 < packetbuf_used s"
  shows "\<exists>s1. sixtop_output env (Some dest) (Some cb) arg s =
      (if packetbuf_used s = 128 then Some (-1, s)
       else do { s2 \<leftarrow> cb arg MAC_TX_ERR_FATAL s1; Some (-1, s2) }) \<and>
    s1 = s\<lparr>pb_mem := pb_mem s1, pb_hdrlen := pb_hdrlen s1\<rparr>"
proof (cases "packetbuf_used s = 128")
  case True
  have "packetbuf_hdralloc 1 s = Some (0, s)"
    by (rule packetbuf_hdralloc_full [OF wf]) (simp add: True PACKETBUF_SIZE_def)
  then show ?thesis using True by (intro exI [of _ s]) (simp add: sixtop_output_def)
next
  case False
  have "packetbuf_used s \<le> 128" using wf by (simp add: packetbuf_wf_def PACKETBUF_SIZE_def)
  with False have r1: "length [SIXTOP_SUBIE_ID] + packetbuf_used s \<le> PACKETBUF_SIZE"
    by (simp add: PACKETBUF_SIZE_def)
  obtain a m where a: "packetbuf_hdralloc (length [SIXTOP_SUBIE_ID]) s = Some (1, a)"
      "mem_write (pb_mem a) 0 [SIXTOP_SUBIE_ID] = Some m"
    and w: "packetbuf_wf (a\<lparr>pb_mem := m\<rparr>)"
    and u: "packetbuf_used (a\<lparr>pb_mem := m\<rparr>) = length [SIXTOP_SUBIE_ID] + packetbuf_used s"
    and e: "a = s\<lparr>pb_mem := pb_mem a, pb_hdrlen := pb_hdrlen a\<rparr>"
    by (rule hdralloc_poke [OF wf r1])
  have "packetbuf_hdralloc 2 (a\<lparr>pb_mem := m\<rparr>) = Some (0, a\<lparr>pb_mem := m\<rparr>)"
    by (rule packetbuf_hdralloc_full [OF w]) (use n u in \<open>simp add: PACKETBUF_SIZE_def\<close>)
  then have "sixtop_output env (Some dest) (Some cb) arg s =
      do { s2 \<leftarrow> cb arg MAC_TX_ERR_FATAL (a\<lparr>pb_mem := m\<rparr>); Some (-1, s2) }"
    using a by (simp add: sixtop_output_def packetbuf_poke_def packetbuf_hdrptr_def Let_def output_error_def)
  moreover have "a\<lparr>pb_mem := m\<rparr> = s\<lparr>pb_mem := m, pb_hdrlen := pb_hdrlen a\<rparr>" by (subst e) simp
  ultimately show ?thesis using False by (intro exI [of _ "a\<lparr>pb_mem := m\<rparr>"]) simp
qed

theorem sixtop_output_no_room_witness:
  "sixtop_output sixp_env_silent (Some 7) (Some (\<lambda>_ _ s. Some (s\<lparr>trans_list := []\<rparr>))) None
     (sixp_buf_example 128) = Some (-1, sixp_buf_example 128) \<and>
   (\<exists>s1. sixtop_output sixp_env_silent (Some 7) (Some (\<lambda>_ _ s. Some (s\<lparr>trans_list := []\<rparr>))) None
     (sixp_buf_example 127) = Some (-1, s1) \<and> trans_list s1 = [])"
proof -
  have w: "packetbuf_wf (sixp_buf_example 128)" "packetbuf_wf (sixp_buf_example 127)"
    by (simp_all add: sixp_buf_example_wf)
  have u: "125 < packetbuf_used (sixp_buf_example 128)" "125 < packetbuf_used (sixp_buf_example 127)"
    by (simp_all add: sixp_buf_example_used)
  show ?thesis
    using sixtop_output_no_room [OF w(1) u(1), of sixp_env_silent 7 "\<lambda>_ _ s. Some (s\<lparr>trans_list := []\<rparr>)" None]
      sixtop_output_no_room [OF w(2) u(2), of sixp_env_silent 7 "\<lambda>_ _ s. Some (s\<lparr>trans_list := []\<rparr>)" None]
    by (auto simp: sixp_buf_example_used)
qed

text \<open>
  Registering a scheduling function.  It is refused, and nothing changes, when its SFID is
  registered already or there is no free slot; otherwise the driver is put in a free slot, from
  where \<open>sixtop_find_sf\<close> finds it, and its initialisation runs - twice, since the function runs
  it once in the loop that looks for the slot and once more at its end.
\<close>

theorem sixtop_add_sf_spec:
  assumes "length (scheduling_functions s) = SIXTOP_MAX_SCHEDULING_FUNCTIONS"
    and init: "sf_init (sx_sf env sf) = Some f"
  shows "if sixtop_find_sf env (sf_sfid (sx_sf env sf)) s \<noteq> None \<or> None \<notin> set (scheduling_functions s)
    then sixtop_add_sf env sf s = Some (-1, s)
    else \<exists>s1. sixtop_add_sf env sf s = do { s2 \<leftarrow> f s1; s3 \<leftarrow> f s2; Some (0, s3) } \<and>
      s1 = s\<lparr>scheduling_functions := scheduling_functions s1\<rparr> \<and>
      sixtop_find_sf env (sf_sfid (sx_sf env sf)) s1 = Some sf"
  using assms
  by (cases "scheduling_functions s")
    (auto simp: sixtop_add_sf_def SIXTOP_MAX_SCHEDULING_FUNCTIONS_def call_sf_init_def sixtop_find_sf_def)

definition counting_env :: "sixp_state sixp_env" where
  "counting_env = sixp_env_silent
     \<lparr>sx_sf := \<lambda>_. silent_sf\<lparr>sf_init := Some (\<lambda>s. Some (s\<lparr>trans_list := 0 # trans_list s\<rparr>))\<rparr>\<rparr>"

theorem sixtop_add_sf_spec_witness:
  "\<exists>s1. sixtop_add_sf counting_env 0 (sixp_example\<lparr>scheduling_functions := [None], trans_list := []\<rparr>) =
     Some (0, s1) \<and> trans_list s1 = [0, 0]"
proof -
  let ?s = "sixp_example\<lparr>scheduling_functions := [None], trans_list := []\<rparr>"
  let ?f = "\<lambda>s :: sixp_state. Some (s\<lparr>trans_list := 0 # trans_list s\<rparr>)"
  have l: "length (scheduling_functions ?s) = SIXTOP_MAX_SCHEDULING_FUNCTIONS"
    by (simp add: SIXTOP_MAX_SCHEDULING_FUNCTIONS_def)
  have f: "sf_init (sx_sf counting_env 0) = Some ?f" by (simp add: counting_env_def)
  have c: "\<not> (sixtop_find_sf counting_env (sf_sfid (sx_sf counting_env 0)) ?s \<noteq> None \<or>
      None \<notin> set (scheduling_functions ?s))" by (simp add: sixtop_find_sf_def)
  from sixtop_add_sf_spec [OF l f] c obtain s1 where
    r: "sixtop_add_sf counting_env 0 ?s = do { s2 \<leftarrow> ?f s1; s3 \<leftarrow> ?f s2; Some (0, s3) }"
    and s1: "s1 = ?s\<lparr>scheduling_functions := scheduling_functions s1\<rparr>" by auto
  have "trans_list s1 = []" by (subst s1) simp
  with r show ?thesis by simp
qed

end
