(* ===== verification/Sixp.thy ===== *)
theory Sixp
  imports Sixtop
begin

section \<open>The 6P protocol\<close>

text \<open>
  Model of \<open>os/net/mac/tsch/sixtop/sixp.c\<close>, with the functions of \<open>sixtop.c\<close> that call it: the
  callback that the MAC layer calls when a 6P frame is sent, error responses, the handling of a
  received 6P message and the sending of one.  The input handler of a driver is the parameter
  \<open>sfi\<close>, apart from the drivers' other fields in \<open>sixp_env\<close>, because it calls back into
  \<open>sixp_output\<close>.  The variable \<open>pkt\<close> of \<open>sixp_output\<close> starts as zeros where the code leaves it
  uninitialised; the code only reads the fields that \<open>sixp_pkt_create\<close> sets.
\<close>

type_synonym 's sf_input =
  "sixp_pkt_type \<Rightarrow> u8 \<Rightarrow> u8 list option \<Rightarrow> u16 \<Rightarrow> linkaddr \<Rightarrow> 's \<Rightarrow> 's ub"

subsection \<open>The callback of the MAC layer\<close>

definition mac_callback_new_state :: "u8 \<Rightarrow> sixp_trans_state \<Rightarrow> sixp_trans_state" where
  "mac_callback_new_state status current_state =
     (if status = MAC_TX_OK
      then (case current_state of
              SIXP_TRANS_STATE_REQUEST_SENDING \<Rightarrow> SIXP_TRANS_STATE_REQUEST_SENT
            | SIXP_TRANS_STATE_RESPONSE_SENDING \<Rightarrow> SIXP_TRANS_STATE_RESPONSE_SENT
            | SIXP_TRANS_STATE_CONFIRMATION_SENDING \<Rightarrow> SIXP_TRANS_STATE_CONFIRMATION_SENT
            | _ \<Rightarrow> current_state)
      else if current_state = SIXP_TRANS_STATE_REQUEST_SENDING
      then SIXP_TRANS_STATE_TERMINATING else current_state)"

definition report_late_tx ::
  "('a sixp_state_scheme) sixp_env \<Rightarrow> nat \<Rightarrow> 'a sixp_state_scheme \<Rightarrow> 'a sixp_state_scheme ub" where
  "report_late_tx env i s =
     (let t = transs s ! i
      in case tr_sf t of
           None \<Rightarrow> Some s
         | Some f \<Rightarrow>
             (case sf_error (sx_sf env f) of
                None \<Rightarrow> Some s
              | Some h \<Rightarrow> h SIXP_ERROR_TX_AFTER_TRANSACTION_TERMINATION (tr_cmd t) (tr_seqno t) (tr_peer_addr t) s))"

definition mac_callback ::
  "('a sixp_state_scheme) sixp_env \<Rightarrow> nat option \<Rightarrow> u8 \<Rightarrow> 'a sixp_state_scheme \<Rightarrow> 'a sixp_state_scheme ub" where
  "mac_callback env ptr status s =
     (case ptr of
        None \<Rightarrow> Some s
      | Some i \<Rightarrow>
          if sixp_trans_get_state ptr s = SIXP_TRANS_STATE_WAIT_FREE
          then do { s1 \<leftarrow> report_late_tx env i s; Some (sixp_trans_free ptr s1) }
          else let current_state = sixp_trans_get_state ptr s;
                   new_state = mac_callback_new_state status current_state
               in do {
                 (r, s1) \<leftarrow> (if new_state \<noteq> current_state
                           then sixp_trans_transit_state env ptr new_state s else Some (0, s));
                 (if r \<noteq> 0
                  then map_option snd (sixp_trans_transit_state env ptr SIXP_TRANS_STATE_TERMINATING s1)
                  else do {
                    s2 \<leftarrow> sixp_trans_invoke_callback env ptr
                            (if status = MAC_TX_OK then SIXP_OUTPUT_STATUS_SUCCESS
                             else SIXP_OUTPUT_STATUS_FAILURE) s1;
                    Some (sixp_trans_set_callback ptr None 0 0 s2)
                  })
               })"

subsection \<open>Output\<close>

text \<open>The checks on the transaction with the destination.\<close>

definition output_trans_ok :: "sixp_pkt_type \<Rightarrow> nat option \<Rightarrow> 'a sixp_state_scheme \<Rightarrow> bool" where
  "output_trans_ok type trp s =
     (case type of
        SIXP_PKT_TYPE_REQUEST \<Rightarrow> trp = None
      | SIXP_PKT_TYPE_RESPONSE \<Rightarrow>
          trp \<noteq> None \<and> sixp_trans_get_state trp s = SIXP_TRANS_STATE_REQUEST_RECEIVED
      | SIXP_PKT_TYPE_CONFIRMATION \<Rightarrow>
          trp \<noteq> None \<and> sixp_trans_get_state trp s = SIXP_TRANS_STATE_RESPONSE_RECEIVED
      | SIXP_PKT_TYPE_RESERVED \<Rightarrow> False)"

text \<open>
  The neighbour of the destination, allocated for a successful response or a request; the flag
  says that there is no memory for it.
\<close>

definition output_nbr ::
  "('a sixp_state_scheme) sixp_env \<Rightarrow> sixp_pkt_type \<Rightarrow> u8 \<Rightarrow> linkaddr \<Rightarrow> nat option \<Rightarrow> 'a sixp_state_scheme \<Rightarrow>
   bool \<times> nat option \<times> 'a sixp_state_scheme" where
  "output_nbr env type code dest trp s =
     (let nbr = sixp_nbr_find (Some dest) s
      in if nbr = None \<and>
            ((type = SIXP_PKT_TYPE_RESPONSE \<and> sixp_trans_get_cmd trp s \<noteq> SIXP_PKT_CMD_CLEAR \<and>
              code \<noteq> SIXP_PKT_RC_ERR_VERSION \<and> code \<noteq> SIXP_PKT_RC_ERR_SFID) \<or>
             type = SIXP_PKT_TYPE_REQUEST)
         then let (n, s1) = sixp_nbr_alloc (qe_nbr (sx_queue env)) (Some dest) s in (n = None, n, s1)
         else (False, nbr, s))"

text \<open>What happens after the frame was given to the MAC layer.\<close>

definition output_done ::
  "('a sixp_state_scheme) sixp_env \<Rightarrow> u8 \<Rightarrow> nat option \<Rightarrow> nat \<Rightarrow> 'a sixp_state_scheme \<Rightarrow>
   'a sixp_state_scheme ub" where
  "output_done env code nbr i s =
     (let state = sixp_trans_get_state (Some i) s
      in if state = SIXP_TRANS_STATE_INIT
         then map_option snd (sixp_trans_transit_state env (Some i) SIXP_TRANS_STATE_REQUEST_SENDING
                (snd (if code = SIXP_PKT_CMD_CLEAR then sixp_nbr_reset_next_seqno nbr s
                      else sixp_nbr_increment_next_seqno nbr s)))
         else if state = SIXP_TRANS_STATE_REQUEST_RECEIVED
         then map_option snd (sixp_trans_transit_state env (Some i) SIXP_TRANS_STATE_RESPONSE_SENDING s)
         else if state = SIXP_TRANS_STATE_RESPONSE_RECEIVED
         then map_option snd (sixp_trans_transit_state env (Some i) SIXP_TRANS_STATE_CONFIRMATION_SENDING s)
         else Some s)"

definition sixp_output ::
  "('a sixp_state_scheme) sixp_env \<Rightarrow> sixp_pkt_type \<Rightarrow> u8 \<Rightarrow> u8 \<Rightarrow> u8 list option \<Rightarrow> u16 \<Rightarrow> linkaddr \<Rightarrow>
   nat option \<Rightarrow> nat \<Rightarrow> u16 \<Rightarrow> 'a sixp_state_scheme \<Rightarrow> (int \<times> 'a sixp_state_scheme) ub" where
  "sixp_output env type code sfid body body_len dest_addr func arg arg_len s =
     (let trp = sixp_trans_find (Some dest_addr) s
      in if \<not> output_trans_ok type trp s then Some (-1, s)
      else let (no_mem, nbr, s1) = output_nbr env type code dest_addr trp s
      in if no_mem then Some (-1, s1)
      else let seqno = (if type = SIXP_PKT_TYPE_REQUEST then sixp_nbr_get_next_seqno nbr s1
                        else sixp_trans_get_seqno trp s1)
      in if seqno < 0 then Some (-1, s1)
      else do {
        (ret, pkt, s2) \<leftarrow> sixp_pkt_create type code sfid (word_of_int seqno) body body_len
          (if type = SIXP_PKT_TYPE_REQUEST then Some sixp_pkt_zero else None) s1;
        (if ret < 0 then Some (-1, s2)
         else do {
           (trp1, s3) \<leftarrow> (if type = SIXP_PKT_TYPE_REQUEST then sixp_trans_alloc env pkt (Some dest_addr) s2
                         else Some (trp, s2));
           (case trp1 of
              None \<Rightarrow> Some (-1, s3)
            | Some i \<Rightarrow> do {
                (r, s4) \<leftarrow> sixtop_output env (Some dest_addr) (Some (mac_callback env)) (Some i)
                  (sixp_trans_set_callback (Some i) func arg arg_len s3);
                s5 \<leftarrow> (if r = 0 then output_done env code nbr i s4
                       else if type = SIXP_PKT_TYPE_REQUEST then sixp_trans_abort env (Some i) s4
                       else Some s4);
                Some (0, s5)
              })
         })
      })"

subsection \<open>Error responses\<close>

definition send_back_error ::
  "('a sixp_state_scheme) sixp_env \<Rightarrow> sixp_pkt_type \<Rightarrow> u8 \<Rightarrow> sixp_pkt \<Rightarrow> linkaddr \<Rightarrow>
   'a sixp_state_scheme \<Rightarrow> (int \<times> 'a sixp_state_scheme) ub" where
  "send_back_error env type rc pkt dest_addr s =
     (let trp = sixp_trans_find (Some dest_addr) s
      in if rc = SIXP_PKT_RC_ERR_VERSION \<or> rc = SIXP_PKT_RC_ERR_SFID \<or> rc = SIXP_PKT_RC_ERR_BUSY \<or>
            (rc = SIXP_PKT_RC_ERR_SEQNUM \<and> trp \<noteq> None \<and>
             sixp_trans_get_state trp s \<noteq> SIXP_TRANS_STATE_REQUEST_RECEIVED)
         then do {
           (ret, _, s1) \<leftarrow> sixp_pkt_create type rc (pkt_sfid pkt) (pkt_seqno pkt) None 0 None s;
           (if ret < 0 then Some (-1, s1)
            else do {
              (_, s2) \<leftarrow> sixtop_output env (Some dest_addr) None None s1;
              Some (0, s2)
            })
         }
         else do {
           (_, s1) \<leftarrow> sixp_output env type rc (pkt_sfid pkt) None 0 dest_addr None 0 0 s;
           Some (0, s1)
         })"

definition handle_schedule_inconsistency ::
  "('a sixp_state_scheme) sixp_env \<Rightarrow> nat option \<Rightarrow> sixp_pkt \<Rightarrow> linkaddr \<Rightarrow> 'a sixp_state_scheme \<Rightarrow>
   'a sixp_state_scheme ub" where
  "handle_schedule_inconsistency env sf pkt peer_addr s = do {
     (_, s1) \<leftarrow> send_back_error env SIXP_PKT_TYPE_RESPONSE SIXP_PKT_RC_ERR_SEQNUM pkt peer_addr s;
     (case sf of
        None \<Rightarrow> Some s1
      | Some f \<Rightarrow>
          (case sf_error (sx_sf env f) of
             None \<Rightarrow> Some s1
           | Some h \<Rightarrow> h SIXP_ERROR_SCHEDULE_INCONSISTENCY (pkt_code pkt) (pkt_seqno pkt) peer_addr s1))
   }"

subsection \<open>Input\<close>

text \<open>The end of \<open>sixp_input\<close>: the transition, and the message for the driver.\<close>

definition input_deliver ::
  "('a sixp_state_scheme) sixp_env \<Rightarrow> (nat \<Rightarrow> ('a sixp_state_scheme) sf_input option) \<Rightarrow> nat \<Rightarrow> nat \<Rightarrow>
   sixp_pkt \<Rightarrow> sixp_trans_state \<Rightarrow> linkaddr \<Rightarrow> 'a sixp_state_scheme \<Rightarrow> 'a sixp_state_scheme ub" where
  "input_deliver env sfi sf i pkt new_state src_addr s = do {
     (ret, s1) \<leftarrow> sixp_trans_transit_state env (Some i) new_state s;
     (if ret < 0 then Some s1
      else case sfi sf of
        None \<Rightarrow> Some s1
      | Some inp \<Rightarrow> inp (pkt_ptype pkt) (pkt_code pkt) (pkt_body pkt) (pkt_body_len pkt) src_addr s1)
   }"

definition input_request ::
  "('a sixp_state_scheme) sixp_env \<Rightarrow> (nat \<Rightarrow> ('a sixp_state_scheme) sf_input option) \<Rightarrow> nat \<Rightarrow>
   sixp_pkt \<Rightarrow> linkaddr \<Rightarrow> 'a sixp_state_scheme \<Rightarrow> 'a sixp_state_scheme ub" where
  "input_request env sfi sf pkt src_addr s =
     (let trp = sixp_trans_find (Some src_addr) s
      in if trp \<noteq> None
      then if pkt_code pkt \<noteq> SIXP_PKT_CMD_CLEAR \<and>
              ((pkt_seqno pkt = 0 \<and> sixp_trans_get_seqno trp s \<noteq> 0) \<or>
               (pkt_seqno pkt \<noteq> 0 \<and> sixp_trans_get_seqno trp s = 0))
           then handle_schedule_inconsistency env (Some sf) pkt src_addr s
           else map_option snd
             (send_back_error env SIXP_PKT_TYPE_RESPONSE SIXP_PKT_RC_ERR_BUSY pkt src_addr s)
      else let nbr = sixp_nbr_find (Some src_addr) s;
               s1 = (if pkt_code pkt = SIXP_PKT_CMD_CLEAR \<and> nbr \<noteq> None
                     then snd (sixp_nbr_reset_next_seqno nbr s) else s)
      in do {
        (trp1, s2) \<leftarrow> sixp_trans_alloc env (Some pkt) (Some src_addr) s1;
        (case trp1 of
           None \<Rightarrow> map_option snd
             (send_back_error env SIXP_PKT_TYPE_RESPONSE SIXP_PKT_RC_ERR_BUSY pkt src_addr s2)
         | Some i \<Rightarrow>
             let nbr1 = sixp_nbr_find (Some src_addr) s2
             in if pkt_code pkt \<noteq> SIXP_PKT_CMD_CLEAR \<and>
                   ((nbr1 = None \<and> pkt_seqno pkt \<noteq> 0) \<or>
                    (nbr1 \<noteq> None \<and> sixp_nbr_get_next_seqno nbr1 s2 \<noteq> 0 \<and> pkt_seqno pkt = 0))
                then do {
                  (_, s3) \<leftarrow> sixp_trans_transit_state env (Some i) SIXP_TRANS_STATE_REQUEST_RECEIVED s2;
                  handle_schedule_inconsistency env (Some sf) pkt src_addr s3
                }
                else input_deliver env sfi sf i pkt SIXP_TRANS_STATE_REQUEST_RECEIVED src_addr s2)
      })"

definition input_answer ::
  "('a sixp_state_scheme) sixp_env \<Rightarrow> (nat \<Rightarrow> ('a sixp_state_scheme) sf_input option) \<Rightarrow> nat \<Rightarrow>
   sixp_pkt \<Rightarrow> linkaddr \<Rightarrow> 'a sixp_state_scheme \<Rightarrow> 'a sixp_state_scheme ub" where
  "input_answer env sfi sf pkt src_addr s =
     (case sixp_trans_find (Some src_addr) s of
        None \<Rightarrow> Some s
      | Some i \<Rightarrow>
          if sixp_trans_get_seqno (Some i) s < 0 \<or>
             sixp_trans_get_seqno (Some i) s \<noteq> uint (pkt_seqno pkt)
          then Some s
          else input_deliver env sfi sf i pkt
            (if pkt_ptype pkt = SIXP_PKT_TYPE_RESPONSE then SIXP_TRANS_STATE_RESPONSE_RECEIVED
             else SIXP_TRANS_STATE_CONFIRMATION_RECEIVED) src_addr s)"

definition sixp_input ::
  "('a sixp_state_scheme) sixp_env \<Rightarrow> (nat \<Rightarrow> ('a sixp_state_scheme) sf_input option) \<Rightarrow>
   u8 list option \<Rightarrow> u16 \<Rightarrow> linkaddr option \<Rightarrow> 'a sixp_state_scheme \<Rightarrow> 'a sixp_state_scheme ub" where
  "sixp_input env sfi buf len src s =
     (case (buf, src) of
        (Some b, Some src_addr) \<Rightarrow> do {
          (ret, pkt) \<leftarrow> sixp_pkt_parse b len;
          (if ret < 0
           then if pkt_version pkt \<noteq> SIXP_PKT_VERSION
             then map_option snd
               (send_back_error env SIXP_PKT_TYPE_RESPONSE SIXP_PKT_RC_ERR_VERSION pkt src_addr s)
             else Some s
           else if pkt_ptype pkt = SIXP_PKT_TYPE_RESERVED then Some s
           else case sixtop_find_sf env (pkt_sfid pkt) s of
             None \<Rightarrow> map_option snd
               (send_back_error env SIXP_PKT_TYPE_RESPONSE SIXP_PKT_RC_ERR_SFID pkt src_addr s)
           | Some sf \<Rightarrow>
               if pkt_ptype pkt = SIXP_PKT_TYPE_REQUEST then input_request env sfi sf pkt src_addr s
               else input_answer env sfi sf pkt src_addr s)
        }
      | _ \<Rightarrow> Some s)"

subsection \<open>Initialisation and the 6top input\<close>

definition sixp_init :: "'a sixp_state_scheme \<Rightarrow> 'a sixp_state_scheme" where
  "sixp_init s = snd (sixp_trans_init (snd (sixp_nbr_init s)))"

definition sixtop_init ::
  "('a sixp_state_scheme) sixp_env \<Rightarrow> 'a sixp_state_scheme \<Rightarrow> 'a sixp_state_scheme ub" where
  "sixtop_init env s =
     (let s1 = sixp_init s
      in sixtop_init_sf env
           (s1\<lparr>scheduling_functions := replicate SIXTOP_MAX_SCHEDULING_FUNCTIONS None\<rparr>))"

text \<open>
  \<open>sixtop_input\<close> gets the result of \<open>frame802154_parse\<close> on the header of the frame as the parameter
  \<open>ie_list_present\<close>: \<open>None\<close> for a parse error.  The 6P message is passed on as the bytes from the
  content pointer to the end of the buffer.
\<close>

definition sixtop_input ::
  "('a sixp_state_scheme) sixp_env \<Rightarrow> (nat \<Rightarrow> ('a sixp_state_scheme) sf_input option) \<Rightarrow> bool option \<Rightarrow>
   'a sixp_state_scheme \<Rightarrow> 'a sixp_state_scheme ub" where
  "sixtop_input env sfi ie_list_present s =
     (let payload_ptr = packetbuf_dataptr s; payload_len = packetbuf_datalen s;
          src_addr = packetbuf_addr PACKETBUF_ADDR_SENDER s
      in case ie_list_present of
           Some True \<Rightarrow> do {
             (r, ies) \<leftarrow> frame802154e_parse_information_elements (pb_mem s) payload_ptr (ucast payload_len)
                         (Some ies_zero);
             (case ies of
                Some e \<Rightarrow>
                  (case sixtop_ie_content_ptr e of
                     Some ptr \<Rightarrow>
                       if 0 \<le> r \<and> 0 < sixtop_ie_content_len e
                       then do {
                         s1 \<leftarrow> sixp_input env sfi (Some (drop ptr (pb_mem s))) (sixtop_ie_content_len e)
                                 (Some src_addr) s;
                         strip_payload_termination_ie
                           (snd (packetbuf_hdrreduce (ptr - payload_ptr + unat (sixtop_ie_content_len e)) s1))
                       }
                       else Some s
                   | None \<Rightarrow> Some s)
              | None \<Rightarrow> Some s)
           }
         | _ \<Rightarrow> Some s)"

subsection \<open>What the packet buffer operations leave alone\<close>

definition pb_frame :: "'a packetbuf_state_scheme \<Rightarrow> 'a packetbuf_state_scheme \<Rightarrow> bool" where
  "pb_frame s s' \<longleftrightarrow> packetbuf_state.more s' = packetbuf_state.more s \<and>
     length (pb_mem s') = length (pb_mem s)"

lemma pb_frame_refl [simp]: "pb_frame s s"
  by (simp add: pb_frame_def)

lemma pb_frame_trans [trans]: "pb_frame s s1 \<Longrightarrow> pb_frame s1 s2 \<Longrightarrow> pb_frame s s2"
  by (simp add: pb_frame_def)

lemma pb_frame_mem [simp]: "pb_frame s (s\<lparr>pb_mem := m\<rparr>) = (length m = length (pb_mem s))"
  by (cases s) (simp add: pb_frame_def)

lemma pb_frame_update [simp]:
  "pb_frame s (packetbuf_clear s)" "pb_frame s (packetbuf_set_attr t v s)"
  "pb_frame s (packetbuf_set_addr u a s)" "pb_frame s (packetbuf_set_datalen l s)"
  "pb_frame s (snd (packetbuf_hdrreduce n s))" "pb_frame s (tag_6p src dest s)"
  by (cases s; simp add: pb_frame_def packetbuf_clear_def packetbuf_attr_clear_def packetbuf_set_attr_def
      packetbuf_set_addr_def packetbuf_set_datalen_def packetbuf_hdrreduce_def tag_6p_def)+

lemma pb_frame_hdralloc: "packetbuf_hdralloc n s = Some (r, s') \<Longrightarrow> pb_frame s s'"
  by (cases s) (auto simp: pb_frame_def packetbuf_hdralloc_def Let_def bind_eq_Some_conv
      dest: mem_write_length split: if_splits)

lemma pb_frame_poke: "packetbuf_poke n bs s = Some s' \<Longrightarrow> pb_frame s s'"
  by (auto simp: packetbuf_poke_def bind_eq_Some_conv dest: mem_write_length)

lemma pb_frame_create:
  assumes "sixp_pkt_create type code sfid seqno body blen pkt s = Some (r, pkt', s')"
  shows "pb_frame s s'"
proof -
  have c: "pb_frame s s''" if "packetbuf_hdralloc 4 (packetbuf_clear s) = Some (r, s'')" for r s''
    by (rule pb_frame_trans [OF pb_frame_update(1) pb_frame_hdralloc [OF that]])
  show ?thesis
    using assms
    by (auto simp: sixp_pkt_create_def Let_def bind_eq_Some_conv split: if_splits dest!: c pb_frame_poke)
      (metis pb_frame_trans pb_frame_update(4))+
qed

lemma trans_frame_pb:
  fixes s s' :: "'a sixp_state_scheme"
  assumes "pb_frame s s'"
  shows "trans_frame s s' \<and> sixp_nbr_items s' = sixp_nbr_items s"
  using assms by (cases s; cases s') (simp add: pb_frame_def trans_frame_def)

lemma nbr_find_pb:
  fixes s s' :: "'a sixp_nbr_state_scheme"
  assumes "pb_frame s s'"
  shows "sixp_nbr_find a s' = sixp_nbr_find a s"
  using assms by (cases s; cases s')
    (simp add: pb_frame_def sixp_nbr_find_def nbr_table_get_from_lladdr_def index_from_lladdr_def
      nbr_get_bit_def split: option.split)

subsection \<open>The environment and the invariant\<close>

text \<open>
  The handlers, the callbacks and the MAC layer return, do not themselves run 6P transactions,
  and keep the size of the packet buffer.
\<close>

definition sixp_frame :: "'a sixp_state_scheme \<Rightarrow> 'a sixp_state_scheme \<Rightarrow> bool" where
  "sixp_frame s s' \<longleftrightarrow> trans_frame s s' \<and> length (pb_mem s') = length (pb_mem s)"

definition sixp_env_ok :: "('a sixp_state_scheme) sixp_env \<Rightarrow> bool" where
  "sixp_env_ok env \<longleftrightarrow>
     (\<forall>f h. sf_timeout (sx_sf env f) = Some h \<longrightarrow> (\<forall>c a s. \<exists>s'. h c a s = Some s' \<and> sixp_frame s s')) \<and>
     (\<forall>f h. sf_error (sx_sf env f) = Some h \<longrightarrow> (\<forall>e c n a s. \<exists>s'. h e c n a s = Some s' \<and> sixp_frame s s')) \<and>
     (\<forall>f x l a st s. \<exists>s'. sx_sent_cb env f x l a st s = Some s' \<and> sixp_frame s s') \<and>
     (\<forall>p s. \<exists>st s'. sx_mac_send env p s = Some (st, s') \<and> sixp_frame s s') \<and>
     (\<forall>t k s. sixp_frame s (env_nbr_callback (qe_nbr (sx_queue env)) t k s))"

lemma sixp_env_ok_handlers: "sixp_env_ok env \<Longrightarrow> handlers_ok env"
  unfolding sixp_env_ok_def handlers_ok_def sixp_frame_def by meson

definition sixp_wf :: "'a sixp_state_scheme \<Rightarrow> bool" where
  "sixp_wf s \<longleftrightarrow> trans_wf s \<and> length (pb_mem s) = PACKETBUF_SIZE \<and>
     (\<forall>i < length (transs s). i \<notin> set (trans_list s) \<longrightarrow> transs s ! i = sixp_trans_zero)"

lemma sixp_wf_frame: "sixp_frame s s' \<Longrightarrow> sixp_wf s \<Longrightarrow> sixp_wf s'"
  using trans_wf_frame [of s s'] by (simp add: sixp_wf_def sixp_frame_def trans_frame_def)

lemma sixp_frame_pb: "pb_frame s s' \<Longrightarrow> sixp_frame s s'"
  using trans_frame_pb [of s s'] by (simp add: sixp_frame_def pb_frame_def)

text \<open>An operation that changes at most the block of a live transaction.\<close>

lemma sixp_wf_live_upd:
  assumes "sixp_wf s" and "trans_wf s'" and "trans_list s' = trans_list s" and "i \<in> set (trans_list s)"
    and "transs s' = (transs s)[i := t]" and "length (pb_mem s') = length (pb_mem s)"
  shows "sixp_wf s'"
proof -
  have "transs s' ! j = transs s ! j" if "j \<noteq> i" for j using assms(5) that by simp
  with assms show ?thesis unfolding sixp_wf_def by (metis length_list_update)
qed

lemma transit_pb_length:
  assumes "sixp_trans_transit_state env trp st s = Some (r, s')" and "sixp_env_ok env"
  shows "length (pb_mem s') = length (pb_mem s)"
proof -
  have h: "length (pb_mem s1) = length (pb_mem s)" if "sf_error (sx_sf env f) = Some h" "h e c n a s = Some s1"
    for f h e c n a s1
    using assms(2) that unfolding sixp_env_ok_def sixp_frame_def by (metis option.inject)
  show ?thesis
    using assms(1)
    by (auto simp: sixp_trans_transit_state_def Let_def schedule_trans_process_def upd_trans_def
        sixp_nbr_increment_next_seqno_def sixp_nbr_set_next_seqno_def upd_sixp_nbr_def bind_eq_Some_conv
        dest: h split: option.splits if_splits)
qed

lemma transit_safe:
  assumes wf: "sixp_wf s" and i: "i \<in> set (trans_list s)" and env: "sixp_env_ok env"
  shows "\<exists>r s'. sixp_trans_transit_state env (Some i) st s = Some (r, s') \<and> sixp_wf s' \<and>
    trans_list s' = trans_list s \<and> trans_memb s' = trans_memb s \<and>
    scheduling_functions s' = scheduling_functions s \<and>
    (if transit_ok (tr_mode (transs s ! i)) (tr_state (transs s ! i)) st
     then r = 0 \<and> transs s' = (transs s)[i := (transs s ! i)\<lparr>tr_state := st, tr_timer := Some TIMER_PROCESS\<rparr>]
     else r = -1 \<and> transs s' = transs s)"
proof -
  have w: "trans_wf s" using wf by (simp add: sixp_wf_def)
  from trans_wf_transit [OF w i sixp_env_ok_handlers [OF env], of st] obtain r s' where
    t: "sixp_trans_transit_state env (Some i) st s = Some (r, s')" "trans_wf s'" "trans_list s' = trans_list s"
      "trans_memb s' = trans_memb s" "scheduling_functions s' = scheduling_functions s"
      "if transit_ok (tr_mode (transs s ! i)) (tr_state (transs s ! i)) st
     then r = 0 \<and> transs s' = (transs s)[i := (transs s ! i)\<lparr>tr_state := st, tr_timer := Some TIMER_PROCESS\<rparr>]
     else r = -1 \<and> transs s' = transs s" by blast
  have "\<exists>u. transs s' = (transs s)[i := u]"
    using t(6) by (metis list_update_id)
  then have "sixp_wf s'"
    using sixp_wf_live_upd [OF wf t(2,3) i _ transit_pb_length [OF t(1) env]] by blast
  with t show ?thesis by blast
qed

lemma invoke_callback_safe:
  assumes "sixp_env_ok env"
  shows "\<exists>s'. sixp_trans_invoke_callback env trp st s = Some s' \<and> sixp_frame s s'"
proof (cases trp)
  case (Some i)
  show ?thesis
  proof (cases "tr_cb_func (transs s ! i)")
    case (Some f)
    then show ?thesis using assms \<open>trp = Some i\<close>
      by (simp add: sixp_trans_invoke_callback_def Let_def sixp_env_ok_def)
  qed (simp add: sixp_trans_invoke_callback_def Some sixp_frame_def)
qed (simp add: sixp_trans_invoke_callback_def sixp_frame_def)

lemma set_callback_safe:
  assumes wf: "sixp_wf s" and i: "i \<in> set (trans_list s)"
  shows "sixp_wf (sixp_trans_set_callback (Some i) f a l s) \<and>
    trans_list (sixp_trans_set_callback (Some i) f a l s) = trans_list s \<and>
    trans_memb (sixp_trans_set_callback (Some i) f a l s) = trans_memb s \<and>
    scheduling_functions (sixp_trans_set_callback (Some i) f a l s) = scheduling_functions s"
proof -
  have w: "trans_wf s" using wf by (simp add: sixp_wf_def)
  let ?g = "\<lambda>t. t\<lparr>tr_cb_func := f, tr_cb_arg := a, tr_cb_arg_len := l\<rparr>"
  have e: "sixp_trans_set_callback (Some i) f a l s = upd_trans i ?g s"
    by (simp add: sixp_trans_set_callback_def)
  have "trans_wf (upd_trans i ?g s)"
    by (rule trans_wf_upd [OF w i]) (use trans_wf_live [OF w i] in \<open>simp_all add: live_trans_ok_def\<close>)
  then have "sixp_wf (upd_trans i ?g s)"
    by (rule sixp_wf_live_upd [OF wf _ _ i, of _ "?g (transs s ! i)"]) (simp_all add: upd_trans_def)
  then show ?thesis unfolding e by simp
qed

text \<open>
  The callback of the MAC layer: with the pointer of a live transaction it keeps the invariant;
  with that of a freed block it does nothing.
\<close>

lemma mac_callback_live:
  assumes wf: "sixp_wf s" and i: "i \<in> set (trans_list s)" and env: "sixp_env_ok env"
  shows "\<exists>s'. mac_callback env (Some i) status s = Some s' \<and> sixp_wf s' \<and> trans_list s' = trans_list s \<and>
    trans_memb s' = trans_memb s \<and> scheduling_functions s' = scheduling_functions s"
proof -
  have w: "trans_wf s" using wf by (simp add: sixp_wf_def)
  let ?cur = "tr_state (transs s ! i)"
  let ?new = "mac_callback_new_state status ?cur"
  have nf: "?cur \<noteq> SIXP_TRANS_STATE_WAIT_FREE" using trans_wf_live [OF w i] by (simp add: live_trans_ok_def)
  obtain r s1 where s1: "(if ?new \<noteq> ?cur then sixp_trans_transit_state env (Some i) ?new s else Some (0, s)) = Some (r, s1)"
    "sixp_wf s1" "trans_list s1 = trans_list s" "trans_memb s1 = trans_memb s"
    "scheduling_functions s1 = scheduling_functions s"
    using transit_safe [OF wf i env, of ?new] wf by (cases "?new = ?cur") auto
  have i1: "i \<in> set (trans_list s1)" using i s1 by simp
  show ?thesis
  proof (cases "r = 0")
    case False
    from transit_safe [OF s1(2) i1 env, of SIXP_TRANS_STATE_TERMINATING] obtain r2 s2 where
      "sixp_trans_transit_state env (Some i) SIXP_TRANS_STATE_TERMINATING s1 = Some (r2, s2)"
      "sixp_wf s2" "trans_list s2 = trans_list s1" "trans_memb s2 = trans_memb s1"
      "scheduling_functions s2 = scheduling_functions s1" by blast
    with s1 False nf show ?thesis by (simp add: mac_callback_def sixp_trans_get_state_def Let_def)
  next
    case True
    obtain s2 where s2: "sixp_trans_invoke_callback env (Some i)
        (if status = MAC_TX_OK then SIXP_OUTPUT_STATUS_SUCCESS else SIXP_OUTPUT_STATUS_FAILURE) s1 = Some s2"
      "sixp_frame s1 s2" using invoke_callback_safe [OF env] by blast
    have w2: "sixp_wf s2" by (rule sixp_wf_frame [OF s2(2) s1(2)])
    have i2: "i \<in> set (trans_list s2)" using i1 s2(2) by (simp add: sixp_frame_def trans_frame_def)
    from set_callback_safe [OF w2 i2, of None 0 0] s1 s2 True nf show ?thesis
      by (simp add: mac_callback_def sixp_trans_get_state_def Let_def sixp_frame_def trans_frame_def)
  qed
qed

lemma mac_callback_stale:
  assumes wf: "sixp_wf s" and i: "i < length (transs s)" "i \<notin> set (trans_list s)"
  shows "mac_callback env (Some i) status s = Some s"
proof -
  have z: "transs s ! i = sixp_trans_zero" using wf i by (simp add: sixp_wf_def)
  have "sixp_trans_zero\<lparr>tr_cb_func := None, tr_cb_arg := 0, tr_cb_arg_len := 0\<rparr> = sixp_trans_zero"
    by (simp add: sixp_trans_zero_def)
  then have "(transs s)[i := (transs s ! i)\<lparr>tr_cb_func := None, tr_cb_arg := 0, tr_cb_arg_len := 0\<rparr>] = transs s"
    using z by (metis list_update_id)
  then have "sixp_trans_set_callback (Some i) None 0 0 s = s"
    by (simp add: sixp_trans_set_callback_def upd_trans_def)
  then show ?thesis using z
    by (simp add: mac_callback_def sixp_trans_get_state_def mac_callback_new_state_def Let_def
        sixp_trans_zero_def sixp_trans_invoke_callback_def)
qed

subsection \<open>Output keeps the invariant\<close>

lemma hdralloc_safe:
  assumes wf: "packetbuf_wf s"
  shows "\<exists>r s1. packetbuf_hdralloc n s = Some (r, s1) \<and> packetbuf_wf s1 \<and> pb_frame s s1 \<and> (r = 0 \<or> r = 1)"
proof (cases "n + packetbuf_used s \<le> PACKETBUF_SIZE")
  case True
  obtain s1 where "packetbuf_hdralloc n s = Some (1, s1)" "packetbuf_wf s1"
    by (rule packetbuf_hdralloc_room [OF wf True])
  then show ?thesis using pb_frame_hdralloc by blast
next
  case False
  then show ?thesis using packetbuf_hdralloc_full [OF wf, of n] wf by simp
qed

lemma mem_write_safe:
  fixes s :: "'a packetbuf_state_scheme"
  assumes wf: "packetbuf_wf s" and l: "length bs \<le> 2"
  shows "\<exists>m. mem_write (pb_mem s) 0 bs = Some m \<and> packetbuf_wf (s\<lparr>pb_mem := m\<rparr>) \<and> length m = length (pb_mem s)"
  using assms mem_write_length [of "pb_mem s" 0 bs]
  by (cases "mem_write (pb_mem s) 0 bs")
    (auto simp: mem_write_None_iff packetbuf_wf_def packetbuf_used_def PACKETBUF_SIZE_def)

text \<open>
  \<open>sixtop_output\<close> returns and keeps any condition \<open>I\<close> that the packet buffer and the MAC layer
  do not affect and that the callback keeps.
\<close>

definition output_keeps ::
  "('a sixp_state_scheme) sixp_env \<Rightarrow> ('a sixp_state_scheme) mac_callback \<Rightarrow> nat option \<Rightarrow>
   ('a sixp_state_scheme \<Rightarrow> bool) \<Rightarrow> bool" where
  "output_keeps env cb arg I \<longleftrightarrow> sixp_env_ok env \<and> (\<forall>s s'. I s \<longrightarrow> sixp_frame s s' \<longrightarrow> I s') \<and>
     (\<forall>f st s. cb = Some f \<longrightarrow> I s \<longrightarrow> (\<exists>s'. f arg st s = Some s' \<and> I s'))"

lemma output_keeps_frame: "output_keeps env cb arg I \<Longrightarrow> I s \<Longrightarrow> sixp_frame s s' \<Longrightarrow> I s'"
  by (auto simp: output_keeps_def)

lemma output_keeps_pb: "output_keeps env cb arg I \<Longrightarrow> I s \<Longrightarrow> pb_frame s s' \<Longrightarrow> I s'"
  by (blast intro: output_keeps_frame sixp_frame_pb)

lemma output_keeps_cb: "output_keeps env (Some f) arg I \<Longrightarrow> I s \<Longrightarrow> \<exists>s'. f arg st s = Some s' \<and> I s'"
  by (simp add: output_keeps_def)

lemma mac_send_inv:
  assumes k: "output_keeps env cb arg I" and "I s"
  shows "\<exists>s'. netstack_mac_send env cb arg s = Some s' \<and> I s'"
proof -
  have "sixp_env_ok env" using k by (simp add: output_keeps_def)
  then obtain st s1 where s1: "sx_mac_send env (if cb = None then None else arg) s = Some (st, s1)" "I s1"
    using output_keeps_frame [OF assms] unfolding sixp_env_ok_def by metis
  show ?thesis
    using s1 output_keeps_cb [of env _ arg I s1] k by (cases cb; cases st) (simp_all add: netstack_mac_send_def)
qed

lemma output_error_inv:
  assumes k: "output_keeps env cb arg I" and "I s"
  shows "\<exists>r s'. output_error cb arg s = Some (r, s') \<and> I s'"
proof (cases cb)
  case (Some f)
  then obtain s' where "f arg MAC_TX_ERR_FATAL s = Some s'" "I s'" using output_keeps_cb k assms(2) by blast
  with Some show ?thesis by (simp add: output_error_def)
qed (simp add: output_error_def assms)

lemma tail_inv:
  assumes k: "output_keeps env cb arg I" and i: "I s" and wf: "packetbuf_wf s"
  shows "\<exists>r s'. sixtop_output_tail env dest cb arg s = Some (r, s') \<and> I s'"
proof -
  obtain r s1 where a: "packetbuf_hdralloc 2 s = Some (r, s1)" "packetbuf_wf s1" "pb_frame s s1"
    using hdralloc_safe [OF wf] by blast
  obtain m where m: "mem_write (pb_mem s1) 0 (le16 (header_ie_desc HEADER_IE_LIST_TERMINATION_1 0)) = Some m"
    "length m = length (pb_mem s1)" using mem_write_safe [OF a(2), of "le16 (header_ie_desc HEADER_IE_LIST_TERMINATION_1 0)"] by auto
  let ?t = "tag_6p (sx_node_addr env) dest"
  have "pb_frame s (?t s1)" "pb_frame s (?t (s1\<lparr>pb_mem := m\<rparr>))"
    using a(3) m(2) by (metis pb_frame_trans pb_frame_update(6) pb_frame_mem)+
  then have "I (?t s1)" "I (?t (s1\<lparr>pb_mem := m\<rparr>))"
    using output_keeps_pb [OF k i] by blast+
  then obtain x y where
    "netstack_mac_send env cb arg (?t s1) = Some x" "I x"
    "netstack_mac_send env cb arg (?t (s1\<lparr>pb_mem := m\<rparr>)) = Some y" "I y"
    using mac_send_inv [OF k] by meson
  then show ?thesis using a(1) m(1)
    by (cases "r = 0")
      (simp_all add: sixtop_output_tail_def tag_6p_def frame80215e_create_ie_header_list_termination_1_def
        create_header_ie_descriptor_def packetbuf_hdrptr_def)
qed

lemma sixtop_output_inv:
  assumes k: "output_keeps env cb arg I" and i: "I s" and wf: "packetbuf_wf s"
  shows "\<exists>r s'. sixtop_output env dest cb arg s = Some (r, s') \<and> I s'"
proof (cases dest)
  case None
  then show ?thesis using output_error_inv [OF k i] by (simp add: sixtop_output_def)
next
  case (Some d)
  obtain r s1 where a: "packetbuf_hdralloc 1 s = Some (r, s1)" "packetbuf_wf s1" "pb_frame s s1"
    using hdralloc_safe [OF wf] by blast
  obtain m where m: "mem_write (pb_mem s1) 0 [SIXTOP_SUBIE_ID] = Some m" "packetbuf_wf (s1\<lparr>pb_mem := m\<rparr>)"
    "length m = length (pb_mem s1)" using mem_write_safe [OF a(2), of "[SIXTOP_SUBIE_ID]"] by auto
  let ?s2 = "s1\<lparr>pb_mem := m\<rparr>"
  obtain r2 s3 where b: "packetbuf_hdralloc 2 ?s2 = Some (r2, s3)" "packetbuf_wf s3" "pb_frame ?s2 s3"
    using hdralloc_safe [OF m(2)] by blast
  let ?d = "le16 (payload_ie_desc PAYLOAD_IE_IETF (uint (packetbuf_totlen ?s2)))"
  obtain m2 where m2: "mem_write (pb_mem s3) 0 ?d = Some m2" "packetbuf_wf (s3\<lparr>pb_mem := m2\<rparr>)"
    "length m2 = length (pb_mem s3)" using mem_write_safe [OF b(2), of ?d] by auto
  have f: "pb_frame s s1" "pb_frame s s3" "pb_frame s (s3\<lparr>pb_mem := m2\<rparr>)"
    using a(3) b(3) m(3) m2(3) by (metis pb_frame_trans pb_frame_mem)+
  then have j: "I s1" "I s3" "I (s3\<lparr>pb_mem := m2\<rparr>)" using output_keeps_pb [OF k i] by blast+
  have "\<not> 2 + uint (packetbuf_totlen ?s2) < 0" by (simp add: not_less)
  then show ?thesis
    using output_error_inv [OF k j(2)] tail_inv [OF k j(3) m2(2), of d] a(1) m(1) b(1) m2(1) j(1)
    by (cases "r = 1"; cases "r2 = 1")
      (simp_all add: Some sixtop_output_def packetbuf_poke_def packetbuf_hdrptr_def Let_def
        frame80215e_create_ie_ietf_def create_payload_ie_descriptor_def)
qed

lemma sixp_frame_refl [simp]: "sixp_frame s s"
  by (simp add: sixp_frame_def)

lemma sixp_frame_trans [trans]: "sixp_frame s s1 \<Longrightarrow> sixp_frame s1 s2 \<Longrightarrow> sixp_frame s s2"
  by (simp add: sixp_frame_def trans_frame_def)

lemma sixp_frame_nbr [simp]:
  "sixp_frame s (s1\<lparr>nt_used_map := u\<rparr>) = sixp_frame s s1"
  "sixp_frame s (s1\<lparr>nt_locked_map := u\<rparr>) = sixp_frame s s1"
  "sixp_frame s (s1\<lparr>nt_keys := ks\<rparr>) = sixp_frame s s1"
  "sixp_frame s (s1\<lparr>nt_mem := m\<rparr>) = sixp_frame s s1"
  "sixp_frame s (s1\<lparr>nt_lladdr := as\<rparr>) = sixp_frame s s1"
  "sixp_frame s (s1\<lparr>sixp_nbr_items := ns\<rparr>) = sixp_frame s s1"
  by (simp_all add: sixp_frame_def trans_frame_def)

lemma remove_key_frame:
  assumes "\<And>t k s. sixp_frame s (env_nbr_callback env t k s)"
  shows "sixp_frame s (remove_key env key free s)"
proof -
  have c: "sixp_frame s (remove_key_callback env key i s)" for i s
    using assms by (simp add: remove_key_callback_def split: option.split)
  have "sixp_frame s (fold (remove_key_callback env key) is s)" for "is" s
    by (induction "is" arbitrary: s) (auto intro: sixp_frame_trans [OF c])
  then show ?thesis by (simp add: remove_key_def Let_def)
qed

lemma sixp_nbr_alloc_frame:
  assumes "\<And>t k s. sixp_frame s (env_nbr_callback env t k s)"
  shows "sixp_frame s (snd (sixp_nbr_alloc env a s))"
proof -
  note r = remove_key_frame [of env, OF assms]
  have n: "sixp_frame s (snd (nbr_table_new_key env b w s))" for b w
    using r by (auto simp: nbr_table_new_key_def nbr_table_allocate_def split: option.splits prod.splits)
  have "sixp_frame s (snd (nbr_table_add_lladdr env sixp_nbrs a reason s))" for a reason
    using n [of "case a of None \<Rightarrow> 0 | Some a \<Rightarrow> a"
        "snd (entry_is_allowed env sixp_nbrs (case a of None \<Rightarrow> 0 | Some a \<Rightarrow> a) reason s)"]
    by (auto simp: nbr_table_add_lladdr_def Let_def sixp_nbrs_def split: option.splits prod.splits)
  then show ?thesis
    by (auto simp: sixp_nbr_alloc_def upd_sixp_nbr_def split: option.splits prod.splits)
      (metis snd_conv)+
qed

lemma output_nbr_frame:
  assumes "sixp_env_ok env" and "output_nbr env type code dest trp s = (b, n, s1)"
  shows "sixp_frame s s1"
  using assms(2) sixp_nbr_alloc_frame [of "qe_nbr (sx_queue env)" s "Some dest"] assms(1)
  by (auto simp: output_nbr_def Let_def sixp_env_ok_def split: if_splits prod.splits)

text \<open>
  A body that \<open>sixp_pkt_create\<close> can take: its bytes are there, and it either fits behind the
  header or is refused.
\<close>

definition body_ok :: "u8 list option \<Rightarrow> u16 \<Rightarrow> bool" where
  "body_ok body blen \<longleftrightarrow>
     (case body of None \<Rightarrow> True | Some b \<Rightarrow> unat blen \<le> length b) \<and>
     (4 + unat blen \<le> PACKETBUF_SIZE \<or> PACKETBUF_SIZE < unat blen)"

lemma create_safe:
  assumes l: "length (pb_mem s) = PACKETBUF_SIZE" and b: "body_ok body blen"
  shows "\<exists>r p s'. sixp_pkt_create type code sfid seqno body blen pkt s = Some (r, p, s') \<and>
    (r = 0 \<and> packetbuf_wf s' \<and> (pkt \<noteq> None \<longrightarrow> p \<noteq> None) \<or> r = -1)"
proof -
  consider "(body = None \<and> 0 < blen) \<or> (body \<noteq> None \<and> blen = 0)" | "body = None" "blen = 0"
    | "PACKETBUF_SIZE < unat blen" | bs where "body = Some bs" "0 < blen" "unat blen \<le> length bs" "4 + unat blen \<le> PACKETBUF_SIZE"
    using b unfolding body_ok_def by (cases body) (auto simp: word_gt_0)
  then show ?thesis
  proof cases
    case 2
    have "\<exists>pkt' s'. sixp_pkt_create type code sfid seqno None 0 pkt s = Some (0, pkt', s') \<and> packetbuf_wf s' \<and>
        (pkt \<noteq> None \<longrightarrow> pkt' \<noteq> None)"
    proof -
      obtain s2 s3 where "packetbuf_hdralloc 4 (packetbuf_clear s) = Some (1, s2)"
        "packetbuf_poke (packetbuf_hdrptr s2)
           [push_bit 4 (sixp_pkt_type_val type) OR SIXP_PKT_VERSION, code, sfid, seqno] s2 = Some s3"
        "packetbuf_wf s3"
        using create_header [OF l, of type code sfid seqno] by metis
      then show ?thesis by (simp add: sixp_pkt_create_def)
    qed
    with 2 show ?thesis by blast
  next
    case (4 bs)
    obtain s' where "sixp_pkt_create type code sfid seqno (Some bs) blen pkt s =
      Some (0, map_option (\<lambda>p. p\<lparr>pkt_ptype := type, pkt_code := code, pkt_sfid := sfid,
                 pkt_seqno := seqno, pkt_body := Some bs, pkt_body_len := blen\<rparr>) pkt, s')" "packetbuf_wf s'"
      by (rule sixp_pkt_create_body [OF l 4(2-4)])
    with 4 show ?thesis by simp
  qed (auto simp: sixp_pkt_create_def)
qed

text \<open>The condition that output keeps while it works on the transaction \<open>i\<close>.\<close>

definition output_inv :: "nat \<Rightarrow> 'a sixp_state_scheme \<Rightarrow> 'a sixp_state_scheme \<Rightarrow> bool" where
  "output_inv i s0 s \<longleftrightarrow> sixp_wf s \<and> i \<in> set (trans_list s) \<and> trans_list s = trans_list s0 \<and>
     scheduling_functions s = scheduling_functions s0"

lemma mac_callback_keeps:
  assumes "sixp_env_ok env"
  shows "output_keeps env (Some (mac_callback env)) (Some i) (output_inv i s0)"
proof -
  have "\<exists>s'. mac_callback env (Some i) st s = Some s' \<and> output_inv i s0 s'" if "output_inv i s0 s" for st s
    using mac_callback_live [OF _ _ assms, of s i st] that by (auto simp: output_inv_def)
  moreover have "output_inv i s0 s'" if "output_inv i s0 s" "sixp_frame s s'" for s s'
    using that sixp_wf_frame [OF that(2)] by (auto simp: output_inv_def sixp_frame_def trans_frame_def)
  ultimately show ?thesis using assms by (simp add: output_keeps_def)
qed

lemma no_callback_keeps:
  "sixp_env_ok env \<Longrightarrow> output_keeps env None arg (\<lambda>s. sixp_wf s \<and> trans_frame s0 s)"
  by (auto simp: output_keeps_def sixp_frame_def trans_frame_def intro: sixp_wf_frame [rotated])

lemma process_trans_pb_length:
  assumes "process_trans env trp s = Some s'" and "sixp_env_ok env"
  shows "length (pb_mem s') = length (pb_mem s)"
proof -
  have f: "length (pb_mem (sixp_trans_free t u)) = length (pb_mem u)" for t and u :: "'a sixp_state_scheme"
    by (simp add: sixp_trans_free_def Let_def stop_trans_timer_def upd_trans_def split: option.split)
  have t: "length (pb_mem u') = length (pb_mem u)" if "start_trans_timer env i u = Some u'" for i u u'
    using that by (auto simp: start_trans_timer_def upd_trans_def split: option.splits)
  have p: "length (pb_mem (stop_trans_timer i u)) = length (pb_mem u)" for i and u :: "'a sixp_state_scheme"
    by (simp add: stop_trans_timer_def upd_trans_def)
  show ?thesis
    using assms(1)
    by (auto simp: process_trans_def Let_def bind_eq_Some_conv f p map_option_case
        dest!: t transit_pb_length [OF _ assms(2)] split: option.splits if_splits)
qed

lemma abort_safe:
  assumes wf: "sixp_wf s" and i: "i \<in> set (trans_list s)" and env: "sixp_env_ok env"
  shows "\<exists>s'. sixp_trans_abort env (Some i) s = Some s' \<and> sixp_wf s' \<and>
    trans_list s' = remove1 i (trans_list s) \<and> scheduling_functions s' = scheduling_functions s"
proof -
  have w: "trans_wf s" using wf by (simp add: sixp_wf_def)
  from trans_wf_abort [OF w i sixp_env_ok_handlers [OF env]] obtain s' where
    s': "sixp_trans_abort env (Some i) s = Some s'" "trans_wf s'" "trans_list s' = remove1 i (trans_list s)"
      "scheduling_functions s' = scheduling_functions s" "transs s' = (transs s)[i := sixp_trans_zero]" by blast
  obtain s1 r where s1: "sixp_trans_transit_state env (Some i) SIXP_TRANS_STATE_TERMINATING s = Some (r, s1)"
    using transit_safe [OF wf i env] by blast
  obtain s2 where s2: "sixp_trans_invoke_callback env (Some i) SIXP_OUTPUT_STATUS_ABORTED s1 = Some s2" "sixp_frame s1 s2"
    using invoke_callback_safe [OF env] by blast
  have "process_trans env (Some i) (stop_trans_timer i s2) = Some s'"
    using s'(1) s1 s2(1) by (simp add: sixp_trans_abort_def sixp_trans_terminate_def)
  from process_trans_pb_length [OF this env] transit_pb_length [OF s1 env] s2(2)
  have l: "length (pb_mem s') = length (pb_mem s)"
    by (simp add: sixp_frame_def stop_trans_timer_def upd_trans_def)
  have b: "i < length (transs s)" by (rule trans_wf_bound [OF w i])
  have "transs s' ! j = sixp_trans_zero" if "j < length (transs s')" "j \<notin> set (trans_list s')" for j
    using that s'(3,5) b wf by (cases "j = i") (auto simp: sixp_wf_def)
  with l s'(2) wf have "sixp_wf s'" by (simp add: sixp_wf_def)
  with s' show ?thesis by blast
qed

lemma alloc_safe:
  assumes wf: "sixp_wf s"
  shows "\<exists>r s'. sixp_trans_alloc env (Some p) (Some a) s = Some (r, s') \<and> sixp_wf s' \<and>
    scheduling_functions s' = scheduling_functions s \<and>
    (case r of None \<Rightarrow> s' = s
     | Some i \<Rightarrow> i \<in> set (trans_list s') \<and> sixp_trans_find (Some a) s = None \<and>
         trans_list s' = trans_list s @ [i] \<and> sixp_trans_find (Some a) s' = Some i \<and>
         (\<exists>f n. transs s' ! i = fresh_trans f n p a))"
proof (cases "sixtop_find_sf env (pkt_sfid p) s = None \<or> sixp_trans_find (Some a) s \<noteq> None \<or>
    memb_numfree (trans_memb s) = 0")
  case True
  then show ?thesis using trans_alloc_refused [of env p s a] wf by simp
next
  case False
  then obtain f i m where sf: "sixtop_find_sf env (pkt_sfid p) s = Some f"
    and nf: "sixp_trans_find (Some a) s = None" and al: "memb_alloc (trans_memb s) = (Some i, m)"
    using memb.alloc_succeeds_iff [of "trans_memb s"] by auto
  have w: "trans_wf s" using wf by (simp add: sixp_wf_def)
  note new = trans_alloc_new [OF w sf nf al]
  let ?t = "fresh_trans f (sf_timeout_interval (sx_sf env f)) p a"
  let ?s = "s\<lparr>trans_memb := m, transs := (transs s)[i := ?t], trans_list := trans_list s @ [i]\<rparr>"
  have i: "i < length (transs s)" using memb.alloc_fresh [OF al] w by (simp add: trans_wf_def)
  have "transs ?s ! j = sixp_trans_zero" if "j < length (transs ?s)" "j \<notin> set (trans_list ?s)" for j
    using that wf by (auto simp: sixp_wf_def)
  then have "sixp_wf ?s" using new(3) wf by (simp add: sixp_wf_def)
  moreover have "sixp_trans_find (Some a) ?s = Some i"
    unfolding sixp_trans_find_iff [OF new(3)] using i by (simp add: fresh_trans_def)
  ultimately show ?thesis using new(2) nf i by auto
qed

lemma upd_sixp_nbr_frame [simp]: "sixp_frame s (upd_sixp_nbr i f s)"
  by (simp add: upd_sixp_nbr_def)

lemma nbr_seqno_frame [simp]:
  "sixp_frame s (snd (sixp_nbr_reset_next_seqno n s))" "sixp_frame s (snd (sixp_nbr_increment_next_seqno n s))"
  by (simp_all add: sixp_nbr_reset_next_seqno_def sixp_nbr_increment_next_seqno_def split: option.split)

lemma output_done_safe:
  assumes I: "output_inv i s0 s" and env: "sixp_env_ok env"
  shows "\<exists>s'. output_done env code nbr i s = Some s' \<and> output_inv i s0 s'"
proof -
  have t: "\<exists>s'. map_option snd (sixp_trans_transit_state env (Some i) st u) = Some s' \<and> output_inv i s0 s'"
    if "output_inv i s0 u" for st u
    using that transit_safe [OF _ _ env, of u i st] by (auto simp: output_inv_def)
  have f: "output_inv i s0 u" if "sixp_frame s u" for u
    using that sixp_wf_frame [OF that] I by (auto simp: output_inv_def sixp_frame_def trans_frame_def)
  show ?thesis
    using t [OF I] t [OF f [OF nbr_seqno_frame(1)]] t [OF f [OF nbr_seqno_frame(2)]] I
    by (simp add: output_done_def Let_def)
qed

lemma output_inv_frame: "output_inv i s0 s \<Longrightarrow> sixp_frame s s' \<Longrightarrow> output_inv i s0 s'"
  using sixp_wf_frame [of s s'] by (auto simp: output_inv_def sixp_frame_def trans_frame_def)

text \<open>The part of \<open>sixp_output\<close> that works on the transaction.\<close>

lemma send_safe:
  assumes wf: "sixp_wf s" and i: "i \<in> set (trans_list s)" and pb: "packetbuf_wf s" and env: "sixp_env_ok env"
  shows "\<exists>s'. (do {
      (r, s4) \<leftarrow> sixtop_output env (Some dest) (Some (mac_callback env)) (Some i)
                  (sixp_trans_set_callback (Some i) func arg arg_len s);
      s5 \<leftarrow> (if r = 0 then output_done env code nbr i s4
             else if type = SIXP_PKT_TYPE_REQUEST then sixp_trans_abort env (Some i) s4
             else Some s4);
      Some (0 :: int, s5) }) = Some (0, s') \<and> sixp_wf s' \<and> scheduling_functions s' = scheduling_functions s \<and>
    (trans_list s' = trans_list s \<or> type = SIXP_PKT_TYPE_REQUEST \<and> trans_list s' = remove1 i (trans_list s))"
proof -
  let ?s3 = "sixp_trans_set_callback (Some i) func arg arg_len s"
  have I: "output_inv i s ?s3" using set_callback_safe [OF wf i, of func arg arg_len] i by (simp add: output_inv_def)
  have pb3: "packetbuf_wf ?s3"
    using pb by (simp add: sixp_trans_set_callback_def upd_trans_def packetbuf_wf_def packetbuf_used_def)
  obtain r s4 where s4: "sixtop_output env (Some dest) (Some (mac_callback env)) (Some i) ?s3 = Some (r, s4)"
    "output_inv i s s4"
    using sixtop_output_inv [OF mac_callback_keeps [OF env] I pb3] by blast
  then have i4: "sixp_wf s4" "i \<in> set (trans_list s4)" by (auto simp: output_inv_def)
  show ?thesis
    using s4 i set_callback_safe [OF wf i, of func arg arg_len] output_done_safe [OF s4(2) env, of code nbr]
      abort_safe [OF i4 env]
    by (cases "r = 0") (auto simp: output_inv_def)
qed

lemma sixp_output_safe:
  assumes wf: "sixp_wf s" and b: "body_ok body blen" and env: "sixp_env_ok env"
  shows "\<exists>r s'. sixp_output env type code sfid body blen dest func arg arg_len s = Some (r, s') \<and>
    sixp_wf s' \<and> scheduling_functions s' = scheduling_functions s \<and>
    (type \<noteq> SIXP_PKT_TYPE_REQUEST \<longrightarrow> trans_list s' = trans_list s)"
proof -
  let ?trp = "sixp_trans_find (Some dest) s"
  obtain nm nbr s1 where n: "output_nbr env type code dest ?trp s = (nm, nbr, s1)" by (metis prod_cases3)
  have f1: "sixp_frame s s1" by (rule output_nbr_frame [OF env n])
  have w1: "sixp_wf s1" by (rule sixp_wf_frame [OF f1 wf])
  have same: "trans_list s1 = trans_list s" "scheduling_functions s1 = scheduling_functions s"
    using f1 by (simp_all add: sixp_frame_def trans_frame_def)
  define seqno where "seqno = (if type = SIXP_PKT_TYPE_REQUEST then sixp_nbr_get_next_seqno nbr s1
                        else sixp_trans_get_seqno ?trp s1)"
  consider "\<not> output_trans_ok type ?trp s" | "nm \<or> seqno < 0"
    | (go) "output_trans_ok type ?trp s" "\<not> nm" "\<not> seqno < 0" by blast
  then show ?thesis
  proof cases
    case go
    have l1: "length (pb_mem s1) = PACKETBUF_SIZE" using w1 by (simp add: sixp_wf_def)
    let ?p0 = "if type = SIXP_PKT_TYPE_REQUEST then Some sixp_pkt_zero else None"
    obtain r p s2 where c: "sixp_pkt_create type code sfid (word_of_int seqno) body blen ?p0 s1 = Some (r, p, s2)"
      and cr: "r = 0 \<and> packetbuf_wf s2 \<and> (?p0 \<noteq> None \<longrightarrow> p \<noteq> None) \<or> r = -1"
      using create_safe [OF l1 b, of type code sfid "word_of_int seqno" ?p0] by blast
    have f2: "sixp_frame s1 s2" by (rule sixp_frame_pb [OF pb_frame_create [OF c]])
    have w2: "sixp_wf s2" by (rule sixp_wf_frame [OF f2 w1])
    have same2: "trans_list s2 = trans_list s" "scheduling_functions s2 = scheduling_functions s"
      using f2 same by (simp_all add: sixp_frame_def trans_frame_def)
    have out: "sixp_output env type code sfid body blen dest func arg arg_len s = (if r < 0 then Some (-1, s2)
         else do {
           (trp1, s3) \<leftarrow> (if type = SIXP_PKT_TYPE_REQUEST then sixp_trans_alloc env p (Some dest) s2
                         else Some (?trp, s2));
           (case trp1 of
              None \<Rightarrow> Some (-1, s3)
            | Some i \<Rightarrow> do {
                (r, s4) \<leftarrow> sixtop_output env (Some dest) (Some (mac_callback env)) (Some i)
                  (sixp_trans_set_callback (Some i) func arg arg_len s3);
                s5 \<leftarrow> (if r = 0 then output_done env code nbr i s4
                       else if type = SIXP_PKT_TYPE_REQUEST then sixp_trans_abort env (Some i) s4
                       else Some s4);
                Some (0, s5)
              })
         })"
      using go c by (simp add: sixp_output_def n Let_def seqno_def)
    show ?thesis
    proof (cases "r = 0")
      case False
      then show ?thesis unfolding out using cr w2 same2 by simp
    next
      case r: True
      show ?thesis
      proof (cases "type = SIXP_PKT_TYPE_REQUEST")
        case True
        with r cr obtain q where q: "p = Some q" by auto
        obtain trp1 s3 where a: "sixp_trans_alloc env (Some q) (Some dest) s2 = Some (trp1, s3)" "sixp_wf s3"
          "scheduling_functions s3 = scheduling_functions s2"
          "case trp1 of None \<Rightarrow> s3 = s2 | Some i \<Rightarrow> i \<in> set (trans_list s3) \<and> sixp_trans_find (Some dest) s2 = None \<and>
             trans_list s3 = trans_list s2 @ [i] \<and> sixp_trans_find (Some dest) s3 = Some i \<and>
             (\<exists>f n. transs s3 ! i = fresh_trans f n q dest)"
          using alloc_safe [OF w2, of env q dest] by blast
        have pb3: "packetbuf_wf s3"
          using a(1) r cr by (auto simp: sixp_trans_alloc_def Let_def start_trans_timer_def upd_trans_def
              packetbuf_wf_def packetbuf_used_def split: option.splits prod.splits if_splits)
        show ?thesis
        proof (cases trp1)
          case None
          then show ?thesis unfolding out using a same2 by (simp add: r True q)
        next
          case (Some i)
          with a(4) have "i \<in> set (trans_list s3)" by simp
          from send_safe [OF a(2) this pb3 env, of dest func arg arg_len code nbr type]
          show ?thesis unfolding out using a Some same2 by (auto simp: r True q)
        qed
      next
        case False
        with go(1) obtain i where i: "?trp = Some i" by (cases type) (auto simp: output_trans_ok_def)
        have "i \<in> set (trans_list s2)" using find_in_list [OF i] same2 by simp
        from send_safe [OF w2 this _ env, of dest func arg arg_len code nbr type] r cr
        show ?thesis unfolding out using False i same2 by (auto simp: r)
      qed
    qed
  qed (use wf w1 same n seqno_def in \<open>auto simp: sixp_output_def Let_def\<close>)
qed

subsection \<open>Input keeps the invariant\<close>

lemma body_ok_empty [simp]: "body_ok None 0"
  by (simp add: body_ok_def PACKETBUF_SIZE_def)

lemma send_back_error_safe:
  assumes wf: "sixp_wf s" and env: "sixp_env_ok env"
  shows "\<exists>r s'. send_back_error env SIXP_PKT_TYPE_RESPONSE rc pkt a s = Some (r, s') \<and> sixp_wf s' \<and>
    trans_list s' = trans_list s \<and> scheduling_functions s' = scheduling_functions s"
proof -
  have l: "length (pb_mem s) = PACKETBUF_SIZE" using wf by (simp add: sixp_wf_def)
  obtain r p s1 where c: "sixp_pkt_create SIXP_PKT_TYPE_RESPONSE rc (pkt_sfid pkt) (pkt_seqno pkt) None 0 None s = Some (r, p, s1)"
    and cr: "r = 0 \<and> packetbuf_wf s1 \<or> r = -1"
    using create_safe [OF l body_ok_empty, of SIXP_PKT_TYPE_RESPONSE rc] by blast
  have f: "sixp_frame s s1" by (rule sixp_frame_pb [OF pb_frame_create [OF c]])
  have w1: "sixp_wf s1" "trans_list s1 = trans_list s" "scheduling_functions s1 = scheduling_functions s"
    using sixp_wf_frame [OF f wf] f by (simp_all add: sixp_frame_def trans_frame_def)
  have d: "\<exists>r' s2. sixtop_output env (Some a) None None s1 = Some (r', s2) \<and> sixp_wf s2 \<and> trans_frame s1 s2"
    if "packetbuf_wf s1"
    using sixtop_output_inv [OF no_callback_keeps [OF env, of None s1] _ that] w1(1) by simp
  show ?thesis
    using c cr d w1 sixp_output_safe [OF wf body_ok_empty env, of SIXP_PKT_TYPE_RESPONSE rc "pkt_sfid pkt" a None 0 0]
    by (cases "rc = SIXP_PKT_RC_ERR_VERSION \<or> rc = SIXP_PKT_RC_ERR_SFID \<or> rc = SIXP_PKT_RC_ERR_BUSY \<or>
            (rc = SIXP_PKT_RC_ERR_SEQNUM \<and> sixp_trans_find (Some a) s \<noteq> None \<and>
             sixp_trans_get_state (sixp_trans_find (Some a) s) s \<noteq> SIXP_TRANS_STATE_REQUEST_RECEIVED)")
      (auto simp: send_back_error_def Let_def trans_frame_def)
qed

lemma inconsistency_safe:
  assumes wf: "sixp_wf s" and env: "sixp_env_ok env"
  shows "\<exists>s'. handle_schedule_inconsistency env sf pkt a s = Some s' \<and> sixp_wf s' \<and> trans_list s' = trans_list s"
proof -
  obtain r s1 where s1: "send_back_error env SIXP_PKT_TYPE_RESPONSE SIXP_PKT_RC_ERR_SEQNUM pkt a s = Some (r, s1)"
    "sixp_wf s1" "trans_list s1 = trans_list s" using send_back_error_safe [OF wf env] by blast
  have h: "\<exists>s'. h SIXP_ERROR_SCHEDULE_INCONSISTENCY (pkt_code pkt) (pkt_seqno pkt) a s1 = Some s' \<and> sixp_frame s1 s'"
    if "sf_error (sx_sf env f) = Some h" for f h
    using env that by (simp add: sixp_env_ok_def)
  show ?thesis
  proof (cases "sf = None \<or> sf_error (sx_sf env (the sf)) = None")
    case True
    then show ?thesis using s1 by (auto simp: handle_schedule_inconsistency_def split: option.split)
  next
    case False
    then obtain f g where g: "sf = Some f" "sf_error (sx_sf env f) = Some g" by auto
    obtain s2 where "g SIXP_ERROR_SCHEDULE_INCONSISTENCY (pkt_code pkt) (pkt_seqno pkt) a s1 = Some s2" "sixp_frame s1 s2"
      using h [OF g(2)] by blast
    then show ?thesis using s1 g sixp_wf_frame [of s1 s2]
      by (simp add: handle_schedule_inconsistency_def sixp_frame_def trans_frame_def)
  qed
qed

text \<open>The drivers' input handlers return and keep the invariant, given a body of the promised length.\<close>

definition sf_inputs_ok :: "(nat \<Rightarrow> ('a sixp_state_scheme) sf_input option) \<Rightarrow> bool" where
  "sf_inputs_ok sfi \<longleftrightarrow>
     (\<forall>f inp type code b blen a s. sfi f = Some inp \<longrightarrow> unat blen \<le> length b \<longrightarrow> sixp_wf s \<longrightarrow>
        (\<exists>s'. inp type code (Some b) blen a s = Some s' \<and> sixp_wf s'))"

lemma deliver_safe:
  assumes wf: "sixp_wf s" and env: "sixp_env_ok env" and sfi: "sf_inputs_ok sfi"
    and i: "i \<in> set (trans_list s)" and b: "pkt_body pkt = Some b" "unat (pkt_body_len pkt) \<le> length b"
  shows "\<exists>s'. input_deliver env sfi sf i pkt st a s = Some s' \<and> sixp_wf s'"
proof -
  obtain r s1 where s1: "sixp_trans_transit_state env (Some i) st s = Some (r, s1)" "sixp_wf s1"
    using transit_safe [OF wf i env] by blast
  show ?thesis
  proof (cases "sfi sf")
    case (Some inp)
    then obtain s2 where "inp (pkt_ptype pkt) (pkt_code pkt) (Some b) (pkt_body_len pkt) a s1 = Some s2" "sixp_wf s2"
      using sfi b(2) s1(2) unfolding sf_inputs_ok_def by blast
    with s1 Some b(1) show ?thesis by (simp add: input_deliver_def)
  qed (use s1 in \<open>simp add: input_deliver_def\<close>)
qed

lemma request_safe:
  assumes wf: "sixp_wf s" and env: "sixp_env_ok env" and sfi: "sf_inputs_ok sfi"
    and b: "pkt_body pkt = Some b" "unat (pkt_body_len pkt) \<le> length b"
  shows "\<exists>s'. input_request env sfi sf pkt a s = Some s' \<and> sixp_wf s'"
proof (cases "sixp_trans_find (Some a) s")
  case (Some i)
  then show ?thesis
    using inconsistency_safe [OF wf env, of "Some sf" pkt a] send_back_error_safe [OF wf env, of SIXP_PKT_RC_ERR_BUSY pkt a]
    by (auto simp: input_request_def Let_def)
next
  case None
  define s1 where "s1 = (if pkt_code pkt = SIXP_PKT_CMD_CLEAR \<and> sixp_nbr_find (Some a) s \<noteq> None
      then snd (sixp_nbr_reset_next_seqno (sixp_nbr_find (Some a) s) s) else s)"
  have w1: "sixp_wf s1" unfolding s1_def using wf sixp_wf_frame [OF nbr_seqno_frame(1) wf] by simp
  obtain r s2 where al: "sixp_trans_alloc env (Some pkt) (Some a) s1 = Some (r, s2)" "sixp_wf s2"
    "case r of None \<Rightarrow> s2 = s1 | Some i \<Rightarrow> i \<in> set (trans_list s2) \<and> sixp_trans_find (Some a) s1 = None \<and>
       trans_list s2 = trans_list s1 @ [i] \<and> sixp_trans_find (Some a) s2 = Some i \<and>
       (\<exists>f n. transs s2 ! i = fresh_trans f n pkt a)"
    using alloc_safe [OF w1, of env pkt a] by blast
  have e: "input_request env sfi sf pkt a s = (case r of
           None \<Rightarrow> map_option snd
             (send_back_error env SIXP_PKT_TYPE_RESPONSE SIXP_PKT_RC_ERR_BUSY pkt a s2)
         | Some i \<Rightarrow>
             let nbr1 = sixp_nbr_find (Some a) s2
             in if pkt_code pkt \<noteq> SIXP_PKT_CMD_CLEAR \<and>
                   ((nbr1 = None \<and> pkt_seqno pkt \<noteq> 0) \<or>
                    (nbr1 \<noteq> None \<and> sixp_nbr_get_next_seqno nbr1 s2 \<noteq> 0 \<and> pkt_seqno pkt = 0))
                then do {
                  (_, s3) \<leftarrow> sixp_trans_transit_state env (Some i) SIXP_TRANS_STATE_REQUEST_RECEIVED s2;
                  handle_schedule_inconsistency env (Some sf) pkt a s3
                }
                else input_deliver env sfi sf i pkt SIXP_TRANS_STATE_REQUEST_RECEIVED a s2)"
    unfolding input_request_def Let_def None s1_def [symmetric] al(1) by simp
  show ?thesis
  proof (cases r)
    case None
    then show ?thesis using send_back_error_safe [OF al(2) env, of SIXP_PKT_RC_ERR_BUSY pkt a] by (auto simp: e)
  next
    case (Some i)
    with al(3) have i: "i \<in> set (trans_list s2)" by simp
    obtain q s3 where s3: "sixp_trans_transit_state env (Some i) SIXP_TRANS_STATE_REQUEST_RECEIVED s2 = Some (q, s3)"
      "sixp_wf s3" using transit_safe [OF al(2) i env] by blast
    show ?thesis
      using inconsistency_safe [OF s3(2) env, of "Some sf" pkt a] s3(1)
        deliver_safe [OF al(2) env sfi i b, of sf SIXP_TRANS_STATE_REQUEST_RECEIVED a]
      by (auto simp: e Some Let_def)
  qed
qed

lemma answer_safe:
  assumes wf: "sixp_wf s" and env: "sixp_env_ok env" and sfi: "sf_inputs_ok sfi"
    and b: "pkt_body pkt = Some b" "unat (pkt_body_len pkt) \<le> length b"
  shows "\<exists>s'. input_answer env sfi sf pkt a s = Some s' \<and> sixp_wf s'"
proof (cases "sixp_trans_find (Some a) s")
  case (Some i)
  from deliver_safe [OF wf env sfi find_in_list [OF Some] b] wf Some show ?thesis
    by (simp add: input_answer_def)
qed (use wf in \<open>simp add: input_answer_def\<close>)

lemma parse_total:
  assumes "unat len \<le> length buf"
  shows "\<exists>pkt. sixp_pkt_parse buf len = Some (-1, pkt) \<or>
    sixp_pkt_parse buf len = Some (0, pkt) \<and> (\<exists>b. pkt_body pkt = Some b \<and> unat (pkt_body_len pkt) \<le> length b)"
proof (cases "len < 4")
  case True
  then show ?thesis by (simp add: sixp_pkt_parse_def)
next
  case False
  then have l: "4 \<le> unat len" by (simp add: word_less_nat_alt)
  have "unat (len - 4) = unat len - 4" using l by (subst unat_sub) (simp_all add: word_le_nat_alt)
  with assms have "unat (len - 4) \<le> length (drop 4 buf)" by simp
  moreover have "mem_read buf 0 4 = Some (take 4 buf)" using l assms by (simp add: mem_read_def)
  ultimately show ?thesis using False
    by (simp only: sixp_pkt_parse_def Let_def if_False bind.simps split: if_split) simp
qed

lemma sixp_input_safe:
  assumes wf: "sixp_wf s" and env: "sixp_env_ok env" and sfi: "sf_inputs_ok sfi" and l: "unat len \<le> length buf"
  shows "\<exists>s'. sixp_input env sfi (Some buf) len (Some a) s = Some s' \<and> sixp_wf s'"
proof -
  from parse_total [OF l] obtain pkt where "sixp_pkt_parse buf len = Some (-1, pkt) \<or>
    sixp_pkt_parse buf len = Some (0, pkt) \<and> (\<exists>b. pkt_body pkt = Some b \<and> unat (pkt_body_len pkt) \<le> length b)" by blast
  then consider "sixp_pkt_parse buf len = Some (-1, pkt)"
    | b where "sixp_pkt_parse buf len = Some (0, pkt)" "pkt_body pkt = Some b" "unat (pkt_body_len pkt) \<le> length b"
    by blast
  then show ?thesis
  proof cases
    case 1
    then show ?thesis using wf send_back_error_safe [OF wf env, of SIXP_PKT_RC_ERR_VERSION pkt a]
      by (auto simp: sixp_input_def)
  next
    case (2 b)
    then show ?thesis
      using wf send_back_error_safe [OF wf env, of SIXP_PKT_RC_ERR_SFID pkt a]
        request_safe [OF wf env sfi 2(2,3)] answer_safe [OF wf env sfi 2(2,3)]
      by (auto simp: sixp_input_def split: option.split)
  qed
qed

subsection \<open>Runs of 6P\<close>

lemma timer_expire_pb_length:
  assumes "trans_timer_expire env i s = Some s'" and env: "sixp_env_ok env"
  shows "length (pb_mem s') = length (pb_mem s)"
proof -
  have p: "length (pb_mem (stop_trans_timer i u)) = length (pb_mem u)" for u :: "'a sixp_state_scheme"
    by (simp add: stop_trans_timer_def upd_trans_def)
  have h: "length (pb_mem s1) = length (pb_mem u)" if "sf_timeout (sx_sf env f) = Some h" "h c a u = Some s1"
    for f h c a u s1
    using env that unfolding sixp_env_ok_def sixp_frame_def by (metis option.inject)
  have t: "length (pb_mem u') = length (pb_mem u)" if "handle_trans_timeout env (Some i) u = Some u'" for u u'
    using that by (auto simp: handle_trans_timeout_def Let_def bind_eq_Some_conv
        dest!: transit_pb_length [OF _ env] h split: option.splits)
  show ?thesis
    using assms(1) by (auto simp: trans_timer_expire_def p dest!: t process_trans_pb_length [OF _ env]
        split: option.splits trans_timer.splits)
qed

lemma timer_expire_safe:
  assumes wf: "sixp_wf s" and i: "i \<in> set (trans_list s)" and env: "sixp_env_ok env"
  shows "\<exists>s'. trans_timer_expire env i s = Some s' \<and> sixp_wf s'"
proof -
  have w: "trans_wf s" using wf by (simp add: sixp_wf_def)
  from trans_timer_expire_spec [OF w i sixp_env_ok_handlers [OF env]] obtain s' n where
    s': "trans_timer_expire env i s = Some s'" "trans_wf s'"
    and c: "case after_expiry n (transs s ! i) of
       None \<Rightarrow> trans_list s' = remove1 i (trans_list s) \<and>
               memb_blocks (trans_memb s') = memb_blocks (trans_memb s) - {i} \<and>
               transs s' = (transs s)[i := sixp_trans_zero]
     | Some t \<Rightarrow> trans_list s' = trans_list s \<and> trans_memb s' = trans_memb s \<and>
                  transs s' = (transs s)[i := t]" by blast
  note l = timer_expire_pb_length [OF s'(1) env]
  have b: "i < length (transs s)" by (rule trans_wf_bound [OF w i])
  have "sixp_wf s'"
  proof (cases "after_expiry n (transs s ! i)")
    case None
    with c have e: "trans_list s' = remove1 i (trans_list s)" "transs s' = (transs s)[i := sixp_trans_zero]" by simp_all
    have "transs s' ! j = sixp_trans_zero" if "j < length (transs s')" "j \<notin> set (trans_list s')" for j
      using that e b wf by (cases "j = i") (auto simp: sixp_wf_def)
    with l s'(2) wf show ?thesis by (simp add: sixp_wf_def)
  next
    case (Some t)
    with c show ?thesis by (intro sixp_wf_live_upd [OF wf s'(2) _ i _ l]) auto
  qed
  with s'(1) show ?thesis by blast
qed

lemma mac_callback_safe:
  assumes "sixp_wf s" and "i < length (transs s)" and "sixp_env_ok env"
  shows "\<exists>s'. mac_callback env (Some i) status s = Some s' \<and> sixp_wf s'"
  using mac_callback_live [OF assms(1) _ assms(3), of i status] mac_callback_stale [OF assms(1,2), of env status] assms(1)
  by (cases "i \<in> set (trans_list s)") auto

lemma sixp_init_wf:
  assumes "length (transs s) = length (trans_memb s)" and "length (pb_mem s) = PACKETBUF_SIZE"
  shows "sixp_wf (sixp_init s)"
proof -
  have n: "sixp_frame u (sixp_nbr_free_all is u)" for "is" and u :: "'a sixp_state_scheme"
  proof (induction "is" arbitrary: u)
    case (Cons i "is")
    have "sixp_frame u (sixp_nbr_free (Some i) u)"
      by (simp add: sixp_nbr_free_def nbr_table_remove_def Let_def)
    from sixp_frame_trans [OF this Cons.IH] show ?case by simp
  qed simp
  let ?s1 = "snd (sixp_nbr_init s)"
  have r: "sixp_frame s (snd (nbr_table_register t b s))" for t b
    by (simp add: nbr_table_register_def sixp_frame_def trans_frame_def)
  have f: "sixp_frame s ?s1" using n r by (simp add: sixp_nbr_init_def)
  then have l: "length (transs ?s1) = length (trans_memb ?s1)" "length (pb_mem ?s1) = PACKETBUF_SIZE"
    using assms by (simp_all add: sixp_frame_def trans_frame_def)
  have p: "length (pb_mem (sixp_trans_free_all is u)) = length (pb_mem u)" for "is" and u :: "'a sixp_state_scheme"
    by (induction "is" u rule: sixp_trans_free_all.induct)
      (simp_all add: sixp_trans_free_def Let_def stop_trans_timer_def upd_trans_def)
  from trans_wf_init [OF l(1)] l(2) show ?thesis
    by (simp add: sixp_init_def sixp_wf_def sixp_trans_init_def Let_def p)
qed

text \<open>
  The events of the 6P layer: a received message, a message to send, a report of the MAC layer
  with the pointer of any block of the pool, live or not, and the expiry of a timer.
\<close>

inductive sixp_event ::
  "('a sixp_state_scheme) sixp_env \<Rightarrow> (nat \<Rightarrow> ('a sixp_state_scheme) sf_input option) \<Rightarrow>
   'a sixp_state_scheme \<Rightarrow> 'a sixp_state_scheme \<Rightarrow> bool" for env sfi where
  ev_receive: "unat len \<le> length buf \<Longrightarrow> sixp_input env sfi (Some buf) len (Some a) s = Some s' \<Longrightarrow>
    sixp_event env sfi s s'"
| ev_send: "body_ok body blen \<Longrightarrow>
    sixp_output env type code sfid body blen dest func arg arg_len s = Some (r, s') \<Longrightarrow>
    sixp_event env sfi s s'"
| ev_mac: "i < length (transs s) \<Longrightarrow> mac_callback env (Some i) status s = Some s' \<Longrightarrow>
    sixp_event env sfi s s'"
| ev_timer: "i \<in> set (trans_list s) \<Longrightarrow> trans_timer_expire env i s = Some s' \<Longrightarrow> sixp_event env sfi s s'"

lemma sixp_event_wf:
  assumes "sixp_event env sfi s s'" and wf: "sixp_wf s" and env: "sixp_env_ok env" and sfi: "sf_inputs_ok sfi"
  shows "sixp_wf s'"
  using assms(1)
proof cases
  case (ev_receive len buf a)
  then show ?thesis using sixp_input_safe [OF wf env sfi, of len buf a] by auto
next
  case (ev_send body blen type code sfid dest func arg arg_len r)
  then show ?thesis using sixp_output_safe [OF wf ev_send(1) env, of type code sfid dest func arg arg_len] by auto
next
  case (ev_mac i status)
  then show ?thesis using mac_callback_safe [OF wf ev_mac(1) env, of status] by auto
next
  case (ev_timer i)
  then show ?thesis using timer_expire_safe [OF wf ev_timer(1) env] by auto
qed

lemma sixp_run_wf:
  assumes "(sixp_event env sfi)\<^sup>*\<^sup>* s s'" and "sixp_wf s" and "sixp_env_ok env" and "sf_inputs_ok sfi"
  shows "sixp_wf s'"
  using assms by (induction rule: rtranclp_induct) (auto intro: sixp_event_wf)

subsection \<open>A request is sent\<close>

text \<open>
  A MAC layer that answers every frame with the same immediate status, or none when it queues
  the frame and reports later; and an environment that leaves the sequence numbers to 6P.
\<close>

definition mac_status :: "('a sixp_state_scheme) sixp_env \<Rightarrow> u8 option \<Rightarrow> bool" where
  "mac_status env st \<longleftrightarrow> (\<forall>p u. \<exists>u'. sx_mac_send env p u = Some (st, u'))"

definition nbrs_kept :: "('a sixp_state_scheme) sixp_env \<Rightarrow> bool" where
  "nbrs_kept env \<longleftrightarrow>
     (\<forall>p u st u'. sx_mac_send env p u = Some (st, u') \<longrightarrow> sixp_nbr_items u' = sixp_nbr_items u) \<and>
     (\<forall>f x l a st u u'. sx_sent_cb env f x l a st u = Some u' \<longrightarrow> sixp_nbr_items u' = sixp_nbr_items u)"

lemma mac_send_status:
  assumes "mac_status env st" and "sixp_env_ok env" and "nbrs_kept env"
  obtains u' where "sx_mac_send env p u = Some (st, u')" and "sixp_frame u u'"
    and "sixp_nbr_items u' = sixp_nbr_items u"
proof -
  obtain u' where u': "sx_mac_send env p u = Some (st, u')" using assms(1) unfolding mac_status_def by blast
  moreover have "sixp_frame u u'"
    using assms(2) u' unfolding sixp_env_ok_def by (metis option.inject prod.inject)
  moreover have "sixp_nbr_items u' = sixp_nbr_items u"
    using assms(3) u' unfolding nbrs_kept_def by blast
  ultimately show ?thesis by (rule that)
qed

lemma sixtop_find_sf_cong:
  "scheduling_functions s' = scheduling_functions s \<Longrightarrow> sixtop_find_sf env f s' = sixtop_find_sf env f s"
  by (simp add: sixtop_find_sf_def)

lemma sixp_trans_find_cong:
  "trans_list s' = trans_list s \<Longrightarrow> transs s' = transs s \<Longrightarrow> sixp_trans_find a s' = sixp_trans_find a s"
  by (simp add: sixp_trans_find_def cong: option.case_cong)

lemma set_callback_eq:
  "sixp_trans_set_callback (Some i) f a l s =
     s\<lparr>transs := (transs s)[i := (transs s ! i)\<lparr>tr_cb_func := f, tr_cb_arg := a, tr_cb_arg_len := l\<rparr>]\<rparr>"
  by (simp add: sixp_trans_set_callback_def upd_trans_def)

lemma output_done_request:
  assumes i: "i < length (transs s)" and st: "tr_state (transs s ! i) = SIXP_TRANS_STATE_INIT"
  shows "\<exists>s'. output_done env code (Some n) i s = Some s' \<and>
    transs s' = (transs s)[i := (transs s ! i)\<lparr>tr_state := SIXP_TRANS_STATE_REQUEST_SENDING,
                                                tr_timer := Some TIMER_PROCESS\<rparr>] \<and>
    sixp_nbr_items s' = sixp_nbr_items (snd (if code = SIXP_PKT_CMD_CLEAR
      then sixp_nbr_reset_next_seqno (Some n) s else sixp_nbr_increment_next_seqno (Some n) s)) \<and>
    s' = s\<lparr>transs := transs s', sixp_nbr_items := sixp_nbr_items s'\<rparr>"
proof -
  let ?u = "snd (if code = SIXP_PKT_CMD_CLEAR
      then sixp_nbr_reset_next_seqno (Some n) s else sixp_nbr_increment_next_seqno (Some n) s)"
  let ?t = "(transs s ! i)\<lparr>tr_state := SIXP_TRANS_STATE_REQUEST_SENDING, tr_timer := Some TIMER_PROCESS\<rparr>"
  have u: "?u = s\<lparr>sixp_nbr_items := sixp_nbr_items ?u\<rparr>"
    by (simp add: sixp_nbr_reset_next_seqno_def sixp_nbr_increment_next_seqno_def upd_sixp_nbr_def)
  have t: "transs ?u = transs s" by (subst u) simp
  have "sixp_trans_transit_state env (Some i) SIXP_TRANS_STATE_REQUEST_SENDING ?u =
      Some (0, ?u\<lparr>transs := (transs s)[i := ?t]\<rparr>)"
    using i st by (simp add: sixp_trans_transit_state_def Let_def t transit_ok_def schedule_trans_process_def upd_trans_def)
  then have "output_done env code (Some n) i s = Some (?u\<lparr>transs := (transs s)[i := ?t]\<rparr>)"
    using st by (simp add: output_done_def sixp_trans_get_state_def)
  moreover have "?u\<lparr>transs := (transs s)[i := ?t]\<rparr> =
      s\<lparr>transs := (transs s)[i := ?t], sixp_nbr_items := sixp_nbr_items ?u\<rparr>"
    by (subst u) simp
  ultimately show ?thesis by simp
qed

lemma tag_6p_trans:
  "trans_list (tag_6p c d (x\<lparr>pb_mem := y, pb_hdrlen := z\<rparr>)) = trans_list x"
  "transs (tag_6p c d (x\<lparr>pb_mem := y, pb_hdrlen := z\<rparr>)) = transs x"
  "sixp_nbr_items (tag_6p c d (x\<lparr>pb_mem := y, pb_hdrlen := z\<rparr>)) = sixp_nbr_items x"
  by (simp_all add: tag_6p_def packetbuf_set_addr_def packetbuf_set_attr_def)

lemma sixp_request_steps:
  assumes wf: "sixp_wf s" and nt: "sixp_trans_find (Some a) s = None" and nb: "sixp_nbr_find (Some a) s = Some n"
    and sf: "sixtop_find_sf env sfid s = Some f" and free: "0 < memb_numfree (trans_memb s)"
    and b: "0 < blen" "unat blen \<le> length b" "unat blen \<le> 119"
  obtains i u where
    "sixp_output env SIXP_PKT_TYPE_REQUEST code sfid (Some b) blen a func arg arg_len s = do {
       s5 \<leftarrow> netstack_mac_send env (Some (mac_callback env)) (Some i) u;
       s6 \<leftarrow> output_done env code (Some n) i s5;
       Some (0, s6) }"
    and "packetbuf_content u = sixtop_frame
      (sixp_header SIXP_PKT_TYPE_REQUEST code sfid (nbr_next_seqno (sixp_nbr_items s ! n)) @ take (unat blen) b)"
    and "packetbuf_addr PACKETBUF_ADDR_RECEIVER u = a"
    and "i < length (transs s)" and "i \<notin> set (trans_list s)" and "trans_list u = trans_list s @ [i]"
    and "\<exists>mode k. transs u = (transs s)[i := \<lparr>tr_sf = Some f, tr_peer_addr = a,
      tr_seqno = nbr_next_seqno (sixp_nbr_items s ! n), tr_cmd = code,
      tr_state = SIXP_TRANS_STATE_INIT, tr_mode = mode,
      tr_cb_func = func, tr_cb_arg = arg, tr_cb_arg_len = arg_len, tr_timer = Some (TIMER_TIMEOUT k)\<rparr>]"
    and "sixp_nbr_items u = sixp_nbr_items s"
proof -
  let ?seq = "nbr_next_seqno (sixp_nbr_items s ! n)"
  let ?p = "sixp_pkt_zero\<lparr>pkt_ptype := SIXP_PKT_TYPE_REQUEST, pkt_code := code, pkt_sfid := sfid,
                 pkt_seqno := ?seq, pkt_body := Some b, pkt_body_len := blen\<rparr>"
  have l: "length (pb_mem s) = PACKETBUF_SIZE" and w: "trans_wf s" using wf by (simp_all add: sixp_wf_def)
  have b4: "4 + unat blen \<le> PACKETBUF_SIZE" using b(3) by (simp add: PACKETBUF_SIZE_def)
  obtain s2 where c: "sixp_pkt_create SIXP_PKT_TYPE_REQUEST code sfid ?seq (Some b) blen (Some sixp_pkt_zero) s =
      Some (0, Some ?p, s2)" and pb2: "packetbuf_wf s2"
    and k: "packetbuf_content s2 = sixp_header SIXP_PKT_TYPE_REQUEST code sfid ?seq @ take (unat blen) b"
    using sixp_pkt_create_body [OF l b(1,2) b4, of SIXP_PKT_TYPE_REQUEST code sfid ?seq "Some sixp_pkt_zero"] by auto
  note fr = pb_frame_create [OF c]
  have same: "trans_memb s2 = trans_memb s" "transs s2 = transs s" "trans_list s2 = trans_list s"
    "scheduling_functions s2 = scheduling_functions s" "sixp_nbr_items s2 = sixp_nbr_items s"
    using trans_frame_pb [OF fr] by (simp_all add: trans_frame_def)
  have w2: "trans_wf s2" using w by (simp add: trans_wf_def same)
  obtain i m where al: "memb_alloc (trans_memb s2) = (Some i, m)"
    using free memb.alloc_succeeds_iff [of "trans_memb s"] by (auto simp: same)
  let ?N = "sf_timeout_interval (sx_sf env f)"
  let ?s3 = "s2\<lparr>trans_memb := m, transs := (transs s2)[i := fresh_trans f ?N ?p a], trans_list := trans_list s2 @ [i]\<rparr>"
  have new: "i \<notin> set (trans_list s2)" "sixp_trans_alloc env (Some ?p) (Some a) s2 = Some (Some i, ?s3)"
    using trans_alloc_new(1,2) [OF w2 _ _ al, of env ?p f a] sf nt
    by (simp_all add: sixtop_find_sf_cong [OF same(4)] sixp_trans_find_cong [OF same(3,2)])
  have i: "i < length (transs s)" using memb.alloc_fresh [OF al] w2 by (simp add: trans_wf_def same)
  let ?t = "(fresh_trans f ?N ?p a)\<lparr>tr_cb_func := func, tr_cb_arg := arg, tr_cb_arg_len := arg_len\<rparr>"
  let ?s4 = "sixp_trans_set_callback (Some i) func arg arg_len ?s3"
  have s4: "?s4 = ?s3\<lparr>transs := (transs s)[i := ?t]\<rparr>" using i by (simp add: set_callback_eq same)
  have pb4: "packetbuf_wf ?s4" "packetbuf_used ?s4 \<le> 123" and k4: "packetbuf_content ?s4 = packetbuf_content s2"
  proof -
    have "packetbuf_used ?s4 = packetbuf_used s2" "pb_mem ?s4 = pb_mem s2" by (simp_all add: s4 packetbuf_used_def)
    moreover have "packetbuf_used s2 = 4 + unat blen"
      using length_content [OF pb2] b(2) by (simp add: k)
    ultimately show "packetbuf_wf ?s4" "packetbuf_used ?s4 \<le> 123" "packetbuf_content ?s4 = packetbuf_content s2"
      using pb2 b(3) by (simp_all add: packetbuf_wf_def packetbuf_content_def)
  qed
  obtain mm h where out: "sixtop_output env (Some a) (Some (mac_callback env)) (Some i) ?s4 = do {
      s1 \<leftarrow> netstack_mac_send env (Some (mac_callback env)) (Some i) (tag_6p (sx_node_addr env) a (?s4\<lparr>pb_mem := mm, pb_hdrlen := h\<rparr>));
      Some (0, s1) }"
    and c4: "packetbuf_content (?s4\<lparr>pb_mem := mm, pb_hdrlen := h\<rparr>) = sixtop_frame (packetbuf_content ?s4)"
    by (rule sixtop_output_steps [OF pb4])
  let ?u = "tag_6p (sx_node_addr env) a (?s4\<lparr>pb_mem := mm, pb_hdrlen := h\<rparr>)"
  have uf: "trans_list ?u = trans_list s @ [i]" "transs ?u = (transs s)[i := ?t]" "sixp_nbr_items ?u = sixp_nbr_items s"
    unfolding tag_6p_trans s4 by (simp_all add: same)
  have o: "sixp_output env SIXP_PKT_TYPE_REQUEST code sfid (Some b) blen a func arg arg_len s = do {
       s5 \<leftarrow> netstack_mac_send env (Some (mac_callback env)) (Some i) ?u;
       s6 \<leftarrow> output_done env code (Some n) i s5;
       Some (0, s6) }"
    using nt nb c new(2) out
    by (simp add: sixp_output_def output_trans_ok_def output_nbr_def sixp_nbr_get_next_seqno_def Let_def)
  have k': "packetbuf_content ?u = sixtop_frame (sixp_header SIXP_PKT_TYPE_REQUEST code sfid ?seq @ take (unat blen) b)"
    by (simp add: c4 k4 k)
  have tr: "\<exists>mode k. transs ?u = (transs s)[i := \<lparr>tr_sf = Some f, tr_peer_addr = a,
      tr_seqno = ?seq, tr_cmd = code, tr_state = SIXP_TRANS_STATE_INIT, tr_mode = mode,
      tr_cb_func = func, tr_cb_arg = arg, tr_cb_arg_len = arg_len, tr_timer = Some (TIMER_TIMEOUT k)\<rparr>]"
    unfolding uf by (simp add: fresh_trans_def) blast
  have ni: "i \<notin> set (trans_list s)" using new(1) unfolding same .
  show ?thesis by (rule that [OF o k' _ i ni uf(1) tr uf(3)]) simp
qed

lemma sent_cb_safe:
  "sixp_env_ok env \<Longrightarrow> \<exists>u'. sx_sent_cb env g arg arg_len a st u = Some u' \<and> sixp_frame u u'"
  by (simp add: sixp_env_ok_def)

lemma output_done_nbr_items:
  assumes "n < length (sixp_nbr_items s)"
    and "sixp_nbr_items s' = sixp_nbr_items (snd (if code = SIXP_PKT_CMD_CLEAR
      then sixp_nbr_reset_next_seqno (Some n) s else sixp_nbr_increment_next_seqno (Some n) s))"
  shows "unat (nbr_next_seqno (sixp_nbr_items s' ! n)) =
    (if code = SIXP_PKT_CMD_CLEAR then 0 else seqno_after (unat (nbr_next_seqno (sixp_nbr_items s ! n))) 1)"
  using assms increment_next_seqno_value [OF assms(1)]
  by (simp add: sixp_nbr_reset_next_seqno_def upd_sixp_nbr_def)

text \<open>
  C27: Sending a request.  With a MAC layer that queues frames, no transaction with the peer, a
  known neighbour, a registered scheduling function, a free block and a body of 1 to 119 bytes,
  \<open>sixp_output\<close> returns 0.  The MAC layer was given a data frame for the peer with exactly the
  header - the peer's sequence number in it - and the body; the transaction found for the peer
  afterwards is the new one, in state REQUEST_SENDING with that number, the command and the
  caller's callback; the neighbour's next number is the following one, or 0 after CLEAR; and the
  other transactions are as before.
\<close>

theorem sixp_request_sent:
  assumes wf: "sixp_wf s" and env: "sixp_env_ok env" "nbrs_kept env" "mac_status env None"
    and nt: "sixp_trans_find (Some a) s = None" and nb: "sixp_nbr_find (Some a) s = Some n"
    and n: "n < length (sixp_nbr_items s)" and sf: "sixtop_find_sf env sfid s = Some f"
    and free: "0 < memb_numfree (trans_memb s)"
    and b: "0 < blen" "unat blen \<le> length b" "unat blen \<le> 119"
  shows "\<exists>i u u1 s'. sixp_output env SIXP_PKT_TYPE_REQUEST code sfid (Some b) blen a func arg arg_len s = Some (0, s') \<and>
    sx_mac_send env (Some i) u = Some (None, u1) \<and> packetbuf_addr PACKETBUF_ADDR_RECEIVER u = a \<and>
    packetbuf_content u = sixtop_frame
      (sixp_header SIXP_PKT_TYPE_REQUEST code sfid (nbr_next_seqno (sixp_nbr_items s ! n)) @ take (unat blen) b) \<and>
    s' = u1\<lparr>transs := transs s', sixp_nbr_items := sixp_nbr_items s'\<rparr> \<and>
    sixp_trans_find (Some a) s' = Some i \<and>
    tr_state (transs s' ! i) = SIXP_TRANS_STATE_REQUEST_SENDING \<and> tr_cmd (transs s' ! i) = code \<and>
    tr_seqno (transs s' ! i) = nbr_next_seqno (sixp_nbr_items s ! n) \<and> tr_cb_func (transs s' ! i) = func \<and>
    unat (nbr_next_seqno (sixp_nbr_items s' ! n)) =
      (if code = SIXP_PKT_CMD_CLEAR then 0 else seqno_after (unat (nbr_next_seqno (sixp_nbr_items s ! n))) 1) \<and>
    i \<notin> set (trans_list s) \<and> trans_list s' = trans_list s @ [i] \<and>
    (\<forall>j. j \<noteq> i \<longrightarrow> transs s' ! j = transs s ! j)"
proof -
  obtain i u where o: "sixp_output env SIXP_PKT_TYPE_REQUEST code sfid (Some b) blen a func arg arg_len s = do {
       s5 \<leftarrow> netstack_mac_send env (Some (mac_callback env)) (Some i) u;
       s6 \<leftarrow> output_done env code (Some n) i s5;
       Some (0, s6) }"
    and c: "packetbuf_content u = sixtop_frame
      (sixp_header SIXP_PKT_TYPE_REQUEST code sfid (nbr_next_seqno (sixp_nbr_items s ! n)) @ take (unat blen) b)"
      "packetbuf_addr PACKETBUF_ADDR_RECEIVER u = a"
    and i: "i < length (transs s)" "i \<notin> set (trans_list s)" and tl: "trans_list u = trans_list s @ [i]"
    and tr: "\<exists>mode k. transs u = (transs s)[i := \<lparr>tr_sf = Some f, tr_peer_addr = a,
      tr_seqno = nbr_next_seqno (sixp_nbr_items s ! n), tr_cmd = code,
      tr_state = SIXP_TRANS_STATE_INIT, tr_mode = mode,
      tr_cb_func = func, tr_cb_arg = arg, tr_cb_arg_len = arg_len, tr_timer = Some (TIMER_TIMEOUT k)\<rparr>]"
    and it: "sixp_nbr_items u = sixp_nbr_items s"
    by (rule sixp_request_steps [OF wf nt nb sf free b])
  obtain u1 where m: "sx_mac_send env (Some i) u = Some (None, u1)" "sixp_frame u u1"
    "sixp_nbr_items u1 = sixp_nbr_items u"
    by (rule mac_send_status [OF env(3,1,2)])
  have u1: "trans_list u1 = trans_list s @ [i]" "transs u1 = transs u" "sixp_nbr_items u1 = sixp_nbr_items s"
    using m tl it by (simp_all add: sixp_frame_def trans_frame_def)
  have st: "i < length (transs u1)" "tr_state (transs u1 ! i) = SIXP_TRANS_STATE_INIT"
    using i tr u1(2) by auto
  from output_done_request [OF st, of env code n] obtain s' where
    d: "output_done env code (Some n) i u1 = Some s'"
      "transs s' = (transs u1)[i := (transs u1 ! i)\<lparr>tr_state := SIXP_TRANS_STATE_REQUEST_SENDING,
                                                tr_timer := Some TIMER_PROCESS\<rparr>]"
      "sixp_nbr_items s' = sixp_nbr_items (snd (if code = SIXP_PKT_CMD_CLEAR
        then sixp_nbr_reset_next_seqno (Some n) u1 else sixp_nbr_increment_next_seqno (Some n) u1))"
      "s' = u1\<lparr>transs := transs s', sixp_nbr_items := sixp_nbr_items s'\<rparr>" by blast
  have o': "sixp_output env SIXP_PKT_TYPE_REQUEST code sfid (Some b) blen a func arg arg_len s = Some (0, s')"
    using o m d(1) by (simp add: netstack_mac_send_def)
  have tl': "trans_list s' = trans_list s @ [i]" by (subst d(4)) (simp add: u1)
  have bo: "body_ok (Some b) blen" using b by (simp add: body_ok_def PACKETBUF_SIZE_def)
  have "sixp_wf s'"
    using sixp_output_safe [OF wf bo env(1), of SIXP_PKT_TYPE_REQUEST code sfid a func arg arg_len] o' by simp
  then have w': "trans_wf s'" by (simp add: sixp_wf_def)
  have f: "sixp_trans_find (Some a) s' = Some i"
    unfolding sixp_trans_find_iff [OF w'] using tl' d(2) st tr i u1(2) by auto
  have oth: "transs s' ! j = transs s ! j" if "j \<noteq> i" for j
    using that d(2) tr u1(2) by auto
  have nx: "unat (nbr_next_seqno (sixp_nbr_items s' ! n)) =
      (if code = SIXP_PKT_CMD_CLEAR then 0 else seqno_after (unat (nbr_next_seqno (sixp_nbr_items s ! n))) 1)"
    using output_done_nbr_items [OF _ d(3)] n u1(3) by simp
  have t: "tr_state (transs s' ! i) = SIXP_TRANS_STATE_REQUEST_SENDING" "tr_cmd (transs s' ! i) = code"
    "tr_seqno (transs s' ! i) = nbr_next_seqno (sixp_nbr_items s ! n)" "tr_cb_func (transs s' ! i) = func"
    using d(2) tr i u1(2) by auto
  show ?thesis
    by (intro exI [of _ i] exI [of _ u] exI [of _ u1] exI [of _ s'] conjI)
      (rule o' m(1) c d(4) f t nx i(2) tl' | use oth in blast)+
qed

text \<open>
  C35: A request that the MAC layer turns down at once - it reports an error before it returns, as
  the TSCH layer does when it is not associated or its queue is full - is not cleaned up.  The
  caller's callback is told of the failure, yet \<open>sixp_output\<close> returns 0, consumes a sequence
  number and leaves a transaction in state REQUEST_SENDING, without a callback, that blocks
  further requests to the peer until it times out.
\<close>

theorem sixp_request_failed_at_once:
  assumes wf: "sixp_wf s" and env: "sixp_env_ok env" "nbrs_kept env" "mac_status env (Some st)"
    and st: "st \<noteq> MAC_TX_OK"
    and nt: "sixp_trans_find (Some a) s = None" and nb: "sixp_nbr_find (Some a) s = Some n"
    and n: "n < length (sixp_nbr_items s)" and sf: "sixtop_find_sf env sfid s = Some f"
    and free: "0 < memb_numfree (trans_memb s)"
    and b: "0 < blen" "unat blen \<le> length b" "unat blen \<le> 119"
  shows "\<exists>i u u1 s'. sixp_output env SIXP_PKT_TYPE_REQUEST code sfid (Some b) blen a (Some g) arg arg_len s = Some (0, s') \<and>
    sx_sent_cb env g arg arg_len a SIXP_OUTPUT_STATUS_FAILURE u = Some u1 \<and>
    s' = u1\<lparr>transs := transs s', sixp_nbr_items := sixp_nbr_items s'\<rparr> \<and>
    sixp_trans_find (Some a) s' = Some i \<and>
    tr_state (transs s' ! i) = SIXP_TRANS_STATE_REQUEST_SENDING \<and> tr_cb_func (transs s' ! i) = None \<and>
    unat (nbr_next_seqno (sixp_nbr_items s' ! n)) =
      (if code = SIXP_PKT_CMD_CLEAR then 0 else seqno_after (unat (nbr_next_seqno (sixp_nbr_items s ! n))) 1)"
proof -
  obtain i u where o: "sixp_output env SIXP_PKT_TYPE_REQUEST code sfid (Some b) blen a (Some g) arg arg_len s = do {
       s5 \<leftarrow> netstack_mac_send env (Some (mac_callback env)) (Some i) u;
       s6 \<leftarrow> output_done env code (Some n) i s5;
       Some (0, s6) }"
    and i: "i < length (transs s)" "i \<notin> set (trans_list s)" and tl: "trans_list u = trans_list s @ [i]"
    and tr: "\<exists>mode k. transs u = (transs s)[i := \<lparr>tr_sf = Some f, tr_peer_addr = a,
      tr_seqno = nbr_next_seqno (sixp_nbr_items s ! n), tr_cmd = code,
      tr_state = SIXP_TRANS_STATE_INIT, tr_mode = mode,
      tr_cb_func = Some g, tr_cb_arg = arg, tr_cb_arg_len = arg_len, tr_timer = Some (TIMER_TIMEOUT k)\<rparr>]"
    and it: "sixp_nbr_items u = sixp_nbr_items s"
    by (rule sixp_request_steps [OF wf nt nb sf free b])
  obtain u1 where m: "sx_mac_send env (Some i) u = Some (Some st, u1)" "sixp_frame u u1"
    "sixp_nbr_items u1 = sixp_nbr_items u"
    by (rule mac_send_status [OF env(3,1,2)])
  have u1: "trans_list u1 = trans_list s @ [i]" "transs u1 = transs u" "sixp_nbr_items u1 = sixp_nbr_items s"
    using m tl it by (simp_all add: sixp_frame_def trans_frame_def)
  obtain u2 where cb: "sx_sent_cb env g arg arg_len a SIXP_OUTPUT_STATUS_FAILURE u1 = Some u2" "sixp_frame u1 u2"
    using sent_cb_safe [OF env(1)] by blast
  have u2: "trans_list u2 = trans_list s @ [i]" "transs u2 = transs u" "sixp_nbr_items u2 = sixp_nbr_items s"
    using u1 cb env(2) by (simp_all add: sixp_frame_def trans_frame_def nbrs_kept_def)
  let ?u3 = "sixp_trans_set_callback (Some i) None 0 0 u2"
  have t1: "tr_state (transs u1 ! i) = SIXP_TRANS_STATE_INIT" "tr_cb_func (transs u1 ! i) = Some g"
    "tr_cb_arg (transs u1 ! i) = arg" "tr_cb_arg_len (transs u1 ! i) = arg_len" "tr_peer_addr (transs u1 ! i) = a"
    using tr i u1(2) by auto
  have mc: "mac_callback env (Some i) st u1 = Some ?u3"
    using st cb(1) t1 by (simp add: mac_callback_def sixp_trans_get_state_def mac_callback_new_state_def
        sixp_trans_invoke_callback_def Let_def)
  have u3: "transs ?u3 = (transs u)[i := (transs u ! i)\<lparr>tr_cb_func := None, tr_cb_arg := 0, tr_cb_arg_len := 0\<rparr>]"
    "trans_list ?u3 = trans_list s @ [i]" "sixp_nbr_items ?u3 = sixp_nbr_items s"
    by (simp_all add: set_callback_eq u2)
  have st': "i < length (transs ?u3)" "tr_state (transs ?u3 ! i) = SIXP_TRANS_STATE_INIT"
    using i tr u3(1) by auto
  from output_done_request [OF st', of env code n] obtain s' where
    d: "output_done env code (Some n) i ?u3 = Some s'"
      "transs s' = (transs ?u3)[i := (transs ?u3 ! i)\<lparr>tr_state := SIXP_TRANS_STATE_REQUEST_SENDING,
                                                tr_timer := Some TIMER_PROCESS\<rparr>]"
      "sixp_nbr_items s' = sixp_nbr_items (snd (if code = SIXP_PKT_CMD_CLEAR
        then sixp_nbr_reset_next_seqno (Some n) ?u3 else sixp_nbr_increment_next_seqno (Some n) ?u3))"
      "s' = ?u3\<lparr>transs := transs s', sixp_nbr_items := sixp_nbr_items s'\<rparr>" by blast
  have o': "sixp_output env SIXP_PKT_TYPE_REQUEST code sfid (Some b) blen a (Some g) arg arg_len s = Some (0, s')"
    using o m mc d(1) by (simp add: netstack_mac_send_def)
  have tl': "trans_list s' = trans_list s @ [i]" by (subst d(4)) (simp add: u3)
  have bo: "body_ok (Some b) blen" using b by (simp add: body_ok_def PACKETBUF_SIZE_def)
  have "sixp_wf s'"
    using sixp_output_safe [OF wf bo env(1), of SIXP_PKT_TYPE_REQUEST code sfid a "Some g" arg arg_len] o' by simp
  then have w': "trans_wf s'" by (simp add: sixp_wf_def)
  have f: "sixp_trans_find (Some a) s' = Some i"
    unfolding sixp_trans_find_iff [OF w'] using tl' d(2) st' tr i u3(1) by auto
  have nx: "unat (nbr_next_seqno (sixp_nbr_items s' ! n)) =
      (if code = SIXP_PKT_CMD_CLEAR then 0 else seqno_after (unat (nbr_next_seqno (sixp_nbr_items s ! n))) 1)"
    using output_done_nbr_items [OF _ d(3)] n u3(3) by simp
  have t: "tr_state (transs s' ! i) = SIXP_TRANS_STATE_REQUEST_SENDING" "tr_cb_func (transs s' ! i) = None"
    using d(2) tr i u3(1) by auto
  have e: "s' = u2\<lparr>transs := transs s', sixp_nbr_items := sixp_nbr_items s'\<rparr>"
    using d(4) by (simp add: set_callback_eq)
  show ?thesis
    by (intro exI [of _ i] exI [of _ u1] exI [of _ u2] exI [of _ s'] conjI) (rule o' cb(1) e f t nx)+
qed

subsection \<open>A message is received\<close>

text \<open>A received message as \<open>sixp_pkt_parse\<close> sees it: the buffer may go on behind it.\<close>

definition received_pkt :: "sixp_pkt_type \<Rightarrow> u8 \<Rightarrow> u8 \<Rightarrow> u8 \<Rightarrow> u8 list \<Rightarrow> u16 \<Rightarrow> sixp_pkt" where
  "received_pkt type code sfid seqno rest blen =
     \<lparr>pkt_version = 0, pkt_ptype = type, pkt_code = code, pkt_sfid = sfid, pkt_seqno = seqno,
      pkt_body = Some rest, pkt_body_len = blen\<rparr>"

lemma received_pkt_simps [simp]:
  "pkt_version (received_pkt type code sfid seqno rest blen) = 0"
  "pkt_ptype (received_pkt type code sfid seqno rest blen) = type"
  "pkt_code (received_pkt type code sfid seqno rest blen) = code"
  "pkt_sfid (received_pkt type code sfid seqno rest blen) = sfid"
  "pkt_seqno (received_pkt type code sfid seqno rest blen) = seqno"
  "pkt_body (received_pkt type code sfid seqno rest blen) = Some rest"
  "pkt_body_len (received_pkt type code sfid seqno rest blen) = blen"
  by (simp_all add: received_pkt_def)

lemma sixp_pkt_parse_received:
  assumes "unat blen + 4 < 2 ^ 16" and "sixp_pkt_body_ok type code blen"
  shows "sixp_pkt_parse (sixp_header type code sfid seqno @ rest) (4 + blen) =
    Some (0, received_pkt type code sfid seqno rest blen)"
proof -
  have "unat (4 + blen) = 4 + unat blen" using assms(1) by (simp add: unat_word_ariths)
  then have "\<not> 4 + blen < 4" by (simp add: word_less_nat_alt)
  moreover have "mem_read (sixp_header type code sfid seqno @ rest) 0 4 =
      Some (sixp_header type code sfid seqno)"
    by (simp add: mem_read_def)
  ultimately show ?thesis
    using assms(2) by (simp add: sixp_pkt_parse_def sixp_pkt_zero_def sixp_header_def Let_def received_pkt_def)
qed

lemma sixp_input_parsed:
  assumes "unat blen + 4 < 2 ^ 16" and "sixp_pkt_body_ok type code blen" and "type \<noteq> SIXP_PKT_TYPE_RESERVED"
  shows "sixp_input env sfi (Some (sixp_header type code sfid seqno @ rest)) (4 + blen) (Some a) s =
    (case sixtop_find_sf env sfid s of
       None \<Rightarrow> map_option snd (send_back_error env SIXP_PKT_TYPE_RESPONSE SIXP_PKT_RC_ERR_SFID
                 (received_pkt type code sfid seqno rest blen) a s)
     | Some f \<Rightarrow>
         if type = SIXP_PKT_TYPE_REQUEST
         then input_request env sfi f (received_pkt type code sfid seqno rest blen) a s
         else input_answer env sfi f (received_pkt type code sfid seqno rest blen) a s)"
  using sixp_pkt_parse_received [OF assms(1,2), of sfid seqno rest] assms(3)
  by (simp add: sixp_input_def split: option.split)


text \<open>A request that starts a transaction.\<close>

definition seqno_consistent :: "linkaddr \<Rightarrow> u8 \<Rightarrow> u8 \<Rightarrow> 'a sixp_state_scheme \<Rightarrow> bool" where
  "seqno_consistent a code seqno s \<longleftrightarrow> code = SIXP_PKT_CMD_CLEAR \<or>
     (case sixp_nbr_find (Some a) s of
        None \<Rightarrow> seqno = 0
      | Some n \<Rightarrow> seqno \<noteq> 0 \<or> nbr_next_seqno (sixp_nbr_items s ! n) = 0)"

lemma input_request_new:
  assumes wf: "sixp_wf s" and env: "sixp_env_ok env"
    and nt: "sixp_trans_find (Some a) s = None" and sf: "sixtop_find_sf env sfid s = Some f"
    and free: "0 < memb_numfree (trans_memb s)" and cons: "seqno_consistent a code seqno s"
    and pkt: "pkt = received_pkt SIXP_PKT_TYPE_REQUEST code sfid seqno rest blen"
  obtains i s1 where "input_request env sfi f pkt a s =
      (case sfi f of None \<Rightarrow> Some s1 | Some inp \<Rightarrow> inp SIXP_PKT_TYPE_REQUEST code (Some rest) blen a s1)"
    and "sixp_wf s1" and "sixp_trans_find (Some a) s1 = Some i"
    and "tr_state (transs s1 ! i) = SIXP_TRANS_STATE_REQUEST_RECEIVED"
    and "tr_seqno (transs s1 ! i) = seqno" and "tr_cmd (transs s1 ! i) = code"
    and "trans_list s1 = trans_list s @ [i]" and "\<forall>j. j \<noteq> i \<longrightarrow> transs s1 ! j = transs s ! j"
proof -
  define s0 where "s0 = (if pkt_code pkt = SIXP_PKT_CMD_CLEAR \<and> sixp_nbr_find (Some a) s \<noteq> None
      then snd (sixp_nbr_reset_next_seqno (sixp_nbr_find (Some a) s) s) else s)"
  have f0: "sixp_frame s s0" by (simp add: s0_def)
  have w0: "sixp_wf s0" by (rule sixp_wf_frame [OF f0 wf])
  have same: "trans_memb s0 = trans_memb s" "transs s0 = transs s" "trans_list s0 = trans_list s"
    "scheduling_functions s0 = scheduling_functions s" using f0 by (simp_all add: sixp_frame_def trans_frame_def)
  have w0': "trans_wf s0" using w0 by (simp add: sixp_wf_def)
  obtain i m where al: "memb_alloc (trans_memb s0) = (Some i, m)"
    using free memb.alloc_succeeds_iff [of "trans_memb s"] by (auto simp: same)
  let ?N = "sf_timeout_interval (sx_sf env f)"
  let ?s2 = "s0\<lparr>trans_memb := m, transs := (transs s0)[i := fresh_trans f ?N pkt a], trans_list := trans_list s0 @ [i]\<rparr>"
  have new: "i \<notin> set (trans_list s0)" "sixp_trans_alloc env (Some pkt) (Some a) s0 = Some (Some i, ?s2)"
    using trans_alloc_new(1,2) [OF w0' _ _ al, of env pkt f a] sf nt pkt
    by (simp_all add: sixtop_find_sf_cong [OF same(4)] sixp_trans_find_cong [OF same(3,2)] received_pkt_def)
  have i: "i < length (transs s)" using memb.alloc_fresh [OF al] w0' by (simp add: trans_wf_def same)
  have w2: "sixp_wf ?s2" using alloc_safe [OF w0, of env pkt a] new(2) by auto
  have i2: "i \<in> set (trans_list ?s2)" by simp
  have t2: "transs ?s2 ! i = fresh_trans f ?N pkt a" using i by (simp add: same)
  have ok: "transit_ok m SIXP_TRANS_STATE_INIT SIXP_TRANS_STATE_REQUEST_RECEIVED" for m by (simp add: transit_ok_def)
  obtain r s1 where t: "sixp_trans_transit_state env (Some i) SIXP_TRANS_STATE_REQUEST_RECEIVED ?s2 = Some (r, s1)"
    "sixp_wf s1" "trans_list s1 = trans_list ?s2" and r: "r = 0"
    and tr: "transs s1 = (transs ?s2)[i := (transs ?s2 ! i)\<lparr>tr_state := SIXP_TRANS_STATE_REQUEST_RECEIVED,
        tr_timer := Some TIMER_PROCESS\<rparr>]"
    using transit_safe [OF w2 i2 env, of SIXP_TRANS_STATE_REQUEST_RECEIVED] ok t2 by (auto simp: fresh_trans_def)
  have nf: "sixp_nbr_find (Some a) ?s2 = sixp_nbr_find (Some a) s"
    by (simp add: s0_def sixp_nbr_find_def nbr_table_get_from_lladdr_def index_from_lladdr_def
        sixp_nbr_reset_next_seqno_def upd_sixp_nbr_def split: option.split)
  have c: "\<not> (pkt_code pkt \<noteq> SIXP_PKT_CMD_CLEAR \<and>
       ((sixp_nbr_find (Some a) ?s2 = None \<and> pkt_seqno pkt \<noteq> 0) \<or>
        (sixp_nbr_find (Some a) ?s2 \<noteq> None \<and>
         sixp_nbr_get_next_seqno (sixp_nbr_find (Some a) ?s2) ?s2 \<noteq> 0 \<and> pkt_seqno pkt = 0)))"
    unfolding nf using cons
    by (auto simp: seqno_consistent_def pkt received_pkt_def s0_def sixp_nbr_get_next_seqno_def split: option.splits)
  have p: "pkt_ptype pkt = SIXP_PKT_TYPE_REQUEST" "pkt_code pkt = code" "pkt_body pkt = Some rest"
    "pkt_body_len pkt = blen" "pkt_seqno pkt = seqno" by (simp_all add: pkt received_pkt_def)
  have e: "input_request env sfi f pkt a s = input_deliver env sfi f i pkt SIXP_TRANS_STATE_REQUEST_RECEIVED a ?s2"
    unfolding input_request_def Let_def s0_def [symmetric] nt
    by (simp only: new(2) c bind.simps prod.case option.case if_False simp_thms)
  have w1: "trans_wf s1" using t(2) by (simp add: sixp_wf_def)
  have f: "sixp_trans_find (Some a) s1 = Some i"
    unfolding sixp_trans_find_iff [OF w1] using t(3) tr i by (simp add: same fresh_trans_def)
  show ?thesis
    by (rule that [OF _ t(2) f]) (use e t r tr i same p in \<open>auto simp: input_deliver_def fresh_trans_def split: option.split\<close>)
qed

lemma send_back_error_reply:
  assumes wf: "sixp_wf s"
    and rc: "rc = SIXP_PKT_RC_ERR_VERSION \<or> rc = SIXP_PKT_RC_ERR_SFID \<or> rc = SIXP_PKT_RC_ERR_BUSY"
  shows "\<exists>u. map_option snd (send_back_error env SIXP_PKT_TYPE_RESPONSE rc pkt a s) =
      map_option snd (sx_mac_send env None u) \<and>
    packetbuf_content u = sixtop_frame (sixp_header SIXP_PKT_TYPE_RESPONSE rc (pkt_sfid pkt) (pkt_seqno pkt)) \<and>
    packetbuf_addr PACKETBUF_ADDR_RECEIVER u = a \<and> trans_frame s u"
proof -
  have l: "length (pb_mem s) = PACKETBUF_SIZE" using wf by (simp add: sixp_wf_def)
  obtain p s1 where c: "sixp_pkt_create SIXP_PKT_TYPE_RESPONSE rc (pkt_sfid pkt) (pkt_seqno pkt) None 0 None s = Some (0, p, s1)"
    and pb: "packetbuf_wf s1"
    and k: "packetbuf_content s1 = sixp_header SIXP_PKT_TYPE_RESPONSE rc (pkt_sfid pkt) (pkt_seqno pkt)"
    by (rule sixp_pkt_create_empty [OF l])
  have u: "packetbuf_used s1 \<le> 123" using length_content [OF pb] by (simp add: k)
  obtain m h where out: "sixtop_output env (Some a) None None s1 = do {
      s2 \<leftarrow> netstack_mac_send env None None (tag_6p (sx_node_addr env) a (s1\<lparr>pb_mem := m, pb_hdrlen := h\<rparr>));
      Some (0, s2) }"
    and c1: "packetbuf_content (s1\<lparr>pb_mem := m, pb_hdrlen := h\<rparr>) = sixtop_frame (packetbuf_content s1)"
    by (rule sixtop_output_steps [OF pb u])
  let ?u = "tag_6p (sx_node_addr env) a (s1\<lparr>pb_mem := m, pb_hdrlen := h\<rparr>)"
  have "trans_frame s1 ?u" by (simp add: trans_frame_def tag_6p_def packetbuf_set_addr_def packetbuf_set_attr_def)
  then have f: "trans_frame s ?u" using trans_frame_pb [OF pb_frame_create [OF c]] by (simp add: trans_frame_def)
  have "map_option snd (send_back_error env SIXP_PKT_TYPE_RESPONSE rc pkt a s) =
      map_option snd (sx_mac_send env None ?u)"
    using rc c out
    by (cases "sx_mac_send env None ?u") (auto simp: send_back_error_def Let_def netstack_mac_send_def)
  with f show ?thesis by (intro exI [of _ ?u]) (simp add: c1 k)
qed

text \<open>
  Refused requests.  A request for an unknown scheduling function is answered with ERR_SFID; one
  from a peer with a transaction under way, or for which there is no free transaction, with
  ERR_BUSY.  Either way the answer is one frame to the sender, made of the information elements
  and a response header with the request's SFID and sequence number; the transactions stay as
  they are and no driver hears of the request.
\<close>

theorem sixp_request_refused:
  assumes wf: "sixp_wf s" and b: "unat blen + 4 < 2 ^ 16" "sixp_pkt_body_ok SIXP_PKT_TYPE_REQUEST code blen"
    and why: "rc = SIXP_PKT_RC_ERR_SFID \<and> sixtop_find_sf env sfid s = None \<or>
      rc = SIXP_PKT_RC_ERR_BUSY \<and> sixtop_find_sf env sfid s \<noteq> None \<and>
        (case sixp_trans_find (Some a) s of
           Some i \<Rightarrow> code = SIXP_PKT_CMD_CLEAR \<or> (seqno = 0 \<longleftrightarrow> tr_seqno (transs s ! i) = 0)
         | None \<Rightarrow> memb_numfree (trans_memb s) = 0)"
  shows "\<exists>u. sixp_input env sfi (Some (sixp_header SIXP_PKT_TYPE_REQUEST code sfid seqno @ rest)) (4 + blen) (Some a) s =
      map_option snd (sx_mac_send env None u) \<and>
    packetbuf_content u = sixtop_frame (sixp_header SIXP_PKT_TYPE_RESPONSE rc sfid seqno) \<and>
    packetbuf_addr PACKETBUF_ADDR_RECEIVER u = a \<and> trans_frame s u"
proof -
  let ?p = "received_pkt SIXP_PKT_TYPE_REQUEST code sfid seqno rest blen"
  note inp = sixp_input_parsed [OF b, of env sfi sfid seqno rest a s]
  define s0 where "s0 = (if code = SIXP_PKT_CMD_CLEAR \<and> sixp_nbr_find (Some a) s \<noteq> None
      then snd (sixp_nbr_reset_next_seqno (sixp_nbr_find (Some a) s) s) else s)"
  have f0: "sixp_frame s s0" by (simp add: s0_def)
  have w0: "sixp_wf s0" by (rule sixp_wf_frame [OF f0 wf])
  have "\<exists>s1. sixp_wf s1 \<and> trans_frame s s1 \<and> sixp_input env sfi
      (Some (sixp_header SIXP_PKT_TYPE_REQUEST code sfid seqno @ rest)) (4 + blen) (Some a) s =
      map_option snd (send_back_error env SIXP_PKT_TYPE_RESPONSE rc ?p a s1)"
  proof (cases "sixtop_find_sf env sfid s")
    case None
    then show ?thesis using why wf inp by (intro exI [of _ s]) simp
  next
    case (Some f)
    show ?thesis
    proof (cases "sixp_trans_find (Some a) s")
      case None
      with why Some have z: "memb_numfree (trans_memb s0) = 0" "rc = SIXP_PKT_RC_ERR_BUSY"
        using f0 by (simp_all add: sixp_frame_def trans_frame_def)
      have "sixp_trans_alloc env (Some ?p) (Some a) s0 = Some (None, s0)"
        by (rule trans_alloc_refused) (simp add: z)
      then have "input_request env sfi f ?p a s =
          map_option snd (send_back_error env SIXP_PKT_TYPE_RESPONSE SIXP_PKT_RC_ERR_BUSY ?p a s0)"
        using None by (simp add: input_request_def Let_def s0_def split del: if_split)
      then show ?thesis using Some inp z(2) w0 f0 by (intro exI [of _ s0]) (simp add: sixp_frame_def)
    next
      case i: (Some i)
      have "uint (tr_seqno (transs s ! i)) = 0 \<longleftrightarrow> tr_seqno (transs s ! i) = 0"
        by (simp add: word_uint_eq_iff)
      with i why Some inp have "rc = SIXP_PKT_RC_ERR_BUSY" "input_request env sfi f ?p a s =
          map_option snd (send_back_error env SIXP_PKT_TYPE_RESPONSE SIXP_PKT_RC_ERR_BUSY ?p a s)"
        by (auto simp: input_request_def Let_def sixp_trans_get_seqno_def)
      then show ?thesis using Some inp wf by (intro exI [of _ s]) simp
    qed
  qed
  then obtain s1 where s1: "sixp_wf s1" "trans_frame s s1" "sixp_input env sfi
      (Some (sixp_header SIXP_PKT_TYPE_REQUEST code sfid seqno @ rest)) (4 + blen) (Some a) s =
      map_option snd (send_back_error env SIXP_PKT_TYPE_RESPONSE rc ?p a s1)" by blast
  have rc: "rc = SIXP_PKT_RC_ERR_VERSION \<or> rc = SIXP_PKT_RC_ERR_SFID \<or> rc = SIXP_PKT_RC_ERR_BUSY"
    using why by auto
  from send_back_error_reply [OF s1(1) rc, of env ?p a] s1(2,3) show ?thesis
    by (auto simp: trans_frame_def)
qed

subsection \<open>Safety of runs\<close>


lemma timeout_frees_block:
  assumes wf: "sixp_wf s" and env: "sixp_env_ok env" and i: "i \<in> set (trans_list s)"
    and t: "tr_timer (transs s ! i) = Some (TIMER_TIMEOUT k)"
  shows "\<exists>s2. trans_timer_expire_n env i 2 s = Some s2 \<and> i \<notin> memb_blocks (trans_memb s2)"
proof -
  note h = sixp_env_ok_handlers [OF env]
  have w: "trans_wf s" using wf by (simp add: sixp_wf_def)
  have b: "i < length (transs s)" by (rule trans_wf_bound [OF w i])
  from trans_timer_expire_spec [OF w i h] obtain s1 n where
    s1: "trans_timer_expire env i s = Some s1" "trans_wf s1" "trans_list s1 = trans_list s"
      "transs s1 = (transs s)[i := (transs s ! i)\<lparr>tr_state := SIXP_TRANS_STATE_TERMINATING, tr_timer := Some TIMER_PROCESS\<rparr>]"
    by (auto simp: after_expiry_def t)
  have i1: "i \<in> set (trans_list s1)" using i s1 by simp
  from trans_timer_expire_spec [OF s1(2) i1 h] obtain s2 n2 where
    "trans_timer_expire env i s1 = Some s2" "memb_blocks (trans_memb s2) = memb_blocks (trans_memb s1) - {i}"
    using s1(4) b by (auto simp: after_expiry_def)
  with s1(1) show ?thesis by (simp add: numeral_2_eq_2)
qed


subsection \<open>Witnesses\<close>

lemma sixp_env_silent_safe: "sixp_env_ok sixp_env_silent"
  by (simp add: sixp_env_ok_def sixp_env_silent_def silent_sf_def queue_env_default_def nbr_env_default_def)

lemma sixp_env_silent_nbrs: "nbrs_kept sixp_env_silent" "mac_status sixp_env_silent None"
  by (simp_all add: nbrs_kept_def mac_status_def sixp_env_silent_def)

text \<open>A node that knows the neighbour 7 and has no transaction, and one with a transaction.\<close>

definition sixp_idle :: sixp_state where
  "sixp_idle = (sixp_buf_example 0)\<lparr>trans_memb := [False], transs := [sixp_trans_zero], trans_list := []\<rparr>"

definition sixp_busy :: sixp_state where
  "sixp_busy = sixp_buf_example 0"

lemma sixp_idle_fields [simp]:
  "trans_memb sixp_idle = [False]" "transs sixp_idle = [sixp_trans_zero]" "trans_list sixp_idle = []"
  "scheduling_functions sixp_idle = [Some 0]" "length (pb_mem sixp_idle) = 128"
  by (simp_all add: sixp_idle_def sixp_buf_example_def)

lemma sixp_busy_fields [simp]:
  "trans_memb sixp_busy = [True]" "transs sixp_busy = [sixp_trans_example]" "trans_list sixp_busy = [0]"
  "scheduling_functions sixp_busy = [Some 0]" "length (pb_mem sixp_busy) = 128"
  by (simp_all add: sixp_busy_def sixp_buf_example_def)

lemma sixp_idle_wf: "sixp_wf sixp_idle"
  by (auto simp: sixp_wf_def trans_wf_def memb_blocks_def PACKETBUF_SIZE_def nth_Cons split: nat.splits)

lemma sixp_busy_wf: "sixp_wf sixp_busy"
  by (simp add: sixp_wf_def trans_wf_def memb_blocks_def PACKETBUF_SIZE_def live_trans_ok_def
      sixp_trans_example_def less_Suc_eq Collect_conv_if)

lemma sixp_idle_nbr:
  "sixp_nbr_find (Some 7) sixp_idle = Some 0" "0 < length (sixp_nbr_items sixp_idle)"
  "nbr_next_seqno (sixp_nbr_items sixp_idle ! 0) = 254"
  by (simp_all add: sixp_nbr_find_def nbr_table_get_from_lladdr_def index_from_lladdr_def nbr_get_bit_def
      sixp_nbrs_def sixp_idle_def sixp_buf_example_def sixp_example_def sixp_nbr_state.extend_def
      sixp_nbr_example_def tsch_sched_state.extend_def sched_example_def tsch_queue_state.extend_def tsch_example_def)

lemma sixp_idle_sf:
  "sixtop_find_sf sixp_env_silent 0xf0 sixp_idle = Some 0" "sixp_trans_find (Some 7) sixp_idle = None"
  "0 < memb_numfree (trans_memb sixp_idle)"
  by (simp_all add: sixtop_find_sf_def sixp_env_silent_def silent_sf_def sixp_trans_find_def)

theorem sixp_request_sent_witness:
  "\<exists>i (u :: sixp_state) u1 s'. sixp_output sixp_env_silent SIXP_PKT_TYPE_REQUEST SIXP_PKT_CMD_ADD 0xf0
      (Some [0, 0, 1, 1, 3, 0, 2, 0]) 8 7 (Some 5) 0 0 sixp_idle = Some (0, s') \<and>
    sx_mac_send sixp_env_silent (Some i) u = Some (None, u1) \<and>
    packetbuf_content u = sixtop_frame (sixp_header SIXP_PKT_TYPE_REQUEST SIXP_PKT_CMD_ADD 0xf0 254 @
      [0, 0, 1, 1, 3, 0, 2, 0]) \<and>
    tr_state (transs s' ! i) = SIXP_TRANS_STATE_REQUEST_SENDING \<and>
    unat (nbr_next_seqno (sixp_nbr_items s' ! 0)) = 255"
proof -
  have b: "0 < (8 :: u16)" "unat (8 :: u16) \<le> length [0, 0, 1, 1, 3, 0, 2, 0 :: u8]" "unat (8 :: u16) \<le> 119" by simp_all
  have tk: "take (unat (8 :: u16)) [0, 0, 1, 1, 3, 0, 2, 0 :: u8] = [0, 0, 1, 1, 3, 0, 2, 0]" by simp
  have sq: "(if SIXP_PKT_CMD_ADD = SIXP_PKT_CMD_CLEAR then 0 else seqno_after (unat (254 :: u8)) 1) = 255"
    by (simp add: seqno_after_def)
  from sixp_request_sent [OF sixp_idle_wf sixp_env_silent_safe sixp_env_silent_nbrs sixp_idle_sf(2)
      sixp_idle_nbr(1,2) sixp_idle_sf(1,3) b, of SIXP_PKT_CMD_ADD "Some 5" 0 0, unfolded tk sixp_idle_nbr(3) sq]
  show ?thesis by (elim exE conjE) (intro exI conjI, assumption+)
qed

definition failing_env :: "sixp_state sixp_env" where
  "failing_env = sixp_env_silent\<lparr>sx_mac_send := \<lambda>_ s. Some (Some MAC_TX_ERR, s)\<rparr>"

theorem sixp_request_failed_at_once_witness:
  "\<exists>i s'. sixp_output failing_env SIXP_PKT_TYPE_REQUEST SIXP_PKT_CMD_ADD 0xf0
      (Some [0, 0, 1, 1, 3, 0, 2, 0]) 8 7 (Some 5) 0 0 sixp_idle = Some (0, s') \<and>
    sixp_trans_find (Some 7) s' = Some i \<and>
    tr_state (transs s' ! i) = SIXP_TRANS_STATE_REQUEST_SENDING \<and> tr_cb_func (transs s' ! i) = None"
proof -
  have b: "0 < (8 :: u16)" "unat (8 :: u16) \<le> length [0, 0, 1, 1, 3, 0, 2, 0 :: u8]" "unat (8 :: u16) \<le> 119" by simp_all
  have e: "sixp_env_ok failing_env" "nbrs_kept failing_env" "mac_status failing_env (Some MAC_TX_ERR)"
    by (simp_all add: sixp_env_ok_def nbrs_kept_def mac_status_def failing_env_def sixp_env_silent_def silent_sf_def
        queue_env_default_def nbr_env_default_def)
  have sf: "sixtop_find_sf failing_env 0xf0 sixp_idle = Some 0"
    by (simp add: sixtop_find_sf_def failing_env_def sixp_env_silent_def silent_sf_def)
  have st: "MAC_TX_ERR \<noteq> MAC_TX_OK" by (simp add: MAC_TX_ERR_def MAC_TX_OK_def)
  from sixp_request_failed_at_once [OF sixp_idle_wf e st sixp_idle_sf(2) sixp_idle_nbr(1,2) sf sixp_idle_sf(3) b,
      of SIXP_PKT_CMD_ADD 5 0 0]
  show ?thesis by (elim exE) blast
qed


theorem sixp_request_refused_witness:
  "\<exists>u. sixp_input sixp_env_silent (\<lambda>_. None)
      (Some (sixp_header SIXP_PKT_TYPE_REQUEST SIXP_PKT_CMD_CLEAR 0xf0 9 @ [0, 0])) (4 + 2) (Some 7) sixp_busy = Some u \<and>
    packetbuf_content u = sixtop_frame [0x10, 8, 0xf0, 9] \<and> trans_list u = [0]"
proof -
  have b: "unat (2 :: u16) + 4 < 2 ^ 16" "sixp_pkt_body_ok SIXP_PKT_TYPE_REQUEST SIXP_PKT_CMD_CLEAR 2"
    by (simp_all add: sixp_pkt_body_ok_def)
  have sf: "sixtop_find_sf sixp_env_silent 0xf0 sixp_busy = Some 0"
    by (simp add: sixtop_find_sf_def sixp_env_silent_def silent_sf_def)
  have t: "sixp_trans_find (Some 7) sixp_busy = Some 0" by (simp add: sixp_trans_find_def sixp_trans_example_def)
  have why: "SIXP_PKT_RC_ERR_BUSY = SIXP_PKT_RC_ERR_SFID \<and> sixtop_find_sf sixp_env_silent 0xf0 sixp_busy = None \<or>
      SIXP_PKT_RC_ERR_BUSY = SIXP_PKT_RC_ERR_BUSY \<and> sixtop_find_sf sixp_env_silent 0xf0 sixp_busy \<noteq> None \<and>
        (case sixp_trans_find (Some 7) sixp_busy of
           Some i \<Rightarrow> SIXP_PKT_CMD_CLEAR = SIXP_PKT_CMD_CLEAR \<or> ((9 :: u8) = 0 \<longleftrightarrow> tr_seqno (transs sixp_busy ! i) = 0)
         | None \<Rightarrow> memb_numfree (trans_memb sixp_busy) = 0)"
    by (simp add: sf t)
  from sixp_request_refused [OF sixp_busy_wf b why, of "\<lambda>_. None" "[0, 0]"]
  show ?thesis by (auto simp: sixp_env_silent_def sixp_header_def trans_frame_def)
qed



end
