(* ===== verification/Cell_Alloc.thy ===== *)
theory Cell_Alloc
  imports Sixp
begin

section \<open>Candidate cells and the black list\<close>

text \<open>
  Model of \<open>examples/ba_benjamin_ko/advanced_cell_alloc.c\<close> and of the table in
  \<open>network_interference_cells.c\<close>: the nine candidate cells that the scheduling function offers,
  the ring of the five cells found to be interfered with last, and the replacement of a candidate
  by a random cell that is neither scheduled nor black-listed.  The file-scope variables extend
  the state of 6P.  A loop that draws random numbers until one fits is a
  \<open>partial_function\<close>: \<open>None\<close> is both an access outside an array and a loop that never ends.
  The random timeslot of \<open>replace_candidate_cell\<close> is below 101, so its \<open>int8_t\<close> holds it and it
  is kept as the 16-bit word that the comparisons convert it to.
\<close>

record sf_simple_cell =
  timeslot_offset :: u16
  channel_offset :: u16

record circular_buffer =
  cb_buffer :: "sf_simple_cell list"
  cb_head :: nat
  cb_tail :: nat
  cb_count :: nat

record alloc_state = sixp_state +
  candidate_cell_list :: "sf_simple_cell list"
  blacklist :: circular_buffer

definition SF_SIMPLE_MAX_LINKS :: nat where "SF_SIMPLE_MAX_LINKS = 4"
definition NUMBER_OF_CHANNELS :: u16 where "NUMBER_OF_CHANNELS = 4"
definition CAND_CELL_LIST_LEN :: nat where "CAND_CELL_LIST_LEN = 9"
definition BLACKLIST_MAX_SIZE :: nat where "BLACKLIST_MAX_SIZE = 5"

definition network_interfere_cells :: "sf_simple_cell list" where
  "network_interfere_cells = map (\<lambda>(t, c). \<lparr>timeslot_offset = t, channel_offset = c\<rparr>)
     [
      (2, 3), (4, 1), (7, 3), (8, 1), (9, 1), (12, 1), (15, 2), (16, 2),
      (25, 2), (26, 2), (27, 0), (28, 2), (29, 0), (32, 1), (33, 2), (39, 2),
      (42, 2), (43, 2), (49, 1), (52, 2), (53, 0), (55, 2), (56, 2), (58, 1),
      (63, 3), (67, 2), (68, 1), (69, 2), (70, 3), (72, 1), (74, 0), (77, 1),
      (86, 0), (87, 0), (91, 3), (96, 0), (98, 1), (99, 2), (100, 2), (101, 0)]"

subsection \<open>The ring of black-listed cells\<close>

definition init_buffer :: "circular_buffer \<Rightarrow> circular_buffer" where
  "init_buffer cb = cb\<lparr>cb_head := 0, cb_tail := 0, cb_count := 0\<rparr>"

definition push :: "circular_buffer \<Rightarrow> sf_simple_cell \<Rightarrow> circular_buffer ub" where
  "push cb cell =
     (let cb1 = (if cb_count cb = BLACKLIST_MAX_SIZE
                 then cb\<lparr>cb_head := (cb_head cb + 1) mod BLACKLIST_MAX_SIZE\<rparr>
                 else cb\<lparr>cb_count := cb_count cb + 1\<rparr>)
      in if cb_tail cb1 < length (cb_buffer cb1)
         then Some (cb1\<lparr>cb_buffer := (cb_buffer cb1)[cb_tail cb1 := cell],
                        cb_tail := (cb_tail cb1 + 1) mod BLACKLIST_MAX_SIZE\<rparr>)
         else None)"

subsection \<open>The candidate cells\<close>

text \<open>The loop that compares a drawn slot with the cells chosen before; it yields \<open>slot_check\<close>.\<close>

function slot_check_loop :: "sf_simple_cell list \<Rightarrow> nat \<Rightarrow> u16 \<Rightarrow> u8 \<Rightarrow> nat \<Rightarrow> u8" where
  "slot_check_loop cells index random_slot slot_check i =
     (if i < index
      then if timeslot_offset (cells ! i) \<noteq> random_slot
           then if i = index - 1 then 1
                else slot_check_loop cells index random_slot slot_check (Suc i)
           else slot_check + 1
      else slot_check)"
  by pat_completeness auto
termination by (relation "measure (\<lambda>(_, index, _, _, i). index - i)") auto

declare slot_check_loop.simps [simp del]

text \<open>A random slot other than that of the minimal cell, and a random channel.\<close>

definition draw_cell :: "'a tsch_queue_state_scheme \<Rightarrow> (u16 \<times> u16) \<times> 'a tsch_queue_state_scheme" where
  "draw_cell s =
     (let (r1, s1) = random_rand s;
          (r2, s2) = random_rand s1;
          slot = (r1 AND 0xFF) mod TSCH_SCHEDULE_DEFAULT_LENGTH;
          channel = (r2 AND 0xFF) mod NUMBER_OF_CHANNELS
      in ((if slot = 0 then slot + 1 else slot, channel), s2))"

partial_function (option) init_cand_cell_loop ::
  "sf_simple_cell list \<Rightarrow> nat \<Rightarrow> u8 \<Rightarrow> 'a tsch_queue_state_scheme \<Rightarrow>
   (sf_simple_cell list \<times> 'a tsch_queue_state_scheme) option" where
  "init_cand_cell_loop cells index slot_check s =
     (let ((random_slot, random_channel), s1) = draw_cell s;
          sc = slot_check_loop cells index random_slot slot_check 0
      in if sc = 1
         then if length cells \<le> index then None
              else let cells1 = cells[index := \<lparr>timeslot_offset = random_slot,
                                                channel_offset = random_channel\<rparr>]
              in if index + 1 < CAND_CELL_LIST_LEN
                 then init_cand_cell_loop cells1 (index + 1) (sc + 1) s1
                 else Some (cells1, s1)
         else if TSCH_SCHEDULE_DEFAULT_LENGTH < ucast sc then Some (cells, s1)
         else if index < CAND_CELL_LIST_LEN then init_cand_cell_loop cells index sc s1
         else Some (cells, s1))"

definition init_cand_cell_list ::
  "sf_simple_cell list \<Rightarrow> 'a tsch_queue_state_scheme \<Rightarrow>
   (sf_simple_cell list \<times> 'a tsch_queue_state_scheme) ub" where
  "init_cand_cell_list cells s = init_cand_cell_loop cells 0 1 s"

definition init_advanced_cell_alloc :: "'a alloc_state_scheme \<Rightarrow> 'a alloc_state_scheme ub" where
  "init_advanced_cell_alloc s = do {
     (cells, s1) \<leftarrow> init_cand_cell_list (candidate_cell_list s) s;
     Some (s1\<lparr>candidate_cell_list := cells, blacklist := init_buffer (blacklist s1)\<rparr>)
   }"

definition get_candidate_add :: "'a alloc_state_scheme \<Rightarrow> sf_simple_cell list ub" where
  "get_candidate_add s = mem_read (candidate_cell_list s) 0 SF_SIMPLE_MAX_LINKS"

subsection \<open>Replacing a candidate\<close>

text \<open>
  The loop over the black list: does it reach the last entry without meeting the drawn cell?  The
  ring is read from \<open>head\<close> upwards without wrapping.
\<close>

function blacklist_scan :: "circular_buffer \<Rightarrow> u16 \<Rightarrow> u16 \<Rightarrow> nat \<Rightarrow> bool ub" where
  "blacklist_scan cb slot channel a =
     (if a < cb_count cb
      then if cb_head cb + a < length (cb_buffer cb)
           then let c = cb_buffer cb ! (cb_head cb + a)
                in if slot = timeslot_offset c \<and> channel = channel_offset c then Some False
                   else if a = cb_count cb - 1 then Some True
                   else blacklist_scan cb slot channel (Suc a)
           else None
      else Some False)"
  by pat_completeness auto
termination by (relation "measure (\<lambda>(cb, _, _, a). cb_count cb - a)") auto

declare blacklist_scan.simps [simp del]

text \<open>One round of the loop: the value of \<open>found_valid_slot\<close> at its end, and the state.\<close>

definition replace_round :: "nat option \<Rightarrow> nat \<Rightarrow> 'a alloc_state_scheme \<Rightarrow> (nat \<times> 'a alloc_state_scheme) ub" where
  "replace_round sf i s =
     (let ((slot, channel), s1) = draw_cell s
      in if tsch_schedule_get_link_by_timeslot sf slot s1 \<noteq> None then Some (0, s1)
         else let found = (if list_all (\<lambda>c. timeslot_offset c \<noteq> slot) (candidate_cell_list s1) then 1 else 0)
              in do {
                end_reached \<leftarrow> blacklist_scan (blacklist s1) slot channel 0;
                Some (if end_reached
                      then (found + 1,
                        s1\<lparr>candidate_cell_list := (candidate_cell_list s1)
                             [i := \<lparr>timeslot_offset = slot, channel_offset = channel\<rparr>]\<rparr>)
                      else (found, s1))
              })"

partial_function (option) replace_loop :: "nat option \<Rightarrow> nat \<Rightarrow> 'a alloc_state_scheme \<Rightarrow> 'a alloc_state_scheme option" where
  "replace_loop sf i s = do {
     (found_valid_slot, s1) \<leftarrow> replace_round sf i s;
     (if found_valid_slot \<noteq> 2 then replace_loop sf i s1 else Some s1)
   }"

definition replace_candidate_cell :: "u16 \<Rightarrow> 'a alloc_state_scheme \<Rightarrow> 'a alloc_state_scheme ub" where
  "replace_candidate_cell timeslot s =
     (let sf = tsch_schedule_get_slotframe_by_handle 0 s
      in case find (\<lambda>i. timeslot_offset (candidate_cell_list s ! i) = timeslot) [0..<CAND_CELL_LIST_LEN] of
           None \<Rightarrow> Some s
         | Some i \<Rightarrow> replace_loop sf i s)"

subsection \<open>Evaluating the interference\<close>

text \<open>
  One candidate against the rest of the table of interfered cells, then all candidates.  The code
  also replaces the candidate behind the interfered one, which is outside the list for the last.
\<close>

definition update_cell ::
  "nat \<Rightarrow> sf_simple_cell \<Rightarrow> u8 \<times> 'a alloc_state_scheme \<Rightarrow> (u8 \<times> 'a alloc_state_scheme) ub" where
  "update_cell i bad = (\<lambda>(ret, s).
     if timeslot_offset (candidate_cell_list s ! i) = timeslot_offset bad \<and>
        channel_offset (candidate_cell_list s ! i) = channel_offset bad
     then do {
       bl \<leftarrow> push (blacklist s) (candidate_cell_list s ! i);
       s1 \<leftarrow> replace_candidate_cell (timeslot_offset (candidate_cell_list s ! i)) (s\<lparr>blacklist := bl\<rparr>);
       s2 \<leftarrow> (if i + 1 < length (candidate_cell_list s1)
              then replace_candidate_cell (timeslot_offset (candidate_cell_list s1 ! (i + 1))) s1
              else None);
       Some (1, s2)
     }
     else Some (ret, s))"

primrec update_row ::
  "nat \<Rightarrow> sf_simple_cell list \<Rightarrow> u8 \<times> 'a alloc_state_scheme \<Rightarrow> (u8 \<times> 'a alloc_state_scheme) ub" where
  "update_row i [] rs = Some rs"
| "update_row i (bad # bads) rs = do { rs1 \<leftarrow> update_cell i bad rs; update_row i bads rs1 }"

primrec update_rows ::
  "nat list \<Rightarrow> u8 \<times> 'a alloc_state_scheme \<Rightarrow> (u8 \<times> 'a alloc_state_scheme) ub" where
  "update_rows [] rs = Some rs"
| "update_rows (i # is) rs = do { rs1 \<leftarrow> update_row i network_interfere_cells rs; update_rows is rs1 }"

definition update_cand_cell_list :: "'a alloc_state_scheme \<Rightarrow> (u8 \<times> 'a alloc_state_scheme) ub" where
  "update_cand_cell_list s = update_rows [0..<CAND_CELL_LIST_LEN] (0, s)"

subsection \<open>The black list keeps the last five cells\<close>

text \<open>
  An interface of bounded logs: a log holds the last \<open>cap\<close> entries.  What a client may conclude
  after any number of insertions is proved once here.
\<close>

definition last_n :: "nat \<Rightarrow> 'a list \<Rightarrow> 'a list" where
  "last_n n xs = drop (length xs - n) xs"

lemma last_n_last_n: "last_n n (last_n n xs @ ys) = last_n n (xs @ ys)"
proof (cases "n \<le> length xs")
  case True
  then have "length xs + length ys - (length xs - n + n) + (length xs - n) = length xs + length ys - n"
    by simp
  with True show ?thesis by (simp add: last_n_def)
next
  case False
  then have "length xs - n = 0" by simp
  then show ?thesis by (simp add: last_n_def)
qed

primrec log_all :: "('l \<Rightarrow> 'x \<Rightarrow> 'l ub) \<Rightarrow> 'l \<Rightarrow> 'x list \<Rightarrow> 'l ub" where
  "log_all ins l [] = Some l"
| "log_all ins l (x # xs) = do { l1 \<leftarrow> ins l x; log_all ins l1 xs }"

locale bounded_log =
  fixes cap :: nat
    and reset :: "'l \<Rightarrow> 'l"
    and ins :: "'l \<Rightarrow> 'x \<Rightarrow> 'l ub"
    and contents :: "'l \<Rightarrow> 'x list"
    and shape wf :: "'l \<Rightarrow> bool"
  assumes reset_wf: "shape l \<Longrightarrow> wf (reset l)"
    and reset_contents: "shape l \<Longrightarrow> contents (reset l) = []"
    and ins_ok: "wf l \<Longrightarrow> \<exists>l'. ins l x = Some l' \<and> wf l' \<and> contents l' = last_n cap (contents l @ [x])"
begin

lemma log_all_from:
  "wf l \<Longrightarrow> contents l = last_n cap ys \<Longrightarrow>
   \<exists>l'. log_all ins l xs = Some l' \<and> wf l' \<and> contents l' = last_n cap (ys @ xs)"
proof (induction xs arbitrary: l ys)
  case Nil
  then show ?case by simp
next
  case (Cons x xs)
  from ins_ok [OF Cons.prems(1), of x] obtain l1
    where l1: "ins l x = Some l1" "wf l1" "contents l1 = last_n cap (contents l @ [x])" by blast
  then have "contents l1 = last_n cap (ys @ [x])"
    by (simp add: Cons.prems(2) last_n_last_n)
  from Cons.IH [OF l1(2) this] show ?case by (simp add: l1(1))
qed

lemma log_all_reset:
  assumes "shape l"
  shows "\<exists>l'. log_all ins (reset l) xs = Some l' \<and> wf l' \<and> contents l' = last_n cap xs"
  using log_all_from [OF reset_wf [OF assms], of "[]" xs] reset_contents [OF assms]
  by (simp add: last_n_def)

end

definition cb_contents :: "circular_buffer \<Rightarrow> sf_simple_cell list" where
  "cb_contents cb =
     map (\<lambda>k. cb_buffer cb ! ((cb_head cb + k) mod BLACKLIST_MAX_SIZE)) [0..<cb_count cb]"

definition cb_shape :: "circular_buffer \<Rightarrow> bool" where
  "cb_shape cb \<longleftrightarrow> length (cb_buffer cb) = BLACKLIST_MAX_SIZE"

definition cb_wf :: "circular_buffer \<Rightarrow> bool" where
  "cb_wf cb \<longleftrightarrow> cb_shape cb \<and> cb_head cb < BLACKLIST_MAX_SIZE \<and> cb_count cb \<le> BLACKLIST_MAX_SIZE \<and>
     cb_tail cb = (cb_head cb + cb_count cb) mod BLACKLIST_MAX_SIZE \<and>
     (0 < cb_head cb \<longrightarrow> cb_count cb = BLACKLIST_MAX_SIZE)"

lemma push_not_full:
  assumes wf: "cb_wf cb" and c: "cb_count cb < BLACKLIST_MAX_SIZE"
  shows "\<exists>cb'. push cb x = Some cb' \<and> cb_wf cb' \<and> cb_contents cb' = last_n BLACKLIST_MAX_SIZE (cb_contents cb @ [x])"
proof -
  have h: "cb_head cb = 0" and l: "length (cb_buffer cb) = 5" and t: "cb_tail cb = cb_count cb"
    using wf c by (auto simp: cb_wf_def cb_shape_def BLACKLIST_MAX_SIZE_def)
  from c have c5: "cb_count cb < 5" by (simp add: BLACKLIST_MAX_SIZE_def)
  let ?cb = "cb\<lparr>cb_count := cb_count cb + 1, cb_buffer := (cb_buffer cb)[cb_tail cb := x],
      cb_tail := (cb_tail cb + 1) mod BLACKLIST_MAX_SIZE\<rparr>"
  have p: "push cb x = Some ?cb"
    using c5 l t by (simp add: push_def BLACKLIST_MAX_SIZE_def)
  have "cb_wf ?cb"
    using wf h l t c5 by (simp add: cb_wf_def cb_shape_def BLACKLIST_MAX_SIZE_def)
  moreover have "cb_contents ?cb = cb_contents cb @ [x]"
    using h l t c5 by (auto simp: cb_contents_def BLACKLIST_MAX_SIZE_def)
  moreover have "last_n BLACKLIST_MAX_SIZE (cb_contents cb @ [x]) = cb_contents cb @ [x]"
    using c5 by (simp add: last_n_def cb_contents_def BLACKLIST_MAX_SIZE_def)
  ultimately show ?thesis using p by auto
qed

lemma push_full:
  assumes wf: "cb_wf cb" and c: "cb_count cb = BLACKLIST_MAX_SIZE"
  shows "\<exists>cb'. push cb x = Some cb' \<and> cb_wf cb' \<and> cb_contents cb' = last_n BLACKLIST_MAX_SIZE (cb_contents cb @ [x])"
proof -
  have h: "cb_head cb < 5" and l: "length (cb_buffer cb) = 5" and c5: "cb_count cb = 5"
    and t: "cb_tail cb = cb_head cb"
    using wf c by (auto simp: cb_wf_def cb_shape_def BLACKLIST_MAX_SIZE_def)
  let ?cb = "cb\<lparr>cb_head := (cb_head cb + 1) mod 5, cb_buffer := (cb_buffer cb)[cb_head cb := x],
      cb_tail := (cb_head cb + 1) mod 5\<rparr>"
  have p: "push cb x = Some ?cb"
    using h c5 l t by (simp add: push_def BLACKLIST_MAX_SIZE_def)
  have "cb_wf ?cb"
    using wf h l t c5 by (simp add: cb_wf_def cb_shape_def BLACKLIST_MAX_SIZE_def)
  moreover have "cb_contents ?cb = last_n BLACKLIST_MAX_SIZE (cb_contents cb @ [x])"
  proof (rule nth_equalityI)
    show "length (cb_contents ?cb) = length (last_n BLACKLIST_MAX_SIZE (cb_contents cb @ [x]))"
      using c5 by (simp add: cb_contents_def last_n_def BLACKLIST_MAX_SIZE_def)
    fix k assume "k < length (cb_contents ?cb)"
    then have k: "k < 5" using c5 by (simp add: cb_contents_def)
    have m: "((cb_head cb + 1) mod 5 + k) mod 5 = (cb_head cb + Suc k) mod 5"
      by (simp add: mod_add_left_eq)
    have a: "cb_contents ?cb ! k =
        (cb_buffer cb)[cb_head cb := x] ! ((cb_head cb + Suc k) mod 5)"
      using k c5 m by (simp add: cb_contents_def BLACKLIST_MAX_SIZE_def)
    have b: "last_n BLACKLIST_MAX_SIZE (cb_contents cb @ [x]) ! k = (cb_contents cb @ [x]) ! Suc k"
    proof -
      have "length (cb_contents cb @ [x]) - BLACKLIST_MAX_SIZE = 1" "1 \<le> length (cb_contents cb @ [x])"
        using c5 by (simp_all add: cb_contents_def BLACKLIST_MAX_SIZE_def)
      then show ?thesis unfolding last_n_def by (metis nth_drop plus_1_eq_Suc)
    qed
    show "cb_contents ?cb ! k = last_n BLACKLIST_MAX_SIZE (cb_contents cb @ [x]) ! k"
    proof (cases "k = 4")
      case True
      then have "(cb_head cb + Suc k) mod 5 = cb_head cb" using h by simp
      with a b True l h c5 show ?thesis by (simp add: cb_contents_def nth_append)
    next
      case False
      with k have k4: "Suc k < 5" by simp
      have "(cb_head cb + Suc k) mod 5 \<noteq> cb_head cb" using h k4 by presburger
      moreover have "(cb_contents cb @ [x]) ! Suc k = cb_buffer cb ! ((cb_head cb + Suc k) mod 5)"
        using c5 k4 by (simp add: cb_contents_def nth_append BLACKLIST_MAX_SIZE_def)
      ultimately show ?thesis using a b by simp
    qed
  qed
  ultimately show ?thesis using p by auto
qed

interpretation blacklist_log: bounded_log BLACKLIST_MAX_SIZE init_buffer push cb_contents cb_shape cb_wf
proof unfold_locales
  show "cb_wf (init_buffer l)" if "cb_shape l" for l
    using that by (simp add: cb_wf_def cb_shape_def init_buffer_def BLACKLIST_MAX_SIZE_def)
  show "cb_contents (init_buffer l) = []" if "cb_shape l" for l
    by (simp add: cb_contents_def init_buffer_def)
  show "\<exists>l'. push l x = Some l' \<and> cb_wf l' \<and> cb_contents l' = last_n BLACKLIST_MAX_SIZE (cb_contents l @ [x])"
    if "cb_wf l" for l x
  proof (cases "cb_count l = BLACKLIST_MAX_SIZE")
    case True
    with that show ?thesis by (rule push_full)
  next
    case False
    with that have "cb_count l < BLACKLIST_MAX_SIZE" by (simp add: cb_wf_def)
    with that show ?thesis by (rule push_not_full)
  qed
qed

text \<open>
  the black list is the list of the last five cells pushed: after its initialisation and any
  sequence of calls of \<open>push\<close>, none of which writes outside the ring, the entries from \<open>head\<close> on are
  the last five cells in the order of their insertion.
\<close>

theorem blacklist_holds_last_five:
  assumes "length (cb_buffer cb) = BLACKLIST_MAX_SIZE"
  shows "\<exists>cb'. log_all push (init_buffer cb) xs = Some cb' \<and> cb_wf cb' \<and>
    cb_contents cb' = last_n BLACKLIST_MAX_SIZE xs"
  using assms by (intro blacklist_log.log_all_reset) (simp add: cb_shape_def)

definition blacklist_example :: circular_buffer where
  "blacklist_example = \<lparr>cb_buffer = replicate BLACKLIST_MAX_SIZE \<lparr>timeslot_offset = 0, channel_offset = 0\<rparr>,
     cb_head = 0, cb_tail = 0, cb_count = 0\<rparr>"

theorem blacklist_holds_last_five_witness:
  "\<exists>cb'. log_all push (init_buffer blacklist_example)
      (map (\<lambda>t. \<lparr>timeslot_offset = t, channel_offset = 0\<rparr>) [1, 2, 3, 4, 5, 6, 7]) = Some cb' \<and> cb_wf cb' \<and>
    cb_contents cb' = map (\<lambda>t. \<lparr>timeslot_offset = t, channel_offset = 0\<rparr>) [3, 4, 5, 6, 7]"
  using blacklist_holds_last_five [of blacklist_example
      "map (\<lambda>t. \<lparr>timeslot_offset = t, channel_offset = 0\<rparr>) [1, 2, 3, 4, 5, 6, 7]"]
  by (simp add: blacklist_example_def last_n_def BLACKLIST_MAX_SIZE_def)

subsection \<open>Drawing the candidates\<close>

definition slot_at :: "'a tsch_queue_state_scheme \<Rightarrow> nat \<Rightarrow> u16" where
  "slot_at s p = (let slot = (rand_src s p AND 0xFF) mod TSCH_SCHEDULE_DEFAULT_LENGTH
                  in if slot = 0 then slot + 1 else slot)"

definition channel_at :: "'a tsch_queue_state_scheme \<Rightarrow> nat \<Rightarrow> u16" where
  "channel_at s p = (rand_src s (Suc p) AND 0xFF) mod NUMBER_OF_CHANNELS"

lemma draw_cell_eq:
  "draw_cell s = ((slot_at s (rand_pos s), channel_at s (rand_pos s)), s\<lparr>rand_pos := rand_pos s + 2\<rparr>)"
  by (simp add: draw_cell_def random_rand_def slot_at_def channel_at_def Let_def numeral_2_eq_2)

lemma slot_at_advance [simp]:
  "slot_at (s\<lparr>rand_pos := p\<rparr>) = slot_at s" "channel_at (s\<lparr>rand_pos := p\<rparr>) = channel_at s"
  by (simp_all add: slot_at_def channel_at_def fun_eq_iff)

text \<open>A cell that may be offered: never in slot 0, within the slotframe and the four channels.\<close>

definition cell_ok :: "sf_simple_cell \<Rightarrow> bool" where
  "cell_ok c \<longleftrightarrow> 0 < timeslot_offset c \<and> timeslot_offset c < TSCH_SCHEDULE_DEFAULT_LENGTH \<and>
     channel_offset c < NUMBER_OF_CHANNELS"

definition cells_ok :: "sf_simple_cell list \<Rightarrow> bool" where
  "cells_ok cs \<longleftrightarrow> list_all cell_ok cs \<and> distinct (map timeslot_offset cs)"

lemma u16_mod_less: "0 < m \<Longrightarrow> (x :: u16) mod m < m"
  by (simp add: word_mod_less_divisor)

lemma drawn_cell_ok: "cell_ok \<lparr>timeslot_offset = slot_at s p, channel_offset = channel_at s p\<rparr>"
proof -
  have "(rand_src s p AND 0xFF) mod 101 < (101 :: u16)" by (rule u16_mod_less) simp
  moreover have "(rand_src s (Suc p) AND 0xFF) mod 4 < (4 :: u16)" by (rule u16_mod_less) simp
  ultimately show ?thesis
    by (simp add: cell_ok_def slot_at_def channel_at_def Let_def TSCH_SCHEDULE_DEFAULT_LENGTH_def
        NUMBER_OF_CHANNELS_def word_gt_0)
qed

lemma slot_check_loop_from:
  "i \<le> index \<Longrightarrow> index \<le> length cells \<Longrightarrow>
   slot_check_loop cells index slot sc i =
     (if i = index then sc else if slot \<in> timeslot_offset ` set (drop i (take index cells)) then sc + 1 else 1)"
proof (induction cells index slot sc i rule: slot_check_loop.induct)
  case (1 cells index slot sc i)
  show ?case
  proof (cases "i < index")
    case False
    with 1 show ?thesis by (simp add: slot_check_loop.simps [of cells index])
  next
    case True
    have d: "drop i (take index cells) = cells ! i # drop (Suc i) (take index cells)"
      using True 1 by (metis Cons_nth_drop_Suc length_take min.absorb2 nth_take)
    have e: "Suc i = index \<Longrightarrow> drop (Suc i) (take index cells) = []" by simp
    show ?thesis
      using True 1 e by (subst slot_check_loop.simps) (auto simp: d)
  qed
qed

lemma slot_check_loop_eq:
  assumes "index \<le> length cells"
  shows "slot_check_loop cells index slot sc 0 =
    (if index = 0 then sc else if slot \<in> timeslot_offset ` set (take index cells) then sc + 1 else 1)"
  using slot_check_loop_from [OF le0 assms, of slot sc] by simp

text \<open>
  What the loop has before every round: the first \<open>index\<close> cells are good and different, and
  \<open>slot_check\<close> counts the draws in a row that gave a slot chosen before.
\<close>

definition repeated_draws :: "'a tsch_queue_state_scheme \<Rightarrow> nat \<Rightarrow> nat \<Rightarrow> u16 set \<Rightarrow> bool" where
  "repeated_draws s p d slots \<longleftrightarrow> 2 * d \<le> p \<and> (\<forall>k<d. slot_at s (p - 2 * Suc k) \<in> slots)"

lemma repeated_draws_0 [simp]: "repeated_draws s p 0 slots"
  by (simp add: repeated_draws_def)

lemma repeated_draws_pos [simp]: "repeated_draws (s\<lparr>rand_pos := q\<rparr>) = repeated_draws s"
  by (simp add: repeated_draws_def fun_eq_iff)

lemma repeated_draws_Suc:
  assumes "repeated_draws s p d slots" and "slot_at s p \<in> slots"
  shows "repeated_draws s (p + 2) (Suc d) slots"
proof -
  have "slot_at s (p + 2 - 2 * Suc k) \<in> slots" if "k < Suc d" for k
    using that assms by (cases k) (simp_all add: repeated_draws_def)
  with assms show ?thesis by (simp add: repeated_draws_def)
qed

definition init_loop_inv :: "sf_simple_cell list \<Rightarrow> nat \<Rightarrow> u8 \<Rightarrow> 'a tsch_queue_state_scheme \<Rightarrow> bool" where
  "init_loop_inv cells index sc s \<longleftrightarrow> length cells = CAND_CELL_LIST_LEN \<and> index < CAND_CELL_LIST_LEN \<and>
     (if index = 0 then sc = 1
      else 2 \<le> unat sc \<and> unat sc \<le> 101 \<and>
        repeated_draws s (rand_pos s) (unat sc - 2) (timeslot_offset ` set (take index cells))) \<and>
     cells_ok (take index cells)"

definition init_loop_post ::
  "nat \<Rightarrow> sf_simple_cell list \<Rightarrow> 'a tsch_queue_state_scheme \<Rightarrow> sf_simple_cell list \<Rightarrow> 'a tsch_queue_state_scheme \<Rightarrow> bool" where
  "init_loop_post index cells s cells' s' \<longleftrightarrow>
     (\<exists>n p. index \<le> n \<and> 0 < n \<and> n \<le> CAND_CELL_LIST_LEN \<and> cells_ok (take n cells') \<and> drop n cells' = drop n cells \<and>
        length cells' = length cells \<and> s' = s\<lparr>rand_pos := p\<rparr> \<and>
        (n = CAND_CELL_LIST_LEN \<or> repeated_draws s p 100 (timeslot_offset ` set (take n cells'))))"

lemma init_loop_new:
  assumes inv: "init_loop_inv cells index sc s"
    and new: "index = 0 \<or> slot_at s (rand_pos s) \<notin> timeslot_offset ` set (take index cells)"
  defines "cells1 \<equiv> cells[index := \<lparr>timeslot_offset = slot_at s (rand_pos s), channel_offset = channel_at s (rand_pos s)\<rparr>]"
  shows "cells_ok (take (Suc index) cells1)"
    and "Suc index < CAND_CELL_LIST_LEN \<Longrightarrow> init_loop_inv cells1 (Suc index) 2 (s\<lparr>rand_pos := rand_pos s + 2\<rparr>)"
proof -
  from inv have l: "index < length cells" "length cells = CAND_CELL_LIST_LEN" and ok: "cells_ok (take index cells)"
    by (simp_all add: init_loop_inv_def)
  have t: "take (Suc index) cells1 = take index cells @
      [\<lparr>timeslot_offset = slot_at s (rand_pos s), channel_offset = channel_at s (rand_pos s)\<rparr>]"
    using l by (simp add: cells1_def take_Suc_conv_app_nth)
  show c: "cells_ok (take (Suc index) cells1)"
    using ok new drawn_cell_ok [of s "rand_pos s"] unfolding t cells_ok_def by auto
  show "init_loop_inv cells1 (Suc index) 2 (s\<lparr>rand_pos := rand_pos s + 2\<rparr>)" if "Suc index < CAND_CELL_LIST_LEN"
    using that l c by (simp add: init_loop_inv_def cells1_def)
qed

text \<open>A round of the loop that finds a new slot, and one that does not.\<close>

lemma init_loop_step_new:
  assumes l: "index < length cells"
    and one: "slot_check_loop cells index (slot_at s (rand_pos s)) sc 0 = 1"
  shows "init_cand_cell_loop cells index sc s =
    (let cells1 = cells[index := \<lparr>timeslot_offset = slot_at s (rand_pos s), channel_offset = channel_at s (rand_pos s)\<rparr>];
         s1 = s\<lparr>rand_pos := rand_pos s + 2\<rparr>
     in if Suc index < CAND_CELL_LIST_LEN then init_cand_cell_loop cells1 (Suc index) 2 s1 else Some (cells1, s1))"
  using l by (subst init_cand_cell_loop.simps) (simp add: draw_cell_eq one Let_def)

lemma init_loop_step_dup:
  assumes "index < CAND_CELL_LIST_LEN"
    and dup: "slot_check_loop cells index (slot_at s (rand_pos s)) sc 0 = sc + 1" and "sc + 1 \<noteq> 1"
  shows "init_cand_cell_loop cells index sc s =
    (let s1 = s\<lparr>rand_pos := rand_pos s + 2\<rparr>
     in if TSCH_SCHEDULE_DEFAULT_LENGTH < ucast (sc + 1) then Some (cells, s1)
        else init_cand_cell_loop cells index (sc + 1) s1)"
  using assms(1,3) by (subst init_cand_cell_loop.simps) (simp add: draw_cell_eq dup Let_def)

lemma init_loop_post_back:
  assumes "init_loop_post k cells1 (s\<lparr>rand_pos := q\<rparr>) cells' s'" and "index \<le> k"
    and "\<And>n. k \<le> n \<Longrightarrow> drop n cells1 = drop n cells" and "length cells1 = length cells"
  shows "init_loop_post index cells s cells' s'"
proof -
  from assms(1) obtain n p where n: "k \<le> n" "0 < n" "n \<le> CAND_CELL_LIST_LEN" "cells_ok (take n cells')"
    "drop n cells' = drop n cells1" "length cells' = length cells1" "s' = s\<lparr>rand_pos := q, rand_pos := p\<rparr>"
    "n = CAND_CELL_LIST_LEN \<or> repeated_draws (s\<lparr>rand_pos := q\<rparr>) p 100 (timeslot_offset ` set (take n cells'))"
    unfolding init_loop_post_def by (elim exE conjE)
  show ?thesis
    unfolding init_loop_post_def
  proof (intro exI conjI)
    show "index \<le> n" using n(1) assms(2) by simp
    show "0 < n" "n \<le> CAND_CELL_LIST_LEN" "cells_ok (take n cells')" by (fact n)+
    show "drop n cells' = drop n cells" using n(1,5) assms(3) by simp
    show "length cells' = length cells" using n(6) assms(4) by simp
    show "s' = s\<lparr>rand_pos := p\<rparr>" using n(7) by simp
    show "n = CAND_CELL_LIST_LEN \<or> repeated_draws s p 100 (timeslot_offset ` set (take n cells'))"
      using n(8) by simp
  qed
qed

lemma init_cand_cell_loop_returns:
  "init_loop_inv cells index sc s \<Longrightarrow>
   \<exists>cells' s'. init_cand_cell_loop cells index sc s = Some (cells', s') \<and> init_loop_post index cells s cells' s'"
proof (induction "(9 - index) * 200 + (102 - unat sc)" arbitrary: cells index sc s rule: less_induct)
  case less
  note inv = less.prems
  from inv have l: "length cells = 9" "index < 9" "index < length cells" and ok: "cells_ok (take index cells)"
    by (simp_all add: init_loop_inv_def CAND_CELL_LIST_LEN_def)
  let ?s1 = "s\<lparr>rand_pos := rand_pos s + 2\<rparr>"
  let ?slots = "timeslot_offset ` set (take index cells)"
  let ?cells1 = "cells[index := \<lparr>timeslot_offset = slot_at s (rand_pos s), channel_offset = channel_at s (rand_pos s)\<rparr>]"
  have sc: "slot_check_loop cells index (slot_at s (rand_pos s)) sc 0 =
      (if index = 0 then sc else if slot_at s (rand_pos s) \<in> ?slots then sc + 1 else 1)"
    using l by (intro slot_check_loop_eq) simp
  show ?case
  proof (cases "index = 0 \<or> slot_at s (rand_pos s) \<notin> ?slots")
    case True
    have one: "slot_check_loop cells index (slot_at s (rand_pos s)) sc 0 = 1"
      using True inv by (auto simp: sc init_loop_inv_def)
    note step = init_loop_step_new [OF l(3) one]
    note new = init_loop_new [OF inv True]
    show ?thesis
    proof (cases "Suc index < CAND_CELL_LIST_LEN")
      case False
      with l have i: "Suc index = CAND_CELL_LIST_LEN" by (simp add: CAND_CELL_LIST_LEN_def)
      have "init_loop_post index cells s ?cells1 ?s1"
        unfolding init_loop_post_def
        by (rule exI [of _ CAND_CELL_LIST_LEN], rule exI [of _ "rand_pos s + 2"])
          (use new(1) i l in \<open>simp add: CAND_CELL_LIST_LEN_def\<close>)
      then show ?thesis using False by (simp add: step Let_def)
    next
      case i: True
      have m: "(9 - Suc index) * 200 + (102 - unat (2 :: u8)) < (9 - index) * 200 + (102 - unat sc)"
        using l(2) by simp
      from less.hyps [OF m new(2) [OF i]] obtain cells' s'
        where r: "init_cand_cell_loop ?cells1 (Suc index) 2 ?s1 = Some (cells', s')"
          and post: "init_loop_post (Suc index) ?cells1 ?s1 cells' s'" by blast
      have "init_loop_post index cells s cells' s'"
        by (rule init_loop_post_back [OF post]) simp_all
      then show ?thesis using i r by (simp add: step Let_def)
    qed
  next
    case False
    then have i: "index \<noteq> 0" and dup: "slot_at s (rand_pos s) \<in> ?slots" by auto
    have sc1: "2 \<le> unat sc" "unat sc \<le> 101" "repeated_draws s (rand_pos s) (unat sc - 2) ?slots"
      using inv i by (simp_all add: init_loop_inv_def)
    have u: "unat (sc + 1) = Suc (unat sc)" using sc1(2) by (simp add: unat_word_ariths)
    have ne: "sc + 1 \<noteq> 1" using sc1(1) by auto
    have dup1: "slot_check_loop cells index (slot_at s (rand_pos s)) sc 0 = sc + 1"
      using i dup by (simp add: sc)
    have lim: "TSCH_SCHEDULE_DEFAULT_LENGTH < ucast (sc + 1) \<longleftrightarrow> 101 < Suc (unat sc)"
      using u by (simp add: TSCH_SCHEDULE_DEFAULT_LENGTH_def word_less_nat_alt)
    have rd: "repeated_draws s (rand_pos s + 2) (Suc (unat sc - 2)) ?slots"
      by (rule repeated_draws_Suc [OF sc1(3) dup])
    have ic: "index < CAND_CELL_LIST_LEN" using l by (simp add: CAND_CELL_LIST_LEN_def)
    note step = init_loop_step_dup [OF ic dup1 ne]
    show ?thesis
    proof (cases "unat sc = 101")
      case True
      have "init_loop_post index cells s cells ?s1"
        unfolding init_loop_post_def
        by (rule exI [of _ index], rule exI [of _ "rand_pos s + 2"])
          (use rd True ok i l in \<open>simp add: CAND_CELL_LIST_LEN_def del: add_2_eq_Suc' add_2_eq_Suc\<close>)
      then show ?thesis using True lim by (auto simp: step Let_def)
    next
      case False
      have "Suc (unat sc - 2) = Suc (unat sc) - 2" using sc1(1) by simp
      with rd have "repeated_draws s (rand_pos s + 2) (Suc (unat sc) - 2) ?slots" by simp
      then have inv1: "init_loop_inv cells index (sc + 1) ?s1"
        using inv i sc1 u False by (simp add: init_loop_inv_def del: add_2_eq_Suc' add_2_eq_Suc)
      have m: "(9 - index) * 200 + (102 - unat (sc + 1)) < (9 - index) * 200 + (102 - unat sc)"
        using sc1 u by simp
      from less.hyps [OF m inv1] obtain cells' s'
        where r: "init_cand_cell_loop cells index (sc + 1) ?s1 = Some (cells', s')"
          and post: "init_loop_post index cells ?s1 cells' s'" by blast
      have "init_loop_post index cells s cells' s'"
        by (rule init_loop_post_back [OF post]) simp_all
      then show ?thesis using False lim sc1(2) r by (simp add: step Let_def)
    qed
  qed
qed


text \<open>
  whatever the random numbers are, the initialisation returns: the first \<open>n\<close> candidates,
  at least one, are cells of the slotframe outside slot 0, on one of the four channels, with
  pairwise different timeslots; \<open>n\<close> is nine unless the last 100 draws all gave a slot chosen
  before, and then the other candidates are left as they were.  The black list is empty.
\<close>

theorem init_advanced_cell_alloc_returns:
  assumes "length (candidate_cell_list s) = CAND_CELL_LIST_LEN" and "cb_shape (blacklist s)"
  shows "\<exists>s' n. init_advanced_cell_alloc s = Some s' \<and> 0 < n \<and> n \<le> CAND_CELL_LIST_LEN \<and>
    cells_ok (take n (candidate_cell_list s')) \<and>
    drop n (candidate_cell_list s') = drop n (candidate_cell_list s) \<and>
    length (candidate_cell_list s') = CAND_CELL_LIST_LEN \<and>
    (n = CAND_CELL_LIST_LEN \<or>
     repeated_draws s (rand_pos s') 100 (timeslot_offset ` set (take n (candidate_cell_list s')))) \<and>
    cb_wf (blacklist s') \<and> cb_contents (blacklist s') = []"
proof -
  have "init_loop_inv (candidate_cell_list s) 0 1 s"
    using assms(1) by (simp add: init_loop_inv_def cells_ok_def CAND_CELL_LIST_LEN_def)
  from init_cand_cell_loop_returns [OF this] obtain cells' s1
    where r: "init_cand_cell_loop (candidate_cell_list s) 0 1 s = Some (cells', s1)"
      and post: "init_loop_post 0 (candidate_cell_list s) s cells' s1" by blast
  from post obtain n p where n: "0 < n" "n \<le> CAND_CELL_LIST_LEN" "cells_ok (take n cells')"
    "drop n cells' = drop n (candidate_cell_list s)" "length cells' = length (candidate_cell_list s)"
    "s1 = s\<lparr>rand_pos := p\<rparr>"
    "n = CAND_CELL_LIST_LEN \<or> repeated_draws s p 100 (timeslot_offset ` set (take n cells'))"
    unfolding init_loop_post_def by (elim exE conjE)
  let ?s' = "s1\<lparr>candidate_cell_list := cells', blacklist := init_buffer (blacklist s1)\<rparr>"
  have i: "init_advanced_cell_alloc s = Some ?s'"
    by (simp add: init_advanced_cell_alloc_def init_cand_cell_list_def r)
  have b: "blacklist s1 = blacklist s" using n(6) by simp
  show ?thesis
    by (rule exI [of _ ?s'], rule exI [of _ n])
      (use i n assms(1) b blacklist_log.reset_wf [OF assms(2)] blacklist_log.reset_contents [OF assms(2)] in
        \<open>simp add: n(6)\<close>)
qed

subsection \<open>When the replacement returns\<close>

lemma blacklist_scan_True_from:
  "blacklist_scan cb slot channel a = Some True \<Longrightarrow>
   0 < cb_count cb \<and> a < cb_count cb \<and> cb_head cb + cb_count cb \<le> length (cb_buffer cb) \<and>
   (\<forall>k. a \<le> k \<and> k < cb_count cb \<longrightarrow>
      cb_buffer cb ! (cb_head cb + k) \<noteq> \<lparr>timeslot_offset = slot, channel_offset = channel\<rparr>)"
proof (induction cb slot channel a rule: blacklist_scan.induct)
  case (1 cb slot channel a)
  let ?c = "cb_buffer cb ! (cb_head cb + a)"
  from 1(2) have a: "a < cb_count cb" "cb_head cb + a < length (cb_buffer cb)"
    and ne: "\<not> (slot = timeslot_offset ?c \<and> channel = channel_offset ?c)"
    by (auto simp: blacklist_scan.simps [of cb] Let_def split: if_splits)
  have ne1: "?c \<noteq> \<lparr>timeslot_offset = slot, channel_offset = channel\<rparr>" using ne by auto
  show ?case
  proof (cases "a = cb_count cb - 1")
    case True
    then have k: "a \<le> k \<and> k < cb_count cb \<longleftrightarrow> k = a" for k using a(1) by auto
    from True a ne1 show ?thesis unfolding k by auto
  next
    case False
    then have "blacklist_scan cb slot channel (Suc a) = Some True"
      using 1(2) a ne by (simp add: blacklist_scan.simps [of cb slot channel a] Let_def)
    from 1(1) [OF a refl ne False this] show ?thesis
      using ne1 by (metis a(1) le_neq_implies_less Suc_leI)
  qed
qed

lemma blacklist_scan_from:
  "a < cb_count cb \<Longrightarrow> cb_head cb + cb_count cb \<le> length (cb_buffer cb) \<Longrightarrow>
   blacklist_scan cb slot channel a =
     Some (\<forall>k. a \<le> k \<and> k < cb_count cb \<longrightarrow>
      cb_buffer cb ! (cb_head cb + k) \<noteq> \<lparr>timeslot_offset = slot, channel_offset = channel\<rparr>)"
proof (induction cb slot channel a rule: blacklist_scan.induct)
  case (1 cb slot channel a)
  let ?c = "cb_buffer cb ! (cb_head cb + a)"
  have l: "cb_head cb + a < length (cb_buffer cb)" using 1 by simp
  have eq: "?c = \<lparr>timeslot_offset = slot, channel_offset = channel\<rparr> \<longleftrightarrow>
      slot = timeslot_offset ?c \<and> channel = channel_offset ?c" by auto
  show ?case
  proof (cases "slot = timeslot_offset ?c \<and> channel = channel_offset ?c")
    case True
    with 1(2) l eq show ?thesis by (subst blacklist_scan.simps) (auto simp: Let_def)
  next
    case ne: False
    show ?thesis
    proof (cases "a = cb_count cb - 1")
      case True
      then have "a \<le> k \<and> k < cb_count cb \<longleftrightarrow> k = a" for k using 1(2) by auto
      with True ne l 1(2) eq show ?thesis by (subst blacklist_scan.simps) (simp add: Let_def)
    next
      case False
      then have s: "Suc a < cb_count cb" using 1(2) by simp
      have "a \<le> k \<and> k < cb_count cb \<longleftrightarrow> k = a \<or> Suc a \<le> k \<and> k < cb_count cb" for k using 1(2) by auto
      moreover have "blacklist_scan cb slot channel a = blacklist_scan cb slot channel (Suc a)"
        using False ne l 1(2) by (subst blacklist_scan.simps) (auto simp: Let_def)
      ultimately show ?thesis using 1(1) [OF 1(2) l refl ne False s 1(3)] ne eq by auto
    qed
  qed
qed

text \<open>A round changes the candidates and the position in the random numbers only.\<close>

lemma replace_round_frame:
  assumes "replace_round sf i s = Some (f, s')"
  shows "blacklist s' = blacklist s" and "f = 2 \<Longrightarrow> blacklist_scan (blacklist s)
    (slot_at s (rand_pos s)) (channel_at s (rand_pos s)) 0 = Some True"
  using assms by (auto simp: replace_round_def draw_cell_eq Let_def split: if_splits bind_splits)

lemma replace_loop_Some:
  "replace_loop sf i s = Some s' \<Longrightarrow>
   0 < cb_count (blacklist s) \<and> cb_head (blacklist s) + cb_count (blacklist s) \<le> length (cb_buffer (blacklist s))"
proof (rule replace_loop.raw_induct [where P = "\<lambda>sf i s s'. 0 < cb_count (blacklist s) \<and>
    cb_head (blacklist s) + cb_count (blacklist s) \<le> length (cb_buffer (blacklist s))", of sf i s s'])
  fix f :: "nat option \<Rightarrow> nat \<Rightarrow> 'a alloc_state_scheme \<Rightarrow> 'a alloc_state_scheme option" and sf i s s'
  assume IH: "\<And>sf i s s'. f sf i s = Some s' \<Longrightarrow> 0 < cb_count (blacklist s) \<and>
      cb_head (blacklist s) + cb_count (blacklist s) \<le> length (cb_buffer (blacklist s))"
    and r: "do { (found_valid_slot, s1) \<leftarrow> replace_round sf i s;
       (if found_valid_slot \<noteq> 2 then f sf i s1 else Some s1) } = Some s'"
  then obtain n s1 where n: "replace_round sf i s = Some (n, s1)"
    and d: "(if n \<noteq> 2 then f sf i s1 else Some s1) = Some s'"
    by (auto split: bind_splits)
  show "0 < cb_count (blacklist s) \<and>
    cb_head (blacklist s) + cb_count (blacklist s) \<le> length (cb_buffer (blacklist s))"
  proof (cases "n = 2")
    case True
    from blacklist_scan_True_from [OF replace_round_frame(2) [OF n True]] show ?thesis by simp
  next
    case False
    with d have "f sf i s1 = Some s'" by simp
    from IH [OF this] show ?thesis by (simp add: replace_round_frame(1) [OF n])
  qed
qed

definition blacklist_ready :: "circular_buffer \<Rightarrow> bool" where
  "blacklist_ready cb \<longleftrightarrow> cb_wf cb \<and> 0 < cb_count cb \<and> cb_head cb = 0"

lemma blacklist_ready_bounds:
  "blacklist_ready cb \<Longrightarrow> 0 < cb_count cb \<and> cb_head cb + cb_count cb \<le> length (cb_buffer cb)"
  by (simp add: blacklist_ready_def cb_wf_def cb_shape_def)

lemma blacklist_scan_ready:
  assumes "blacklist_ready cb"
  shows "blacklist_scan cb slot channel 0 =
    Some (\<lparr>timeslot_offset = slot, channel_offset = channel\<rparr> \<notin> set (cb_contents cb))"
proof -
  have "cb_contents cb = map (\<lambda>k. cb_buffer cb ! k) [0..<cb_count cb]"
    using assms by (auto simp: cb_contents_def blacklist_ready_def cb_wf_def BLACKLIST_MAX_SIZE_def)
  then have "(\<forall>k. 0 \<le> k \<and> k < cb_count cb \<longrightarrow>
      cb_buffer cb ! (cb_head cb + k) \<noteq> \<lparr>timeslot_offset = slot, channel_offset = channel\<rparr>) \<longleftrightarrow>
      \<lparr>timeslot_offset = slot, channel_offset = channel\<rparr> \<notin> set (cb_contents cb)"
    using assms by (simp add: blacklist_ready_def image_iff) (metis atLeastLessThan_iff le0)
  then show ?thesis
    using blacklist_scan_from [of 0 cb slot channel] blacklist_ready_bounds [OF assms] by simp
qed

lemma link_by_timeslot_alloc [simp]:
  "tsch_schedule_get_link_by_timeslot sf slot (s\<lparr>rand_pos := p\<rparr>) = tsch_schedule_get_link_by_timeslot sf slot s"
  "tsch_schedule_get_link_by_timeslot sf slot (u\<lparr>candidate_cell_list := cs\<rparr>) =
   tsch_schedule_get_link_by_timeslot sf slot u"
  by (simp_all add: tsch_schedule_get_link_by_timeslot_def tsch_is_locked_def split: option.splits)

lemma slot_at_alloc [simp]:
  "slot_at (u\<lparr>candidate_cell_list := cs\<rparr>) = slot_at u" "channel_at (u\<lparr>candidate_cell_list := cs\<rparr>) = channel_at u"
  by (simp_all add: slot_at_def channel_at_def fun_eq_iff)

text \<open>The drawn cell, and whether the draw at position \<open>p\<close> of the random numbers is acceptable.\<close>

definition cell_at :: "'a tsch_queue_state_scheme \<Rightarrow> nat \<Rightarrow> sf_simple_cell" where
  "cell_at s p = \<lparr>timeslot_offset = slot_at s p, channel_offset = channel_at s p\<rparr>"

definition cell_free :: "nat option \<Rightarrow> sf_simple_cell \<Rightarrow> 'a alloc_state_scheme \<Rightarrow> bool" where
  "cell_free sf c s \<longleftrightarrow> tsch_schedule_get_link_by_timeslot sf (timeslot_offset c) s = None \<and>
     c \<notin> set (cb_contents (blacklist s))"

lemma cell_free_alloc [simp]:
  "cell_free sf c (s\<lparr>rand_pos := p\<rparr>) = cell_free sf c s"
  "cell_free sf c (s\<lparr>candidate_cell_list := cs\<rparr>) = cell_free sf c s"
  by (simp_all add: cell_free_def)

lemma replace_round_ready:
  assumes "blacklist_ready (blacklist s)"
  shows "replace_round sf i s =
    (let c = cell_at s (rand_pos s); s1 = s\<lparr>rand_pos := rand_pos s + 2\<rparr>;
         new = timeslot_offset c \<notin> timeslot_offset ` set (candidate_cell_list s)
     in Some (if tsch_schedule_get_link_by_timeslot sf (timeslot_offset c) s \<noteq> None then (0, s1)
              else if c \<notin> set (cb_contents (blacklist s))
              then (if new then 2 else 1, s1\<lparr>candidate_cell_list := (candidate_cell_list s)[i := c]\<rparr>)
              else (if new then 1 else 0, s1)))"
proof -
  have "list_all (\<lambda>c. timeslot_offset c \<noteq> slot) cs \<longleftrightarrow> slot \<notin> timeslot_offset ` set cs" for slot cs
    by (auto simp: list_all_iff)
  note list_all_slots = this
  show ?thesis
    unfolding replace_round_def draw_cell_eq list_all_slots Let_def cell_at_def
    using blacklist_scan_ready [OF assms] by simp
qed

lemma replace_loop_returns:
  assumes "blacklist_ready (blacklist s)" and "i < length (candidate_cell_list s)"
    and "timeslot_offset ` set (candidate_cell_list s) \<subseteq> T"
    and "cell_free sf (cell_at s (rand_pos s + 2 * n)) s" and "slot_at s (rand_pos s + 2 * n) \<notin> T"
  shows "\<exists>p c. replace_loop sf i s = Some (s\<lparr>rand_pos := p, candidate_cell_list := (candidate_cell_list s)[i := c]\<rparr>) \<and>
    cell_ok c \<and> cell_free sf c s \<and>
    (\<forall>j<length (candidate_cell_list s). j \<noteq> i \<longrightarrow> timeslot_offset (candidate_cell_list s ! j) \<noteq> timeslot_offset c)"
  using assms
proof (induction n arbitrary: s)
  case 0
  let ?c = "cell_at s (rand_pos s)"
  have slot: "timeslot_offset ?c = slot_at s (rand_pos s)" by (simp add: cell_at_def)
  with 0 have new: "timeslot_offset ?c \<notin> timeslot_offset ` set (candidate_cell_list s)" by auto
  have "replace_loop sf i s =
      Some (s\<lparr>rand_pos := rand_pos s + 2, candidate_cell_list := (candidate_cell_list s)[i := ?c]\<rparr>)"
    using 0 new by (subst replace_loop.simps) (simp add: replace_round_ready Let_def cell_free_def)
  moreover have "cell_ok ?c" using drawn_cell_ok by (simp add: cell_at_def)
  moreover have "\<forall>j<length (candidate_cell_list s). timeslot_offset (candidate_cell_list s ! j) \<noteq> timeslot_offset ?c"
    using new by (metis image_eqI nth_mem)
  ultimately show ?case using 0(4) by auto
next
  case (Suc n)
  let ?c = "cell_at s (rand_pos s)"
  let ?new = "timeslot_offset ?c \<notin> timeslot_offset ` set (candidate_cell_list s)"
  show ?case
  proof (cases "cell_free sf ?c s \<and> ?new")
    case True
    have "replace_loop sf i s =
        Some (s\<lparr>rand_pos := rand_pos s + 2, candidate_cell_list := (candidate_cell_list s)[i := ?c]\<rparr>)"
      using Suc.prems(1) True by (subst replace_loop.simps) (simp add: replace_round_ready Let_def cell_free_def)
    moreover have "cell_ok ?c" using drawn_cell_ok by (simp add: cell_at_def)
    moreover have "\<forall>j<length (candidate_cell_list s). timeslot_offset (candidate_cell_list s ! j) \<noteq> timeslot_offset ?c"
      using True by (metis image_eqI nth_mem)
    ultimately show ?thesis using True by auto
  next
    case False
    obtain x where x: "replace_loop sf i s =
        replace_loop sf i (s\<lparr>rand_pos := rand_pos s + 2, candidate_cell_list := (candidate_cell_list s)[i := x]\<rparr>)"
      and xT: "timeslot_offset x \<in> T"
    proof (cases "cell_free sf ?c s")
      case True
      with False have "timeslot_offset ?c \<in> timeslot_offset ` set (candidate_cell_list s)" by simp
      with True Suc.prems(1,3) show thesis
        by (intro that [of ?c]) (subst replace_loop.simps, auto simp: replace_round_ready Let_def cell_free_def)
    next
      case nf: False
      have "timeslot_offset (candidate_cell_list s ! i) \<in> T" using Suc.prems(2,3) by auto
      with nf Suc.prems(1) show thesis
        by (intro that [of "candidate_cell_list s ! i"])
          (subst replace_loop.simps, auto simp: replace_round_ready Let_def cell_free_def)
    qed
    let ?s = "s\<lparr>rand_pos := rand_pos s + 2, candidate_cell_list := (candidate_cell_list s)[i := x]\<rparr>"
    have T: "timeslot_offset ` set (candidate_cell_list ?s) \<subseteq> T"
      using Suc.prems(3) xT set_update_subset_insert [of "candidate_cell_list s" i x] by auto
    have p: "rand_pos ?s + 2 * n = rand_pos s + 2 * Suc n" by simp
    have "\<exists>p c. replace_loop sf i ?s = Some (?s\<lparr>rand_pos := p, candidate_cell_list := (candidate_cell_list ?s)[i := c]\<rparr>) \<and>
      cell_ok c \<and> cell_free sf c ?s \<and>
      (\<forall>j<length (candidate_cell_list ?s). j \<noteq> i \<longrightarrow> timeslot_offset (candidate_cell_list ?s ! j) \<noteq> timeslot_offset c)"
    proof (rule Suc.IH)
      show "timeslot_offset ` set (candidate_cell_list ?s) \<subseteq> T" by (fact T)
      show "cell_free sf (cell_at ?s (rand_pos ?s + 2 * n)) ?s"
        using Suc.prems(4) by (simp add: p cell_at_def)
      show "slot_at ?s (rand_pos ?s + 2 * n) \<notin> T" using Suc.prems(5) by (simp add: p)
    qed (use Suc.prems in simp_all)
    then show ?thesis by (auto simp: x)
  qed
qed

lemma find_candidate:
  assumes "ts \<in> timeslot_offset ` set cs" and "length cs = CAND_CELL_LIST_LEN"
  obtains i where "find (\<lambda>i. timeslot_offset (cs ! i) = ts) [0..<CAND_CELL_LIST_LEN] = Some i"
    and "i < CAND_CELL_LIST_LEN" and "timeslot_offset (cs ! i) = ts"
proof -
  from assms obtain j where j: "j < CAND_CELL_LIST_LEN" "timeslot_offset (cs ! j) = ts"
    by (auto simp: in_set_conv_nth)
  then obtain i where "find (\<lambda>i. timeslot_offset (cs ! i) = ts) [0..<CAND_CELL_LIST_LEN] = Some i"
    by (cases "find (\<lambda>i. timeslot_offset (cs ! i) = ts) [0..<CAND_CELL_LIST_LEN]") (auto simp: find_None_iff)
  moreover from this have "i < CAND_CELL_LIST_LEN" "timeslot_offset (cs ! i) = ts"
    by (auto dest!: find_SomeD)
  ultimately show thesis by (rule that)
qed

lemma cells_ok_replace:
  assumes ok: "cells_ok cs" and c: "cell_ok c" and i: "i < length cs"
    and new: "\<forall>j<length cs. j \<noteq> i \<longrightarrow> timeslot_offset (cs ! j) \<noteq> timeslot_offset c"
  shows "cells_ok (cs[i := c])"
proof -
  have "list_all cell_ok (cs[i := c])"
    using ok c by (simp add: cells_ok_def list_all_length nth_list_update i)
  moreover have "distinct (map timeslot_offset (cs[i := c]))"
    using ok new i by (auto simp: cells_ok_def distinct_conv_nth nth_list_update)
  ultimately show ?thesis by (simp add: cells_ok_def)
qed

lemma replace_candidate_ready:
  assumes "blacklist_ready (blacklist s)" and "length (candidate_cell_list s) = CAND_CELL_LIST_LEN"
    and "ts \<in> timeslot_offset ` set (candidate_cell_list s)"
    and "cell_free (tsch_schedule_get_slotframe_by_handle 0 s) (cell_at s (rand_pos s + 2 * n)) s"
    and "slot_at s (rand_pos s + 2 * n) \<notin> timeslot_offset ` set (candidate_cell_list s)"
  shows "\<exists>i p c. replace_candidate_cell ts s =
      Some (s\<lparr>rand_pos := p, candidate_cell_list := (candidate_cell_list s)[i := c]\<rparr>) \<and>
    i < CAND_CELL_LIST_LEN \<and> timeslot_offset (candidate_cell_list s ! i) = ts \<and> cell_ok c \<and>
    cell_free (tsch_schedule_get_slotframe_by_handle 0 s) c s \<and>
    (cells_ok (candidate_cell_list s) \<longrightarrow> cells_ok ((candidate_cell_list s)[i := c]))"
proof -
  from find_candidate [OF assms(3,2)] obtain i
    where i: "find (\<lambda>i. timeslot_offset (candidate_cell_list s ! i) = ts) [0..<CAND_CELL_LIST_LEN] = Some i"
      "i < CAND_CELL_LIST_LEN" "timeslot_offset (candidate_cell_list s ! i) = ts" .
  have il: "i < length (candidate_cell_list s)" using i(2) assms(2) by simp
  from replace_loop_returns [OF assms(1) il subset_refl assms(4,5)] obtain p c
    where r: "replace_loop (tsch_schedule_get_slotframe_by_handle 0 s) i s =
        Some (s\<lparr>rand_pos := p, candidate_cell_list := (candidate_cell_list s)[i := c]\<rparr>)"
      and c: "cell_ok c" "cell_free (tsch_schedule_get_slotframe_by_handle 0 s) c s"
        "\<forall>j<length (candidate_cell_list s). j \<noteq> i \<longrightarrow> timeslot_offset (candidate_cell_list s ! j) \<noteq> timeslot_offset c"
    by blast
  have "replace_candidate_cell ts s =
      Some (s\<lparr>rand_pos := p, candidate_cell_list := (candidate_cell_list s)[i := c]\<rparr>)"
    by (simp add: replace_candidate_cell_def i(1) r)
  then show ?thesis using i(2,3) c cells_ok_replace [OF _ c(1) il c(3)] by blast
qed

lemma replace_candidate_absent:
  assumes "length (candidate_cell_list s) = CAND_CELL_LIST_LEN"
    and "ts \<notin> timeslot_offset ` set (candidate_cell_list s)"
  shows "replace_candidate_cell ts s = Some s"
proof -
  have "find (\<lambda>i. timeslot_offset (candidate_cell_list s ! i) = ts) [0..<CAND_CELL_LIST_LEN] = None"
    using assms by (auto simp: find_None_iff image_iff)
  then show ?thesis by (simp add: replace_candidate_cell_def)
qed

lemma replace_candidate_not_ready:
  assumes "cb_wf (blacklist s)" and "\<not> blacklist_ready (blacklist s)"
    and "length (candidate_cell_list s) = CAND_CELL_LIST_LEN"
    and "ts \<in> timeslot_offset ` set (candidate_cell_list s)"
  shows "replace_candidate_cell ts s = None"
proof -
  from find_candidate [OF assms(4,3)] obtain i
    where i: "find (\<lambda>i. timeslot_offset (candidate_cell_list s ! i) = ts) [0..<CAND_CELL_LIST_LEN] = Some i" .
  have "replace_loop (tsch_schedule_get_slotframe_by_handle 0 s) i s = None"
  proof (cases "replace_loop (tsch_schedule_get_slotframe_by_handle 0 s) i s")
    case (Some s')
    from replace_loop_Some [OF this]
    have "0 < cb_count (blacklist s)" "cb_head (blacklist s) + cb_count (blacklist s) \<le> length (cb_buffer (blacklist s))"
      by auto
    with assms(1) have "blacklist_ready (blacklist s)"
      by (auto simp: blacklist_ready_def cb_wf_def cb_shape_def)
    with assms(2) show ?thesis by simp
  qed
  then show ?thesis by (simp add: replace_candidate_cell_def i)
qed

text \<open>
  C15: replacing a candidate returns when the black list holds one to five cells, has not wrapped,
  and the random numbers contain a draw that fits; the candidate is then replaced by a cell of the
  slotframe outside slot 0, on one of the four channels, in a slot without a link and not in the
  black list, and the candidates still have pairwise different timeslots.
\<close>

theorem replace_candidate_cell_returns:
  assumes "blacklist_ready (blacklist s)" and "length (candidate_cell_list s) = CAND_CELL_LIST_LEN"
    and "ts \<in> timeslot_offset ` set (candidate_cell_list s)"
    and "cell_free (tsch_schedule_get_slotframe_by_handle 0 s) (cell_at s (rand_pos s + 2 * n)) s"
    and "slot_at s (rand_pos s + 2 * n) \<notin> timeslot_offset ` set (candidate_cell_list s)"
  shows "\<exists>i p c. replace_candidate_cell ts s =
      Some (s\<lparr>rand_pos := p, candidate_cell_list := (candidate_cell_list s)[i := c]\<rparr>) \<and>
    i < CAND_CELL_LIST_LEN \<and> timeslot_offset (candidate_cell_list s ! i) = ts \<and> cell_ok c \<and>
    cell_free (tsch_schedule_get_slotframe_by_handle 0 s) c s \<and>
    (cells_ok (candidate_cell_list s) \<longrightarrow> cells_ok ((candidate_cell_list s)[i := c]))"
  using assms by (rule replace_candidate_ready)

text \<open>
  in every other state of the black list the replacement of a candidate does not return: with
  an empty black list the loop never counts the second check, and once a sixth cell was pushed and
  \<open>head\<close> has moved, the last entry is looked for behind the end of the ring.
\<close>

theorem replace_candidate_cell_stuck:
  assumes "cb_wf (blacklist s)" and "cb_count (blacklist s) = 0 \<or> 0 < cb_head (blacklist s)"
    and "length (candidate_cell_list s) = CAND_CELL_LIST_LEN"
    and "ts \<in> timeslot_offset ` set (candidate_cell_list s)"
  shows "replace_candidate_cell ts s = None"
  using assms by (intro replace_candidate_not_ready) (auto simp: blacklist_ready_def)

subsection \<open>Evaluating the interference\<close>

lemma cell_eq_iff:
  "(c :: sf_simple_cell) = d \<longleftrightarrow> timeslot_offset c = timeslot_offset d \<and> channel_offset c = channel_offset d"
  by (cases c, cases d) simp

lemma update_row_clear:
  "candidate_cell_list s ! i \<notin> set bads \<Longrightarrow> update_row i bads (ret, s) = Some (ret, s)"
  by (induction bads) (auto simp: update_cell_def cell_eq_iff)

lemma update_rows_clear:
  "\<forall>i\<in>set is. candidate_cell_list s ! i \<notin> set network_interfere_cells \<Longrightarrow>
   update_rows is (ret, s) = Some (ret, s)"
  by (induction "is") (auto simp: update_row_clear)

lemma update_row_stuck:
  assumes bad: "candidate_cell_list s ! i \<in> set bads"
    and stuck: "\<And>bad. bad = candidate_cell_list s ! i \<Longrightarrow> update_cell i bad (ret, s) = None"
  shows "update_row i bads (ret, s) = None"
  using bad
proof (induction bads)
  case (Cons b bs)
  show ?case
  proof (cases "b = candidate_cell_list s ! i")
    case True
    then show ?thesis by (simp add: stuck)
  next
    case False
    then have "update_cell i b (ret, s) = Some (ret, s)" by (auto simp: update_cell_def cell_eq_iff)
    with False Cons show ?thesis by simp
  qed
qed simp

lemma update_rows_stuck:
  assumes "i \<in> set is" and "candidate_cell_list s ! i \<in> set network_interfere_cells"
    and stuck: "\<And>j bad. j \<in> set is \<Longrightarrow> candidate_cell_list s ! j \<in> set network_interfere_cells \<Longrightarrow>
      bad = candidate_cell_list s ! j \<Longrightarrow> update_cell j bad (ret, s) = None"
  shows "update_rows is (ret, s) = None"
  using assms
proof (induction "is")
  case (Cons k ks)
  show ?case
  proof (cases "candidate_cell_list s ! k \<in> set network_interfere_cells")
    case True
    then have "update_row k network_interfere_cells (ret, s) = None"
      using Cons.prems(3) by (intro update_row_stuck) simp_all
    then show ?thesis by simp
  next
    case False
    then have "update_row k network_interfere_cells (ret, s) = Some (ret, s)" by (rule update_row_clear)
    moreover have "i \<in> set ks" using Cons.prems(1,2) False by auto
    ultimately show ?thesis using Cons.IH Cons.prems(2,3) by simp
  qed
qed simp

text \<open>A push onto a full ring whose oldest entry is at 0 moves \<open>head\<close>.\<close>

lemma push_full_head:
  assumes "cb_wf cb" and "cb_count cb = BLACKLIST_MAX_SIZE" and "cb_head cb = 0"
  shows "\<exists>cb'. push cb x = Some cb' \<and> cb_wf cb' \<and> \<not> blacklist_ready cb'"
proof -
  from push_full [OF assms(1,2), of x] obtain cb' where cb': "push cb x = Some cb'" "cb_wf cb'" by blast
  then have "cb_head cb' = 1"
    using assms by (auto simp: push_def Let_def BLACKLIST_MAX_SIZE_def split: if_splits)
  with cb' show ?thesis by (simp add: blacklist_ready_def)
qed

lemma update_cell_full:
  assumes "cb_wf (blacklist s)" "cb_count (blacklist s) = BLACKLIST_MAX_SIZE" "cb_head (blacklist s) = 0"
    and "length (candidate_cell_list s) = CAND_CELL_LIST_LEN" and "i < CAND_CELL_LIST_LEN"
  shows "update_cell i (candidate_cell_list s ! i) (ret, s) = None"
proof -
  obtain cb' where cb': "push (blacklist s) (candidate_cell_list s ! i) = Some cb'" "cb_wf cb'"
      "\<not> blacklist_ready cb'"
    using push_full_head [OF assms(1-3)] by blast
  have "replace_candidate_cell (timeslot_offset (candidate_cell_list s ! i)) (s\<lparr>blacklist := cb'\<rparr>) = None"
    using cb'(2,3) assms(4,5) by (intro replace_candidate_not_ready) simp_all
  then show ?thesis by (simp add: update_cell_def cb'(1))
qed

text \<open>
  when the black list is full, with its oldest entry at index 0, as the first five pushes leave
  it, the evaluation of the interference returns exactly when no candidate is in the table of
  interfered cells, and then changes nothing: the sixth interfered cell is fatal.
\<close>

theorem update_cand_cell_list_full:
  assumes "cb_wf (blacklist s)" and "cb_count (blacklist s) = BLACKLIST_MAX_SIZE"
    and "cb_head (blacklist s) = 0" and "length (candidate_cell_list s) = CAND_CELL_LIST_LEN"
  shows "update_cand_cell_list s =
    (if list_all (\<lambda>c. c \<notin> set network_interfere_cells) (candidate_cell_list s) then Some (0, s) else None)"
proof (cases "list_all (\<lambda>c. c \<notin> set network_interfere_cells) (candidate_cell_list s)")
  case True
  then have "\<forall>i\<in>set [0..<CAND_CELL_LIST_LEN]. candidate_cell_list s ! i \<notin> set network_interfere_cells"
    using assms(4) by (auto simp: list_all_length)
  from update_rows_clear [OF this] True show ?thesis by (simp add: update_cand_cell_list_def)
next
  case False
  then obtain i where i: "i < CAND_CELL_LIST_LEN" "candidate_cell_list s ! i \<in> set network_interfere_cells"
    using assms(4) by (auto simp: list_all_length)
  have "update_rows [0..<CAND_CELL_LIST_LEN] (0, s) = None"
    using i by (intro update_rows_stuck) (auto simp: update_cell_full [OF assms])
  with False show ?thesis by (simp add: update_cand_cell_list_def)
qed

text \<open>An interfered last candidate: the code goes on to the cell behind the list.\<close>

lemma replace_loop_length:
  "replace_loop sf i s = Some s' \<Longrightarrow> length (candidate_cell_list s') = length (candidate_cell_list s)"
proof (rule replace_loop.raw_induct [where P = "\<lambda>sf i s s'. length (candidate_cell_list s') =
    length (candidate_cell_list s)", of sf i s s'])
  fix f :: "nat option \<Rightarrow> nat \<Rightarrow> 'a alloc_state_scheme \<Rightarrow> 'a alloc_state_scheme option" and sf i s s'
  assume IH: "\<And>sf i s s'. f sf i s = Some s' \<Longrightarrow> length (candidate_cell_list s') = length (candidate_cell_list s)"
    and r: "do { (found_valid_slot, s1) \<leftarrow> replace_round sf i s;
       (if found_valid_slot \<noteq> 2 then f sf i s1 else Some s1) } = Some s'"
  then obtain n s1 where n: "replace_round sf i s = Some (n, s1)"
    and d: "(if n \<noteq> 2 then f sf i s1 else Some s1) = Some s'"
    by (auto split: bind_splits)
  have "length (candidate_cell_list s1) = length (candidate_cell_list s)"
    using n by (auto simp: replace_round_def draw_cell_eq Let_def split: if_splits bind_splits)
  with d IH show "length (candidate_cell_list s') = length (candidate_cell_list s)"
    by (auto split: if_splits)
qed

lemma replace_candidate_cell_length:
  "replace_candidate_cell ts s = Some s' \<Longrightarrow> length (candidate_cell_list s') = length (candidate_cell_list s)"
  by (auto simp: replace_candidate_cell_def Let_def replace_loop_length split: option.splits)

lemma update_cell_last:
  assumes "length (candidate_cell_list s) = CAND_CELL_LIST_LEN"
  shows "update_cell 8 (candidate_cell_list s ! 8) (ret, s) = None"
proof -
  let ?ts = "timeslot_offset (candidate_cell_list s ! 8)"
  have "do { s1 \<leftarrow> replace_candidate_cell ?ts (s\<lparr>blacklist := bl\<rparr>);
      s2 \<leftarrow> (if 8 + 1 < length (candidate_cell_list s1)
        then replace_candidate_cell (timeslot_offset (candidate_cell_list s1 ! (8 + 1))) s1 else None);
      Some (1, s2) } = (None :: (u8 \<times> 'a alloc_state_scheme) option)" for bl
  proof (cases "replace_candidate_cell ?ts (s\<lparr>blacklist := bl\<rparr>)")
    case (Some s1)
    from replace_candidate_cell_length [OF Some] assms have "length (candidate_cell_list s1) = 9"
      by (simp add: CAND_CELL_LIST_LEN_def)
    then show ?thesis by (simp add: Some)
  qed simp
  then show ?thesis unfolding update_cell_def by (cases "push (blacklist s) (candidate_cell_list s ! 8)") simp_all
qed

theorem update_cand_cell_list_last:
  assumes "length (candidate_cell_list s) = CAND_CELL_LIST_LEN"
    and "\<forall>i<8. candidate_cell_list s ! i \<notin> set network_interfere_cells"
    and "candidate_cell_list s ! 8 \<in> set network_interfere_cells"
  shows "update_cand_cell_list s = None"
proof -
  have "update_rows [0..<CAND_CELL_LIST_LEN] (0, s) = None"
  proof (rule update_rows_stuck [of 8])
    fix j bad
    assume "j \<in> set [0..<CAND_CELL_LIST_LEN]" "candidate_cell_list s ! j \<in> set network_interfere_cells"
      "bad = candidate_cell_list s ! j"
    moreover from this have "j = 8" using assms(2) by (cases "j < 8") (auto simp: CAND_CELL_LIST_LEN_def)
    ultimately show "update_cell j bad (0, s) = None" using update_cell_last [OF assms(1)] by simp
  qed (use assms in \<open>simp_all add: CAND_CELL_LIST_LEN_def\<close>)
  then show ?thesis by (simp add: update_cand_cell_list_def)
qed

subsection \<open>Examples\<close>

definition alloc_example :: alloc_state where
  "alloc_example = sixp_state.extend sixp_idle
     \<lparr>candidate_cell_list = map (\<lambda>t. \<lparr>timeslot_offset = t, channel_offset = 1\<rparr>) [1, 2, 3, 5, 6, 7, 8, 10, 11],
      blacklist = blacklist_example\<rparr>"

lemma alloc_example_fields [simp]:
  "candidate_cell_list alloc_example =
     map (\<lambda>t. \<lparr>timeslot_offset = t, channel_offset = 1\<rparr>) [1, 2, 3, 5, 6, 7, 8, 10, 11]"
  "blacklist alloc_example = blacklist_example"
  by (simp_all add: alloc_example_def sixp_state.extend_def)

theorem init_advanced_cell_alloc_returns_witness:
  "\<exists>s'. init_advanced_cell_alloc alloc_example = Some s' \<and> 0 < length (candidate_cell_list s') \<and>
     cell_ok (candidate_cell_list s' ! 0)"
proof -
  have "\<exists>s' n. init_advanced_cell_alloc alloc_example = Some s' \<and> 0 < n \<and> n \<le> CAND_CELL_LIST_LEN \<and>
    cells_ok (take n (candidate_cell_list s')) \<and>
    drop n (candidate_cell_list s') = drop n (candidate_cell_list alloc_example) \<and>
    length (candidate_cell_list s') = CAND_CELL_LIST_LEN \<and>
    (n = CAND_CELL_LIST_LEN \<or> repeated_draws alloc_example (rand_pos s') 100
       (timeslot_offset ` set (take n (candidate_cell_list s')))) \<and>
    cb_wf (blacklist s') \<and> cb_contents (blacklist s') = []"
    by (rule init_advanced_cell_alloc_returns)
      (simp_all add: CAND_CELL_LIST_LEN_def cb_shape_def blacklist_example_def)
  then obtain s' n where r: "init_advanced_cell_alloc alloc_example = Some s'" "0 < n"
    "cells_ok (take n (candidate_cell_list s'))" "length (candidate_cell_list s') = 9"
    by (auto simp: CAND_CELL_LIST_LEN_def)
  from r(2-4) have "cell_ok (candidate_cell_list s' ! 0)"
    by (auto simp: cells_ok_def list_all_length)
  with r show ?thesis by auto
qed

theorem replace_candidate_cell_stuck_witness: "replace_candidate_cell 5 alloc_example = None"
  by (rule replace_candidate_cell_stuck)
    (simp_all add: CAND_CELL_LIST_LEN_def blacklist_example_def cb_wf_def cb_shape_def BLACKLIST_MAX_SIZE_def)


definition blacklist_of :: "sf_simple_cell list \<Rightarrow> circular_buffer" where
  "blacklist_of cs = blacklist_example
     \<lparr>cb_buffer := cs @ drop (length cs) (cb_buffer blacklist_example),
      cb_tail := length cs mod BLACKLIST_MAX_SIZE, cb_count := length cs\<rparr>"

lemma blacklist_of_wf: "length cs \<le> 5 \<Longrightarrow> cb_wf (blacklist_of cs)"
  by (simp add: blacklist_of_def cb_wf_def cb_shape_def blacklist_example_def BLACKLIST_MAX_SIZE_def)

lemma blacklist_of_fields [simp]:
  "cb_head (blacklist_of cs) = 0" "cb_count (blacklist_of cs) = length cs"
  by (simp_all add: blacklist_of_def blacklist_example_def)

lemma alloc_example_draw:
  "cell_at alloc_example p = \<lparr>timeslot_offset = 52, channel_offset = 0\<rparr>"
  "tsch_schedule_get_link_by_timeslot (tsch_schedule_get_slotframe_by_handle 0 alloc_example) 52 alloc_example = None"
  by (simp_all add: cell_at_def slot_at_def channel_at_def tsch_schedule_get_link_by_timeslot_def
      tsch_schedule_get_slotframe_by_handle_def tsch_is_locked_def TSCH_SCHEDULE_DEFAULT_LENGTH_def
      NUMBER_OF_CHANNELS_def alloc_example_def sixp_state.extend_def sixp_idle_def sixp_buf_example_def
      sixp_example_def sixp_nbr_state.extend_def sixp_nbr_example_def tsch_sched_state.extend_def
      sched_example_def tsch_queue_state.extend_def tsch_example_def)

theorem replace_candidate_cell_returns_witness:
  "\<exists>i p c. replace_candidate_cell 5 (alloc_example\<lparr>blacklist := blacklist_of [\<lparr>timeslot_offset = 2, channel_offset = 3\<rparr>]\<rparr>) =
      Some (alloc_example\<lparr>blacklist := blacklist_of [\<lparr>timeslot_offset = 2, channel_offset = 3\<rparr>], rand_pos := p,
        candidate_cell_list := (candidate_cell_list alloc_example)[i := c]\<rparr>) \<and> i < 9 \<and> cell_ok c"
proof -
  let ?s = "alloc_example\<lparr>blacklist := blacklist_of [\<lparr>timeslot_offset = 2, channel_offset = 3\<rparr>]\<rparr>"
  have c: "cell_at ?s p = cell_at alloc_example p" for p
    by (simp add: cell_at_def slot_at_def channel_at_def)
  have k: "cb_contents (blacklist ?s) = [\<lparr>timeslot_offset = 2, channel_offset = 3\<rparr>]"
    by (simp add: cb_contents_def blacklist_of_def blacklist_example_def)
  have g: "tsch_schedule_get_link_by_timeslot (tsch_schedule_get_slotframe_by_handle 0 ?s) 52 ?s =
      tsch_schedule_get_link_by_timeslot (tsch_schedule_get_slotframe_by_handle 0 alloc_example) 52 alloc_example"
    by (simp add: tsch_schedule_get_link_by_timeslot_def tsch_schedule_get_slotframe_by_handle_def tsch_is_locked_def
        cong: option.case_cong)
  have "\<exists>i p c. replace_candidate_cell 5 ?s =
      Some (?s\<lparr>rand_pos := p, candidate_cell_list := (candidate_cell_list ?s)[i := c]\<rparr>) \<and>
    i < CAND_CELL_LIST_LEN \<and> timeslot_offset (candidate_cell_list ?s ! i) = 5 \<and> cell_ok c \<and>
    cell_free (tsch_schedule_get_slotframe_by_handle 0 ?s) c ?s \<and>
    (cells_ok (candidate_cell_list ?s) \<longrightarrow> cells_ok ((candidate_cell_list ?s)[i := c]))"
  proof (rule replace_candidate_cell_returns)
    show "blacklist_ready (blacklist ?s)" by (simp add: blacklist_ready_def blacklist_of_wf)
    show "length (candidate_cell_list ?s) = CAND_CELL_LIST_LEN" by (simp add: CAND_CELL_LIST_LEN_def)
    show "5 \<in> timeslot_offset ` set (candidate_cell_list ?s)" by simp
    show "cell_free (tsch_schedule_get_slotframe_by_handle 0 ?s) (cell_at ?s (rand_pos ?s + 2 * 0)) ?s"
      using g k alloc_example_draw unfolding cell_free_def c by simp
    have "slot_at ?s q = 52" for q
      using alloc_example_draw(1) [of q] c [of q] by (simp add: cell_at_def)
    then show "slot_at ?s (rand_pos ?s + 2 * 0) \<notin> timeslot_offset ` set (candidate_cell_list ?s)" by simp
  qed
  then obtain i p c where r: "replace_candidate_cell 5 ?s =
      Some (?s\<lparr>rand_pos := p, candidate_cell_list := (candidate_cell_list ?s)[i := c]\<rparr>)"
    "i < CAND_CELL_LIST_LEN" "timeslot_offset (candidate_cell_list ?s ! i) = 5" "cell_ok c" by blast
  from r(2) have "i < 9" by (simp add: CAND_CELL_LIST_LEN_def)
  with r show ?thesis by auto
qed

theorem update_cand_cell_list_full_witness:
  "update_cand_cell_list
     (alloc_example\<lparr>blacklist := blacklist_of (replicate 5 \<lparr>timeslot_offset = 4, channel_offset = 1\<rparr>)\<rparr>) = None"
proof -
  let ?s = "alloc_example\<lparr>blacklist := blacklist_of (replicate 5 \<lparr>timeslot_offset = 4, channel_offset = 1\<rparr>)\<rparr>"
  have "update_cand_cell_list ?s =
    (if list_all (\<lambda>c. c \<notin> set network_interfere_cells) (candidate_cell_list ?s) then Some (0, ?s) else None)"
    by (rule update_cand_cell_list_full)
      (simp_all add: blacklist_of_wf CAND_CELL_LIST_LEN_def BLACKLIST_MAX_SIZE_def)
  moreover have "\<lparr>timeslot_offset = 8, channel_offset = 1\<rparr> \<in> set network_interfere_cells"
    by (simp add: network_interfere_cells_def)
  ultimately show ?thesis by simp
qed

end
