(* ===== verification/Sf_Simple.thy ===== *)
theory Sf_Simple
  imports Cell_Alloc
begin

section \<open>The scheduling function of the thesis\<close>

text \<open>
  Model of \<open>examples/ba_benjamin_ko/sf-simple.c\<close>: the handlers of 6P requests and responses, the
  callbacks for sent responses, and the functions that start an ADD, DELETE or RELOCATE
  transaction.  The file-scope arrays extend the state.  A pointer into a received message is the
  list of bytes from there on; a cell in memory is the little-endian bytes of its two fields.  The
  argument of the callbacks is 1 for the address of \<open>res_storage\<close> and 0 for NULL: they read the
  array as it is when the frame was sent.  A failing \<open>assert\<close> stops the node, which is \<open>None\<close>.
  Output for logging is left out; \<open>print_cell_list\<close> reads the cells that the code reads anyway.
\<close>

record sf_state = alloc_state +
  res_storage :: "u8 list"
  req_storage :: "u8 list"
  current_cell_to_be_relocated :: sf_simple_cell

definition SF_SIMPLE_SFID :: u8 where "SF_SIMPLE_SFID = 0xf0"
definition slotframe_handle :: u16 where "slotframe_handle = 0"

text \<open>The size of \<open>res_storage\<close> and \<open>req_storage\<close>.\<close>

abbreviation (input) STORAGE_SIZE :: nat where "STORAGE_SIZE \<equiv> 4 + SF_SIMPLE_MAX_LINKS * 4"

abbreviation (input) ADD_RESPONSE_SENT :: nat where "ADD_RESPONSE_SENT \<equiv> 0"
abbreviation (input) DELETE_RESPONSE_SENT :: nat where "DELETE_RESPONSE_SENT \<equiv> 1"
abbreviation (input) RELOCATE_RESPONSE_SENT :: nat where "RELOCATE_RESPONSE_SENT \<equiv> 2"
abbreviation (input) ADD_REQUEST_SENT :: nat where "ADD_REQUEST_SENT \<equiv> 3"
abbreviation (input) RELOCATE_REQUEST_SENT :: nat where "RELOCATE_REQUEST_SENT \<equiv> 4"
abbreviation (input) RES_STORAGE :: nat where "RES_STORAGE \<equiv> 1"

definition read_cell :: "u8 list \<Rightarrow> nat \<Rightarrow> sf_simple_cell ub" where
  "read_cell buf off = do {
     bs \<leftarrow> mem_read buf off 4;
     Some \<lparr>timeslot_offset = un_le16 (take 2 bs), channel_offset = un_le16 (drop 2 bs)\<rparr>
   }"

definition cell_bytes :: "sf_simple_cell \<Rightarrow> u8 list" where
  "cell_bytes c = le16 (timeslot_offset c) @ le16 (channel_offset c)"

subsection \<open>Changing the schedule\<close>

function add_links_loop ::
  "('a sf_state_scheme) queue_env \<Rightarrow> nat option \<Rightarrow> linkaddr \<Rightarrow> u8 \<Rightarrow> u8 list \<Rightarrow> u16 \<Rightarrow> nat \<Rightarrow>
   'a sf_state_scheme \<Rightarrow> 'a sf_state_scheme ub" where
  "add_links_loop qe slotframe peer_addr link_option cell_list cell_list_len i s =
     (if i < unat cell_list_len
      then case read_cell cell_list i of
             None \<Rightarrow> None
           | Some cell \<Rightarrow>
               if timeslot_offset cell = 0xffff
               then add_links_loop qe slotframe peer_addr link_option cell_list cell_list_len (i + 4) s
               else Some (snd (tsch_schedule_add_link qe slotframe link_option LINK_TYPE_NORMAL
                      (Some peer_addr) (timeslot_offset cell) (channel_offset cell) True s))
      else Some s)"
  by pat_completeness auto
termination by (relation "measure (\<lambda>(_, _, _, _, _, n, i, _). unat n - i)") auto

declare add_links_loop.simps [simp del]

definition add_links_to_schedule ::
  "('a sf_state_scheme) queue_env \<Rightarrow> linkaddr \<Rightarrow> u8 \<Rightarrow> u8 list option \<Rightarrow> u16 \<Rightarrow>
   'a sf_state_scheme \<Rightarrow> 'a sf_state_scheme ub" where
  "add_links_to_schedule qe peer_addr link_option cell_list cell_list_len s =
     (case cell_list of
        None \<Rightarrow> None
      | Some cl \<Rightarrow>
          (let slotframe = tsch_schedule_get_slotframe_by_handle slotframe_handle s
           in if slotframe = None then Some s
              else add_links_loop qe slotframe peer_addr link_option cl cell_list_len 0 s))"

definition add_mock_auto_cell ::
  "('a sf_state_scheme) queue_env \<Rightarrow> linkaddr \<Rightarrow> u8 \<Rightarrow> u8 \<Rightarrow> u8 \<Rightarrow> 'a sf_state_scheme \<Rightarrow>
   'a sf_state_scheme ub" where
  "add_mock_auto_cell qe peer_addr link_option timeslot channelOffset s =
     add_links_to_schedule qe peer_addr link_option
       (Some (cell_bytes \<lparr>timeslot_offset = ucast timeslot, channel_offset = ucast channelOffset\<rparr>)) 4 s"

function remove_links_loop ::
  "nat option \<Rightarrow> u8 list \<Rightarrow> u16 \<Rightarrow> nat \<Rightarrow> 'a sf_state_scheme \<Rightarrow> 'a sf_state_scheme ub" where
  "remove_links_loop slotframe cell_list cell_list_len i s =
     (if i < unat cell_list_len
      then case read_cell cell_list i of
             None \<Rightarrow> None
           | Some cell \<Rightarrow>
               remove_links_loop slotframe cell_list cell_list_len (i + 4)
                 (if timeslot_offset cell = 0xffff then s
                  else snd (tsch_schedule_remove_link_by_offsets slotframe
                         (timeslot_offset cell) (channel_offset cell) s))
      else Some s)"
  by pat_completeness auto
termination by (relation "measure (\<lambda>(_, _, n, i, _). unat n - i)") auto

declare remove_links_loop.simps [simp del]

definition remove_links_to_schedule ::
  "u8 list option \<Rightarrow> u16 \<Rightarrow> 'a sf_state_scheme \<Rightarrow> 'a sf_state_scheme ub" where
  "remove_links_to_schedule cell_list cell_list_len s =
     (case cell_list of
        None \<Rightarrow> None
      | Some cl \<Rightarrow>
          (let slotframe = tsch_schedule_get_slotframe_by_handle slotframe_handle s
           in if slotframe = None then Some s
              else remove_links_loop slotframe cl cell_list_len 0 s))"

subsection \<open>Callbacks for sent responses\<close>

text \<open>The cell list of the response in \<open>res_storage\<close>, if the callback is to act on it.\<close>

definition sent_response_cells ::
  "u8 list \<Rightarrow> u16 \<Rightarrow> linkaddr \<Rightarrow> sixp_output_status \<Rightarrow> 'a sf_state_scheme \<Rightarrow> (u8 list \<times> u16) option" where
  "sent_response_cells body body_len dest_addr status s =
     (case sixp_pkt_get_cell_list SIXP_PKT_TYPE_RESPONSE SIXP_PKT_RC_SUCCESS (Some 0) (Some 0) (Some body) body_len of
        (ret, ptr, len) \<Rightarrow>
          if status = SIXP_OUTPUT_STATUS_SUCCESS \<and> ret = 0 \<and> sixp_nbr_find (Some dest_addr) s \<noteq> None
          then Some (drop (the ptr) body, the len) else None)"

definition callback_body :: "nat \<Rightarrow> 'a sf_state_scheme \<Rightarrow> u8 list option" where
  "callback_body arg s = (if arg = RES_STORAGE then Some (res_storage s) else None)"

definition add_response_sent_callback ::
  "('a sf_state_scheme) queue_env \<Rightarrow> nat \<Rightarrow> u16 \<Rightarrow> linkaddr \<Rightarrow> sixp_output_status \<Rightarrow>
   'a sf_state_scheme \<Rightarrow> 'a sf_state_scheme ub" where
  "add_response_sent_callback qe arg arg_len dest_addr status s = do {
     body \<leftarrow> callback_body arg s;
     (case sent_response_cells body arg_len dest_addr status s of
        Some (cell_list, cell_list_len) \<Rightarrow>
          add_links_to_schedule qe dest_addr LINK_OPTION_RX (Some cell_list) cell_list_len s
      | None \<Rightarrow> Some s)
   }"

definition delete_response_sent_callback ::
  "nat \<Rightarrow> u16 \<Rightarrow> linkaddr \<Rightarrow> sixp_output_status \<Rightarrow> 'a sf_state_scheme \<Rightarrow> 'a sf_state_scheme ub" where
  "delete_response_sent_callback arg arg_len dest_addr status s = do {
     body \<leftarrow> callback_body arg s;
     (case sent_response_cells body arg_len dest_addr status s of
        Some (cell_list, cell_list_len) \<Rightarrow> remove_links_to_schedule (Some cell_list) cell_list_len s
      | None \<Rightarrow> Some s)
   }"

definition relocate_response_sent_callback ::
  "('a sf_state_scheme) queue_env \<Rightarrow> nat \<Rightarrow> u16 \<Rightarrow> linkaddr \<Rightarrow> sixp_output_status \<Rightarrow>
   'a sf_state_scheme \<Rightarrow> 'a sf_state_scheme ub" where
  "relocate_response_sent_callback qe arg arg_len dest_addr status s = do {
     body \<leftarrow> callback_body arg s;
     (case sent_response_cells body arg_len dest_addr status s of
        Some (cand_cell_list, cand_cell_list_len) \<Rightarrow> do {
          s1 \<leftarrow> add_links_to_schedule qe dest_addr LINK_OPTION_RX (Some cand_cell_list) cand_cell_list_len s;
          remove_links_to_schedule (Some (cell_bytes (current_cell_to_be_relocated s1))) 4 s1
        }
      | None \<Rightarrow> Some s)
   }"

text \<open>The function pointers; those of the requests only write to the log.\<close>

definition sf_sent_callback ::
  "('a sf_state_scheme) queue_env \<Rightarrow> nat \<Rightarrow> nat \<Rightarrow> u16 \<Rightarrow> linkaddr \<Rightarrow> sixp_output_status \<Rightarrow>
   'a sf_state_scheme \<Rightarrow> 'a sf_state_scheme ub" where
  "sf_sent_callback qe func arg arg_len dest_addr status s =
     (if func = ADD_RESPONSE_SENT then add_response_sent_callback qe arg arg_len dest_addr status s
      else if func = DELETE_RESPONSE_SENT then delete_response_sent_callback arg arg_len dest_addr status s
      else if func = RELOCATE_RESPONSE_SENT then relocate_response_sent_callback qe arg arg_len dest_addr status s
      else Some s)"

subsection \<open>Requests\<close>

text \<open>
  The loop over a candidate list: cells whose timeslot is free are written to the response, up to
  the number asked for.  The index \<open>i\<close> has eight bits, so the loop need not end on a list of
  256 bytes.  The number of cells found is the byte offset given to \<open>sixp_pkt_set_cell_list\<close>.
\<close>

partial_function (option) feasible_loop ::
  "nat option \<Rightarrow> u8 list \<Rightarrow> u16 \<Rightarrow> u8 \<Rightarrow> u8 \<Rightarrow> nat \<Rightarrow> u16 \<Rightarrow> 'a sf_state_scheme \<Rightarrow>
   (nat \<times> u16 \<times> 'a sf_state_scheme) option" where
  "feasible_loop slotframe cell_list cell_list_len num_cells i feasible_link res_len s =
     (if ucast i < cell_list_len \<and> feasible_link < unat num_cells
      then do {
        cell \<leftarrow> read_cell cell_list (unat i);
        (if tsch_schedule_get_link_by_timeslot slotframe (timeslot_offset cell) s = None
         then do {
           (_, st) \<leftarrow> sixp_pkt_set_cell_list SIXP_PKT_TYPE_RESPONSE SIXP_PKT_RC_SUCCESS
             (Some (cell_bytes cell)) 4 (of_nat feasible_link) (Some (res_storage s)) (of_nat STORAGE_SIZE);
           feasible_loop slotframe cell_list cell_list_len num_cells (i + 4) (feasible_link + 1) (res_len + 4)
             (s\<lparr>res_storage := the st\<rparr>)
         }
         else feasible_loop slotframe cell_list cell_list_len num_cells (i + 4) feasible_link res_len s)
      }
      else Some (feasible_link, res_len, s))"

definition clear_res_storage :: "'a sf_state_scheme \<Rightarrow> 'a sf_state_scheme" where
  "clear_res_storage s = s\<lparr>res_storage := replicate (length (res_storage s)) 0\<rparr>"

definition send_response ::
  "('a sf_state_scheme) sixp_env \<Rightarrow> nat \<Rightarrow> u16 \<Rightarrow> linkaddr \<Rightarrow> 'a sf_state_scheme \<Rightarrow> 'a sf_state_scheme ub" where
  "send_response env callback res_len peer_addr s =
     map_option snd (sixp_output env SIXP_PKT_TYPE_RESPONSE SIXP_PKT_RC_SUCCESS SF_SIMPLE_SFID
       (Some (res_storage s)) res_len peer_addr (Some callback) RES_STORAGE res_len s)"

definition add_req_input ::
  "('a sf_state_scheme) sixp_env \<Rightarrow> u8 list \<Rightarrow> u16 \<Rightarrow> linkaddr \<Rightarrow> 'a sf_state_scheme \<Rightarrow> 'a sf_state_scheme ub" where
  "add_req_input env body body_len peer_addr s = do {
     (r1, num_cells) \<leftarrow> sixp_pkt_get_num_cells SIXP_PKT_TYPE_REQUEST SIXP_PKT_CMD_ADD (Some 0) (Some body) body_len;
     (case sixp_pkt_get_cell_list SIXP_PKT_TYPE_REQUEST SIXP_PKT_CMD_ADD (Some 0) (Some 0) (Some body) body_len of
        (r2, ptr, len) \<Rightarrow>
          if r1 \<noteq> 0 \<or> r2 \<noteq> 0 then Some s
          else let slotframe = tsch_schedule_get_slotframe_by_handle slotframe_handle s
          in if slotframe = None then Some s
          else if 0 < the num_cells \<and> 0 < the len
          then do {
            (feasible_link, res_len, s1) \<leftarrow> feasible_loop slotframe (drop (the ptr) body) (the len)
              (the num_cells) 0 0 0 (clear_res_storage s);
            (if feasible_link = unat (the num_cells)
             then send_response env ADD_RESPONSE_SENT res_len peer_addr s1 else Some s1)
          }
          else Some s)
   }"

text \<open>The loop of \<open>delete_req_input\<close>; \<open>removed_link\<close> stays 0.\<close>

partial_function (option) delete_loop ::
  "nat option \<Rightarrow> u8 list \<Rightarrow> u16 \<Rightarrow> u8 \<Rightarrow> u16 \<Rightarrow> 'a sf_state_scheme \<Rightarrow> (u16 \<times> 'a sf_state_scheme) option" where
  "delete_loop slotframe cell_list cell_list_len i res_len s =
     (if ucast i < cell_list_len
      then do {
        cell \<leftarrow> read_cell cell_list (unat i);
        (if tsch_schedule_get_link_by_offsets slotframe (timeslot_offset cell) (channel_offset cell) s \<noteq> None
         then do {
           (_, st) \<leftarrow> sixp_pkt_set_cell_list SIXP_PKT_TYPE_RESPONSE SIXP_PKT_RC_SUCCESS
             (Some (cell_bytes cell)) 4 0 (Some (res_storage s)) (of_nat STORAGE_SIZE);
           delete_loop slotframe cell_list cell_list_len (i + 4) (res_len + 4) (s\<lparr>res_storage := the st\<rparr>)
         }
         else delete_loop slotframe cell_list cell_list_len (i + 4) res_len s)
      }
      else Some (res_len, s))"

definition delete_req_input ::
  "('a sf_state_scheme) sixp_env \<Rightarrow> u8 list \<Rightarrow> u16 \<Rightarrow> linkaddr \<Rightarrow> 'a sf_state_scheme \<Rightarrow> 'a sf_state_scheme ub" where
  "delete_req_input env body body_len peer_addr s = do {
     (r1, num_cells) \<leftarrow> sixp_pkt_get_num_cells SIXP_PKT_TYPE_REQUEST SIXP_PKT_CMD_DELETE (Some 0) (Some body) body_len;
     (case sixp_pkt_get_cell_list SIXP_PKT_TYPE_REQUEST SIXP_PKT_CMD_DELETE (Some 0) (Some 0) (Some body) body_len of
        (r2, ptr, len) \<Rightarrow>
          if r1 \<noteq> 0 \<or> r2 \<noteq> 0 then Some s
          else let slotframe = tsch_schedule_get_slotframe_by_handle slotframe_handle s
          in if slotframe = None then Some s
          else do {
            (res_len, s1) \<leftarrow> (if 0 < the num_cells \<and> 0 < the len
              then delete_loop slotframe (drop (the ptr) body) (the len) 0 0 (clear_res_storage s)
              else Some (0, clear_res_storage s));
            send_response env DELETE_RESPONSE_SENT res_len peer_addr s1
          })
   }"

definition relocate_req_input ::
  "('a sf_state_scheme) sixp_env \<Rightarrow> u8 list \<Rightarrow> u16 \<Rightarrow> linkaddr \<Rightarrow> 'a sf_state_scheme \<Rightarrow> 'a sf_state_scheme ub" where
  "relocate_req_input env body body_len peer_addr s = do {
     (r1, num_cells) \<leftarrow> sixp_pkt_get_num_cells SIXP_PKT_TYPE_REQUEST SIXP_PKT_CMD_RELOCATE (Some 0) (Some body) body_len;
     (r2, rel_ptr, rel_len) \<leftarrow> sixp_pkt_get_rel_cell_list SIXP_PKT_TYPE_REQUEST SIXP_PKT_CMD_RELOCATE
       (Some 0) (Some 0) (Some body) body_len;
     (r3, cand_ptr, cand_len) \<leftarrow> sixp_pkt_get_cand_cell_list SIXP_PKT_TYPE_REQUEST SIXP_PKT_CMD_RELOCATE
       (Some 0) (Some 0) (Some body) body_len;
     (if r1 \<noteq> 0 \<or> r2 \<noteq> 0 \<or> r3 \<noteq> 0 then Some s
      else let slotframe = tsch_schedule_get_slotframe_by_handle slotframe_handle s
      in if slotframe = None then Some s
      else if 0 < the num_cells \<and> 0 < the rel_len \<and> 0 < the cand_len
      then do {
        (feasible_link, res_len, s1) \<leftarrow> feasible_loop slotframe (drop (the cand_ptr) body) (the cand_len)
          (the num_cells) 0 0 0 (clear_res_storage s);
        (if feasible_link = unat (the num_cells)
         then do {
           cell \<leftarrow> read_cell body (the rel_ptr);
           send_response env RELOCATE_RESPONSE_SENT res_len peer_addr (s1\<lparr>current_cell_to_be_relocated := cell\<rparr>)
         }
         else Some s1)
      }
      else Some s)
   }"

definition request_input ::
  "('a sf_state_scheme) sixp_env \<Rightarrow> u8 \<Rightarrow> u8 list option \<Rightarrow> u16 \<Rightarrow> linkaddr \<Rightarrow>
   'a sf_state_scheme \<Rightarrow> 'a sf_state_scheme ub" where
  "request_input env cmd body body_len peer_addr s =
     (case body of
        None \<Rightarrow> None
      | Some b \<Rightarrow>
          if cmd = SIXP_PKT_CMD_ADD then add_req_input env b body_len peer_addr s
          else if cmd = SIXP_PKT_CMD_DELETE then delete_req_input env b body_len peer_addr s
          else if cmd = SIXP_PKT_CMD_RELOCATE then relocate_req_input env b body_len peer_addr s
          else Some s)"

subsection \<open>Responses\<close>

definition add_response_input ::
  "('a sf_state_scheme) sixp_env \<Rightarrow> u8 list \<Rightarrow> u16 \<Rightarrow> linkaddr \<Rightarrow> 'a sf_state_scheme \<Rightarrow> 'a sf_state_scheme ub" where
  "add_response_input env cell_list cell_list_len peer_addr s = do {
     s1 \<leftarrow> add_links_to_schedule (sx_queue env) peer_addr LINK_OPTION_TX (Some cell_list) cell_list_len s;
     added_cell \<leftarrow> read_cell cell_list 0;
     replace_candidate_cell (timeslot_offset added_cell) s1
   }"

definition relocate_response_input ::
  "('a sf_state_scheme) sixp_env \<Rightarrow> u8 list \<Rightarrow> u16 \<Rightarrow> linkaddr \<Rightarrow> 'a sf_state_scheme \<Rightarrow> 'a sf_state_scheme ub" where
  "relocate_response_input env cand_cell_list cand_cell_list_len peer_addr s = do {
     cand \<leftarrow> mem_read cand_cell_list 0 2;
     s1 \<leftarrow> replace_candidate_cell (un_le16 cand) s;
     s2 \<leftarrow> add_links_to_schedule (sx_queue env) peer_addr LINK_OPTION_TX (Some cand_cell_list) cand_cell_list_len s1;
     remove_links_to_schedule (Some (cell_bytes (current_cell_to_be_relocated s2))) 4 s2
   }"

definition response_input ::
  "('a sf_state_scheme) sixp_env \<Rightarrow> u8 \<Rightarrow> u8 list option \<Rightarrow> u16 \<Rightarrow> linkaddr \<Rightarrow>
   'a sf_state_scheme \<Rightarrow> 'a sf_state_scheme ub" where
  "response_input env rc body body_len peer_addr s =
     (case body of
        None \<Rightarrow> None
      | Some b \<Rightarrow>
          let nbr = sixp_nbr_find (Some peer_addr) s; trans = sixp_trans_find (Some peer_addr) s
          in if nbr = None \<or> trans = None then Some s
          else if rc = SIXP_PKT_RC_SUCCESS
          then (case sixp_pkt_get_cell_list SIXP_PKT_TYPE_RESPONSE SIXP_PKT_RC_SUCCESS (Some 0) (Some 0) (Some b) body_len of
             (r, ptr, len) \<Rightarrow>
               let cmd = sixp_trans_get_cmd trans s
               in if cmd = SIXP_PKT_CMD_ADD
               then if r \<noteq> 0 then Some s else add_response_input env (drop (the ptr) b) (the len) peer_addr s
               else if cmd = SIXP_PKT_CMD_DELETE
               then if r \<noteq> 0 then Some s else remove_links_to_schedule (Some (drop (the ptr) b)) (the len) s
               else if cmd = SIXP_PKT_CMD_RELOCATE
               then if r \<noteq> 0 then Some s else relocate_response_input env (drop (the ptr) b) (the len) peer_addr s
               else Some s)
          else Some s)"

text \<open>The input handler of the driver (\<open>input\<close> in the code).\<close>

definition sf_simple_input ::
  "('a sf_state_scheme) sixp_env \<Rightarrow> ('a sf_state_scheme) sf_input" where
  "sf_simple_input env type code body body_len src_addr s =
     (case body of
        None \<Rightarrow> None
      | Some b \<Rightarrow>
          (case type of
             SIXP_PKT_TYPE_REQUEST \<Rightarrow> request_input env code body body_len src_addr s
           | SIXP_PKT_TYPE_RESPONSE \<Rightarrow> response_input env code body body_len src_addr s
           | _ \<Rightarrow> Some s))"

definition sf_simple_timeout :: "u8 \<Rightarrow> linkaddr \<Rightarrow> 'a sf_state_scheme \<Rightarrow> 'a sf_state_scheme ub" where
  "sf_simple_timeout cmd peer_addr s = Some s"

definition sf_simple_driver :: "nat \<Rightarrow> ('a sf_state_scheme) sixtop_sf" where
  "sf_simple_driver clock_second =
     \<lparr>sf_sfid = SF_SIMPLE_SFID, sf_timeout_interval = clock_second * 2, sf_init = None,
      sf_timeout = Some sf_simple_timeout, sf_error = None\<rparr>"

subsection \<open>Starting a transaction\<close>

definition send_request ::
  "('a sf_state_scheme) sixp_env \<Rightarrow> u8 \<Rightarrow> u16 \<Rightarrow> linkaddr \<Rightarrow> nat option \<Rightarrow> 'a sf_state_scheme \<Rightarrow>
   (int \<times> 'a sf_state_scheme) ub" where
  "send_request env cmd req_len peer_addr callback s = do {
     (_, s1) \<leftarrow> sixp_output env SIXP_PKT_TYPE_REQUEST cmd SF_SIMPLE_SFID (Some (req_storage s)) req_len
       peer_addr callback 0 0 s;
     Some (0, s1)
   }"

definition clear_req_storage :: "'a sf_state_scheme \<Rightarrow> 'a sf_state_scheme" where
  "clear_req_storage s = s\<lparr>req_storage := replicate (length (req_storage s)) 0\<rparr>"

text \<open>A setter on \<open>req_storage\<close>: its result and the state with the array it leaves.\<close>

definition on_req_storage ::
  "(u8 list option \<Rightarrow> u16 \<Rightarrow> (int \<times> u8 list option) ub) \<Rightarrow> 'a sf_state_scheme \<Rightarrow>
   (int \<times> 'a sf_state_scheme) ub" where
  "on_req_storage setter s = do {
     (r, b) \<leftarrow> setter (Some (req_storage s)) (of_nat STORAGE_SIZE);
     Some (r, s\<lparr>req_storage := the b\<rparr>)
   }"

definition sf_simple_add_links ::
  "('a sf_state_scheme) sixp_env \<Rightarrow> linkaddr \<Rightarrow> u8 \<Rightarrow> 'a sf_state_scheme \<Rightarrow> (int \<times> 'a sf_state_scheme) ub" where
  "sf_simple_add_links env peer_addr num_links s =
     (if tsch_schedule_get_slotframe_by_handle slotframe_handle s = None then None
      else do {
        cell_list \<leftarrow> get_candidate_add s;
        s1 \<leftarrow> replace_candidate_cell (timeslot_offset (cell_list ! 0)) s;
        s2 \<leftarrow> replace_candidate_cell (timeslot_offset (cell_list ! 1)) s1;
        s3 \<leftarrow> replace_candidate_cell (timeslot_offset (cell_list ! 2)) s2;
        (r1, s4) \<leftarrow> on_req_storage (sixp_pkt_set_cell_options SIXP_PKT_TYPE_REQUEST SIXP_PKT_CMD_ADD
           SIXP_PKT_CELL_OPTION_TX) (clear_req_storage s3);
        (if r1 \<noteq> 0 then Some (-1, s4)
         else do {
           (r2, s5) \<leftarrow> on_req_storage (sixp_pkt_set_num_cells SIXP_PKT_TYPE_REQUEST SIXP_PKT_CMD_ADD num_links) s4;
           (if r2 \<noteq> 0 then Some (-1, s5)
            else do {
              (r3, s6) \<leftarrow> on_req_storage (sixp_pkt_set_cell_list SIXP_PKT_TYPE_REQUEST SIXP_PKT_CMD_ADD
                (Some (concat (map cell_bytes cell_list))) (4 * 4) 0) s5;
              (if r3 \<noteq> 0 then Some (-1, s6)
               else send_request env SIXP_PKT_CMD_ADD (4 + 4 * 4) peer_addr (Some ADD_REQUEST_SENT) s6)
            })
         })
      })"

text \<open>The first TX link to the peer on channel offset 0.\<close>

definition find_tx_cell :: "nat option \<Rightarrow> linkaddr \<Rightarrow> 'a sf_state_scheme \<Rightarrow> sf_simple_cell option" where
  "find_tx_cell sf peer_addr s =
     (case find (\<lambda>i. case tsch_schedule_get_link_by_offsets sf (of_nat i) 0 s of
                       None \<Rightarrow> False
                     | Some l \<Rightarrow> link_addr (sch_links s ! l) = peer_addr \<and>
                                 link_options (sch_links s ! l) = LINK_OPTION_TX)
             [0..<unat TSCH_SCHEDULE_DEFAULT_LENGTH] of
        None \<Rightarrow> None
      | Some i \<Rightarrow> Some \<lparr>timeslot_offset = of_nat i, channel_offset = link_channel_offset
          (sch_links s ! the (tsch_schedule_get_link_by_offsets sf (of_nat i) 0 s))\<rparr>)"

definition sf_simple_remove_links ::
  "('a sf_state_scheme) sixp_env \<Rightarrow> linkaddr \<Rightarrow> 'a sf_state_scheme \<Rightarrow> (int \<times> 'a sf_state_scheme) ub" where
  "sf_simple_remove_links env peer_addr s =
     (let sf = tsch_schedule_get_slotframe_by_handle slotframe_handle s
      in if sf = None then None
      else case find_tx_cell sf peer_addr s of
        None \<Rightarrow> Some (-1, s)
      | Some cell \<Rightarrow> do {
          (r1, s1) \<leftarrow> on_req_storage (sixp_pkt_set_num_cells SIXP_PKT_TYPE_REQUEST SIXP_PKT_CMD_DELETE 1)
            (clear_req_storage s);
          (if r1 \<noteq> 0 then Some (-1, s1)
           else do {
             (r2, s2) \<leftarrow> on_req_storage (sixp_pkt_set_cell_list SIXP_PKT_TYPE_REQUEST SIXP_PKT_CMD_DELETE
               (Some (cell_bytes cell)) 4 0) s1;
             (if r2 \<noteq> 0 then Some (-1, s2)
              else send_request env SIXP_PKT_CMD_DELETE (4 + 4) peer_addr None s2)
           })
        })"

definition sf_simple_relocate_links ::
  "('a sf_state_scheme) sixp_env \<Rightarrow> linkaddr \<Rightarrow> u8 \<Rightarrow> sf_simple_cell \<Rightarrow> 'a sf_state_scheme \<Rightarrow>
   (int \<times> 'a sf_state_scheme) ub" where
  "sf_simple_relocate_links env peer_addr num_links cell_to_relocate s =
     (let s1 = s\<lparr>current_cell_to_be_relocated := cell_to_relocate\<rparr>
      in if tsch_schedule_get_slotframe_by_handle slotframe_handle s1 = None then None
      else do {
        cand_cell_list \<leftarrow> get_candidate_add s1;
        (_, s2) \<leftarrow> on_req_storage (sixp_pkt_set_cell_options SIXP_PKT_TYPE_REQUEST SIXP_PKT_CMD_RELOCATE
          SIXP_PKT_CELL_OPTION_TX) (clear_req_storage s1);
        (_, s3) \<leftarrow> on_req_storage (sixp_pkt_set_num_cells SIXP_PKT_TYPE_REQUEST SIXP_PKT_CMD_RELOCATE num_links) s2;
        (_, s4) \<leftarrow> on_req_storage (sixp_pkt_set_rel_cell_list SIXP_PKT_TYPE_REQUEST SIXP_PKT_CMD_RELOCATE
          (Some (cell_bytes cell_to_relocate)) 4 0) s3;
        (_, s5) \<leftarrow> on_req_storage (sixp_pkt_set_cand_cell_list SIXP_PKT_TYPE_REQUEST SIXP_PKT_CMD_RELOCATE
          (Some (concat (map cell_bytes cand_cell_list))) (3 * 4) 0) s4;
        send_request env SIXP_PKT_CMD_RELOCATE (2 + 1 + 1 + of_nat SF_SIMPLE_MAX_LINKS * 4) peer_addr
          (Some RELOCATE_REQUEST_SENT) s5
      })"

text \<open>The environment of 6P in which this scheduling function is the only driver.\<close>

definition sf_simple_env ::
  "('a sf_state_scheme) queue_env \<Rightarrow> nat \<Rightarrow> (nat option \<Rightarrow> 'a sf_state_scheme \<Rightarrow> (u8 option \<times> 'a sf_state_scheme) ub) \<Rightarrow>
   linkaddr \<Rightarrow> ('a sf_state_scheme) sixp_env" where
  "sf_simple_env qe clock_second mac_send node_addr =
     \<lparr>sx_queue = qe, sx_sf = (\<lambda>_. sf_simple_driver clock_second), sx_sent_cb = sf_sent_callback qe,
      sx_mac_send = mac_send, sx_node_addr = node_addr\<rparr>"

definition sf_simple_inputs ::
  "('a sf_state_scheme) sixp_env \<Rightarrow> nat \<Rightarrow> ('a sf_state_scheme) sf_input option" where
  "sf_simple_inputs env f = Some (sf_simple_input env)"

end
