(* ===== verification/Sf_Negotiation.thy ===== *)
theory Sf_Negotiation
  imports Sf_Simple
begin

section \<open>What the scheduling function negotiates\<close>

text \<open>
  The properties of \<open>sf-simple.c\<close>: what the handlers answer to ADD, DELETE and RELOCATE requests,
  what the callbacks and the response handler do to the schedules of both ends, and what the
  functions that start a transaction send.  The predicates \<open>can_install\<close>, \<open>installed\<close> and
  \<open>kept_links\<close> say what a change of the schedule needs and what it leaves alone.
\<close>

subsection \<open>Cells in memory\<close>

definition cells_bytes :: "sf_simple_cell list \<Rightarrow> u8 list" where
  "cells_bytes cs = concat (map cell_bytes cs)"

lemma length_cell_bytes [simp]: "length (cell_bytes c) = 4"
  by (simp add: cell_bytes_def)

lemma length_cells_bytes [simp]: "length (cells_bytes cs) = 4 * length cs"
  by (induction cs) (simp_all add: cells_bytes_def)

lemma cells_bytes_simps [simp]:
  "cells_bytes [] = []" "cells_bytes (c # cs) = cell_bytes c @ cells_bytes cs"
  "cells_bytes (cs @ ds) = cells_bytes cs @ cells_bytes ds"
  by (simp_all add: cells_bytes_def)

lemma drop_cells_bytes: "drop (4 * k) (cells_bytes cs) = cells_bytes (drop k cs)"
proof (induction cs arbitrary: k)
  case (Cons c cs)
  show ?case by (cases k) (simp_all add: Cons.IH)
qed simp

text \<open>What is written as cells is read back as cells.\<close>

lemma read_cell_bytes: "read_cell (cell_bytes c @ bs) 0 = Some c"
  by (simp add: read_cell_def mem_read_def cell_bytes_def)

lemma read_cell_drop: "off \<le> length bs \<Longrightarrow> read_cell bs off = read_cell (drop off bs) 0"
  by (simp add: read_cell_def mem_read_def le_diff_conv2 add.commute)

lemma read_cell_nth:
  assumes "k < length cs"
  shows "read_cell (cells_bytes cs @ bs) (4 * k) = Some (cs ! k)"
proof -
  have "drop (4 * k) (cells_bytes cs @ bs) = cell_bytes (cs ! k) @ cells_bytes (drop (Suc k) cs) @ bs"
    using assms by (simp add: drop_cells_bytes Cons_nth_drop_Suc [symmetric])
  then show ?thesis using assms by (subst read_cell_drop) (simp_all add: read_cell_bytes)
qed

text \<open>
  What the loop over a candidate list leaves in \<open>res_storage\<close>: the \<open>k\<close>-th cell is written from
  byte \<open>k\<close> on, over the last three bytes of the one before.
\<close>

fun overlay :: "nat \<Rightarrow> sf_simple_cell list \<Rightarrow> u8 list \<Rightarrow> u8 list" where
  "overlay k [] st = st"
| "overlay k (c # cs) st =
     overlay (Suc k) cs (if k + 4 \<le> STORAGE_SIZE then take k st @ cell_bytes c @ drop (k + 4) st else st)"

lemma length_overlay [simp]: "length st = STORAGE_SIZE \<Longrightarrow> length (overlay k cs st) = STORAGE_SIZE"
  by (induction k cs st rule: overlay.induct) auto

lemma set_response_cell:
  assumes "length st = STORAGE_SIZE" and "k < 256"
  shows "\<exists>r. sixp_pkt_set_cell_list SIXP_PKT_TYPE_RESPONSE SIXP_PKT_RC_SUCCESS (Some (cell_bytes c)) 4 (of_nat k)
      (Some st) (of_nat STORAGE_SIZE) =
    Some (r, Some (if k + 4 \<le> STORAGE_SIZE then take k st @ cell_bytes c @ drop (k + 4) st else st))"
proof -
  have u: "uint (of_nat k :: u16) = int k"
    using assms(2) by (simp add: unsigned_of_nat take_bit_nat_eq_self)
  have w: "uint (of_nat STORAGE_SIZE :: u16) = 20" by (simp add: SF_SIMPLE_MAX_LINKS_def)
  have m: "mem_read (cell_bytes c) 0 4 = Some (cell_bytes c)" by (simp add: mem_read_def)
  show ?thesis
    using assms(1) w u m
    by (simp add: sixp_pkt_set_cell_list_def pkt_offset_defs SF_SIMPLE_MAX_LINKS_def mem_write_def)
qed

lemma link_by_timeslot_storage [simp]:
  "tsch_schedule_get_link_by_timeslot sf ts (s\<lparr>res_storage := st\<rparr>) = tsch_schedule_get_link_by_timeslot sf ts s"
  "tsch_schedule_get_link_by_offsets sf ts ch (s\<lparr>res_storage := st\<rparr>) = tsch_schedule_get_link_by_offsets sf ts ch s"
  "tsch_schedule_get_slotframe_by_handle h (s\<lparr>res_storage := st\<rparr>) = tsch_schedule_get_slotframe_by_handle h s"
  by (simp_all add: tsch_schedule_get_link_by_timeslot_def tsch_schedule_get_link_by_offsets_def
      tsch_schedule_get_slotframe_by_handle_def tsch_is_locked_def split: option.splits)

text \<open>The cells of a list whose timeslot is not in use.\<close>

definition free_cells :: "nat option \<Rightarrow> 'a sf_state_scheme \<Rightarrow> sf_simple_cell list \<Rightarrow> sf_simple_cell list" where
  "free_cells sf s cs = filter (\<lambda>c. tsch_schedule_get_link_by_timeslot sf (timeslot_offset c) s = None) cs"

lemma free_cells_storage [simp]: "free_cells sf (s\<lparr>res_storage := st\<rparr>) = free_cells sf s"
  by (simp add: free_cells_def fun_eq_iff)

lemma unat_of_nat_fits: "n < 2 ^ LENGTH('a::len) \<Longrightarrow> unat (of_nat n :: 'a word) = n"
  by (simp add: unsigned_of_nat take_bit_nat_eq_self)

lemma u8_index:
  assumes "n < 256"
  shows "(ucast (of_nat n :: u8) :: u16) = of_nat n"
  using assms by (simp add: word_unat_eq_iff unsigned_of_nat take_bit_nat_eq_self)

lemma list_index_less:
  assumes "length cs \<le> 63" and "k < length cs"
  shows "(ucast (of_nat (4 * k) :: u8) :: u16) < of_nat (4 * length cs)" and "unat (of_nat (4 * k) :: u8) = 4 * k"
proof -
  have "(of_nat (4 * k) :: u16) < of_nat (4 * length cs)"
    unfolding word_less_nat_alt using assms
    by (subst unat_of_nat_fits, simp, subst unat_of_nat_fits) simp_all
  then show "(ucast (of_nat (4 * k) :: u8) :: u16) < of_nat (4 * length cs)"
    using assms by (subst u8_index) simp_all
  show "unat (of_nat (4 * k) :: u8) = 4 * k" using assms by (intro unat_of_nat_fits) simp
qed

lemma feasible_loop_from:
  assumes "length cs \<le> 63" and "k \<le> length cs" and "f \<le> unat n" and "length (res_storage s) = STORAGE_SIZE"
  shows "feasible_loop sf (cells_bytes cs @ bs) (of_nat (4 * length cs)) n (of_nat (4 * k)) f rl s =
    (let chosen = take (unat n - f) (free_cells sf s (drop k cs))
     in Some (f + length chosen, rl + of_nat (4 * length chosen), s\<lparr>res_storage := overlay f chosen (res_storage s)\<rparr>))"
  using assms(2-4)
proof (induction "length cs - k" arbitrary: k f rl s)
  case 0
  then have k: "k = length cs" by simp
  have "(ucast (of_nat (4 * k) :: u8) :: u16) = of_nat (4 * length cs)"
    unfolding k using assms(1) by (intro u8_index) simp
  then show ?case by (subst feasible_loop.simps) (simp add: k free_cells_def)
next
  case (Suc m)
  then have k: "k < length cs" by simp
  have n256: "unat n < 256" by (rule unat_u8_less)
  show ?case
  proof (cases "f < unat n")
    case False
    with Suc.prems have "f = unat n" by simp
    then show ?thesis by (subst feasible_loop.simps) simp
  next
    case f: True
    note lt = list_index_less [OF assms(1) k]
    have i4: "(of_nat (4 * k) :: u8) + 4 = of_nat (4 * Suc k)" by simp
    have d: "drop k cs = cs ! k # drop (Suc k) cs" using k by (simp add: Cons_nth_drop_Suc)
    have rd: "read_cell (cells_bytes cs @ bs) (unat (of_nat (4 * k) :: u8)) = Some (cs ! k)"
      unfolding lt(2) by (rule read_cell_nth [OF k])
    have m: "m = length cs - Suc k" using Suc.hyps(2) by simp
    show ?thesis
    proof (cases "tsch_schedule_get_link_by_timeslot sf (timeslot_offset (cs ! k)) s = None")
      case False
      then obtain l where l: "tsch_schedule_get_link_by_timeslot sf (timeslot_offset (cs ! k)) s = Some l" by auto
      have "feasible_loop sf (cells_bytes cs @ bs) (of_nat (4 * length cs)) n (of_nat (4 * k)) f rl s =
          feasible_loop sf (cells_bytes cs @ bs) (of_nat (4 * length cs)) n (of_nat (4 * Suc k)) f rl s"
        using lt(1) f rd by (subst feasible_loop.simps) (simp add: i4 l del: of_nat_mult of_nat_Suc)
      also have "\<dots> = (let chosen = take (unat n - f) (free_cells sf s (drop (Suc k) cs))
         in Some (f + length chosen, rl + of_nat (4 * length chosen),
                  s\<lparr>res_storage := overlay f chosen (res_storage s)\<rparr>))"
        using Suc.prems k by (intro Suc.hyps(1) [OF m]) simp_all
      finally show ?thesis by (simp add: d free_cells_def l)
    next
      case True
      let ?st = "if f + 4 \<le> STORAGE_SIZE then take f (res_storage s) @ cell_bytes (cs ! k) @ drop (f + 4) (res_storage s)
        else res_storage s"
      obtain r where r: "sixp_pkt_set_cell_list SIXP_PKT_TYPE_RESPONSE SIXP_PKT_RC_SUCCESS (Some (cell_bytes (cs ! k))) 4
          (of_nat f) (Some (res_storage s)) (of_nat STORAGE_SIZE) = Some (r, Some ?st)"
        using set_response_cell [OF Suc.prems(3), of f "cs ! k"] f n256 by (auto simp del: of_nat_add of_nat_mult)
      have "feasible_loop sf (cells_bytes cs @ bs) (of_nat (4 * length cs)) n (of_nat (4 * k)) f rl s =
          feasible_loop sf (cells_bytes cs @ bs) (of_nat (4 * length cs)) n (of_nat (4 * Suc k)) (Suc f) (rl + 4)
            (s\<lparr>res_storage := ?st\<rparr>)"
        using lt(1) f rd True by (subst feasible_loop.simps) (simp add: i4 r del: of_nat_mult of_nat_Suc of_nat_add)
      also have "\<dots> = (let chosen = take (unat n - Suc f) (free_cells sf (s\<lparr>res_storage := ?st\<rparr>) (drop (Suc k) cs))
         in Some (Suc f + length chosen, rl + 4 + of_nat (4 * length chosen),
                  s\<lparr>res_storage := ?st, res_storage := overlay (Suc f) chosen (res_storage (s\<lparr>res_storage := ?st\<rparr>))\<rparr>))"
        using Suc.prems k f by (intro Suc.hyps(1) [OF m]) auto
      also have "free_cells sf (s\<lparr>res_storage := ?st\<rparr>) (drop (Suc k) cs) = free_cells sf s (drop (Suc k) cs)" by simp
      finally have e: "feasible_loop sf (cells_bytes cs @ bs) (of_nat (4 * length cs)) n (of_nat (4 * k)) f rl s =
        (let chosen = take (unat n - Suc f) (free_cells sf s (drop (Suc k) cs))
         in Some (Suc f + length chosen, rl + 4 + of_nat (4 * length chosen),
                  s\<lparr>res_storage := overlay (Suc f) chosen ?st\<rparr>))"
        by simp
      have fc: "take (unat n - f) (free_cells sf s (drop k cs)) =
          cs ! k # take (unat n - Suc f) (free_cells sf s (drop (Suc k) cs))"
        using True f by (simp add: d free_cells_def take_Cons')
      show ?thesis unfolding e fc by (simp add: Let_def)
    qed
  qed
qed

subsection \<open>The ADD transaction\<close>

text \<open>The body of an ADD or DELETE request: metadata, options, number of cells, cell list.\<close>

definition cells_body :: "u8 \<Rightarrow> u8 \<Rightarrow> sf_simple_cell list \<Rightarrow> u8 list" where
  "cells_body options num cs = [0, 0, options, num] @ cells_bytes cs"

definition cells_body_len :: "sf_simple_cell list \<Rightarrow> u16" where
  "cells_body_len cs = of_nat (4 + 4 * length cs)"

lemma uint_cells_body_len: "length cs \<le> 63 \<Longrightarrow> uint (cells_body_len cs) = int (4 + 4 * length cs)"
  unfolding cells_body_len_def by (simp add: unsigned_of_nat take_bit_nat_eq_self del: of_nat_add of_nat_mult)

lemma cells_body_list_len: "cells_body_len cs - 4 = of_nat (4 * length cs)"
  by (simp add: cells_body_len_def)

text \<open>What the getters of the receiver find in such a body, followed by any bytes.\<close>

lemma cells_body_fields:
  assumes "length cs \<le> 63" and "cmd = SIXP_PKT_CMD_ADD \<or> cmd = SIXP_PKT_CMD_DELETE"
  shows "sixp_pkt_get_num_cells SIXP_PKT_TYPE_REQUEST cmd (Some 0) (Some (cells_body opts n cs @ bs)) (cells_body_len cs) =
      Some (0, Some n)"
    and "sixp_pkt_get_cell_list SIXP_PKT_TYPE_REQUEST cmd (Some 0) (Some 0) (Some (cells_body opts n cs @ bs))
      (cells_body_len cs) = (0, Some 4, Some (of_nat (4 * length cs)))"
proof -
  note u = uint_cells_body_len [OF assms(1)]
  show "sixp_pkt_get_num_cells SIXP_PKT_TYPE_REQUEST cmd (Some 0) (Some (cells_body opts n cs @ bs)) (cells_body_len cs) =
      Some (0, Some n)"
    using assms(2) by (auto simp: sixp_pkt_get_num_cells_def pkt_offset_defs u mem_read_def cells_body_def)
  have "(int (4 + 4 * length cs) - 4) mod 4 = 0" by simp
  then show "sixp_pkt_get_cell_list SIXP_PKT_TYPE_REQUEST cmd (Some 0) (Some 0) (Some (cells_body opts n cs @ bs))
      (cells_body_len cs) = (0, Some 4, Some (of_nat (4 * length cs)))"
    using assms(2) cells_body_list_len [of cs] by (auto simp: sixp_pkt_get_cell_list_def pkt_offset_defs u)
qed

lemma drop_cells_body: "drop 4 (cells_body opts n cs @ bs) = cells_bytes cs @ bs"
  by (simp add: cells_body_def)

lemma zero_less_list_len: "cs \<noteq> [] \<Longrightarrow> length cs \<le> 63 \<Longrightarrow> (0 :: u16) < of_nat (4 * length cs)"
  using unat_of_nat_fits [where 'a = 16, of "4 * length cs"] by (simp add: word_less_nat_alt del: of_nat_mult)

lemma feasible_loop_eq:
  assumes "length cs \<le> 63" and "length (res_storage s) = STORAGE_SIZE"
  shows "feasible_loop sf (cells_bytes cs @ bs) (of_nat (4 * length cs)) n 0 0 0 s =
    (let chosen = take (unat n) (free_cells sf s cs)
     in Some (length chosen, of_nat (4 * length chosen), s\<lparr>res_storage := overlay 0 chosen (res_storage s)\<rparr>))"
  using feasible_loop_from [OF assms(1) le0 le0 assms(2), of sf bs n 0] by simp

lemma clear_res_storage_simps [simp]:
  "res_storage (clear_res_storage s) = replicate (length (res_storage s)) 0"
  "(clear_res_storage s)\<lparr>res_storage := st\<rparr> = s\<lparr>res_storage := st\<rparr>"
  "free_cells sf (clear_res_storage s) = free_cells sf s"
  by (simp_all add: clear_res_storage_def)

text \<open>
  The answer to an ADD request: the first free cells of the list, as many as asked for, or none
  when there are not enough.
\<close>

lemma add_req_input_eq:
  assumes "length (res_storage s) = STORAGE_SIZE" and "cs \<noteq> []" and "length cs \<le> 63" and "0 < n"
    and sf: "tsch_schedule_get_slotframe_by_handle slotframe_handle s = Some f"
  shows "add_req_input env (cells_body opts n cs @ bs) (cells_body_len cs) peer s =
    (let chosen = take (unat n) (free_cells (Some f) s cs);
         s1 = s\<lparr>res_storage := overlay 0 chosen (replicate STORAGE_SIZE 0)\<rparr>
     in if length chosen = unat n
        then send_response env ADD_RESPONSE_SENT (of_nat (4 * unat n)) peer s1 else Some s1)"
  using assms zero_less_list_len [OF assms(2,3)]
  by (simp add: add_req_input_def cells_body_fields drop_cells_body feasible_loop_eq Let_def del: of_nat_mult drop_append)

text \<open>
  C6: an ADD request for one cell is answered with the first cell of its list whose timeslot is not
  in use, alone in the response; when there is no such cell nothing is sent, and the transaction is
  left to its timeout.
\<close>

theorem add_request_one_cell:
  assumes "length (res_storage s) = STORAGE_SIZE" and "cs \<noteq> []" and "length cs \<le> 63"
    and sf: "tsch_schedule_get_slotframe_by_handle slotframe_handle s = Some f"
  shows "request_input env SIXP_PKT_CMD_ADD (Some (cells_body opts 1 cs @ bs)) (cells_body_len cs) peer s =
    (case find (\<lambda>c. tsch_schedule_get_link_by_timeslot (Some f) (timeslot_offset c) s = None) cs of
       Some c \<Rightarrow> send_response env ADD_RESPONSE_SENT 4 peer (s\<lparr>res_storage := cell_bytes c @ replicate 16 0\<rparr>)
     | None \<Rightarrow> Some (s\<lparr>res_storage := replicate STORAGE_SIZE 0\<rparr>))"
proof -
  let ?P = "\<lambda>c. tsch_schedule_get_link_by_timeslot (Some f) (timeslot_offset c) s = None"
  have "take 1 (free_cells (Some f) s cs) = (case find ?P cs of None \<Rightarrow> [] | Some c \<Rightarrow> [c])"
    unfolding free_cells_def by (induction cs) (simp_all split: option.split)
  then show ?thesis
    using add_req_input_eq [OF assms(1-3) _ sf, of 1 env opts bs peer]
    by (simp add: request_input_def SF_SIMPLE_MAX_LINKS_def Let_def split: option.split)
qed

text \<open>
  C7: an ADD request for two cells is answered wrongly: the number of cells already granted is used
  as a byte offset, so the second cell overwrites the first but for its lowest byte, and the
  response of eight bytes ends in three zeros.
\<close>

theorem add_request_two_cells:
  assumes "length (res_storage s) = STORAGE_SIZE" and "cs \<noteq> []" and "length cs \<le> 63"
    and sf: "tsch_schedule_get_slotframe_by_handle slotframe_handle s = Some f"
    and two: "take 2 (filter (\<lambda>c. tsch_schedule_get_link_by_timeslot (Some f) (timeslot_offset c) s = None) cs) = [c, d]"
  shows "request_input env SIXP_PKT_CMD_ADD (Some (cells_body opts 2 cs @ bs)) (cells_body_len cs) peer s =
    send_response env ADD_RESPONSE_SENT 8 peer
      (s\<lparr>res_storage := take 1 (cell_bytes c) @ cell_bytes d @ replicate 15 0\<rparr>)"
proof -
  have u: "unat (2 :: u8) = 2" by simp
  have l: "take 2 (free_cells (Some f) s cs) = [c, d]" using two by (simp add: free_cells_def)
  have o: "overlay 0 [c, d] (replicate STORAGE_SIZE 0) = take 1 (cell_bytes c) @ cell_bytes d @ replicate 15 0"
    by (simp add: SF_SIMPLE_MAX_LINKS_def cell_bytes_def le16_def)
  show ?thesis
    using add_req_input_eq [OF assms(1-3) _ sf, of 2 env opts bs peer]
    by (simp only: u l o Let_def) (simp add: request_input_def)
qed

subsection \<open>The schedule operations leave the layers above alone\<close>

abbreviation upper :: "'a tsch_sched_state_scheme \<Rightarrow> 'a" where
  "upper s \<equiv> tsch_sched_state.more s"

lemma upper_lower [simp]:
  fixes s :: "'a tsch_sched_state_scheme"
  shows "upper (upd_nbr n f s) = upper s" "upper (tsch_release_lock s) = upper s"
    "upper (snd (tsch_get_lock s)) = upper s" "upper (s\<lparr>tsch_locked := b\<rparr>) = upper s"
    "upper (tsch_schedule_uncount_link opts a s) = upper s" "upper (upd_slotframe i g s) = upper s"
    "upper (tsch_schedule_install_link i l opts ty addr ts ch s) = upper s" "upper (s\<lparr>sch_link_memb := m\<rparr>) = upper s"
  by (cases s; simp add: upd_nbr_def tsch_release_lock_def tsch_get_lock_def upd_slotframe_def
      tsch_schedule_install_link_def tsch_schedule_uncount_link_def split: option.split)+

lemma upper_nbr [simp]:
  fixes s :: "'a tsch_sched_state_scheme"
  shows "upper (s\<lparr>nt_mem := a\<rparr>) = upper s" "upper (s\<lparr>nt_lladdr := b\<rparr>) = upper s"
    "upper (s\<lparr>nt_keys := c\<rparr>) = upper s" "upper (s\<lparr>nt_used_map := d\<rparr>) = upper s"
    "upper (s\<lparr>nt_locked_map := e\<rparr>) = upper s"
  by (cases s; simp)+

lemma nbr_table_add_upper:
  fixes s :: "'a tsch_sched_state_scheme"
  assumes "no_nbr_callbacks s"
  shows "upper (snd (nbr_table_add_lladdr env tsch_neighbors a r s)) = upper s"
proof -
  have k: "remove_key env k False s = s\<lparr>nt_used_map := (nt_used_map s)[k := 0],
      nt_locked_map := (nt_locked_map s)[k := 0], nt_keys := remove1 k (nt_keys s)\<rparr>" for k
    by (rule remove_key_no_callback) (use assms in \<open>simp add: no_nbr_callbacks_def\<close>)
  have n: "upper (snd (nbr_table_new_key env b w s)) = upper s" for b w
    by (auto simp: nbr_table_new_key_def nbr_table_allocate_def k split: option.splits prod.splits)
  have z: "upper (tbl_zero tsch_neighbors i t) = upper t" for i and t :: "'a tsch_sched_state_scheme"
    by (cases t) (simp add: tsch_neighbors_def)
  have u: "upper (t\<lparr>nt_used_map := m\<rparr>) = upper t" for m and t :: "'a tsch_sched_state_scheme"
    by (cases t) simp
  show ?thesis
    unfolding nbr_table_add_lladdr_def Let_def
    using n [of "case a of None \<Rightarrow> 0 | Some a \<Rightarrow> a"] z u
    by (auto split: option.splits prod.splits) (metis snd_conv)+
qed

lemma add_nbr_upper:
  fixes s :: "'a tsch_sched_state_scheme"
  assumes "no_nbr_callbacks s"
  shows "upper (snd (tsch_queue_add_nbr env a s)) = upper s"
proof -
  let ?s1 = "s\<lparr>tsch_locked := True\<rparr>"
  have c: "no_nbr_callbacks ?s1" using assms by (simp add: no_nbr_callbacks_def)
  note v = nbr_table_add_upper [OF c, of "qe_nbr env" "Some a" NBR_TABLE_REASON_MAC, unfolded upper_lower]
  have l: "upper (tsch_release_lock (tsch_queue_init_nbr a n (snd (nbr_table_lock tsch_neighbors m t)))) = upper t"
    for n m and t :: "'a tsch_sched_state_scheme"
    by (cases t) (simp add: tsch_queue_init_nbr_def nbr_table_lock_def Let_def upd_nbr_def tsch_release_lock_def)
  show ?thesis
    using v l by (auto simp: tsch_queue_add_nbr_def tsch_get_lock_def split: option.splits prod.splits)
qed

lemma count_link_upper:
  fixes s :: "'a tsch_sched_state_scheme"
  assumes "no_nbr_callbacks s"
  shows "upper (tsch_schedule_count_link env l s) = upper s"
  using add_nbr_upper [OF assms, of env "link_addr (sch_links s ! l)"]
  by (auto simp: tsch_schedule_count_link_def Let_def split: prod.splits option.splits)

lemma remove_link_upper:
  fixes s :: "'a tsch_sched_state_scheme"
  shows "upper (snd (tsch_schedule_remove_link sf l s)) = upper s \<and>
    nt_callback (snd (tsch_schedule_remove_link sf l s)) = nt_callback s"
proof -
  have u: "upper (t\<lparr>sch_current_link := c\<rparr>) = upper t" "upper (t\<lparr>sch_slotframes := d\<rparr>) = upper t"
    for c d and t :: "'a tsch_sched_state_scheme"
    by (cases t; simp)+
  show ?thesis
    by (auto simp: tsch_schedule_remove_link_def Let_def tsch_get_lock_def u upd_slotframe_def
        split: option.splits prod.splits if_splits)
qed

lemma add_link_upper:
  fixes s :: "'a tsch_sched_state_scheme"
  assumes cb: "no_nbr_callbacks s"
  shows "upper (snd (tsch_schedule_add_link env sf opts ty addr ts ch rm s)) = upper s"
proof -
  have c: "upper (tsch_schedule_count_link env l (tsch_release_lock (tsch_schedule_install_link i l opts ty addr ts ch
      (t\<lparr>sch_link_memb := m\<rparr>)))) = upper t" if "nt_callback t = nt_callback s" for i l m and t :: "'a tsch_sched_state_scheme"
  proof -
    have "no_nbr_callbacks (tsch_release_lock (tsch_schedule_install_link i l opts ty addr ts ch (t\<lparr>sch_link_memb := m\<rparr>)))"
      using cb that by (simp add: no_nbr_callbacks_def tsch_schedule_install_link_def upd_slotframe_def)
    from count_link_upper [OF this] show ?thesis by simp
  qed
  have r: "upper (snd (tsch_schedule_remove_link f l s)) = upper s"
    "nt_callback (snd (tsch_schedule_remove_link f l s)) = nt_callback s" for f l
    using remove_link_upper by auto
  show ?thesis
    unfolding tsch_schedule_add_link_def Let_def
    by (auto simp: tsch_get_lock_def c r split: option.splits prod.splits if_splits)
qed

lemma add_link_sf_fields:
  fixes s :: "'a sf_state_scheme"
  assumes "no_nbr_callbacks s"
    and s': "s' = snd (tsch_schedule_add_link env sf opts ty addr ts ch rm s)"
  shows "candidate_cell_list s' = candidate_cell_list s" "blacklist s' = blacklist s"
    "transs s' = transs s" "trans_list s' = trans_list s" "sixp_nbr_items s' = sixp_nbr_items s"
    "res_storage s' = res_storage s" "current_cell_to_be_relocated s' = current_cell_to_be_relocated s"
proof -
  have "upper s' = upper s" unfolding s' by (rule add_link_upper [OF assms(1)])
  then show "candidate_cell_list s' = candidate_cell_list s" "blacklist s' = blacklist s"
    "transs s' = transs s" "trans_list s' = trans_list s" "sixp_nbr_items s' = sixp_nbr_items s"
    "res_storage s' = res_storage s" "current_cell_to_be_relocated s' = current_cell_to_be_relocated s"
    by (cases s; cases s'; simp)+
qed

subsection \<open>Installing the negotiated cell\<close>

text \<open>
  What both ends need to install a cell: a well-formed, unlocked schedule with the slotframe of
  handle 0, one link per timeslot, and room for the link.
\<close>

definition can_install :: "'a sf_state_scheme \<Rightarrow> nat \<Rightarrow> sf_simple_cell \<Rightarrow> bool" where
  "can_install s i c \<longleftrightarrow> sched_wf s \<and> \<not> tsch_locked s \<and> no_nbr_callbacks s \<and>
     tsch_schedule_get_slotframe_by_handle slotframe_handle s = Some i \<and> one_per_timeslot s i \<and>
     timeslot_offset c < div_val (sf_size (sch_slotframes s ! i)) \<and> timeslot_offset c \<noteq> 0xffff \<and>
     (tsch_schedule_get_link_by_timeslot (Some i) (timeslot_offset c) s \<noteq> None \<or> 0 < memb_numfree (sch_link_memb s))"

text \<open>The cell is in the schedule as a link to the peer, and the other timeslots are as before.\<close>

definition installed ::
  "'a sf_state_scheme \<Rightarrow> 'a sf_state_scheme \<Rightarrow> nat \<Rightarrow> sf_simple_cell \<Rightarrow> u8 \<Rightarrow> linkaddr \<Rightarrow> bool" where
  "installed s s' i c options peer \<longleftrightarrow> sched_wf s' \<and> \<not> tsch_locked s' \<and> one_per_timeslot s' i \<and>
     (\<exists>l. tsch_schedule_get_link_by_timeslot (Some i) (timeslot_offset c) s' = Some l \<and>
        link_options (sch_links s' ! l) = options \<and> link_channel_offset (sch_links s' ! l) = channel_offset c \<and>
        link_addr (sch_links s' ! l) = peer) \<and>
     (\<forall>t. t \<noteq> timeslot_offset c \<longrightarrow> tsch_schedule_get_link_by_timeslot (Some i) t s' =
        tsch_schedule_get_link_by_timeslot (Some i) t s) \<and>
     tsch_schedule_get_slotframe_by_handle slotframe_handle s' = Some i \<and>
     candidate_cell_list s' = candidate_cell_list s \<and> blacklist s' = blacklist s"

lemma slotframe_by_handle_in:
  "tsch_schedule_get_slotframe_by_handle h s = Some i \<Longrightarrow> i \<in> set (sch_slotframe_list s)"
  by (auto simp: tsch_schedule_get_slotframe_by_handle_def split: if_splits dest: find_SomeD)

lemma add_links_first:
  assumes "4 \<le> unat len" and "timeslot_offset c \<noteq> 0xffff"
    and "tsch_schedule_get_slotframe_by_handle slotframe_handle s = Some i"
  shows "add_links_to_schedule qe peer opts (Some (cell_bytes c @ bs)) len s =
    Some (snd (tsch_schedule_add_link qe (Some i) opts LINK_TYPE_NORMAL (Some peer)
      (timeslot_offset c) (channel_offset c) True s))"
  using assms by (simp add: add_links_to_schedule_def) (subst add_links_loop.simps, simp add: read_cell_bytes)

lemma add_links_installs:
  assumes c: "can_install s i c" and len: "4 \<le> unat len"
  shows "\<exists>s'. add_links_to_schedule qe peer opts (Some (cell_bytes c @ bs)) len s = Some s' \<and>
    installed s s' i c opts peer"
proof -
  from c have wf: "sched_wf s" "\<not> tsch_locked s" "no_nbr_callbacks s" "one_per_timeslot s i"
    "timeslot_offset c < div_val (sf_size (sch_slotframes s ! i))" "timeslot_offset c \<noteq> 0xffff"
    and sf: "tsch_schedule_get_slotframe_by_handle slotframe_handle s = Some i"
    and room: "tsch_schedule_get_link_by_timeslot (Some i) (timeslot_offset c) s \<noteq> None \<or>
      0 < memb_numfree (sch_link_memb s)"
    by (simp_all add: can_install_def)
  note e = add_link_effect [OF wf(1-3) slotframe_by_handle_in [OF sf] wf(4,5), of qe opts LINK_TYPE_NORMAL "Some peer"
      "channel_offset c", unfolded if_P [OF room]]
  then obtain l s' where s': "tsch_schedule_add_link qe (Some i) opts LINK_TYPE_NORMAL (Some peer)
      (timeslot_offset c) (channel_offset c) True s = (Some l, s')" "sched_wf s'" "\<not> tsch_locked s'"
    "one_per_timeslot s' i" "tsch_schedule_get_link_by_timeslot (Some i) (timeslot_offset c) s' = Some l"
    "link_options (sch_links s' ! l) = opts" "link_channel_offset (sch_links s' ! l) = channel_offset c"
    "link_addr (sch_links s' ! l) = peer"
    "\<forall>t. t \<noteq> timeslot_offset c \<longrightarrow> tsch_schedule_get_link_by_timeslot (Some i) t s' =
        tsch_schedule_get_link_by_timeslot (Some i) t s"
    "sch_slotframe_list s' = sch_slotframe_list s" "\<forall>j. same_slotframe (sch_slotframes s' ! j) (sch_slotframes s ! j)"
    by auto
  have sf': "tsch_schedule_get_slotframe_by_handle slotframe_handle s' = Some i"
    using sf s'(3,10,11) wf(2) by (simp add: tsch_schedule_get_slotframe_by_handle_def tsch_is_locked_def same_slotframe_def)
  have "s' = snd (tsch_schedule_add_link qe (Some i) opts LINK_TYPE_NORMAL (Some peer)
      (timeslot_offset c) (channel_offset c) True s)" by (simp add: s'(1))
  from add_link_sf_fields [OF wf(3) this] s' sf' have "installed s s' i c opts peer" by (auto simp: installed_def)
  then show ?thesis using s'(1) by (simp add: add_links_first [OF len wf(6) sf])
qed

text \<open>
  C5: when the response to an ADD request was sent, the responder has the granted cell in its
  schedule as a receive link from the requester, and no other timeslot has changed; when it could
  not be sent, nothing happens.
\<close>

theorem add_response_sent_installs:
  assumes "can_install s i c" and "res_storage s = cell_bytes c @ rest"
    and "sixp_nbr_find (Some dest) s \<noteq> None"
  shows "\<exists>s'. sf_sent_callback qe ADD_RESPONSE_SENT RES_STORAGE 4 dest status s = Some s' \<and>
    (if status = SIXP_OUTPUT_STATUS_SUCCESS then installed s s' i c LINK_OPTION_RX dest else s' = s)"
proof -
  have r: "sent_response_cells (res_storage s) 4 dest status s =
      (if status = SIXP_OUTPUT_STATUS_SUCCESS then Some (cell_bytes c @ rest, 4) else None)"
    using assms(3) by (auto simp: sent_response_cells_def sixp_pkt_get_cell_list_def pkt_offset_defs assms(2))
  show ?thesis
    using add_links_installs [OF assms(1), of 4 qe dest LINK_OPTION_RX rest]
    by (simp add: sf_sent_callback_def add_response_sent_callback_def callback_body_def r)
qed

text \<open>
  C4: a successful response to an ADD request that carries one cell installs the cell as a transmit
  link to the responder; the cell then has to leave the candidates, which is where the code may
  run for ever.  A cell that is no candidate any more is only installed.
\<close>

theorem add_response_installs:
  assumes c: "can_install s i c" and nbr: "sixp_nbr_find (Some peer) s \<noteq> None"
    and tr: "sixp_trans_find (Some peer) s = Some t" "sixp_trans_get_cmd (Some t) s = SIXP_PKT_CMD_ADD"
    and l: "length (candidate_cell_list s) = CAND_CELL_LIST_LEN"
  shows "\<exists>s'. response_input env SIXP_PKT_RC_SUCCESS (Some (cell_bytes c @ bs)) 4 peer s =
      replace_candidate_cell (timeslot_offset c) s' \<and> installed s s' i c LINK_OPTION_TX peer \<and>
    (timeslot_offset c \<notin> timeslot_offset ` set (candidate_cell_list s) \<longrightarrow>
     response_input env SIXP_PKT_RC_SUCCESS (Some (cell_bytes c @ bs)) 4 peer s = Some s')"
proof -
  have g: "sixp_pkt_get_cell_list SIXP_PKT_TYPE_RESPONSE SIXP_PKT_RC_SUCCESS (Some 0) (Some 0)
      (Some (cell_bytes c @ bs)) 4 = (0, Some 0, Some 4)"
    by (simp add: sixp_pkt_get_cell_list_def pkt_offset_defs)
  obtain s' where s': "add_links_to_schedule (sx_queue env) peer LINK_OPTION_TX (Some (cell_bytes c @ bs)) 4 s = Some s'"
    "installed s s' i c LINK_OPTION_TX peer"
    using add_links_installs [OF c, of 4 "sx_queue env" peer LINK_OPTION_TX bs] by auto
  have r: "response_input env SIXP_PKT_RC_SUCCESS (Some (cell_bytes c @ bs)) 4 peer s =
      replace_candidate_cell (timeslot_offset c) s'"
    using nbr by (auto simp: response_input_def g tr add_response_input_def s'(1) read_cell_bytes)
  have "candidate_cell_list s' = candidate_cell_list s" using s'(2) by (simp add: installed_def)
  with l replace_candidate_absent [of s' "timeslot_offset c"] r s'(2) show ?thesis by auto
qed

subsection \<open>The DELETE transaction\<close>

definition existing_cells :: "nat option \<Rightarrow> 'a sf_state_scheme \<Rightarrow> sf_simple_cell list \<Rightarrow> sf_simple_cell list" where
  "existing_cells sf s cs =
     filter (\<lambda>c. tsch_schedule_get_link_by_offsets sf (timeslot_offset c) (channel_offset c) s \<noteq> None) cs"

lemma existing_cells_storage [simp]: "existing_cells sf (s\<lparr>res_storage := st\<rparr>) = existing_cells sf s"
  by (simp add: existing_cells_def fun_eq_iff)

text \<open>Every cell found is written to the start of the response, over the one before.\<close>

definition last_cell :: "sf_simple_cell list \<Rightarrow> u8 list \<Rightarrow> u8 list" where
  "last_cell cs st = (if cs = [] then st else cell_bytes (last cs) @ drop 4 st)"

lemma last_cell_Cons: "last_cell (c # cs) st = last_cell cs (cell_bytes c @ drop 4 st)"
  by (simp add: last_cell_def)

lemma delete_loop_from:
  assumes "length cs \<le> 63" and "k \<le> length cs" and "length (res_storage s) = STORAGE_SIZE"
  shows "delete_loop sf (cells_bytes cs @ bs) (of_nat (4 * length cs)) (of_nat (4 * k)) rl s =
    (let found = existing_cells sf s (drop k cs)
     in Some (rl + of_nat (4 * length found), s\<lparr>res_storage := last_cell found (res_storage s)\<rparr>))"
  using assms(2,3)
proof (induction "length cs - k" arbitrary: k rl s)
  case 0
  then have k: "k = length cs" by simp
  have "(ucast (of_nat (4 * k) :: u8) :: u16) = of_nat (4 * length cs)"
    unfolding k using assms(1) by (intro u8_index) simp
  then show ?case by (subst delete_loop.simps) (simp add: k existing_cells_def last_cell_def)
next
  case (Suc m)
  then have k: "k < length cs" and m: "m = length cs - Suc k" by simp_all
  note lt = list_index_less [OF assms(1) k]
  have i4: "(of_nat (4 * k) :: u8) + 4 = of_nat (4 * Suc k)" by simp
  have d: "drop k cs = cs ! k # drop (Suc k) cs" using k by (simp add: Cons_nth_drop_Suc)
  have rd: "read_cell (cells_bytes cs @ bs) (unat (of_nat (4 * k) :: u8)) = Some (cs ! k)"
    unfolding lt(2) by (rule read_cell_nth [OF k])
  show ?case
  proof (cases "tsch_schedule_get_link_by_offsets sf (timeslot_offset (cs ! k)) (channel_offset (cs ! k)) s")
    case None
    have "delete_loop sf (cells_bytes cs @ bs) (of_nat (4 * length cs)) (of_nat (4 * k)) rl s =
        delete_loop sf (cells_bytes cs @ bs) (of_nat (4 * length cs)) (of_nat (4 * Suc k)) rl s"
      using lt(1) rd None by (subst delete_loop.simps) (simp add: i4 del: of_nat_mult of_nat_Suc)
    also have "\<dots> = (let found = existing_cells sf s (drop (Suc k) cs)
       in Some (rl + of_nat (4 * length found), s\<lparr>res_storage := last_cell found (res_storage s)\<rparr>))"
      using Suc.prems k by (intro Suc.hyps(1) [OF m]) simp_all
    finally show ?thesis using None by (simp add: d existing_cells_def)
  next
    case (Some l)
    let ?st = "cell_bytes (cs ! k) @ drop 4 (res_storage s)"
    obtain r where r: "sixp_pkt_set_cell_list SIXP_PKT_TYPE_RESPONSE SIXP_PKT_RC_SUCCESS (Some (cell_bytes (cs ! k))) 4
        0 (Some (res_storage s)) (of_nat STORAGE_SIZE) = Some (r, Some ?st)"
      using set_response_cell [OF Suc.prems(2), of 0 "cs ! k"] by auto
    have "delete_loop sf (cells_bytes cs @ bs) (of_nat (4 * length cs)) (of_nat (4 * k)) rl s =
        delete_loop sf (cells_bytes cs @ bs) (of_nat (4 * length cs)) (of_nat (4 * Suc k)) (rl + 4)
          (s\<lparr>res_storage := ?st\<rparr>)"
      using lt(1) rd Some by (subst delete_loop.simps) (simp add: i4 r del: of_nat_mult of_nat_Suc of_nat_add)
    also have "\<dots> = (let found = existing_cells sf (s\<lparr>res_storage := ?st\<rparr>) (drop (Suc k) cs)
       in Some (rl + 4 + of_nat (4 * length found),
                s\<lparr>res_storage := ?st, res_storage := last_cell found (res_storage (s\<lparr>res_storage := ?st\<rparr>))\<rparr>))"
      using Suc.prems k by (intro Suc.hyps(1) [OF m]) auto
    finally have e: "delete_loop sf (cells_bytes cs @ bs) (of_nat (4 * length cs)) (of_nat (4 * k)) rl s =
      (let found = existing_cells sf s (drop (Suc k) cs)
       in Some (rl + 4 + of_nat (4 * length found), s\<lparr>res_storage := last_cell found ?st\<rparr>))" by simp
    have "existing_cells sf s (drop k cs) = cs ! k # existing_cells sf s (drop (Suc k) cs)"
      using Some by (simp add: d existing_cells_def)
    then show ?thesis unfolding e by (simp add: Let_def last_cell_Cons)
  qed
qed

lemma clear_res_storage_existing [simp]: "existing_cells sf (clear_res_storage s) = existing_cells sf s"
  by (simp add: clear_res_storage_def)

lemma delete_req_input_eq:
  assumes "length (res_storage s) = STORAGE_SIZE" and "cs \<noteq> []" and "length cs \<le> 63" and "0 < n"
    and sf: "tsch_schedule_get_slotframe_by_handle slotframe_handle s = Some f"
  shows "delete_req_input env (cells_body opts n cs @ bs) (cells_body_len cs) peer s =
    (let found = existing_cells (Some f) s cs
     in send_response env DELETE_RESPONSE_SENT (of_nat (4 * length found)) peer
          (s\<lparr>res_storage := last_cell found (replicate STORAGE_SIZE 0)\<rparr>))"
proof -
  have "delete_loop (Some f) (cells_bytes cs @ bs) (of_nat (4 * length cs)) 0 0 (clear_res_storage s) =
    (let found = existing_cells (Some f) s cs
     in Some (of_nat (4 * length found), s\<lparr>res_storage := last_cell found (replicate STORAGE_SIZE 0)\<rparr>))"
    using delete_loop_from [OF assms(3) le0, of "clear_res_storage s" "Some f" bs 0] assms(1) by simp
  then show ?thesis
    using assms zero_less_list_len [OF assms(2,3)]
    by (simp add: delete_req_input_def cells_body_fields drop_cells_body Let_def del: of_nat_mult drop_append)
qed

text \<open>An empty body is given as an address with length 0, which \<open>sixp_pkt_create\<close> refuses.\<close>

lemma send_response_empty:
  assumes "sixp_nbr_find (Some peer) s \<noteq> None"
  shows "send_response env callback 0 peer s = Some s"
proof -
  have n: "output_nbr env SIXP_PKT_TYPE_RESPONSE code peer trp s = (False, sixp_nbr_find (Some peer) s, s)" for code trp
    using assms by (auto simp: output_nbr_def)
  have c: "sixp_pkt_create type code sfid seqno (Some b) 0 p s = Some (-1, p, s)" for type code sfid seqno b p
    by (simp add: sixp_pkt_create_def)
  show ?thesis by (simp add: send_response_def sixp_output_def n c Let_def)
qed


lemma remove_links_loop_cells:
  fixes s :: "'a sf_state_scheme"
  assumes wf: "sched_wf s" "\<not> tsch_locked s" "i \<in> set (sch_slotframe_list s)"
    and n: "unat len = 4 * length cs" and k: "k \<le> length cs"
    and ne: "\<forall>c\<in>set cs. timeslot_offset c \<noteq> 0xffff"
  shows "\<exists>s'. remove_links_loop (Some i) (cells_bytes cs @ bs) len (4 * k) s = Some s' \<and>
    kept_links s i (filter (\<lambda>l. \<not> (\<exists>c\<in>set (drop k cs). at_offsets s (timeslot_offset c) (channel_offset c) l)) (sf_links s i)) s'"
  using wf k
proof (induction "length cs - k" arbitrary: k s)
  case 0
  then show ?case by (subst remove_links_loop.simps) (simp add: n kept_links_def same_slotframe_def)
next
  case (Suc m)
  then have k: "k < length cs" and m: "m = length cs - Suc k" by simp_all
  have d: "drop k cs = cs ! k # drop (Suc k) cs" using k by (simp add: Cons_nth_drop_Suc)
  let ?c = "cs ! k"
  from remove_link_by_offsets_spec [OF Suc.prems(1-3), of "timeslot_offset ?c" "channel_offset ?c"]
  obtain s1 where s1: "snd (tsch_schedule_remove_link_by_offsets (Some i) (timeslot_offset ?c) (channel_offset ?c) s) = s1"
    "kept_links s i (filter (\<lambda>l. \<not> at_offsets s (timeslot_offset ?c) (channel_offset ?c) l) (sf_links s i)) s1"
    by force
  from s1(2) have wf1: "sched_wf s1" "\<not> tsch_locked s1" "i \<in> set (sch_slotframe_list s1)"
    and lk: "sch_links s1 = sch_links s"
    using Suc.prems(3) by (simp_all add: kept_links_def)
  have at: "at_offsets s1 = at_offsets s" by (simp add: at_offsets_def fun_eq_iff lk)
  have "Suc k \<le> length cs" using k by simp
  from Suc.hyps(1) [OF m wf1 this] obtain s' where s': "remove_links_loop (Some i) (cells_bytes cs @ bs) len (4 * Suc k) s1 = Some s'"
    "kept_links s1 i (filter (\<lambda>l. \<not> (\<exists>c\<in>set (drop (Suc k) cs). at_offsets s (timeslot_offset c) (channel_offset c) l)) (sf_links s1 i)) s'"
    unfolding at by blast
  have "remove_links_loop (Some i) (cells_bytes cs @ bs) len (4 * k) s =
      remove_links_loop (Some i) (cells_bytes cs @ bs) len (4 * k + 4) s1"
    using k n ne read_cell_nth [OF k, of bs] s1(1) by (subst remove_links_loop.simps) simp
  moreover have "4 * k + 4 = 4 * Suc k" by simp
  moreover have "kept_links s i (filter (\<lambda>l. \<not> (\<exists>c\<in>set (drop k cs). at_offsets s (timeslot_offset c) (channel_offset c) l)) (sf_links s i)) s'"
    using s'(2) s1(2) unfolding kept_links_def same_slotframe_def by (simp add: d conj_commute)
  ultimately show ?case using s'(1) by auto
qed

lemma remove_links_cells:
  fixes s :: "'a sf_state_scheme"
  assumes "sched_wf s" "\<not> tsch_locked s" and sf: "tsch_schedule_get_slotframe_by_handle slotframe_handle s = Some i"
    and "unat len = 4 * length cs" and "\<forall>c\<in>set cs. timeslot_offset c \<noteq> 0xffff"
  shows "\<exists>s'. remove_links_to_schedule (Some (cells_bytes cs @ bs)) len s = Some s' \<and>
    kept_links s i (filter (\<lambda>l. \<not> (\<exists>c\<in>set cs. at_offsets s (timeslot_offset c) (channel_offset c) l)) (sf_links s i)) s'"
  using remove_links_loop_cells [OF assms(1,2) slotframe_by_handle_in [OF sf] assms(4) le0 assms(5), of bs]
  by (simp add: remove_links_to_schedule_def sf)

definition zero_cell :: sf_simple_cell where
  "zero_cell = \<lparr>timeslot_offset = 0, channel_offset = 0\<rparr>"

lemma zero_cells_bytes: "cells_bytes (replicate n zero_cell) = replicate (4 * n) 0"
proof -
  have "cell_bytes zero_cell = replicate 4 0"
    by (simp add: cell_bytes_def zero_cell_def le16_def numeral_eq_Suc)
  then show ?thesis by (induction n) (simp_all add: replicate_add [symmetric])
qed

text \<open>
  C9: when the response to a DELETE request was sent, the responder removes exactly the links at
  the offsets of the cell in it; and if the response was for several cells, also every link at
  timeslot 0 and channel offset 0, the minimal cell that the whole network shares.
\<close>

theorem delete_response_sent_removes:
  fixes s :: "'a sf_state_scheme"
  assumes wf: "sched_wf s" "\<not> tsch_locked s"
    and sf: "tsch_schedule_get_slotframe_by_handle slotframe_handle s = Some i"
    and res: "res_storage s = cell_bytes c @ replicate 16 0" and n: "0 < n" "n \<le> 5"
    and "timeslot_offset c \<noteq> 0xffff" and nbr: "sixp_nbr_find (Some dest) s \<noteq> None"
  shows "\<exists>s'. sf_sent_callback qe DELETE_RESPONSE_SENT RES_STORAGE (of_nat (4 * n)) dest SIXP_OUTPUT_STATUS_SUCCESS s = Some s' \<and>
    kept_links s i (filter (\<lambda>l. \<not> (at_offsets s (timeslot_offset c) (channel_offset c) l \<or> 1 < n \<and> at_offsets s 0 0 l))
      (sf_links s i)) s'"
proof -
  let ?cs = "c # replicate (n - 1) zero_cell"
  have u: "unat (of_nat (4 * n) :: u16) = 4 * n" using n by (intro unat_of_nat_fits) simp
  then have ui: "uint (of_nat (4 * n) :: u16) = int (4 * n)" by (simp add: uint_nat)
  have r: "sent_response_cells (res_storage s) (of_nat (4 * n)) dest SIXP_OUTPUT_STATUS_SUCCESS s =
      Some (res_storage s, of_nat (4 * n))"
    using nbr ui by (auto simp: sent_response_cells_def sixp_pkt_get_cell_list_def pkt_offset_defs)
  have b: "res_storage s = cells_bytes ?cs @ replicate (20 - 4 * n) 0"
    using n by (simp add: res zero_cells_bytes replicate_add [symmetric])
  have l: "unat (of_nat (4 * n) :: u16) = 4 * length ?cs" using n u by simp
  have ne: "\<forall>d\<in>set ?cs. timeslot_offset d \<noteq> 0xffff" using assms(7) by (auto simp: zero_cell_def)
  have e: "(\<exists>d\<in>set ?cs. at_offsets s (timeslot_offset d) (channel_offset d) l) \<longleftrightarrow>
      at_offsets s (timeslot_offset c) (channel_offset c) l \<or> 1 < n \<and> at_offsets s 0 0 l" for l
    by (auto simp: zero_cell_def)
  have "sf_sent_callback qe DELETE_RESPONSE_SENT RES_STORAGE (of_nat (4 * n)) dest SIXP_OUTPUT_STATUS_SUCCESS s =
      remove_links_to_schedule (Some (res_storage s)) (of_nat (4 * n)) s"
    by (simp add: sf_sent_callback_def delete_response_sent_callback_def callback_body_def r del: of_nat_mult)
  then show ?thesis
    using remove_links_cells [OF wf sf l ne, of "replicate (20 - 4 * n) 0", folded b] unfolding e by presburger
qed

subsection \<open>Starting the transactions\<close>

text \<open>A replacement touches the random numbers and the candidates only.\<close>

lemma replace_loop_frame:
  "replace_loop sf i s = Some s' \<Longrightarrow> \<exists>p cs. s' = s\<lparr>rand_pos := p, candidate_cell_list := cs\<rparr>"
proof (rule replace_loop.raw_induct [where P = "\<lambda>sf i s s'. \<exists>p cs. s' = s\<lparr>rand_pos := p, candidate_cell_list := cs\<rparr>",
      of sf i s s'])
  fix f :: "nat option \<Rightarrow> nat \<Rightarrow> 'a alloc_state_scheme \<Rightarrow> 'a alloc_state_scheme option" and sf i s s'
  assume IH: "\<And>sf i s s'. f sf i s = Some s' \<Longrightarrow> \<exists>p cs. s' = s\<lparr>rand_pos := p, candidate_cell_list := cs\<rparr>"
    and r: "do { (found_valid_slot, s1) \<leftarrow> replace_round sf i s;
       (if found_valid_slot \<noteq> 2 then f sf i s1 else Some s1) } = Some s'"
  then obtain n s1 where n: "replace_round sf i s = Some (n, s1)"
    and d: "(if n \<noteq> 2 then f sf i s1 else Some s1) = Some s'"
    by (auto split: bind_splits)
  have "s1 = s\<lparr>rand_pos := rand_pos s1, candidate_cell_list := candidate_cell_list s1\<rparr>"
    using n by (auto simp: replace_round_def draw_cell_eq Let_def split: if_splits bind_splits)
  then obtain p cs where s1: "s1 = s\<lparr>rand_pos := p, candidate_cell_list := cs\<rparr>" by blast
  show "\<exists>p cs. s' = s\<lparr>rand_pos := p, candidate_cell_list := cs\<rparr>"
  proof (cases "n = 2")
    case True
    with d s1 show ?thesis by auto
  next
    case False
    with d have "f sf i s1 = Some s'" by simp
    from IH [OF this] obtain q ds where "s' = s1\<lparr>rand_pos := q, candidate_cell_list := ds\<rparr>" by blast
    with s1 have "s' = s\<lparr>rand_pos := q, candidate_cell_list := ds\<rparr>" by simp
    then show ?thesis by blast
  qed
qed

text \<open>
  Random numbers that never dry up: from any position on, whatever nine timeslots are excluded,
  some draw gives a cell that is free and not in the black list.
\<close>

definition fair_draws :: "'a alloc_state_scheme \<Rightarrow> bool" where
  "fair_draws s \<longleftrightarrow> (\<forall>p T. card T \<le> 9 \<longrightarrow> finite T \<longrightarrow>
     (\<exists>n. cell_free (tsch_schedule_get_slotframe_by_handle 0 s) (cell_at s (p + 2 * n)) s \<and> slot_at s (p + 2 * n) \<notin> T))"

lemma slotframe_by_handle_alloc [simp]:
  "tsch_schedule_get_slotframe_by_handle h (s\<lparr>rand_pos := p\<rparr>) = tsch_schedule_get_slotframe_by_handle h s"
  "tsch_schedule_get_slotframe_by_handle h (u\<lparr>candidate_cell_list := cs\<rparr>) = tsch_schedule_get_slotframe_by_handle h u"
  by (simp_all add: tsch_schedule_get_slotframe_by_handle_def tsch_is_locked_def)

lemma fair_draws_alloc [simp]:
  "fair_draws (s\<lparr>rand_pos := p, candidate_cell_list := cs\<rparr>) = fair_draws s"
  by (simp add: fair_draws_def cell_at_def)

lemma replace_candidate_fair:
  assumes "blacklist_ready (blacklist s)" and "length (candidate_cell_list s) = CAND_CELL_LIST_LEN" and "fair_draws s"
  shows "\<exists>p cs. replace_candidate_cell ts s = Some (s\<lparr>rand_pos := p, candidate_cell_list := cs\<rparr>) \<and>
    length cs = CAND_CELL_LIST_LEN \<and> (cells_ok (candidate_cell_list s) \<longrightarrow> cells_ok cs)"
proof (cases "ts \<in> timeslot_offset ` set (candidate_cell_list s)")
  case False
  have "s = s\<lparr>rand_pos := rand_pos s, candidate_cell_list := candidate_cell_list s\<rparr>" by simp
  with replace_candidate_absent [OF assms(2) False] assms(2) show ?thesis by metis
next
  case True
  let ?T = "timeslot_offset ` set (candidate_cell_list s)"
  have "card ?T \<le> 9"
    using assms(2) by (metis CAND_CELL_LIST_LEN_def card_image_le card_length finite_set le_trans)
  then obtain n where n: "cell_free (tsch_schedule_get_slotframe_by_handle 0 s) (cell_at s (rand_pos s + 2 * n)) s"
    "slot_at s (rand_pos s + 2 * n) \<notin> ?T"
    using assms(3) unfolding fair_draws_def by blast
  from replace_candidate_ready [OF assms(1,2) True n] obtain i p c where
    r: "replace_candidate_cell ts s = Some (s\<lparr>rand_pos := p, candidate_cell_list := (candidate_cell_list s)[i := c]\<rparr>)"
    and ok: "cells_ok (candidate_cell_list s) \<longrightarrow> cells_ok ((candidate_cell_list s)[i := c])" by blast
  have "length ((candidate_cell_list s)[i := c]) = CAND_CELL_LIST_LEN" using assms(2) by simp
  with r ok show ?thesis by blast
qed

text \<open>The setters of an ADD and of a DELETE request on a cleared \<open>req_storage\<close>.\<close>

lemma add_request_storage:
  fixes s :: "'a sf_state_scheme"
  assumes "length (req_storage s) = STORAGE_SIZE" and "length cs = 4"
  shows "do {
      (r1, s4) \<leftarrow> on_req_storage (sixp_pkt_set_cell_options SIXP_PKT_TYPE_REQUEST SIXP_PKT_CMD_ADD
         SIXP_PKT_CELL_OPTION_TX) (clear_req_storage s);
      (if r1 \<noteq> 0 then Some (-1, s4)
       else do {
         (r2, s5) \<leftarrow> on_req_storage (sixp_pkt_set_num_cells SIXP_PKT_TYPE_REQUEST SIXP_PKT_CMD_ADD n) s4;
         (if r2 \<noteq> 0 then Some (-1, s5)
          else do {
            (r3, s6) \<leftarrow> on_req_storage (sixp_pkt_set_cell_list SIXP_PKT_TYPE_REQUEST SIXP_PKT_CMD_ADD
              (Some (concat (map cell_bytes cs))) (4 * 4) 0) s5;
            (if r3 \<noteq> 0 then Some (-1, s6) else K s6)
          })
       })
    } = K (s\<lparr>req_storage := cells_body 1 n cs\<rparr>)"
proof -
  have u16: "unat (16 :: u16) = 16" "uint (16 :: u16) = 16" by simp_all
  have l20: "length (req_storage s) = 20" using assms(1) by (simp add: SF_SIMPLE_MAX_LINKS_def)
  have m1: "mem_write (replicate 20 (0 :: u8)) 2 [1] = Some (0 # 0 # 1 # replicate 17 0)"
    by (simp add: mem_write_def numeral_eq_Suc)
  have m2: "mem_write (0 # 0 # 1 # replicate 17 (0 :: u8)) 3 [n] = Some (0 # 0 # 1 # n # replicate 16 0)"
    by (simp add: mem_write_def numeral_eq_Suc)
  have o: "on_req_storage (sixp_pkt_set_cell_options SIXP_PKT_TYPE_REQUEST SIXP_PKT_CMD_ADD SIXP_PKT_CELL_OPTION_TX)
      (clear_req_storage s) = Some (0, s\<lparr>req_storage := 0 # 0 # 1 # replicate 17 0\<rparr>)"
    using m1 unfolding on_req_storage_def
    by (simp add: sixp_pkt_set_cell_options_def pkt_offset_defs SF_SIMPLE_MAX_LINKS_def clear_req_storage_def l20)
  have n: "on_req_storage (sixp_pkt_set_num_cells SIXP_PKT_TYPE_REQUEST SIXP_PKT_CMD_ADD n)
      (s\<lparr>req_storage := 0 # 0 # 1 # replicate 17 0\<rparr>) = Some (0, s\<lparr>req_storage := 0 # 0 # 1 # n # replicate 16 0\<rparr>)"
    using m2 unfolding on_req_storage_def by (simp add: sixp_pkt_set_num_cells_def pkt_offset_defs)
  have l: "mem_read (concat (map cell_bytes cs)) 0 16 = Some (cells_bytes cs)"
    using assms(2) by (simp add: mem_read_def cells_bytes_def [symmetric])
  have c: "on_req_storage (sixp_pkt_set_cell_list SIXP_PKT_TYPE_REQUEST SIXP_PKT_CMD_ADD (Some (concat (map cell_bytes cs))) 16 0)
      (s\<lparr>req_storage := 0 # 0 # 1 # n # replicate 16 0\<rparr>) = Some (0, s\<lparr>req_storage := cells_body 1 n cs\<rparr>)"
    using assms(2) l unfolding on_req_storage_def
    by (simp add: sixp_pkt_set_cell_list_def pkt_offset_defs SF_SIMPLE_MAX_LINKS_def u16 mem_write_def cells_body_def)
  show ?thesis by (simp add: o n c)
qed


text \<open>
  C10: with one to five cells in the black list and random numbers that never dry up,
  \<open>sf_simple_add_links\<close> sends an ADD request for the number of links asked for that offers the first
  four candidates; three of them have then been replaced, and the candidates stay good cells with
  pairwise different timeslots.
\<close>

theorem sf_simple_add_links_request:
  fixes s :: "'a sf_state_scheme"
  assumes ready: "blacklist_ready (blacklist s)" and fair: "fair_draws s"
    and l: "length (candidate_cell_list s) = CAND_CELL_LIST_LEN" and req: "length (req_storage s) = STORAGE_SIZE"
    and sf: "tsch_schedule_get_slotframe_by_handle slotframe_handle s \<noteq> None"
  shows "\<exists>p cs. sf_simple_add_links env peer num s =
      send_request env SIXP_PKT_CMD_ADD 20 peer (Some ADD_REQUEST_SENT)
        (s\<lparr>rand_pos := p, candidate_cell_list := cs,
           req_storage := cells_body SIXP_PKT_CELL_OPTION_TX num (take 4 (candidate_cell_list s))\<rparr>) \<and>
    length cs = CAND_CELL_LIST_LEN \<and> (cells_ok (candidate_cell_list s) \<longrightarrow> cells_ok cs)"
proof -
  obtain cl where cl: "cl = take 4 (candidate_cell_list s)" by simp
  have g: "get_candidate_add s = Some cl"
    using l by (simp add: cl get_candidate_add_def mem_read_def SF_SIMPLE_MAX_LINKS_def CAND_CELL_LIST_LEN_def)
  obtain p1 c1 where 1: "replace_candidate_cell (timeslot_offset (cl ! 0)) s =
      Some (s\<lparr>rand_pos := p1, candidate_cell_list := c1\<rparr>)" "length c1 = CAND_CELL_LIST_LEN"
      "cells_ok (candidate_cell_list s) \<longrightarrow> cells_ok c1"
    using replace_candidate_fair [OF ready l fair] by blast
  have "\<exists>p cs. replace_candidate_cell (timeslot_offset (cl ! 1)) (s\<lparr>rand_pos := p1, candidate_cell_list := c1\<rparr>) =
      Some (s\<lparr>rand_pos := p, candidate_cell_list := cs\<rparr>) \<and> length cs = CAND_CELL_LIST_LEN \<and>
      (cells_ok c1 \<longrightarrow> cells_ok cs)"
    using replace_candidate_fair [of "s\<lparr>rand_pos := p1, candidate_cell_list := c1\<rparr>"] ready fair 1(2) by simp
  then obtain p2 c2 where 2: "replace_candidate_cell (timeslot_offset (cl ! 1)) (s\<lparr>rand_pos := p1, candidate_cell_list := c1\<rparr>) =
      Some (s\<lparr>rand_pos := p2, candidate_cell_list := c2\<rparr>)" "length c2 = CAND_CELL_LIST_LEN" "cells_ok c1 \<longrightarrow> cells_ok c2"
    by blast
  have "\<exists>p cs. replace_candidate_cell (timeslot_offset (cl ! 2)) (s\<lparr>rand_pos := p2, candidate_cell_list := c2\<rparr>) =
      Some (s\<lparr>rand_pos := p, candidate_cell_list := cs\<rparr>) \<and> length cs = CAND_CELL_LIST_LEN \<and>
      (cells_ok c2 \<longrightarrow> cells_ok cs)"
    using replace_candidate_fair [of "s\<lparr>rand_pos := p2, candidate_cell_list := c2\<rparr>"] ready fair 2(2) by simp
  then obtain p3 c3 where 3: "replace_candidate_cell (timeslot_offset (cl ! 2)) (s\<lparr>rand_pos := p2, candidate_cell_list := c2\<rparr>) =
      Some (s\<lparr>rand_pos := p3, candidate_cell_list := c3\<rparr>)" "length c3 = CAND_CELL_LIST_LEN" "cells_ok c2 \<longrightarrow> cells_ok c3"
    by blast
  let ?s3 = "s\<lparr>rand_pos := p3, candidate_cell_list := c3\<rparr>"
  have "length (req_storage ?s3) = STORAGE_SIZE" "length cl = 4"
    using req l by (simp_all add: cl CAND_CELL_LIST_LEN_def)
  note b = add_request_storage [OF this, of num "send_request env SIXP_PKT_CMD_ADD (4 + 4 * 4) peer (Some ADD_REQUEST_SENT)"]
  have "sf_simple_add_links env peer num s =
      send_request env SIXP_PKT_CMD_ADD (4 + 4 * 4) peer (Some ADD_REQUEST_SENT)
        (?s3\<lparr>req_storage := cells_body SIXP_PKT_CELL_OPTION_TX num cl\<rparr>)"
    unfolding sf_simple_add_links_def if_not_P [OF sf] g bind.bind_lunit 1(1) 2(1) 3(1) by (rule b)
  then show ?thesis using 1(3) 2(3) 3(2,3) by (intro exI [of _ p3] exI [of _ c3]) (simp add: cl)
qed


subsection \<open>Starting a DELETE\<close>

lemma delete_request_storage:
  fixes s :: "'a sf_state_scheme"
  assumes "length (req_storage s) = STORAGE_SIZE"
  shows "do {
      (r1, s1) \<leftarrow> on_req_storage (sixp_pkt_set_num_cells SIXP_PKT_TYPE_REQUEST SIXP_PKT_CMD_DELETE 1) (clear_req_storage s);
      (if r1 \<noteq> 0 then Some (-1, s1)
       else do {
         (r2, s2) \<leftarrow> on_req_storage (sixp_pkt_set_cell_list SIXP_PKT_TYPE_REQUEST SIXP_PKT_CMD_DELETE
           (Some (cell_bytes c)) 4 0) s1;
         (if r2 \<noteq> 0 then Some (-1, s2) else K s2)
       })
    } = K (s\<lparr>req_storage := cells_body 0 1 [c] @ replicate 12 0\<rparr>)"
proof -
  have l20: "length (req_storage s) = 20" using assms(1) by (simp add: SF_SIMPLE_MAX_LINKS_def)
  have m1: "mem_write (replicate 20 (0 :: u8)) 3 [1] = Some (0 # 0 # 0 # 1 # replicate 16 0)"
    by (simp add: mem_write_def numeral_eq_Suc)
  have n: "on_req_storage (sixp_pkt_set_num_cells SIXP_PKT_TYPE_REQUEST SIXP_PKT_CMD_DELETE 1) (clear_req_storage s) =
      Some (0, s\<lparr>req_storage := 0 # 0 # 0 # 1 # replicate 16 0\<rparr>)"
    using m1 unfolding on_req_storage_def
    by (simp add: sixp_pkt_set_num_cells_def pkt_offset_defs clear_req_storage_def l20)
  have c: "on_req_storage (sixp_pkt_set_cell_list SIXP_PKT_TYPE_REQUEST SIXP_PKT_CMD_DELETE (Some (cell_bytes c)) 4 0)
      (s\<lparr>req_storage := 0 # 0 # 0 # 1 # replicate 16 0\<rparr>) =
      Some (0, s\<lparr>req_storage := cells_body 0 1 [c] @ replicate 12 0\<rparr>)"
    unfolding on_req_storage_def
    by (simp add: sixp_pkt_set_cell_list_def pkt_offset_defs SF_SIMPLE_MAX_LINKS_def mem_write_def mem_read_def
        cells_body_def)
  show ?thesis by (simp add: n c)
qed

lemma find_tx_cell_Some:
  assumes "find_tx_cell (Some i) peer s = Some c" and "\<not> tsch_locked s"
  shows "\<exists>l. tsch_schedule_get_link_by_offsets (Some i) (timeslot_offset c) 0 s = Some l \<and>
    link_addr (sch_links s ! l) = peer \<and> link_options (sch_links s ! l) = LINK_OPTION_TX \<and> channel_offset c = 0"
proof -
  from assms(1) obtain k l where "tsch_schedule_get_link_by_offsets (Some i) (of_nat k) 0 s = Some l"
    "link_addr (sch_links s ! l) = peer" "link_options (sch_links s ! l) = LINK_OPTION_TX"
    "c = \<lparr>timeslot_offset = of_nat k, channel_offset = link_channel_offset (sch_links s ! l)\<rparr>"
    by (auto simp: find_tx_cell_def split: option.splits dest!: find_SomeD)
  moreover from this(1) assms(2) have "link_channel_offset (sch_links s ! l) = 0"
    by (auto simp: tsch_schedule_get_link_by_offsets_def tsch_is_locked_def split: option.splits dest: find_SomeD)
  ultimately show ?thesis by auto
qed

lemma find_tx_cell_None:
  assumes "find_tx_cell sf peer s = None" and "t < 101"
    and "tsch_schedule_get_link_by_offsets sf t 0 s = Some l"
  shows "\<not> (link_addr (sch_links s ! l) = peer \<and> link_options (sch_links s ! l) = LINK_OPTION_TX)"
proof -
  have t: "t = of_nat (unat t)" "unat t \<in> set [0..<unat TSCH_SCHEDULE_DEFAULT_LENGTH]"
    using assms(2) by (simp_all add: TSCH_SCHEDULE_DEFAULT_LENGTH_def word_less_nat_alt)
  from assms(1) have "find (\<lambda>i. case tsch_schedule_get_link_by_offsets sf (of_nat i) 0 s of
        None \<Rightarrow> False | Some l \<Rightarrow> link_addr (sch_links s ! l) = peer \<and> link_options (sch_links s ! l) = LINK_OPTION_TX)
      [0..<unat TSCH_SCHEDULE_DEFAULT_LENGTH] = None"
    by (auto simp: find_tx_cell_def split: option.splits)
  from find_NoneD [OF this t(2)] show ?thesis using t(1) assms(3) by simp
qed

text \<open>
  C14: \<open>sf_simple_remove_links\<close> asks the peer to delete a transmit link to it on channel offset 0; if
  there is none, it does nothing, whatever links to the peer there are on other channels.
\<close>

theorem sf_simple_remove_links_request:
  fixes s :: "'a sf_state_scheme"
  assumes sf: "tsch_schedule_get_slotframe_by_handle slotframe_handle s = Some i" and unl: "\<not> tsch_locked s"
    and req: "length (req_storage s) = STORAGE_SIZE"
  shows "(\<exists>c l. sf_simple_remove_links env peer s =
        send_request env SIXP_PKT_CMD_DELETE 8 peer None (s\<lparr>req_storage := cells_body 0 1 [c] @ replicate 12 0\<rparr>) \<and>
      tsch_schedule_get_link_by_offsets (Some i) (timeslot_offset c) (channel_offset c) s = Some l \<and>
      link_addr (sch_links s ! l) = peer \<and> link_options (sch_links s ! l) = LINK_OPTION_TX \<and> channel_offset c = 0) \<or>
    sf_simple_remove_links env peer s = Some (-1, s) \<and>
    (\<forall>t l. t < 101 \<longrightarrow> tsch_schedule_get_link_by_offsets (Some i) t 0 s = Some l \<longrightarrow>
       \<not> (link_addr (sch_links s ! l) = peer \<and> link_options (sch_links s ! l) = LINK_OPTION_TX))"
proof (cases "find_tx_cell (Some i) peer s")
  case None
  then have "sf_simple_remove_links env peer s = Some (-1, s)"
    by (simp add: sf_simple_remove_links_def sf)
  with find_tx_cell_None [OF None] show ?thesis by blast
next
  case (Some c)
  have "sf_simple_remove_links env peer s = send_request env SIXP_PKT_CMD_DELETE 8 peer None
      (s\<lparr>req_storage := cells_body 0 1 [c] @ replicate 12 0\<rparr>)"
    using delete_request_storage [OF req, of c "send_request env SIXP_PKT_CMD_DELETE (4 + 4) peer None"]
    by (simp add: sf_simple_remove_links_def sf Some)
  with find_tx_cell_Some [OF Some unl] show ?thesis by auto
qed

subsection \<open>The RELOCATE transaction\<close>

definition relocate_body :: "u8 \<Rightarrow> sf_simple_cell \<Rightarrow> sf_simple_cell list \<Rightarrow> u8 list" where
  "relocate_body options rel cs = [0, 0, options, 1] @ cell_bytes rel @ cells_bytes cs"

definition relocate_body_len :: "sf_simple_cell list \<Rightarrow> u16" where
  "relocate_body_len cs = of_nat (8 + 4 * length cs)"

lemma relocate_body_fields:
  assumes "length cs \<le> 62"
    and b_def: "b = Some (relocate_body opts rel cs @ bs)" and n_def: "n = relocate_body_len cs"
  shows "sixp_pkt_get_num_cells SIXP_PKT_TYPE_REQUEST SIXP_PKT_CMD_RELOCATE (Some 0) b n = Some (0, Some 1)"
    and "sixp_pkt_get_rel_cell_list SIXP_PKT_TYPE_REQUEST SIXP_PKT_CMD_RELOCATE (Some 0) (Some 0) b n = Some (0, Some 4, Some 4)"
    and "sixp_pkt_get_cand_cell_list SIXP_PKT_TYPE_REQUEST SIXP_PKT_CMD_RELOCATE (Some 0) (Some 0) b n =
      Some (0, Some 8, Some (of_nat (4 * length cs)))"
proof -
  have u: "uint n = int (8 + 4 * length cs)"
    using assms(1) unfolding n_def relocate_body_len_def
    by (simp add: unsigned_of_nat take_bit_nat_eq_self del: of_nat_add of_nat_mult)
  show g: "sixp_pkt_get_num_cells SIXP_PKT_TYPE_REQUEST SIXP_PKT_CMD_RELOCATE (Some 0) b n = Some (0, Some 1)"
    by (simp add: sixp_pkt_get_num_cells_def pkt_offset_defs u b_def mem_read_def relocate_body_def)
  have m4: "(4 + 4 * int (length cs)) mod 4 = 0" by presburger
  then show "sixp_pkt_get_rel_cell_list SIXP_PKT_TYPE_REQUEST SIXP_PKT_CMD_RELOCATE (Some 0) (Some 0) b n = Some (0, Some 4, Some 4)"
    by (simp add: sixp_pkt_get_rel_cell_list_def g) (simp add: b_def pkt_offset_defs u)
  have "n - 8 = of_nat (4 * length cs)" by (simp add: n_def relocate_body_len_def)
  then show "sixp_pkt_get_cand_cell_list SIXP_PKT_TYPE_REQUEST SIXP_PKT_CMD_RELOCATE (Some 0) (Some 0) b n =
      Some (0, Some 8, Some (of_nat (4 * length cs)))"
    by (simp add: sixp_pkt_get_cand_cell_list_def g) (simp add: b_def pkt_offset_defs u)
qed

lemma relocate_body_reads:
  "read_cell (relocate_body opts rel cs @ bs) 4 = Some rel"
  "drop 8 (relocate_body opts rel cs @ bs) = cells_bytes cs @ bs"
  by (subst read_cell_drop) (simp_all add: relocate_body_def read_cell_bytes)

text \<open>
  C12: a RELOCATE request for one cell is answered with the first candidate whose timeslot is not in
  use, and the cell to leave is remembered; without such a candidate nothing is sent.
\<close>

theorem relocate_request_answer:
  fixes s :: "'a sf_state_scheme"
  assumes "length (res_storage s) = STORAGE_SIZE" and "cs \<noteq> []" and "length cs \<le> 62"
    and sf: "tsch_schedule_get_slotframe_by_handle slotframe_handle s = Some f"
  shows "request_input env SIXP_PKT_CMD_RELOCATE (Some (relocate_body opts rel cs @ bs)) (relocate_body_len cs) peer s =
    (case find (\<lambda>c. tsch_schedule_get_link_by_timeslot (Some f) (timeslot_offset c) s = None) cs of
       Some c \<Rightarrow> send_response env RELOCATE_RESPONSE_SENT 4 peer
         (s\<lparr>res_storage := cell_bytes c @ replicate 16 0, current_cell_to_be_relocated := rel\<rparr>)
     | None \<Rightarrow> Some (s\<lparr>res_storage := replicate STORAGE_SIZE 0\<rparr>))"
proof -
  let ?P = "\<lambda>c. tsch_schedule_get_link_by_timeslot (Some f) (timeslot_offset c) s = None"
  have t: "take 1 (free_cells (Some f) s cs) = (case find ?P cs of None \<Rightarrow> [] | Some c \<Rightarrow> [c])"
    unfolding free_cells_def by (induction cs) (simp_all split: option.split)
  have l63: "length cs \<le> 63" using assms(3) by simp
  have fl: "feasible_loop (Some f) (cells_bytes cs @ bs) (of_nat (4 * length cs)) 1 0 0 0 (clear_res_storage s) =
      (case find ?P cs of None \<Rightarrow> Some (0, 0, s\<lparr>res_storage := replicate STORAGE_SIZE 0\<rparr>)
       | Some c \<Rightarrow> Some (1, 4, s\<lparr>res_storage := cell_bytes c @ replicate 16 0\<rparr>))"
  proof -
    have u: "unat (1 :: u8) = 1" and st: "length (res_storage (clear_res_storage s)) = STORAGE_SIZE"
      and fc: "free_cells (Some f) (clear_res_storage s) = free_cells (Some f) s" using assms(1) by simp_all
    show ?thesis
      unfolding feasible_loop_eq [OF l63 st] u fc t
      using assms(1) by (simp add: SF_SIMPLE_MAX_LINKS_def split: option.split)
  qed
  show ?thesis
    unfolding request_input_def relocate_req_input_def
    using zero_less_list_len [OF assms(2) l63]
    by (simp add: relocate_body_fields [OF assms(3) refl refl] relocate_body_reads sf fl SF_SIMPLE_MAX_LINKS_def Let_def
        del: of_nat_mult drop_append split: option.split)
qed

text \<open>The setters of a RELOCATE request for one link; their results are not looked at.\<close>

lemma relocate_request_storage:
  fixes s :: "'a sf_state_scheme"
  assumes "length (req_storage s) = STORAGE_SIZE" and "length cs = 4"
  shows "do {
      (_, s2) \<leftarrow> on_req_storage (sixp_pkt_set_cell_options SIXP_PKT_TYPE_REQUEST SIXP_PKT_CMD_RELOCATE
        SIXP_PKT_CELL_OPTION_TX) (clear_req_storage s);
      (_, s3) \<leftarrow> on_req_storage (sixp_pkt_set_num_cells SIXP_PKT_TYPE_REQUEST SIXP_PKT_CMD_RELOCATE 1) s2;
      (_, s4) \<leftarrow> on_req_storage (sixp_pkt_set_rel_cell_list SIXP_PKT_TYPE_REQUEST SIXP_PKT_CMD_RELOCATE
        (Some (cell_bytes c)) 4 0) s3;
      (_, s5) \<leftarrow> on_req_storage (sixp_pkt_set_cand_cell_list SIXP_PKT_TYPE_REQUEST SIXP_PKT_CMD_RELOCATE
        (Some (concat (map cell_bytes cs))) 12 0) s4;
      K s5
    } = K (s\<lparr>req_storage := relocate_body 1 c (take 3 cs)\<rparr>)"
proof -
  have l20: "length (req_storage s) = 20" using assms(1) by (simp add: SF_SIMPLE_MAX_LINKS_def)
  have m1: "mem_write (replicate 20 (0 :: u8)) 2 [1] = Some (0 # 0 # 1 # replicate 17 0)"
    by (simp add: mem_write_def numeral_eq_Suc)
  have m2: "mem_write (0 # 0 # 1 # replicate 17 (0 :: u8)) 3 [1] = Some (0 # 0 # 1 # 1 # replicate 16 0)"
    by (simp add: mem_write_def numeral_eq_Suc)
  have o: "on_req_storage (sixp_pkt_set_cell_options SIXP_PKT_TYPE_REQUEST SIXP_PKT_CMD_RELOCATE SIXP_PKT_CELL_OPTION_TX)
      (clear_req_storage s) = Some (0, s\<lparr>req_storage := 0 # 0 # 1 # replicate 17 0\<rparr>)"
    using m1 unfolding on_req_storage_def
    by (simp add: sixp_pkt_set_cell_options_def pkt_offset_defs SF_SIMPLE_MAX_LINKS_def clear_req_storage_def l20)
  have n: "on_req_storage (sixp_pkt_set_num_cells SIXP_PKT_TYPE_REQUEST SIXP_PKT_CMD_RELOCATE 1)
      (s\<lparr>req_storage := 0 # 0 # 1 # replicate 17 0\<rparr>) = Some (0, s\<lparr>req_storage := 0 # 0 # 1 # 1 # replicate 16 0\<rparr>)"
    using m2 unfolding on_req_storage_def by (simp add: sixp_pkt_set_num_cells_def pkt_offset_defs)
  have g: "sixp_pkt_get_num_cells SIXP_PKT_TYPE_REQUEST SIXP_PKT_CMD_RELOCATE (Some 0) (Some (0 # 0 # 1 # 1 # bs)) 20 =
      Some (0, Some 1)" for bs
    by (simp add: sixp_pkt_get_num_cells_def pkt_offset_defs mem_read_def)
  have r: "on_req_storage (sixp_pkt_set_rel_cell_list SIXP_PKT_TYPE_REQUEST SIXP_PKT_CMD_RELOCATE (Some (cell_bytes c)) 4 0)
      (s\<lparr>req_storage := 0 # 0 # 1 # 1 # replicate 16 0\<rparr>) =
      Some (0, s\<lparr>req_storage := 0 # 0 # 1 # 1 # cell_bytes c @ replicate 12 0\<rparr>)"
    unfolding on_req_storage_def
    by (simp add: sixp_pkt_set_rel_cell_list_def SF_SIMPLE_MAX_LINKS_def g pkt_offset_defs mem_write_def mem_read_def)
  have l: "mem_read (concat (map cell_bytes cs)) 0 12 = Some (cells_bytes (take 3 cs))"
  proof -
    have "take 12 (cells_bytes (take 3 cs) @ cells_bytes (drop 3 cs)) = cells_bytes (take 3 cs)"
      using assms(2) by simp
    then have "take 12 (cells_bytes cs) = cells_bytes (take 3 cs)"
      by (metis append_take_drop_id cells_bytes_simps(3))
    with assms(2) show ?thesis by (simp add: mem_read_def cells_bytes_def [symmetric])
  qed
  have k: "on_req_storage (sixp_pkt_set_cand_cell_list SIXP_PKT_TYPE_REQUEST SIXP_PKT_CMD_RELOCATE
      (Some (concat (map cell_bytes cs))) 12 0) (s\<lparr>req_storage := 0 # 0 # 1 # 1 # cell_bytes c @ replicate 12 0\<rparr>) =
      Some (0, s\<lparr>req_storage := relocate_body 1 c (take 3 cs)\<rparr>)"
    using assms(2) l unfolding on_req_storage_def
    by (simp add: sixp_pkt_set_cand_cell_list_def SF_SIMPLE_MAX_LINKS_def g pkt_offset_defs mem_write_def relocate_body_def)
  show ?thesis by (simp add: o n r k)
qed

lemma sf_simple_relocate_links_eq:
  fixes s :: "'a sf_state_scheme"
  assumes sf: "tsch_schedule_get_slotframe_by_handle slotframe_handle s \<noteq> None"
    and l: "length (candidate_cell_list s) = CAND_CELL_LIST_LEN" and req: "length (req_storage s) = STORAGE_SIZE"
  shows "sf_simple_relocate_links env peer 1 c s =
    send_request env SIXP_PKT_CMD_RELOCATE 20 peer (Some RELOCATE_REQUEST_SENT)
      (s\<lparr>current_cell_to_be_relocated := c, req_storage := relocate_body 1 c (take 3 (candidate_cell_list s))\<rparr>)"
proof -
  let ?s1 = "s\<lparr>current_cell_to_be_relocated := c\<rparr>"
  obtain cl where cl: "cl = take 4 (candidate_cell_list s)" by simp
  have g: "get_candidate_add ?s1 = Some cl"
    using l by (simp add: cl get_candidate_add_def mem_read_def SF_SIMPLE_MAX_LINKS_def CAND_CELL_LIST_LEN_def)
  have "tsch_schedule_get_slotframe_by_handle slotframe_handle ?s1 = tsch_schedule_get_slotframe_by_handle slotframe_handle s"
    by (simp add: tsch_schedule_get_slotframe_by_handle_def tsch_is_locked_def)
  then have h: "tsch_schedule_get_slotframe_by_handle slotframe_handle ?s1 \<noteq> None" using sf by simp
  have "length (req_storage ?s1) = STORAGE_SIZE" "length cl = 4" using req l by (simp_all add: cl CAND_CELL_LIST_LEN_def)
  note b = relocate_request_storage [OF this, of c "send_request env SIXP_PKT_CMD_RELOCATE
      (2 + 1 + 1 + of_nat SF_SIMPLE_MAX_LINKS * 4) peer (Some RELOCATE_REQUEST_SENT)"]
  have "sf_simple_relocate_links env peer 1 c s =
      send_request env SIXP_PKT_CMD_RELOCATE (2 + 1 + 1 + of_nat SF_SIMPLE_MAX_LINKS * 4) peer (Some RELOCATE_REQUEST_SENT)
        (?s1\<lparr>req_storage := relocate_body 1 c (take 3 cl)\<rparr>)"
    unfolding sf_simple_relocate_links_def Let_def if_not_P [OF h] g bind.bind_lunit using b by simp
  then show ?thesis by (simp add: cl SF_SIMPLE_MAX_LINKS_def)
qed

text \<open>The old cell leaves the schedule after the new one was added.\<close>

lemma move_cell:
  fixes s :: "'a sf_state_scheme"
  assumes c: "can_install s i c" and cur: "timeslot_offset (current_cell_to_be_relocated s) \<noteq> 0xffff"
  shows "\<exists>s1 s'. do {
      s1 \<leftarrow> add_links_to_schedule qe peer opts (Some (cell_bytes c @ bs)) 4 s;
      remove_links_to_schedule (Some (cell_bytes (current_cell_to_be_relocated s1))) 4 s1
    } = Some s' \<and> installed s s1 i c opts peer \<and>
    kept_links s1 i (filter (\<lambda>l. \<not> at_offsets s1 (timeslot_offset (current_cell_to_be_relocated s))
      (channel_offset (current_cell_to_be_relocated s)) l) (sf_links s1 i)) s'"
proof -
  have u: "unat (4 :: u16) = 4" by simp
  obtain s1 where s1: "add_links_to_schedule qe peer opts (Some (cell_bytes c @ bs)) 4 s = Some s1"
    "installed s s1 i c opts peer"
    using add_links_installs [OF c, of 4 qe peer opts bs] u by auto
  have add: "s1 = snd (tsch_schedule_add_link qe (Some i) opts LINK_TYPE_NORMAL (Some peer)
      (timeslot_offset c) (channel_offset c) True s)"
    using add_links_first [of 4 c s i qe peer opts bs] s1(1) c by (simp add: can_install_def)
  have cb: "no_nbr_callbacks s" using c by (simp add: can_install_def)
  have cur1: "current_cell_to_be_relocated s1 = current_cell_to_be_relocated s"
    using add_link_sf_fields(7) [OF cb add] .
  have wf: "sched_wf s1" "\<not> tsch_locked s1" using s1(2) by (simp_all add: installed_def)
  have sf: "tsch_schedule_get_slotframe_by_handle slotframe_handle s1 = Some i"
    using s1(2) by (simp add: installed_def)
  show ?thesis
    using remove_links_cells [OF wf sf, of 4 "[current_cell_to_be_relocated s]" "[]"] cur s1 cur1 by auto
qed

text \<open>
  when the response to a RELOCATE request was sent, the responder has the new cell as a receive
  link from the requester and has removed the links at the offsets of the remembered cell.
\<close>

theorem relocate_response_sent_moves:
  fixes s :: "'a sf_state_scheme"
  assumes "can_install s i c" and res: "res_storage s = cell_bytes c @ rest"
    and "timeslot_offset (current_cell_to_be_relocated s) \<noteq> 0xffff"
    and nbr: "sixp_nbr_find (Some dest) s \<noteq> None"
  shows "\<exists>s1 s'. sf_sent_callback qe RELOCATE_RESPONSE_SENT RES_STORAGE 4 dest SIXP_OUTPUT_STATUS_SUCCESS s = Some s' \<and>
    installed s s1 i c LINK_OPTION_RX dest \<and>
    kept_links s1 i (filter (\<lambda>l. \<not> at_offsets s1 (timeslot_offset (current_cell_to_be_relocated s))
      (channel_offset (current_cell_to_be_relocated s)) l) (sf_links s1 i)) s'"
proof -
  have r: "sent_response_cells (res_storage s) 4 dest SIXP_OUTPUT_STATUS_SUCCESS s = Some (cell_bytes c @ rest, 4)"
    using nbr by (auto simp: sent_response_cells_def sixp_pkt_get_cell_list_def pkt_offset_defs res)
  show ?thesis
    using move_cell [OF assms(1,3), of qe dest LINK_OPTION_RX rest]
    by (simp add: sf_sent_callback_def relocate_response_sent_callback_def callback_body_def r)
qed

text \<open>
  \<open>sf_simple_relocate_links\<close> for one link asks the peer to move the given cell to one of the
  first three candidates, and remembers the cell.
\<close>

theorem sf_simple_relocate_links_request:
  fixes s :: "'a sf_state_scheme"
  assumes "tsch_schedule_get_slotframe_by_handle slotframe_handle s \<noteq> None"
    and "length (candidate_cell_list s) = CAND_CELL_LIST_LEN" and "length (req_storage s) = STORAGE_SIZE"
  shows "sf_simple_relocate_links env peer 1 c s =
    send_request env SIXP_PKT_CMD_RELOCATE (relocate_body_len (take 3 (candidate_cell_list s))) peer
      (Some RELOCATE_REQUEST_SENT)
      (s\<lparr>current_cell_to_be_relocated := c,
         req_storage := relocate_body SIXP_PKT_CELL_OPTION_TX c (take 3 (candidate_cell_list s))\<rparr>)"
  using sf_simple_relocate_links_eq [OF assms] assms(2)
  by (simp add: relocate_body_len_def CAND_CELL_LIST_LEN_def)

lemma can_install_alloc [simp]:
  fixes s :: "'a sf_state_scheme"
  shows "can_install (s\<lparr>rand_pos := p, candidate_cell_list := cs\<rparr>) i c = can_install s i c"
  unfolding can_install_def
  by (simp add: sched_wf_def slotframe_ok_def sf_links_def no_nbr_callbacks_def one_per_timeslot_def)


subsection \<open>Examples\<close>

text \<open>The mock cell that the applications install at start is a cell like any other.\<close>

lemma add_mock_auto_cell_installs:
  assumes "can_install s i \<lparr>timeslot_offset = ucast t, channel_offset = ucast ch\<rparr>"
  shows "\<exists>s'. add_mock_auto_cell qe peer opts t ch s = Some s' \<and>
    installed s s' i \<lparr>timeslot_offset = ucast t, channel_offset = ucast ch\<rparr> opts peer"
  using add_links_installs [OF assms, of 4 qe peer opts "[]"] by (simp add: add_mock_auto_cell_def)

abbreviation (input) mk_cell :: "u16 \<Rightarrow> u16 \<Rightarrow> sf_simple_cell" where
  "mk_cell t ch \<equiv> \<lparr>timeslot_offset = t, channel_offset = ch\<rparr>"

definition sf_example :: sf_state where
  "sf_example = alloc_state.extend
     (sixp_state.extend sixp_busy
        \<lparr>candidate_cell_list = map (\<lambda>t. mk_cell t 1) [1, 2, 4, 5, 6, 7, 8, 10, 11],
         blacklist = blacklist_of [mk_cell 2 3]\<rparr>)
     \<lparr>res_storage = replicate 20 0, req_storage = replicate 20 0, current_cell_to_be_relocated = mk_cell 3 1\<rparr>"

lemma sf_example_fields [simp]:
  "candidate_cell_list sf_example = map (\<lambda>t. mk_cell t 1) [1, 2, 4, 5, 6, 7, 8, 10, 11]"
  "blacklist sf_example = blacklist_of [mk_cell 2 3]"
  "res_storage sf_example = replicate 20 0" "req_storage sf_example = replicate 20 0"
  "current_cell_to_be_relocated sf_example = mk_cell 3 1"
  by (simp_all add: sf_example_def alloc_state.extend_def sixp_state.extend_def)

lemmas sf_example_defs =
  sf_example_def alloc_state.extend_def sixp_state.extend_def sixp_busy_def sixp_buf_example_def
  sixp_example_def sixp_nbr_state.extend_def sixp_nbr_example_def tsch_sched_state.extend_def
  sched_example_def tsch_queue_state.extend_def tsch_example_def

lemma sf_example_sched:
  "tsch_schedule_get_slotframe_by_handle slotframe_handle sf_example = Some 0" "\<not> tsch_locked sf_example"
  "sch_links sf_example = sch_links sched_example" "sch_slotframes sf_example = sch_slotframes sched_example"
  "sch_slotframe_list sf_example = [0]" "sf_links sf_example 0 = [0, 1]" "no_nbr_callbacks sf_example"
  by (simp_all add: sf_example_defs tsch_schedule_get_slotframe_by_handle_def tsch_is_locked_def sf_links_def
      slotframe_handle_def no_nbr_callbacks_def)

lemma sf_example_wf: "sched_wf sf_example" "one_per_timeslot sf_example 0"
proof -
  have "sched_view sf_example = sched_view sched_example"
    by (simp add: sf_example_defs sched_view_def)
  from sched_wf_view [OF this] show "sched_wf sf_example" using sched_example_wf by simp
  show "one_per_timeslot sf_example 0"
    by (simp add: one_per_timeslot_def sf_example_sched sched_example_def tsch_queue_state.extend_def)
qed

lemma sf_example_link:
  "tsch_schedule_get_link_by_timeslot (Some 0) t sf_example = (if t = 3 then Some 0 else if t = 9 then Some 1 else None)"
  "tsch_schedule_get_link_by_offsets (Some 0) t ch sf_example =
     (if t = 3 \<and> ch = 1 then Some 0 else if t = 9 \<and> ch = 1 then Some 1 else None)"
  by (auto simp: tsch_schedule_get_link_by_timeslot_def tsch_schedule_get_link_by_offsets_def tsch_is_locked_def
      sf_example_defs)

lemma sf_example_can_install: "t < 101 \<Longrightarrow> can_install sf_example 0 (mk_cell t ch)"
proof -
  assume t: "t < 101"
  have "div_val (sf_size (sch_slotframes sf_example ! 0)) = 101" "0 < memb_numfree (sch_link_memb sf_example)"
    by (simp_all add: sf_example_defs TSCH_ASN_DIVISOR_INIT_def)
  with t show ?thesis by (auto simp: can_install_def sf_example_wf sf_example_sched)
qed

lemma sf_example_trans:
  "sixp_nbr_find (Some 7) sf_example = Some 0" "sixp_trans_find (Some 7) sf_example = Some 0"
  "sixp_trans_get_cmd (Some 0) sf_example = SIXP_PKT_CMD_ADD"
  by (simp_all add: sf_example_defs sixp_nbr_find_def nbr_table_get_from_lladdr_def index_from_lladdr_def
      nbr_get_bit_def sixp_nbrs_def sixp_trans_find_def sixp_trans_get_cmd_def sixp_trans_example_def)

theorem add_request_one_cell_witness:
  "request_input sixp_env_silent SIXP_PKT_CMD_ADD (Some (cells_body 1 1 (map (\<lambda>t. mk_cell t 2) [3, 9, 20, 21])))
     20 7 sf_example =
   send_response sixp_env_silent ADD_RESPONSE_SENT 4 7 (sf_example\<lparr>res_storage := cell_bytes (mk_cell 20 2) @ replicate 16 0\<rparr>)"
  using add_request_one_cell [OF _ _ _ sf_example_sched(1), of "map (\<lambda>t. mk_cell t 2) [3, 9, 20, 21]" sixp_env_silent 1 "[]" 7]
  by (simp add: sf_example_link cells_body_len_def SF_SIMPLE_MAX_LINKS_def)

theorem add_request_two_cells_witness:
  "request_input sixp_env_silent SIXP_PKT_CMD_ADD (Some (cells_body 1 2 (map (\<lambda>t. mk_cell t 2) [3, 20, 21])))
     16 7 sf_example =
   send_response sixp_env_silent ADD_RESPONSE_SENT 8 7 (sf_example\<lparr>res_storage := 20 # cell_bytes (mk_cell 21 2) @ replicate 15 0\<rparr>)"
  using add_request_two_cells [OF _ _ _ sf_example_sched(1), of "map (\<lambda>t. mk_cell t 2) [3, 20, 21]"
      "mk_cell 20 2" "mk_cell 21 2" sixp_env_silent 1 "[]" 7]
  by (simp add: sf_example_link cells_body_len_def SF_SIMPLE_MAX_LINKS_def cell_bytes_def le16_def)

lemma storage_sched [simp]:
  fixes s :: "'a sf_state_scheme"
  shows "sched_wf (s\<lparr>res_storage := st\<rparr>) = sched_wf s" "can_install (s\<lparr>res_storage := st\<rparr>) i c = can_install s i c"
    "sf_links (s\<lparr>res_storage := st\<rparr>) = sf_links s" "sixp_nbr_find a (s\<lparr>res_storage := st\<rparr>) = sixp_nbr_find a s"
  unfolding can_install_def
  by (simp_all add: sched_wf_def slotframe_ok_def sf_links_def no_nbr_callbacks_def one_per_timeslot_def fun_eq_iff
      sixp_nbr_find_def nbr_table_get_from_lladdr_def index_from_lladdr_def nbr_get_bit_def split: option.splits)

theorem add_response_sent_installs_witness:
  "\<exists>s'. sf_sent_callback queue_env_default ADD_RESPONSE_SENT RES_STORAGE 4 7 SIXP_OUTPUT_STATUS_SUCCESS
      (sf_example\<lparr>res_storage := cell_bytes (mk_cell 20 2) @ replicate 16 0\<rparr>) = Some s' \<and>
    installed (sf_example\<lparr>res_storage := cell_bytes (mk_cell 20 2) @ replicate 16 0\<rparr>) s' 0 (mk_cell 20 2) LINK_OPTION_RX 7"
proof -
  let ?s = "sf_example\<lparr>res_storage := cell_bytes (mk_cell 20 2) @ replicate 16 0\<rparr>"
  have c: "can_install ?s 0 (mk_cell 20 2)"
    using sf_example_can_install [of 20 2] by simp
  have n: "sixp_nbr_find (Some 7) ?s \<noteq> None"
    by (simp add: sf_example_trans)
  show ?thesis
    using add_response_sent_installs [OF c _ n, of "replicate 16 0" queue_env_default SIXP_OUTPUT_STATUS_SUCCESS] by simp
qed

theorem add_response_installs_witness:
  "\<exists>s'. response_input sixp_env_silent SIXP_PKT_RC_SUCCESS (Some (cell_bytes (mk_cell 20 2))) 4 7 sf_example = Some s' \<and>
    installed sf_example s' 0 (mk_cell 20 2) LINK_OPTION_TX 7"
  using add_response_installs [OF sf_example_can_install [of 20 2], of 7 0 sixp_env_silent "[]"]
  by (auto simp: sf_example_trans CAND_CELL_LIST_LEN_def)


theorem delete_response_sent_removes_witness:
  "\<exists>s'. sf_sent_callback queue_env_default DELETE_RESPONSE_SENT RES_STORAGE 8 7 SIXP_OUTPUT_STATUS_SUCCESS
      (sf_example\<lparr>res_storage := cell_bytes (mk_cell 9 1) @ replicate 16 0\<rparr>) = Some s' \<and> sf_links s' 0 = [0]"
proof -
  let ?s = "sf_example\<lparr>res_storage := cell_bytes (mk_cell 9 1) @ replicate 16 0\<rparr>"
  have w: "sched_wf ?s" by (simp add: sf_example_wf)
  have u: "\<not> tsch_locked ?s" using sf_example_sched(2) by simp
  have n: "sixp_nbr_find (Some 7) ?s \<noteq> None"
    by (simp add: sf_example_trans)
  have "\<exists>s'. sf_sent_callback queue_env_default DELETE_RESPONSE_SENT RES_STORAGE (of_nat (4 * 2)) 7
      SIXP_OUTPUT_STATUS_SUCCESS ?s = Some s' \<and>
    kept_links ?s 0 (filter (\<lambda>l. \<not> (at_offsets ?s (timeslot_offset (mk_cell 9 1)) (channel_offset (mk_cell 9 1)) l \<or>
      1 < (2 :: nat) \<and> at_offsets ?s 0 0 l)) (sf_links ?s 0)) s'"
    by (rule delete_response_sent_removes [OF w u _ _ _ _ _ n]) (use sf_example_sched(1) in simp_all)
  moreover have "sf_links ?s 0 = [0, 1]" by (simp add: sf_example_sched)
  ultimately show ?thesis
    by (auto simp: kept_links_def at_offsets_def sf_example_sched sched_example_def tsch_queue_state.extend_def)
qed


theorem sf_simple_remove_links_request_witness:
  "\<exists>r. sf_simple_remove_links sixp_env_silent 7 sf_example = r \<and>
     (r = Some (-1, sf_example) \<or> (\<exists>c. r = send_request sixp_env_silent SIXP_PKT_CMD_DELETE 8 7 None
        (sf_example\<lparr>req_storage := cells_body 0 1 [c] @ replicate 12 0\<rparr>)))"
  using sf_simple_remove_links_request [OF sf_example_sched(1,2), of sixp_env_silent 7]
  by (auto simp: SF_SIMPLE_MAX_LINKS_def)

theorem relocate_request_answer_witness:
  "request_input sixp_env_silent SIXP_PKT_CMD_RELOCATE
     (Some (relocate_body 1 (mk_cell 3 1) (map (\<lambda>t. mk_cell t 2) [9, 30]))) 16 7 sf_example =
   send_response sixp_env_silent RELOCATE_RESPONSE_SENT 4 7
     (sf_example\<lparr>res_storage := cell_bytes (mk_cell 30 2) @ replicate 16 0, current_cell_to_be_relocated := mk_cell 3 1\<rparr>)"
  using relocate_request_answer [OF _ _ _ sf_example_sched(1), of "map (\<lambda>t. mk_cell t 2) [9, 30]" sixp_env_silent 1
      "mk_cell 3 1" "[]" 7]
  by (simp add: sf_example_link relocate_body_len_def SF_SIMPLE_MAX_LINKS_def)

theorem relocate_response_sent_moves_witness:
  "\<exists>s1 s'. sf_sent_callback queue_env_default RELOCATE_RESPONSE_SENT RES_STORAGE 4 7 SIXP_OUTPUT_STATUS_SUCCESS
      (sf_example\<lparr>res_storage := cell_bytes (mk_cell 30 2) @ replicate 16 0\<rparr>) = Some s' \<and>
    installed (sf_example\<lparr>res_storage := cell_bytes (mk_cell 30 2) @ replicate 16 0\<rparr>) s1 0 (mk_cell 30 2) LINK_OPTION_RX 7 \<and>
    sf_links s' 0 = filter (\<lambda>l. \<not> at_offsets s1 3 1 l) (sf_links s1 0)"
proof -
  let ?s = "sf_example\<lparr>res_storage := cell_bytes (mk_cell 30 2) @ replicate 16 0\<rparr>"
  have c: "can_install ?s 0 (mk_cell 30 2)"
    using sf_example_can_install [of 30 2] by simp
  have n: "sixp_nbr_find (Some 7) ?s \<noteq> None"
    by (simp add: sf_example_trans)
  show ?thesis
    using relocate_response_sent_moves [OF c _ _ n, of "replicate 16 0" queue_env_default]
    by (auto simp: kept_links_def)
qed

theorem sf_simple_relocate_links_request_witness:
  "sf_simple_relocate_links sixp_env_silent 7 1 (mk_cell 3 1) sf_example =
    send_request sixp_env_silent SIXP_PKT_CMD_RELOCATE 20 7 (Some RELOCATE_REQUEST_SENT)
      (sf_example\<lparr>current_cell_to_be_relocated := mk_cell 3 1,
         req_storage := relocate_body 1 (mk_cell 3 1) (map (\<lambda>t. mk_cell t 1) [1, 2, 4])\<rparr>)"
  using sf_simple_relocate_links_request [of sf_example sixp_env_silent 7 "mk_cell 3 1"]
  by (simp add: sf_example_sched relocate_body_len_def SF_SIMPLE_MAX_LINKS_def CAND_CELL_LIST_LEN_def numeral_3_eq_3)

subsection \<open>Random numbers that never dry up\<close>

definition fair_example :: "sf_state \<Rightarrow> sf_state" where
  "fair_example s = s\<lparr>rand_src := (\<lambda>p. of_nat (p div 2 mod 101))\<rparr>"

lemma u16_small_mask:
  assumes "n < 256"
  shows "(of_nat n :: u16) AND 255 = of_nat n"
proof -
  have "(of_nat n :: u16) AND 255 = take_bit 8 (of_nat n)" by (simp add: u16_255_mask take_bit_eq_mask)
  also have "\<dots> = of_nat n"
    using assms by (simp add: word_unat_eq_iff unsigned_take_bit_eq unsigned_of_nat take_bit_nat_eq_self)
  finally show ?thesis .
qed

lemma fair_example_slot:
  assumes "p div 2 mod 101 = t" and "0 < t"
  shows "slot_at (fair_example s) p = of_nat t"
proof -
  have t: "t < 101" using assms(1) by auto
  then have "unat (of_nat t :: u16) = t" by (intro unat_of_nat_fits) simp
  then have "(of_nat t :: u16) mod 101 = of_nat t" and "(of_nat t :: u16) \<noteq> 0"
    using t assms(2) by (simp_all add: word_unat_eq_iff unat_mod)
  then show ?thesis
    using assms(1) t u16_small_mask [of t]
    by (simp add: slot_at_def fair_example_def TSCH_SCHEDULE_DEFAULT_LENGTH_def)
qed

lemma fair_example_lookup:
  "tsch_schedule_get_slotframe_by_handle h (fair_example s) = tsch_schedule_get_slotframe_by_handle h s"
  "tsch_schedule_get_link_by_timeslot f ts (fair_example s) = tsch_schedule_get_link_by_timeslot f ts s"
  by (simp_all add: fair_example_def tsch_schedule_get_slotframe_by_handle_def tsch_schedule_get_link_by_timeslot_def
      tsch_is_locked_def cong: option.case_cong)

lemma twenty_one_slots: "card ((of_nat :: nat \<Rightarrow> u16) ` {20..40}) = 21"
proof -
  have "inj_on (of_nat :: nat \<Rightarrow> u16) {20..40}"
  proof (rule inj_on_inverseI [where g = unat])
    fix x :: nat assume "x \<in> {20..40}"
    then show "unat (of_nat x :: u16) = x" by (intro unat_of_nat_fits) simp
  qed
  from card_image [OF this] show ?thesis by simp
qed

lemma fair_example_fair:
  fixes s :: sf_state
  assumes sf: "tsch_schedule_get_slotframe_by_handle 0 s = f"
    and free: "\<And>t. 20 \<le> t \<Longrightarrow> t \<le> 40 \<Longrightarrow> tsch_schedule_get_link_by_timeslot f (of_nat t) s = None"
    and bl: "\<And>t c. 20 \<le> t \<Longrightarrow> t \<le> 40 \<Longrightarrow> c \<in> set (cb_contents (blacklist s)) \<Longrightarrow> timeslot_offset c \<noteq> of_nat t"
  shows "fair_draws (fair_example s)"
proof -
  let ?s = "fair_example s"
  have "\<exists>n. cell_free (tsch_schedule_get_slotframe_by_handle 0 ?s) (cell_at ?s (p + 2 * n)) ?s \<and> slot_at ?s (p + 2 * n) \<notin> T"
    if T: "card T \<le> 9" "finite T" for p and T :: "u16 set"
  proof -
    have "\<not> (of_nat :: nat \<Rightarrow> u16) ` {20..40} \<subseteq> T"
    proof
      assume "(of_nat :: nat \<Rightarrow> u16) ` {20..40} \<subseteq> T"
      from card_mono [OF T(2) this] T(1) twenty_one_slots show False by simp
    qed
    then obtain t :: nat where "t \<in> {20..40}" "(of_nat t :: u16) \<notin> T" by (meson image_subsetI)
    then have t: "20 \<le> t" "t \<le> 40" "(of_nat t :: u16) \<notin> T" by simp_all
    define n where "n = t + 101 - p div 2 mod 101"
    have "(p + 2 * n) div 2 mod 101 = (p div 2 mod 101 + n) mod 101"
    proof -
      have "(p + 2 * n) div 2 = p div 2 + n" by simp
      then show ?thesis by (simp only: mod_add_left_eq)
    qed
    also have "p div 2 mod 101 + n = t + 101"
    proof -
      have "p div 2 mod 101 < 101" by simp
      then show ?thesis unfolding n_def by linarith
    qed
    also have "(t + 101) mod 101 = t" using t(2) by simp
    finally have slot: "slot_at ?s (p + 2 * n) = of_nat t" using t(1) by (intro fair_example_slot) simp_all
    have "tsch_schedule_get_link_by_timeslot (tsch_schedule_get_slotframe_by_handle 0 ?s) (of_nat t) ?s = None"
      using free [OF t(1,2)] by (simp add: fair_example_lookup sf)
    moreover have "cell_at ?s (p + 2 * n) \<notin> set (cb_contents (blacklist ?s))"
    proof
      assume "cell_at ?s (p + 2 * n) \<in> set (cb_contents (blacklist ?s))"
      then have "cell_at ?s (p + 2 * n) \<in> set (cb_contents (blacklist s))" by (simp add: fair_example_def)
      from bl [OF t(1,2) this] slot show False by (simp add: cell_at_def)
    qed
    ultimately have cf: "cell_free (tsch_schedule_get_slotframe_by_handle 0 ?s) (cell_at ?s (p + 2 * n)) ?s"
      using slot by (simp add: cell_free_def cell_at_def)
    have "slot_at ?s (p + 2 * n) \<notin> T" using t(3) slot by simp
    with cf show ?thesis by blast
  qed
  then show ?thesis by (simp add: fair_draws_def)
qed


text \<open>The example state with such numbers.\<close>

lemma sf_example_fair: "fair_draws (fair_example sf_example)"
proof (rule fair_example_fair)
  show "tsch_schedule_get_slotframe_by_handle 0 sf_example = Some 0"
    using sf_example_sched(1) by (simp add: slotframe_handle_def)
  fix t :: nat assume t: "20 \<le> t" "t \<le> 40"
  then have u: "unat (of_nat t :: u16) = t" by (intro unat_of_nat_fits) simp
  have ne: "(of_nat t :: u16) \<noteq> 3" "(of_nat t :: u16) \<noteq> 9" "(of_nat t :: u16) \<noteq> 2"
    using t u by auto
  show "tsch_schedule_get_link_by_timeslot (Some 0) (of_nat t) sf_example = None"
    using ne by (simp add: sf_example_link)
  fix c assume "c \<in> set (cb_contents (blacklist sf_example))"
  then have "timeslot_offset c = 2"
    by (simp add: cb_contents_def blacklist_of_def blacklist_example_def)
  with ne show "timeslot_offset c \<noteq> of_nat t" by simp
qed

lemma fair_example_simps [simp]:
  "blacklist (fair_example s) = blacklist s" "candidate_cell_list (fair_example s) = candidate_cell_list s"
  "req_storage (fair_example s) = req_storage s" "res_storage (fair_example s) = res_storage s"
  "current_cell_to_be_relocated (fair_example s) = current_cell_to_be_relocated s"
  by (simp_all add: fair_example_def)

theorem sf_simple_add_links_request_witness:
  "\<exists>p cs. sf_simple_add_links sixp_env_silent 7 1 (fair_example sf_example) =
      send_request sixp_env_silent SIXP_PKT_CMD_ADD 20 7 (Some ADD_REQUEST_SENT)
        ((fair_example sf_example)\<lparr>rand_pos := p, candidate_cell_list := cs,
           req_storage := cells_body 1 1 (map (\<lambda>t. mk_cell t 1) [1, 2, 4, 5])\<rparr>) \<and> length cs = 9"
proof -
  have "\<exists>p cs. sf_simple_add_links sixp_env_silent 7 1 (fair_example sf_example) =
      send_request sixp_env_silent SIXP_PKT_CMD_ADD 20 7 (Some ADD_REQUEST_SENT)
        ((fair_example sf_example)\<lparr>rand_pos := p, candidate_cell_list := cs,
           req_storage := cells_body SIXP_PKT_CELL_OPTION_TX 1 (take 4 (candidate_cell_list (fair_example sf_example)))\<rparr>) \<and>
    length cs = CAND_CELL_LIST_LEN \<and> (cells_ok (candidate_cell_list (fair_example sf_example)) \<longrightarrow> cells_ok cs)"
    by (rule sf_simple_add_links_request)
      (simp_all add: sf_example_fair fair_example_lookup sf_example_sched blacklist_ready_def blacklist_of_wf
        CAND_CELL_LIST_LEN_def SF_SIMPLE_MAX_LINKS_def)
  then obtain p cs where r: "sf_simple_add_links sixp_env_silent 7 1 (fair_example sf_example) =
      send_request sixp_env_silent SIXP_PKT_CMD_ADD 20 7 (Some ADD_REQUEST_SENT)
        ((fair_example sf_example)\<lparr>rand_pos := p, candidate_cell_list := cs,
           req_storage := cells_body SIXP_PKT_CELL_OPTION_TX 1 (take 4 (candidate_cell_list (fair_example sf_example)))\<rparr>)"
    "length cs = CAND_CELL_LIST_LEN" by blast
  have "take 4 (candidate_cell_list (fair_example sf_example)) = map (\<lambda>t. mk_cell t 1) [1, 2, 4, 5]"
    by (simp add: numeral_eq_Suc)
  with r show ?thesis by (auto simp: CAND_CELL_LIST_LEN_def)
qed

definition relocate_example :: sf_state where
  "relocate_example = (fair_example sf_example)\<lparr>transs := [sixp_trans_example\<lparr>tr_cmd := SIXP_PKT_CMD_RELOCATE\<rparr>]\<rparr>"

lemma relocate_example_sched:
  "can_install relocate_example i c = can_install sf_example i c" "sf_links relocate_example = sf_links sf_example"
  "sixp_nbr_find a relocate_example = sixp_nbr_find a sf_example"
  unfolding can_install_def
  by (simp_all add: relocate_example_def fair_example_def sched_wf_def slotframe_ok_def sf_links_def no_nbr_callbacks_def
      one_per_timeslot_def fun_eq_iff sixp_nbr_find_def nbr_table_get_from_lladdr_def index_from_lladdr_def
      nbr_get_bit_def tsch_schedule_get_slotframe_by_handle_def tsch_schedule_get_link_by_timeslot_def
      tsch_is_locked_def split: option.splits)

lemma relocate_example_fair: "fair_draws relocate_example"
proof -
  have "fair_draws (t\<lparr>transs := x\<rparr>) = fair_draws t" for x and t :: sf_state
    by (simp add: fair_draws_def cell_free_def cell_at_def slot_at_def channel_at_def
        tsch_schedule_get_slotframe_by_handle_def tsch_schedule_get_link_by_timeslot_def tsch_is_locked_def
        cong: option.case_cong)
  with sf_example_fair show ?thesis by (simp add: relocate_example_def)
qed


end
