(* ===== verification/Pdr_Stats.thy ===== *)
theory Pdr_Stats
  imports Complex_Main Sf_Negotiation "HOL-Library.Multiset"
begin

section \<open>Delivery statistics per cell\<close>

text \<open>
  Model of the statistics that the thesis adds to \<open>os/net/mac/tsch/tsch-slot-operation.c\<close>: a table
  with the transmissions in each cell to the time source, its update after a transmission
  (in \<open>tsch_tx_slot\<close>), the choice of the cells to relocate and the removal of their entries.
  The static variables extend the state.  An access outside a table is \<open>None\<close>, as is reading
  through \<open>NULL\<close>.  The success rate is computed in single precision, which is modelled on the
  rational numbers.
\<close>

subsection \<open>Single precision\<close>

text \<open>
  Rounding to nearest, ties to even, for numbers below \<open>2 ^ 24\<close> in magnitude: the number is
  scaled until its integral part has 24 bits, at most to the spacing \<open>2 ^ -149\<close> of the subnormal
  numbers.
\<close>

definition round_half_even :: "rat \<Rightarrow> int" where
  "round_half_even x =
     (let f = \<lfloor>x\<rfloor>; d = x - of_int f in
      if d < 1 / 2 then f else if 1 / 2 < d then f + 1 else if even f then f else f + 1)"

fun scale_bits :: "nat \<Rightarrow> rat \<Rightarrow> nat" where
  "scale_bits 0 x = 0"
| "scale_bits (Suc n) x = (if 2 ^ 23 \<le> x then 0 else Suc (scale_bits n (2 * x)))"

definition float32_pos :: "rat \<Rightarrow> rat" where
  "float32_pos x = (let k = scale_bits 149 x in of_int (round_half_even (x * 2 ^ k)) / 2 ^ k)"

definition float32 :: "rat \<Rightarrow> rat" where
  "float32 x = (if x < 0 then - float32_pos (- x) else float32_pos x)"

lemma round_half_even_mono:
  assumes "x \<le> y"
  shows "round_half_even x \<le> round_half_even y"
proof -
  have f: "\<lfloor>x\<rfloor> \<le> \<lfloor>y\<rfloor>" using assms by (rule floor_mono)
  show ?thesis
  proof (cases "\<lfloor>x\<rfloor> = \<lfloor>y\<rfloor>")
    case True
    with assms show ?thesis by (auto simp: round_half_even_def Let_def)
  next
    case False
    with f have "\<lfloor>x\<rfloor> + 1 \<le> \<lfloor>y\<rfloor>" by simp
    then show ?thesis by (auto simp: round_half_even_def Let_def)
  qed
qed

lemma round_half_even_int [simp]: "round_half_even (of_int n) = n"
  by (simp add: round_half_even_def Let_def)

lemma round_half_even_numeral [simp]: "round_half_even (numeral n) = numeral n"
  using round_half_even_int [of "numeral n"] by simp

lemma scale_bits_le: "scale_bits n x \<le> n"
  by (induction n arbitrary: x) auto

lemma scale_bits_reached: "scale_bits n x < n \<Longrightarrow> 2 ^ 23 \<le> x * 2 ^ scale_bits n x"
proof (induction n arbitrary: x)
  case (Suc n)
  then show ?case using Suc.IH [of "2 * x"] by (auto simp: mult_ac)
qed simp

lemma scale_bits_below: "k < scale_bits n x \<Longrightarrow> x * 2 ^ k < 2 ^ 23"
proof (induction n arbitrary: x k)
  case (Suc n)
  then have lt: "x < 2 ^ 23" by (auto split: if_splits)
  show ?case
  proof (cases k)
    case (Suc j)
    with Suc.prems lt have "j < scale_bits n (2 * x)" by simp
    from Suc.IH [OF this] show ?thesis by (simp add: \<open>k = Suc j\<close> mult_ac)
  qed (use lt in simp)
qed simp

lemma scale_bits_antimono: "x \<le> y \<Longrightarrow> scale_bits n y \<le> scale_bits n x"
  by (induction n arbitrary: x y) auto

lemma float32_pos_mono:
  assumes "x \<le> y"
  shows "float32_pos x \<le> float32_pos y"
proof -
  define k where "k = scale_bits 149 x"
  define l where "l = scale_bits 149 y"
  have lk: "l \<le> k" using scale_bits_antimono [OF assms] by (simp add: k_def l_def)
  have fx: "float32_pos x = of_int (round_half_even (x * 2 ^ k)) / 2 ^ k"
    and fy: "float32_pos y = of_int (round_half_even (y * 2 ^ l)) / 2 ^ l"
    by (simp_all add: float32_pos_def Let_def k_def l_def)
  show ?thesis
  proof (cases "l = k")
    case True
    have "round_half_even (x * 2 ^ k) \<le> round_half_even (y * 2 ^ k)"
      using assms by (intro round_half_even_mono mult_right_mono) auto
    then show ?thesis by (simp add: fx fy True divide_right_mono)
  next
    case False
    with lk have l: "l < k" by simp
    have "x * 2 ^ l < 2 ^ 23" using l scale_bits_below by (simp add: k_def)
    then have "x * 2 ^ l * 2 ^ (k - l) \<le> 2 ^ 23 * 2 ^ (k - l)" by (intro mult_right_mono) auto
    then have "x * 2 ^ k \<le> 2 ^ 23 * 2 ^ (k - l)"
      using l by (simp add: mult.assoc flip: power_add)
    also have "\<dots> = of_int (2 ^ 23 * 2 ^ (k - l))" by simp
    finally have "round_half_even (x * 2 ^ k) \<le> 2 ^ 23 * 2 ^ (k - l)"
      using round_half_even_mono round_half_even_int by metis
    then have "(of_int (round_half_even (x * 2 ^ k)) :: rat) \<le> of_int (2 ^ 23 * 2 ^ (k - l))"
      by (rule of_int_le_iff [THEN iffD2])
    then have "float32_pos x \<le> 2 ^ 23 * 2 ^ (k - l) / 2 ^ k"
      unfolding fx by (intro divide_right_mono) auto
    also have "\<dots> = 2 ^ 23 / 2 ^ l"
      using l by (simp add: power_diff)
    also have "\<dots> \<le> float32_pos y"
    proof -
      have "l < 149" using l scale_bits_le [of 149 x] by (simp add: k_def)
      then have "of_int (2 ^ 23) \<le> y * 2 ^ l"
        using scale_bits_reached [of 149 y] by (simp add: l_def)
      then have "2 ^ 23 \<le> round_half_even (y * 2 ^ l)"
        using round_half_even_mono round_half_even_int by metis
      then have "(of_int (2 ^ 23) :: rat) \<le> of_int (round_half_even (y * 2 ^ l))"
        by (rule of_int_le_iff [THEN iffD2])
      then show ?thesis unfolding fy by (intro divide_right_mono) auto
    qed
    finally show ?thesis .
  qed
qed

lemma float32_pos_nonneg:
  assumes "0 \<le> x"
  shows "0 \<le> float32_pos x"
proof -
  have "float32_pos 0 = 0" unfolding float32_pos_def Let_def
    using round_half_even_int [of 0] by simp
  with float32_pos_mono [OF assms] show ?thesis by simp
qed

lemma float32_mono:
  assumes "x \<le> y"
  shows "float32 x \<le> float32 y"
proof -
  consider "y < 0" | "x < 0" "0 \<le> y" | "0 \<le> x" using assms by linarith
  then show ?thesis
  proof cases
    case 1
    with assms float32_pos_mono [of "- y" "- x"] show ?thesis by (simp add: float32_def)
  next
    case 2
    with float32_pos_nonneg [of "- x"] float32_pos_nonneg [of y] show ?thesis
      by (simp add: float32_def)
  next
    case 3
    with assms float32_pos_mono show ?thesis by (simp add: float32_def)
  qed
qed

text \<open>
  What the code needs of the arithmetic: rounding is monotone and keeps a half and its
  neighbours at distance \<open>2 ^ -17\<close>.
\<close>

locale rounding =
  fixes rnd :: "rat \<Rightarrow> rat"
  assumes rnd_mono: "x \<le> y \<Longrightarrow> rnd x \<le> rnd y"
    and rnd_half: "rnd (1 / 2) = 1 / 2"
    and rnd_below: "rnd (1 / 2 - 1 / 2 ^ 17) = 1 / 2 - 1 / 2 ^ 17"
    and rnd_above: "rnd (1 / 2 + 1 / 2 ^ 17) = 1 / 2 + 1 / 2 ^ 17"
begin

lemma failure_rate:
  assumes t: "0 < t" "t < 2 ^ 16"
  shows "1 / 2 < rnd (1 - rnd (of_nat s / of_nat t)) \<longleftrightarrow> 2 * s < t"
proof (cases "2 * s < t")
  case True
  then have s2: "2 * (of_nat s :: rat) + 1 \<le> of_nat t"
    by (metis Suc_eq_plus1 Suc_leI of_nat_1 of_nat_add of_nat_le_iff of_nat_mult of_nat_numeral)
  have t16: "(of_nat t :: rat) \<le> 2 ^ 16" using t(2)
    by (metis less_imp_le of_nat_le_iff of_nat_numeral of_nat_power)
  have pos: "(0 :: rat) < of_nat t" using t by simp
  have "(of_nat s :: rat) \<le> (1 / 2 - 1 / 2 ^ 17) * of_nat t"
    using s2 t16 by (simp add: field_simps)
  then have "of_nat s / of_nat t \<le> (1 / 2 - 1 / 2 ^ 17 :: rat)"
    using pos by (simp add: divide_le_eq)
  from rnd_mono [OF this] have "1 / 2 + 1 / 2 ^ 17 \<le> 1 - rnd (of_nat s / of_nat t)"
    unfolding rnd_below by simp
  from rnd_mono [OF this] have "1 / 2 + 1 / 2 ^ 17 \<le> rnd (1 - rnd (of_nat s / of_nat t))"
    unfolding rnd_above .
  moreover have "(0 :: rat) < 1 / 2 ^ 17" by simp
  ultimately show ?thesis using True by linarith
next
  case False
  then have s2: "(of_nat t :: rat) \<le> 2 * of_nat s"
    by (metis not_less of_nat_le_iff of_nat_mult of_nat_numeral)
  have pos: "(0 :: rat) < of_nat t" using t by simp
  have "(1 / 2 :: rat) \<le> of_nat s / of_nat t" using s2 pos by (simp add: le_divide_eq)
  from rnd_mono [OF this] have "1 - rnd (of_nat s / of_nat t) \<le> 1 / 2"
    unfolding rnd_half by simp
  from rnd_mono [OF this] have "rnd (1 - rnd (of_nat s / of_nat t)) \<le> 1 / 2"
    unfolding rnd_half .
  with False show ?thesis by simp
qed

end

interpretation single: rounding float32
proof
  show "float32 x \<le> float32 y" if "x \<le> y" for x y using that by (rule float32_mono)
qed (simp_all add: float32_def float32_pos_def Let_def eval_nat_numeral)

subsection \<open>The tables\<close>

record cell_stats =
  cs_slotOffset :: u8
  cs_channelOffset :: u8
  cs_tx_total :: u16
  cs_tx_success :: u16
  cs_isStatisticallyRelevant :: u8
  cs_numberCellAllocated :: u8

record rel_cell =
  rc_index :: u8
  rc_timeslot :: u8

record pdr_state = sf_state +
  pdr_cellList :: "cell_stats list"
  pdr_cellAmount :: u8
  rel_cells_index :: "rel_cell list"
  rel_cells_index_len :: u8
  cell_number_relocated :: "u8 list"
  cell_number_relocated_len :: u8

definition MAX_ALLOCATE_CELLS :: nat where "MAX_ALLOCATE_CELLS = 60"
definition MAX_NUM_TX :: u16 where "MAX_NUM_TX = 32"
definition RELOCATE_PDRTHRES :: rat where "RELOCATE_PDRTHRES = 1 / 2"

definition arr_get :: "'a list \<Rightarrow> nat \<Rightarrow> 'a ub" where
  "arr_get xs i = (if i < length xs then Some (xs ! i) else None)"

definition arr_set :: "'a list \<Rightarrow> nat \<Rightarrow> 'a \<Rightarrow> 'a list ub" where
  "arr_set xs i v = (if i < length xs then Some (xs[i := v]) else None)"

definition cell_evaluated :: "cell_stats \<Rightarrow> bool" where
  "cell_evaluated c \<longleftrightarrow> cs_isStatisticallyRelevant c \<noteq> 0 \<and> 0 < cs_tx_total c"

definition cell_fails :: "cell_stats \<Rightarrow> bool" where
  "cell_fails c \<longleftrightarrow>
     RELOCATE_PDRTHRES <
       float32 (1 - float32 (of_nat (unat (cs_tx_success c)) / of_nat (unat (cs_tx_total c))))"

text \<open>One round of the loop; the caller's list and its length are threaded with the count.\<close>

definition evaluate_cell ::
  "nat \<Rightarrow> cell_stats list \<times> u8 \<times> u8 \<times> 'm pdr_state_scheme \<Rightarrow>
   (cell_stats list \<times> u8 \<times> u8 \<times> 'm pdr_state_scheme) ub" where
  "evaluate_cell i = (\<lambda>(ret, len, evaluated, s). do {
     c \<leftarrow> arr_get (pdr_cellList s) i;
     if cell_evaluated c then
       if cell_fails c then do {
         ret' \<leftarrow> arr_set ret (unat len) c;
         rel \<leftarrow> arr_set (rel_cells_index s) (unat (rel_cells_index_len s))
                  \<lparr>rc_index = of_nat i, rc_timeslot = cs_slotOffset c\<rparr>;
         moved \<leftarrow> arr_set (cell_number_relocated s) (unat (cs_numberCellAllocated c)) 1;
         Some (ret', len + 1, evaluated + 1,
           s\<lparr>rel_cells_index := rel, rel_cells_index_len := rel_cells_index_len s + 1,
             cell_number_relocated := moved\<rparr>)
       }
       else Some (ret, len, evaluated + 1, s)
     else Some (ret, len, evaluated, s)
   })"

fun ub_loop :: "(nat \<Rightarrow> 'a \<Rightarrow> 'a ub) \<Rightarrow> nat list \<Rightarrow> 'a \<Rightarrow> 'a ub" where
  "ub_loop f [] a = Some a"
| "ub_loop f (i # is) a = do { a' \<leftarrow> f i a; ub_loop f is a' }"

definition tsch_stats_evaluate_cells_for_relocation ::
  "cell_stats list \<Rightarrow> u8 \<Rightarrow> 'm pdr_state_scheme \<Rightarrow>
   (u8 \<times> cell_stats list \<times> u8 \<times> 'm pdr_state_scheme) ub" where
  "tsch_stats_evaluate_cells_for_relocation ret len s = do {
     (ret', len', evaluated, s') \<leftarrow>
       ub_loop evaluate_cell [0..<unat (pdr_cellAmount s)] (ret, len, 0, s\<lparr>rel_cells_index_len := 0\<rparr>);
     Some (evaluated, ret', len', s')
   }"

fun get_cell_loop :: "cell_stats list \<Rightarrow> u16 \<Rightarrow> nat list \<Rightarrow> nat option ub" where
  "get_cell_loop cells slot [] = Some None"
| "get_cell_loop cells slot (i # is) = do {
     c \<leftarrow> arr_get cells i;
     if ucast (cs_slotOffset c) = slot then Some (Some i) else get_cell_loop cells slot is
   }"

definition tsch_stats_get_cell_pdr :: "u16 \<Rightarrow> 'm pdr_state_scheme \<Rightarrow> nat option ub" where
  "tsch_stats_get_cell_pdr slot s =
     get_cell_loop (pdr_cellList s) slot [0..<unat (pdr_cellAmount s)]"

definition delete_cell :: "nat \<Rightarrow> 'm pdr_state_scheme \<Rightarrow> 'm pdr_state_scheme ub" where
  "delete_cell i s = do {
     r \<leftarrow> arr_get (rel_cells_index s) i;
     last \<leftarrow> (if pdr_cellAmount s = 0 then None
             else arr_get (pdr_cellList s) (unat (pdr_cellAmount s) - 1));
     cells \<leftarrow> arr_set (pdr_cellList s) (unat (rc_index r)) last;
     Some (s\<lparr>pdr_cellList := cells, pdr_cellAmount := pdr_cellAmount s - 1\<rparr>)
   }"

definition tsch_stats_delete_cells_pdr_list :: "'m pdr_state_scheme \<Rightarrow> 'm pdr_state_scheme ub" where
  "tsch_stats_delete_cells_pdr_list s = ub_loop delete_cell [0..<unat (rel_cells_index_len s)] s"

text \<open>The numbers that are printed.\<close>

definition print_cell_pdr_list :: "'m pdr_state_scheme \<Rightarrow> u8 list ub" where
  "print_cell_pdr_list s =
     ub_loop (\<lambda>i out. do { v \<leftarrow> arr_get (cell_number_relocated s) i; Some (out @ [v]) })
       [0..<unat (cell_number_relocated_len s)] []
     "

text \<open>
  The statistics part of \<open>tsch_tx_slot\<close>.  The first loop reads \<open>currentCell->slotOffset\<close> in every
  round, also when there is no such cell.
\<close>

fun skip_loop :: "rel_cell list \<Rightarrow> cell_stats list \<Rightarrow> nat option \<Rightarrow> nat list \<Rightarrow> bool ub" where
  "skip_loop rel cells cur [] = Some False"
| "skip_loop rel cells cur (i # is) = do {
     r \<leftarrow> arr_get rel i;
     p \<leftarrow> cur;
     c \<leftarrow> arr_get cells p;
     if rc_timeslot r = cs_slotOffset c then Some True else skip_loop rel cells cur is
   }"

definition count_tx :: "u8 \<Rightarrow> cell_stats \<Rightarrow> cell_stats" where
  "count_tx status c =
     (let total = cs_tx_total c + 1;
          success = (if status = MAC_TX_OK then cs_tx_success c + 1 else cs_tx_success c) in
      if MAX_NUM_TX \<le> total
      then c\<lparr>cs_tx_total := total div 2, cs_tx_success := success div 2,
             cs_isStatisticallyRelevant := 1\<rparr>
      else c\<lparr>cs_tx_total := total, cs_tx_success := success\<rparr>)"

definition new_cell :: "tsch_link \<Rightarrow> u8 \<Rightarrow> u8 \<Rightarrow> cell_stats" where
  "new_cell l status n =
     \<lparr>cs_slotOffset = ucast (link_timeslot l), cs_channelOffset = ucast (link_channel_offset l),
      cs_tx_total = 1, cs_tx_success = (if status = MAC_TX_OK then 1 else 0),
      cs_isStatisticallyRelevant = 0, cs_numberCellAllocated = n\<rparr>"

definition pdr_tx_update :: "tsch_link \<Rightarrow> u8 \<Rightarrow> 'm pdr_state_scheme \<Rightarrow> 'm pdr_state_scheme ub" where
  "pdr_tx_update l status s = do {
     cur \<leftarrow> tsch_stats_get_cell_pdr (link_timeslot l) s;
     skip \<leftarrow> skip_loop (rel_cells_index s) (pdr_cellList s) cur [0..<unat (rel_cells_index_len s)];
     if skip then Some s
     else case cur of
       Some p \<Rightarrow> do {
         c \<leftarrow> arr_get (pdr_cellList s) p;
         cells \<leftarrow> arr_set (pdr_cellList s) p (count_tx status c);
         Some (s\<lparr>pdr_cellList := cells\<rparr>)
       }
     | None \<Rightarrow>
         if unat (pdr_cellAmount s) < MAX_ALLOCATE_CELLS then do {
           cells \<leftarrow> arr_set (pdr_cellList s) (unat (pdr_cellAmount s))
                      (new_cell l status (pdr_cellAmount s));
           Some (s\<lparr>pdr_cellList := cells, pdr_cellAmount := pdr_cellAmount s + 1,
                   cell_number_relocated_len := cell_number_relocated_len s + 1\<rparr>)
         }
         else Some s
   }"

subsection \<open>Invariant\<close>

abbreviation tracked :: "'m pdr_state_scheme \<Rightarrow> cell_stats list" where
  "tracked s \<equiv> take (unat (pdr_cellAmount s)) (pdr_cellList s)"

definition stats_ok :: "cell_stats \<Rightarrow> bool" where
  "stats_ok c \<longleftrightarrow> cs_tx_success c \<le> cs_tx_total c \<and> 0 < cs_tx_total c \<and> cs_tx_total c < MAX_NUM_TX \<and>
     unat (cs_numberCellAllocated c) < MAX_ALLOCATE_CELLS"

definition pdr_ok :: "'m pdr_state_scheme \<Rightarrow> bool" where
  "pdr_ok s \<longleftrightarrow>
     length (pdr_cellList s) = MAX_ALLOCATE_CELLS \<and> unat (pdr_cellAmount s) \<le> MAX_ALLOCATE_CELLS \<and>
     length (rel_cells_index s) = 20 \<and> unat (rel_cells_index_len s) \<le> 20 \<and>
     length (cell_number_relocated s) = MAX_ALLOCATE_CELLS \<and>
     (\<forall>c \<in> set (tracked s). stats_ok c) \<and> distinct (map cs_slotOffset (tracked s))"

lemma ub_loop_append: "ub_loop f (is @ js) a = do { a' \<leftarrow> ub_loop f is a; ub_loop f js a' }"
  by (induction "is" arbitrary: a) (auto simp: bind_assoc split: Option.bind_splits)

lemma cell_fails_iff: "0 < cs_tx_total c \<Longrightarrow> cell_fails c \<longleftrightarrow> 2 * unat (cs_tx_success c) < unat (cs_tx_total c)"
  using single.failure_rate [of "unat (cs_tx_total c)" "unat (cs_tx_success c)"]
    unat_u16_less [of "cs_tx_total c"]
  by (simp add: cell_fails_def RELOCATE_PDRTHRES_def word_less_nat_alt)

subsection \<open>The choice of the cells\<close>

text \<open>
  Specification: the tracked cells that are statistically relevant and had fewer than half of
  their transmissions acknowledged.
\<close>

definition bad_cells :: "'m pdr_state_scheme \<Rightarrow> nat list" where
  "bad_cells s =
     filter (\<lambda>i. let c = pdr_cellList s ! i in
               cell_evaluated c \<and> 2 * unat (cs_tx_success c) < unat (cs_tx_total c))
       [0..<unat (pdr_cellAmount s)]"

definition evaluation :: "cell_stats list \<Rightarrow> 'm pdr_state_scheme \<Rightarrow>
    u8 \<times> cell_stats list \<times> u8 \<times> 'm pdr_state_scheme" where
  "evaluation ret s =
     (let bad = bad_cells s; n = length bad; cells = pdr_cellList s in
      (of_nat (length (filter cell_evaluated (tracked s))),
       map ((!) cells) bad @ drop n ret, of_nat n,
       s\<lparr>rel_cells_index :=
           map (\<lambda>i. \<lparr>rc_index = of_nat i, rc_timeslot = cs_slotOffset (cells ! i)\<rparr>) bad @
           drop n (rel_cells_index s),
         rel_cells_index_len := of_nat n,
         cell_number_relocated :=
           fold (\<lambda>i xs. xs[unat (cs_numberCellAllocated (cells ! i)) := 1]) bad
             (cell_number_relocated s)\<rparr>))"

lemma list_update_append_drop:
  "k = length ys \<Longrightarrow> k < length xs \<Longrightarrow> (ys @ drop k xs)[k := v] = (ys @ [v]) @ drop (Suc k) xs"
  by (simp add: list_update_append flip: Cons_nth_drop_Suc)

lemma length_fold_update [simp]: "length (fold (\<lambda>i xs. xs[f i := v i]) is xs) = length xs"
  by (induction "is" arbitrary: xs) auto

lemma unat_of_nat_u8: "n < 256 \<Longrightarrow> unat (of_nat n :: u8) = n"
  by (simp add: unsigned_of_nat take_bit_eq_mod)

lemma evaluate_loop_upto:
  fixes s :: "'m pdr_state_scheme"
  assumes n: "n \<le> length (pdr_cellList s)" "n < 256" and ret: "20 < length ret"
    and rel: "length (rel_cells_index s) = 20"
    and num: "\<And>i. i < n \<Longrightarrow> unat (cs_numberCellAllocated (pdr_cellList s ! i)) < length (cell_number_relocated s)"
  defines "bad m \<equiv> filter (\<lambda>i. cell_evaluated (pdr_cellList s ! i) \<and> cell_fails (pdr_cellList s ! i)) [0..<m]"
  shows "ub_loop evaluate_cell [0..<n] (ret, 0, 0, s\<lparr>rel_cells_index_len := 0\<rparr>) =
    (if length (bad n) \<le> 20 then
       Some (map ((!) (pdr_cellList s)) (bad n) @ drop (length (bad n)) ret, of_nat (length (bad n)),
         of_nat (length (filter (\<lambda>i. cell_evaluated (pdr_cellList s ! i)) [0..<n])),
         s\<lparr>rel_cells_index :=
             map (\<lambda>i. \<lparr>rc_index = of_nat i, rc_timeslot = cs_slotOffset (pdr_cellList s ! i)\<rparr>) (bad n) @
             drop (length (bad n)) (rel_cells_index s),
           rel_cells_index_len := of_nat (length (bad n)),
           cell_number_relocated :=
             fold (\<lambda>i xs. xs[unat (cs_numberCellAllocated (pdr_cellList s ! i)) := 1]) (bad n)
               (cell_number_relocated s)\<rparr>)
     else None)"
  using n num
proof (induction n)
  case 0
  show ?case by (simp add: bad_def)
next
  case (Suc n)
  let ?c = "pdr_cellList s ! n"
  have IH: "ub_loop evaluate_cell [0..<n] (ret, 0, 0, s\<lparr>rel_cells_index_len := 0\<rparr>) =
    (if length (bad n) \<le> 20 then
       Some (map ((!) (pdr_cellList s)) (bad n) @ drop (length (bad n)) ret, of_nat (length (bad n)),
         of_nat (length (filter (\<lambda>i. cell_evaluated (pdr_cellList s ! i)) [0..<n])),
         s\<lparr>rel_cells_index :=
             map (\<lambda>i. \<lparr>rc_index = of_nat i, rc_timeslot = cs_slotOffset (pdr_cellList s ! i)\<rparr>) (bad n) @
             drop (length (bad n)) (rel_cells_index s),
           rel_cells_index_len := of_nat (length (bad n)),
           cell_number_relocated :=
             fold (\<lambda>i xs. xs[unat (cs_numberCellAllocated (pdr_cellList s ! i)) := 1]) (bad n)
               (cell_number_relocated s)\<rparr>)
     else None)"
    using Suc by simp
  have get: "arr_get (pdr_cellList s) n = Some ?c" using Suc.prems by (simp add: arr_get_def)
  have badS: "bad (Suc n) = bad n @ (if cell_evaluated ?c \<and> cell_fails ?c then [n] else [])"
    by (simp add: bad_def)
  have num: "unat (cs_numberCellAllocated ?c) < length (cell_number_relocated s)"
    using Suc.prems by simp
  show ?case
  proof (cases "length (bad n) \<le> 20")
    case False
    then show ?thesis unfolding upt_Suc_append [OF le0] ub_loop_append IH badS by simp
  next
    case True
    then have k: "unat (of_nat (length (bad n)) :: u8) = length (bad n)"
      by (intro unat_of_nat_u8) simp
    show ?thesis
    proof (cases "cell_evaluated ?c \<and> cell_fails ?c")
      case False
      then show ?thesis
        unfolding upt_Suc_append [OF le0] ub_loop_append IH badS if_P [OF True]
        using get True by (auto simp: evaluate_cell_def add.commute)
    next
      case c: True
      show ?thesis
      proof (cases "length (bad n) < 20")
        case lt: True
        then show ?thesis
          unfolding upt_Suc_append [OF le0] ub_loop_append IH badS if_P [OF True]
          using get c ret rel num
          by (simp add: evaluate_cell_def k arr_set_def list_update_append_drop add.commute)
      next
        case False
        with True have "length (bad n) = 20" by simp
        then show ?thesis
          unfolding upt_Suc_append [OF le0] ub_loop_append IH badS if_P [OF True]
          using get c ret rel num
          by (simp add: evaluate_cell_def arr_set_def)
      qed
    qed
  qed
qed

lemma tracked_number:
  "pdr_ok s \<Longrightarrow> i < unat (pdr_cellAmount s) \<Longrightarrow> stats_ok (pdr_cellList s ! i)"
  unfolding pdr_ok_def by (metis (no_types, lifting) in_set_conv_nth length_take min.absorb2 nth_take)

lemma bad_cells_float:
  "bad_cells s =
     filter (\<lambda>i. cell_evaluated (pdr_cellList s ! i) \<and> cell_fails (pdr_cellList s ! i))
       [0..<unat (pdr_cellAmount s)]"
  unfolding bad_cells_def
  by (rule filter_cong [OF refl]) (auto simp: Let_def cell_evaluated_def cell_fails_iff)

lemma filter_tracked:
  assumes "n \<le> length xs"
  shows "length (filter P (take n xs)) = length (filter (\<lambda>i. P (xs ! i)) [0..<n])"
proof -
  have "take n xs = map ((!) xs) [0..<n]"
    using assms by (intro nth_equalityI) auto
  then show ?thesis by (simp add: filter_map comp_def)
qed

lemma evaluates:
  assumes ok: "pdr_ok s" and ret: "length ret = MAX_ALLOCATE_CELLS"
  shows "tsch_stats_evaluate_cells_for_relocation ret 0 s =
    (if length (bad_cells s) \<le> 20 then Some (evaluation ret s) else None)"
proof -
  let ?n = "unat (pdr_cellAmount s)"
  have n: "?n \<le> length (pdr_cellList s)" "?n < 256"
    using ok by (auto simp: pdr_ok_def MAX_ALLOCATE_CELLS_def)
  have num: "unat (cs_numberCellAllocated (pdr_cellList s ! i)) < length (cell_number_relocated s)"
    if "i < ?n" for i
    using tracked_number [OF ok that] ok by (simp add: stats_ok_def pdr_ok_def)
  have r: "20 < length ret" "length (rel_cells_index s) = 20"
    using ok ret by (auto simp: pdr_ok_def MAX_ALLOCATE_CELLS_def)
  note L = evaluate_loop_upto [OF n r num, folded bad_cells_float]
  show ?thesis
    by (simp add: tsch_stats_evaluate_cells_for_relocation_def L evaluation_def Let_def
        filter_tracked [OF n(1)])
qed

subsection \<open>Removing the entries\<close>

text \<open>Specification of one step: the last entry takes the place of the removed one.\<close>

definition remove_at :: "nat \<Rightarrow> 'a list \<Rightarrow> 'a list" where
  "remove_at d xs = butlast (xs[d := last xs])"

lemma length_remove_at [simp]: "length (remove_at d xs) = length xs - 1"
  by (simp add: remove_at_def)

lemma mset_remove_at:
  assumes "d < length xs"
  shows "add_mset (xs ! d) (mset (remove_at d xs)) = mset xs"
proof -
  from assms have "xs \<noteq> []" by auto
  then obtain ys y where xs: "xs = ys @ [y]" by (metis append_butlast_last_id)
  show ?thesis
  proof (cases "d = length ys")
    case True
    then show ?thesis by (simp add: remove_at_def xs list_update_append)
  next
    case False
    with assms have d: "d < length ys" by (simp add: xs)
    then show ?thesis
      by (simp add: remove_at_def xs list_update_append nth_append mset_update)
  qed
qed

lemma set_remove_at: "xs \<noteq> [] \<Longrightarrow> set (remove_at d xs) \<subseteq> set xs"
  unfolding remove_at_def
  by (metis in_set_butlastD last_in_set set_update_subsetI subset_eq)

lemma distinct_remove_at:
  assumes "distinct (map f xs)"
  shows "distinct (map f (remove_at d xs))"
proof (cases "d < length xs")
  case True
  have "mset (map f (xs ! d # remove_at d xs)) = mset (map f xs)"
    using arg_cong [OF mset_remove_at [OF True], of "image_mset f"] by simp
  with assms have "distinct (map f (xs ! d # remove_at d xs))"
    by (metis mset_eq_imp_distinct_iff)
  then show ?thesis by simp
next
  case False
  with assms show ?thesis
    by (simp add: remove_at_def map_butlast distinct_butlast list_update_beyond)
qed

lemma nth_remove_at:
  "i \<noteq> d \<Longrightarrow> i < length xs - 1 \<Longrightarrow> remove_at d xs ! i = xs ! i"
  by (simp add: remove_at_def nth_butlast)

text \<open>The steps remove the given entries if no index is ever behind the shrunken list.\<close>

lemma mset_remove_all:
  "sorted_wrt (<) ds \<Longrightarrow> (\<And>j. j < length ds \<Longrightarrow> ds ! j < length xs - j) \<Longrightarrow>
   mset (fold remove_at ds xs) + mset (map ((!) xs) ds) = mset xs"
proof (induction ds arbitrary: xs)
  case (Cons d ds)
  have d: "d < length xs" using Cons.prems(2) [of 0] by simp
  have later: "ds ! j < length (remove_at d xs) - j" if "j < length ds" for j
    using Cons.prems(2) [of "Suc j"] that by simp
  have "map ((!) (remove_at d xs)) ds = map ((!) xs) ds"
  proof (rule map_cong [OF refl])
    fix i assume "i \<in> set ds"
    then obtain j where j: "j < length ds" "i = ds ! j" by (auto simp: in_set_conv_nth)
    have "i \<noteq> d" using Cons.prems(1) \<open>i \<in> set ds\<close> by auto
    moreover have "i < length xs - 1" using later [OF j(1)] j(2) by simp
    ultimately show "remove_at d xs ! i = xs ! i" by (rule nth_remove_at)
  qed
  with Cons.IH [OF _ later] Cons.prems(1)
  have "mset (fold remove_at ds (remove_at d xs)) + mset (map ((!) xs) ds) = mset (remove_at d xs)"
    by simp
  with mset_remove_at [OF d] show ?case by (metis add_mset_add_single fold_simps(2) list.simps(9) mset.simps(2) union_mset_add_mset_right)
qed simp

lemma delete_cell_step:
  assumes ok: "pdr_ok s" and i: "i < 20" and pos: "0 < unat (pdr_cellAmount s)"
    and d: "unat (rc_index (rel_cells_index s ! i)) < MAX_ALLOCATE_CELLS"
  obtains s' where "delete_cell i s = Some s'" and "pdr_ok s'"
    and "tracked s' = remove_at (unat (rc_index (rel_cells_index s ! i))) (tracked s)"
    and "rel_cells_index s' = rel_cells_index s"
    and "rel_cells_index_len s' = rel_cells_index_len s"
    and "unat (pdr_cellAmount s') = unat (pdr_cellAmount s) - 1"
proof -
  define d where "d = unat (rc_index (rel_cells_index s ! i))"
  define m where "m = unat (pdr_cellAmount s)"
  define s' where "s' = s\<lparr>pdr_cellList := (pdr_cellList s)[d := pdr_cellList s ! (m - 1)],
    pdr_cellAmount := pdr_cellAmount s - 1\<rparr>"
  have len: "length (pdr_cellList s) = MAX_ALLOCATE_CELLS" "m \<le> MAX_ALLOCATE_CELLS"
      "length (rel_cells_index s) = 20"
    using ok by (auto simp: pdr_ok_def m_def)
  have nz: "pdr_cellAmount s \<noteq> 0" using pos by auto
  have del: "delete_cell i s = Some s'"
    using i nz pos assms(4) len by (simp add: delete_cell_def arr_get_def arr_set_def s'_def d_def m_def)
  have am: "unat (pdr_cellAmount s') = m - 1"
    using nz by (simp add: s'_def m_def unat_minus_one)
  have ne: "tracked s \<noteq> []" using pos len by (auto simp: m_def MAX_ALLOCATE_CELLS_def)
  have last: "last (tracked s) = pdr_cellList s ! (m - 1)"
    using ne len pos by (simp add: last_conv_nth m_def min_absorb2)
  have tr: "tracked s' = remove_at d (tracked s)"
    unfolding remove_at_def last am
    using len by (simp add: s'_def butlast_conv_take take_update_swap min_def flip: m_def)
  have "pdr_ok s'"
    using ok set_remove_at [OF ne, of d] distinct_remove_at [of cs_slotOffset "tracked s" d] am len
    unfolding pdr_ok_def tr by (auto simp: s'_def)
  with del tr am that show thesis by (simp add: s'_def d_def m_def)
qed

lemma delete_loop_ok:
  assumes "pdr_ok s" and "\<forall>i \<in> set is. i < 20 \<and> unat (rc_index (rel_cells_index s ! i)) < MAX_ALLOCATE_CELLS"
    and "length is \<le> unat (pdr_cellAmount s)"
  obtains s' where "ub_loop delete_cell is s = Some s'" and "pdr_ok s'"
    and "tracked s' = fold remove_at (map (\<lambda>i. unat (rc_index (rel_cells_index s ! i))) is) (tracked s)"
    and "rel_cells_index s' = rel_cells_index s"
    and "rel_cells_index_len s' = rel_cells_index_len s"
  using assms
proof (induction "is" arbitrary: s thesis)
  case Nil
  show ?case by (rule Nil.prems(1) [of s]) (simp_all add: Nil.prems(2))
next
  case (Cons i "is")
  have i: "i < 20" "unat (rc_index (rel_cells_index s ! i)) < MAX_ALLOCATE_CELLS"
    and l: "length is < unat (pdr_cellAmount s)"
    using Cons.prems(3,4) by simp_all
  obtain s1 where s1: "delete_cell i s = Some s1" "pdr_ok s1"
    "tracked s1 = remove_at (unat (rc_index (rel_cells_index s ! i))) (tracked s)"
    "rel_cells_index s1 = rel_cells_index s" "rel_cells_index_len s1 = rel_cells_index_len s"
    "unat (pdr_cellAmount s1) = unat (pdr_cellAmount s) - 1"
    using delete_cell_step [OF Cons.prems(2) i(1) _ i(2)] l by (metis gr_zeroI not_less_zero)
  have rest: "\<forall>i \<in> set is. i < 20 \<and> unat (rc_index (rel_cells_index s1 ! i)) < MAX_ALLOCATE_CELLS"
    "length is \<le> unat (pdr_cellAmount s1)"
    using Cons.prems(3) l by (simp_all add: s1(4,6))
  obtain s' where s': "ub_loop delete_cell is s1 = Some s'" "pdr_ok s'"
    "tracked s' = fold remove_at (map (\<lambda>i. unat (rc_index (rel_cells_index s1 ! i))) is) (tracked s1)"
    "rel_cells_index s' = rel_cells_index s1" "rel_cells_index_len s' = rel_cells_index_len s1"
    using Cons.IH [OF _ s1(2) rest] by blast
  show ?case
    by (rule Cons.prems(1) [of s']) (simp_all add: s1(1,4,5) s' s1(3))
qed

lemma bad_cells_less: "i \<in> set (bad_cells s) \<Longrightarrow> i < unat (pdr_cellAmount s)"
  by (simp add: bad_cells_def)

lemma bad_cells_length: "length (bad_cells s) \<le> unat (pdr_cellAmount s)"
  unfolding bad_cells_def by (rule order_trans [OF length_filter_le]) simp

lemma bad_cells_sorted: "sorted_wrt (<) (bad_cells s)"
  unfolding bad_cells_def by (rule sorted_wrt_filter) (simp add: sorted_wrt_upt)

text \<open>What the evaluation leaves behind.\<close>

lemma evaluated_state:
  assumes ok: "pdr_ok s" and len: "length (bad_cells s) \<le> 20"
    and ev: "evaluation ret s = (n, ret', k, s')"
  shows "pdr_ok s'" and "tracked s' = tracked s" and "unat k = length (bad_cells s)"
    and "unat (rel_cells_index_len s') = length (bad_cells s)"
    and "j < length (bad_cells s) \<Longrightarrow> unat (rc_index (rel_cells_index s' ! j)) = bad_cells s ! j"
    and "take (length (bad_cells s)) ret' = map ((!) (pdr_cellList s)) (bad_cells s)"
    and "j < length (bad_cells s) \<Longrightarrow>
      rc_timeslot (rel_cells_index s' ! j) = cs_slotOffset (pdr_cellList s ! (bad_cells s ! j))"
proof -
  have u: "unat (of_nat (length (bad_cells s)) :: u8) = length (bad_cells s)"
    using len by (intro unat_of_nat_u8) simp
  have k: "k = of_nat (length (bad_cells s))"
    and r: "ret' = map ((!) (pdr_cellList s)) (bad_cells s) @ drop (length (bad_cells s)) ret"
    and s': "s' = s\<lparr>rel_cells_index :=
           map (\<lambda>i. \<lparr>rc_index = of_nat i, rc_timeslot = cs_slotOffset (pdr_cellList s ! i)\<rparr>) (bad_cells s) @
           drop (length (bad_cells s)) (rel_cells_index s),
         rel_cells_index_len := of_nat (length (bad_cells s)),
         cell_number_relocated :=
           fold (\<lambda>i xs. xs[unat (cs_numberCellAllocated (pdr_cellList s ! i)) := 1]) (bad_cells s)
             (cell_number_relocated s)\<rparr>"
    using ev by (auto simp: evaluation_def Let_def)
  show "pdr_ok s'" using ok len u by (simp add: s' pdr_ok_def)
  show "tracked s' = tracked s" by (simp add: s')
  show "unat k = length (bad_cells s)" by (simp add: k u)
  show "unat (rel_cells_index_len s') = length (bad_cells s)" by (simp add: s' u)
  show "take (length (bad_cells s)) ret' = map ((!) (pdr_cellList s)) (bad_cells s)" by (simp add: r)
  assume j: "j < length (bad_cells s)"
  have "bad_cells s ! j < unat (pdr_cellAmount s)" using bad_cells_less j nth_mem by blast
  also have "\<dots> \<le> 60" using ok by (simp add: pdr_ok_def MAX_ALLOCATE_CELLS_def)
  finally show "unat (rc_index (rel_cells_index s' ! j)) = bad_cells s ! j"
    using j by (simp add: s' nth_append unat_of_nat_u8)
  show "rc_timeslot (rel_cells_index s' ! j) = cs_slotOffset (pdr_cellList s ! (bad_cells s ! j))"
    using j by (simp add: s' nth_append)
qed

lemma deletes:
  assumes ok: "pdr_ok s" and len: "length (bad_cells s) \<le> 20"
    and ev: "evaluation ret s = (n, ret', k, s')"
  obtains s2 where "tsch_stats_delete_cells_pdr_list s' = Some s2" and "pdr_ok s2"
    and "tracked s2 = fold remove_at (bad_cells s) (tracked s)"
    and "unat (rel_cells_index_len s2) = length (bad_cells s)"
    and "rel_cells_index s2 = rel_cells_index s'"
proof -
  note st = evaluated_state [OF ok len ev]
  let ?n = "length (bad_cells s)"
  have am: "unat (pdr_cellAmount s') = unat (pdr_cellAmount s)"
    using arg_cong [OF st(2), of length] st(1) ok by (simp add: pdr_ok_def min_absorb2)
  have d: "\<forall>i \<in> set [0..<?n]. i < 20 \<and> unat (rc_index (rel_cells_index s' ! i)) < MAX_ALLOCATE_CELLS"
  proof
    fix i assume "i \<in> set [0..<?n]"
    then have i: "i < ?n" by simp
    then have "bad_cells s ! i < unat (pdr_cellAmount s)" using bad_cells_less nth_mem by blast
    then show "i < 20 \<and> unat (rc_index (rel_cells_index s' ! i)) < MAX_ALLOCATE_CELLS"
      using st(5) [OF i] i len ok by (simp add: pdr_ok_def)
  qed
  have l: "length [0..<?n] \<le> unat (pdr_cellAmount s')"
    using bad_cells_length by (simp add: am)
  obtain s2 where s2: "ub_loop delete_cell [0..<?n] s' = Some s2" "pdr_ok s2"
    "tracked s2 = fold remove_at (map (\<lambda>i. unat (rc_index (rel_cells_index s' ! i))) [0..<?n]) (tracked s')"
    "rel_cells_index s2 = rel_cells_index s'" "rel_cells_index_len s2 = rel_cells_index_len s'"
    using delete_loop_ok [OF st(1) d l] by blast
  have "map (\<lambda>i. unat (rc_index (rel_cells_index s' ! i))) [0..<?n] = bad_cells s"
    using st(5) by (intro nth_equalityI) auto
  with s2 st(2,4) show thesis
    by (intro that [of s2]) (simp_all add: tsch_stats_delete_cells_pdr_list_def)
qed

lemma set_remove_all:
  "length ds \<le> length xs \<Longrightarrow> set (fold remove_at ds xs) \<subseteq> set xs"
proof (induction ds arbitrary: xs)
  case (Cons d ds)
  then have "xs \<noteq> []" by auto
  with Cons.IH [of "remove_at d xs"] Cons.prems set_remove_at [of xs d] show ?case by fastforce
qed simp

subsection \<open>The update after a transmission\<close>

text \<open>Specification: the position of the tracked cell of a timeslot.\<close>

definition cell_position :: "u16 \<Rightarrow> 'm pdr_state_scheme \<Rightarrow> nat option" where
  "cell_position slot s =
     List.find (\<lambda>i. ucast (cs_slotOffset (pdr_cellList s ! i)) = slot) [0..<unat (pdr_cellAmount s)]"

lemma get_cell_loop_find:
  "\<forall>i \<in> set is. i < length cells \<Longrightarrow>
   get_cell_loop cells slot is = Some (List.find (\<lambda>i. ucast (cs_slotOffset (cells ! i)) = slot) is)"
  by (induction "is") (auto simp: arr_get_def)

lemma get_cell_position:
  "pdr_ok s \<Longrightarrow> tsch_stats_get_cell_pdr slot s = Some (cell_position slot s)"
  by (simp add: tsch_stats_get_cell_pdr_def cell_position_def get_cell_loop_find pdr_ok_def)

lemma cell_position_Some:
  "cell_position slot s = Some p \<Longrightarrow>
   p < unat (pdr_cellAmount s) \<and> ucast (cs_slotOffset (pdr_cellList s ! p)) = slot"
  by (auto simp: cell_position_def find_Some_iff)

lemma cell_position_None_iff:
  assumes "pdr_ok s"
  shows "cell_position slot s = None \<longleftrightarrow> (\<forall>c \<in> set (tracked s). ucast (cs_slotOffset c) \<noteq> slot)"
proof -
  have "set (tracked s) = (!) (pdr_cellList s) ` {0..<unat (pdr_cellAmount s)}"
    using assms by (simp add: pdr_ok_def nth_image)
  then show ?thesis by (auto simp: cell_position_def find_None_iff)
qed

lemma skip_loop_Some:
  "\<forall>i \<in> set is. i < length rel \<Longrightarrow> p < length cells \<Longrightarrow>
   skip_loop rel cells (Some p) is =
     Some (\<exists>i \<in> set is. rc_timeslot (rel ! i) = cs_slotOffset (cells ! p))"
  by (induction "is") (auto simp: arr_get_def)

lemma skip_loop_None:
  "skip_loop rel cells None is = (if is = [] then Some False else None)"
  by (cases "is") (auto simp: arr_get_def)

definition to_relocate :: "'m pdr_state_scheme \<Rightarrow> u8 set" where
  "to_relocate s = rc_timeslot ` set (take (unat (rel_cells_index_len s)) (rel_cells_index s))"

definition tx_counted :: "tsch_link \<Rightarrow> u8 \<Rightarrow> 'm pdr_state_scheme \<Rightarrow> 'm pdr_state_scheme ub" where
  "tx_counted l status s =
     (case cell_position (link_timeslot l) s of
        Some p \<Rightarrow>
          if cs_slotOffset (pdr_cellList s ! p) \<in> to_relocate s then Some s
          else Some (s\<lparr>pdr_cellList := (pdr_cellList s)[p := count_tx status (pdr_cellList s ! p)]\<rparr>)
      | None \<Rightarrow>
          if rel_cells_index_len s \<noteq> 0 then None
          else if unat (pdr_cellAmount s) < MAX_ALLOCATE_CELLS then
            Some (s\<lparr>pdr_cellList := (pdr_cellList s)[unat (pdr_cellAmount s) := new_cell l status (pdr_cellAmount s)],
                    pdr_cellAmount := pdr_cellAmount s + 1,
                    cell_number_relocated_len := cell_number_relocated_len s + 1\<rparr>)
          else Some s)"

lemma pdr_tx_update_counted:
  assumes ok: "pdr_ok s"
  shows "pdr_tx_update l status s = tx_counted l status s"
proof (cases "cell_position (link_timeslot l) s")
  case None
  have "([0..<unat (rel_cells_index_len s)] = []) = (rel_cells_index_len s = 0)"
    by (simp add: unat_eq_0)
  with None ok show ?thesis
    by (auto simp: pdr_tx_update_def tx_counted_def get_cell_position skip_loop_None arr_set_def
        pdr_ok_def)
next
  case (Some p)
  have p: "p < length (pdr_cellList s)"
    using cell_position_Some [OF Some] ok by (simp add: pdr_ok_def)
  have rel: "to_relocate s = (\<lambda>i. rc_timeslot (rel_cells_index s ! i)) ` {0..<unat (rel_cells_index_len s)}"
    using nth_image [of "unat (rel_cells_index_len s)" "rel_cells_index s"] ok
    by (simp add: to_relocate_def pdr_ok_def image_image flip: image_image [of rc_timeslot "(!) (rel_cells_index s)"])
  have skip: "skip_loop (rel_cells_index s) (pdr_cellList s) (Some p) [0..<unat (rel_cells_index_len s)] =
      Some (cs_slotOffset (pdr_cellList s ! p) \<in> to_relocate s)"
    using p ok unfolding rel by (subst skip_loop_Some) (auto simp: pdr_ok_def intro!: image_eqI [OF sym])
  show ?thesis
    using Some p ok by (simp add: pdr_tx_update_def tx_counted_def get_cell_position skip arr_get_def arr_set_def)
qed

lemma stats_ok_count_tx: "stats_ok c \<Longrightarrow> stats_ok (count_tx status c)"
proof -
  assume "stats_ok c"
  then have c: "unat (cs_tx_success c) \<le> unat (cs_tx_total c)" "0 < unat (cs_tx_total c)"
    "unat (cs_tx_total c) < 32" "unat (cs_numberCellAllocated c) < MAX_ALLOCATE_CELLS"
    by (auto simp: stats_ok_def MAX_NUM_TX_def word_le_nat_alt word_less_nat_alt)
  have inc: "unat (x + 1) = unat x + 1" if "unat x \<le> 32" for x :: u16
    using that by (simp add: unat_word_ariths)
  from c inc [of "cs_tx_total c"] inc [of "cs_tx_success c"] show ?thesis
    by (auto simp: stats_ok_def count_tx_def Let_def MAX_NUM_TX_def word_le_nat_alt
        word_less_nat_alt unat_div)
qed

lemma pdr_tx_update_ok:
  assumes ok: "pdr_ok s" and slot: "unat (link_timeslot l) < 256"
    and upd: "pdr_tx_update l status s = Some s'"
  shows "pdr_ok s'"
proof (cases "cell_position (link_timeslot l) s")
  case (Some p)
  define c where "c = count_tx status (pdr_cellList s ! p)"
  have p: "p < unat (pdr_cellAmount s)" using cell_position_Some [OF Some] by simp
  have c: "stats_ok c" using tracked_number [OF ok p] by (simp add: c_def stats_ok_count_tx)
  have pt: "p < length (tracked s)" using p ok by (simp add: pdr_ok_def)
  have tr: "take (unat (pdr_cellAmount s)) ((pdr_cellList s)[p := c]) = (tracked s)[p := c]"
    by (simp add: take_update_swap)
  have slots: "map cs_slotOffset ((tracked s)[p := c]) = map cs_slotOffset (tracked s)"
    using pt p by (auto simp: map_update c_def count_tx_def Let_def intro!: list_update_same_conv [THEN iffD2])
  have "\<forall>x \<in> set ((tracked s)[p := c]). stats_ok x"
    using ok c set_update_subset_insert [of "tracked s" p c] by (auto simp: pdr_ok_def)
  with ok have "pdr_ok (s\<lparr>pdr_cellList := (pdr_cellList s)[p := c]\<rparr>)"
    using slots by (simp add: pdr_ok_def tr)
  with Some upd ok show ?thesis
    by (auto simp: pdr_tx_update_counted tx_counted_def c_def split: if_splits)
next
  case None
  show ?thesis
  proof (cases "rel_cells_index_len s = 0 \<and> unat (pdr_cellAmount s) < MAX_ALLOCATE_CELLS")
    case False
    with None upd ok show ?thesis
      by (auto simp: pdr_tx_update_counted tx_counted_def split: if_splits)
  next
    case True
    define n where "n = unat (pdr_cellAmount s)"
    have n: "n < length (pdr_cellList s)" "n < MAX_ALLOCATE_CELLS"
      using True ok by (simp_all add: n_def pdr_ok_def)
    have am: "unat (pdr_cellAmount s + 1) = Suc n"
      using n by (simp add: n_def unat_word_ariths MAX_ALLOCATE_CELLS_def)
    have tr: "take (Suc n) ((pdr_cellList s)[n := new_cell l status (pdr_cellAmount s)]) =
        take n (pdr_cellList s) @ [new_cell l status (pdr_cellAmount s)]"
      using n by (simp add: take_Suc_conv_app_nth)
    have new: "stats_ok (new_cell l status (pdr_cellAmount s))"
      using n by (auto simp: stats_ok_def new_cell_def MAX_NUM_TX_def n_def word_le_nat_alt)
    have slot_new: "cs_slotOffset (new_cell l status (pdr_cellAmount s)) = ucast (link_timeslot l)"
      by (simp add: new_cell_def)
    have slot_back: "ucast (ucast (link_timeslot l) :: u8) = link_timeslot l"
      using slot by (intro word_unat_eq_iff [THEN iffD2]) (simp add: unsigned_ucast_eq take_bit_eq_mod unat_mod)
    have fresh: "ucast (link_timeslot l) \<notin> set (map cs_slotOffset (tracked s))"
    proof
      assume "ucast (link_timeslot l) \<in> set (map cs_slotOffset (tracked s))"
      then obtain c where "c \<in> set (tracked s)" "cs_slotOffset c = ucast (link_timeslot l)" by auto
      with None cell_position_None_iff [OF ok] slot_back show False by metis
    qed
    have s': "s' = s\<lparr>pdr_cellList := (pdr_cellList s)[n := new_cell l status (pdr_cellAmount s)],
                    pdr_cellAmount := pdr_cellAmount s + 1,
                    cell_number_relocated_len := cell_number_relocated_len s + 1\<rparr>"
      using None True upd ok by (simp add: pdr_tx_update_counted tx_counted_def n_def)
    show ?thesis
      using ok n new fresh slot_new unfolding s' pdr_ok_def
      by (auto simp: am tr simp flip: n_def)
  qed
qed

subsection \<open>Properties\<close>

text \<open>States for the examples: the timeslots with total, successes and relevance.\<close>

definition pdr_of :: "(u8 \<times> u16 \<times> u16 \<times> u8) list \<Rightarrow> pdr_state" where
  "pdr_of cs =
     sf_state.extend sf_example (pdr_state.fields
       (map (\<lambda>(i, slot, total, success, relevant). \<lparr>cs_slotOffset = slot, cs_channelOffset = 0,
          cs_tx_total = total, cs_tx_success = success, cs_isStatisticallyRelevant = relevant,
          cs_numberCellAllocated = of_nat i\<rparr>) (zip [0..<length cs] cs) @
        replicate (60 - length cs) \<lparr>cs_slotOffset = 0, cs_channelOffset = 0, cs_tx_total = 0,
          cs_tx_success = 0, cs_isStatisticallyRelevant = 0, cs_numberCellAllocated = 0\<rparr>)
       (of_nat (length cs)) (replicate 20 \<lparr>rc_index = 0, rc_timeslot = 0\<rparr>) 0
       (replicate 60 0) (of_nat (length cs)))"

lemma pdr_of_fields [simp]:
  "pdr_cellList (pdr_of cs) =
     map (\<lambda>(i, slot, total, success, relevant). \<lparr>cs_slotOffset = slot, cs_channelOffset = 0,
          cs_tx_total = total, cs_tx_success = success, cs_isStatisticallyRelevant = relevant,
          cs_numberCellAllocated = of_nat i\<rparr>) (zip [0..<length cs] cs) @
        replicate (60 - length cs) \<lparr>cs_slotOffset = 0, cs_channelOffset = 0, cs_tx_total = 0,
          cs_tx_success = 0, cs_isStatisticallyRelevant = 0, cs_numberCellAllocated = 0\<rparr>"
  "pdr_cellAmount (pdr_of cs) = of_nat (length cs)"
  "rel_cells_index (pdr_of cs) = replicate 20 \<lparr>rc_index = 0, rc_timeslot = 0\<rparr>"
  "rel_cells_index_len (pdr_of cs) = 0"
  "cell_number_relocated (pdr_of cs) = replicate 60 0"
  "cell_number_relocated_len (pdr_of cs) = of_nat (length cs)"
  by (simp_all add: pdr_of_def sf_state.defs pdr_state.defs)

lemmas upt_simps = upt_rec_numeral upt_conv_Cons

text \<open>C16: The evaluation of the cells returns the number of tracked cells with enough statistics,
  and lists exactly those of them with fewer than half of their transmissions acknowledged (the
  single-precision test is exact there), unless there are more than twenty, which overruns
  the table of their indices.\<close>

theorem pdr_evaluation:
  assumes "pdr_ok s" and "length ret = MAX_ALLOCATE_CELLS"
  shows "tsch_stats_evaluate_cells_for_relocation ret 0 s =
    (if length (bad_cells s) \<le> 20 then Some (evaluation ret s) else None)"
  using assms by (rule evaluates)

theorem pdr_evaluation_witness:
  "tsch_stats_evaluate_cells_for_relocation (replicate 60 undefined) 0
     (pdr_of [(10, 20, 5, 1), (11, 20, 20, 1), (12, 20, 10, 1)]) =
   Some (evaluation (replicate 60 undefined) (pdr_of [(10, 20, 5, 1), (11, 20, 20, 1), (12, 20, 10, 1)])) \<and>
   bad_cells (pdr_of [(10, 20, 5, 1), (11, 20, 20, 1), (12, 20, 10, 1)]) = [0]"
proof -
  let ?s = "pdr_of [(10, 20, 5, 1), (11, 20, 20, 1), (12, 20, 10, 1)]"
  have bad: "bad_cells ?s = [0]"
    by (simp add: bad_cells_def Let_def cell_evaluated_def upt_simps)
  have ok: "pdr_ok ?s"
    by (simp add: pdr_ok_def stats_ok_def MAX_ALLOCATE_CELLS_def MAX_NUM_TX_def upt_simps)
  show ?thesis
    using pdr_evaluation [OF ok, of "replicate 60 undefined"] by (simp add: bad MAX_ALLOCATE_CELLS_def)
qed

text \<open>C18: The update after a transmission keeps the tables well-formed: every tracked cell has
  between 1 and 31 counted transmissions, no more successes than transmissions, and an own timeslot.\<close>

theorem pdr_update_invariant:
  assumes "pdr_ok s" and "unat (link_timeslot l) < 256" and "pdr_tx_update l status s = Some s'"
  shows "pdr_ok s'"
  using assms by (rule pdr_tx_update_ok)

text \<open>The update after a transmission is undefined exactly if there are cells waiting for
  their removal and the cell of the transmission is not tracked: the loop reads through NULL.\<close>

theorem pdr_update_null:
  assumes ok: "pdr_ok s"
  shows "pdr_tx_update l status s = None \<longleftrightarrow>
    rel_cells_index_len s \<noteq> 0 \<and> (\<forall>c \<in> set (tracked s). ucast (cs_slotOffset c) \<noteq> link_timeslot l)"
  using cell_position_None_iff [OF ok, of "link_timeslot l"]
  by (auto simp: pdr_tx_update_counted [OF ok] tx_counted_def split: option.splits)

text \<open>Removing the entries of the relocated cells removes these and no others, in all cases in
  which no relocated cell is among the last entries of the table.\<close>

theorem pdr_deletion:
  assumes ok: "pdr_ok s" and len: "length (bad_cells s) \<le> 20"
    and front: "\<And>i. i \<in> set (bad_cells s) \<Longrightarrow> i + length (bad_cells s) \<le> unat (pdr_cellAmount s)"
    and ev: "evaluation ret s = (n, ret', k, s1)"
  shows "\<exists>s2. tsch_stats_delete_cells_pdr_list s1 = Some s2 \<and> pdr_ok s2 \<and>
    mset (tracked s2) + mset (map ((!) (pdr_cellList s)) (bad_cells s)) = mset (tracked s)"
proof -
  obtain s2 where s2: "tsch_stats_delete_cells_pdr_list s1 = Some s2" "pdr_ok s2"
    "tracked s2 = fold remove_at (bad_cells s) (tracked s)"
    using deletes [OF ok len ev] by blast
  have l: "length (tracked s) = unat (pdr_cellAmount s)" using ok by (simp add: pdr_ok_def)
  have "bad_cells s ! j < length (tracked s) - j" if "j < length (bad_cells s)" for j
    using front [of "bad_cells s ! j"] that unfolding l by simp
  from mset_remove_all [OF bad_cells_sorted this]
  have "mset (tracked s2) + mset (map ((!) (tracked s)) (bad_cells s)) = mset (tracked s)"
    by (simp add: s2(3))
  moreover have "map ((!) (tracked s)) (bad_cells s) = map ((!) (pdr_cellList s)) (bad_cells s)"
    by (rule map_cong [OF refl]) (simp add: bad_cells_less)
  ultimately show ?thesis using s2(1,2) by metis
qed

text \<open>C17: After a relocation the table of relocated cells is not cleared: the first transmission in
  a cell that is not tracked yet, such as the new one, reads through NULL.\<close>

theorem pdr_relocation_null:
  assumes ok: "pdr_ok s" and some: "bad_cells s \<noteq> []" and len: "length (bad_cells s) \<le> 20"
    and ev: "tsch_stats_evaluate_cells_for_relocation ret 0 s = Some (n, ret', k, s1)"
    and ret: "length ret = MAX_ALLOCATE_CELLS"
    and del: "tsch_stats_delete_cells_pdr_list s1 = Some s2"
    and fresh: "\<forall>c \<in> set (tracked s). ucast (cs_slotOffset c) \<noteq> link_timeslot l"
  shows "pdr_tx_update l status s2 = None"
proof -
  have ev': "evaluation ret s = (n, ret', k, s1)"
    using ev len by (simp add: evaluates [OF ok ret])
  obtain s' where s': "tsch_stats_delete_cells_pdr_list s1 = Some s'" "pdr_ok s'"
    "tracked s' = fold remove_at (bad_cells s) (tracked s)"
    "unat (rel_cells_index_len s') = length (bad_cells s)"
    using deletes [OF ok len ev'] by blast
  with del have s2: "s' = s2" by simp
  have l: "length (tracked s) = unat (pdr_cellAmount s)" using ok by (simp add: pdr_ok_def)
  have "set (tracked s2) \<subseteq> set (tracked s)"
    using s'(3) set_remove_all [of "bad_cells s" "tracked s"] bad_cells_length [of s] l by (simp add: s2)
  with fresh have "cell_position (link_timeslot l) s2 = None"
    using cell_position_None_iff s'(2) s2 by blast
  moreover have "rel_cells_index_len s2 \<noteq> 0" using s'(4) some s2 by auto
  ultimately show ?thesis using s'(2) by (simp add: pdr_tx_update_counted tx_counted_def s2)
qed

lemma pdr_example:
  defines "s \<equiv> pdr_of [(10, 20, 5, 1), (11, 20, 20, 1), (12, 20, 10, 1)]"
  shows "pdr_ok s" and "bad_cells s = [0]" and "map cs_slotOffset (tracked s) = [10, 11, 12]"
  by (simp_all add: s_def pdr_ok_def stats_ok_def MAX_ALLOCATE_CELLS_def MAX_NUM_TX_def upt_simps
      bad_cells_def Let_def cell_evaluated_def)

definition link_example :: "u16 \<Rightarrow> tsch_link" where
  "link_example slot = \<lparr>link_handle = 1, link_addr = 5, link_slotframe_handle = 0, link_timeslot = slot,
     link_channel_offset = 1, link_options = LINK_OPTION_TX, link_link_type = LINK_TYPE_NORMAL, link_data = None\<rparr>"

theorem pdr_update_invariant_witness:
  "\<exists>s'. pdr_tx_update (link_example 11) MAC_TX_OK (pdr_of [(10, 20, 5, 1), (11, 20, 20, 1), (12, 20, 10, 1)]) = Some s' \<and>
     pdr_ok s'"
proof -
  let ?s = "pdr_of [(10, 20, 5, 1), (11, 20, 20, 1), (12, 20, 10, 1)]"
  have "\<exists>s'. pdr_tx_update (link_example 11) MAC_TX_OK ?s = Some s'"
    unfolding pdr_tx_update_counted [OF pdr_example(1)] tx_counted_def
    by (auto split: option.splits)
  with pdr_update_invariant [OF pdr_example(1), of "link_example 11" MAC_TX_OK] show ?thesis
    by (auto simp: link_example_def)
qed

theorem pdr_update_null_witness:
  "pdr_tx_update (link_example 40) MAC_TX_OK (pdr_of [(10, 20, 5, 1), (11, 20, 20, 1), (12, 20, 10, 1)]) \<noteq> None"
  using pdr_update_null [OF pdr_example(1), of "link_example 40" MAC_TX_OK] by simp

theorem pdr_deletion_witness:
  "\<exists>s2. tsch_stats_delete_cells_pdr_list
      (snd (snd (snd (evaluation (replicate 60 undefined) (pdr_of [(10, 20, 5, 1), (11, 20, 20, 1), (12, 20, 10, 1)]))))) =
      Some s2 \<and> pdr_ok s2 \<and> image_mset cs_slotOffset (mset (tracked s2)) = {#11, 12#}"
proof -
  let ?s = "pdr_of [(10, 20, 5, 1), (11, 20, 20, 1), (12, 20, 10, 1)]"
  obtain n ret k s1 where ev: "evaluation (replicate 60 undefined) ?s = (n, ret, k, s1)"
    by (metis prod_cases4)
  obtain s2 where s2: "tsch_stats_delete_cells_pdr_list s1 = Some s2" "pdr_ok s2"
    and m: "mset (tracked s2) + mset (map ((!) (pdr_cellList ?s)) (bad_cells ?s)) = mset (tracked ?s)"
    using pdr_deletion [OF pdr_example(1) _ _ ev] by (auto simp: pdr_example(2))
  have "image_mset cs_slotOffset (mset (tracked s2)) + {#10#} = mset (map cs_slotOffset (tracked ?s))"
    using arg_cong [OF m, of "image_mset cs_slotOffset"] by (simp add: pdr_example(2) upt_simps)
  then have "image_mset cs_slotOffset (mset (tracked s2)) = {#11, 12#}"
    by (simp add: pdr_example(3))
  with s2 show ?thesis by (auto simp: ev)
qed

theorem pdr_relocation_null_witness:
  "\<exists>n ret k s1 s2.
     tsch_stats_evaluate_cells_for_relocation (replicate 60 undefined) 0
       (pdr_of [(10, 20, 5, 1), (11, 20, 20, 1), (12, 20, 10, 1)]) = Some (n, ret, k, s1) \<and>
     tsch_stats_delete_cells_pdr_list s1 = Some s2 \<and>
     pdr_tx_update (link_example 40) MAC_TX_OK s2 = None"
proof -
  let ?s = "pdr_of [(10, 20, 5, 1), (11, 20, 20, 1), (12, 20, 10, 1)]"
  obtain n ret k s1 where ev: "evaluation (replicate 60 undefined) ?s = (n, ret, k, s1)"
    by (metis prod_cases4)
  have some: "bad_cells ?s \<noteq> []" and le: "length (bad_cells ?s) \<le> 20" by (simp_all add: pdr_example(2))
  have len: "length (replicate 60 undefined :: cell_stats list) = MAX_ALLOCATE_CELLS"
    by (simp add: MAX_ALLOCATE_CELLS_def)
  have ev': "tsch_stats_evaluate_cells_for_relocation (replicate 60 undefined) 0 ?s = Some (n, ret, k, s1)"
    using evaluates [OF pdr_example(1) len] by (simp add: ev le)
  obtain s2 where s2: "tsch_stats_delete_cells_pdr_list s1 = Some s2"
    using deletes [OF pdr_example(1) le ev] by blast
  have fresh: "\<forall>c \<in> set (tracked ?s). ucast (cs_slotOffset c) \<noteq> link_timeslot (link_example 40)"
    by (simp add: link_example_def upt_simps)
  show ?thesis
    using ev' s2 pdr_relocation_null [OF pdr_example(1) some le ev' len s2 fresh] by blast
qed

text \<open>
  The condition of the deletion matters: with relocated cells at both ends of a table of three,
  the second removal hits a good cell, and a relocated one stays.
\<close>

theorem pdr_deletion_wrong:
  defines "s \<equiv> pdr_of [(10, 20, 5, 1), (11, 20, 20, 1), (12, 20, 3, 1)]"
  shows "\<exists>n ret k s1 s2.
    tsch_stats_evaluate_cells_for_relocation (replicate 60 undefined) 0 s = Some (n, ret, k, s1) \<and>
    map cs_slotOffset (take (unat k) ret) = [10, 12] \<and>
    tsch_stats_delete_cells_pdr_list s1 = Some s2 \<and> map cs_slotOffset (tracked s2) = [12]"
proof -
  have ok: "pdr_ok s" and bad: "bad_cells s = [0, 2]"
    and slots: "map cs_slotOffset (tracked s) = [10, 11, 12]"
    by (simp_all add: s_def pdr_ok_def stats_ok_def MAX_ALLOCATE_CELLS_def MAX_NUM_TX_def upt_simps
        bad_cells_def Let_def cell_evaluated_def)
  obtain n ret k s1 where ev: "evaluation (replicate 60 undefined) s = (n, ret, k, s1)"
    by (metis prod_cases4)
  have le: "length (bad_cells s) \<le> 20" by (simp add: bad)
  have len: "length (replicate 60 undefined :: cell_stats list) = MAX_ALLOCATE_CELLS"
    by (simp add: MAX_ALLOCATE_CELLS_def)
  obtain s2 where s2: "tsch_stats_delete_cells_pdr_list s1 = Some s2"
    "tracked s2 = fold remove_at (bad_cells s) (tracked s)"
    using deletes [OF ok le ev] by blast
  have "tracked s2 = [tracked s ! 2]"
    using slots unfolding s2(2) bad by (auto simp: remove_at_def map_eq_Cons_conv)
  then have "map cs_slotOffset (tracked s2) = [map cs_slotOffset (tracked s) ! 2]"
    using slots by (auto simp: map_eq_Cons_conv)
  moreover have "map cs_slotOffset (take (unat k) ret) = [10, 12]"
    using evaluated_state(3,6) [OF ok le ev] unfolding bad by (simp add: s_def)
  moreover have "tsch_stats_evaluate_cells_for_relocation (replicate 60 undefined) 0 s = Some (n, ret, k, s1)"
    using evaluates [OF ok len] by (simp add: ev le)
  ultimately show ?thesis using s2(1) slots by auto
qed

text \<open>
  The length that is printed grows with every new entry and never shrinks: once more than sixty
  cells were added, printing reads behind the table.
\<close>

theorem print_overrun:
  assumes "pdr_ok s"
  shows "print_cell_pdr_list s = None \<longleftrightarrow> MAX_ALLOCATE_CELLS < unat (cell_number_relocated_len s)"
proof -
  have loop: "ub_loop (\<lambda>i out. do { v \<leftarrow> arr_get xs i; Some (out @ [v]) }) is out =
      (if \<forall>i \<in> set is. i < length xs then Some (out @ map ((!) xs) is) else None)"
    for xs :: "u8 list" and "is" out
    by (induction "is" arbitrary: out) (auto simp: arr_get_def)
  have upto: "(\<forall>i \<in> set [0..<n]. i < m) \<longleftrightarrow> n \<le> m" for n m :: nat
  proof
    assume "\<forall>i \<in> set [0..<n]. i < m"
    then show "n \<le> m" by (intro leI notI) (auto dest: bspec [where x = m])
  qed auto
  have "length (cell_number_relocated s) = MAX_ALLOCATE_CELLS"
    using assms by (simp add: pdr_ok_def)
  then show ?thesis
    unfolding print_cell_pdr_list_def loop upto by (simp add: not_le)
qed

theorem print_overrun_witness: "print_cell_pdr_list (pdr_of [(10, 20, 5, 1), (11, 20, 20, 1), (12, 20, 10, 1)]) \<noteq> None"
  using print_overrun [OF pdr_example(1)] by (simp add: MAX_ALLOCATE_CELLS_def)

end
