(* ===== verification/Tsch_Timesync.thy ===== *)
theory Tsch_Timesync
  imports Pdr_Stats "HOL-Library.Signed_Division"
begin

section \<open>Adaptive time synchronisation\<close>

text \<open>
  Model of \<open>os/net/mac/tsch/tsch-adaptive-timesync.c\<close>: the drift of the time source is estimated
  from the corrections at synchronisation, as a moving average of eight values, and compensated
  before each slot.  The request for keep-alive messages of \<open>tsch.c\<close> is here because the
  estimator uses it.  A signed 32-bit value is a word that is read with \<open>sint\<close>; its additions are
  taken modulo \<open>2 ^ 32\<close>, \<open>long\<close> has 64 bits.  The conversions between ticks and microseconds are
  the macros of the platform and a parameter; \<open>RTIMER_ARCH_SECOND\<close> is taken as a signed constant.
  A division by zero is \<open>None\<close>.
\<close>

datatype keepalive_status =
  KEEPALIVE_SCHEDULING_UNCHANGED | KEEPALIVE_SCHEDULE_OR_STOP | KEEPALIVE_SEND_IMMEDIATELY

record timesync_state = pdr_state +
  tsch_timing_us :: "u16 list"
  tsch_timing :: "u32 list"
  min_drift_seen :: u32
  max_drift_seen :: u32
  ka_status :: keepalive_status
  tsch_current_ka_timeout :: u32
  pending_events_polled :: bool             \<comment> \<open>\<open>tsch_pending_events_process\<close> is polled\<close>
  drift_ppm :: u32
  compensated_ticks :: u32
  timesync_entry_count :: u8
  asn_since_last_learning :: u32
  last_timesource_neighbor :: "nat option"
  ts_buffer :: "u32 list"
  ts_pos :: u8
  ts_remainder :: u32
  ts_tick_conversion_error :: u16

record rtimer_env =
  re_second :: int
  re_us_to_ticks :: "int \<Rightarrow> int"
  re_ticks_to_us :: "int \<Rightarrow> int"
  re_ticks_to_us_64 :: "u32 \<Rightarrow> u32"

abbreviation (input) tsch_ts_timeslot_length :: nat where "tsch_ts_timeslot_length \<equiv> 11"

definition NUM_TIMESYNC_ENTRIES :: nat where "NUM_TIMESYNC_ENTRIES = 8"
definition TSCH_DRIFT_UNIT :: int where "TSCH_DRIFT_UNIT = 1000 * 1000 * 256"
definition TSCH_MAX_KEEPALIVE_TIMEOUT :: u32 where "TSCH_MAX_KEEPALIVE_TIMEOUT = 60 * 128"

definition tsch_schedule_keepalive :: "bool \<Rightarrow> 'm timesync_state_scheme \<Rightarrow> 'm timesync_state_scheme" where
  "tsch_schedule_keepalive immediate s =
     s\<lparr>ka_status :=
         (if immediate then KEEPALIVE_SEND_IMMEDIATELY
          else if ka_status s \<noteq> KEEPALIVE_SEND_IMMEDIATELY then KEEPALIVE_SCHEDULE_OR_STOP
          else ka_status s),
       pending_events_polled := True\<rparr>"

definition tsch_set_ka_timeout :: "u32 \<Rightarrow> 'm timesync_state_scheme \<Rightarrow> 'm timesync_state_scheme" where
  "tsch_set_ka_timeout timeout s = tsch_schedule_keepalive False (s\<lparr>tsch_current_ka_timeout := timeout\<rparr>)"

subsection \<open>Learning the drift\<close>

definition timesync_entry_add :: "u32 \<Rightarrow> 'm timesync_state_scheme \<Rightarrow> (u32 \<times> 'm timesync_state_scheme) ub" where
  "timesync_entry_add val s = do {
     let s1 = (if timesync_entry_count s = 0 then s\<lparr>ts_pos := 0\<rparr> else s);
     buf \<leftarrow> arr_set (ts_buffer s1) (unat (ts_pos s1)) val;
     let s2 = s1\<lparr>ts_buffer := buf\<rparr>;
     let s3 = (if unat (timesync_entry_count s2) < NUM_TIMESYNC_ENTRIES
               then s2\<lparr>timesync_entry_count := timesync_entry_count s2 + 1\<rparr>
               else tsch_set_ka_timeout TSCH_MAX_KEEPALIVE_TIMEOUT s2);
     let s4 = s3\<lparr>ts_pos := (ts_pos s3 + 1) mod of_nat NUM_TIMESYNC_ENTRIES\<rparr>;
     total \<leftarrow> ub_loop (\<lambda>i v. do { b \<leftarrow> arr_get (ts_buffer s4) i; Some (v + b) })
               [0..<unat (timesync_entry_count s4)] 0;
     Some (word_of_int (sint total sdiv uint (timesync_entry_count s4)), s4)
   }"

definition timesync_learn_drift_ticks ::
  "u32 \<Rightarrow> u32 \<Rightarrow> 'm timesync_state_scheme \<Rightarrow> 'm timesync_state_scheme ub" where
  "timesync_learn_drift_ticks time_delta_asn drift_ticks s = do {
     slot \<leftarrow> arr_get (tsch_timing s) tsch_ts_timeslot_length;
     let time_delta_ticks = time_delta_asn * slot;
     let real_drift_ticks = drift_ticks + compensated_ticks s;
     if time_delta_ticks = 0 then None
     else do {
       (ppm, s') \<leftarrow> timesync_entry_add
         (word_of_int ((sint real_drift_ticks * TSCH_DRIFT_UNIT) sdiv sint time_delta_ticks)) s;
       Some (s'\<lparr>drift_ppm := ppm\<rparr>)
     }
   }"

definition tsch_adaptive_timesync_reset :: "'m timesync_state_scheme \<Rightarrow> 'm timesync_state_scheme" where
  "tsch_adaptive_timesync_reset s =
     s\<lparr>last_timesource_neighbor := None, drift_ppm := 0, timesync_entry_count := 0,
       compensated_ticks := 0, asn_since_last_learning := 0\<rparr>"

definition TSCH_SLOTS_PER_SECOND :: "'m timesync_state_scheme \<Rightarrow> int ub" where
  "TSCH_SLOTS_PER_SECOND s = do {
     us \<leftarrow> arr_get (tsch_timing_us s) tsch_ts_timeslot_length;
     if us = 0 then None else Some (1000000 div uint us)
   }"

definition tsch_timesync_update ::
  "nat option \<Rightarrow> u16 \<Rightarrow> u32 \<Rightarrow> 'm timesync_state_scheme \<Rightarrow> 'm timesync_state_scheme ub" where
  "tsch_timesync_update n time_delta_asn drift s = do {
     s1 \<leftarrow> (if last_timesource_neighbor s \<noteq> n
            then Some ((tsch_adaptive_timesync_reset s)\<lparr>last_timesource_neighbor := n\<rparr>)
            else do {
              let since = asn_since_last_learning s + ucast time_delta_asn;
              let s' = s\<lparr>asn_since_last_learning := since\<rparr>;
              rate \<leftarrow> TSCH_SLOTS_PER_SECOND s';
              if 4 * rate \<le> uint since
              then do {
                s'' \<leftarrow> timesync_learn_drift_ticks since drift s';
                Some (s''\<lparr>compensated_ticks := 0, asn_since_last_learning := 0\<rparr>)
              }
              else Some (s'\<lparr>compensated_ticks := compensated_ticks s' + drift\<rparr>)
            });
     Some (s1\<lparr>min_drift_seen := (if sint drift < sint (min_drift_seen s1) then drift else min_drift_seen s1),
              max_drift_seen := (if sint (max_drift_seen s1) < sint drift then drift else max_drift_seen s1)\<rparr>)
   }"

definition tsch_adaptive_timesync_get_drift_ppm :: "'m timesync_state_scheme \<Rightarrow> int" where
  "tsch_adaptive_timesync_get_drift_ppm s = sint (drift_ppm s) sdiv 256"

subsection \<open>Compensating it\<close>

text \<open>The pointers to the remainder and the conversion error are threaded.\<close>

definition compensate_internal ::
  "rtimer_env \<Rightarrow> u32 \<Rightarrow> u32 \<Rightarrow> u32 \<Rightarrow> u16 \<Rightarrow> u32 \<times> u32 \<times> u16" where
  "compensate_internal re time_delta_usec ppm remainder tick_conversion_error =
     (let d = uint time_delta_usec * sint ppm + sint remainder;
          amount = word_of_int (d sdiv TSCH_DRIFT_UNIT) :: u32;
          remainder' = word_of_int (d - sint amount * TSCH_DRIFT_UNIT);
          amount' = amount + word_of_int (sint tick_conversion_error);
          amount_ticks = word_of_int (re_us_to_ticks re (sint amount')) :: u32;
          error' = word_of_int (sint amount' - re_ticks_to_us re (sint amount_ticks))
      in if \<bar>sint amount_ticks\<bar> \<le> re_second re sdiv 128
         then (amount_ticks, remainder', error')
         else (word_of_int ((if 0 < sint amount_ticks then re_second re else - re_second re) sdiv 128),
               remainder', error'))"

definition tsch_timesync_adaptive_compensate ::
  "rtimer_env \<Rightarrow> u32 \<Rightarrow> 'm timesync_state_scheme \<Rightarrow> u32 \<times> 'm timesync_state_scheme" where
  "tsch_timesync_adaptive_compensate re time_delta_ticks s =
     (if drift_ppm s \<noteq> 0 \<and> last_timesource_neighbor s \<noteq> None
      then let (result, remainder, error) =
             compensate_internal re (re_ticks_to_us_64 re time_delta_ticks) (drift_ppm s)
               (ts_remainder s) (ts_tick_conversion_error s)
           in (result, s\<lparr>ts_remainder := remainder, ts_tick_conversion_error := error,
                         compensated_ticks := compensated_ticks s + result\<rparr>)
      else (0, s))"

lemma sint_word_of_int_u32: "- (2 ^ 31) \<le> x \<Longrightarrow> x < 2 ^ 31 \<Longrightarrow> sint (word_of_int x :: u32) = x"
  by (simp add: signed_of_int signed_take_bit_int_eq_self)

lemma sint_word_of_int_u16: "- (2 ^ 15) \<le> x \<Longrightarrow> x < 2 ^ 15 \<Longrightarrow> sint (word_of_int x :: u16) = x"
  by (simp add: signed_of_int signed_take_bit_int_eq_self)

lemma sint_plus_u32:
  "- (2 ^ 31) \<le> sint x + sint y \<Longrightarrow> sint x + sint y < 2 ^ 31 \<Longrightarrow> sint (x + y :: u32) = sint x + sint y"
  using sint_word_of_int_u32 [of "sint x + sint y"] by simp

subsection \<open>The compensation does not accumulate errors\<close>

text \<open>
  What is assumed of the platform's conversions, up to the rounding error \<open>e\<close> in microseconds:
  they are inverse to each other on the amounts that occur, and those are below the limit.
\<close>

definition rtimer_ok :: "rtimer_env \<Rightarrow> int \<Rightarrow> bool" where
  "rtimer_ok re e \<longleftrightarrow> 0 \<le> e \<and> e < 2 ^ 15 \<and>
     (\<forall>x. \<bar>x\<bar> \<le> 5000 + e \<longrightarrow>
        \<bar>x - re_ticks_to_us re (re_us_to_ticks re x)\<bar> \<le> e \<and>
        \<bar>re_us_to_ticks re x\<bar> \<le> re_second re sdiv 128 \<and> \<bar>re_us_to_ticks re x\<bar> < 2 ^ 31)"

lemma compensate_step:
  assumes re: "rtimer_ok re e" and ppm: "\<bar>sint ppm\<bar> \<le> 2 ^ 20" and t: "uint t \<le> 2 ^ 20"
    and rm: "\<bar>sint rm\<bar> < TSCH_DRIFT_UNIT" and er: "\<bar>sint er\<bar> \<le> e"
    and step: "compensate_internal re t ppm rm er = (r, rm', er')"
  shows "uint t * sint ppm + sint rm + TSCH_DRIFT_UNIT * sint er =
      TSCH_DRIFT_UNIT * re_ticks_to_us re (sint r) + sint rm' + TSCH_DRIFT_UNIT * sint er'"
    and "\<bar>sint rm'\<bar> < TSCH_DRIFT_UNIT" and "\<bar>sint er'\<bar> \<le> e"
proof -
  define d where "d = uint t * sint ppm + sint rm"
  define q where "q = d sdiv TSCH_DRIFT_UNIT"
  define x where "x = q + sint er"
  define k where "k = re_us_to_ticks re x"
  have U: "TSCH_DRIFT_UNIT = 256000000" by (simp add: TSCH_DRIFT_UNIT_def)
  have "\<bar>uint t * sint ppm\<bar> \<le> 2 ^ 20 * 2 ^ 20"
    unfolding abs_mult using ppm t by (intro mult_mono) auto
  then have d: "\<bar>d\<bar> < 1099767627776" using rm by (simp add: d_def U)
  have split: "q * TSCH_DRIFT_UNIT + d smod TSCH_DRIFT_UNIT = d"
    by (simp add: q_def sdiv_mult_smod_eq)
  have m: "\<bar>d smod TSCH_DRIFT_UNIT\<bar> < TSCH_DRIFT_UNIT"
    using smod_int_range [of TSCH_DRIFT_UNIT d] by (auto simp: U)
  have qb: "\<bar>q\<bar> \<le> 4999" using split m d unfolding U by linarith
  have q: "sint (word_of_int q :: u32) = q"
    using qb by (intro sint_word_of_int_u32) auto
  have eb: "0 \<le> e" "e < 2 ^ 15" using re by (simp_all add: rtimer_ok_def)
  have e16: "sint (scast er :: u32) = sint er"
    unfolding scast_eq using er eb by (intro sint_word_of_int_u32) auto
  have xb: "\<bar>x\<bar> \<le> 5000 + e" using qb er by (simp add: x_def)
  have x: "sint (word_of_int q + scast er :: u32) = x"
    using sint_plus_u32 [of "word_of_int q" "scast er"] qb er eb
    by (simp add: q e16 x_def)
  have conv: "\<bar>x - re_ticks_to_us re k\<bar> \<le> e" "\<bar>k\<bar> \<le> re_second re sdiv 128" "\<bar>k\<bar> < 2 ^ 31"
    using re xb by (auto simp: rtimer_ok_def k_def)
  have k: "sint (word_of_int k :: u32) = k" using conv(3) by (intro sint_word_of_int_u32) auto
  have rm': "d - q * TSCH_DRIFT_UNIT = d smod TSCH_DRIFT_UNIT" using split by simp
  have "compensate_internal re t ppm rm er = (word_of_int k, word_of_int (d smod TSCH_DRIFT_UNIT),
      word_of_int (x - re_ticks_to_us re k))"
    unfolding compensate_internal_def Let_def scast_eq [symmetric] d_def [symmetric] q_def [symmetric]
      q x rm' k_def [symmetric] k if_P [OF conv(2)] ..
  with step have res: "(r, rm', er') = (word_of_int k, word_of_int (d smod TSCH_DRIFT_UNIT),
      word_of_int (x - re_ticks_to_us re k))"
    by simp
  have s: "sint rm' = d smod TSCH_DRIFT_UNIT" "sint er' = x - re_ticks_to_us re k" "sint r = k"
    using res sint_word_of_int_u32 [of "d smod TSCH_DRIFT_UNIT"]
      sint_word_of_int_u16 [of "x - re_ticks_to_us re k"] m conv(1) eb k unfolding U by auto
  show "\<bar>sint rm'\<bar> < TSCH_DRIFT_UNIT" "\<bar>sint er'\<bar> \<le> e" using m conv(1) by (simp_all add: s)
  show "uint t * sint ppm + sint rm + TSCH_DRIFT_UNIT * sint er =
      TSCH_DRIFT_UNIT * re_ticks_to_us re (sint r) + sint rm' + TSCH_DRIFT_UNIT * sint er'"
    unfolding s x_def using split by (simp add: d_def algebra_simps)
qed

text \<open>Compensation before each slot of a run.\<close>

fun compensate_run :: "rtimer_env \<Rightarrow> u32 list \<Rightarrow> 'm timesync_state_scheme \<Rightarrow> u32 list \<times> 'm timesync_state_scheme" where
  "compensate_run re [] s = ([], s)"
| "compensate_run re (t # ts) s =
     (let (r, s1) = tsch_timesync_adaptive_compensate re t s; (rs, s2) = compensate_run re ts s1
      in (r # rs, s2))"

definition comp_ok :: "int \<Rightarrow> 'm timesync_state_scheme \<Rightarrow> bool" where
  "comp_ok e s \<longleftrightarrow> \<bar>sint (drift_ppm s)\<bar> \<le> 2 ^ 20 \<and> drift_ppm s \<noteq> 0 \<and> last_timesource_neighbor s \<noteq> None \<and>
     \<bar>sint (ts_remainder s)\<bar> < TSCH_DRIFT_UNIT \<and> \<bar>sint (ts_tick_conversion_error s)\<bar> \<le> e"

definition carried :: "'m timesync_state_scheme \<Rightarrow> int" where
  "carried s = sint (ts_remainder s) + TSCH_DRIFT_UNIT * sint (ts_tick_conversion_error s)"

lemma compensate_run_exact:
  assumes "rtimer_ok re e" and "comp_ok e s" and "\<forall>t \<in> set ts. uint (re_ticks_to_us_64 re t) \<le> 2 ^ 20"
    and "compensate_run re ts s = (rs, s')"
  shows "comp_ok e s' \<and>
    (\<Sum>t \<leftarrow> ts. uint (re_ticks_to_us_64 re t)) * sint (drift_ppm s) + carried s =
      TSCH_DRIFT_UNIT * (\<Sum>r \<leftarrow> rs. re_ticks_to_us re (sint r)) + carried s'"
  using assms(2-4)
proof (induction ts arbitrary: s rs)
  case (Cons t ts)
  obtain r rm er where c: "compensate_internal re (re_ticks_to_us_64 re t) (drift_ppm s)
      (ts_remainder s) (ts_tick_conversion_error s) = (r, rm, er)"
    by (metis prod_cases3)
  define s1 where "s1 = s\<lparr>compensated_ticks := compensated_ticks s + r,
    ts_remainder := rm, ts_tick_conversion_error := er\<rparr>"
  have s1: "tsch_timesync_adaptive_compensate re t s = (r, s1)"
    using Cons.prems(1) by (simp add: tsch_timesync_adaptive_compensate_def c comp_ok_def s1_def)
  obtain rs' where rs': "compensate_run re ts s1 = (rs', s')" "rs = r # rs'"
    using Cons.prems(3) by (auto simp: s1 split: prod.splits)
  have ok: "\<bar>sint (drift_ppm s)\<bar> \<le> 2 ^ 20" "uint (re_ticks_to_us_64 re t) \<le> 2 ^ 20"
    "\<bar>sint (ts_remainder s)\<bar> < TSCH_DRIFT_UNIT" "\<bar>sint (ts_tick_conversion_error s)\<bar> \<le> e"
    using Cons.prems(1,2) by (simp_all add: comp_ok_def)
  note step = compensate_step [OF assms(1) ok c]
  have "comp_ok e s1" using Cons.prems(1) step by (simp add: comp_ok_def s1_def)
  from Cons.IH [OF this _ rs'(1)] Cons.prems(2) have IH: "comp_ok e s'"
    "(\<Sum>t \<leftarrow> ts. uint (re_ticks_to_us_64 re t)) * sint (drift_ppm s) + carried s1 =
      TSCH_DRIFT_UNIT * (\<Sum>r \<leftarrow> rs'. re_ticks_to_us re (sint r)) + carried s'"
    by (simp_all add: s1_def)
  with step(1) show ?case by (simp add: rs'(2) carried_def s1_def algebra_simps)
qed simp


subsection \<open>The estimate is a moving average\<close>

text \<open>The values recorded since the last reset, and the ring that holds the last eight.\<close>

definition recorded :: "int list \<Rightarrow> 'm timesync_state_scheme \<Rightarrow> bool" where
  "recorded h s \<longleftrightarrow>
     length (ts_buffer s) = NUM_TIMESYNC_ENTRIES \<and>
     unat (timesync_entry_count s) = min NUM_TIMESYNC_ENTRIES (length h) \<and>
     (h \<noteq> [] \<longrightarrow> unat (ts_pos s) = length h mod NUM_TIMESYNC_ENTRIES) \<and>
     (\<forall>k < length h. length h \<le> k + NUM_TIMESYNC_ENTRIES \<longrightarrow>
        sint (ts_buffer s ! (k mod NUM_TIMESYNC_ENTRIES)) = h ! k)"

definition recent :: "int list \<Rightarrow> int list" where
  "recent h = drop (length h - NUM_TIMESYNC_ENTRIES) h"

lemma ub_loop_sum:
  "\<forall>i \<in> set is. i < length xs \<Longrightarrow>
   ub_loop (\<lambda>i v. do { b \<leftarrow> arr_get xs i; Some (v + b) }) is a = Some (a + sum_list (map ((!) xs) is))"
  for xs :: "u32 list"
  by (induction "is" arbitrary: a) (auto simp: arr_get_def add.assoc)

lemma sum_list_sint: "sum_list xs = word_of_int (\<Sum>x \<leftarrow> xs. sint x)" for xs :: "u32 list"
  by (induction xs) auto

lemma mod_window_inj:
  fixes a b m :: nat
  assumes "a \<le> b" and "b < a + m" and "a mod m = b mod m"
  shows "a = b"
proof (rule ccontr)
  assume "a \<noteq> b"
  with assms(1) have "0 < b - a" by simp
  moreover have "m dvd b - a" using assms by (metis mod_eq_dvd_iff_nat)
  ultimately have "m \<le> b - a" by (simp add: dvd_imp_le)
  with assms(1,2) show False by linarith
qed

lemma mod_window:
  fixes m n :: nat
  assumes "0 < m" and "m \<le> n"
  shows "bij_betw (\<lambda>k. k mod m) {n - m..<n} {0..<m}"
proof -
  have "inj_on (\<lambda>k. k mod m) {n - m..<n}"
  proof (rule inj_onI)
    fix j k assume j: "j \<in> {n - m..<n}" and k: "k \<in> {n - m..<n}" and eq: "j mod m = k mod m"
    show "j = k"
    proof (cases "j \<le> k")
      case True
      moreover have "k < j + m" using j k by auto
      ultimately show ?thesis using eq by (rule mod_window_inj)
    next
      case False
      then have "k \<le> j" by simp
      moreover have "j < k + m" using j k by auto
      ultimately show ?thesis using mod_window_inj [of k j m] eq by simp
    qed
  qed
  moreover have "(\<lambda>k. k mod m) ` {n - m..<n} = {0..<m}"
  proof (rule card_subset_eq)
    show "card ((\<lambda>k. k mod m) ` {n - m..<n}) = card {0..<m}"
      using card_image [OF calculation] assms by simp
  qed (use assms in auto)
  ultimately show ?thesis by (simp add: bij_betw_def)
qed

lemma sum_window:
  fixes f :: "nat \<Rightarrow> int"
  assumes h: "\<And>k. k < length h \<Longrightarrow> length h \<le> k + m \<Longrightarrow> f (k mod m) = h ! k" and m: "0 < m"
  shows "(\<Sum>i = 0..<min m (length h). f i) = sum_list (drop (length h - m) h)"
proof (cases "m \<le> length h")
  case True
  have "(\<Sum>i = 0..<m. f i) = (\<Sum>k = length h - m..<length h. f (k mod m))"
    using sum.reindex_bij_betw [OF mod_window [OF m True], of f] by simp
  also have "\<dots> = (\<Sum>k = length h - m..<length h. h ! k)"
    by (rule sum.cong [OF refl]) (auto intro!: h)
  also have "\<dots> = (\<Sum>k = 0..<m. drop (length h - m) h ! k)"
    using True sum.shift_bounds_nat_ivl [of "(!) h" 0 "length h - m" m] by (simp add: add.commute)
  also have "\<dots> = sum_list (drop (length h - m) h)"
    using True by (simp add: sum_list_sum_nth)
  finally show ?thesis using True by (simp add: min_def)
next
  case False
  have "f i = h ! i" if "i < length h" for i
    using h [OF that] that False by simp
  with False show ?thesis by (simp add: sum_list_sum_nth min_def)
qed

text \<open>The estimator returns the average of the values recorded since the last reset, of the last
  eight at most, and the keep-alive period is lengthened once there are eight.\<close>

theorem timesync_moving_average:
  assumes s: "recorded h s" and h: "\<And>x. x \<in> set h \<Longrightarrow> \<bar>x\<bar> < 2 ^ 27" and v: "\<bar>sint v\<bar> < 2 ^ 27"
  shows "\<exists>r s'. timesync_entry_add v s = Some (r, s') \<and> recorded (h @ [sint v]) s' \<and>
    sint r = sum_list (recent (h @ [sint v])) sdiv int (length (recent (h @ [sint v]))) \<and>
    (NUM_TIMESYNC_ENTRIES \<le> length h \<longrightarrow> tsch_current_ka_timeout s' = TSCH_MAX_KEEPALIVE_TIMEOUT)"
proof -
  define n where "n = length h"
  define p where "p = n mod 8"
  define buf where "buf = (ts_buffer s)[p := v]"
  define h' where "h' = h @ [sint v]"
  have N: "NUM_TIMESYNC_ENTRIES = 8" by (simp add: NUM_TIMESYNC_ENTRIES_def)
  have len: "length (ts_buffer s) = 8" and cnt: "unat (timesync_entry_count s) = min 8 n"
    and pos: "n \<noteq> 0 \<Longrightarrow> unat (ts_pos s) = p"
    and nth: "\<And>k. k < n \<Longrightarrow> n \<le> k + 8 \<Longrightarrow> sint (ts_buffer s ! (k mod 8)) = h ! k"
    using s by (auto simp: recorded_def N n_def p_def)
  have zero: "timesync_entry_count s = 0 \<longleftrightarrow> n = 0"
    using cnt by (metis min_0R min_def unat_0 unat_eq_zero zero_neq_numeral)
  define s1 where "s1 = (if timesync_entry_count s = 0 then s\<lparr>ts_pos := 0\<rparr> else s)"
  have s1: "unat (ts_pos s1) = p" "ts_buffer s1 = ts_buffer s" "timesync_entry_count s1 = timesync_entry_count s"
    using zero pos by (auto simp: s1_def p_def)
  have p8: "p < 8" by (simp add: p_def)
  have nth': "sint (buf ! (k mod 8)) = h' ! k" if "k < length h'" "length h' \<le> k + 8" for k
  proof (cases "k = n")
    case True
    then show ?thesis using len p8 by (simp add: buf_def h'_def n_def p_def nth_append)
  next
    case False
    with that have k: "k < n" "n < k + 8" by (auto simp: h'_def n_def)
    have "k mod 8 \<noteq> p"
      using mod_window_inj [of k n 8] k by (auto simp: p_def)
    with nth [OF k(1)] k show ?thesis by (simp add: buf_def h'_def n_def nth_append)
  qed
  define s2 where "s2 = s1\<lparr>ts_buffer := buf\<rparr>"
  define s3 where "s3 = (if unat (timesync_entry_count s2) < NUM_TIMESYNC_ENTRIES
    then s2\<lparr>timesync_entry_count := timesync_entry_count s2 + 1\<rparr>
    else tsch_set_ka_timeout TSCH_MAX_KEEPALIVE_TIMEOUT s2)"
  define s4 where "s4 = s3\<lparr>ts_pos := (ts_pos s3 + 1) mod of_nat NUM_TIMESYNC_ENTRIES\<rparr>"
  have inc: "unat (x + 1) = unat x + 1" if "unat x < 8" for x :: u8
    using that by (simp add: unat_word_ariths)
  have s4: "ts_buffer s4 = buf" "unat (timesync_entry_count s4) = min 8 (length h')"
    using cnt s1 inc [of "timesync_entry_count s1"]
    by (auto simp: s4_def s3_def s2_def N h'_def n_def tsch_set_ka_timeout_def tsch_schedule_keepalive_def)
  have p4: "unat (ts_pos s4) = length h' mod 8"
  proof -
    have "ts_pos s3 = ts_pos s1"
      by (simp add: s3_def s2_def tsch_set_ka_timeout_def tsch_schedule_keepalive_def)
    then have "unat (ts_pos s4) = (p + 1) mod 8"
      using inc [of "ts_pos s1"] p8 by (simp add: s4_def unat_mod s1 N)
    then show ?thesis by (simp add: h'_def p_def n_def mod_Suc_eq)
  qed
  define total where "total = sum_list (map ((!) buf) [0..<min 8 (length h')])"
  have tot: "(\<Sum>i \<leftarrow> [0..<min 8 (length h')]. sint (buf ! i)) = sum_list (recent h')"
    using sum_window [of h' 8 "\<lambda>i. sint (buf ! i)"] nth'
    by (simp add: recent_def N sum_set_upt_conv_sum_list_nat [symmetric] atLeast_upt)
  have small: "\<bar>sum_list xs\<bar> \<le> int (length xs) * 2 ^ 27" if "\<forall>x \<in> set xs. \<bar>x\<bar> < 2 ^ 27" for xs :: "int list"
    using that by (induction xs) auto
  have "\<forall>x \<in> set (recent h'). \<bar>x\<bar> < 2 ^ 27"
    using h v set_drop_subset [of "length h' - 8" h'] by (auto simp: recent_def h'_def N)
  from small [OF this] have bound: "\<bar>sum_list (recent h')\<bar> \<le> 2 ^ 30"
    by (simp add: recent_def N)
  have total: "sint total = sum_list (recent h')"
    unfolding total_def sum_list_sint map_map comp_def tot using bound
    by (intro sint_word_of_int_u32) auto
  have "length (recent h') = unat (timesync_entry_count s4)"
    using s4(2) by (simp add: recent_def N min_def)
  then have lenr: "int (length (recent h')) = uint (timesync_entry_count s4)" by simp
  define r :: u32 where "r = word_of_int (sint total sdiv uint (timesync_entry_count s4))"
  have r: "sint r = sum_list (recent h') sdiv int (length (recent h'))"
  proof -
    have "\<bar>sum_list (recent h') sdiv uint (timesync_entry_count s4)\<bar> \<le> \<bar>sum_list (recent h')\<bar>"
      using sdiv_int_range [of "sum_list (recent h')" "uint (timesync_entry_count s4)"] by auto
    with bound show ?thesis
      unfolding r_def total lenr by (intro sint_word_of_int_u32) auto
  qed
  have set1: "arr_set (ts_buffer s1) (unat (ts_pos s1)) v = Some buf"
    using len p8 by (simp add: arr_set_def s1 buf_def)
  have loop: "ub_loop (\<lambda>i v. do { b \<leftarrow> arr_get (ts_buffer s4) i; Some (v + b) })
      [0..<unat (timesync_entry_count s4)] 0 = Some total"
    using len by (subst ub_loop_sum) (simp_all add: s4 total_def buf_def)
  have "timesync_entry_add v s = Some (r, s4)"
    unfolding timesync_entry_add_def Let_def s1_def [symmetric] set1 Option.bind_lunit
      s2_def [symmetric] s3_def [symmetric] s4_def [symmetric] loop r_def ..
  moreover have "recorded h' s4"
    using nth' len s4 p4 by (simp add: recorded_def N buf_def h'_def)
  moreover have "tsch_current_ka_timeout s4 = TSCH_MAX_KEEPALIVE_TIMEOUT" if "8 \<le> length h"
    using that cnt s1(3) by (simp add: s4_def s3_def s2_def N n_def tsch_set_ka_timeout_def tsch_schedule_keepalive_def)
  ultimately show ?thesis using r by (auto simp: h'_def N)
qed

text \<open>
  The slot length comes from the beacon that was joined (\<open>tsch_associate\<close> does not check it): with
  length zero the second synchronisation divides by it.
\<close>

theorem timesync_zero_slot:
  assumes "length (tsch_timing_us s) = 12" and "tsch_timing_us s ! 11 = 0" and "last_timesource_neighbor s = n"
  shows "tsch_timesync_update n delta drift s = None"
  using assms by (simp add: tsch_timesync_update_def TSCH_SLOTS_PER_SECOND_def arr_get_def Let_def)

definition cooja_rtimer :: rtimer_env where
  "cooja_rtimer = \<lparr>re_second = 1000000, re_us_to_ticks = id, re_ticks_to_us = id, re_ticks_to_us_64 = id\<rparr>"

lemma cooja_rtimer_ok: "rtimer_ok cooja_rtimer 0"
  by (simp add: rtimer_ok_def cooja_rtimer_def)

definition tsch_timeslot_timing_us_10000 :: "u16 list" where
  "tsch_timeslot_timing_us_10000 =
     [1800, 128, 2120, 2120 - 2200 div 2, 800, 1000, 2200, 400, 192, 2400, 4256, 10000]"

definition timesync_example :: timesync_state where
  "timesync_example = pdr_state.extend (pdr_of [])
     (timesync_state.fields tsch_timeslot_timing_us_10000 (map ucast tsch_timeslot_timing_us_10000)
       0 0 KEEPALIVE_SCHEDULING_UNCHANGED 0 False 2560 0 3 0 (Some 0)
       [256, 512, 768, 0, 0, 0, 0, 0] 3 0 0)"

lemma timesync_example_fields [simp]:
  "tsch_timing_us timesync_example = tsch_timeslot_timing_us_10000" "drift_ppm timesync_example = 2560"
  "timesync_entry_count timesync_example = 3" "last_timesource_neighbor timesync_example = Some 0"
  "ts_buffer timesync_example = [256, 512, 768, 0, 0, 0, 0, 0]" "ts_pos timesync_example = 3"
  "ts_remainder timesync_example = 0" "ts_tick_conversion_error timesync_example = 0"
  by (simp_all add: timesync_example_def pdr_state.defs timesync_state.defs)


theorem timesync_moving_average_witness:
  "\<exists>r s'. timesync_entry_add (- 512) timesync_example = Some (r, s') \<and> sint r = 256"
proof -
  have rec: "recorded [256, 512, 768] timesync_example"
    by (auto simp: recorded_def NUM_TIMESYNC_ENTRIES_def less_Suc_eq)
  have small: "\<bar>x\<bar> < 2 ^ 27" if "x \<in> set [256, 512, 768]" for x :: int
    using that by auto
  have "\<bar>sint (- 512 :: u32)\<bar> < 2 ^ 27" by simp
  from timesync_moving_average [OF rec small this] show ?thesis
    by (auto simp: recent_def NUM_TIMESYNC_ENTRIES_def)
qed

theorem timesync_zero_slot_witness:
  "tsch_timesync_update (Some 0) 10 5
     (timesync_example\<lparr>tsch_timing_us := tsch_timeslot_timing_us_10000[11 := 0]\<rparr>) = None"
  by (rule timesync_zero_slot) (simp_all add: tsch_timeslot_timing_us_10000_def)

end
