(* ===== verification/Frame802154.thy ===== *)
theory Frame802154
  imports Packetbuf
begin

section \<open>IEEE 802.15.4 frame headers\<close>

text \<open>
  Model of \<open>os/net/mac/framer/frame802154.c\<close>: the header of a MAC frame, written by
  \<open>frame802154_create\<close> and read by \<open>frame802154_parse\<close>.  The compile-time switches for the auxiliary
  security header are the argument of type \<open>llsec_conf\<close>; the thesis example builds with \<open>llsec_off\<close>.
  The variable \<open>mac_pan_id\<close> is an argument of the functions that read it.  An address array has
  eight bytes; a \<open>linkaddr_t\<close> is the word of these bytes.  The buffer is the whole array and the
  length a separate argument, as in the code: a read behind the end of the array is \<open>None\<close>.
\<close>

definition FRAME802154_BEACONFRAME :: u8 where "FRAME802154_BEACONFRAME = 0"
definition FRAME802154_ACKFRAME :: u8 where "FRAME802154_ACKFRAME = 2"
definition FRAME802154_NOADDR :: u8 where "FRAME802154_NOADDR = 0"
definition FRAME802154_SHORTADDRMODE :: u8 where "FRAME802154_SHORTADDRMODE = 2"
definition FRAME802154_LONGADDRMODE :: u8 where "FRAME802154_LONGADDRMODE = 3"
definition FRAME802154_BROADCASTPANDID :: u16 where "FRAME802154_BROADCASTPANDID = 0xffff"
definition FRAME802154_IEEE802154_2006 :: u8 where "FRAME802154_IEEE802154_2006 = 1"
definition FRAME802154_IEEE802154_2015 :: u8 where "FRAME802154_IEEE802154_2015 = 2"
definition FRAME802154_VERSION :: u8 where "FRAME802154_VERSION = FRAME802154_IEEE802154_2015"
definition FRAME802154_SUPPR_SEQNO :: u8 where "FRAME802154_SUPPR_SEQNO = 0"

lemmas frame802154_consts = FRAME802154_BEACONFRAME_def FRAME802154_ACKFRAME_def
  FRAME802154_NOADDR_def FRAME802154_SHORTADDRMODE_def FRAME802154_LONGADDRMODE_def
  FRAME802154_BROADCASTPANDID_def FRAME802154_IEEE802154_2006_def FRAME802154_IEEE802154_2015_def
  FRAME802154_VERSION_def FRAME802154_SUPPR_SEQNO_def

record llsec_conf =
  uses_aux_header :: bool
  uses_explicit_keys :: bool

definition llsec_off :: llsec_conf where
  "llsec_off = \<lparr>uses_aux_header = False, uses_explicit_keys = False\<rparr>"

record frame802154_fcf =
  frame_type :: u8
  security_enabled :: u8
  frame_pending :: u8
  ack_required :: u8
  panid_compression :: u8
  sequence_number_suppression :: u8
  ie_list_present :: u8
  dest_addr_mode :: u8
  frame_version :: u8
  src_addr_mode :: u8

record frame802154_scf =
  security_level :: u8
  key_id_mode :: u8
  frame_counter_suppression :: u8
  frame_counter_size :: u8

record frame802154_aux_hdr =
  security_control :: frame802154_scf
  frame_counter :: "u8 list"
  key_source :: "u8 list"
  key_index :: u8

record frame802154 =
  fr_dest_addr :: "u8 list"
  fr_src_addr :: "u8 list"
  fr_fcf :: frame802154_fcf
  fr_seq :: u8
  fr_dest_pid :: u16
  fr_src_pid :: u16
  fr_aux_hdr :: frame802154_aux_hdr
  fr_payload :: nat
  fr_payload_len :: int

definition frame802154_zero :: frame802154 where
  "frame802154_zero = \<lparr>fr_dest_addr = replicate 8 0, fr_src_addr = replicate 8 0,
     fr_fcf = \<lparr>frame_type = 0, security_enabled = 0, frame_pending = 0, ack_required = 0,
       panid_compression = 0, sequence_number_suppression = 0, ie_list_present = 0,
       dest_addr_mode = 0, frame_version = 0, src_addr_mode = 0\<rparr>,
     fr_seq = 0, fr_dest_pid = 0, fr_src_pid = 0,
     fr_aux_hdr = \<lparr>security_control = \<lparr>security_level = 0, key_id_mode = 0,
         frame_counter_suppression = 0, frame_counter_size = 0\<rparr>,
       frame_counter = replicate 4 0, key_source = replicate 8 0, key_index = 0\<rparr>,
     fr_payload = 0, fr_payload_len = 0\<rparr>"

record field_length =
  seqno_len :: u8
  dest_pid_len :: u8
  dest_addr_len :: u8
  src_pid_len :: u8
  src_addr_len :: u8
  aux_sec_len :: u8

subsection \<open>Link-layer addresses as bytes\<close>

definition linkaddr_bytes :: "linkaddr \<Rightarrow> u8 list" where
  "linkaddr_bytes a = map (\<lambda>i. ucast (drop_bit (8 * i) a)) [0..<8]"

definition bytes_linkaddr :: "u8 list \<Rightarrow> linkaddr" where
  "bytes_linkaddr bs = foldr (\<lambda>b a. ucast b OR push_bit 8 a) (take 8 bs) 0"

lemma length_linkaddr_bytes [simp]: "length (linkaddr_bytes a) = 8"
  by (simp add: linkaddr_bytes_def)

lemma low_byte_or: "ucast (ucast x :: u8) OR push_bit 8 (drop_bit 8 x) = (x :: 64 word)"
proof (rule bit_word_eqI)
  fix n assume "n < LENGTH(64)"
  then show "bit (ucast (ucast x :: u8) OR push_bit 8 (drop_bit 8 x)) n = bit x n"
    by (cases "n < 8") (auto simp: bit_simps)
qed

lemma bytes_linkaddr_suffix:
  "m \<le> 8 \<Longrightarrow> foldr (\<lambda>b a. ucast b OR push_bit 8 a) (map (\<lambda>i. ucast (drop_bit (8 * i) a) :: u8) [m..<8]) 0 =
     drop_bit (8 * m) (a :: 64 word)"
proof (induction m rule: inc_induct)
  case base
  have "drop_bit 64 a = 0" by (rule bit_word_eqI) (auto simp: bit_simps)
  then show ?case by simp
next
  case (step m)
  have d: "drop_bit (8 * Suc m) a = drop_bit 8 (drop_bit (8 * m) a)"
    by (simp add: drop_bit_drop_bit add.commute)
  show ?case
    using step by (simp only: upt_conv_Cons list.map foldr.simps comp_apply d low_byte_or)
qed

lemma bytes_linkaddr_bytes [simp]: "bytes_linkaddr (linkaddr_bytes a) = a"
  using bytes_linkaddr_suffix [of 0 a] by (simp add: bytes_linkaddr_def linkaddr_bytes_def)

subsection \<open>Address modes and PAN identifiers\<close>

definition addr_len :: "u8 \<Rightarrow> u8" where
  "addr_len mode =
     (if mode = FRAME802154_SHORTADDRMODE then 2 else if mode = FRAME802154_LONGADDRMODE then 8 else 0)"

definition get_key_id_len :: "u8 \<Rightarrow> u8" where
  "get_key_id_len m = (if m = 1 then 1 else if m = 2 then 5 else if m = 3 then 9 else 0)"

text \<open>The pair of \<open>has_src_pan_id\<close> and \<open>has_dest_pan_id\<close>.\<close>

definition frame802154_has_panid :: "frame802154_fcf \<Rightarrow> bool \<times> bool" where
  "frame802154_has_panid fcf =
     (let d = dest_addr_mode fcf; s = src_addr_mode fcf; c = panid_compression fcf
      in if frame_version fcf = FRAME802154_IEEE802154_2015
         then (c = 0 \<and>
                ((d = FRAME802154_NOADDR \<and> s = FRAME802154_LONGADDRMODE) \<or>
                 (d = FRAME802154_NOADDR \<and> s = FRAME802154_SHORTADDRMODE) \<or>
                 (d = FRAME802154_SHORTADDRMODE \<and> s = FRAME802154_SHORTADDRMODE) \<or>
                 (d = FRAME802154_SHORTADDRMODE \<and> s = FRAME802154_LONGADDRMODE) \<or>
                 (d = FRAME802154_LONGADDRMODE \<and> s = FRAME802154_SHORTADDRMODE)),
               (d = FRAME802154_NOADDR \<and> s = FRAME802154_NOADDR \<and> c = 1) \<or>
               (d \<noteq> FRAME802154_NOADDR \<and> s = FRAME802154_NOADDR \<and> c = 0) \<or>
               (d = FRAME802154_LONGADDRMODE \<and> s = FRAME802154_LONGADDRMODE \<and> c = 0) \<or>
               ((d = FRAME802154_SHORTADDRMODE \<and> s \<noteq> FRAME802154_NOADDR) \<or>
                (d \<noteq> FRAME802154_NOADDR \<and> s = FRAME802154_SHORTADDRMODE)))
         else if frame_type fcf \<noteq> FRAME802154_ACKFRAME
         then (c = 0 \<and> s AND 3 \<noteq> 0, d AND 3 \<noteq> 0)
         else (False, False))"

definition frame802154_check_dest_panid :: "u16 \<Rightarrow> frame802154 option \<Rightarrow> int" where
  "frame802154_check_dest_panid mac_pan_id frame =
     (case frame of
        None \<Rightarrow> 0
      | Some f \<Rightarrow>
          let has_dest_panid = snd (frame802154_has_panid (fr_fcf f))
          in if \<not> has_dest_panid \<or>
                (fr_dest_pid f \<noteq> mac_pan_id \<and> fr_dest_pid f \<noteq> FRAME802154_BROADCASTPANDID)
             then 0 else 1)"

definition frame802154_is_broadcast_addr :: "u8 \<Rightarrow> u8 list \<Rightarrow> bool" where
  "frame802154_is_broadcast_addr mode addr =
     list_all (\<lambda>i. addr ! i = 0xff) (rev [0..<if mode = FRAME802154_SHORTADDRMODE then 2 else 8])"

text \<open>
  The addresses are out-parameters: \<open>None\<close> is the null pointer and \<open>Some\<close> the value before the call.
  \<open>extract_addr\<close> is the treatment that the code repeats for the two addresses.
\<close>

definition extract_addr :: "u8 \<Rightarrow> u8 list \<Rightarrow> linkaddr option \<Rightarrow> linkaddr option option" where
  "extract_addr mode addr out =
     (let len = (if mode \<noteq> 0 then if mode = FRAME802154_SHORTADDRMODE then 2 else 8 else 0) :: nat
      in if len = 0 \<or> frame802154_is_broadcast_addr mode addr then Some (map_option (\<lambda>_. 0) out)
         else if len \<noteq> 8 then None
         else Some (map_option (\<lambda>_. bytes_linkaddr addr) out))"

definition frame802154_extract_linkaddr ::
  "frame802154 option \<Rightarrow> linkaddr option \<Rightarrow> linkaddr option \<Rightarrow> int \<times> linkaddr option \<times> linkaddr option" where
  "frame802154_extract_linkaddr frame source_address dest_address =
     (case frame of
        None \<Rightarrow> (0, source_address, dest_address)
      | Some f \<Rightarrow>
          (case extract_addr (src_addr_mode (fr_fcf f)) (fr_src_addr f) source_address of
             None \<Rightarrow> (0, source_address, dest_address)
           | Some src \<Rightarrow>
               (case extract_addr (dest_addr_mode (fr_fcf f)) (fr_dest_addr f) dest_address of
                  None \<Rightarrow> (0, src, dest_address)
                | Some dest \<Rightarrow> (1, src, dest))))"

subsection \<open>Writing a header\<close>

text \<open>The compression bit, which \<open>field_len\<close> computes for the frame versions before 2015.\<close>

definition set_panid_compression :: "frame802154 \<Rightarrow> frame802154_fcf" where
  "set_panid_compression p =
     (let f = fr_fcf p
      in if frame_version f < FRAME802154_IEEE802154_2015
         then f\<lparr>panid_compression :=
           if dest_addr_mode f AND 3 \<noteq> 0 \<and> src_addr_mode f AND 3 \<noteq> 0 \<and> fr_src_pid p = fr_dest_pid p
           then 1 else 0\<rparr>
         else f)"

text \<open>
  The lengths of the fields.  \<open>field_len\<close> also sets the compression bit of an old frame, so the frame
  is returned, too.
\<close>

definition field_len :: "llsec_conf \<Rightarrow> frame802154 \<Rightarrow> frame802154 \<times> field_length" where
  "field_len cfg p =
     (let f = set_panid_compression p;
          (has_src_panid, has_dest_panid) = frame802154_has_panid f;
          sc = security_control (fr_aux_hdr p)
      in (p\<lparr>fr_fcf := f\<rparr>,
          \<lparr>seqno_len = (if sequence_number_suppression f AND 1 = 0 then 1 else 0),
           dest_pid_len = (if has_dest_panid then 2 else 0),
           dest_addr_len = addr_len (dest_addr_mode f AND 3),
           src_pid_len = (if has_src_panid then 2 else 0),
           src_addr_len = addr_len (src_addr_mode f AND 3),
           aux_sec_len =
             (if uses_aux_header cfg \<and> security_enabled f AND 1 \<noteq> 0
              then 1 + (if frame_counter_suppression sc = 0
                        then if frame_counter_size sc = 1 then 5 else 4 else 0) +
                   (if uses_explicit_keys cfg then get_key_id_len (key_id_mode sc) else 0)
              else 0)\<rparr>))"

definition frame802154_hdrlen :: "llsec_conf \<Rightarrow> frame802154 \<Rightarrow> nat \<times> frame802154" where
  "frame802154_hdrlen cfg p =
     (let (p1, flen) = field_len cfg p
      in (2 + unat (seqno_len flen) + unat (dest_pid_len flen) + unat (dest_addr_len flen) +
          unat (src_pid_len flen) + unat (src_addr_len flen) + unat (aux_sec_len flen), p1))"

definition fcf_bytes :: "frame802154_fcf \<Rightarrow> u8 list" where
  "fcf_bytes fcf =
     [(frame_type fcf AND 7) OR push_bit 3 (security_enabled fcf AND 1) OR
        push_bit 4 (frame_pending fcf AND 1) OR push_bit 5 (ack_required fcf AND 1) OR
        push_bit 6 (panid_compression fcf AND 1),
      (sequence_number_suppression fcf AND 1) OR push_bit 1 (ie_list_present fcf AND 1) OR
        push_bit 2 (dest_addr_mode fcf AND 3) OR push_bit 4 (frame_version fcf AND 3) OR
        push_bit 6 (src_addr_mode fcf AND 3)]"

definition frame802154_create_fcf :: "frame802154_fcf \<Rightarrow> u8 list \<Rightarrow> u8 list ub" where
  "frame802154_create_fcf fcf buf = mem_write buf 0 (fcf_bytes fcf)"

text \<open>\<open>buf[pos++] = ...\<close>\<close>

definition emit :: "u8 list \<Rightarrow> nat \<times> u8 list \<Rightarrow> (nat \<times> u8 list) ub" where
  "emit bs pb = (case pb of (pos, buf) \<Rightarrow> map_option (\<lambda>b. (pos + length bs, b)) (mem_write buf pos bs))"

definition create_aux_hdr :: "llsec_conf \<Rightarrow> frame802154_aux_hdr \<Rightarrow> nat \<times> u8 list \<Rightarrow> (nat \<times> u8 list) ub" where
  "create_aux_hdr cfg h pb0 =
     (let sc = security_control h
      in do {
        pb1 \<leftarrow> emit [security_level sc OR (if uses_explicit_keys cfg then push_bit 3 (key_id_mode sc) else 0) OR
                   push_bit 5 (frame_counter_suppression sc) OR push_bit 6 (frame_counter_size sc)] pb0;
        pb2 \<leftarrow> (if frame_counter_suppression sc = 0
               then do {
                 fc \<leftarrow> mem_read (frame_counter h) 0 4;
                 (pos, buf) \<leftarrow> emit fc pb1;
                 Some (if frame_counter_size sc = 1 then pos + 1 else pos, buf)
               }
               else Some pb1);
        (if uses_explicit_keys cfg \<and> key_id_mode sc \<noteq> 0
         then do {
           ks \<leftarrow> mem_read (key_source h) 0 ((unat (key_id_mode sc) - 1) * 4);
           pb3 \<leftarrow> emit ks pb2;
           emit [key_index h] pb3
         }
         else Some pb2)
      })"

definition frame802154_create :: "llsec_conf \<Rightarrow> frame802154 \<Rightarrow> u8 list \<Rightarrow> (int \<times> u8 list \<times> frame802154) ub" where
  "frame802154_create cfg p0 buf =
     (let (p, flen) = field_len cfg p0
      in do {
        buf1 \<leftarrow> frame802154_create_fcf (fr_fcf p) buf;
        pb2 \<leftarrow> (if seqno_len flen = 1 then emit [fr_seq p] (2, buf1) else Some (2, buf1));
        pb3 \<leftarrow> (if dest_pid_len flen = 2 then emit (le16 (fr_dest_pid p)) pb2 else Some pb2);
        da \<leftarrow> mem_read (fr_dest_addr p) 0 (unat (dest_addr_len flen));
        pb4 \<leftarrow> emit (rev da) pb3;
        pb5 \<leftarrow> (if src_pid_len flen = 2 then emit (le16 (fr_src_pid p)) pb4 else Some pb4);
        sa \<leftarrow> mem_read (fr_src_addr p) 0 (unat (src_addr_len flen));
        pb6 \<leftarrow> emit (rev sa) pb5;
        (pos, buf7) \<leftarrow> (if uses_aux_header cfg \<and> aux_sec_len flen \<noteq> 0
                       then create_aux_hdr cfg (fr_aux_hdr p) pb6 else Some pb6);
        Some (int pos, buf7, p)
      })"

subsection \<open>Reading a header\<close>

definition frame802154_parse_fcf :: "u8 list \<Rightarrow> frame802154_fcf ub" where
  "frame802154_parse_fcf data = do {
     d \<leftarrow> mem_read data 0 2;
     Some \<lparr>frame_type = d ! 0 AND 7, security_enabled = drop_bit 3 (d ! 0) AND 1,
       frame_pending = drop_bit 4 (d ! 0) AND 1, ack_required = drop_bit 5 (d ! 0) AND 1,
       panid_compression = drop_bit 6 (d ! 0) AND 1,
       sequence_number_suppression = d ! 1 AND 1, ie_list_present = drop_bit 1 (d ! 1) AND 1,
       dest_addr_mode = drop_bit 2 (d ! 1) AND 3, frame_version = drop_bit 4 (d ! 1) AND 3,
       src_addr_mode = drop_bit 6 (d ! 1) AND 3\<rparr>
   }"

text \<open>
  An address of the given mode at position \<open>p\<close>, with the new position: bytes in reversed order; a
  short one is padded with zeros, and for the reserved mode 1 the array keeps its value.
\<close>

definition parse_addr :: "u8 \<Rightarrow> u8 list \<Rightarrow> nat \<Rightarrow> u8 list \<Rightarrow> (u8 list \<times> nat) ub" where
  "parse_addr mode data p old =
     (if mode = FRAME802154_SHORTADDRMODE
      then do { a \<leftarrow> mem_read data p 2; Some (rev a @ replicate 6 0, p + 2) }
      else if mode = FRAME802154_LONGADDRMODE
      then do { a \<leftarrow> mem_read data p 8; Some (rev a, p + 8) }
      else Some (old, p))"

definition parse_dest :: "frame802154_fcf \<Rightarrow> u8 list \<Rightarrow> nat \<times> frame802154 \<Rightarrow> (nat \<times> frame802154) ub" where
  "parse_dest fcf data ppf =
     (case ppf of (p, pf) \<Rightarrow>
        if dest_addr_mode fcf \<noteq> 0
        then do {
          (p1, pf1) \<leftarrow> (if snd (frame802154_has_panid fcf)
             then do { b \<leftarrow> mem_read data p 2; Some (p + 2, pf\<lparr>fr_dest_pid := un_le16 b\<rparr>) }
             else Some (p, pf\<lparr>fr_dest_pid := 0\<rparr>));
          (a, p2) \<leftarrow> parse_addr (dest_addr_mode fcf) data p1 (fr_dest_addr pf1);
          Some (p2, pf1\<lparr>fr_dest_addr := a\<rparr>)
        }
        else Some (p, pf\<lparr>fr_dest_addr := replicate 8 0, fr_dest_pid := 0\<rparr>))"

definition parse_src :: "frame802154_fcf \<Rightarrow> u8 list \<Rightarrow> nat \<times> frame802154 \<Rightarrow> (nat \<times> frame802154) ub" where
  "parse_src fcf data ppf =
     (case ppf of (p, pf) \<Rightarrow>
        if src_addr_mode fcf \<noteq> 0
        then do {
          (p1, pf1) \<leftarrow> (if fst (frame802154_has_panid fcf)
             then do {
               b \<leftarrow> mem_read data p 2;
               Some (p + 2, pf\<lparr>fr_src_pid := un_le16 b,
                 fr_dest_pid := if snd (frame802154_has_panid fcf) then fr_dest_pid pf else un_le16 b\<rparr>)
             }
             else Some (p, pf\<lparr>fr_src_pid := fr_dest_pid pf\<rparr>));
          (a, p2) \<leftarrow> parse_addr (src_addr_mode fcf) data p1 (fr_src_addr pf1);
          Some (p2, pf1\<lparr>fr_src_addr := a\<rparr>)
        }
        else Some (p, pf\<lparr>fr_src_addr := replicate 8 0, fr_src_pid := 0\<rparr>))"

text \<open>The auxiliary security header; \<open>memcpy\<close> overwrites the first bytes of its destination.\<close>

definition parse_aux_hdr :: "llsec_conf \<Rightarrow> u8 list \<Rightarrow> nat \<Rightarrow> frame802154_aux_hdr \<Rightarrow> (nat \<times> frame802154_aux_hdr) ub" where
  "parse_aux_hdr cfg data p h = do {
     b \<leftarrow> mem_read data p 1;
     let sc = (security_control h)\<lparr>security_level := hd b AND 7,
       key_id_mode := if uses_explicit_keys cfg then drop_bit 3 (hd b) AND 3 else key_id_mode (security_control h),
       frame_counter_suppression := drop_bit 5 (hd b), frame_counter_size := drop_bit 6 (hd b)\<rparr>;
     (p2, h2) \<leftarrow> (if frame_counter_suppression sc = 0
        then do {
          c \<leftarrow> mem_read data (p + 1) 4;
          fc \<leftarrow> mem_write (frame_counter h) 0 c;
          Some (if frame_counter_size sc = 1 then p + 6 else p + 5,
            h\<lparr>security_control := sc, frame_counter := fc\<rparr>)
        }
        else Some (p + 1, h\<lparr>security_control := sc\<rparr>));
     (if uses_explicit_keys cfg \<and> key_id_mode sc \<noteq> 0
      then do {
        let c = (unat (key_id_mode sc) - 1) * 4;
        k \<leftarrow> mem_read data p2 c;
        ks \<leftarrow> mem_write (key_source h2) 0 k;
        i \<leftarrow> mem_read data (p2 + c) 1;
        Some (p2 + c + 1, h2\<lparr>key_source := ks, key_index := hd i\<rparr>)
      }
      else Some (p2, h2))
   }"

definition frame802154_parse :: "llsec_conf \<Rightarrow> u8 list \<Rightarrow> int \<Rightarrow> frame802154 \<Rightarrow> (int \<times> frame802154) ub" where
  "frame802154_parse cfg data len pf0 =
     (if len < 2 then Some (0, pf0)
      else do {
        fcf \<leftarrow> frame802154_parse_fcf data;
        let pf1 = pf0\<lparr>fr_fcf := fcf\<rparr>;
        ppf2 \<leftarrow> (if sequence_number_suppression fcf = 0
                then do { b \<leftarrow> mem_read data 2 1; Some (3, pf1\<lparr>fr_seq := hd b\<rparr>) }
                else Some (2, pf1));
        ppf3 \<leftarrow> parse_dest fcf data ppf2;
        (p4, pf4) \<leftarrow> parse_src fcf data ppf3;
        (p5, pf5) \<leftarrow> (if uses_aux_header cfg \<and> security_enabled fcf \<noteq> 0
           then do { (p, h) \<leftarrow> parse_aux_hdr cfg data p4 (fr_aux_hdr pf4); Some (p, pf4\<lparr>fr_aux_hdr := h\<rparr>) }
           else Some (p4, pf4));
        Some (if len < int p5 then 0 else int p5,
          pf5\<lparr>fr_payload_len := len - int p5, fr_payload := p5\<rparr>)
      })"

subsection \<open>The header as a byte sequence\<close>

text \<open>Field values that fit their bits, and arrays of the sizes of the C declarations.\<close>

definition fcf_ok :: "frame802154_fcf \<Rightarrow> bool" where
  "fcf_ok f \<longleftrightarrow> frame_type f < 8 \<and> security_enabled f < 2 \<and> frame_pending f < 2 \<and> ack_required f < 2 \<and>
     panid_compression f < 2 \<and> sequence_number_suppression f < 2 \<and> ie_list_present f < 2 \<and>
     dest_addr_mode f < 4 \<and> frame_version f < 4 \<and> src_addr_mode f < 4"

lemma mask_numerals: "(1 :: u8) = mask 1" "(3 :: u8) = mask 2" "(7 :: u8) = mask 3"
  by (simp_all add: mask_eq_exp_minus_1)

lemma fits_mask: "(x :: u8) < 2 \<Longrightarrow> x AND 1 = x" "(x :: u8) < 4 \<Longrightarrow> x AND 3 = x" "(x :: u8) < 8 \<Longrightarrow> x AND 7 = x"
  using less_mask_eq [of x 1] less_mask_eq [of x 2] less_mask_eq [of x 3]
  by (simp_all add: mask_eq_exp_minus_1)

lemma fcf_ok_masks:
  assumes "fcf_ok f"
  shows "frame_type f AND 7 = frame_type f" "security_enabled f AND 1 = security_enabled f"
    "frame_pending f AND 1 = frame_pending f" "ack_required f AND 1 = ack_required f"
    "panid_compression f AND 1 = panid_compression f"
    "sequence_number_suppression f AND 1 = sequence_number_suppression f"
    "ie_list_present f AND 1 = ie_list_present f" "dest_addr_mode f AND 3 = dest_addr_mode f"
    "frame_version f AND 3 = frame_version f" "src_addr_mode f AND 3 = src_addr_mode f"
  using assms by (auto simp only: fcf_ok_def intro!: fits_mask)

lemma fcf_byte0:
  fixes a b c d e :: u8
  defines "x \<equiv> (a AND 7) OR push_bit 3 (b AND 1) OR push_bit 4 (c AND 1) OR push_bit 5 (d AND 1) OR push_bit 6 (e AND 1)"
  shows "x AND 7 = a AND 7" "drop_bit 3 x AND 1 = b AND 1" "drop_bit 4 x AND 1 = c AND 1"
    "drop_bit 5 x AND 1 = d AND 1" "drop_bit 6 x AND 1 = e AND 1"
  unfolding x_def mask_numerals by (rule bit_word_eqI; auto simp: bit_simps)+

lemma fcf_byte1:
  fixes a b c d e :: u8
  defines "x \<equiv> (a AND 1) OR push_bit 1 (b AND 1) OR push_bit 2 (c AND 3) OR push_bit 4 (d AND 3) OR push_bit 6 (e AND 3)"
  shows "x AND 1 = a AND 1" "drop_bit 1 x AND 1 = b AND 1" "drop_bit 2 x AND 3 = c AND 3"
    "drop_bit 4 x AND 3 = d AND 3" "drop_bit 6 x AND 3 = e AND 3"
  unfolding x_def mask_numerals by (rule bit_word_eqI; auto simp: bit_simps simp del: push_bit_Suc)+

lemma parse_create_fcf:
  assumes "fcf_ok f"
  shows "frame802154_parse_fcf (fcf_bytes f @ rest) = Some f"
proof -
  have r: "mem_read (fcf_bytes f @ rest) 0 2 = Some (fcf_bytes f)"
    by (simp add: mem_read_def fcf_bytes_def)
  have nth: "[x, y] ! 0 = x" "[x, y] ! 1 = y" for x y :: u8 by simp_all
  show ?thesis
    unfolding frame802154_parse_fcf_def r unfolding fcf_bytes_def
    by (simp only: Option.bind.simps nth fcf_byte0 fcf_byte1) (simp add: fcf_ok_masks [OF assms])
qed

text \<open>The buffer and the position after the bytes \<open>h\<close> were written to its beginning.\<close>

definition wrote :: "u8 list \<Rightarrow> u8 list \<Rightarrow> nat \<times> u8 list" where
  "wrote h buf = (length h, h @ drop (length h) buf)"

lemma emit_wrote:
  "length h + length bs \<le> length buf \<Longrightarrow> emit bs (wrote h buf) = Some (wrote (h @ bs) buf)"
  by (simp add: emit_def wrote_def mem_write_def add.commute)

lemma mem_read_at: "n = length bs \<Longrightarrow> p = length pre \<Longrightarrow> mem_read (pre @ bs @ rest) p n = Some bs"
  by (simp add: mem_read_def)

definition aux_counter :: "frame802154_aux_hdr \<Rightarrow> u8 list" where
  "aux_counter h = (if frame_counter_suppression (security_control h) = 0 then frame_counter h else [])"

definition aux_key :: "llsec_conf \<Rightarrow> frame802154_aux_hdr \<Rightarrow> u8 list" where
  "aux_key cfg h =
     (let m = key_id_mode (security_control h)
      in if uses_explicit_keys cfg \<and> m \<noteq> 0 then take ((unat m - 1) * 4) (key_source h) @ [key_index h] else [])"

definition aux_control :: "llsec_conf \<Rightarrow> frame802154_scf \<Rightarrow> u8" where
  "aux_control cfg sc = security_level sc OR (if uses_explicit_keys cfg then push_bit 3 (key_id_mode sc) else 0) OR
     push_bit 5 (frame_counter_suppression sc) OR push_bit 6 (frame_counter_size sc)"

definition aux_on :: "llsec_conf \<Rightarrow> frame802154 \<Rightarrow> bool" where
  "aux_on cfg p \<longleftrightarrow> uses_aux_header cfg \<and> security_enabled (fr_fcf p) \<noteq> 0"

text \<open>The two parts of a header: the addressing fields and the auxiliary header.\<close>

definition addr_field :: "u8 \<Rightarrow> u8 list \<Rightarrow> u8 list" where
  "addr_field mode a = rev (take (unat (addr_len mode)) a)"

definition mac_fields :: "frame802154 \<Rightarrow> u8 list list" where
  "mac_fields p =
     (let f = fr_fcf p; (hs, hdd) = frame802154_has_panid f
      in [fcf_bytes f, (if sequence_number_suppression f = 0 then [fr_seq p] else []),
          (if hdd then le16 (fr_dest_pid p) else []), addr_field (dest_addr_mode f) (fr_dest_addr p),
          (if hs then le16 (fr_src_pid p) else []), addr_field (src_addr_mode f) (fr_src_addr p)])"

definition frame_header :: "llsec_conf \<Rightarrow> frame802154 \<Rightarrow> u8 list" where
  "frame_header cfg p = concat (mac_fields p) @
     (if aux_on cfg p
      then [aux_control cfg (security_control (fr_aux_hdr p))] @ aux_counter (fr_aux_hdr p) @ aux_key cfg (fr_aux_hdr p)
      else [])"

definition aux_ok :: "frame802154_aux_hdr \<Rightarrow> bool" where
  "aux_ok h \<longleftrightarrow> length (frame_counter h) = 4 \<and> length (key_source h) = 8 \<and>
     security_level (security_control h) < 8 \<and> key_id_mode (security_control h) < 4 \<and>
     frame_counter_suppression (security_control h) < 2 \<and> frame_counter_size (security_control h) = 0"

definition frame_ok :: "llsec_conf \<Rightarrow> frame802154 \<Rightarrow> bool" where
  "frame_ok cfg p \<longleftrightarrow> fcf_ok (fr_fcf p) \<and> length (fr_dest_addr p) = 8 \<and> length (fr_src_addr p) = 8 \<and>
     (aux_on cfg p \<longrightarrow> aux_ok (fr_aux_hdr p))"

lemma addr_len_le: "unat (addr_len m) \<le> 8"
  by (simp add: addr_len_def)

lemma length_addr_field [simp]: "length a = 8 \<Longrightarrow> length (addr_field m a) = unat (addr_len m)"
  using addr_len_le [of m] by (simp add: addr_field_def)

lemma key_id_cases: "(m :: u8) < 4 \<Longrightarrow> m = 0 \<or> m = 1 \<or> m = 2 \<or> m = 3"
  by (simp add: word_less_nat_alt word_unat_eq_iff) arith

lemma bit_cases: "(m :: u8) < 2 \<Longrightarrow> m = 0 \<or> m = 1"
  by (simp add: word_less_nat_alt word_unat_eq_iff) arith

lemma create_aux_hdr_wrote:
  assumes ok: "aux_ok h"
    and room: "length pre + length (aux_control cfg (security_control h) # aux_counter h @ aux_key cfg h) \<le> length buf"
  shows "create_aux_hdr cfg h (wrote pre buf) =
    Some (wrote (pre @ aux_control cfg (security_control h) # aux_counter h @ aux_key cfg h) buf)"
proof -
  have sz: "frame_counter_size (security_control h) = 0" and l: "length (frame_counter h) = 4" "length (key_source h) = 8"
    and m: "key_id_mode (security_control h) < 4"
    using ok by (auto simp: aux_ok_def)
  have ks: "(unat (key_id_mode (security_control h)) - 1) * 4 \<le> 8"
    using key_id_cases [OF m] by auto
  have split: "(case wrote x buf of (pos, buf') \<Rightarrow> Some (pos, buf')) = Some (wrote x buf)" for x
    by (simp add: wrote_def)
  show ?thesis
    using room l ks sz
    unfolding create_aux_hdr_def aux_control_def aux_counter_def aux_key_def Let_def
    by (auto simp: emit_wrote mem_read_def split)
qed

lemma field_len_fr:
  assumes "field_len cfg p0 = (p, fl)"
  shows "fr_fcf p = set_panid_compression p0" and "fr_aux_hdr p = fr_aux_hdr p0"
  using assms by (auto simp: field_len_def Let_def split_beta)

lemma field_len_raw:
  assumes p: "field_len cfg p0 = (p, fl)"
  shows "seqno_len fl = (if sequence_number_suppression (fr_fcf p) AND 1 = 0 then 1 else 0)"
    "dest_pid_len fl = (if snd (frame802154_has_panid (fr_fcf p)) then 2 else 0)"
    "src_pid_len fl = (if fst (frame802154_has_panid (fr_fcf p)) then 2 else 0)"
    "dest_addr_len fl = addr_len (dest_addr_mode (fr_fcf p) AND 3)"
    "src_addr_len fl = addr_len (src_addr_mode (fr_fcf p) AND 3)"
    "aux_sec_len fl = (let sc = security_control (fr_aux_hdr p) in
             if uses_aux_header cfg \<and> security_enabled (fr_fcf p) AND 1 \<noteq> 0
              then 1 + (if frame_counter_suppression sc = 0
                        then if frame_counter_size sc = 1 then 5 else 4 else 0) +
                   (if uses_explicit_keys cfg then get_key_id_len (key_id_mode sc) else 0)
              else 0)"
proof -
  have "fl = snd (field_len cfg p0)" using p by simp
  note fl = this [unfolded field_len_def Let_def split_beta snd_conv]
  show "seqno_len fl = (if sequence_number_suppression (fr_fcf p) AND 1 = 0 then 1 else 0)"
    "dest_pid_len fl = (if snd (frame802154_has_panid (fr_fcf p)) then 2 else 0)"
    "src_pid_len fl = (if fst (frame802154_has_panid (fr_fcf p)) then 2 else 0)"
    "dest_addr_len fl = addr_len (dest_addr_mode (fr_fcf p) AND 3)"
    "src_addr_len fl = addr_len (src_addr_mode (fr_fcf p) AND 3)"
    "aux_sec_len fl = (let sc = security_control (fr_aux_hdr p) in
             if uses_aux_header cfg \<and> security_enabled (fr_fcf p) AND 1 \<noteq> 0
              then 1 + (if frame_counter_suppression sc = 0
                        then if frame_counter_size sc = 1 then 5 else 4 else 0) +
                   (if uses_explicit_keys cfg then get_key_id_len (key_id_mode sc) else 0)
              else 0)"
    unfolding fl field_len_fr [OF p] Let_def by (simp_all only: field_length.simps)
qed

lemma length_aux_key:
  assumes "aux_ok h"
  shows "of_nat (length (aux_key cfg h)) = (if uses_explicit_keys cfg then get_key_id_len (key_id_mode (security_control h)) else 0)"
proof -
  have "key_id_mode (security_control h) < 4" and "length (key_source h) = 8" using assms by (auto simp: aux_ok_def)
  then show ?thesis using key_id_cases [of "key_id_mode (security_control h)"]
    by (auto simp: aux_key_def get_key_id_len_def)
qed

lemma field_len_fields:
  assumes p: "field_len cfg p0 = (p, fl)" and ok: "frame_ok cfg p"
  shows "seqno_len fl = (if sequence_number_suppression (fr_fcf p) = 0 then 1 else 0)"
    and "dest_pid_len fl = (if snd (frame802154_has_panid (fr_fcf p)) then 2 else 0)"
    and "src_pid_len fl = (if fst (frame802154_has_panid (fr_fcf p)) then 2 else 0)"
    and "dest_addr_len fl = addr_len (dest_addr_mode (fr_fcf p))"
    and "src_addr_len fl = addr_len (src_addr_mode (fr_fcf p))"
    and "aux_sec_len fl = (if aux_on cfg p then of_nat (Suc (length (aux_counter (fr_aux_hdr p)) + length (aux_key cfg (fr_aux_hdr p)))) else 0)"
proof -
  have f: "fcf_ok (fr_fcf p)" and a: "aux_on cfg p \<Longrightarrow> aux_ok (fr_aux_hdr p)"
    using ok by (auto simp: frame_ok_def)
  note fl = field_len_raw [OF p, unfolded fcf_ok_masks [OF f]]
  show "aux_sec_len fl = (if aux_on cfg p then of_nat (Suc (length (aux_counter (fr_aux_hdr p)) + length (aux_key cfg (fr_aux_hdr p)))) else 0)"
  proof (cases "aux_on cfg p")
    case True
    with a have ok: "aux_ok (fr_aux_hdr p)" by simp
    then have "frame_counter_suppression (security_control (fr_aux_hdr p)) = 0 \<Longrightarrow> length (frame_counter (fr_aux_hdr p)) = 4"
      "frame_counter_size (security_control (fr_aux_hdr p)) = 0" by (auto simp: aux_ok_def)
    with True show ?thesis
      by (simp only: fl(6) aux_on_def Let_def length_aux_key [OF ok] of_nat_Suc of_nat_add aux_counter_def) simp
  qed (auto simp: fl(6) aux_on_def Let_def)
qed (rule field_len_raw [OF p, unfolded fcf_ok_masks [OF conjunct1 [OF ok [unfolded frame_ok_def]]]])+

lemma aux_sec_len_nz:
  assumes "field_len cfg p0 = (p, fl)" and "frame_ok cfg p"
  shows "(uses_aux_header cfg \<and> aux_sec_len fl \<noteq> 0) = aux_on cfg p"
proof -
  have "aux_ok h \<Longrightarrow> length (aux_counter h) \<le> 4 \<and> length (aux_key cfg h) \<le> 9" for h
    using key_id_cases [of "key_id_mode (security_control h)"] by (auto simp: aux_ok_def aux_counter_def aux_key_def Let_def)
  then have "aux_on cfg p \<Longrightarrow> length (aux_counter (fr_aux_hdr p)) \<le> 4 \<and> length (aux_key cfg (fr_aux_hdr p)) \<le> 9"
    using assms(2) by (auto simp: frame_ok_def)
  then have "aux_on cfg p \<Longrightarrow> (of_nat (Suc (length (aux_counter (fr_aux_hdr p)) + length (aux_key cfg (fr_aux_hdr p)))) :: u8) \<noteq> 0"
    by (simp only: word_unat_eq_iff unat_of_nat) simp
  then show ?thesis using field_len_fields(6) [OF assms] by (auto simp: aux_on_def)
qed

lemma frame802154_create_wrote:
  assumes p: "field_len cfg p0 = (p, fl)" and ok: "frame_ok cfg p"
    and room: "length (frame_header cfg p) \<le> length buf"
  shows "frame802154_create cfg p0 buf =
    Some (int (length (frame_header cfg p)), frame_header cfg p @ drop (length (frame_header cfg p)) buf, p)"
proof -
  have l: "length (fr_dest_addr p) = 8" "length (fr_src_addr p) = 8" using ok by (auto simp: frame_ok_def)
  have aux: "aux_on cfg p \<Longrightarrow> aux_ok (fr_aux_hdr p)" using ok by (auto simp: frame_ok_def)
  let ?F = "mac_fields p"
  have first: "frame802154_create_fcf (fr_fcf p) buf = Some (snd (wrote (fcf_bytes (fr_fcf p)) buf))"
    "(2, snd (wrote (fcf_bytes (fr_fcf p)) buf)) = wrote (fcf_bytes (fr_fcf p)) buf"
    using room by (auto simp: frame802154_create_fcf_def wrote_def mem_write_def frame_header_def mac_fields_def
        fcf_bytes_def Let_def split: prod.splits)
  have rd: "mem_read (fr_dest_addr p) 0 (unat (addr_len m)) = Some (take (unat (addr_len m)) (fr_dest_addr p))"
    "mem_read (fr_src_addr p) 0 (unat (addr_len m)) = Some (take (unat (addr_len m)) (fr_src_addr p))" for m
    using l addr_len_le [of m] by (simp_all add: mem_read_def)
  have split: "(case wrote x b of (pos, buf') \<Rightarrow> Some (int pos, buf', p)) = Some (int (length x), x @ drop (length x) b, p)" for x b
    by (simp add: wrote_def)
  note fields = field_len_fields [OF p ok]
  have nz: "aux_sec_len fl \<noteq> 0 \<longleftrightarrow> aux_on cfg p" "aux_on cfg p \<Longrightarrow> uses_aux_header cfg"
    using aux_sec_len_nz [OF p ok] fields(6) by (auto simp: aux_on_def)
  show ?thesis
    using room l aux
    unfolding frame802154_create_def p Let_def prod.case first(1) Option.bind.simps fields(1-5) rd
    by (auto simp: emit_wrote create_aux_hdr_wrote split first(2) frame_header_def mac_fields_def nz
        addr_field_def [symmetric] Let_def split_beta) (simp_all add: wrote_def)
qed

lemma frame802154_hdrlen_header:
  assumes p: "field_len cfg p0 = (p, fl)" and ok: "frame_ok cfg p"
  shows "frame802154_hdrlen cfg p0 = (length (frame_header cfg p), p)"
proof -
  have l: "length (fr_dest_addr p) = 8" "length (fr_src_addr p) = 8" using ok by (auto simp: frame_ok_def)
  have "aux_on cfg p \<Longrightarrow> length (aux_counter (fr_aux_hdr p)) + length (aux_key cfg (fr_aux_hdr p)) \<le> 13"
    using ok key_id_cases [of "key_id_mode (security_control (fr_aux_hdr p))"]
    by (auto simp: frame_ok_def aux_ok_def aux_counter_def aux_key_def Let_def)
  then have a: "aux_on cfg p \<Longrightarrow> unat (of_nat (Suc (length (aux_counter (fr_aux_hdr p)) + length (aux_key cfg (fr_aux_hdr p)))) :: u8) =
      Suc (length (aux_counter (fr_aux_hdr p)) + length (aux_key cfg (fr_aux_hdr p)))"
    by (simp only: unat_of_nat) simp
  have f: "length (fcf_bytes f) = 2" for f by (simp add: fcf_bytes_def)
  show ?thesis
    using l a unfolding frame802154_hdrlen_def p Let_def prod.case field_len_fields [OF p ok]
    by (auto simp: frame_header_def mac_fields_def Let_def split_beta f simp del: of_nat_Suc of_nat_add)
qed

subsection \<open>Reading back\<close>

text \<open>The address array after an address was read; a short one is padded.\<close>

definition read_addr :: "u8 \<Rightarrow> u8 list \<Rightarrow> u8 list \<Rightarrow> u8 list" where
  "read_addr mode a old =
     (if mode = FRAME802154_SHORTADDRMODE then take 2 a @ replicate 6 0
      else if mode = FRAME802154_LONGADDRMODE then a else old)"

lemma parse_addr_field:
  assumes "length a = 8" and "q = length pre"
  shows "parse_addr mode (pre @ addr_field mode a @ rest) q old =
    Some (read_addr mode a old, q + length (addr_field mode a))"
  using assms
  by (auto simp: parse_addr_def addr_field_def addr_len_def read_addr_def mem_read_at frame802154_consts)

definition dest_bytes :: "frame802154 \<Rightarrow> u8 list" where
  "dest_bytes p = (if snd (frame802154_has_panid (fr_fcf p)) then le16 (fr_dest_pid p) else []) @
     addr_field (dest_addr_mode (fr_fcf p)) (fr_dest_addr p)"

definition src_bytes :: "frame802154 \<Rightarrow> u8 list" where
  "src_bytes p = (if fst (frame802154_has_panid (fr_fcf p)) then le16 (fr_src_pid p) else []) @
     addr_field (src_addr_mode (fr_fcf p)) (fr_src_addr p)"

definition read_dest :: "frame802154 \<Rightarrow> frame802154 \<Rightarrow> frame802154" where
  "read_dest p pf = (let m = dest_addr_mode (fr_fcf p) in
     pf\<lparr>fr_dest_addr := if m = 0 then replicate 8 0 else read_addr m (fr_dest_addr p) (fr_dest_addr pf),
        fr_dest_pid := if m \<noteq> 0 \<and> snd (frame802154_has_panid (fr_fcf p)) then fr_dest_pid p else 0\<rparr>)"

definition read_src :: "frame802154 \<Rightarrow> frame802154 \<Rightarrow> frame802154" where
  "read_src p pf = (let m = src_addr_mode (fr_fcf p); hs = fst (frame802154_has_panid (fr_fcf p));
       hdd = snd (frame802154_has_panid (fr_fcf p)) in
     pf\<lparr>fr_src_addr := if m = 0 then replicate 8 0 else read_addr m (fr_src_addr p) (fr_src_addr pf),
        fr_src_pid := if m = 0 then 0 else if hs then fr_src_pid p else fr_dest_pid pf,
        fr_dest_pid := if m \<noteq> 0 \<and> hs \<and> \<not> hdd then fr_src_pid p else fr_dest_pid pf\<rparr>)"

text \<open>A PAN identifier is written next to the address it belongs to.\<close>

definition panid_ok :: "frame802154_fcf \<Rightarrow> bool" where
  "panid_ok f \<longleftrightarrow> (dest_addr_mode f = 0 \<longrightarrow> \<not> snd (frame802154_has_panid f))"

lemma has_src_panid_addr:
  "fst (frame802154_has_panid f) \<Longrightarrow> src_addr_mode f \<noteq> 0"
  by (auto simp: frame802154_has_panid_def Let_def frame802154_consts split: if_splits)

lemma length_addr_field_0 [simp]: "addr_field 0 a = []"
  by (simp add: addr_field_def addr_len_def frame802154_consts)

lemma parse_dest_bytes:
  assumes a: "length (fr_dest_addr p) = 8" and q: "q = length pre" and ok: "panid_ok (fr_fcf p)"
  shows "parse_dest (fr_fcf p) (pre @ dest_bytes p @ rest) (q, pf) = Some (q + length (dest_bytes p), read_dest p pf)"
proof (cases "dest_addr_mode (fr_fcf p) = 0")
  case True
  then show ?thesis using ok by (simp add: parse_dest_def dest_bytes_def read_dest_def panid_ok_def)
next
  case False
  let ?A = "addr_field (dest_addr_mode (fr_fcf p)) (fr_dest_addr p)"
  have "parse_addr (dest_addr_mode (fr_fcf p)) ((pre @ le16 v) @ ?A @ rest) (q + 2) old =
      Some (read_addr (dest_addr_mode (fr_fcf p)) (fr_dest_addr p) old, q + 2 + length ?A)" for v old
    by (rule parse_addr_field [OF a]) (simp add: q)
  then show ?thesis
    using False parse_addr_field [OF a q]
    by (simp add: parse_dest_def dest_bytes_def read_dest_def mem_read_at q a)
qed

lemma parse_src_bytes:
  assumes a: "length (fr_src_addr p) = 8" and q: "q = length pre"
  shows "parse_src (fr_fcf p) (pre @ src_bytes p @ rest) (q, pf) = Some (q + length (src_bytes p), read_src p pf)"
proof (cases "src_addr_mode (fr_fcf p) = 0")
  case True
  then show ?thesis using has_src_panid_addr [of "fr_fcf p"] by (auto simp: parse_src_def src_bytes_def read_src_def)
next
  case False
  let ?A = "addr_field (src_addr_mode (fr_fcf p)) (fr_src_addr p)"
  have "parse_addr (src_addr_mode (fr_fcf p)) ((pre @ le16 v) @ ?A @ rest) (q + 2) old =
      Some (read_addr (src_addr_mode (fr_fcf p)) (fr_src_addr p) old, q + 2 + length ?A)" for v old
    by (rule parse_addr_field [OF a]) (simp add: q)
  then show ?thesis
    using False parse_addr_field [OF a q]
    by (simp add: parse_src_def src_bytes_def read_src_def mem_read_at q a Let_def)
qed

lemma aux_control_bits:
  fixes a b c :: u8
  defines "x \<equiv> (a AND 7) OR push_bit 3 (b AND 3) OR push_bit 5 (c AND 1)"
  shows "x AND 7 = a AND 7" "drop_bit 3 x AND 3 = b AND 3" "drop_bit 5 x = c AND 1" "drop_bit 6 x = 0"
  unfolding x_def mask_numerals by (rule bit_word_eqI; auto simp: bit_simps)+

definition read_aux :: "llsec_conf \<Rightarrow> frame802154_aux_hdr \<Rightarrow> frame802154_aux_hdr \<Rightarrow> frame802154_aux_hdr" where
  "read_aux cfg h old =
     (let sc = security_control h; keys = uses_explicit_keys cfg; c = (unat (key_id_mode sc) - 1) * 4
      in old\<lparr>security_control := (security_control old)\<lparr>security_level := security_level sc,
             key_id_mode := if keys then key_id_mode sc else key_id_mode (security_control old),
             frame_counter_suppression := frame_counter_suppression sc, frame_counter_size := 0\<rparr>,
           frame_counter := if frame_counter_suppression sc = 0 then frame_counter h else frame_counter old,
           key_source := if keys \<and> key_id_mode sc \<noteq> 0 then take c (key_source h) @ drop c (key_source old) else key_source old,
           key_index := if keys \<and> key_id_mode sc \<noteq> 0 then key_index h else key_index old\<rparr>)"

lemma aux_control_fields:
  fixes cfg :: llsec_conf
  assumes "aux_ok h"
  defines "x \<equiv> aux_control cfg (security_control h)"
  shows "x AND 7 = security_level (security_control h)"
    and "uses_explicit_keys cfg \<Longrightarrow> drop_bit 3 x AND 3 = key_id_mode (security_control h)"
    and "drop_bit 5 x = frame_counter_suppression (security_control h)" and "drop_bit 6 x = 0"
proof -
  let ?sc = "security_control h" and ?k = "if uses_explicit_keys cfg then key_id_mode (security_control h) else 0"
  have m: "security_level ?sc AND 7 = security_level ?sc" "?k AND 3 = ?k"
    "frame_counter_suppression ?sc AND 1 = frame_counter_suppression ?sc"
    using assms(1) by (auto simp: aux_ok_def fits_mask)
  have x: "x = security_level ?sc AND 7 OR push_bit 3 (?k AND 3) OR push_bit 5 (frame_counter_suppression ?sc AND 1)"
    unfolding m x_def using assms(1) by (simp add: aux_control_def aux_ok_def)
  note b = aux_control_bits [of "security_level ?sc" ?k "frame_counter_suppression ?sc", folded x, unfolded m]
  from b show "x AND 7 = security_level ?sc" "drop_bit 5 x = frame_counter_suppression ?sc" "drop_bit 6 x = 0"
    by simp_all
  assume "uses_explicit_keys cfg" with b(2) show "drop_bit 3 x AND 3 = key_id_mode ?sc" by simp
qed

lemma parse_aux_bytes:
  fixes cfg :: llsec_conf
  assumes ok: "aux_ok h" and old: "length (frame_counter old) = 4" "length (key_source old) = 8" and q: "q = length pre"
  defines "bs \<equiv> aux_control cfg (security_control h) # aux_counter h @ aux_key cfg h"
  shows "parse_aux_hdr cfg (pre @ bs @ rest) q old = Some (q + length bs, read_aux cfg h old)"
proof -
  let ?x = "aux_control cfg (security_control h)" and ?c = "(unat (key_id_mode (security_control h)) - 1) * 4"
  have l: "length (frame_counter h) = 4" "length (key_source h) = 8" "key_id_mode (security_control h) < 4"
    using ok by (auto simp: aux_ok_def)
  then have c: "?c \<le> 8" using key_id_cases [of "key_id_mode (security_control h)"] by auto
  note f = aux_control_fields [OF ok, of cfg]
  have r1: "mem_read (pre @ bs @ rest) q 1 = Some [?x]"
    using mem_read_at [of 1 "[?x]" q pre "aux_counter h @ aux_key cfg h @ rest"] by (simp add: bs_def q)
  have r2: "mem_read (pre @ bs @ rest) (q + 1) 4 = Some (frame_counter h)" if "frame_counter_suppression (security_control h) = 0"
    using that l mem_read_at [of 4 "frame_counter h" "q + 1" "pre @ [?x]" "aux_key cfg h @ rest"]
    by (simp add: bs_def aux_counter_def q)
  have r3: "mem_read (pre @ bs @ rest) (q + 1 + length (aux_counter h)) ?c = Some (take ?c (key_source h))"
    "mem_read (pre @ bs @ rest) (q + 1 + length (aux_counter h) + ?c) 1 = Some [key_index h]"
    if "uses_explicit_keys cfg" "key_id_mode (security_control h) \<noteq> 0"
    using that l c mem_read_at [of ?c "take ?c (key_source h)" "q + 1 + length (aux_counter h)" "pre @ ?x # aux_counter h" "key_index h # rest"]
      mem_read_at [of 1 "[key_index h]" "q + 1 + length (aux_counter h) + ?c" "pre @ ?x # aux_counter h @ take ?c (key_source h)" rest]
    by (simp_all add: bs_def aux_key_def q Let_def min_def)
  have w: "mem_write (frame_counter old) 0 (frame_counter h) = Some (frame_counter h)"
    "mem_write (key_source old) 0 (take ?c (key_source h)) = Some (take ?c (key_source h) @ drop ?c (key_source old))"
    using l old c by (simp_all add: mem_write_def min_def)
  obtain n where n: "?c = n" by simp
  have k: "length (aux_key cfg h) = (if uses_explicit_keys cfg \<and> key_id_mode (security_control h) \<noteq> 0 then Suc n else 0)"
    and cl: "length (aux_counter h) = (if frame_counter_suppression (security_control h) = 0 then 4 else 0)"
    using l c n by (auto simp: aux_key_def aux_counter_def Let_def)
  show ?thesis
    using r2 r3 w(1) w(2) [unfolded n]
    unfolding parse_aux_hdr_def r1
    by (auto simp: f Let_def read_aux_def n [simplified] k cl add.commute add.left_commute add.assoc) (auto simp: bs_def k cl)
qed

definition read_seq :: "frame802154 \<Rightarrow> frame802154 \<Rightarrow> frame802154" where
  "read_seq p pf = pf\<lparr>fr_fcf := fr_fcf p,
     fr_seq := if sequence_number_suppression (fr_fcf p) = 0 then fr_seq p else fr_seq pf\<rparr>"

definition read_frame :: "llsec_conf \<Rightarrow> frame802154 \<Rightarrow> frame802154 \<Rightarrow> frame802154" where
  "read_frame cfg p pf =
     (let pf1 = read_src p (read_dest p (read_seq p pf))
      in pf1\<lparr>fr_aux_hdr := if aux_on cfg p then read_aux cfg (fr_aux_hdr p) (fr_aux_hdr pf1) else fr_aux_hdr pf1\<rparr>)"

lemma read_keeps_aux [simp]: "fr_aux_hdr (read_src p pf) = fr_aux_hdr pf" "fr_aux_hdr (read_dest p pf) = fr_aux_hdr pf"
    "fr_aux_hdr (read_seq p pf) = fr_aux_hdr pf" "fr_fcf (read_src p pf) = fr_fcf pf" "fr_fcf (read_dest p pf) = fr_fcf pf"
  by (simp_all add: read_src_def read_dest_def read_seq_def Let_def)

lemma frame_header_split:
  "frame_header cfg p = fcf_bytes (fr_fcf p) @ (if sequence_number_suppression (fr_fcf p) = 0 then [fr_seq p] else []) @
     dest_bytes p @ src_bytes p @
     (if aux_on cfg p then aux_control cfg (security_control (fr_aux_hdr p)) # aux_counter (fr_aux_hdr p) @ aux_key cfg (fr_aux_hdr p) else [])"
  by (simp add: frame_header_def mac_fields_def dest_bytes_def src_bytes_def Let_def split_beta)

lemma frame802154_parse_header:
  assumes ok: "frame_ok cfg p" and pan: "panid_ok (fr_fcf p)" and len: "int (length (frame_header cfg p)) \<le> len"
    and old: "aux_on cfg p \<Longrightarrow> length (frame_counter (fr_aux_hdr pf)) = 4"
      "aux_on cfg p \<Longrightarrow> length (key_source (fr_aux_hdr pf)) = 8"
  defines "n \<equiv> length (frame_header cfg p)"
  shows "frame802154_parse cfg (frame_header cfg p @ rest) len pf =
    Some (int n, (read_frame cfg p pf)\<lparr>fr_payload_len := len - int n, fr_payload := n\<rparr>)"
proof -
  let ?f = "fr_fcf p"
  let ?h = "fcf_bytes ?f" and ?s = "if sequence_number_suppression ?f = 0 then [fr_seq p] else []"
    and ?d = "dest_bytes p" and ?c = "src_bytes p"
    and ?a = "if aux_on cfg p then aux_control cfg (security_control (fr_aux_hdr p)) # aux_counter (fr_aux_hdr p) @ aux_key cfg (fr_aux_hdr p) else []"
  have l: "length (fr_dest_addr p) = 8" "length (fr_src_addr p) = 8" "fcf_ok ?f" and aux: "aux_on cfg p \<Longrightarrow> aux_ok (fr_aux_hdr p)"
    using ok by (auto simp: frame_ok_def)
  have h2: "length ?h = 2" by (simp add: fcf_bytes_def)
  have hdr: "frame_header cfg p = ?h @ ?s @ ?d @ ?c @ ?a" by (rule frame_header_split)
  have len2: "\<not> len < 2" using len h2 unfolding hdr by simp
  have fcf: "frame802154_parse_fcf (frame_header cfg p @ rest) = Some ?f"
    unfolding hdr append_assoc by (rule parse_create_fcf [OF l(3)])
  have seq: "mem_read (frame_header cfg p @ rest) 2 1 = Some [fr_seq p]" if "sequence_number_suppression ?f = 0"
    using that mem_read_at [of 1 "[fr_seq p]" 2 ?h "?d @ ?c @ ?a @ rest"] by (simp add: hdr h2)
  have dest: "parse_dest ?f (frame_header cfg p @ rest) (length (?h @ ?s), pf1) =
      Some (length (?h @ ?s @ ?d), read_dest p pf1)" for pf1
    using parse_dest_bytes [OF l(1) refl pan, of "?h @ ?s" "?c @ ?a @ rest" pf1] by (simp add: hdr add.commute add.left_commute)
  have src: "parse_src ?f (frame_header cfg p @ rest) (length (?h @ ?s @ ?d), pf1) =
      Some (length (?h @ ?s @ ?d @ ?c), read_src p pf1)" for pf1
    using parse_src_bytes [OF l(2) refl, of "?h @ ?s @ ?d" "?a @ rest" pf1] by (simp add: hdr add.commute add.left_commute)
  have a: "parse_aux_hdr cfg (frame_header cfg p @ rest) (length (?h @ ?s @ ?d @ ?c)) (fr_aux_hdr pf) =
      Some (n, read_aux cfg (fr_aux_hdr p) (fr_aux_hdr pf))" if "aux_on cfg p"
    using that parse_aux_bytes [OF aux [OF that] old [OF that] refl, of cfg "?h @ ?s @ ?d @ ?c" rest]
    by (simp add: hdr n_def add.commute add.left_commute)
  have q: "(if sequence_number_suppression ?f = 0
       then do { b \<leftarrow> mem_read (frame_header cfg p @ rest) 2 1; Some (3, pf\<lparr>fr_fcf := ?f, fr_seq := hd b\<rparr>) }
       else Some (2, pf\<lparr>fr_fcf := ?f\<rparr>)) = Some (length (?h @ ?s), read_seq p pf)"
    using seq by (simp add: h2 read_seq_def)
  have n: "n = length (?h @ ?s @ ?d @ ?c)" if "\<not> aux_on cfg p"
    using that by (simp add: n_def hdr)
  have nl: "\<not> len < int n" using len by (simp add: n_def)
  show ?thesis
  proof (cases "aux_on cfg p")
    case True
    then have c: "uses_aux_header cfg \<and> security_enabled ?f \<noteq> 0" by (simp add: aux_on_def)
    show ?thesis
      unfolding frame802154_parse_def fcf Let_def
      by (simp only: Option.bind.simps len2 if_False q dest src prod.case c if_True read_keeps_aux simp_thms a [OF True])
        (simp add: nl read_frame_def True)
  next
    case False
    then have c: "\<not> (uses_aux_header cfg \<and> security_enabled ?f \<noteq> 0)" by (simp add: aux_on_def)
    show ?thesis
      unfolding frame802154_parse_def fcf Let_def
      by (simp only: Option.bind.simps len2 if_False q dest src prod.case c n [OF False, symmetric])
        (simp add: nl read_frame_def False)
  qed
qed

subsection \<open>Round trip\<close>

lemma read_frame_fields:
  "fr_fcf (read_frame cfg p pf) = fr_fcf p"
  "sequence_number_suppression (fr_fcf p) = 0 \<Longrightarrow> fr_seq (read_frame cfg p pf) = fr_seq p"
  "dest_addr_mode (fr_fcf p) = FRAME802154_LONGADDRMODE \<Longrightarrow> fr_dest_addr (read_frame cfg p pf) = fr_dest_addr p"
  "dest_addr_mode (fr_fcf p) = FRAME802154_SHORTADDRMODE \<Longrightarrow>
     fr_dest_addr (read_frame cfg p pf) = take 2 (fr_dest_addr p) @ replicate 6 0"
  "dest_addr_mode (fr_fcf p) = FRAME802154_NOADDR \<Longrightarrow> fr_dest_addr (read_frame cfg p pf) = replicate 8 0"
  "src_addr_mode (fr_fcf p) = FRAME802154_LONGADDRMODE \<Longrightarrow> fr_src_addr (read_frame cfg p pf) = fr_src_addr p"
  "src_addr_mode (fr_fcf p) = FRAME802154_SHORTADDRMODE \<Longrightarrow>
     fr_src_addr (read_frame cfg p pf) = take 2 (fr_src_addr p) @ replicate 6 0"
  "src_addr_mode (fr_fcf p) = FRAME802154_NOADDR \<Longrightarrow> fr_src_addr (read_frame cfg p pf) = replicate 8 0"
  "panid_ok (fr_fcf p) \<Longrightarrow> snd (frame802154_has_panid (fr_fcf p)) \<Longrightarrow> fr_dest_pid (read_frame cfg p pf) = fr_dest_pid p"
  "fst (frame802154_has_panid (fr_fcf p)) \<Longrightarrow> fr_src_pid (read_frame cfg p pf) = fr_src_pid p"
  using has_src_panid_addr [of "fr_fcf p"]
  by (auto simp: read_frame_def read_src_def read_dest_def read_seq_def read_addr_def panid_ok_def Let_def frame802154_consts)

lemma read_frame_aux: "aux_on cfg p \<Longrightarrow> fr_aux_hdr (read_frame cfg p pf) = read_aux cfg (fr_aux_hdr p) (fr_aux_hdr pf)"
  "\<not> aux_on cfg p \<Longrightarrow> fr_aux_hdr (read_frame cfg p pf) = fr_aux_hdr pf"
  by (simp_all add: read_frame_def Let_def)

lemma field_len_fst: "field_len cfg p = (p\<lparr>fr_fcf := set_panid_compression p\<rparr>, snd (field_len cfg p))"
  by (simp add: field_len_def Let_def split_beta)

text \<open>
  a frame header is read back as it was written.  For a frame whose fields have the widths of
  the standard, with a 4-byte frame counter, and whose destination PAN identifier is not sent
  without a destination address, the parser accepts the bytes that \<open>frame802154_create\<close> has put at the
  beginning of the buffer, finds the payload behind them, and recovers the frame control field,
  the sequence number, the PAN identifiers, the addresses and the auxiliary security header, in
  every configuration of the latter.
\<close>

theorem frame802154_roundtrip:
  fixes cfg :: llsec_conf and p pf :: frame802154
  defines "q \<equiv> p\<lparr>fr_fcf := set_panid_compression p\<rparr>" and "n \<equiv> fst (frame802154_hdrlen cfg p)"
  assumes ok: "frame_ok cfg q" and pan: "panid_ok (fr_fcf q)" and buf: "n \<le> length buf" and len: "int n \<le> len"
    and pf: "aux_on cfg q \<Longrightarrow> length (frame_counter (fr_aux_hdr pf)) = 4"
      "aux_on cfg q \<Longrightarrow> length (key_source (fr_aux_hdr pf)) = 8"
  shows "\<exists>buf' r. frame802154_create cfg p buf = Some (int n, buf', q) \<and> drop n buf' = drop n buf \<and>
    frame802154_parse cfg buf' len pf = Some (int n, r) \<and> fr_payload r = n \<and> fr_payload_len r = len - int n \<and>
    fr_fcf r = fr_fcf q \<and>
    (sequence_number_suppression (fr_fcf q) = 0 \<longrightarrow> fr_seq r = fr_seq p) \<and>
    (snd (frame802154_has_panid (fr_fcf q)) \<longrightarrow> fr_dest_pid r = fr_dest_pid p) \<and>
    (fst (frame802154_has_panid (fr_fcf q)) \<longrightarrow> fr_src_pid r = fr_src_pid p) \<and>
    (dest_addr_mode (fr_fcf q) = FRAME802154_LONGADDRMODE \<longrightarrow> fr_dest_addr r = fr_dest_addr p) \<and>
    (dest_addr_mode (fr_fcf q) = FRAME802154_SHORTADDRMODE \<longrightarrow> take 2 (fr_dest_addr r) = take 2 (fr_dest_addr p)) \<and>
    (src_addr_mode (fr_fcf q) = FRAME802154_LONGADDRMODE \<longrightarrow> fr_src_addr r = fr_src_addr p) \<and>
    (src_addr_mode (fr_fcf q) = FRAME802154_SHORTADDRMODE \<longrightarrow> take 2 (fr_src_addr r) = take 2 (fr_src_addr p)) \<and>
    fr_aux_hdr r = (if aux_on cfg q then read_aux cfg (fr_aux_hdr p) (fr_aux_hdr pf) else fr_aux_hdr pf)"
proof -
  have fl: "field_len cfg p = (q, snd (field_len cfg p))" using field_len_fst [of cfg p] by (simp add: q_def)
  have n: "n = length (frame_header cfg q)" using frame802154_hdrlen_header [OF fl ok] by (simp add: n_def)
  have l: "length (fr_dest_addr p) = 8" "length (fr_src_addr p) = 8" using ok by (auto simp: frame_ok_def q_def)
  have pq: "fr_dest_pid q = fr_dest_pid p" "fr_src_pid q = fr_src_pid p" "fr_seq q = fr_seq p"
    "fr_dest_addr q = fr_dest_addr p" "fr_src_addr q = fr_src_addr p" "fr_aux_hdr q = fr_aux_hdr p"
    by (simp_all add: q_def)
  note c = frame802154_create_wrote [OF fl ok buf [unfolded n]]
  note r = frame802154_parse_header [OF ok pan len [unfolded n] pf, of "drop n buf"]
  note f = read_frame_fields [where cfg = cfg and p = q and pf = pf, unfolded pq]
  show ?thesis
    by (rule exI [of _ "frame_header cfg q @ drop n buf"],
        rule exI [of _ "(read_frame cfg q pf)\<lparr>fr_payload_len := len - int n, fr_payload := n\<rparr>"])
      (use c r in \<open>auto simp: n [symmetric] f pan l read_frame_aux pq\<close>)
qed

definition frame_example :: frame802154 where
  "frame_example = frame802154_zero
     \<lparr>fr_fcf := \<lparr>frame_type = 1, security_enabled = 1, frame_pending = 0, ack_required = 1, panid_compression = 0,
        sequence_number_suppression = 0, ie_list_present = 1, dest_addr_mode = 3, frame_version = 2, src_addr_mode = 3\<rparr>,
      fr_seq := 7, fr_dest_pid := 0xabcd, fr_src_pid := 0xabcd, fr_dest_addr := [1, 2, 3, 4, 5, 6, 7, 8],
      fr_src_addr := [9, 8, 7, 6, 5, 4, 3, 2],
      fr_aux_hdr := \<lparr>security_control = \<lparr>security_level = 5, key_id_mode = 1, frame_counter_suppression = 0, frame_counter_size = 0\<rparr>,
        frame_counter = [1, 0, 0, 0], key_source = replicate 8 0, key_index = 3\<rparr>\<rparr>"

theorem frame802154_roundtrip_witness:
  "\<exists>buf r. frame802154_create \<lparr>uses_aux_header = True, uses_explicit_keys = True\<rparr> frame_example (replicate 128 0) =
      Some (27, buf, frame_example) \<and>
    frame802154_parse \<lparr>uses_aux_header = True, uses_explicit_keys = True\<rparr> buf 60 frame802154_zero = Some (27, r) \<and>
    fr_src_addr r = fr_src_addr frame_example \<and> key_index (fr_aux_hdr r) = 3"
proof -
  let ?c = "\<lparr>uses_aux_header = True, uses_explicit_keys = True\<rparr>" and ?p = frame_example
  have q: "?p\<lparr>fr_fcf := set_panid_compression ?p\<rparr> = ?p"
    by (simp add: set_panid_compression_def frame_example_def frame802154_zero_def frame802154_consts Let_def)
  have n: "fst (frame802154_hdrlen ?c ?p) = 27"
    by (simp add: frame802154_hdrlen_def field_len_def set_panid_compression_def frame_example_def frame802154_zero_def
        frame802154_consts Let_def frame802154_has_panid_def addr_len_def get_key_id_len_def)
  have ok: "frame_ok ?c ?p" "panid_ok (fr_fcf ?p)" "aux_on ?c ?p"
    by (simp_all add: frame_ok_def fcf_ok_def aux_on_def aux_ok_def panid_ok_def frame_example_def frame802154_zero_def)
  have z: "length (frame_counter (fr_aux_hdr frame802154_zero)) = 4" "length (key_source (fr_aux_hdr frame802154_zero)) = 8"
    by (simp_all add: frame802154_zero_def)
  have m: "src_addr_mode (fr_fcf ?p) = FRAME802154_LONGADDRMODE"
    by (simp add: frame_example_def frame802154_consts)
  have k: "key_index (read_aux ?c (fr_aux_hdr ?p) x) = 3" for x
    by (simp add: read_aux_def frame_example_def Let_def)
  have "27 \<le> length (replicate 128 (0 :: u8))" "int 27 \<le> 60" by simp_all
  from frame802154_roundtrip [of ?c ?p "replicate 128 0" 60 frame802154_zero, unfolded q n, OF ok(1,2) this z]
  obtain buf r where "frame802154_create ?c ?p (replicate 128 0) = Some (int 27, buf, ?p)"
    "frame802154_parse ?c buf 60 frame802154_zero = Some (int 27, r)"
    "fr_src_addr r = fr_src_addr ?p" "fr_aux_hdr r = read_aux ?c (fr_aux_hdr ?p) (fr_aux_hdr frame802154_zero)"
    using m ok(3) by auto
  then show ?thesis using k by (intro exI [of _ buf] exI [of _ r]) simp
qed

text \<open>
  A frame counter of five bytes is not read back: the parser does not mask the suppression bit, so
  the size bit above it makes the counter count as suppressed, and the bytes of the counter are
  taken for what follows.
\<close>

theorem frame_counter_size_misread:
  assumes h: "length (frame_counter h) = 4" "security_level (security_control h) < 8"
      "frame_counter_suppression (security_control h) = 0" "frame_counter_size (security_control h) = 1"
    and cfg: "\<not> uses_explicit_keys cfg" and buf: "6 \<le> length buf"
  shows "\<exists>buf' r. create_aux_hdr cfg h (0, buf) = Some (6, buf') \<and>
    parse_aux_hdr cfg buf' 0 old = Some (1, r) \<and> frame_counter r = frame_counter old \<and>
    frame_counter_suppression (security_control r) = 2"
proof -
  let ?x = "security_level (security_control h) OR push_bit 6 1"
  have m: "security_level (security_control h) = security_level (security_control h) AND 7"
    using h(2) by (simp add: fits_mask)
  have x: "drop_bit 5 ?x = 2"
    by (subst m) (unfold mask_numerals, rule bit_word_eqI, auto simp: bit_simps)
  have c: "create_aux_hdr cfg h (0, buf) = Some (6, ?x # frame_counter h @ drop 5 buf)"
    using h(1) buf by (simp add: create_aux_hdr_def emit_def mem_write_def mem_read_def h(3,4) cfg Let_def)
  have p: "parse_aux_hdr cfg (b # rest) 0 old =
      Some (1, old\<lparr>security_control := (security_control old)\<lparr>security_level := b AND 7,
        frame_counter_suppression := 2, frame_counter_size := drop_bit 6 b\<rparr>\<rparr>)" if "drop_bit 5 b = 2" for b rest
    using that cfg unfolding parse_aux_hdr_def by (simp add: mem_read_def Let_def)
  show ?thesis unfolding c
    by (rule exI, rule exI, rule conjI, rule refl, rule conjI, rule p [OF x]) simp
qed

end
