(* ===== verification/Framer802154.thy ===== *)
theory Framer802154
  imports Frame802154 Queuebuf
begin

section \<open>The framer\<close>

text \<open>
  Model of \<open>os/net/mac/framer/framer-802154.c\<close>: between the attributes and addresses of the packet
  buffer and the header of a frame.  The file is modelled without link-layer security, as the
  example builds it.  The uninitialised local variable \<open>frame\<close> of the parser is the argument \<open>junk\<close>, the
  variable \<open>mac_pan_id\<close> is an argument.  The last part is the trip of a packet from the buffer of
  one node to the buffer of another.
\<close>

definition framer_802154_setup_params ::
  "u16 \<Rightarrow> (packetbuf_attr_id \<Rightarrow> u16) \<Rightarrow> bool \<Rightarrow> frame802154 \<Rightarrow> frame802154" where
  "framer_802154_setup_params mac_pan_id get_attr dest_is_broadcast params =
     (let src_mode = (if get_attr PACKETBUF_ATTR_MAC_NO_SRC_ADDR = 1 then FRAME802154_NOADDR
                      else FRAME802154_LONGADDRMODE);
          dest_mode = (if get_attr PACKETBUF_ATTR_MAC_NO_DEST_ADDR = 1 then FRAME802154_NOADDR
                       else if dest_is_broadcast then FRAME802154_SHORTADDRMODE
                       else FRAME802154_LONGADDRMODE)
      in params\<lparr>
           fr_fcf := \<lparr>frame_type = ucast (get_attr PACKETBUF_ATTR_FRAME_TYPE), security_enabled = 0, frame_pending = 0,
             ack_required = (if dest_is_broadcast then 0 else ucast (get_attr PACKETBUF_ATTR_MAC_ACK)),
             panid_compression = (if src_mode = FRAME802154_SHORTADDRMODE \<or> dest_mode = FRAME802154_SHORTADDRMODE then 1 else 0),
             sequence_number_suppression =
               (if dest_is_broadcast then if FRAME802154_IEEE802154_2015 \<le> FRAME802154_VERSION then 1 else 0
                else FRAME802154_SUPPR_SEQNO),
             ie_list_present = ucast (get_attr PACKETBUF_ATTR_MAC_METADATA),
             dest_addr_mode = dest_mode, frame_version = FRAME802154_VERSION, src_addr_mode = src_mode\<rparr>,
           fr_seq := ucast (get_attr PACKETBUF_ATTR_MAC_SEQNO),
           fr_src_pid := mac_pan_id, fr_dest_pid := mac_pan_id\<rparr>)"

text \<open>
  The parameters of the frame; \<open>payload\<close> and \<open>payload_len\<close> are set but not used by \<open>frame802154_create\<close>.
\<close>

definition create_frame_params :: "u16 \<Rightarrow> 'a packetbuf_state_scheme \<Rightarrow> frame802154" where
  "create_frame_params mac_pan_id s =
     (let params = framer_802154_setup_params mac_pan_id (\<lambda>t. packetbuf_attr t s) (packetbuf_holds_broadcast s)
                     frame802154_zero;
          params1 = (if packetbuf_holds_broadcast s
                     then params\<lparr>fr_dest_addr := [0xff, 0xff] @ drop 2 (fr_dest_addr params)\<rparr>
                     else params\<lparr>fr_dest_addr := linkaddr_bytes (packetbuf_addr PACKETBUF_ADDR_RECEIVER s)\<rparr>)
      in params1\<lparr>fr_src_addr := linkaddr_bytes (packetbuf_addr PACKETBUF_ADDR_SENDER s),
                 fr_payload := packetbuf_dataptr s, fr_payload_len := uint (packetbuf_datalen s)\<rparr>)"

definition create_frame ::
  "u16 \<Rightarrow> bool \<Rightarrow> 'a packetbuf_state_scheme \<Rightarrow> (int \<times> 'a packetbuf_state_scheme) ub" where
  "create_frame mac_pan_id do_create s =
     (if mac_pan_id = 0xffff then Some (-1, s)
      else let (hdr_len, params) = frame802154_hdrlen llsec_off (create_frame_params mac_pan_id s)
           in if \<not> do_create then Some (int hdr_len, s)
              else do {
                (r, s1) \<leftarrow> packetbuf_hdralloc hdr_len s;
                (if r \<noteq> 0
                 then do {
                   (n, m, p) \<leftarrow> frame802154_create llsec_off params (drop (packetbuf_hdrptr s1) (pb_mem s1));
                   Some (int hdr_len, s1\<lparr>pb_mem := take (packetbuf_hdrptr s1) (pb_mem s1) @ m\<rparr>)
                 }
                 else Some (-1, s1))
              })"

definition hdr_length :: "u16 \<Rightarrow> 'a packetbuf_state_scheme \<Rightarrow> (int \<times> 'a packetbuf_state_scheme) ub" where
  "hdr_length mac_pan_id s = create_frame mac_pan_id False s"

definition framer_create :: "u16 \<Rightarrow> 'a packetbuf_state_scheme \<Rightarrow> (int \<times> 'a packetbuf_state_scheme) ub" where
  "framer_create mac_pan_id s = create_frame mac_pan_id True s"

definition framer_parse ::
  "u16 \<Rightarrow> frame802154 \<Rightarrow> 'a packetbuf_state_scheme \<Rightarrow> (int \<times> 'a packetbuf_state_scheme) ub" where
  "framer_parse mac_pan_id junk s = do {
     (hdr_len, frame) \<leftarrow> frame802154_parse llsec_off (drop (packetbuf_dataptr s) (pb_mem s))
                          (uint (packetbuf_datalen s)) junk;
     (if hdr_len = 0 then Some (-1, s)
      else let (r, s1) = packetbuf_hdrreduce (nat hdr_len) s
      in if r = 0 then Some (-1, s1)
      else let f = fr_fcf frame;
               s2 = packetbuf_set_attr PACKETBUF_ATTR_MAC_ACK (ucast (ack_required f))
                      (packetbuf_set_attr PACKETBUF_ATTR_FRAME_TYPE (ucast (frame_type f)) s1)
           in if dest_addr_mode f \<noteq> 0 \<and>
                 fr_dest_pid frame \<noteq> mac_pan_id \<and> fr_dest_pid frame \<noteq> FRAME802154_BROADCASTPANDID
              then Some (-1, s2)
              else let s3 = (if dest_addr_mode f \<noteq> 0 \<and>
                                \<not> frame802154_is_broadcast_addr (dest_addr_mode f) (fr_dest_addr frame)
                             then packetbuf_set_addr PACKETBUF_ADDR_RECEIVER (bytes_linkaddr (fr_dest_addr frame)) s2
                             else s2);
                       s4 = packetbuf_set_addr PACKETBUF_ADDR_SENDER (bytes_linkaddr (fr_src_addr frame)) s3
                   in Some (hdr_len, packetbuf_set_attr PACKETBUF_ATTR_MAC_SEQNO
                        (if sequence_number_suppression f = 0 then ucast (fr_seq frame) else 0xffff) s4))
   }"

subsection \<open>From buffer to buffer\<close>

lemma ucast_fits: "(x :: u16) < 256 \<Longrightarrow> ucast (ucast x :: u8) = x" 
  by (simp add: word_less_nat_alt word_unat_eq_iff unsigned_ucast_eq take_bit_eq_mod unat_mod)

lemma ucast_less: "(x :: u16) < of_nat n \<Longrightarrow> n < 256 \<Longrightarrow> (ucast x :: u8) < of_nat n"
  by (simp add: word_less_nat_alt unsigned_ucast_eq take_bit_eq_mod unat_of_nat)

text \<open>The attributes that the framer puts into the header fit their fields.\<close>

definition attrs_ok :: "'a packetbuf_state_scheme \<Rightarrow> bool" where
  "attrs_ok s \<longleftrightarrow> pb_attrs s PACKETBUF_ATTR_FRAME_TYPE < 8 \<and> pb_attrs s PACKETBUF_ATTR_MAC_ACK < 2 \<and>
     pb_attrs s PACKETBUF_ATTR_MAC_METADATA < 2 \<and> pb_attrs s PACKETBUF_ATTR_MAC_NO_SRC_ADDR \<noteq> 1 \<and>
     pb_attrs s PACKETBUF_ATTR_MAC_NO_DEST_ADDR \<noteq> 1"

definition frame_hdrlen :: "'a packetbuf_state_scheme \<Rightarrow> nat" where
  "frame_hdrlen s = (if packetbuf_holds_broadcast s then 14 else 21)"

lemma create_frame_params_fcf:
  assumes "attrs_ok s"
  shows "fcf_ok (fr_fcf (create_frame_params pan s))"
    and "set_panid_compression (create_frame_params pan s) = fr_fcf (create_frame_params pan s)"
    and "length (fr_dest_addr (create_frame_params pan s)) = 8" and "length (fr_src_addr (create_frame_params pan s)) = 8"
  using assms ucast_less [of _ 8] ucast_less [of _ 2]
  by (auto simp: attrs_ok_def fcf_ok_def create_frame_params_def framer_802154_setup_params_def Let_def packetbuf_attr_def
      frame802154_consts set_panid_compression_def frame802154_zero_def)

lemma create_frame_params_panid:
  fixes pan :: u16
  assumes "attrs_ok s"
  defines "f \<equiv> fr_fcf (create_frame_params pan s)"
  shows "frame802154_has_panid f = (False, True)" and "panid_ok f"
    and "dest_addr_mode f = (if packetbuf_holds_broadcast s then 2 else 3)" and "src_addr_mode f = 3"
    and "sequence_number_suppression f = (if packetbuf_holds_broadcast s then 1 else 0)"
    and "security_enabled f = 0"
  using assms(1)
  by (auto simp: f_def attrs_ok_def create_frame_params_def framer_802154_setup_params_def Let_def packetbuf_attr_def
      frame802154_consts frame802154_has_panid_def panid_ok_def)

lemma create_frame_params_ok:
  fixes pan :: u16
  assumes "attrs_ok s"
  defines "p \<equiv> create_frame_params pan s"
  shows "frame_ok llsec_off p" and "\<not> aux_on llsec_off p" and "length (frame_header llsec_off p) = frame_hdrlen s"
    and "field_len llsec_off p = (p, snd (field_len llsec_off p))"
proof -
  note f = create_frame_params_fcf [OF assms(1), of pan, folded p_def]
  note g = create_frame_params_panid [OF assms(1), of pan, folded p_def]
  show off: "\<not> aux_on llsec_off p" by (simp add: aux_on_def llsec_off_def)
  then show ok: "frame_ok llsec_off p" using f by (simp add: frame_ok_def)
  have "length (fcf_bytes (fr_fcf p)) = 2" by (simp add: fcf_bytes_def)
  then show "length (frame_header llsec_off p) = frame_hdrlen s"
    using off f g
    by (auto simp: frame_header_def mac_fields_def Let_def frame_hdrlen_def addr_len_def frame802154_consts)
  show "field_len llsec_off p = (p, snd (field_len llsec_off p))"
    using field_len_fst [of llsec_off p] f(2) by simp
qed

lemma framer_create_spec:
  assumes wf: "packetbuf_wf s" and a: "attrs_ok s" and pan: "pan \<noteq> 0xffff"
    and room: "frame_hdrlen s + packetbuf_used s \<le> PACKETBUF_SIZE"
  obtains s' where "framer_create pan s = Some (int (frame_hdrlen s), s')" and "packetbuf_wf s'"
    and "packetbuf_used s' = frame_hdrlen s + packetbuf_used s"
    and "packetbuf_content s' = frame_header llsec_off (create_frame_params pan s) @ packetbuf_content s"
    and "s' = s\<lparr>pb_mem := pb_mem s', pb_hdrlen := pb_hdrlen s'\<rparr>"
proof -
  let ?p = "create_frame_params pan s" and ?n = "frame_hdrlen s"
  note p = create_frame_params_ok [OF a, of pan]
  note h = frame802154_hdrlen_header [OF p(4,1), unfolded p(3)]
  obtain s1 where s1: "packetbuf_hdralloc ?n s = Some (1, s1)" "packetbuf_wf s1" "packetbuf_used s1 = ?n + packetbuf_used s"
    "packetbuf_content s1 = take ?n (pb_mem s) @ packetbuf_content s"
    "s1 = s\<lparr>pb_mem := pb_mem s1, pb_hdrlen := pb_hdrlen s1\<rparr>"
    by (rule packetbuf_hdralloc_room [OF wf room])
  have m: "length (pb_mem s1) = 128" using s1(2) by (simp add: packetbuf_wf_def PACKETBUF_SIZE_def)
  have l: "?n \<le> length (pb_mem s1)" using m by (simp add: frame_hdrlen_def)
  let ?m = "frame_header llsec_off ?p @ drop ?n (pb_mem s1)"
  note c = frame802154_create_wrote [OF p(4,1), unfolded p(3), OF l]
  let ?s = "s1\<lparr>pb_mem := ?m\<rparr>"
  have "framer_create pan s = Some (int ?n, ?s)"
    using pan by (simp add: framer_create_def create_frame_def h s1(1) packetbuf_hdrptr_def c)
  moreover have lm: "length ?m = length (pb_mem s1)" using l p(3) by simp
  then have "packetbuf_wf ?s" "packetbuf_used ?s = ?n + packetbuf_used s"
    using s1(2,3) by (simp_all add: packetbuf_wf_def packetbuf_used_def)
  moreover have "packetbuf_content ?s = frame_header llsec_off ?p @ packetbuf_content s"
  proof -
    have u: "?n + packetbuf_used s \<le> 128" using room by (simp add: PACKETBUF_SIZE_def)
    have "take (packetbuf_used s) (drop ?n (pb_mem s1)) = drop ?n (packetbuf_content s1)"
      by (simp add: packetbuf_content_def s1(3) take_drop add.commute)
    also have "\<dots> = packetbuf_content s"
      using u wf by (simp add: s1(4) packetbuf_wf_def PACKETBUF_SIZE_def)
    finally have d: "take (packetbuf_used s) (drop ?n (pb_mem s1)) = packetbuf_content s" .
    have "packetbuf_used ?s = ?n + packetbuf_used s" using s1(3) by (simp add: packetbuf_used_def)
    then show ?thesis by (simp add: packetbuf_content_def p(3) d [unfolded packetbuf_content_def])
  qed
  moreover have "?s = s\<lparr>pb_mem := pb_mem ?s, pb_hdrlen := pb_hdrlen ?s\<rparr>"
    by (subst s1(5)) simp
  ultimately show ?thesis using that by blast
qed

definition packetbuf_data :: "'a packetbuf_state_scheme \<Rightarrow> u8 list" where
  "packetbuf_data s = take (unat (packetbuf_datalen s)) (drop (packetbuf_dataptr s) (pb_mem s))"

lemma is_broadcast_addr_short: "frame802154_is_broadcast_addr FRAME802154_SHORTADDRMODE (0xff # 0xff # xs)"
  by (simp add: frame802154_is_broadcast_addr_def frame802154_consts numeral_2_eq_2)

lemma linkaddr_ff: "bytes_linkaddr (replicate 8 0xff) = -1"
proof -
  have r: "replicate 8 x = [x, x, x, x, x, x, x, x]" for x :: u8 by (simp add: eval_nat_numeral)
  show ?thesis unfolding r by (simp add: bytes_linkaddr_def)
qed

lemma is_broadcast_addr_long:
  "frame802154_is_broadcast_addr FRAME802154_LONGADDRMODE (linkaddr_bytes a) \<longleftrightarrow> a = -1"
proof
  assume b: "frame802154_is_broadcast_addr FRAME802154_LONGADDRMODE (linkaddr_bytes a)"
  have "linkaddr_bytes a = replicate 8 0xff"
    using b by (intro nth_equalityI) (auto simp: frame802154_is_broadcast_addr_def frame802154_consts list_all_iff)
  then have "a = bytes_linkaddr (replicate 8 0xff)" by (metis bytes_linkaddr_bytes)
  then show "a = -1" by (simp only: linkaddr_ff)
next
  assume "a = -1"
  moreover have ff: "ucast (drop_bit (8 * i) (-1 :: linkaddr)) = (0xff :: u8)" if "i < 8" for i
  proof -
    have "ucast (drop_bit (8 * i) (-1 :: linkaddr)) = (-1 :: u8)"
      using that by (auto intro!: bit_word_eqI simp: bit_simps)
    then show ?thesis by simp
  qed
  ultimately show "frame802154_is_broadcast_addr FRAME802154_LONGADDRMODE (linkaddr_bytes a)"
    using ff by (simp add: frame802154_is_broadcast_addr_def frame802154_consts list_all_iff linkaddr_bytes_def)
qed

lemma length_packetbuf_data:
  "packetbuf_wf s \<Longrightarrow> length (packetbuf_data s) = unat (pb_buflen s)"
  using unat_hdrlen [of s]
  by (auto simp: packetbuf_wf_def packetbuf_used_def packetbuf_data_def packetbuf_dataptr_def packetbuf_datalen_def)

lemma hdrreduce_data:
  assumes wf: "packetbuf_wf t" and n: "n \<le> unat (pb_buflen t)"
  obtains t' where "packetbuf_hdrreduce n t = (1, t')" and "packetbuf_wf t'"
    and "packetbuf_data t' = drop n (packetbuf_data t)" and "pb_mem t' = pb_mem t"
    and "packetbuf_dataptr t' = packetbuf_dataptr t + n" and "pb_attrs t' = pb_attrs t" and "pb_addrs t' = pb_addrs t"
    and "t' = t\<lparr>pb_bufptr := pb_bufptr t', pb_buflen := pb_buflen t'\<rparr>"
proof -
  let ?t = "t\<lparr>pb_bufptr := pb_bufptr t + of_nat n, pb_buflen := pb_buflen t - of_nat n\<rparr>"
  have e: "packetbuf_hdrreduce n t = (1, ?t)" using n by (simp add: packetbuf_hdrreduce_def)
  have w: "packetbuf_wf ?t" using packetbuf_hdrreduce_wf [OF wf, of n] e by simp
  have b: "unat (pb_bufptr t) + unat (pb_hdrlen t) + unat (pb_buflen t) \<le> 128"
    using wf by (simp add: packetbuf_wf_def packetbuf_used_def PACKETBUF_SIZE_def)
  have o: "unat (of_nat n :: u16) = n" using n b by (simp add: unat_of_nat)
  have l: "unat (pb_bufptr t + of_nat n) = unat (pb_bufptr t) + n" "unat (pb_buflen t - of_nat n) = unat (pb_buflen t) - n"
    using n b o by (simp add: unat_word_ariths) (simp add: unat_sub word_le_nat_alt o n)
  have p: "packetbuf_dataptr ?t = packetbuf_dataptr t + n"
    using unat_hdrlen [OF w] unat_hdrlen [OF wf] by (simp add: packetbuf_dataptr_def l)
  have d: "packetbuf_data ?t = drop n (packetbuf_data t)"
    unfolding packetbuf_data_def p by (simp add: packetbuf_datalen_def l drop_take add.commute)
  show ?thesis by (rule that [OF e w d _ p]) simp_all
qed

lemma read_frame_params:
  fixes pan :: u16 and junk :: frame802154
  assumes a: "attrs_ok s"
  defines "p \<equiv> create_frame_params pan s"
  shows "fr_fcf (read_frame llsec_off p junk) = fr_fcf p"
    and "fr_dest_pid (read_frame llsec_off p junk) = pan"
    and "fr_dest_addr (read_frame llsec_off p junk) =
      (if packetbuf_holds_broadcast s then [0xff, 0xff] @ replicate 6 0 else linkaddr_bytes (pb_addrs s PACKETBUF_ADDR_RECEIVER))"
    and "fr_src_addr (read_frame llsec_off p junk) = linkaddr_bytes (pb_addrs s PACKETBUF_ADDR_SENDER)"
    and "\<not> packetbuf_holds_broadcast s \<Longrightarrow> fr_seq (read_frame llsec_off p junk) = ucast (pb_attrs s PACKETBUF_ATTR_MAC_SEQNO)"
proof -
  note g = create_frame_params_panid [OF a, of pan, folded p_def]
  note f = read_frame_fields [where cfg = llsec_off and p = p and pf = junk]
  have v: "fr_dest_pid p = pan" "fr_src_addr p = linkaddr_bytes (pb_addrs s PACKETBUF_ADDR_SENDER)"
    "fr_seq p = ucast (pb_attrs s PACKETBUF_ATTR_MAC_SEQNO)"
    "fr_dest_addr p = (if packetbuf_holds_broadcast s then [0xff, 0xff] @ replicate 6 0
      else linkaddr_bytes (pb_addrs s PACKETBUF_ADDR_RECEIVER))"
    by (simp_all add: p_def create_frame_params_def framer_802154_setup_params_def Let_def packetbuf_attr_def
        packetbuf_addr_def frame802154_zero_def numeral_eq_Suc)
  show "fr_fcf (read_frame llsec_off p junk) = fr_fcf p" by (rule f(1))
  show "fr_dest_pid (read_frame llsec_off p junk) = pan" using f(9) g v by simp
  show "fr_src_addr (read_frame llsec_off p junk) = linkaddr_bytes (pb_addrs s PACKETBUF_ADDR_SENDER)"
    using f(6) g v by (simp add: frame802154_consts)
  show "fr_dest_addr (read_frame llsec_off p junk) =
      (if packetbuf_holds_broadcast s then [0xff, 0xff] @ replicate 6 0 else linkaddr_bytes (pb_addrs s PACKETBUF_ADDR_RECEIVER))"
    using f(3,4) g v by (auto simp: frame802154_consts)
  assume "\<not> packetbuf_holds_broadcast s"
  then show "fr_seq (read_frame llsec_off p junk) = ucast (pb_attrs s PACKETBUF_ATTR_MAC_SEQNO)"
    using f(2) g v by simp
qed

lemma create_frame_params_attrs:
  assumes "attrs_ok s"
  shows "ucast (frame_type (fr_fcf (create_frame_params pan s))) = pb_attrs s PACKETBUF_ATTR_FRAME_TYPE"
    and "ucast (ack_required (fr_fcf (create_frame_params pan s))) =
      (if packetbuf_holds_broadcast s then 0 else pb_attrs s PACKETBUF_ATTR_MAC_ACK)"
    and "ucast (ie_list_present (fr_fcf (create_frame_params pan s))) = pb_attrs s PACKETBUF_ATTR_MAC_METADATA"
proof -
  have less: "pb_attrs s PACKETBUF_ATTR_FRAME_TYPE < 256" "pb_attrs s PACKETBUF_ATTR_MAC_ACK < 256"
    "pb_attrs s PACKETBUF_ATTR_MAC_METADATA < 256"
    using assms by (auto simp: attrs_ok_def word_less_nat_alt)
  show "ucast (frame_type (fr_fcf (create_frame_params pan s))) = pb_attrs s PACKETBUF_ATTR_FRAME_TYPE"
    "ucast (ack_required (fr_fcf (create_frame_params pan s))) =
      (if packetbuf_holds_broadcast s then 0 else pb_attrs s PACKETBUF_ATTR_MAC_ACK)"
    "ucast (ie_list_present (fr_fcf (create_frame_params pan s))) = pb_attrs s PACKETBUF_ATTR_MAC_METADATA"
    by (simp_all add: create_frame_params_def framer_802154_setup_params_def Let_def packetbuf_attr_def
        ucast_fits [OF less(1)] ucast_fits [OF less(2)] ucast_fits [OF less(3)])
qed

text \<open>What the receiver of a frame has in its packet buffer after the framer.\<close>

definition received :: "'a packetbuf_state_scheme \<Rightarrow> 'b packetbuf_state_scheme \<Rightarrow> 'b packetbuf_state_scheme \<Rightarrow> bool" where
  "received s t t' \<longleftrightarrow> packetbuf_wf t' \<and> packetbuf_data t' = packetbuf_content s \<and> pb_mem t' = pb_mem t \<and>
     packetbuf_dataptr t' = packetbuf_dataptr t + frame_hdrlen s \<and>
     pb_addrs t' PACKETBUF_ADDR_SENDER = pb_addrs s PACKETBUF_ADDR_SENDER \<and>
     pb_addrs t' PACKETBUF_ADDR_RECEIVER =
       (if pb_addrs s PACKETBUF_ADDR_RECEIVER \<in> {0, -1} then pb_addrs t PACKETBUF_ADDR_RECEIVER
        else pb_addrs s PACKETBUF_ADDR_RECEIVER) \<and>
     pb_attrs t' PACKETBUF_ATTR_FRAME_TYPE = pb_attrs s PACKETBUF_ATTR_FRAME_TYPE \<and>
     pb_attrs t' PACKETBUF_ATTR_MAC_ACK = (if packetbuf_holds_broadcast s then 0 else pb_attrs s PACKETBUF_ATTR_MAC_ACK) \<and>
     pb_attrs t' PACKETBUF_ATTR_MAC_SEQNO =
       (if packetbuf_holds_broadcast s then 0xffff else pb_attrs s PACKETBUF_ATTR_MAC_SEQNO AND 0xff) \<and>
     packetbuf_state.more t' = packetbuf_state.more t"

lemma ucast_ucast_mask: "ucast (ucast (x :: u16) :: u8) = x AND 0xff"
proof -
  have "ucast (ucast x :: u8) = x AND mask 8" by (rule bit_word_eqI) (auto simp: bit_simps)
  then show ?thesis by (simp add: mask_eq_exp_minus_1)
qed

lemma frame_header_parses:
  assumes a: "attrs_ok s" and len: "int (frame_hdrlen s) \<le> len"
  shows "frame802154_parse llsec_off (frame_header llsec_off (create_frame_params pan s) @ rest) len junk =
    Some (int (frame_hdrlen s), (read_frame llsec_off (create_frame_params pan s) junk)
      \<lparr>fr_payload_len := len - int (frame_hdrlen s), fr_payload := frame_hdrlen s\<rparr>)"
proof -
  let ?p = "create_frame_params pan s"
  note p = create_frame_params_ok [OF a, of pan]
  show ?thesis
    using frame802154_parse_header [OF p(1) create_frame_params_panid(2) [OF a, of pan], of len junk rest] len
    unfolding p(3) using p(2) by auto
qed

lemma packetbuf_set_keeps:
  "packetbuf_data (packetbuf_set_attr x v u) = packetbuf_data u" "packetbuf_data (packetbuf_set_addr y w u) = packetbuf_data u"
  "packetbuf_dataptr (packetbuf_set_attr x v u) = packetbuf_dataptr u" "packetbuf_dataptr (packetbuf_set_addr y w u) = packetbuf_dataptr u"
  by (simp_all add: packetbuf_data_def packetbuf_set_attr_def packetbuf_set_addr_def packetbuf_datalen_def packetbuf_dataptr_def
      packetbuf_hdrlen_def)

lemma framer_parse_spec:
  assumes wf: "packetbuf_wf t" and a: "attrs_ok s"
    and d: "packetbuf_data t = frame_header llsec_off (create_frame_params pan s) @ packetbuf_content s"
  shows "\<exists>t'. framer_parse pan junk t = Some (int (frame_hdrlen s), t') \<and> received s t t'"
proof -
  let ?p = "create_frame_params pan s" and ?n = "frame_hdrlen s"
  note p = create_frame_params_ok [OF a, of pan]
  have len: "unat (pb_buflen t) = ?n + length (packetbuf_content s)"
    using length_packetbuf_data [OF wf] d p(3) by simp
  have n: "?n \<le> unat (pb_buflen t)" "?n \<noteq> 0" using len by (simp_all add: frame_hdrlen_def)
  obtain rest where m: "drop (packetbuf_dataptr t) (pb_mem t) = frame_header llsec_off ?p @ rest"
    using d append_take_drop_id [of "unat (packetbuf_datalen t)" "drop (packetbuf_dataptr t) (pb_mem t)"]
    unfolding packetbuf_data_def by (metis append_assoc)
  have l: "int ?n \<le> uint (packetbuf_datalen t)"
    using n by (simp add: packetbuf_datalen_def) (metis of_nat_mono uint_nat)
  note parse = frame_header_parses [OF a l, of pan rest junk, folded m]
  obtain t1 where t1: "packetbuf_hdrreduce ?n t = (1, t1)" "packetbuf_wf t1" "packetbuf_data t1 = drop ?n (packetbuf_data t)"
    "pb_mem t1 = pb_mem t" "packetbuf_dataptr t1 = packetbuf_dataptr t + ?n" "pb_attrs t1 = pb_attrs t" "pb_addrs t1 = pb_addrs t"
    "t1 = t\<lparr>pb_bufptr := pb_bufptr t1, pb_buflen := pb_buflen t1\<rparr>"
    by (rule hdrreduce_data [OF wf n(1)])
  have more: "packetbuf_state.more t1 = packetbuf_state.more t" by (subst t1(8)) simp
  have data: "packetbuf_data t1 = packetbuf_content s" using t1(3) d p(3) by simp
  note f = read_frame_params [OF a, of pan junk]
  note g = create_frame_params_panid [OF a, of pan] create_frame_params_attrs [OF a, of pan]
  let ?rf = "read_frame llsec_off ?p junk"
  note bc = is_broadcast_addr_short [unfolded frame802154_consts] is_broadcast_addr_long [unfolded frame802154_consts]
  show ?thesis
  proof (cases "packetbuf_holds_broadcast s")
    case True
    then show ?thesis
      unfolding framer_parse_def parse
      using n(2) data more t1(1,2,4-7)
      by (simp add: f g bc received_def packetbuf_set_keeps packetbuf_holds_broadcast_def Let_def)
        (simp add: packetbuf_set_attr_def packetbuf_set_addr_def)
  next
    case False
    then show ?thesis
      unfolding framer_parse_def parse
      using n(2) data more t1(1,2,4-7)
      by (simp add: f g bc received_def packetbuf_set_keeps ucast_ucast_mask packetbuf_holds_broadcast_def Let_def)
        (auto simp: packetbuf_set_attr_def packetbuf_set_addr_def)
  qed
qed

lemma copyfrom_content:
  assumes wf: "packetbuf_wf s" and t: "length (pb_mem t) = PACKETBUF_SIZE"
  obtains t1 where "packetbuf_copyfrom (packetbuf_content s) (packetbuf_totlen s) t =
      Some (int (length (packetbuf_content s)), t1)"
    and "packetbuf_wf t1" and "packetbuf_data t1 = packetbuf_content s" and "packetbuf_dataptr t1 = 0"
    and "pb_hdrlen t1 = 0" and "packetbuf_state.more t1 = packetbuf_state.more t"
    and "take (packetbuf_used s) (pb_mem t1) = packetbuf_content s" and "pb_addrs t1 = (\<lambda>_. 0)" and "pb_attrs t1 = (\<lambda>_. 0)"
proof -
  let ?u = "packetbuf_used s"
  have u: "unat (packetbuf_totlen s) = ?u" "?u \<le> 128" "length (packetbuf_content s) = ?u"
    using unat_totlen [OF wf] wf by (auto simp: packetbuf_wf_def PACKETBUF_SIZE_def packetbuf_content_def)
  let ?t = "(packetbuf_clear t)\<lparr>pb_mem := packetbuf_content s @ drop ?u (pb_mem t), pb_buflen := packetbuf_totlen s\<rparr>"
  have c: "packetbuf_copyfrom (packetbuf_content s) (packetbuf_totlen s) t = Some (int (length (packetbuf_content s)), ?t)"
    using packetbuf_copyfrom_spec [OF t, of "packetbuf_totlen s" "packetbuf_content s"] u by (simp add: PACKETBUF_SIZE_def)
  show ?thesis
    by (rule that [OF c]) (use u t in \<open>simp_all add: packetbuf_wf_def packetbuf_used_def packetbuf_data_def packetbuf_datalen_def
        packetbuf_dataptr_def packetbuf_hdrlen_def PACKETBUF_SIZE_def packetbuf_clear_def packetbuf_attr_clear_def\<close>)
qed

text \<open>
  C31: what one node frames and sends, another node of the same PAN receives.  For a well-formed
  packet buffer with room for the header, \<open>framer_create\<close> puts a header of 21 bytes in front, or 14
  for a broadcast; a receiver that copies these bytes into its own buffer and parses them finds
  the header length again, the packet behind it, the sender, the receiver unless it is a broadcast
  address, and the frame type, acknowledgement request and sequence number.
\<close>

theorem framer_roundtrip:
  assumes wf: "packetbuf_wf s" and a: "attrs_ok s" and pan: "pan \<noteq> 0xffff"
    and room: "frame_hdrlen s + packetbuf_used s \<le> PACKETBUF_SIZE" and t: "length (pb_mem t) = PACKETBUF_SIZE"
  shows "\<exists>s1 t1 t2. framer_create pan s = Some (int (frame_hdrlen s), s1) \<and>
    packetbuf_copyfrom (packetbuf_content s1) (packetbuf_totlen s1) t = Some (int (length (packetbuf_content s1)), t1) \<and>
    framer_parse pan junk t1 = Some (int (frame_hdrlen s), t2) \<and> received s t1 t2"
proof -
  obtain s1 where s1: "framer_create pan s = Some (int (frame_hdrlen s), s1)" "packetbuf_wf s1"
    "packetbuf_content s1 = frame_header llsec_off (create_frame_params pan s) @ packetbuf_content s"
    by (rule framer_create_spec [OF wf a pan room])
  obtain t1 where "packetbuf_copyfrom (packetbuf_content s1) (packetbuf_totlen s1) t =
      Some (int (length (packetbuf_content s1)), t1)" "packetbuf_wf t1" "packetbuf_data t1 = packetbuf_content s1"
    by (rule copyfrom_content [OF s1(2) t])
  moreover from this(2,3) obtain t2 where "framer_parse pan junk t1 = Some (int (frame_hdrlen s), t2)" "received s t1 t2"
    using framer_parse_spec [OF _ a, of t1 pan junk] s1(3) by auto
  ultimately show ?thesis using s1(1) by blast
qed

definition framer_example :: packetbuf_state where
  "framer_example = \<lparr>pb_mem = [10, 20, 30] @ replicate 125 0, pb_buflen = 3, pb_bufptr = 0, pb_hdrlen = 0,
     pb_attrs = (\<lambda>_. 0)(PACKETBUF_ATTR_FRAME_TYPE := 1, PACKETBUF_ATTR_MAC_ACK := 1, PACKETBUF_ATTR_MAC_SEQNO := 9),
     pb_addrs = (\<lambda>_. 0)(PACKETBUF_ADDR_SENDER := 5, PACKETBUF_ADDR_RECEIVER := 7)\<rparr>"

theorem framer_roundtrip_witness:
  "\<exists>s1 t1 t2. framer_create 0xabcd framer_example = Some (21, s1) \<and>
    packetbuf_copyfrom (packetbuf_content s1) (packetbuf_totlen s1) framer_example =
      Some (int (length (packetbuf_content s1)), t1) \<and>
    framer_parse 0xabcd frame802154_zero t1 = Some (21, t2) \<and> packetbuf_data t2 = [10, 20, 30] \<and>
    pb_addrs t2 PACKETBUF_ADDR_SENDER = 5 \<and> pb_attrs t2 PACKETBUF_ATTR_MAC_SEQNO = 9"
proof -
  have u: "packetbuf_used framer_example = 3" "\<not> packetbuf_holds_broadcast framer_example"
    "packetbuf_content framer_example = [10, 20, 30]"
    by (simp_all add: framer_example_def packetbuf_used_def packetbuf_content_def packetbuf_holds_broadcast_def)
  then have w: "packetbuf_wf framer_example" "attrs_ok framer_example" "(0xabcd :: u16) \<noteq> 0xffff"
    "frame_hdrlen framer_example + packetbuf_used framer_example \<le> PACKETBUF_SIZE"
    "length (pb_mem framer_example) = PACKETBUF_SIZE" "frame_hdrlen framer_example = 21"
    by (simp_all add: packetbuf_wf_def PACKETBUF_SIZE_def attrs_ok_def frame_hdrlen_def) (simp_all add: framer_example_def)
  show ?thesis
    using framer_roundtrip [OF w(1-5), of frame802154_zero] u(2) w(6)
    by (auto simp: received_def u(3)) (auto simp: framer_example_def)
qed

end
