(* ===== verification/Tsch_Packet.thy ===== *)
theory Tsch_Packet
  imports Framer802154 Frame_Ie Tsch_Schedule
begin

section \<open>TSCH packets\<close>

text \<open>
  Model of \<open>os/net/mac/tsch/tsch-packet.c\<close>: enhanced acknowledgements (EACK) and enhanced beacons
  (EB), without link-layer security.  The frame parser works on the bytes of the frame and does not
  know the packet buffer; a beacon is built in the packet buffer.  The global variables that the
  routines read (PAN identifier, node address, ASN, join priority, hopping sequence) are arguments,
  as is the value of an uninitialised local \<open>params\<close>.  A pointer argument is an \<open>option\<close>; what the
  caller's variables hold afterwards is part of the result.  The switches
  \<open>TSCH_PACKET_EB_WITH_...\<close> are the record \<open>eb_conf\<close>, all off by default.
\<close>

subsection \<open>Enhanced acknowledgements\<close>

type_synonym eackbuf = "packetbuf_attr_id \<Rightarrow> u16"

definition tsch_packet_eackbuf_set_attr :: "packetbuf_attr_id \<Rightarrow> u16 \<Rightarrow> eackbuf \<Rightarrow> eackbuf" where
  "tsch_packet_eackbuf_set_attr ty val b = b(ty := val)"

definition tsch_packet_eackbuf_attr :: "eackbuf \<Rightarrow> packetbuf_attr_id \<Rightarrow> u16" where
  "tsch_packet_eackbuf_attr b ty = b ty"

text \<open>
  The attributes and the parameters of an EACK: with a destination address when the caller gives
  one (\<open>TSCH_PACKET_EACK_WITH_DEST_ADDR\<close>), without a source address.
\<close>

definition eack_params :: "u16 \<Rightarrow> frame802154 \<Rightarrow> linkaddr option \<Rightarrow> u8 \<Rightarrow> frame802154" where
  "eack_params mac_pan_id params dest_addr seqno =
     (let b1 = tsch_packet_eackbuf_set_attr PACKETBUF_ATTR_FRAME_TYPE (ucast FRAME802154_ACKFRAME) (\<lambda>_. 0);
          b2 = tsch_packet_eackbuf_set_attr PACKETBUF_ATTR_MAC_METADATA 1 b1;
          b3 = tsch_packet_eackbuf_set_attr PACKETBUF_ATTR_MAC_SEQNO (ucast seqno) b2;
          b4 = tsch_packet_eackbuf_set_attr PACKETBUF_ATTR_MAC_NO_DEST_ADDR 1 b3;
          (b5, params1) = (case dest_addr of
             Some a \<Rightarrow> (tsch_packet_eackbuf_set_attr PACKETBUF_ATTR_MAC_NO_DEST_ADDR 0 b4,
                       params\<lparr>fr_dest_addr := linkaddr_bytes a\<rparr>)
           | None \<Rightarrow> (b4, params));
          b6 = tsch_packet_eackbuf_set_attr PACKETBUF_ATTR_MAC_NO_SRC_ADDR 1 b5
      in framer_802154_setup_params mac_pan_id (tsch_packet_eackbuf_attr b6) False params1)"

definition tsch_packet_create_eack ::
  "u16 \<Rightarrow> frame802154 \<Rightarrow> u8 list option \<Rightarrow> u16 \<Rightarrow> linkaddr option \<Rightarrow> u8 \<Rightarrow> u16 \<Rightarrow> int \<Rightarrow> (int \<times> u8 list option) ub" where
  "tsch_packet_create_eack mac_pan_id junk buf buf_len dest_addr seqno drift nack =
     (case buf of
        None \<Rightarrow> Some (-1, None)
      | Some m \<Rightarrow>
          let (hdr_len, params) = frame802154_hdrlen llsec_off (eack_params mac_pan_id junk dest_addr seqno);
              ies = ies_zero\<lparr>ie_time_correction := drift, ie_is_nack := word_of_int nack\<rparr>
          in do {
            m1 \<leftarrow> mem_write m 0 (replicate (unat buf_len) 0);
            (ack_len, m2) \<leftarrow> frame80215e_create_ie_header_ack_nack_time_correction m1 hdr_len
                               (uint buf_len - int hdr_len) (Some ies);
            (if ack_len < 0 then Some (-1, Some m2)
             else do {
               (n, m3, p) \<leftarrow> frame802154_create llsec_off params m2;
               Some (ack_len + int hdr_len, Some m3)
             })
          })"

type_synonym parse_result = "int \<times> frame802154 option \<times> ieee802154_ies option \<times> u8 option"

text \<open>The part that both parsers end with: the IEs of the frame, when its header announces some.\<close>

definition parse_frame_ies ::
  "u8 list \<Rightarrow> int \<Rightarrow> frame802154 \<Rightarrow> ieee802154_ies option \<Rightarrow> u8 option \<Rightarrow> u8 \<Rightarrow> parse_result ub" where
  "parse_frame_ies buf buf_size frame ies hdr_len curr_len = do {
     (ret, ies1) \<leftarrow> (if ie_list_present (fr_fcf frame) \<noteq> 0
        then frame802154e_parse_information_elements buf (unat curr_len)
               (word_of_int (buf_size - uint curr_len)) ies
        else Some (0, ies));
     (if ret = -1 then Some (0, Some frame, ies1, hdr_len)
      else let curr_len1 = curr_len + word_of_int ret
      in case hdr_len of
           None \<Rightarrow> Some (uint curr_len1, Some frame, ies1, None)
         | Some h \<Rightarrow> do { e \<leftarrow> ies1; Some (uint curr_len1, Some frame, ies1, Some (h + ie_payload_ie_offset e)) })
   }"

definition tsch_packet_parse_eack ::
  "u16 \<Rightarrow> linkaddr \<Rightarrow> u8 list \<Rightarrow> int \<Rightarrow> u8 \<Rightarrow> frame802154 option \<Rightarrow> ieee802154_ies option \<Rightarrow> u8 option \<Rightarrow>
   parse_result ub" where
  "tsch_packet_parse_eack mac_pan_id node_addr buf buf_size seqno frame0 ies hdr_len =
     (case frame0 of
        None \<Rightarrow> Some (0, frame0, ies, hdr_len)
      | Some f0 \<Rightarrow>
          if buf_size < 0 then Some (0, frame0, ies, hdr_len)
          else do {
            (ret, frame) \<leftarrow> frame802154_parse llsec_off buf buf_size f0;
            (if ret < 3 then Some (0, Some frame, ies, hdr_len)
             else let hdr_len1 = map_option (\<lambda>_. word_of_int ret) hdr_len;
                      (r, _, dest) = frame802154_extract_linkaddr (Some frame) None (Some 0)
                  in if seqno \<noteq> fr_seq frame then Some (0, Some frame, ies, hdr_len1)
                  else if frame802154_check_dest_panid mac_pan_id (Some frame) = 0
                  then Some (0, Some frame, ies, hdr_len1)
                  else if r = 0 \<or> (dest \<noteq> Some node_addr \<and> dest \<noteq> Some 0)
                  then Some (0, Some frame, ies, hdr_len1)
                  else parse_frame_ies buf buf_size frame (map_option (\<lambda>_. ies_zero) ies) hdr_len1
                         (word_of_int ret))
          })"

subsection \<open>Enhanced beacons\<close>

record eb_conf =
  eb_with_timeslot_timing :: bool
  eb_with_hopping_sequence :: bool
  eb_with_slotframe_and_link :: bool

definition eb_default :: eb_conf where
  "eb_default = \<lparr>eb_with_timeslot_timing = False, eb_with_hopping_sequence = False,
     eb_with_slotframe_and_link = False\<rparr>"

text \<open>
  What a beacon advertises: the timeslot timing in microseconds, the hopping sequence with its
  length, and the first slotframe with its first link.
\<close>

definition eb_slotframe_and_link :: "'a tsch_sched_state_scheme \<Rightarrow> ieee802154_ies \<Rightarrow> ieee802154_ies" where
  "eb_slotframe_and_link s ies =
     (let sf0 = tsch_schedule_get_slotframe_by_handle 0 s;
          link0 = tsch_schedule_get_link_by_offsets sf0 0 0 s
      in case (sf0, link0) of
           (Some i, Some l) \<Rightarrow> ies\<lparr>ie_slotframe_and_link :=
             \<lparr>sl_num_slotframes = 1, sl_slotframe_handle = ucast (sf_handle (sch_slotframes s ! i)),
              sl_slotframe_size = div_val (sf_size (sch_slotframes s ! i)), sl_num_links = 1,
              sl_links = (sl_links (ie_slotframe_and_link ies))
                [0 := \<lparr>sl_timeslot = link_timeslot (sch_links s ! l),
                       sl_channel_offset = link_channel_offset (sch_links s ! l),
                       sl_link_options = link_options (sch_links s ! l)\<rparr>]\<rparr>\<rparr>
         | _ \<Rightarrow> ies)"

definition eb_ies :: "eb_conf \<Rightarrow> u16 list \<Rightarrow> u8 list \<Rightarrow> u16 \<Rightarrow> 'a tsch_sched_state_scheme \<Rightarrow> ieee802154_ies" where
  "eb_ies cfg timing_us hopping_sequence hopping_sequence_length s =
     (let e1 = (if eb_with_timeslot_timing cfg
                then ies_zero\<lparr>ie_tsch_timeslot_id := 1, ie_tsch_timeslot := take tsch_ts_elements_count timing_us\<rparr>
                else ies_zero);
          n = unat hopping_sequence_length;
          e2 = (if eb_with_hopping_sequence cfg \<and> n \<le> TSCH_HOPPING_SEQUENCE_MAX_LEN
                then e1\<lparr>ie_channel_hopping_sequence_id := 1, ie_hopping_sequence_len := hopping_sequence_length,
                        ie_hopping_sequence_list := take n hopping_sequence @ drop n (ie_hopping_sequence_list e1)\<rparr>
                else e1)
      in if eb_with_slotframe_and_link cfg then eb_slotframe_and_link s e2 else e2)"

type_synonym ie_writer = "u8 list \<Rightarrow> nat \<Rightarrow> int \<Rightarrow> ieee802154_ies option \<Rightarrow> (int \<times> u8 list) ub"

text \<open>
  One of the steps \<open>ie_len = frame80215e_create_...(p, packetbuf_remaininglen(), &ies)\<close>: an element is
  written at \<open>p\<close>, and unless the writer fails, \<open>p\<close> and the data length advance.
\<close>

definition eb_append ::
  "ie_writer \<Rightarrow> ieee802154_ies \<Rightarrow> nat \<times> 'a packetbuf_state_scheme \<Rightarrow> (bool \<times> nat \<times> 'a packetbuf_state_scheme) ub" where
  "eb_append w ies ps =
     (case ps of (p, s) \<Rightarrow> do {
        (ie_len, m) \<leftarrow> w (pb_mem s) p (uint (packetbuf_remaininglen s)) (Some ies);
        (let s1 = s\<lparr>pb_mem := m\<rparr>
         in Some (if ie_len < 0 then (False, p, s1)
                  else (True, p + nat ie_len,
                        packetbuf_set_datalen (packetbuf_datalen s1 + word_of_int ie_len) s1)))
      })"

fun eb_append_all ::
  "ie_writer list \<Rightarrow> ieee802154_ies \<Rightarrow> nat \<times> 'a packetbuf_state_scheme \<Rightarrow> (bool \<times> 'a packetbuf_state_scheme) ub" where
  "eb_append_all [] ies ps = Some (True, snd ps)"
| "eb_append_all (w # ws) ies ps = do {
     (ok, ps1) \<leftarrow> eb_append w ies ps;
     (if ok then eb_append_all ws ies ps1 else Some (False, snd ps1))
   }"

definition eb_writers :: "ie_writer list" where
  "eb_writers = [frame80215e_create_ie_tsch_synchronization, frame80215e_create_ie_tsch_timeslot,
     frame80215e_create_ie_tsch_channel_hopping_sequence, frame80215e_create_ie_tsch_slotframe_and_link]"

text \<open>The payload IE header in front of the elements, the header termination IE, and the frame header.\<close>

definition eb_payload_header :: "ieee802154_ies \<Rightarrow> 'a packetbuf_state_scheme \<Rightarrow> (bool \<times> 'a packetbuf_state_scheme) ub" where
  "eb_payload_header ies s =
     (let ies1 = ies\<lparr>ie_mlme_len := packetbuf_datalen s\<rparr>; p = packetbuf_dataptr s
      in do {
        bs \<leftarrow> mem_read (pb_mem s) p (unat (packetbuf_datalen s));
        m1 \<leftarrow> mem_write (pb_mem s) (p + 2) bs;
        let s1 = packetbuf_set_datalen (packetbuf_datalen s + 2) (s\<lparr>pb_mem := m1\<rparr>);
        (r, m2) \<leftarrow> frame80215e_create_ie_mlme m1 (packetbuf_dataptr s1) (uint (packetbuf_remaininglen s1)) (Some ies1);
        let s2 = s1\<lparr>pb_mem := m2\<rparr>;
        (if r < 0 then Some (False, s2)
         else do {
           (_, s3) \<leftarrow> packetbuf_hdralloc 2 s2;
           (r1, m3) \<leftarrow> frame80215e_create_ie_header_list_termination_1 (pb_mem s3) (packetbuf_hdrptr s3)
                        (uint (packetbuf_remaininglen s3)) (Some ies1);
           Some (0 \<le> r1, s3\<lparr>pb_mem := m3\<rparr>)
         })
      })"

definition tsch_packet_create_eb ::
  "eb_conf \<Rightarrow> u16 \<Rightarrow> linkaddr \<Rightarrow> u16 list \<Rightarrow> u8 list \<Rightarrow> u16 \<Rightarrow> 'a tsch_sched_state_scheme \<Rightarrow>
   (int \<times> u8 \<times> u8 \<times> 'a tsch_sched_state_scheme) ub" where
  "tsch_packet_create_eb cfg mac_pan_id node_addr timing_us hopping_sequence hopping_sequence_length s0 =
     (let s = packetbuf_clear s0;
          ies = eb_ies cfg timing_us hopping_sequence hopping_sequence_length s
      in do {
        (ok, s1) \<leftarrow> eb_append_all eb_writers ies (packetbuf_dataptr s, s);
        (if \<not> ok then Some (-1, 0, 0, s1)
         else do {
           (ok2, s2) \<leftarrow> eb_payload_header ies s1;
           (if \<not> ok2 then Some (-1, 0, 0, s2)
            else let s3 = packetbuf_set_attr PACKETBUF_ATTR_MAC_METADATA 1
                            (packetbuf_set_attr PACKETBUF_ATTR_FRAME_TYPE (ucast FRAME802154_BEACONFRAME) s2);
                     s4 = packetbuf_set_addr PACKETBUF_ADDR_RECEIVER 0
                            (packetbuf_set_addr PACKETBUF_ADDR_SENDER node_addr s3)
            in do {
              (r, s5) \<leftarrow> framer_create mac_pan_id s4;
              Some (if r < 0 then (-1, 0, 0, s5)
                    else (uint (packetbuf_totlen s5), packetbuf_hdrlen s5, packetbuf_hdrlen s5 + 2, s5))
            })
         })
      })"

definition tsch_packet_update_eb ::
  "tsch_asn \<Rightarrow> u8 \<Rightarrow> u8 list \<Rightarrow> int \<Rightarrow> u8 \<Rightarrow> ieee802154_ies \<Rightarrow> (bool \<times> u8 list) ub" where
  "tsch_packet_update_eb asn join_priority buf buf_size tsch_sync_ie_offset junk = do {
     (r, m) \<leftarrow> frame80215e_create_ie_tsch_synchronization buf (unat tsch_sync_ie_offset)
                 (buf_size - uint tsch_sync_ie_offset)
                 (Some (junk\<lparr>ie_asn := asn, ie_join_priority := join_priority\<rparr>));
     Some (r \<noteq> -1, m)
   }"

definition tsch_packet_parse_eb ::
  "u8 list \<Rightarrow> int \<Rightarrow> frame802154 option \<Rightarrow> ieee802154_ies option \<Rightarrow> u8 option \<Rightarrow> parse_result ub" where
  "tsch_packet_parse_eb buf buf_size frame0 ies hdr_len =
     (case frame0 of
        None \<Rightarrow> Some (0, frame0, ies, hdr_len)
      | Some f0 \<Rightarrow>
          if buf_size < 0 then Some (0, frame0, ies, hdr_len)
          else do {
            (ret, frame) \<leftarrow> frame802154_parse llsec_off buf buf_size f0;
            (if ret = 0 then Some (0, Some frame, ies, hdr_len)
             else if frame_version (fr_fcf frame) < FRAME802154_IEEE802154_2015 \<or>
                     frame_type (fr_fcf frame) \<noteq> FRAME802154_BEACONFRAME
             then Some (0, Some frame, ies, hdr_len)
             else parse_frame_ies buf buf_size frame
                    (map_option (\<lambda>_. ies_zero\<lparr>ie_join_priority := 0xff\<rparr>) ies)
                    (map_option (\<lambda>_. word_of_int ret) hdr_len) (word_of_int ret))
          })"

subsection \<open>The frame pending bit\<close>

definition IEEE802154_FRAME_PENDING_BIT_OFFSET :: nat where "IEEE802154_FRAME_PENDING_BIT_OFFSET = 4"

definition tsch_packet_set_frame_pending :: "u8 list \<Rightarrow> u8 list ub" where
  "tsch_packet_set_frame_pending buf = do {
     b \<leftarrow> mem_read buf 0 1;
     mem_write buf 0 [hd b OR push_bit IEEE802154_FRAME_PENDING_BIT_OFFSET 1]
   }"

definition tsch_packet_get_frame_pending :: "u8 list \<Rightarrow> u8 ub" where
  "tsch_packet_get_frame_pending buf = do {
     b \<leftarrow> mem_read buf 0 1;
     Some (drop_bit IEEE802154_FRAME_PENDING_BIT_OFFSET (hd b) AND 1)
   }"

subsection \<open>Acknowledgements are read back\<close>

text \<open>The time correction occupies 12 bits of its field, in two's complement.\<close>

lemma drift_bits:
  assumes "- 2048 \<le> sint d" and "sint d < 2048" and "n < 16"
  shows "bit (d :: u16) n = bit d (min 11 n)"
proof -
  have s: "signed_take_bit 11 (sint d) = sint d" using assms(1,2) by (intro signed_take_bit_int_eq_self) simp_all
  have b: "bit (sint d) k = bit d k" if "k < 16" for k using that by (simp add: bit_sint_iff)
  have "bit d n = bit (signed_take_bit 11 (sint d)) n" using b [OF assms(3)] s by simp
  also have "\<dots> = bit (sint d) (min 11 n)" by (simp add: bit_signed_take_bit_iff min.commute)
  finally show ?thesis using b [of "min 11 n"] by simp
qed

lemma drift_field:
  fixes d :: u16 and nack :: bool
  assumes d: "- 2048 \<le> sint d" "sint d < 2048"
  defines "f \<equiv> (if nack then (d AND 0x0fff) OR 0x8000 else d AND 0x0fff)"
  shows "(if f AND 0x0800 \<noteq> 0 then f OR 0xf000 else f AND 0x0fff) = d" and "f AND 0x8000 \<noteq> 0 \<longleftrightarrow> nack"
proof -
  have c: "(0x0fff :: u16) = mask 12" "(0x8000 :: u16) = push_bit 15 1" "(0x0800 :: u16) = push_bit 11 1"
    "(0xf000 :: u16) = NOT (mask 12)" by (simp_all add: mask_eq_exp_minus_1)
  have one: "x AND push_bit k 1 \<noteq> 0 \<longleftrightarrow> bit x k" if "k < 16" for x :: u16 and k
    using and_exp_eq_0_iff_not_bit [of x k] by (simp add: push_bit_of_1)
  have h8: "bit (0x8000 :: u16) n \<longleftrightarrow> n = 15" for n
    unfolding c(2) by (simp only: bit_push_bit_iff bit_1_iff) auto
  have f: "bit f n \<longleftrightarrow> n < 12 \<and> bit d n \<or> nack \<and> n = 15" for n
    unfolding f_def c(1) by (cases nack; simp only: if_True if_False bit_or_iff bit_and_iff bit_mask_iff h8) auto
  show "f AND 0x8000 \<noteq> 0 \<longleftrightarrow> nack" unfolding c(2) by (subst one) (simp_all only: f, auto)
  have i: "f AND 0x0800 \<noteq> 0 \<longleftrightarrow> bit d 11" unfolding c(3) by (subst one) (simp_all only: f, auto)
  show "(if f AND 0x0800 \<noteq> 0 then f OR 0xf000 else f AND 0x0fff) = d"
  proof (rule bit_word_eqI)
    fix n assume n: "n < LENGTH(16)"
    then have "n < 12 \<or> 12 \<le> n \<and> bit d n = bit d 11" using drift_bits [OF d, of n] by auto
    then show "bit (if f AND 0x0800 \<noteq> 0 then f OR 0xf000 else f AND 0x0fff) n = bit d n"
      using n unfolding i c(1,4) by (auto simp: f bit_or_iff bit_and_iff bit_not_iff bit_mask_iff)
  qed
qed

lemma eack_params_fields:
  fixes pan :: u16 and params :: frame802154 and dest :: "linkaddr option" and seqno :: u8
  defines "p \<equiv> eack_params pan params dest seqno"
  shows "fr_fcf p = \<lparr>frame_type = 2, security_enabled = 0, frame_pending = 0, ack_required = 0, panid_compression = 0,
      sequence_number_suppression = 0, ie_list_present = 1, dest_addr_mode = (if dest = None then 0 else 3),
      frame_version = 2, src_addr_mode = 0\<rparr>"
    and "fr_seq p = seqno" and "fr_dest_pid p = pan"
    and "fr_dest_addr p = (case dest of Some a \<Rightarrow> linkaddr_bytes a | None \<Rightarrow> fr_dest_addr params)"
    and "fr_src_addr p = fr_src_addr params"
proof -
  have u: "ucast (ucast seqno :: u16) = seqno" by (rule bit_word_eqI) (simp add: bit_simps)
  show "fr_fcf p = \<lparr>frame_type = 2, security_enabled = 0, frame_pending = 0, ack_required = 0, panid_compression = 0,
      sequence_number_suppression = 0, ie_list_present = 1, dest_addr_mode = (if dest = None then 0 else 3),
      frame_version = 2, src_addr_mode = 0\<rparr>" "fr_seq p = seqno" "fr_dest_pid p = pan"
    "fr_dest_addr p = (case dest of Some a \<Rightarrow> linkaddr_bytes a | None \<Rightarrow> fr_dest_addr params)"
    "fr_src_addr p = fr_src_addr params"
    by (auto simp: p_def eack_params_def framer_802154_setup_params_def Let_def frame802154_consts
        tsch_packet_eackbuf_set_attr_def tsch_packet_eackbuf_attr_def u split: option.splits)
qed

definition eack_len :: "linkaddr option \<Rightarrow> nat" where
  "eack_len dest = (if dest = None then 3 else 13)"

lemma eack_params_ok:
  fixes pan :: u16 and junk :: frame802154 and dest :: "linkaddr option" and seqno :: u8
  assumes "length (fr_dest_addr junk) = 8" and "length (fr_src_addr junk) = 8"
  defines "p \<equiv> eack_params pan junk dest seqno"
  shows "frame_ok llsec_off p" and "panid_ok (fr_fcf p)" and "field_len llsec_off p = (p, snd (field_len llsec_off p))"
    and "length (frame_header llsec_off p) = eack_len dest" and "frame802154_has_panid (fr_fcf p) = (False, dest \<noteq> None)"
    and "\<not> aux_on llsec_off p"
proof -
  note f = eack_params_fields [of pan junk dest seqno, folded p_def]
  show off: "\<not> aux_on llsec_off p" by (simp add: aux_on_def llsec_off_def)
  have "length (fcf_bytes (fr_fcf p)) = 2" by (simp add: fcf_bytes_def)
  moreover show hp: "frame802154_has_panid (fr_fcf p) = (False, dest \<noteq> None)"
    by (auto simp: frame802154_has_panid_def f frame802154_consts)
  ultimately show "length (frame_header llsec_off p) = eack_len dest"
    using off f by (auto simp: frame_header_def mac_fields_def Let_def eack_len_def addr_len_def frame802154_consts)
  show "frame_ok llsec_off p" using off f assms(1,2) by (auto simp: frame_ok_def fcf_ok_def split: option.splits)
  show "panid_ok (fr_fcf p)" using hp by (auto simp: panid_ok_def f)
  show "field_len llsec_off p = (p, snd (field_len llsec_off p))"
  proof -
    have "set_panid_compression p = fr_fcf p" using f(1) by (simp add: set_panid_compression_def frame802154_consts)
    then show ?thesis using field_len_fst [of llsec_off p] by simp
  qed
qed

lemma header_ack_nack_written:
  assumes room: "p + 4 \<le> length m" and l: "4 \<le> len"
    and d: "- 2048 \<le> sint (ie_time_correction e)" "sint (ie_time_correction e) < 2048"
  obtains m' where "frame80215e_create_ie_header_ack_nack_time_correction m p len (Some e) = Some (4, m')"
    and "length m' = length m" and "read16 m' p = Some (header_ie_desc HEADER_IE_ACK_NACK_TIME_CORRECTION 2)"
    and "\<And>m'' ies. mem_read m'' (p + 2) 2 = mem_read m' (p + 2) 2 \<Longrightarrow>
      frame802154e_parse_header_ie m'' (p + 2) 2 HEADER_IE_ACK_NACK_TIME_CORRECTION ies =
      Some (2, ies\<lparr>ie_is_nack := if ie_is_nack e \<noteq> 0 then 1 else 0, ie_time_correction := ie_time_correction e\<rparr>)"
proof -
  let ?f = "if ie_is_nack e \<noteq> 0 then (ie_time_correction e AND 0x0fff) OR 0x8000 else ie_time_correction e AND 0x0fff"
  obtain m1 where m1: "mem_write m (p + 2) (le16 ?f) = Some m1" using room by (simp add: mem_simps)
  obtain m2 where m2: "mem_write m1 p (le16 (header_ie_desc HEADER_IE_ACK_NACK_TIME_CORRECTION 2)) = Some m2"
    using room mem_write_length [OF m1] by (simp add: mem_simps)
  have r: "mem_read m2 (p + 2) 2 = Some (le16 ?f)"
    using mem_read_write_disjoint [OF m2, of "p + 2" 2] mem_read_write_same [OF m1, of 2] by simp
  have d2: "read16 m2 p = Some (header_ie_desc HEADER_IE_ACK_NACK_TIME_CORRECTION 2)"
    using mem_read_write_same [OF m2, of 2] by (simp add: read16_def)
  show ?thesis
  proof (rule that [OF _ _ d2])
    show "frame80215e_create_ie_header_ack_nack_time_correction m p len (Some e) = Some (4, m2)"
      using l m1 m2 by (simp add: frame80215e_create_ie_header_ack_nack_time_correction_def create_header_ie_descriptor_def Let_def)
    show "length m2 = length m" using mem_write_length [OF m1] mem_write_length [OF m2] by simp
    fix m'' ies assume "mem_read m'' (p + 2) 2 = mem_read m2 (p + 2) 2"
    then have "read16 m'' (p + 2) = Some ?f" using r by (simp add: read16_def)
    then show "frame802154e_parse_header_ie m'' (p + 2) 2 HEADER_IE_ACK_NACK_TIME_CORRECTION ies =
      Some (2, ies\<lparr>ie_is_nack := if ie_is_nack e \<noteq> 0 then 1 else 0, ie_time_correction := ie_time_correction e\<rparr>)"
      using drift_field [OF d, of "ie_is_nack e \<noteq> 0"]
      by (simp add: frame802154e_parse_header_ie_def del: add_2_eq_Suc' split: if_splits)
  qed
qed

lemma parse_ack_nack_ie:
  assumes d: "read16 buf p = Some (header_ie_desc HEADER_IE_ACK_NACK_TIME_CORRECTION 2)"
    and r: "frame802154e_parse_header_ie buf (p + 2) 2 HEADER_IE_ACK_NACK_TIME_CORRECTION (e\<lparr>ie_payload_ie_offset := 0\<rparr>) =
      Some (2, e'\<lparr>ie_payload_ie_offset := 0\<rparr>)"
  shows "frame802154e_parse_information_elements buf p 4 (Some e) = Some (4, Some (e'\<lparr>ie_payload_ie_offset := 4\<rparr>))"
proof -
  have s: "parse_ie_step buf p PARSING_HEADER_IE (p + 2) (4 - 2) (header_ie_desc HEADER_IE_ACK_NACK_TIME_CORRECTION 2) 0
      (e\<lparr>ie_payload_ie_offset := 0\<rparr>) = Some (Inr (PARSING_HEADER_IE, 2, 0, e'\<lparr>ie_payload_ie_offset := 0\<rparr>))"
    using r by (simp add: parse_ie_step_def parse_header_step_def Let_def HEADER_IE_ACK_NACK_TIME_CORRECTION_def
        HEADER_IE_LIST_TERMINATION_1_def HEADER_IE_LIST_TERMINATION_2_def del: add_2_eq_Suc')
  have "parse_ie_loop buf p PARSING_HEADER_IE p 4 0 (e\<lparr>ie_payload_ie_offset := 0\<rparr>) =
      parse_ie_loop buf p PARSING_HEADER_IE (p + 2 + unat (2 :: u16)) (4 - 2 - ucast (2 :: u16)) 0 (e'\<lparr>ie_payload_ie_offset := 0\<rparr>)"
    by (rule parse_ie_loop_round [OF _ d s]) simp
  also have "\<dots> = Some (4, e'\<lparr>ie_payload_ie_offset := 4\<rparr>)" using parse_ie_loop_end by simp
  finally show ?thesis by (simp add: frame802154e_parse_information_elements_def)
qed

lemma eack_created:
  fixes pan :: u16 and junk :: frame802154 and dest :: "linkaddr option" and seqno :: u8
  assumes j: "length (fr_dest_addr junk) = 8" "length (fr_src_addr junk) = 8"
    and room: "unat len \<le> length m" "eack_len dest + 4 \<le> unat len"
    and d: "- 2048 \<le> sint drift" "sint drift < 2048"
  obtains m' where "tsch_packet_create_eack pan junk (Some m) len dest seqno drift nack = Some (int (eack_len dest) + 4, Some m')"
    and "length m' = length m"
    and "\<exists>rest. take (eack_len dest + 4) m' = frame_header llsec_off (eack_params pan junk dest seqno) @ rest"
    and "\<And>buf. take (eack_len dest + 4) m' = buf \<Longrightarrow> frame802154e_parse_information_elements buf (eack_len dest) 4 (Some e) =
      Some (4, Some (e\<lparr>ie_is_nack := if (word_of_int nack :: u8) \<noteq> 0 then 1 else 0, ie_time_correction := drift,
                       ie_payload_ie_offset := 4\<rparr>))"
proof -
  let ?p = "eack_params pan junk dest seqno" and ?n = "eack_len dest"
  let ?e = "ies_zero\<lparr>ie_time_correction := drift, ie_is_nack := word_of_int nack\<rparr>" and ?H = "frame_header llsec_off ?p"
  note p = eack_params_ok [OF j, of pan dest seqno]
  note h = frame802154_hdrlen_header [OF p(3,1), unfolded p(4)]
  obtain m1 where m1: "mem_write m 0 (replicate (unat len) 0) = Some m1" using room(1) by (simp add: mem_simps)
  note l1 = mem_write_length [OF m1]
  have "int (unat len) = uint len" by simp
  with room l1 have r1: "?n + 4 \<le> length m1" "4 \<le> uint len - int ?n" by linarith+
  obtain m2 where m2: "frame80215e_create_ie_header_ack_nack_time_correction m1 ?n (uint len - int ?n) (Some ?e) = Some (4, m2)"
    "length m2 = length m1" "read16 m2 ?n = Some (header_ie_desc HEADER_IE_ACK_NACK_TIME_CORRECTION 2)"
    "\<And>m'' ies. mem_read m'' (?n + 2) 2 = mem_read m2 (?n + 2) 2 \<Longrightarrow>
      frame802154e_parse_header_ie m'' (?n + 2) 2 HEADER_IE_ACK_NACK_TIME_CORRECTION ies =
      Some (2, ies\<lparr>ie_is_nack := if ie_is_nack ?e \<noteq> 0 then 1 else 0, ie_time_correction := ie_time_correction ?e\<rparr>)"
    by (rule header_ack_nack_written [OF r1, of ?e]) (use d in simp_all)
  have "length ?H \<le> length m2" using p(4) r1 m2(2) by simp
  note c = frame802154_create_wrote [OF p(3,1) this, unfolded p(4)]
  let ?m = "?H @ drop ?n m2"
  have rd: "mem_read (take (?n + 4) ?m) (?n + i) k = mem_read m2 (?n + i) k" if "i + k \<le> 4" for i k
    using that r1(1) m2(2) p(4) by (simp add: mem_read_def min_def drop_take add.commute) arith
  show ?thesis
  proof (rule that)
    show "tsch_packet_create_eack pan junk (Some m) len dest seqno drift nack = Some (int ?n + 4, Some ?m)"
      by (simp add: tsch_packet_create_eack_def h m1 m2(1) c)
    show "length ?m = length m" using p(4) r1 m2(2) l1 by simp
    show "\<exists>rest. take (?n + 4) ?m = ?H @ rest" using p(4) by simp
    fix buf assume b: "take (?n + 4) ?m = buf"
    show "frame802154e_parse_information_elements buf ?n 4 (Some e) =
      Some (4, Some (e\<lparr>ie_is_nack := if (word_of_int nack :: u8) \<noteq> 0 then 1 else 0, ie_time_correction := drift,
                       ie_payload_ie_offset := 4\<rparr>))"
    proof (rule parse_ack_nack_ie [THEN trans])
      show "read16 buf ?n = Some (header_ie_desc HEADER_IE_ACK_NACK_TIME_CORRECTION 2)"
        using rd [of 0 2] m2(3) b by (simp add: read16_def)
      show "frame802154e_parse_header_ie buf (?n + 2) 2 HEADER_IE_ACK_NACK_TIME_CORRECTION (e\<lparr>ie_payload_ie_offset := 0\<rparr>) =
        Some (2, (e\<lparr>ie_is_nack := if (word_of_int nack :: u8) \<noteq> 0 then 1 else 0, ie_time_correction := drift\<rparr>)
           \<lparr>ie_payload_ie_offset := 0\<rparr>)"
        using m2(4) [of buf] rd [of 2 2] b by simp
    qed simp
  qed
qed

text \<open>What the sender of the data reads from the header of an EACK.\<close>

lemma eack_header_read:
  fixes pan :: u16 and junk :: frame802154 and dest :: "linkaddr option" and seqno :: u8
  assumes j: "length (fr_dest_addr junk) = 8" "length (fr_src_addr junk) = 8"
    and buf: "buf = frame_header llsec_off (eack_params pan junk dest seqno) @ rest" and n: "int (eack_len dest) \<le> n"
  obtains f where "frame802154_parse llsec_off buf n f0 = Some (int (eack_len dest), f)"
    and "fr_fcf f = fr_fcf (eack_params pan junk dest seqno)" and "fr_seq f = seqno"
    and "dest \<noteq> None \<Longrightarrow> fr_dest_pid f = pan" and "\<And>a. dest = Some a \<Longrightarrow> fr_dest_addr f = linkaddr_bytes a"
proof -
  let ?p = "eack_params pan junk dest seqno"
  note p = eack_params_ok [OF j, of pan dest seqno] and fp = eack_params_fields [of pan junk dest seqno]
  note f = read_frame_fields [where cfg = llsec_off and p = ?p and pf = f0]
  let ?f = "(read_frame llsec_off ?p f0)\<lparr>fr_payload_len := n - int (eack_len dest), fr_payload := eack_len dest\<rparr>"
  show ?thesis
  proof (rule that [of ?f])
    show "frame802154_parse llsec_off buf n f0 = Some (int (eack_len dest), ?f)"
      using frame802154_parse_header [OF p(1,2), of n f0 rest] p(4,6) n by (simp add: buf)
  qed (use f(1,2,3,9) p(2,5) fp in \<open>auto simp: frame802154_consts\<close>)
qed

lemma extract_dest:
  assumes "src_addr_mode (fr_fcf f) = 0" and "dest_addr_mode (fr_fcf f) = FRAME802154_LONGADDRMODE" and "fr_dest_addr f = linkaddr_bytes a"
  shows "frame802154_extract_linkaddr (Some f) None (Some d) = (1, None, Some (if a = -1 then 0 else a))"
  using assms is_broadcast_addr_long [of a]
  by (simp add: frame802154_extract_linkaddr_def extract_addr_def frame802154_consts)

lemma parse_frame_ies_ack:
  assumes "ie_list_present (fr_fcf f) \<noteq> 0" and "n \<le> 100"
    and "frame802154e_parse_information_elements buf n 4 ies = Some (4, Some e)"
  shows "parse_frame_ies buf (int n + 4) f ies (Some (of_nat n)) (of_nat n) =
    Some (int n + 4, Some f, Some e, Some (of_nat n + ie_payload_ie_offset e))"
proof -
  have u: "unat (of_nat n :: u8) = n" "uint (of_nat n :: u8) = int n" "uint (of_nat n + 4 :: u8) = int n + 4"
    using assms(2) by (simp_all add: unat_of_nat uint_nat unat_word_ariths)
  then show ?thesis using assms by (simp add: parse_frame_ies_def)
qed

lemma eack_roundtrip:
  fixes pan :: u16 and junk frm :: frame802154 and a :: linkaddr and seqno :: u8
  assumes j: "length (fr_dest_addr junk) = 8" "length (fr_src_addr junk) = 8"
    and room: "17 \<le> unat len" "unat len \<le> length m"
    and d: "- 2048 \<le> sint drift" "sint drift < 2048"
  shows "\<exists>m' frame. tsch_packet_create_eack pan junk (Some m) len (Some a) seqno drift nack = Some (17, Some m') \<and>
    length m' = length m \<and>
    tsch_packet_parse_eack pan a (take 17 m') 17 seqno (Some frm) (Some old) (Some h) =
      Some (17, Some frame, Some (ies_zero\<lparr>ie_is_nack := if (word_of_int nack :: u8) \<noteq> 0 then 1 else 0,
        ie_time_correction := drift, ie_payload_ie_offset := 4\<rparr>), Some 17) \<and>
    (\<forall>seqno' pan' a'. seqno' \<noteq> seqno \<or> pan' \<noteq> pan \<and> pan \<noteq> 0xffff \<or> a' \<noteq> a \<and> a \<noteq> 0 \<and> a \<noteq> -1 \<longrightarrow>
       map_option fst (tsch_packet_parse_eack pan' a' (take 17 m') 17 seqno' (Some frm) (Some old) (Some h)) = Some 0)"
proof -
  let ?d = "Some a" and ?p = "eack_params pan junk (Some a) seqno"
  let ?e = "ies_zero\<lparr>ie_is_nack := if (word_of_int nack :: u8) \<noteq> 0 then 1 else 0, ie_time_correction := drift, ie_payload_ie_offset := 4\<rparr>"
  have n: "eack_len ?d = 13" by (simp add: eack_len_def)
  obtain m' where m': "tsch_packet_create_eack pan junk (Some m) len ?d seqno drift nack = Some (17, Some m')"
    "length m' = length m" "\<exists>rest. take 17 m' = frame_header llsec_off ?p @ rest"
    "frame802154e_parse_information_elements (take 17 m') 13 4 (Some ies_zero) = Some (4, Some ?e)"
    by (rule eack_created [OF j room(2), of ?d drift pan seqno nack ies_zero]) (use room d in \<open>simp_all add: n\<close>)
  from m'(3) obtain rest where rest: "take 17 m' = frame_header llsec_off ?p @ rest" by blast
  have le: "int (eack_len ?d) \<le> 17" by (simp add: n)
  obtain f where f: "frame802154_parse llsec_off (take 17 m') 17 frm = Some (13, f)" "fr_fcf f = fr_fcf ?p" "fr_seq f = seqno"
    "fr_dest_pid f = pan" "fr_dest_addr f = linkaddr_bytes a"
    by (rule eack_header_read [OF j rest le, of frm]) (simp_all add: n)
  note fcf = f(2)[unfolded eack_params_fields(1)]
  have x: "frame802154_extract_linkaddr (Some f) None (Some 0) = (1, None, Some (if a = -1 then 0 else a))"
    by (rule extract_dest) (simp_all add: fcf f(5) frame802154_consts)
  have c: "frame802154_check_dest_panid pan' (Some f) = (if pan \<noteq> pan' \<and> pan \<noteq> 0xffff then 0 else 1)" for pan'
    using eack_params_ok(5) [OF j, of pan ?d seqno]
    by (simp add: frame802154_check_dest_panid_def f(2,4) frame802154_consts)
  have ies: "parse_frame_ies (take 17 m') 17 f (Some ies_zero) (Some 13) 13 = Some (17, Some f, Some ?e, Some 17)"
    using parse_frame_ies_ack [of f 13 "take 17 m'" "Some ies_zero" ?e] m'(4) by (simp add: fcf)
  have "tsch_packet_parse_eack pan a (take 17 m') 17 seqno (Some frm) (Some old) (Some h) = Some (17, Some f, Some ?e, Some 17)"
    by (simp add: tsch_packet_parse_eack_def f(1,3) x c ies)
  moreover have "map_option fst (tsch_packet_parse_eack pan' a' (take 17 m') 17 seqno' (Some frm) (Some old) (Some h)) = Some 0"
    if "seqno' \<noteq> seqno \<or> pan' \<noteq> pan \<and> pan \<noteq> 0xffff \<or> a' \<noteq> a \<and> a \<noteq> 0 \<and> a \<noteq> -1" for seqno' pan' a'
    using that by (auto simp: tsch_packet_parse_eack_def f(1,3) x c Let_def)
  ultimately show ?thesis using m'(1,2) by blast
qed

text \<open>
  an acknowledgement carries its news to the sender of the data.  For a receiver that
  acknowledges frame \<open>seqno\<close> of node \<open>a\<close> with a time correction of 12 bits, \<open>tsch_packet_create_eack\<close>
  writes 17 bytes.  Node \<open>a\<close>, waiting for this sequence number in the same PAN, reads back the time
  correction, its sign included, and the negative acknowledgement.  Waiting for another number,
  it rejects the frame; so does a node of another PAN, and every other node unless \<open>a\<close> is a
  broadcast address.
\<close>

theorem tsch_packet_eack_roundtrip:
  fixes pan :: u16 and junk frm :: frame802154 and a :: linkaddr and seqno :: u8
  assumes j: "length (fr_dest_addr junk) = 8" "length (fr_src_addr junk) = 8"
    and room: "17 \<le> unat len" "unat len \<le> length m"
    and d: "- 2048 \<le> sint drift" "sint drift < 2048"
  shows "\<exists>m' frame. tsch_packet_create_eack pan junk (Some m) len (Some a) seqno drift nack = Some (17, Some m') \<and>
    length m' = length m \<and>
    tsch_packet_parse_eack pan a (take 17 m') 17 seqno (Some frm) (Some old) (Some h) =
      Some (17, Some frame, Some (ies_zero\<lparr>ie_is_nack := if (word_of_int nack :: u8) \<noteq> 0 then 1 else 0,
        ie_time_correction := drift, ie_payload_ie_offset := 4\<rparr>), Some 17) \<and>
    (\<forall>seqno' pan' a'. seqno' \<noteq> seqno \<or> pan' \<noteq> pan \<and> pan \<noteq> 0xffff \<or> a' \<noteq> a \<and> a \<noteq> 0 \<and> a \<noteq> -1 \<longrightarrow>
       map_option fst (tsch_packet_parse_eack pan' a' (take 17 m') 17 seqno' (Some frm) (Some old) (Some h)) = Some 0)"
  by (rule eack_roundtrip [OF assms])

theorem tsch_packet_eack_roundtrip_witness:
  "\<exists>m' frame. tsch_packet_create_eack 0xabcd frame802154_zero (Some (replicate 20 7)) 20 (Some 0x1122) 5 (-3) 1 = Some (17, Some m') \<and>
    tsch_packet_parse_eack 0xabcd 0x1122 (take 17 m') 17 5 (Some frame802154_zero) (Some ies_zero) (Some 0) =
      Some (17, Some frame, Some (ies_zero\<lparr>ie_is_nack := 1, ie_time_correction := -3, ie_payload_ie_offset := 4\<rparr>), Some 17) \<and>
    map_option fst (tsch_packet_parse_eack 0xabcd 0x1122 (take 17 m') 17 6 (Some frame802154_zero) (Some ies_zero) (Some 0)) = Some 0"
proof -
  have h: "length (fr_dest_addr frame802154_zero) = 8" "length (fr_src_addr frame802154_zero) = 8" "17 \<le> unat (20 :: u16)"
    "unat (20 :: u16) \<le> length (replicate 20 (7 :: u8))" "- 2048 \<le> sint (-3 :: u16)" "sint (-3 :: u16) < 2048"
    by (simp_all add: frame802154_zero_def)
  from tsch_packet_eack_roundtrip [OF h, where pan = "0xabcd" and a = "0x1122" and seqno = 5 and nack = 1 and
      frm = frame802154_zero and old = ies_zero and h = 0]
  show ?thesis by fastforce
qed

text \<open>
  an acknowledgement without a destination address, as \<open>TSCH_PACKET_EACK_WITH_DEST_ADDR\<close> set to 0
  asks for, has no PAN identifier either, and the parser refuses such a frame before it looks at
  the address: no node ever accepts it.
\<close>

theorem tsch_packet_eack_without_address:
  fixes pan :: u16 and junk frm :: frame802154 and seqno :: u8
  assumes j: "length (fr_dest_addr junk) = 8" "length (fr_src_addr junk) = 8"
    and room: "7 \<le> unat len" "unat len \<le> length m"
    and d: "- 2048 \<le> sint drift" "sint drift < 2048"
  shows "\<exists>m'. tsch_packet_create_eack pan junk (Some m) len None seqno drift nack = Some (7, Some m') \<and>
    (\<forall>pan' a' seqno'. map_option fst (tsch_packet_parse_eack pan' a' (take 7 m') 7 seqno' (Some frm) ies h) = Some 0)"
proof -
  let ?p = "eack_params pan junk None seqno"
  have n: "eack_len None = 3" by (simp add: eack_len_def)
  obtain m' where m': "tsch_packet_create_eack pan junk (Some m) len None seqno drift nack = Some (7, Some m')"
    "\<exists>rest. take 7 m' = frame_header llsec_off ?p @ rest"
    by (rule eack_created [OF j room(2), of None drift pan seqno nack ies_zero]) (use room d in \<open>simp_all add: n\<close>)
  from m'(2) obtain rest where rest: "take 7 m' = frame_header llsec_off ?p @ rest" by blast
  have le: "int (eack_len None) \<le> 7" by (simp add: n)
  obtain f where f: "frame802154_parse llsec_off (take 7 m') 7 frm = Some (3, f)" "fr_fcf f = fr_fcf ?p"
    by (rule eack_header_read [OF j rest le, of frm]) (simp_all add: n)
  have "frame802154_check_dest_panid pan' (Some f) = 0" for pan'
    using eack_params_ok(5) [OF j, of pan None seqno] by (simp add: frame802154_check_dest_panid_def f(2))
  then show ?thesis using m'(1) by (auto simp: tsch_packet_parse_eack_def f(1) Let_def split: prod.splits)
qed

theorem tsch_packet_eack_without_address_witness:
  "\<exists>m'. tsch_packet_create_eack 0xabcd frame802154_zero (Some (replicate 20 7)) 20 None 5 0 0 = Some (7, Some m') \<and>
    map_option fst (tsch_packet_parse_eack 0xabcd 0x1122 (take 7 m') 7 5 (Some frame802154_zero) (Some ies_zero) (Some 0)) = Some 0"
  using tsch_packet_eack_without_address [where junk = frame802154_zero and len = 20 and m = "replicate 20 7" and drift = 0
      and pan = "0xabcd" and seqno = 5 and nack = 0 and frm = frame802154_zero and ies = "Some ies_zero" and h = "Some 0"]
  by (auto simp: frame802154_zero_def)

subsection \<open>The elements of a beacon\<close>

definition sync_bytes :: "ieee802154_ies \<Rightarrow> u8 list" where
  "sync_bytes e = le16 (mlme_short_ie_desc MLME_SHORT_IE_TSCH_SYNCHRONIZATION 6) @
     [ucast (ls4b (ie_asn e)), ucast (drop_bit 8 (ls4b (ie_asn e))), ucast (drop_bit 16 (ls4b (ie_asn e))),
      ucast (drop_bit 24 (ls4b (ie_asn e))), ms1b (ie_asn e), ie_join_priority e]"

definition timeslot_bytes :: "ieee802154_ies \<Rightarrow> u8 list" where
  "timeslot_bytes e =
     (if ie_tsch_timeslot_id e = 0 then le16 (mlme_short_ie_desc MLME_SHORT_IE_TSCH_TIMESLOT 1) @ [0]
      else le16 (mlme_short_ie_desc MLME_SHORT_IE_TSCH_TIMESLOT 25) @ ie_tsch_timeslot_id e # concat (map le16 (ie_tsch_timeslot e)))"

definition hopping_bytes :: "ieee802154_ies \<Rightarrow> u8 list" where
  "hopping_bytes e =
     (let n = unat (ie_hopping_sequence_len e)
      in if ie_channel_hopping_sequence_id e = 0
         then le16 (mlme_long_ie_desc MLME_LONG_IE_TSCH_CHANNEL_HOPPING_SEQUENCE 1) @ [0]
         else le16 (mlme_long_ie_desc MLME_LONG_IE_TSCH_CHANNEL_HOPPING_SEQUENCE (12 + int n)) @
              [ie_channel_hopping_sequence_id e, 0] @ le16 0 @ le16 0 @ le16 0 @ le16 (ie_hopping_sequence_len e) @
              take n (ie_hopping_sequence_list e) @ le16 0)"

definition link_bytes :: "tsch_slotframe_and_links_link \<Rightarrow> u8 list" where
  "link_bytes l = le16 (sl_timeslot l) @ le16 (sl_channel_offset l) @ [sl_link_options l]"

definition slotframe_bytes :: "ieee802154_ies \<Rightarrow> u8 list" where
  "slotframe_bytes e =
     (let sl = ie_slotframe_and_link e; nl = unat (sl_num_links sl)
      in if sl_num_slotframes sl = 0 then le16 (mlme_short_ie_desc MLME_SHORT_IE_TSCH_SLOFTRAME_AND_LINK 1) @ [0]
         else le16 (mlme_short_ie_desc MLME_SHORT_IE_TSCH_SLOFTRAME_AND_LINK (5 + 5 * int nl)) @
              [1, sl_slotframe_handle sl] @ le16 (sl_slotframe_size sl) @ [sl_num_links sl] @
              concat (map link_bytes (take nl (sl_links sl))))"

text \<open>Elements as beacons carry them: arrays of their declared sizes, at most one slotframe and four links.\<close>

definition eb_ies_ok :: "ieee802154_ies \<Rightarrow> bool" where
  "eb_ies_ok e \<longleftrightarrow> length (ie_tsch_timeslot e) = tsch_ts_elements_count \<and>
     length (ie_hopping_sequence_list e) = TSCH_HOPPING_SEQUENCE_MAX_LEN \<and>
     unat (ie_hopping_sequence_len e) \<le> TSCH_HOPPING_SEQUENCE_MAX_LEN \<and>
     length (sl_links (ie_slotframe_and_link e)) = FRAME802154E_IE_MAX_LINKS \<and>
     unat (sl_num_slotframes (ie_slotframe_and_link e)) \<le> 1 \<and>
     unat (sl_num_links (ie_slotframe_and_link e)) \<le> FRAME802154E_IE_MAX_LINKS"

text \<open>
  A writer puts the bytes \<open>bs\<close> at the place it is given; it may touch up to 32 bytes from there on,
  since the next element is written over whatever comes behind \<open>bs\<close>.
\<close>

definition ie_writes :: "ie_writer \<Rightarrow> ieee802154_ies \<Rightarrow> u8 list \<Rightarrow> bool" where
  "ie_writes w e bs \<longleftrightarrow> (\<forall>m p len. p + 32 \<le> length m \<longrightarrow> int (length bs) \<le> len \<longrightarrow>
     (\<exists>m'. w m p len (Some e) = Some (int (length bs), m') \<and> length m' = length m \<and>
        take (p + length bs) m' = take p m @ bs))"

lemma take_written: "p + k \<le> length m \<Longrightarrow> take p (take p m @ bs @ drop (p + k) m) = take p m"
  by simp

lemma mem_write_at:
  "n = length pre \<Longrightarrow> length bs \<le> length rest \<Longrightarrow> mem_write (pre @ rest) n bs = Some (pre @ bs @ drop (length bs) rest)"
  by (simp add: mem_simps)

lemma mem_write_seq:
  assumes "p + length as + length bs \<le> length m"
  shows "(mem_write m p as \<bind> (\<lambda>m1. mem_write m1 (p + length as) bs)) = mem_write m p (as @ bs)"
proof -
  let ?m = "take p m @ as @ drop (p + length as) m"
  have "mem_write ((take p m @ as) @ drop (p + length as) m) (p + length as) bs =
      Some ((take p m @ as) @ bs @ drop (length bs) (drop (p + length as) m))"
    by (rule mem_write_at) (use assms in simp_all)
  then show ?thesis using assms by (simp add: mem_write_Some add.commute add.left_commute)
qed

lemma length_concat_le16 [simp]: "length (concat (map le16 vs)) = 2 * length vs"
  by (induction vs) simp_all

lemma length_link_bytes: "length (link_bytes l) = 5"
  by (simp add: link_bytes_def)

lemma length_concat_links [simp]: "length (concat (map link_bytes ls)) = 5 * length ls"
  by (induction ls) (simp_all add: link_bytes_def)

lemma write_u16s_bytes:
  "p + 2 * length vs \<le> length m \<Longrightarrow> write_u16s m p vs = mem_write m p (concat (map le16 vs))"
proof (induction vs arbitrary: m p)
  case (Cons v vs)
  have "write_u16s m p (v # vs) = (mem_write m p (le16 v) \<bind> (\<lambda>m1. mem_write m1 (p + length (le16 v)) (concat (map le16 vs))))"
    using Cons by (auto simp: mem_simps)
  also have "\<dots> = mem_write m p (le16 v @ concat (map le16 vs))" by (rule mem_write_seq) (use Cons.prems in simp)
  finally show ?case by simp
qed (simp add: mem_simps)

lemma write_link_bytes:
  assumes "p + 5 \<le> length m"
  shows "do { m1 \<leftarrow> mem_write m p (le16 a); m2 \<leftarrow> mem_write m1 (p + 2) (le16 b); mem_write m2 (p + 4) [c] } =
    mem_write m p (le16 a @ le16 b @ [c])"
proof -
  have "do { m1 \<leftarrow> mem_write m p (le16 a); m2 \<leftarrow> mem_write m1 (p + length (le16 a)) (le16 b); mem_write m2 (p + 4) [c] } =
    (mem_write m p (le16 a @ le16 b) \<bind> (\<lambda>m2. mem_write m2 (p + length (le16 a @ le16 b)) [c]))"
    using mem_write_seq [of p "le16 a" "le16 b" m] assms by (cases "mem_write m p (le16 a)") (simp_all add: mem_write_None_iff)
  also have "\<dots> = mem_write m p ((le16 a @ le16 b) @ [c])" by (rule mem_write_seq) (use assms in simp)
  finally show ?thesis by simp
qed

lemma write_links_bytes:
  "p + 5 * length ls \<le> length m \<Longrightarrow> write_links m p ls = mem_write m p (concat (map link_bytes ls))"
proof (induction ls arbitrary: m p)
  case (Cons l ls)
  have "write_links m p (l # ls) = (do { m1 \<leftarrow> mem_write m p (le16 (sl_timeslot l));
      m2 \<leftarrow> mem_write m1 (p + 2) (le16 (sl_channel_offset l)); mem_write m2 (p + 4) [sl_link_options l] } \<bind>
      (\<lambda>m3. write_links m3 (p + 5) ls))" by simp
  also have "\<dots> = (mem_write m p (link_bytes l) \<bind> (\<lambda>m3. write_links m3 (p + 5) ls))"
    using write_link_bytes [of p m] Cons.prems by (simp add: link_bytes_def)
  also have "\<dots> = (mem_write m p (link_bytes l) \<bind> (\<lambda>m3. mem_write m3 (p + length (link_bytes l)) (concat (map link_bytes ls))))"
    using Cons by (intro Option.bind_cong refl) (auto simp: length_link_bytes dest!: mem_write_length)
  also have "\<dots> = mem_write m p (link_bytes l @ concat (map link_bytes ls))"
    by (rule mem_write_seq) (use Cons.prems in \<open>simp add: link_bytes_def\<close>)
  finally show ?case by simp
qed (simp add: mem_simps)

declare add_2_eq_Suc [simp del] add_2_eq_Suc' [simp del]

text \<open>
  Data first, descriptor last: what a writer leaves that writes its fields behind the descriptor and
  then the descriptor in front of them.
\<close>

lemma fields_then_desc:
  assumes "p + 2 + length bs \<le> length m"
  shows "(mem_write m (p + 2) bs \<bind> (\<lambda>m1. mem_write m1 p (le16 d))) = Some (take p m @ le16 d @ bs @ drop (p + 2 + length bs) m)"
proof -
  have w: "mem_write m (p + 2) bs = Some (take p m @ (take 2 (drop p m) @ bs @ drop (p + 2 + length bs) m))"
    using assms by (simp add: mem_simps take_add [of p 2] add.assoc)
  have "length (take 2 (drop p m)) = 2" using assms by simp
  then have "drop (length (le16 d)) (take 2 (drop p m) @ bs @ drop (p + 2 + length bs) m) = bs @ drop (p + 2 + length bs) m" by simp
  then have "mem_write (take p m @ (take 2 (drop p m) @ bs @ drop (p + 2 + length bs) m)) p (le16 d) =
      Some (take p m @ le16 d @ bs @ drop (p + 2 + length bs) m)"
    using assms by (subst mem_write_at) simp_all
  then show ?thesis unfolding w by simp
qed

lemma sync_writes_exact:
  assumes "p + 8 \<le> length m" and "8 \<le> len"
  shows "frame80215e_create_ie_tsch_synchronization m p len (Some e) = Some (8, take p m @ sync_bytes e @ drop (p + 8) m)"
proof -
  let ?bs = "[ucast (ls4b (ie_asn e)), ucast (drop_bit 8 (ls4b (ie_asn e))), ucast (drop_bit 16 (ls4b (ie_asn e))),
      ucast (drop_bit 24 (ls4b (ie_asn e))), ms1b (ie_asn e), ie_join_priority e]"
  have l: "length ?bs = 6" by simp
  obtain m1 where m1: "mem_write m (p + 2) ?bs = Some m1" using assms(1) by (simp add: mem_simps)
  have "(mem_write m (p + 2) ?bs \<bind> (\<lambda>m1. mem_write m1 p (le16 (mlme_short_ie_desc MLME_SHORT_IE_TSCH_SYNCHRONIZATION 6)))) =
      Some (take p m @ sync_bytes e @ drop (p + 8) m)"
    using fields_then_desc [of p ?bs m] assms(1) unfolding l by (simp add: sync_bytes_def add.commute)
  then show ?thesis
    using assms(2) m1 by (simp add: frame80215e_create_ie_tsch_synchronization_def create_mlme_short_ie_descriptor_def)
qed

lemma take_concat_bytes: "length pre = p \<Longrightarrow> length bs = k \<Longrightarrow> take (p + k) (pre @ bs @ rest) = pre @ bs"
  by simp

lemma ie_writesI:
  assumes "\<And>(m :: u8 list) p len. p + 32 \<le> length m \<Longrightarrow> int (length bs) \<le> len \<Longrightarrow>
    \<exists>xs. w m p len (Some e) = Some (int (length bs), take p m @ bs @ xs) \<and> length (take p m @ bs @ xs) = length m"
  shows "ie_writes w e bs"
  unfolding ie_writes_def
proof (intro allI impI)
  fix m :: "u8 list" and p :: nat and len :: int
  assume "p + 32 \<le> length m" "int (length bs) \<le> len"
  with assms [of p m len] obtain xs where xs: "w m p len (Some e) = Some (int (length bs), take p m @ bs @ xs)"
    "length (take p m @ bs @ xs) = length m" by auto
  moreover have "take (p + length bs) (take p m @ bs @ xs) = take p m @ bs"
    by (rule take_concat_bytes) (use \<open>p + 32 \<le> length m\<close> in simp_all)
  ultimately show "\<exists>m'. w m p len (Some e) = Some (int (length bs), m') \<and> length m' = length m \<and>
    take (p + length bs) m' = take p m @ bs" by blast
qed

lemma sync_writes: "ie_writes frame80215e_create_ie_tsch_synchronization e (sync_bytes e)"
proof (rule ie_writesI)
  fix m :: "u8 list" and p :: nat and len :: int
  assume a: "p + 32 \<le> length m" "int (length (sync_bytes e)) \<le> len"
  have "length (sync_bytes e) = 8" by (simp add: sync_bytes_def)
  with a show "\<exists>xs. frame80215e_create_ie_tsch_synchronization m p len (Some e) =
      Some (int (length (sync_bytes e)), take p m @ sync_bytes e @ xs) \<and> length (take p m @ sync_bytes e @ xs) = length m"
    using sync_writes_exact [of p m len e] by auto
qed

lemma timeslot_writes:
  assumes "eb_ies_ok e"
  shows "ie_writes frame80215e_create_ie_tsch_timeslot e (timeslot_bytes e)"
proof (rule ie_writesI)
  fix m :: "u8 list" and p :: nat and len :: int
  assume a: "p + 32 \<le> length m" "int (length (timeslot_bytes e)) \<le> len"
  let ?id = "ie_tsch_timeslot_id e" and ?ts = "ie_tsch_timeslot e"
  let ?D = "\<lambda>l. mlme_short_ie_desc MLME_SHORT_IE_TSCH_TIMESLOT l"
  have n: "length ?ts = 12" using assms by (simp add: eb_ies_ok_def tsch_ts_elements_count_def)
  show "\<exists>xs. frame80215e_create_ie_tsch_timeslot m p len (Some e) =
      Some (int (length (timeslot_bytes e)), take p m @ timeslot_bytes e @ xs) \<and> length (take p m @ timeslot_bytes e @ xs) = length m"
  proof (cases "?id = 0")
    case True
    have "(mem_write m (p + 2) [?id] \<bind> (\<lambda>m1. mem_write m1 p (le16 (?D 1)))) =
        Some (take p m @ le16 (?D 1) @ [0] @ drop (p + 3) m)"
      using fields_then_desc [of p "[?id]" m "?D 1"] True a(1) by (simp add: add.commute)
    moreover have "3 \<le> len" "timeslot_bytes e = le16 (?D 1) @ [0]" using True a(2) by (simp_all add: timeslot_bytes_def)
    ultimately show ?thesis using True a(1)
      by (intro exI [of _ "drop (p + 3) m"])
        (simp add: frame80215e_create_ie_tsch_timeslot_def Let_def create_mlme_short_ie_descriptor_def mem_write_Some)
  next
    case False
    have "(mem_write m (p + 2) [?id] \<bind> (\<lambda>m1. write_u16s m1 (p + 3) ?ts)) =
        (mem_write m (p + 2) [?id] \<bind> (\<lambda>m1. mem_write m1 (p + 2 + length [?id]) (concat (map le16 ?ts))))"
      using a(1) n by (intro Option.bind_cong refl write_u16s_bytes [THEN trans]) (auto dest!: mem_write_length simp: add.commute)
    also have "\<dots> = mem_write m (p + 2) ([?id] @ concat (map le16 ?ts))" by (rule mem_write_seq) (use a(1) n in simp)
    finally have w: "(mem_write m (p + 2) [?id] \<bind> (\<lambda>m1. write_u16s m1 (p + 3) ?ts)) =
        mem_write m (p + 2) (?id # concat (map le16 ?ts))" by simp
    have f: "(mem_write m (p + 2) (?id # concat (map le16 ?ts)) \<bind> (\<lambda>m1. mem_write m1 p (le16 (?D 25)))) =
        Some (take p m @ timeslot_bytes e @ drop (p + 27) m)"
      using fields_then_desc [of p "?id # concat (map le16 ?ts)" m "?D 25"] False a(1) n by (simp add: timeslot_bytes_def add.commute)
    have l: "length (timeslot_bytes e) = 27" using False n by (simp add: timeslot_bytes_def)
    have "frame80215e_create_ie_tsch_timeslot m p len (Some e) =
        ((mem_write m (p + 2) [?id] \<bind> (\<lambda>m1. write_u16s m1 (p + 3) ?ts)) \<bind>
         (\<lambda>m1. mem_write m1 p (le16 (?D 25)) \<bind> (\<lambda>m2. Some (27, m2))))"
      using False a(2) l by (simp add: frame80215e_create_ie_tsch_timeslot_def Let_def create_mlme_short_ie_descriptor_def)
    also have "\<dots> = Some (27, take p m @ timeslot_bytes e @ drop (p + 27) m)"
      unfolding w using f by (cases "mem_write m (p + 2) (?id # concat (map le16 ?ts))") auto
    finally show ?thesis using l a(1) by (intro exI [of _ "drop (p + 27) m"]) simp
  qed
qed

fun write_seq :: "u8 list \<Rightarrow> nat \<Rightarrow> u8 list list \<Rightarrow> u8 list ub" where
  "write_seq m p [] = Some m"
| "write_seq m p (bs # bss) = do { m1 \<leftarrow> mem_write m p bs; write_seq m1 (p + length bs) bss }"

lemma write_seq_concat: "p + length (concat bss) \<le> length m \<Longrightarrow> write_seq m p bss = mem_write m p (concat bss)"
proof (induction bss arbitrary: m p)
  case (Cons bs bss)
  have "write_seq m p (bs # bss) = (mem_write m p bs \<bind> (\<lambda>m1. mem_write m1 (p + length bs) (concat bss)))"
    using Cons by (auto intro!: Option.bind_cong dest!: mem_write_length)
  then show ?case using mem_write_seq [of p bs "concat bss" m] Cons.prems by simp
qed (simp add: mem_simps)

lemma hopping_writes:
  assumes "eb_ies_ok e"
  shows "ie_writes frame80215e_create_ie_tsch_channel_hopping_sequence e (hopping_bytes e)"
proof (rule ie_writesI)
  fix m :: "u8 list" and p :: nat and len :: int
  assume a: "p + 32 \<le> length m" "int (length (hopping_bytes e)) \<le> len"
  let ?id = "ie_channel_hopping_sequence_id e" and ?l = "ie_hopping_sequence_len e" and ?n = "unat (ie_hopping_sequence_len e)"
  let ?D = "\<lambda>l. mlme_long_ie_desc MLME_LONG_IE_TSCH_CHANNEL_HOPPING_SEQUENCE l"
  define k where "k = (if ?id = 0 then 1 else 12 + int ?n)"
  define bs where "bs = [[?id, 0], le16 0, le16 0, le16 0, le16 ?l, take ?n (ie_hopping_sequence_list e), le16 0]"
  have n: "?n \<le> 4" "length (ie_hopping_sequence_list e) = 4"
    using assms by (simp_all add: eb_ies_ok_def TSCH_HOPPING_SEQUENCE_MAX_LEN_def)
  then have lb: "length (concat bs) = 12 + ?n" by (simp add: bs_def)
  have w: "write_seq m (p + 2) bs = mem_write m (p + 2) (concat bs)"
    by (rule write_seq_concat) (use a(1) lb n in simp)
  have f: "(mem_write m (p + 2) (concat bs) \<bind> (\<lambda>m1. mem_write m1 p (le16 (?D k)))) =
      Some (take p m @ le16 (?D k) @ concat bs @ drop (p + 2 + length (concat bs)) m)"
    by (rule fields_then_desc) (use a(1) lb n in simp)
  have l: "int (length (hopping_bytes e)) = 2 + k" using n by (simp add: hopping_bytes_def k_def Let_def)
  have "frame80215e_create_ie_tsch_channel_hopping_sequence m p len (Some e) =
      (write_seq m (p + 2) bs \<bind> (\<lambda>m1. mem_write m1 p (le16 (?D k)) \<bind> (\<lambda>m2. Some (2 + k, m2))))"
    using a(2) n(1) unfolding l
    by (simp add: frame80215e_create_ie_tsch_channel_hopping_sequence_def Let_def create_mlme_long_ie_descriptor_def
        TSCH_HOPPING_SEQUENCE_MAX_LEN_def bs_def n(2) add.commute [of p] add.assoc flip: k_def)
  also have "\<dots> = Some (2 + k, take p m @ le16 (?D k) @ concat bs @ drop (p + 2 + length (concat bs)) m)"
    unfolding w using f by (cases "mem_write m (p + 2) (concat bs)") auto
  finally have r: "frame80215e_create_ie_tsch_channel_hopping_sequence m p len (Some e) =
      Some (2 + k, take p m @ le16 (?D k) @ concat bs @ drop (p + 2 + length (concat bs)) m)" .
  have h: "\<exists>ys. le16 (?D k) @ concat bs = hopping_bytes e @ ys"
    by (auto simp: hopping_bytes_def k_def bs_def Let_def)
  then obtain ys where "le16 (?D k) @ concat bs = hopping_bytes e @ ys" by blast
  then have "take p m @ le16 (?D k) @ concat bs @ drop (p + 2 + length (concat bs)) m =
      take p m @ hopping_bytes e @ ys @ drop (p + 2 + length (concat bs)) m"
    by (metis append_assoc)
  moreover have "length (take p m @ le16 (?D k) @ concat bs @ drop (p + 2 + length (concat bs)) m) = length m"
    using a(1) lb n by simp
  ultimately show "\<exists>xs. frame80215e_create_ie_tsch_channel_hopping_sequence m p len (Some e) =
      Some (int (length (hopping_bytes e)), take p m @ hopping_bytes e @ xs) \<and> length (take p m @ hopping_bytes e @ xs) = length m"
    unfolding r l by metis
qed

lemma slotframe_writes:
  assumes "eb_ies_ok e"
  shows "ie_writes frame80215e_create_ie_tsch_slotframe_and_link e (slotframe_bytes e)"
proof (rule ie_writesI)
  fix m :: "u8 list" and p :: nat and len :: int
  assume a: "p + 32 \<le> length m" "int (length (slotframe_bytes e)) \<le> len"
  let ?sl = "ie_slotframe_and_link e"
  let ?ns = "sl_num_slotframes ?sl" and ?nl = "unat (sl_num_links ?sl)"
  let ?D = "\<lambda>l. mlme_short_ie_desc MLME_SHORT_IE_TSCH_SLOFTRAME_AND_LINK l"
  let ?ls = "take ?nl (sl_links ?sl)"
  have n: "?nl \<le> 4" "length (sl_links ?sl) = 4" "unat ?ns \<le> 1"
    using assms by (simp_all add: eb_ies_ok_def FRAME802154E_IE_MAX_LINKS_def)
  have un: "nat (uint (sl_num_links ?sl)) = ?nl" "uint (sl_num_links ?sl) = int ?nl" by simp_all
  then have nlu: "\<not> 4 < uint (sl_num_links ?sl)" using n(1) by linarith
  show "\<exists>xs. frame80215e_create_ie_tsch_slotframe_and_link m p len (Some e) =
      Some (int (length (slotframe_bytes e)), take p m @ slotframe_bytes e @ xs) \<and> length (take p m @ slotframe_bytes e @ xs) = length m"
  proof (cases "?ns = 0")
    case True
    have "(mem_write m (p + 2) [0] \<bind> (\<lambda>m1. mem_write m1 p (le16 (?D 1)))) = Some (take p m @ le16 (?D 1) @ [0] @ drop (p + 3) m)"
      using fields_then_desc [of p "[0]" m "?D 1"] a(1) by (simp add: add.commute)
    moreover have "3 \<le> len" "slotframe_bytes e = le16 (?D 1) @ [0]" using True a(2) by (simp_all add: slotframe_bytes_def Let_def)
    ultimately show ?thesis using True a(1) n
      by (intro exI [of _ "drop (p + 3) m"])
        (simp add: frame80215e_create_ie_tsch_slotframe_and_link_def Let_def create_mlme_short_ie_descriptor_def mem_write_Some
          FRAME802154E_IE_MAX_LINKS_def nlu)
  next
    case False
    then have ns: "?ns = 1" using n(3) by (metis One_nat_def le_Suc_eq le_zero_eq unat_1 unat_eq_zero word_unat_eq_iff)
    define bs where "bs = [[1], [sl_slotframe_handle ?sl], le16 (sl_slotframe_size ?sl), [sl_num_links ?sl], concat (map link_bytes ?ls)]"
    have lls: "length ?ls = ?nl" using n by simp
    then have lb: "length (concat bs) = 5 + 5 * ?nl" by (simp add: bs_def)
    have w: "write_seq m (p + 2) bs = mem_write m (p + 2) (concat bs)"
      by (rule write_seq_concat) (use a(1) lb n in simp)
    have f: "(mem_write m (p + 2) (concat bs) \<bind> (\<lambda>m1. mem_write m1 p (le16 (?D (5 + 5 * int ?nl))))) =
        Some (take p m @ le16 (?D (5 + 5 * int ?nl)) @ concat bs @ drop (p + 2 + length (concat bs)) m)"
      by (rule fields_then_desc) (use a(1) lb n in simp)
    have b: "slotframe_bytes e = le16 (?D (5 + 5 * int ?nl)) @ concat bs"
      by (simp add: slotframe_bytes_def Let_def ns bs_def)
    have l': "length (slotframe_bytes e) = 7 + 5 * ?nl" using lb by (simp add: b)
    have l: "int (length (slotframe_bytes e)) = 7 + 5 * int ?nl" using lb by (simp add: b)
    have links: "write_links m1 q ?ls = mem_write m1 q (concat (map link_bytes ?ls))" if "q + 20 \<le> length m1" for m1 q
      using that n(1) lls by (intro write_links_bytes) simp
    let ?W = "\<lambda>last. do { m1 \<leftarrow> mem_write m (p + 2) [1]; m3 \<leftarrow> mem_write m1 (p + 2 + 1) [sl_slotframe_handle ?sl];
          m4 \<leftarrow> mem_write m3 (p + 2 + 2) (le16 (sl_slotframe_size ?sl)); m5 \<leftarrow> mem_write m4 (p + 2 + 4) [sl_num_links ?sl];
          last m5 (p + 2 + 5) }"
    have "write_seq m (p + 2) bs = ?W (\<lambda>m5 q. mem_write m5 q (concat (map link_bytes ?ls)))"
      by (simp add: bs_def add.assoc add.commute [of p])
    also have "\<dots> = ?W (\<lambda>m5 q. write_links m5 q ?ls)"
      using a(1) by (intro Option.bind_cong refl links [symmetric]) (auto dest!: mem_write_length)
    finally have inner: "?W (\<lambda>m5 q. write_links m5 q ?ls) = write_seq m (p + 2) bs" by simp
    have c: "\<not> (1 < uint ?ns \<or> int FRAME802154E_IE_MAX_LINKS < uint (sl_num_links ?sl) \<or>
        len < 2 + (1 + uint ?ns * (4 + 5 * uint (sl_num_links ?sl))))"
      using a(2) nlu unfolding l ns un(2) [symmetric] by (simp add: FRAME802154E_IE_MAX_LINKS_def)
    have u1: "uint ?ns = 1" "1 + 1 * (4 + 5 * int ?nl) = 5 + 5 * int ?nl" "2 + (5 + 5 * int ?nl) = 7 + 5 * int ?nl"
      using ns by simp_all
    have "frame80215e_create_ie_tsch_slotframe_and_link m p len (Some e) =
        (write_seq m (p + 2) bs \<bind> (\<lambda>m1. mem_write m1 p (le16 (?D (5 + 5 * int ?nl))) \<bind> (\<lambda>m2. Some (7 + 5 * int ?nl, m2))))"
      unfolding frame80215e_create_ie_tsch_slotframe_and_link_def Let_def option.case if_not_P [OF c] create_mlme_short_ie_descriptor_def
        inner [symmetric] u1 un
      using c by (simp add: ns)
    also have "\<dots> = Some (7 + 5 * int ?nl, take p m @ slotframe_bytes e @ drop (p + 2 + length (concat bs)) m)"
      unfolding w b using f by (cases "mem_write m (p + 2) (concat bs)") auto
    finally show ?thesis using l l' lb n(1) a(1) by (intro exI [of _ "drop (p + 2 + length (concat bs)) m"]) simp
  qed
qed

lemma remaininglen_plain:
  assumes "pb_bufptr s = 0" and "pb_hdrlen s = 0" and "pb_buflen s = of_nat p" and "p \<le> 128"
  shows "uint (packetbuf_remaininglen s) = 128 - int p" and "packetbuf_dataptr s = 0"
proof -
  have t: "packetbuf_totlen s = of_nat p"
    using assms by (simp add: packetbuf_totlen_def packetbuf_hdrlen_def packetbuf_datalen_def)
  have "unat (128 - of_nat p :: u16) = 128 - p" using assms(4) by (subst unat_sub) (simp_all add: word_le_nat_alt unat_of_nat)
  then have "uint (128 - of_nat p :: u16) = int (128 - p)" by (metis uint_nat)
  then show "uint (packetbuf_remaininglen s) = 128 - int p"
    using assms(4) unfolding packetbuf_remaininglen_def PACKETBUF_SIZE_def t by simp
  show "packetbuf_dataptr s = 0" using assms by (simp add: packetbuf_dataptr_def packetbuf_hdrlen_def)
qed

lemma eb_append_all_writes:
  assumes "list_all2 (\<lambda>w bs. ie_writes w e bs) ws bss"
    and "length (pb_mem s) = 128" and "pb_bufptr s = 0" and "pb_hdrlen s = 0" and "pb_buflen s = of_nat p"
    and "p + length (concat bss) \<le> 96"
  shows "\<exists>m. eb_append_all ws e (p, s) =
      Some (True, s\<lparr>pb_mem := m, pb_buflen := of_nat (p + length (concat bss))\<rparr>) \<and> length m = 128 \<and>
    take (p + length (concat bss)) m = take p (pb_mem s) @ concat bss"
  using assms
proof (induction ws bss arbitrary: s p rule: list_all2_induct)
  case Nil
  then have "s\<lparr>pb_mem := pb_mem s, pb_buflen := of_nat p\<rparr> = s" by simp
  then show ?case using Nil by (intro exI [of _ "pb_mem s"]) simp
next
  case (Cons w ws bs bss)
  have p: "p \<le> 96" "p + 32 \<le> length (pb_mem s)" "int (length bs) \<le> uint (packetbuf_remaininglen s)"
    using Cons.prems remaininglen_plain(1) [of s p] by auto
  obtain m1 where m1: "w (pb_mem s) p (uint (packetbuf_remaininglen s)) (Some e) = Some (int (length bs), m1)"
    "length m1 = 128" "take (p + length bs) m1 = take p (pb_mem s) @ bs"
    using Cons.hyps(1) p(2,3) Cons.prems(1) unfolding ie_writes_def by metis
  let ?s = "s\<lparr>pb_mem := m1, pb_buflen := of_nat (p + length bs)\<rparr>"
  have a: "eb_append w e (p, s) = Some (True, p + length bs, ?s)"
    using m1(1) Cons.prems(4) by (simp add: eb_append_def packetbuf_set_datalen_def packetbuf_datalen_def)
  obtain m where m: "eb_append_all ws e (p + length bs, ?s) =
      Some (True, ?s\<lparr>pb_mem := m, pb_buflen := of_nat (p + length bs + length (concat bss))\<rparr>)" "length m = 128"
    "take (p + length bs + length (concat bss)) m = take (p + length bs) (pb_mem ?s) @ concat bss"
    using Cons.IH [of ?s "p + length bs"] Cons.prems m1(2) by auto
  then show ?case using a m1(3) by (auto simp: add.assoc)
qed

definition eb_bytes :: "ieee802154_ies \<Rightarrow> u8 list" where
  "eb_bytes e = sync_bytes e @ timeslot_bytes e @ hopping_bytes e @ slotframe_bytes e"

lemma eb_writers_write:
  assumes "eb_ies_ok e"
  shows "list_all2 (\<lambda>w bs. ie_writes w e bs) eb_writers [sync_bytes e, timeslot_bytes e, hopping_bytes e, slotframe_bytes e]"
  using sync_writes timeslot_writes [OF assms] hopping_writes [OF assms] slotframe_writes [OF assms]
  by (simp add: eb_writers_def)

lemma length_slotframe_bytes:
  assumes "eb_ies_ok e"
  shows "length (slotframe_bytes e) =
    (if sl_num_slotframes (ie_slotframe_and_link e) = 0 then 3 else 7 + 5 * unat (sl_num_links (ie_slotframe_and_link e)))"
  using assms by (simp add: slotframe_bytes_def Let_def eb_ies_ok_def)

lemma length_eb_bytes:
  assumes "eb_ies_ok e"
  shows "length (eb_bytes e) \<le> 80" and "17 \<le> length (eb_bytes e)"
proof -
  have "length (sync_bytes e) = 8" by (simp add: sync_bytes_def)
  moreover have "length (timeslot_bytes e) \<in> {3, 27}"
    using assms by (simp add: timeslot_bytes_def eb_ies_ok_def tsch_ts_elements_count_def)
  moreover have "3 \<le> length (hopping_bytes e)" "length (hopping_bytes e) \<le> 18"
    using assms by (auto simp: hopping_bytes_def Let_def eb_ies_ok_def TSCH_HOPPING_SEQUENCE_MAX_LEN_def)
  moreover have "3 \<le> length (slotframe_bytes e)" "length (slotframe_bytes e) \<le> 27"
    using assms length_slotframe_bytes [OF assms] by (auto simp: eb_ies_ok_def FRAME802154E_IE_MAX_LINKS_def)
  ultimately show "length (eb_bytes e) \<le> 80" "17 \<le> length (eb_bytes e)" by (auto simp: eb_bytes_def)
qed

text \<open>The elements of a beacon with the two descriptors in front of them.\<close>

definition eb_frame :: "ieee802154_ies \<Rightarrow> u8 list" where
  "eb_frame e = le16 (header_ie_desc HEADER_IE_LIST_TERMINATION_1 0) @
     le16 (payload_ie_desc PAYLOAD_IE_MLME (int (length (eb_bytes e)))) @ eb_bytes e"

lemma eb_payload_header_spec:
  assumes s: "length (pb_mem s) = 128" "pb_bufptr s = 0" "pb_hdrlen s = 0" "pb_buflen s = of_nat n"
    and n: "n = length (eb_bytes e)" "n \<le> 80" and c: "take n (pb_mem s) = eb_bytes e"
  shows "\<exists>m. eb_payload_header e' s = Some (True, s\<lparr>pb_mem := m, pb_buflen := of_nat (n + 2), pb_hdrlen := 2\<rparr>) \<and>
    length m = 128 \<and> take (n + 4) m = eb_frame e"
proof -
  let ?M = "payload_ie_desc PAYLOAD_IE_MLME (int n)" and ?T = "header_ie_desc HEADER_IE_LIST_TERMINATION_1 0"
  have un: "unat (of_nat n :: u16) = n" "uint (of_nat n :: u16) = int n" using n(2) by (simp_all add: unat_of_nat uint_nat)
  define m1 where "m1 = take 2 (pb_mem s) @ eb_bytes e @ drop (2 + n) (pb_mem s)"
  define m2 where "m2 = le16 ?M @ eb_bytes e @ drop (2 + n) (pb_mem s)"
  define m3 where "m3 = take 2 m2 @ take (2 + n) m2 @ drop (4 + n) m2"
  define m4 where "m4 = le16 ?T @ take (2 + n) m2 @ drop (4 + n) m2"
  have r1: "mem_read (pb_mem s) 0 n = Some (eb_bytes e)" using s(1) n c by (simp add: mem_read_def)
  have w1: "mem_write (pb_mem s) 2 (eb_bytes e) = Some m1" using s(1) n by (simp add: mem_write_def m1_def)
  let ?s1 = "s\<lparr>pb_mem := m1, pb_buflen := of_nat (n + 2)\<rparr>"
  have p1: "uint (packetbuf_remaininglen ?s1) = 128 - int (n + 2)" "packetbuf_dataptr ?s1 = 0"
    using s n(2) remaininglen_plain [of ?s1 "n + 2"] by simp_all
  have w2: "create_payload_ie_descriptor m1 0 PAYLOAD_IE_MLME (int n) = Some m2"
    using s(1) n by (simp add: create_payload_ie_descriptor_def mem_write_def m1_def m2_def)
  let ?s2 = "s\<lparr>pb_buflen := of_nat (n + 2), pb_mem := m2\<rparr>"
  have t2: "unat (packetbuf_totlen ?s2) = n + 2"
    using s n(2) by (simp add: packetbuf_totlen_def packetbuf_hdrlen_def packetbuf_datalen_def unat_of_nat del: of_nat_add)
  have l2: "length m2 = 128" using s(1) n by (simp add: m2_def)
  have h: "packetbuf_hdralloc 2 ?s2 = Some (1, ?s2\<lparr>pb_mem := m3, pb_hdrlen := 2\<rparr>)"
    using s(1,3) n(2) l2 unfolding packetbuf_hdralloc_def Let_def t2
    by (simp add: PACKETBUF_SIZE_def mem_simps add.commute m3_def)
  have w3: "create_header_ie_descriptor m3 0 HEADER_IE_LIST_TERMINATION_1 0 = Some m4"
    using l2 n by (simp add: create_header_ie_descriptor_def mem_write_def m3_def m4_def)
  have rem: "2 \<le> uint (packetbuf_remaininglen (?s2\<lparr>pb_mem := m3, pb_hdrlen := 2\<rparr>))"
  proof -
    have "packetbuf_remaininglen (?s2\<lparr>pb_mem := m3, pb_hdrlen := 2\<rparr>) = 128 - of_nat (n + 4)"
      using s by (simp add: packetbuf_remaininglen_def PACKETBUF_SIZE_def packetbuf_totlen_def packetbuf_hdrlen_def packetbuf_datalen_def)
    moreover have "unat (128 - of_nat (n + 4) :: u16) = 124 - n"
      using n(2) by (subst unat_sub) (simp_all add: word_le_nat_alt unat_of_nat del: of_nat_add)
    ultimately show ?thesis using n(2) by (simp add: uint_nat del: of_nat_add of_nat_unat)
  qed
  show ?thesis
  proof (intro exI conjI)
    show "eb_payload_header e' s = Some (True, s\<lparr>pb_mem := m4, pb_buflen := of_nat (n + 2), pb_hdrlen := 2\<rparr>)"
    proof -
      have i: "ie_mlme_len (e'\<lparr>ie_mlme_len := pb_buflen s\<rparr>) = of_nat n" using s(4) by simp
      have "frame80215e_create_ie_mlme m1 0 (uint (packetbuf_remaininglen ?s1)) (Some (e'\<lparr>ie_mlme_len := pb_buflen s\<rparr>)) = Some (2, m2)"
        using n(2) w2 unfolding frame80215e_create_ie_mlme_def option.case i un p1(1) by simp
      moreover have "frame80215e_create_ie_header_list_termination_1 m3 0
          (uint (packetbuf_remaininglen (?s2\<lparr>pb_mem := m3, pb_hdrlen := 2\<rparr>))) (Some (e'\<lparr>ie_mlme_len := pb_buflen s\<rparr>)) = Some (2, m4)"
        using rem w3 by (simp add: frame80215e_create_ie_header_list_termination_1_def)
      moreover have "packetbuf_dataptr s = 0" using s by (simp add: packetbuf_dataptr_def packetbuf_hdrlen_def)
      moreover have "packetbuf_set_datalen (packetbuf_datalen s + 2) (s\<lparr>pb_mem := m1\<rparr>) = ?s1"
        using s(4) by (simp add: packetbuf_set_datalen_def packetbuf_datalen_def)
      ultimately show ?thesis
        using s(4) un(1) r1 w1 p1(2) h
        by (simp add: eb_payload_header_def packetbuf_datalen_def packetbuf_hdrptr_def Let_def)
    qed
    show "length m4 = 128" using l2 n by (simp add: m4_def)
    show "take (n + 4) m4 = eb_frame e" using n s(1) by (simp add: eb_frame_def m2_def m4_def)
  qed
qed

subsection \<open>Reading the elements of a beacon\<close>

text \<open>
  The parser reads the element \<open>bs\<close> as the update \<open>f\<close>.  The four bytes of room behind the element
  are there for the slotframe element, whose number of links is read before its length is known.
\<close>

definition mlme_reads :: "u8 list \<Rightarrow> (ieee802154_ies \<Rightarrow> ieee802154_ies) \<Rightarrow> bool" where
  "mlme_reads bs f \<longleftrightarrow> 2 \<le> length bs \<and> (\<forall>m start p buf_size nested ies.
     mem_read m p (length bs) = Some bs \<longrightarrow> p + length bs + 4 \<le> length m \<longrightarrow> length bs \<le> unat buf_size \<longrightarrow>
     int (length bs) \<le> nested \<longrightarrow>
     (\<exists>d len. read16 m p = Some d \<and> unat len = length bs - 2 \<and>
        parse_mlme_step m start (p + 2) (buf_size - 2) d nested ies =
          Some (Inr (if nested = int (length bs) then PARSING_PAYLOAD_IE else PARSING_MLME_SUBIE, len,
                     nested - int (length bs), f ies))))"

lemma mlme_long_payload: "mlme_long_ie_desc = payload_ie_desc"
  by (intro ext) (simp add: mlme_long_ie_desc_def payload_ie_desc_def)

lemma unat_minus_2: "2 \<le> unat (b :: u8) \<Longrightarrow> unat (b - 2) = unat b - 2"
  by (subst unat_sub) (simp_all add: word_le_nat_alt)

lemma uint_room:
  assumes "length body + 2 \<le> unat (b :: u8)" and "l = int (length body)" and "l < 65536"
  shows "\<not> uint (b - 2) < uint (word_of_int l :: u16)" and "uint (word_of_int l :: u16) = l"
    and "unat (word_of_int l :: u16) = length body"
proof -
  have "unat (b - 2) = unat b - 2" using assms(1) by (intro unat_minus_2) simp
  then have "uint (b - 2) = int (unat b - 2)" by (metis uint_nat)
  moreover have "uint (word_of_int l :: u16) = l mod 65536" by (simp add: uint_word_of_int)
  then show u: "uint (word_of_int l :: u16) = l" using assms(2,3) by simp
  ultimately show "\<not> uint (b - 2) < uint (word_of_int l :: u16)" using assms(1,2) by linarith
  show "unat (word_of_int l :: u16) = length body" using u assms(2) by (metis nat_int unat_eq_nat_uint)
qed

lemma mlme_short_reads:
  assumes bs: "bs = le16 (mlme_short_ie_desc i l) @ body" and l: "l = int (length body)" "l < 256" and i: "i AND 0x7f = i"
    and p: "\<And>m p ies. mem_read m p (length body) = Some body \<Longrightarrow> p + length body + 4 \<le> length m \<Longrightarrow>
      frame802154e_parse_mlme_short_ie m p l i ies = Some (l, f ies)"
  shows "mlme_reads bs f"
  unfolding mlme_reads_def
proof (intro conjI allI impI)
  show "2 \<le> length bs" by (simp add: bs)
  fix m p and start :: nat and b :: u8 and nested :: int and ies
  assume r: "mem_read m p (length bs) = Some bs" and m: "p + length bs + 4 \<le> length m"
    and b: "length bs \<le> unat b" and n: "int (length bs) \<le> nested"
  have "mem_read m (p + 2) (length body) = Some body" using mem_read_sub [OF r, of 2 "length body"] by (simp add: bs)
  then have parse: "frame802154e_parse_mlme_short_ie m (p + 2) l i ies = Some (l, f ies)" by (rule p) (use m bs in simp)
  have d: "read16 m p = Some (mlme_short_ie_desc i l)" using read16_sub [OF r, of 0] by (simp add: bs)
  have "length body + 2 \<le> unat b" using b bs by simp
  note u = uint_room [OF this l(1)]
  have "word_of_int l AND 0xff = (word_of_int l :: u16)" using l by (intro mask_small_consts) simp_all
  then have "parse_mlme_step m start (p + 2) (b - 2) (mlme_short_ie_desc i l) nested ies =
      Some (Inr (if nested = int (length bs) then PARSING_PAYLOAD_IE else PARSING_MLME_SUBIE, word_of_int l,
                 nested - int (length bs), f ies))"
    using u l i n parse by (auto simp: parse_mlme_step_def Let_def bs)
  then show "\<exists>d len. read16 m p = Some d \<and> unat len = length bs - 2 \<and>
      parse_mlme_step m start (p + 2) (b - 2) d nested ies =
        Some (Inr (if nested = int (length bs) then PARSING_PAYLOAD_IE else PARSING_MLME_SUBIE, len,
                   nested - int (length bs), f ies))"
    using d u(3) l by (intro exI conjI) (assumption, simp_all add: bs)
qed

lemma mlme_long_reads:
  assumes bs: "bs = le16 (mlme_long_ie_desc i l) @ body" and l: "l = int (length body)" "l < 2048" and i: "i AND 0x0f = i"
    and p: "\<And>m p ies. mem_read m p (length body) = Some body \<Longrightarrow> p + length body + 4 \<le> length m \<Longrightarrow>
      frame802154e_parse_mlme_long_ie m p l i ies = Some (l, f ies)"
  shows "mlme_reads bs f"
  unfolding mlme_reads_def
proof (intro conjI allI impI)
  show "2 \<le> length bs" by (simp add: bs)
  fix m p and start :: nat and b :: u8 and nested :: int and ies
  assume r: "mem_read m p (length bs) = Some bs" and m: "p + length bs + 4 \<le> length m"
    and b: "length bs \<le> unat b" and n: "int (length bs) \<le> nested"
  have "mem_read m (p + 2) (length body) = Some body" using mem_read_sub [OF r, of 2 "length body"] by (simp add: bs)
  then have parse: "frame802154e_parse_mlme_long_ie m (p + 2) l i ies = Some (l, f ies)" by (rule p) (use m bs in simp)
  have d: "read16 m p = Some (mlme_long_ie_desc i l)" using read16_sub [OF r, of 0] by (simp add: bs)
  have "length body + 2 \<le> unat b" using b bs by simp
  note u = uint_room [OF this l(1)]
  have "word_of_int l AND 0x7ff = (word_of_int l :: u16)" using l by (intro mask_small_consts) simp_all
  then have "parse_mlme_step m start (p + 2) (b - 2) (mlme_long_ie_desc i l) nested ies =
      Some (Inr (if nested = int (length bs) then PARSING_PAYLOAD_IE else PARSING_MLME_SUBIE, word_of_int l,
                 nested - int (length bs), f ies))"
    using u l i n parse by (auto simp: parse_mlme_step_def Let_def bs mlme_long_payload)
  then show "\<exists>d len. read16 m p = Some d \<and> unat len = length bs - 2 \<and>
      parse_mlme_step m start (p + 2) (b - 2) d nested ies =
        Some (Inr (if nested = int (length bs) then PARSING_PAYLOAD_IE else PARSING_MLME_SUBIE, len,
                   nested - int (length bs), f ies))"
    using d u(3) l by (intro exI conjI) (assumption, simp_all add: bs)
qed

definition sync_read :: "ieee802154_ies \<Rightarrow> ieee802154_ies \<Rightarrow> ieee802154_ies" where
  "sync_read e ies = ies\<lparr>ie_asn := ie_asn e, ie_join_priority := ie_join_priority e\<rparr>"

definition timeslot_read :: "ieee802154_ies \<Rightarrow> ieee802154_ies \<Rightarrow> ieee802154_ies" where
  "timeslot_read e ies =
     ies\<lparr>ie_tsch_timeslot_id := ie_tsch_timeslot_id e,
         ie_tsch_timeslot := if ie_tsch_timeslot_id e = 0 then ie_tsch_timeslot ies else ie_tsch_timeslot e\<rparr>"

definition hopping_read :: "ieee802154_ies \<Rightarrow> ieee802154_ies \<Rightarrow> ieee802154_ies" where
  "hopping_read e ies =
     (let n = unat (ie_hopping_sequence_len e)
      in if ie_channel_hopping_sequence_id e = 0 then ies\<lparr>ie_channel_hopping_sequence_id := 0\<rparr>
         else ies\<lparr>ie_channel_hopping_sequence_id := ie_channel_hopping_sequence_id e,
                  ie_hopping_sequence_len := ie_hopping_sequence_len e,
                  ie_hopping_sequence_list := take n (ie_hopping_sequence_list e) @ drop n (ie_hopping_sequence_list ies)\<rparr>)"

definition slotframe_read :: "ieee802154_ies \<Rightarrow> ieee802154_ies \<Rightarrow> ieee802154_ies" where
  "slotframe_read e ies =
     (let sl = ie_slotframe_and_link e; n = unat (sl_num_links sl)
      in if sl_num_slotframes sl = 0 then ies
         else ies\<lparr>ie_slotframe_and_link := sl\<lparr>sl_num_slotframes := 1,
           sl_links := take n (sl_links sl) @ drop n (sl_links (ie_slotframe_and_link ies))\<rparr>\<rparr>)"

lemma or_bytes_32:
  "ucast (ucast a :: u8) OR push_bit 8 (ucast (ucast (drop_bit 8 a) :: u8) :: u32) OR
     push_bit 16 (ucast (ucast (drop_bit 16 a) :: u8)) OR push_bit 24 (ucast (ucast (drop_bit 24 a) :: u8)) = (a :: u32)"
proof (rule bit_word_eqI)
  fix n assume "n < LENGTH(32)"
  then consider "n < 8" | "8 \<le> n" "n < 16" | "16 \<le> n" "n < 24" | "24 \<le> n" "n < 32" by fastforce
  then show "bit (ucast (ucast a :: u8) OR push_bit 8 (ucast (ucast (drop_bit 8 a) :: u8) :: u32) OR
     push_bit 16 (ucast (ucast (drop_bit 16 a) :: u8)) OR push_bit 24 (ucast (ucast (drop_bit 24 a) :: u8))) n = bit a n"
    by cases (auto simp: bit_simps)
qed

lemma sync_reads: "mlme_reads (sync_bytes e) (sync_read e)"
proof (rule mlme_short_reads)
  fix m :: "u8 list" and p ies
  let ?a = "ls4b (ie_asn e)"
  assume "mem_read m p (length [ucast ?a, ucast (drop_bit 8 ?a), ucast (drop_bit 16 ?a), ucast (drop_bit 24 ?a), ms1b (ie_asn e), ie_join_priority e]) =
    Some [ucast ?a, ucast (drop_bit 8 ?a), ucast (drop_bit 16 ?a), ucast (drop_bit 24 ?a), ms1b (ie_asn e), ie_join_priority e]"
  then have "mem_read m p 6 = Some [ucast ?a, ucast (drop_bit 8 ?a), ucast (drop_bit 16 ?a), ucast (drop_bit 24 ?a), ms1b (ie_asn e), ie_join_priority e]"
    by (simp add: eval_nat_numeral)
  then show "frame802154e_parse_mlme_short_ie m p 6 MLME_SHORT_IE_TSCH_SYNCHRONIZATION ies = Some (6, sync_read e ies)"
    by (simp add: frame802154e_parse_mlme_short_ie_def sync_read_def or_bytes_32 MLME_SHORT_IE_TSCH_SYNCHRONIZATION_def
        MLME_SHORT_IE_TSCH_SLOFTRAME_AND_LINK_def)
qed (simp_all add: sync_bytes_def MLME_SHORT_IE_TSCH_SYNCHRONIZATION_def)

lemma read_u16s_bytes:
  "mem_read m p (2 * length vs) = Some (concat (map le16 vs)) \<Longrightarrow> read_u16s m p (length vs) = Some vs"
proof (induction vs arbitrary: p)
  case (Cons v vs)
  have r: "mem_read m p (2 + 2 * length vs) = Some (le16 v @ concat (map le16 vs))" using Cons.prems by simp
  have "read16 m p = Some v" using read16_sub [OF r, of 0 v] by simp
  moreover have "read_u16s m (p + 2) (length vs) = Some vs"
    by (rule Cons.IH) (use mem_read_sub [OF r, of 2 "2 * length vs"] in simp)
  ultimately show ?case by simp
qed simp

lemma read_links_bytes:
  "mem_read m p (5 * length ls) = Some (concat (map link_bytes ls)) \<Longrightarrow> read_links m p (length ls) = Some ls"
proof (induction ls arbitrary: p)
  case (Cons l ls)
  have r: "mem_read m p (5 + 5 * length ls) = Some (link_bytes l @ concat (map link_bytes ls))"
    using Cons.prems by simp
  have "read16 m p = Some (sl_timeslot l)" "read16 m (p + 2) = Some (sl_channel_offset l)"
    using read16_sub [OF r, of 0] read16_sub [OF r, of 2] by (simp_all add: link_bytes_def)
  moreover have "read8 m (p + 4) = Some (sl_link_options l)" using read8_sub [OF r, of 4] by (simp add: nth_append link_bytes_def)
  moreover have "read_links m (p + 5) (length ls) = Some ls"
    by (rule Cons.IH) (use mem_read_sub [OF r, of 5 "5 * length ls"] in \<open>simp add: length_link_bytes\<close>)
  ultimately show ?case by simp
qed simp

lemma timeslot_reads:
  assumes "eb_ies_ok e"
  shows "mlme_reads (timeslot_bytes e) (timeslot_read e)"
proof (cases "ie_tsch_timeslot_id e = 0")
  case True
  show ?thesis
  proof (rule mlme_short_reads [where l = 1 and body = "[0]"])
    fix m :: "u8 list" and p ies
    assume "mem_read m p (length [0 :: u8]) = Some [0]"
    then show "frame802154e_parse_mlme_short_ie m p 1 MLME_SHORT_IE_TSCH_TIMESLOT ies = Some (1, timeslot_read e ies)"
      using True by (simp add: frame802154e_parse_mlme_short_ie_def timeslot_read_def read8_def ie_id_defs)
  qed (use True in \<open>simp_all add: timeslot_bytes_def MLME_SHORT_IE_TSCH_TIMESLOT_def\<close>)
next
  case False
  let ?ts = "ie_tsch_timeslot e" and ?id = "ie_tsch_timeslot_id e"
  have n: "length ?ts = 12" using assms by (simp add: eb_ies_ok_def tsch_ts_elements_count_def)
  show ?thesis
  proof (rule mlme_short_reads [where l = 25 and body = "?id # concat (map le16 ?ts)"])
    fix m :: "u8 list" and p ies
    assume r: "mem_read m p (length (?id # concat (map le16 ?ts))) = Some (?id # concat (map le16 ?ts))"
    have "read8 m p = Some ?id" using read8_sub [OF r, of 0] n by simp
    moreover have "read_u16s m (p + 1) tsch_ts_elements_count = Some ?ts"
      using read_u16s_bytes [of m "p + 1" ?ts] mem_read_sub [OF r, of 1 "2 * length ?ts"] n
      by (simp add: tsch_ts_elements_count_def)
    ultimately show "frame802154e_parse_mlme_short_ie m p 25 MLME_SHORT_IE_TSCH_TIMESLOT ies = Some (25, timeslot_read e ies)"
      using False by (simp add: frame802154e_parse_mlme_short_ie_def timeslot_read_def ie_id_defs)
  qed (use False n in \<open>simp_all add: timeslot_bytes_def MLME_SHORT_IE_TSCH_TIMESLOT_def\<close>)
qed

lemma hopping_reads:
  assumes "eb_ies_ok e"
  shows "mlme_reads (hopping_bytes e) (hopping_read e)"
proof (cases "ie_channel_hopping_sequence_id e = 0")
  case True
  show ?thesis
  proof (rule mlme_long_reads [where l = 1 and body = "[0]"])
    fix m :: "u8 list" and p ies
    assume "mem_read m p (length [0 :: u8]) = Some [0]"
    then show "frame802154e_parse_mlme_long_ie m p 1 MLME_LONG_IE_TSCH_CHANNEL_HOPPING_SEQUENCE ies = Some (1, hopping_read e ies)"
      using True by (simp add: frame802154e_parse_mlme_long_ie_def hopping_read_def read8_def Let_def)
  qed (use True in \<open>simp_all add: hopping_bytes_def MLME_LONG_IE_TSCH_CHANNEL_HOPPING_SEQUENCE_def Let_def\<close>)
next
  case False
  let ?n = "unat (ie_hopping_sequence_len e)" and ?l = "ie_hopping_sequence_list e" and ?id = "ie_channel_hopping_sequence_id e"
  let ?b = "[?id, 0] @ le16 0 @ le16 0 @ le16 0 @ le16 (ie_hopping_sequence_len e) @ take ?n ?l @ le16 0"
  have n: "?n \<le> 4" "length ?l = 4" using assms by (simp_all add: eb_ies_ok_def TSCH_HOPPING_SEQUENCE_MAX_LEN_def)
  have lb: "length ?b = 12 + ?n" using n by simp
  have "int ?n = uint (ie_hopping_sequence_len e)" by simp
  then have u: "0 < 11 + uint (ie_hopping_sequence_len e)" "uint (ie_hopping_sequence_len e) < 2036" using n(1) by linarith+
  show ?thesis
  proof (rule mlme_long_reads [where l = "12 + int ?n" and body = ?b])
    fix m :: "u8 list" and p ies
    assume "mem_read m p (length ?b) = Some ?b"
    then have r: "mem_read m p (12 + ?n) = Some ?b" unfolding lb .
    have r8: "read8 m p = Some ?id" using read8_sub [OF r, of 0] by simp
    have r16: "read16 m (p + 8) = Some (ie_hopping_sequence_len e)"
      by (rule read16_sub [OF r]) (simp_all add: le16_def)
    have rl: "mem_read m (p + 10) ?n = Some (take ?n ?l)"
      using mem_read_sub [OF r, of 10 ?n] n by (simp add: le16_def)
    show "frame802154e_parse_mlme_long_ie m p (12 + int ?n) MLME_LONG_IE_TSCH_CHANNEL_HOPPING_SEQUENCE ies =
        Some (12 + int ?n, hopping_read e ies)"
      using False n r8 r16 rl u
      by (simp add: frame802154e_parse_mlme_long_ie_def hopping_read_def Let_def TSCH_HOPPING_SEQUENCE_MAX_LEN_def)
  qed (use False n lb u in \<open>simp_all add: hopping_bytes_def MLME_LONG_IE_TSCH_CHANNEL_HOPPING_SEQUENCE_def Let_def\<close>)
qed

lemma slotframe_reads:
  assumes "eb_ies_ok e"
  shows "mlme_reads (slotframe_bytes e) (slotframe_read e)"
proof (cases "sl_num_slotframes (ie_slotframe_and_link e) = 0")
  case True
  show ?thesis
  proof (rule mlme_short_reads [where l = 1 and body = "[0]"])
    fix m :: "u8 list" and p ies
    assume "mem_read m p (length [0 :: u8]) = Some [0]" and m: "p + length [0 :: u8] + 4 \<le> length m"
    then have "read8 m p = Some 0" by (simp add: read8_def)
    moreover obtain b where "read8 m (p + 4) = Some b" using m by (simp add: read8_def mem_simps)
    ultimately show "frame802154e_parse_mlme_short_ie m p 1 MLME_SHORT_IE_TSCH_SLOFTRAME_AND_LINK ies = Some (1, slotframe_read e ies)"
      using True by (simp add: frame802154e_parse_mlme_short_ie_def slotframe_read_def Let_def)
  qed (use True in \<open>simp_all add: slotframe_bytes_def MLME_SHORT_IE_TSCH_SLOFTRAME_AND_LINK_def Let_def\<close>)
next
  case False
  let ?sl = "ie_slotframe_and_link e"
  let ?n = "unat (sl_num_links ?sl)" and ?ls = "take (unat (sl_num_links ?sl)) (sl_links ?sl)"
  let ?b = "[1, sl_slotframe_handle ?sl] @ le16 (sl_slotframe_size ?sl) @ [sl_num_links ?sl] @ concat (map link_bytes ?ls)"
  have n: "?n \<le> 4" "length (sl_links ?sl) = 4" using assms by (simp_all add: eb_ies_ok_def FRAME802154E_IE_MAX_LINKS_def)
  have "int ?n = uint (sl_num_links ?sl)" by simp
  then have u: "5 * uint (sl_num_links ?sl) < 251" using n(1) by linarith
  have lls: "length ?ls = ?n" using n by simp
  have lb: "length ?b = 5 + 5 * ?n" using lls by simp
  show ?thesis
  proof (rule mlme_short_reads [where l = "5 + 5 * int ?n" and body = ?b])
    fix m :: "u8 list" and p ies
    assume "mem_read m p (length ?b) = Some ?b"
    then have r: "mem_read m p (5 + 5 * ?n) = Some ?b" unfolding lb .
    have r8: "read8 m p = Some 1" "read8 m (p + 1) = Some (sl_slotframe_handle ?sl)" "read8 m (p + 4) = Some (sl_num_links ?sl)"
      using read8_sub [OF r, of 0] read8_sub [OF r, of 1] read8_sub [OF r, of 4] by (simp_all add: nth_append)
    have r16: "read16 m (p + 2) = Some (sl_slotframe_size ?sl)" by (rule read16_sub [OF r]) (simp_all add: le16_def)
    have "mem_read m (p + 5) (5 * length ?ls) = Some (concat (map link_bytes ?ls))"
      using mem_read_sub [OF r, of 5 "5 * ?n"] lls by (simp add: le16_def)
    from read_links_bytes [OF this] have rl: "read_links m (p + 5) ?n = Some ?ls" unfolding lls .
    show "frame802154e_parse_mlme_short_ie m p (5 + 5 * int ?n) MLME_SHORT_IE_TSCH_SLOFTRAME_AND_LINK ies =
        Some (5 + 5 * int ?n, slotframe_read e ies)"
      using False n r8 r16 rl
      by (simp add: frame802154e_parse_mlme_short_ie_def slotframe_read_def Let_def FRAME802154E_IE_MAX_LINKS_def)
  qed (use False n lb u in \<open>simp_all add: slotframe_bytes_def MLME_SHORT_IE_TSCH_SLOFTRAME_AND_LINK_def Let_def\<close>)
qed

text \<open>A sequence of elements that fills the MLME payload IE up to the end of the frame.\<close>

lemma parse_mlme_chain:
  assumes "list_all2 mlme_reads bss fs" and "bss \<noteq> []"
    and "mem_read m p (length (concat bss)) = Some (concat bss)" and "p + length (concat bss) + 4 \<le> length m"
    and "length (concat bss) < 256" and "start \<le> p"
  shows "parse_ie_loop m start PARSING_MLME_SUBIE p (of_nat (length (concat bss))) (int (length (concat bss))) ies =
    Some (int (p + length (concat bss) - start), fold (\<lambda>f. f) fs ies)"
  using assms
proof (induction bss fs arbitrary: p ies rule: list_all2_induct)
  case (Cons bs bss f fs)
  let ?n = "length bs" and ?k = "length (concat bss)"
  have mr: "mlme_reads bs f" using Cons.hyps by simp
  have r: "mem_read m p (?n + ?k) = Some (bs @ concat bss)" using Cons.prems by simp
  have l: "?n + ?k < 256" "p + (?n + ?k) + 4 \<le> length m" using Cons.prems by simp_all
  have u: "unat (of_nat (?n + ?k) :: u8) = ?n + ?k" using l(1) by (simp add: unat_of_nat del: of_nat_add)
  have hd: "mem_read m p ?n = Some bs" using mem_read_sub [OF r, of 0 ?n] by simp
  have nn: "2 \<le> ?n" using mr by (simp add: mlme_reads_def)
  obtain d len where d: "read16 m p = Some d" "unat len = ?n - 2"
    "parse_mlme_step m start (p + 2) (of_nat (?n + ?k) - 2) d (int (?n + ?k)) ies =
      Some (Inr (if int (?n + ?k) = int ?n then PARSING_PAYLOAD_IE else PARSING_MLME_SUBIE, len, int (?n + ?k) - int ?n, f ies))"
    using mr [unfolded mlme_reads_def, THEN conjunct2, rule_format, OF hd, of "of_nat (?n + ?k)" "int (?n + ?k)" start ies] l u
    by (auto simp del: of_nat_add)
  have step: "parse_ie_loop m start PARSING_MLME_SUBIE p (of_nat (?n + ?k)) (int (?n + ?k)) ies =
      parse_ie_loop m start (if ?k = 0 then PARSING_PAYLOAD_IE else PARSING_MLME_SUBIE) (p + 2 + unat len)
        (of_nat (?n + ?k) - 2 - ucast len) (int ?k) (f ies)"
    by (rule parse_ie_loop_round [OF _ d(1)]) (use d(3) u nn in \<open>simp_all add: parse_ie_step_def\<close>)
  have "ucast len = (of_nat (?n - 2) :: u8)" using d(2) by (metis of_nat_unat)
  then have b: "of_nat (?n + ?k) - 2 - ucast len = (of_nat ?k :: u8)" using nn by (simp add: of_nat_diff)
  have q: "p + 2 + unat len = p + ?n" using d(2) nn by simp
  note st = step [unfolded b q]
  show ?case
  proof (cases "bss = []")
    case True
    then show ?thesis using st Cons.hyps parse_ie_loop_end by simp
  next
    case False
    have "?k \<noteq> 0"
      using False Cons.hyps by (cases bss) (auto simp: list_all2_Cons1 mlme_reads_def)
    moreover have "parse_ie_loop m start PARSING_MLME_SUBIE (p + ?n) (of_nat ?k) (int ?k) (f ies) =
        Some (int (p + ?n + ?k - start), fold (\<lambda>f. f) fs (f ies))"
      by (rule Cons.IH) (use False l Cons.prems(5) mem_read_sub [OF r, of ?n ?k] in simp_all)
    ultimately show ?thesis
      by (simp only: concat.simps length_append st if_False fold.simps comp_apply add.assoc)
  qed
qed simp

lemma uint_word_of_int_small: "0 \<le> l \<Longrightarrow> l < 65536 \<Longrightarrow> uint (word_of_int l :: u16) = l"
  by (simp add: uint_word_of_int)

text \<open>What a beacon with the elements of \<open>e\<close> tells: the update of the receiver's structure.\<close>

definition eb_read :: "ieee802154_ies \<Rightarrow> ieee802154_ies \<Rightarrow> ieee802154_ies" where
  "eb_read e ies = slotframe_read e (hopping_read e (timeslot_read e (sync_read e ies)))"

lemma parse_eb_frame:
  assumes e: "eb_ies_ok e" and r: "mem_read m p (length (eb_frame e)) = Some (eb_frame e)"
    and room: "p + length (eb_frame e) + 4 \<le> length m"
  shows "frame802154e_parse_information_elements m p (of_nat (length (eb_frame e))) (Some ies) =
    Some (int (length (eb_frame e)), Some (eb_read e (ies\<lparr>ie_payload_ie_offset := 2\<rparr>)))"
proof -
  let ?k = "length (eb_bytes e)"
  let ?bss = "[sync_bytes e, timeslot_bytes e, hopping_bytes e, slotframe_bytes e]"
  have k: "?k \<le> 80" "17 \<le> ?k" using length_eb_bytes [OF e] by simp_all
  have c: "concat ?bss = eb_bytes e" by (simp add: eb_bytes_def)
  have n: "length (eb_frame e) = 4 + ?k" by (simp add: eb_frame_def)
  have u: "unat (of_nat (4 + ?k) :: u8) = 4 + ?k" using k by (simp add: unat_of_nat del: of_nat_add)
  have r': "mem_read m p (4 + ?k) = Some (eb_frame e)" using r by (simp add: n)
  have d0: "read16 m p = Some (header_ie_desc HEADER_IE_LIST_TERMINATION_1 0)"
    and d1: "read16 m (p + 2) = Some (payload_ie_desc PAYLOAD_IE_MLME (int ?k))"
    using read16_sub [OF r', of 0] read16_sub [OF r', of 2] by (simp_all add: eb_frame_def)
  have bytes: "mem_read m (p + 4) ?k = Some (eb_bytes e)" using mem_read_sub [OF r', of 4 ?k] by (simp add: eb_frame_def)
  let ?e1 = "ies\<lparr>ie_payload_ie_offset := 2\<rparr>"
  have s1: "parse_ie_loop m p PARSING_HEADER_IE p (of_nat (4 + ?k)) 0 (ies\<lparr>ie_payload_ie_offset := 0\<rparr>) =
      parse_ie_loop m p PARSING_PAYLOAD_IE (p + 2 + unat (0 :: u16)) (of_nat (4 + ?k) - 2 - ucast (0 :: u16)) 0 ?e1"
    by (rule parse_ie_loop_round [OF _ d0]) (use u k in \<open>simp_all add: parse_header_termination\<close>)
  have b2: "(of_nat (4 + ?k) - 2 :: u8) = of_nat (2 + ?k)" "unat (of_nat (2 + ?k) :: u8) = 2 + ?k"
    using k by (simp_all add: unat_of_nat del: of_nat_add) simp
  have w: "word_of_int (int ?k) AND 0x7ff = (word_of_int (int ?k) :: u16)" using k by (intro mask_small_consts) simp_all
  have uk: "uint (word_of_int (int ?k) :: u16) = int ?k" by (rule uint_word_of_int_small) (use k in simp_all)
  have "parse_ie_step m p PARSING_PAYLOAD_IE (p + 2 + 2) (of_nat (2 + ?k) - 2) (payload_ie_desc PAYLOAD_IE_MLME (int ?k)) 0 ?e1 =
      Some (Inr (PARSING_MLME_SUBIE, 0, uint (word_of_int (int ?k) :: u16), ?e1))"
    using w by (simp add: parse_ie_step_def parse_payload_step_def Let_def PAYLOAD_IE_MLME_def)
  then have s2: "parse_ie_loop m p PARSING_PAYLOAD_IE (p + 2) (of_nat (2 + ?k)) 0 ?e1 =
      parse_ie_loop m p PARSING_MLME_SUBIE (p + 2 + 2 + unat (0 :: u16)) (of_nat (2 + ?k) - 2 - ucast (0 :: u16)) (int ?k) ?e1"
    unfolding uk by (intro parse_ie_loop_round [OF _ d1]) (use b2(2) in simp_all)
  have b3: "(of_nat (2 + ?k) - 2 :: u8) = of_nat ?k" by simp
  have reads: "list_all2 mlme_reads ?bss [sync_read e, timeslot_read e, hopping_read e, slotframe_read e]"
    using sync_reads timeslot_reads [OF e] hopping_reads [OF e] slotframe_reads [OF e] by simp
  have s3: "parse_ie_loop m p PARSING_MLME_SUBIE (p + 4) (of_nat ?k) (int ?k) ?e1 = Some (int (4 + ?k), eb_read e ?e1)"
    using parse_mlme_chain [OF reads, of m "p + 4" p ?e1] bytes room k unfolding c by (simp add: n eb_read_def)
  show ?thesis
    using s1 s2 s3 b2(1) b3 by (simp add: frame802154e_parse_information_elements_def n add.assoc)
qed

text \<open>A field of a beacon is zero unless its element is there.\<close>

definition eb_ies_plain :: "ieee802154_ies \<Rightarrow> bool" where
  "eb_ies_plain e \<longleftrightarrow> eb_ies_ok e \<and> ie_time_correction e = 0 \<and> ie_is_nack e = 0 \<and> ie_mlme_len e = 0 \<and>
     sixtop_ie_content_ptr e = None \<and> sixtop_ie_content_len e = 0 \<and>
     (ie_tsch_timeslot_id e = 0 \<longrightarrow> ie_tsch_timeslot e = ie_tsch_timeslot ies_zero) \<and>
     (ie_channel_hopping_sequence_id e = 0 \<longrightarrow> ie_hopping_sequence_len e = 0) \<and>
     drop (unat (ie_hopping_sequence_len e)) (ie_hopping_sequence_list e) =
       drop (unat (ie_hopping_sequence_len e)) (ie_hopping_sequence_list ies_zero) \<and>
     (sl_num_slotframes (ie_slotframe_and_link e) = 0 \<longrightarrow> ie_slotframe_and_link e = ie_slotframe_and_link ies_zero) \<and>
     drop (unat (sl_num_links (ie_slotframe_and_link e))) (sl_links (ie_slotframe_and_link e)) =
       drop (unat (sl_num_links (ie_slotframe_and_link e))) (sl_links (ie_slotframe_and_link ies_zero))"

lemma eb_read_plain:
  assumes "eb_ies_plain e"
  shows "eb_read (e\<lparr>ie_asn := a, ie_join_priority := j\<rparr>) (ies_zero\<lparr>ie_join_priority := 0xff, ie_payload_ie_offset := 2\<rparr>) =
    e\<lparr>ie_asn := a, ie_join_priority := j, ie_payload_ie_offset := 2\<rparr>"
proof -
  let ?sl = "ie_slotframe_and_link e" and ?n = "unat (ie_hopping_sequence_len e)"
  have h: "take ?n (ie_hopping_sequence_list e) @ drop ?n (ie_hopping_sequence_list ies_zero) = ie_hopping_sequence_list e"
    "ie_channel_hopping_sequence_id e = 0 \<Longrightarrow> ie_hopping_sequence_len e = 0 \<and> ie_hopping_sequence_list e = ie_hopping_sequence_list ies_zero"
    using assms append_take_drop_id [of ?n "ie_hopping_sequence_list e"] by (auto simp: eb_ies_plain_def)
  have l: "take (unat (sl_num_links ?sl)) (sl_links ?sl) @ drop (unat (sl_num_links ?sl)) (sl_links (ie_slotframe_and_link ies_zero)) = sl_links ?sl"
    using assms append_take_drop_id [of "unat (sl_num_links ?sl)" "sl_links ?sl"] by (simp add: eb_ies_plain_def)
  have "sl_num_slotframes ?sl \<noteq> 0 \<Longrightarrow> unat (sl_num_slotframes ?sl) = 1"
    using assms unat_eq_zero [of "sl_num_slotframes ?sl"] by (simp add: eb_ies_plain_def eb_ies_ok_def)
  then have one: "sl_num_slotframes ?sl \<noteq> 0 \<Longrightarrow> sl_num_slotframes ?sl = 1" by (simp add: word_unat_eq_iff)
  have s: "sl_num_slotframes ?sl \<noteq> 0 \<Longrightarrow> ?sl\<lparr>sl_num_slotframes := 1, sl_links := sl_links ?sl\<rparr> = ?sl"
    using one by (cases ?sl) simp
  have p: "ie_time_correction e = 0" "ie_is_nack e = 0" "ie_mlme_len e = 0" "sixtop_ie_content_ptr e = None"
    "sixtop_ie_content_len e = 0" "ie_tsch_timeslot_id e = 0 \<Longrightarrow> ie_tsch_timeslot e = ie_tsch_timeslot ies_zero"
    "sl_num_slotframes ?sl = 0 \<Longrightarrow> ie_slotframe_and_link e = ie_slotframe_and_link ies_zero"
    using assms by (auto simp: eb_ies_plain_def)
  show ?thesis
  proof (rule ieee802154_ies.equality)
    show "ie_slotframe_and_link (eb_read (e\<lparr>ie_asn := a, ie_join_priority := j\<rparr>) (ies_zero\<lparr>ie_join_priority := 0xff, ie_payload_ie_offset := 2\<rparr>)) =
      ie_slotframe_and_link (e\<lparr>ie_asn := a, ie_join_priority := j, ie_payload_ie_offset := 2\<rparr>)"
      using s p(7) by (simp add: eb_read_def slotframe_read_def hopping_read_def timeslot_read_def sync_read_def Let_def l)
  qed (use h p(1-6) in \<open>simp_all add: eb_read_def slotframe_read_def hopping_read_def timeslot_read_def sync_read_def Let_def
      ies_zero_def\<close>)
qed

lemma eb_slotframe_and_link_plain:
  assumes "eb_ies_plain e" and "ie_slotframe_and_link e = ie_slotframe_and_link ies_zero"
  shows "eb_ies_plain (eb_slotframe_and_link s e)"
  using assms
  by (auto simp: eb_slotframe_and_link_def Let_def eb_ies_plain_def eb_ies_ok_def ies_zero_def FRAME802154E_IE_MAX_LINKS_def
      split: option.splits)

lemma eb_ies_is_plain:
  assumes "length timing_us = tsch_ts_elements_count" and "length hseq = TSCH_HOPPING_SEQUENCE_MAX_LEN"
  shows "eb_ies_plain (eb_ies cfg timing_us hseq hlen s)"
proof -
  let ?e1 = "if eb_with_timeslot_timing cfg then ies_zero\<lparr>ie_tsch_timeslot_id := 1, ie_tsch_timeslot := take tsch_ts_elements_count timing_us\<rparr>
      else ies_zero"
  let ?n = "unat hlen"
  let ?e2 = "if eb_with_hopping_sequence cfg \<and> ?n \<le> TSCH_HOPPING_SEQUENCE_MAX_LEN
      then ?e1\<lparr>ie_channel_hopping_sequence_id := 1, ie_hopping_sequence_len := hlen,
                        ie_hopping_sequence_list := take ?n hseq @ drop ?n (ie_hopping_sequence_list ?e1)\<rparr> else ?e1"
  have z: "length (ie_tsch_timeslot ies_zero) = tsch_ts_elements_count" "length (ie_hopping_sequence_list ies_zero) = TSCH_HOPPING_SEQUENCE_MAX_LEN"
    "length (sl_links (ie_slotframe_and_link ies_zero)) = FRAME802154E_IE_MAX_LINKS"
    "sl_num_slotframes (ie_slotframe_and_link ies_zero) = 0" "sl_num_links (ie_slotframe_and_link ies_zero) = 0"
    "ie_tsch_timeslot_id ies_zero = 0" "ie_channel_hopping_sequence_id ies_zero = 0" "ie_hopping_sequence_len ies_zero = 0"
    "ie_time_correction ies_zero = 0" "ie_is_nack ies_zero = 0" "ie_mlme_len ies_zero = 0" "sixtop_ie_content_ptr ies_zero = None"
    "sixtop_ie_content_len ies_zero = 0"
    by (simp_all add: ies_zero_def)
  have p1: "eb_ies_plain ?e1" and h1: "ie_hopping_sequence_list ?e1 = ie_hopping_sequence_list ies_zero"
    and s1: "ie_slotframe_and_link ?e1 = ie_slotframe_and_link ies_zero"
    using assms(1) by (simp_all add: eb_ies_plain_def eb_ies_ok_def z)
  have p2: "eb_ies_plain ?e2"
    using p1 assms(2) by (auto simp: eb_ies_plain_def eb_ies_ok_def z)
  have s2: "ie_slotframe_and_link ?e2 = ie_slotframe_and_link ies_zero" using s1 by simp
  have eq: "eb_ies cfg timing_us hseq hlen s = (if eb_with_slotframe_and_link cfg then eb_slotframe_and_link s ?e2 else ?e2)"
    by (simp only: eb_ies_def Let_def)
  show ?thesis
    unfolding eq using p2 eb_slotframe_and_link_plain [OF p2 s2] by (cases "eb_with_slotframe_and_link cfg") (simp_all only: if_True if_False)
qed

lemma eb_bytes_update:
  "eb_bytes (e\<lparr>ie_asn := a, ie_join_priority := j\<rparr>) =
     sync_bytes (e\<lparr>ie_asn := a, ie_join_priority := j\<rparr>) @ timeslot_bytes e @ hopping_bytes e @ slotframe_bytes e"
  by (simp add: eb_bytes_def timeslot_bytes_def hopping_bytes_def slotframe_bytes_def Let_def)

lemma sched_clear [simp]:
  "tsch_locked (packetbuf_clear s) = tsch_locked s" "sch_slotframes (packetbuf_clear s) = sch_slotframes s"
  "sch_slotframe_list (packetbuf_clear s) = sch_slotframe_list s" "sch_links (packetbuf_clear s) = sch_links s"
  by (simp_all add: packetbuf_clear_def packetbuf_attr_clear_def)

lemma eb_ies_clear: "eb_ies cfg timing_us hseq hlen (packetbuf_clear s) = eb_ies cfg timing_us hseq hlen s"
proof -
  have f: "tsch_schedule_get_slotframe_by_handle h (packetbuf_clear s) = tsch_schedule_get_slotframe_by_handle h s" for h
    by (simp add: tsch_schedule_get_slotframe_by_handle_def tsch_is_locked_def)
  have l: "tsch_schedule_get_link_by_offsets x t c (packetbuf_clear s) = tsch_schedule_get_link_by_offsets x t c s" for x t c
    by (simp add: tsch_schedule_get_link_by_offsets_def tsch_is_locked_def split: option.splits)
  have "eb_slotframe_and_link (packetbuf_clear s) e = eb_slotframe_and_link s e" for e
    by (simp add: eb_slotframe_and_link_def f l Let_def split: option.splits)
  then show ?thesis by (simp only: eb_ies_def)
qed

text \<open>The packet buffer with the elements of a beacon, before the framer puts the frame header in front.\<close>

lemma eb_prepared:
  assumes m: "length (pb_mem s0) = 128" and e: "eb_ies_ok e"
  defines "s \<equiv> packetbuf_clear s0" and "n \<equiv> length (eb_bytes e)"
  obtains s1 s2 where "eb_append_all eb_writers e (packetbuf_dataptr s, s) = Some (True, s1)"
    and "eb_payload_header e s1 = Some (True, s2)" and "packetbuf_wf s2" and "packetbuf_used s2 = n + 4"
    and "packetbuf_content s2 = eb_frame e" and "pb_buflen s2 = of_nat (n + 2)" and "pb_bufptr s2 = 0"
    and "pb_attrs s2 = (\<lambda>_. 0)" and "packetbuf_state.more s2 = packetbuf_state.more s0"
proof -
  have n: "n \<le> 80" using length_eb_bytes [OF e] by (simp add: n_def)
  have s: "length (pb_mem s) = 128" "pb_bufptr s = 0" "pb_hdrlen s = 0" "pb_buflen s = of_nat 0"
    using m by (simp_all add: s_def)
  have c: "concat [sync_bytes e, timeslot_bytes e, hopping_bytes e, slotframe_bytes e] = eb_bytes e" by (simp add: eb_bytes_def)
  have r: "0 + length (concat [sync_bytes e, timeslot_bytes e, hopping_bytes e, slotframe_bytes e]) \<le> 96"
    unfolding c using n by (simp add: n_def)
  from eb_append_all_writes [OF eb_writers_write [OF e] s r, unfolded c, folded n_def]
  obtain m1 where m1: "eb_append_all eb_writers e (0, s) = Some (True, s\<lparr>pb_mem := m1, pb_buflen := of_nat n\<rparr>)"
    "length m1 = 128" "take n m1 = eb_bytes e" by auto
  let ?s1 = "s\<lparr>pb_mem := m1, pb_buflen := of_nat n\<rparr>"
  have p: "packetbuf_dataptr s = 0" using s by (simp add: packetbuf_dataptr_def packetbuf_hdrlen_def)
  obtain m2 where m2: "eb_payload_header e ?s1 = Some (True, ?s1\<lparr>pb_mem := m2, pb_buflen := of_nat (n + 2), pb_hdrlen := 2\<rparr>)"
    "length m2 = 128" "take (n + 4) m2 = eb_frame e"
    using eb_payload_header_spec [of ?s1 n e e] s m1 n by (auto simp: n_def)
  let ?s2 = "?s1\<lparr>pb_mem := m2, pb_buflen := of_nat (n + 2), pb_hdrlen := 2\<rparr>"
  have u: "unat (of_nat (n + 2) :: u16) = n + 2" using n by (simp add: unat_of_nat del: of_nat_add)
  then have used: "packetbuf_used ?s2 = n + 4" using s by (simp add: packetbuf_used_def del: of_nat_add)
  show ?thesis
  proof (rule that [of ?s1 ?s2])
    show "packetbuf_wf ?s2" using used n m2(2) by (simp add: packetbuf_wf_def PACKETBUF_SIZE_def)
    show "packetbuf_content ?s2 = eb_frame e" using used m2(3) by (simp add: packetbuf_content_def)
    show "pb_attrs ?s2 = (\<lambda>_. 0)" "packetbuf_state.more ?s2 = packetbuf_state.more s0"
      by (simp_all add: s_def packetbuf_clear_def packetbuf_attr_clear_def)
  qed (use m1 m2 p used s in simp_all)
qed

text \<open>The header of a beacon, read by the receiver.\<close>

definition eb_header :: "u16 \<Rightarrow> linkaddr \<Rightarrow> u8 list" where
  "eb_header pan node_addr = fcf_bytes \<lparr>frame_type = 0, security_enabled = 0, frame_pending = 0, ack_required = 0,
     panid_compression = 1, sequence_number_suppression = 1, ie_list_present = 1, dest_addr_mode = 2,
     frame_version = 2, src_addr_mode = 3\<rparr> @ le16 pan @ [0xff, 0xff] @ rev (linkaddr_bytes node_addr)"

lemma eb_frame_params:
  fixes s :: "'a packetbuf_state_scheme"
  assumes a: "pb_attrs s = (\<lambda>_. 0)(PACKETBUF_ATTR_FRAME_TYPE := 0, PACKETBUF_ATTR_MAC_METADATA := 1)"
    and r: "pb_addrs s PACKETBUF_ADDR_RECEIVER = 0" and node: "pb_addrs s PACKETBUF_ADDR_SENDER = node_addr"
  shows "attrs_ok s" and "frame_hdrlen s = 14" and "packetbuf_holds_broadcast s"
    and "frame_header llsec_off (create_frame_params pan s) = eb_header pan node_addr"
    and "ie_list_present (fr_fcf (create_frame_params pan s)) = 1" and "frame_version (fr_fcf (create_frame_params pan s)) = 2"
    and "frame_type (fr_fcf (create_frame_params pan s)) = 0"
proof -
  show ok: "attrs_ok s" using a by (simp add: attrs_ok_def)
  show b: "packetbuf_holds_broadcast s" using r by (simp add: packetbuf_holds_broadcast_def)
  then show "frame_hdrlen s = 14" by (simp add: frame_hdrlen_def)
  have f: "fr_fcf (create_frame_params pan s) = \<lparr>frame_type = 0, security_enabled = 0, frame_pending = 0, ack_required = 0,
     panid_compression = 1, sequence_number_suppression = 1, ie_list_present = 1, dest_addr_mode = 2,
     frame_version = 2, src_addr_mode = 3\<rparr>"
    using a b by (simp add: create_frame_params_def framer_802154_setup_params_def Let_def packetbuf_attr_def frame802154_consts)
  then show "ie_list_present (fr_fcf (create_frame_params pan s)) = 1" "frame_version (fr_fcf (create_frame_params pan s)) = 2"
    "frame_type (fr_fcf (create_frame_params pan s)) = 0" by simp_all
  have d: "fr_dest_addr (create_frame_params pan s) = [0xff, 0xff] @ replicate 6 0" "fr_dest_pid (create_frame_params pan s) = pan"
    "fr_src_addr (create_frame_params pan s) = linkaddr_bytes node_addr"
    using b node by (simp_all add: create_frame_params_def framer_802154_setup_params_def Let_def packetbuf_addr_def
        frame802154_zero_def numeral_eq_Suc)
  have off: "\<not> aux_on llsec_off (create_frame_params pan s)" by (simp add: aux_on_def llsec_off_def)
  have t: "take 8 (linkaddr_bytes node_addr) = linkaddr_bytes node_addr" by simp
  show "frame_header llsec_off (create_frame_params pan s) = eb_header pan node_addr"
    using off t by (simp add: frame_header_def mac_fields_def Let_def f d eb_header_def frame802154_has_panid_def addr_field_def
        addr_len_def frame802154_consts del: take_all take_all_iff)
qed

lemma length_eb_header [simp]: "length (eb_header pan node_addr) = 14"
  by (simp add: eb_header_def fcf_bytes_def)

lemma parse_frame_ies_ok:
  assumes "ie_list_present (fr_fcf f) \<noteq> 0" and "n + k < 256"
    and "frame802154e_parse_information_elements buf n (of_nat k) ies = Some (int k, Some e)"
  shows "parse_frame_ies buf (int (n + k)) f ies (Some (of_nat n)) (of_nat n) =
    Some (int (n + k), Some f, Some e, Some (of_nat n + ie_payload_ie_offset e))"
proof -
  have u: "unat (of_nat n :: u8) = n" "uint (of_nat n :: u8) = int n" using assms(2) by (simp_all add: unat_of_nat uint_nat)
  have "unat (of_nat (n + k) :: u8) = n + k" using assms(2) by (simp add: unat_of_nat del: of_nat_add)
  then have "uint (of_nat (n + k) :: u8) = int (n + k)" by (metis uint_nat)
  then show ?thesis using assms u by (simp add: parse_frame_ies_def)
qed

lemma eb_created:
  fixes s :: "'a tsch_sched_state_scheme" and timing_us :: "u16 list" and hseq :: "u8 list" and hlen :: u16
    and pan :: u16 and node_addr :: linkaddr and cfg :: eb_conf
  assumes s: "length (pb_mem s) = PACKETBUF_SIZE" and pan: "pan \<noteq> 0xffff"
    and l: "length timing_us = tsch_ts_elements_count" "length hseq = TSCH_HOPPING_SEQUENCE_MAX_LEN"
  defines "e \<equiv> eb_ies cfg timing_us hseq hlen s"
  obtains s' where "tsch_packet_create_eb cfg pan node_addr timing_us hseq hlen s =
      Some (int (18 + length (eb_bytes e)), 16, 18, s')"
    and "packetbuf_content s' = eb_header pan node_addr @ eb_frame e" and "packetbuf_wf s'"
proof -
  have e: "eb_ies_ok e" using eb_ies_is_plain [OF l, of cfg hlen s] by (simp only: e_def eb_ies_plain_def)
  have n: "length (eb_bytes e) \<le> 80" using length_eb_bytes [OF e] by simp
  let ?c = "packetbuf_clear s"
  have m: "length (pb_mem s) = 128" using s by (simp add: PACKETBUF_SIZE_def)
  obtain s1 s2 where s1: "eb_append_all eb_writers e (packetbuf_dataptr ?c, ?c) = Some (True, s1)"
    and s2: "eb_payload_header e s1 = Some (True, s2)" "packetbuf_wf s2" "packetbuf_used s2 = length (eb_bytes e) + 4"
      "packetbuf_content s2 = eb_frame e" "pb_buflen s2 = of_nat (length (eb_bytes e) + 2)" "pb_bufptr s2 = 0"
      "pb_attrs s2 = (\<lambda>_. 0)"
    by (rule eb_prepared [OF m e])
  let ?s3 = "packetbuf_set_attr PACKETBUF_ATTR_MAC_METADATA 1
      (packetbuf_set_attr PACKETBUF_ATTR_FRAME_TYPE (ucast FRAME802154_BEACONFRAME) s2)"
  let ?s4 = "packetbuf_set_addr PACKETBUF_ADDR_RECEIVER 0 (packetbuf_set_addr PACKETBUF_ADDR_SENDER node_addr ?s3)"
  have a4: "pb_attrs ?s4 = (\<lambda>_. 0)(PACKETBUF_ATTR_FRAME_TYPE := 0, PACKETBUF_ATTR_MAC_METADATA := 1)"
    "pb_addrs ?s4 PACKETBUF_ADDR_RECEIVER = 0" "pb_addrs ?s4 PACKETBUF_ADDR_SENDER = node_addr"
    using s2(7) by (simp_all add: packetbuf_set_attr_def packetbuf_set_addr_def FRAME802154_BEACONFRAME_def)
  have u4: "packetbuf_used ?s4 = length (eb_bytes e) + 4" "packetbuf_content ?s4 = eb_frame e" "pb_bufptr ?s4 = 0"
    "pb_buflen ?s4 = of_nat (length (eb_bytes e) + 2)"
    using s2(3,4,5,6) by (simp_all add: packetbuf_set_attr_def packetbuf_set_addr_def packetbuf_used_def packetbuf_content_def)
  have w4: "packetbuf_wf ?s4" using s2(2) by simp
  note p = eb_frame_params [OF a4]
  have room: "frame_hdrlen ?s4 + packetbuf_used ?s4 \<le> PACKETBUF_SIZE" using n by (simp add: p(2) u4 PACKETBUF_SIZE_def)
  obtain s5 where s5: "framer_create pan ?s4 = Some (int (frame_hdrlen ?s4), s5)" "packetbuf_wf s5"
    "packetbuf_used s5 = frame_hdrlen ?s4 + packetbuf_used ?s4"
    "packetbuf_content s5 = frame_header llsec_off (create_frame_params pan ?s4) @ packetbuf_content ?s4"
    "s5 = ?s4\<lparr>pb_mem := pb_mem s5, pb_hdrlen := pb_hdrlen s5\<rparr>"
    by (rule framer_create_spec [OF w4 p(1) pan room])
  have same: "pb_bufptr s5 = 0" "pb_buflen s5 = of_nat (length (eb_bytes e) + 2)"
    using u4(3,4) by (subst s5(5), simp)+
  have "unat (pb_buflen s5) = length (eb_bytes e) + 2" using n by (simp add: same unat_of_nat del: of_nat_add)
  then have "unat (packetbuf_hdrlen s5) = 16"
    using s5(3) unat_hdrlen [OF s5(2)] by (simp add: packetbuf_used_def [of s5] same(1) p(2) u4(1))
  then have h: "packetbuf_hdrlen s5 = 16" by (simp add: word_unat_eq_iff)
  have t: "unat (packetbuf_totlen s5) = 18 + length (eb_bytes e)" using unat_totlen [OF s5(2)] s5(3) by (simp add: p(2) u4(1))
  then have t': "uint (packetbuf_totlen s5) = int (18 + length (eb_bytes e))" by (metis uint_nat)
  show ?thesis
  proof (rule that [of s5])
    show "tsch_packet_create_eb cfg pan node_addr timing_us hseq hlen s = Some (int (18 + length (eb_bytes e)), 16, 18, s5)"
      using s1 s2(1) s5(1) h t' unfolding tsch_packet_create_eb_def Let_def eb_ies_clear e_def [symmetric]
      by (simp add: p(2))
    show "packetbuf_content s5 = eb_header pan node_addr @ eb_frame e" using s5(4) by (simp add: p(4) u4(2))
  qed (rule s5(2))
qed

text \<open>Any receiver of the header reads the node and the PAN.\<close>

lemma eb_header_read:
  assumes "14 \<le> n"
  obtains f where "frame802154_parse llsec_off (eb_header pan node_addr @ rest) n frm = Some (14, f)"
    and "fr_src_addr f = linkaddr_bytes node_addr" and "fr_src_pid f = pan" and "security_enabled (fr_fcf f) = 0"
    and "ie_list_present (fr_fcf f) = 1" and "frame_version (fr_fcf f) = 2" and "frame_type (fr_fcf f) = 0"
proof -
  let ?s = "\<lparr>pb_mem = [], pb_buflen = 0, pb_bufptr = 0, pb_hdrlen = 0,
     pb_attrs = (\<lambda>_. 0)(PACKETBUF_ATTR_FRAME_TYPE := 0, PACKETBUF_ATTR_MAC_METADATA := 1),
     pb_addrs = (\<lambda>_. 0)(PACKETBUF_ADDR_SENDER := node_addr)\<rparr> :: packetbuf_state"
  note p = eb_frame_params [of ?s node_addr, simplified]
  let ?p = "create_frame_params pan ?s"
  let ?f = "(read_frame llsec_off ?p frm)\<lparr>fr_payload_len := n - 14, fr_payload := 14\<rparr>"
  note g = create_frame_params_panid [OF p(1), of pan] and r = read_frame_params [OF p(1), of pan frm]
  show ?thesis
  proof (rule that [of ?f])
    show "frame802154_parse llsec_off (eb_header pan node_addr @ rest) n frm = Some (14, ?f)"
      using frame_header_parses [OF p(1), of n pan rest frm] assms unfolding p(2,4) by simp
    have "fr_src_pid (read_frame llsec_off ?p frm) = fr_dest_pid (read_frame llsec_off ?p frm)"
      using g(1,3,4) by (simp add: read_frame_def read_src_def Let_def)
    then show "fr_src_pid ?f = pan" using r(2) by simp
  qed (use r(1,4) p(5-7) g(6) in simp_all)
qed

lemma update_eb_frame:
  fixes e junk :: ieee802154_ies and asn :: tsch_asn and jp :: u8
  assumes e: "eb_ies_ok e" and buf: "take (18 + length (eb_bytes e)) buf = H @ eb_frame e" and H: "length H = 14"
    and l: "18 + length (eb_bytes e) \<le> length buf"
  defines "e' \<equiv> e\<lparr>ie_asn := asn, ie_join_priority := jp\<rparr>"
  obtains m where "tsch_packet_update_eb asn jp buf (int (18 + length (eb_bytes e))) 18 junk = Some (True, m)"
    and "length m = length buf" and "take (18 + length (eb_bytes e)) m = H @ eb_frame e'" and "eb_ies_ok e'"
    and "length (eb_bytes e') = length (eb_bytes e)"
proof -
  let ?n = "length (eb_bytes e)" and ?T = "timeslot_bytes e @ hopping_bytes e @ slotframe_bytes e"
  let ?D = "le16 (header_ie_desc HEADER_IE_LIST_TERMINATION_1 0) @ le16 (payload_ie_desc PAYLOAD_IE_MLME (int ?n))"
  let ?m = "take 18 buf @ sync_bytes e' @ drop 26 buf"
  have ls: "length (sync_bytes x) = 8" for x by (simp add: sync_bytes_def)
  have n: "?n = 8 + length ?T" by (simp add: eb_bytes_def ls)
  have s: "sync_bytes (junk\<lparr>ie_asn := asn, ie_join_priority := jp\<rparr>) = sync_bytes e'" by (simp add: sync_bytes_def e'_def)
  have eb: "eb_bytes e' = sync_bytes e' @ ?T" using eb_bytes_update [where e = e and a = asn and j = jp] by (simp add: e'_def)
  then have len: "length (eb_bytes e') = ?n" using n ls by simp
  have f: "eb_frame e = ?D @ sync_bytes e @ ?T" "eb_frame e' = ?D @ sync_bytes e' @ ?T"
    using eb len by (simp_all add: eb_frame_def eb_bytes_def)
  have b: "buf = (H @ ?D) @ sync_bytes e @ ?T @ drop (18 + ?n) buf"
    using append_take_drop_id [of "18 + ?n" buf] buf f(1) by simp
  have t18: "take 18 buf = H @ ?D" by (subst b) (simp add: H)
  have d26: "drop 26 buf = ?T @ drop (18 + ?n) buf" by (subst b) (simp add: H ls)
  have "tsch_packet_update_eb asn jp buf (int (18 + ?n)) 18 junk = Some (True, ?m)"
    using sync_writes_exact [of 18 buf "int (18 + ?n) - 18" "junk\<lparr>ie_asn := asn, ie_join_priority := jp\<rparr>"] l n
    by (simp add: tsch_packet_update_eb_def s)
  moreover have "length ?m = length buf" using l n ls [of e'] by simp
  moreover have "take (18 + ?n) ?m = H @ eb_frame e'" by (simp add: t18 d26 f(2) H ls n)
  moreover have "eb_ies_ok e'" using e by (simp add: e'_def eb_ies_ok_def)
  ultimately show ?thesis using that len by blast
qed

text \<open>
  A beacon over the air: the frame that is built, updated with the ASN and the join priority of the moment,
  is read back from any array that begins with its bytes and goes on for at least four more.
\<close>

lemma eb_over_the_air:
  fixes s :: "'a tsch_sched_state_scheme" and timing_us :: "u16 list" and hseq :: "u8 list" and hlen :: u16
    and pan :: u16 and node_addr :: linkaddr and cfg :: eb_conf
  assumes s: "length (pb_mem s) = PACKETBUF_SIZE" and pan: "pan \<noteq> 0xffff"
    and l: "length timing_us = tsch_ts_elements_count" "length hseq = TSCH_HOPPING_SEQUENCE_MAX_LEN"
  defines "e \<equiv> eb_ies cfg timing_us hseq hlen s" and "n \<equiv> 18 + length (eb_bytes (eb_ies cfg timing_us hseq hlen s))"
  obtains s' where "tsch_packet_create_eb cfg pan node_addr timing_us hseq hlen s = Some (int n, 16, 18, s')"
    and "length (packetbuf_content s') = n" and "n \<le> 98"
    and "\<And>buf asn jp junk. take n buf = packetbuf_content s' \<Longrightarrow> n \<le> length buf \<Longrightarrow>
      \<exists>m. tsch_packet_update_eb asn jp buf (int n) 18 junk = Some (True, m) \<and> length m = length buf \<and>
        (\<forall>x frm old h. take n x = take n m \<and> n + 4 \<le> length x \<longrightarrow>
          (\<exists>f. tsch_packet_parse_eb x (int n) (Some frm) (Some old) (Some h) =
            Some (int n, Some f, Some (e\<lparr>ie_asn := asn, ie_join_priority := jp, ie_payload_ie_offset := 2\<rparr>), Some 16) \<and>
          fr_src_addr f = linkaddr_bytes node_addr \<and> fr_src_pid f = pan \<and> security_enabled (fr_fcf f) = 0))"
proof -
  have plain: "eb_ies_plain e" using eb_ies_is_plain [OF l] by (simp only: e_def)
  then have ok: "eb_ies_ok e" by (simp only: eb_ies_plain_def)
  have n: "n = 18 + length (eb_bytes e)" by (simp only: n_def e_def)
  have b: "length (eb_bytes e) \<le> 80" using length_eb_bytes [OF ok] by simp
  obtain s' where s': "tsch_packet_create_eb cfg pan node_addr timing_us hseq hlen s = Some (int n, 16, 18, s')"
    "packetbuf_content s' = eb_header pan node_addr @ eb_frame e"
    using eb_created [OF s pan l, of cfg node_addr hlen, folded e_def] unfolding n by blast
  have lf: "length (eb_frame x) = 4 + length (eb_bytes x)" for x by (simp add: eb_frame_def)
  have read_back: "\<exists>f. tsch_packet_parse_eb x (int n) (Some frm) (Some old) (Some h) =
        Some (int n, Some f, Some (e\<lparr>ie_asn := asn, ie_join_priority := jp, ie_payload_ie_offset := 2\<rparr>), Some 16) \<and>
      fr_src_addr f = linkaddr_bytes node_addr \<and> fr_src_pid f = pan \<and> security_enabled (fr_fcf f) = 0"
    if x: "take n x = eb_header pan node_addr @ eb_frame (e\<lparr>ie_asn := asn, ie_join_priority := jp\<rparr>)"
      and room: "n + 4 \<le> length x" and e': "eb_ies_ok (e\<lparr>ie_asn := asn, ie_join_priority := jp\<rparr>)"
      "length (eb_bytes (e\<lparr>ie_asn := asn, ie_join_priority := jp\<rparr>)) = length (eb_bytes e)" for x asn jp frm old h
  proof -
    let ?e = "e\<lparr>ie_asn := asn, ie_join_priority := jp\<rparr>"
    have "x = eb_header pan node_addr @ (eb_frame ?e @ drop n x)"
      using append_take_drop_id [of n x] x by simp
    moreover obtain f where f: "frame802154_parse llsec_off (eb_header pan node_addr @ (eb_frame ?e @ drop n x)) (int n) frm = Some (14, f)"
      "fr_src_addr f = linkaddr_bytes node_addr" "fr_src_pid f = pan" "security_enabled (fr_fcf f) = 0"
      "ie_list_present (fr_fcf f) = 1" "frame_version (fr_fcf f) = 2" "frame_type (fr_fcf f) = 0"
      by (rule eb_header_read [of "int n" pan node_addr "eb_frame ?e @ drop n x" frm]) (simp_all add: n)
    ultimately have parse: "frame802154_parse llsec_off x (int n) frm = Some (14, f)" by simp
    have k: "length (eb_frame ?e) = n - 14" "14 + (n - 14) = n" by (simp_all add: lf e'(2) n)
    have "take (length (eb_frame ?e)) (drop 14 x) = drop 14 (take n x)" by (simp add: drop_take k)
    then have rd: "mem_read x 14 (length (eb_frame ?e)) = Some (eb_frame ?e)" using room k by (simp add: mem_read_def x)
    have "frame802154e_parse_information_elements x 14 (of_nat (length (eb_frame ?e))) (Some (ies_zero\<lparr>ie_join_priority := 0xff\<rparr>)) =
        Some (int (length (eb_frame ?e)), Some (eb_read ?e (ies_zero\<lparr>ie_join_priority := 0xff, ie_payload_ie_offset := 2\<rparr>)))"
      by (rule parse_eb_frame [OF e'(1) rd]) (use room k in simp)
    then have ies: "frame802154e_parse_information_elements x 14 (of_nat (n - 14)) (Some (ies_zero\<lparr>ie_join_priority := 0xff\<rparr>)) =
        Some (int (n - 14), Some (e\<lparr>ie_asn := asn, ie_join_priority := jp, ie_payload_ie_offset := 2\<rparr>))"
      unfolding k(1) eb_read_plain [OF plain] by simp
    have "14 + (n - 14) < 256" using b by (simp add: n)
    from parse_frame_ies_ok [OF _ this ies] have "parse_frame_ies x (int n) f (Some (ies_zero\<lparr>ie_join_priority := 0xff\<rparr>)) (Some 14) 14 =
        Some (int n, Some f, Some (e\<lparr>ie_asn := asn, ie_join_priority := jp, ie_payload_ie_offset := 2\<rparr>), Some 16)"
      using f(5) k(2) by simp
    then have "tsch_packet_parse_eb x (int n) (Some frm) (Some old) (Some h) =
        Some (int n, Some f, Some (e\<lparr>ie_asn := asn, ie_join_priority := jp, ie_payload_ie_offset := 2\<rparr>), Some 16)"
      using f(6,7) by (simp add: tsch_packet_parse_eb_def parse frame802154_consts)
    then show ?thesis using f(2-4) by blast
  qed
  show ?thesis
  proof (rule that [OF s'(1)])
    show "length (packetbuf_content s') = n" by (simp add: s'(2) lf n)
    show "n \<le> 98" using b n by simp
    fix buf asn jp junk
    assume buf: "take n buf = packetbuf_content s'" and len: "n \<le> length buf"
    obtain m where m: "tsch_packet_update_eb asn jp buf (int n) 18 junk = Some (True, m)" "length m = length buf"
      "take n m = eb_header pan node_addr @ eb_frame (e\<lparr>ie_asn := asn, ie_join_priority := jp\<rparr>)"
      "eb_ies_ok (e\<lparr>ie_asn := asn, ie_join_priority := jp\<rparr>)"
      "length (eb_bytes (e\<lparr>ie_asn := asn, ie_join_priority := jp\<rparr>)) = length (eb_bytes e)"
      by (rule update_eb_frame [OF ok buf [unfolded n s'(2)] length_eb_header len [unfolded n], of asn jp junk, folded n])
    show "\<exists>m. tsch_packet_update_eb asn jp buf (int n) 18 junk = Some (True, m) \<and> length m = length buf \<and>
        (\<forall>x frm old h. take n x = take n m \<and> n + 4 \<le> length x \<longrightarrow>
          (\<exists>f. tsch_packet_parse_eb x (int n) (Some frm) (Some old) (Some h) =
            Some (int n, Some f, Some (e\<lparr>ie_asn := asn, ie_join_priority := jp, ie_payload_ie_offset := 2\<rparr>), Some 16) \<and>
          fr_src_addr f = linkaddr_bytes node_addr \<and> fr_src_pid f = pan \<and> security_enabled (fr_fcf f) = 0))"
      using m(1,2) read_back [OF _ _ m(4,5)] m(3) by auto
  qed
qed

text \<open>
  C32: what a beacon advertises is what a joining node learns.  In every configuration of the optional
  elements, \<open>tsch_packet_create_eb\<close> builds a frame of \<open>18 + length (eb_bytes e)\<close> bytes, 35 in the default
  one, with the synchronisation element at offset 18.  When the slot operation fills in the ASN
  and the join priority of the moment and another node parses the frame, from an array with at
  least four bytes behind it, this node finds exactly the advertised elements \<open>e\<close> with this ASN and
  join priority, the address and the PAN of the sender, and the header length 16.
\<close>

theorem tsch_packet_eb_roundtrip:
  fixes s :: "'a tsch_sched_state_scheme" and timing_us :: "u16 list" and hseq :: "u8 list" and hlen :: u16
    and pan :: u16 and node_addr :: linkaddr and cfg :: eb_conf
  assumes s: "length (pb_mem s) = PACKETBUF_SIZE" and pan: "pan \<noteq> 0xffff"
    and l: "length timing_us = tsch_ts_elements_count" "length hseq = TSCH_HOPPING_SEQUENCE_MAX_LEN"
  defines "e \<equiv> eb_ies cfg timing_us hseq hlen s" and "n \<equiv> 18 + length (eb_bytes (eb_ies cfg timing_us hseq hlen s))"
  shows "\<exists>s'. tsch_packet_create_eb cfg pan node_addr timing_us hseq hlen s = Some (int n, 16, 18, s') \<and>
    length (packetbuf_content s') = n \<and> n \<le> 98 \<and> (cfg = eb_default \<longrightarrow> n = 35) \<and>
    (\<forall>buf asn jp junk frm old h. take n buf = packetbuf_content s' \<and> n + 4 \<le> length buf \<longrightarrow>
      (\<exists>m f. tsch_packet_update_eb asn jp buf (int n) 18 junk = Some (True, m) \<and>
        tsch_packet_parse_eb m (int n) (Some frm) (Some old) (Some h) =
          Some (int n, Some f, Some (e\<lparr>ie_asn := asn, ie_join_priority := jp, ie_payload_ie_offset := 2\<rparr>), Some 16) \<and>
        fr_src_addr f = linkaddr_bytes node_addr \<and> fr_src_pid f = pan \<and> security_enabled (fr_fcf f) = 0))"
proof (rule eb_over_the_air [OF s pan l, of cfg node_addr hlen, folded e_def n_def], goal_cases)
  case (1 s')
  have d: "cfg = eb_default \<longrightarrow> n = 35"
    by (auto simp: n_def eb_ies_def eb_default_def eb_bytes_def sync_bytes_def timeslot_bytes_def hopping_bytes_def
        slotframe_bytes_def ies_zero_def Let_def)
  have "\<exists>m f. tsch_packet_update_eb asn jp buf (int n) 18 junk = Some (True, m) \<and>
        tsch_packet_parse_eb m (int n) (Some frm) (Some old) (Some h) =
          Some (int n, Some f, Some (e\<lparr>ie_asn := asn, ie_join_priority := jp, ie_payload_ie_offset := 2\<rparr>), Some 16) \<and>
        fr_src_addr f = linkaddr_bytes node_addr \<and> fr_src_pid f = pan \<and> security_enabled (fr_fcf f) = 0"
    if "take n buf = packetbuf_content s' \<and> n + 4 \<le> length buf" for buf asn jp junk frm old h
    using 1(4) [of buf asn jp junk] that by fastforce
  with 1(1-3) d show ?case by blast
qed

definition beacon_example :: tsch_sched_state where
  "beacon_example = sched_example\<lparr>pb_mem := replicate 128 0\<rparr>"

theorem tsch_packet_eb_roundtrip_witness:
  "\<exists>s'. tsch_packet_create_eb eb_default 0xabcd 5 (replicate 12 0) [15, 20, 25, 26] 4 beacon_example = Some (35, 16, 18, s') \<and>
    (\<exists>m f. tsch_packet_update_eb \<lparr>ls4b = 0x12345678, ms1b = 0x9a\<rparr> 2 (packetbuf_content s' @ replicate 4 0) 35 18 ies_zero = Some (True, m) \<and>
      tsch_packet_parse_eb m 35 (Some frame802154_zero) (Some ies_zero) (Some 0) =
        Some (35, Some f, Some (ies_zero\<lparr>ie_asn := \<lparr>ls4b = 0x12345678, ms1b = 0x9a\<rparr>, ie_join_priority := 2, ie_payload_ie_offset := 2\<rparr>), Some 16) \<and>
      fr_src_addr f = linkaddr_bytes 5)"
proof -
  let ?t = "replicate 12 0 :: u16 list" and ?q = "[15, 20, 25, 26] :: u8 list"
  have h: "length (pb_mem beacon_example) = PACKETBUF_SIZE" "(0xabcd :: u16) \<noteq> 0xffff"
    "length ?t = tsch_ts_elements_count" "length ?q = TSCH_HOPPING_SEQUENCE_MAX_LEN"
    by (simp_all add: beacon_example_def PACKETBUF_SIZE_def tsch_ts_elements_count_def TSCH_HOPPING_SEQUENCE_MAX_LEN_def)
  have e: "eb_ies eb_default ?t ?q 4 beacon_example = ies_zero" by (simp add: eb_ies_def eb_default_def Let_def)
  have z: "length (eb_bytes ies_zero) = 17"
    by (simp add: eb_bytes_def sync_bytes_def timeslot_bytes_def hopping_bytes_def slotframe_bytes_def ies_zero_def Let_def)
  obtain s' where s': "tsch_packet_create_eb eb_default 0xabcd 5 ?t ?q 4 beacon_example = Some (35, 16, 18, s')"
    "length (packetbuf_content s') = 35"
    and r: "\<forall>buf asn jp junk frm old h. take 35 buf = packetbuf_content s' \<and> 39 \<le> length buf \<longrightarrow>
      (\<exists>m f. tsch_packet_update_eb asn jp buf 35 18 junk = Some (True, m) \<and>
        tsch_packet_parse_eb m 35 (Some frm) (Some old) (Some h) =
          Some (35, Some f, Some (ies_zero\<lparr>ie_asn := asn, ie_join_priority := jp, ie_payload_ie_offset := 2\<rparr>), Some 16) \<and>
        fr_src_addr f = linkaddr_bytes 5 \<and> fr_src_pid f = 0xabcd \<and> security_enabled (fr_fcf f) = 0)"
    using tsch_packet_eb_roundtrip [OF h, of eb_default 5 4, unfolded e z] by auto
  from r [rule_format, of "packetbuf_content s' @ replicate 4 0" "\<lparr>ls4b = 0x12345678, ms1b = 0x9a\<rparr>" 2 ies_zero frame802154_zero ies_zero 0] s'
  show ?thesis by auto
qed

text \<open>
  The parser of a slotframe element reads the number of links, four bytes behind the beginning of
  the element, before it knows that there is a slotframe: an element without slotframes at the end
  of an array is an access behind the array.
\<close>

lemma slotframe_ie_overread:
  assumes "1 \<le> len" and "p < length m" and "length m \<le> p + 4"
  shows "frame802154e_parse_mlme_short_ie m p len MLME_SHORT_IE_TSCH_SLOFTRAME_AND_LINK ies = None"
proof -
  have "read8 m (p + 4) = None" using assms by (simp add: read8_def mem_read_def)
  then show ?thesis using assms by (simp add: frame802154e_parse_mlme_short_ie_def bind_None)
qed

text \<open>The frame pending bit, set in a frame that is ready to be sent, is the one that the parser reads.\<close>

lemma frame_pending_set:
  assumes "2 \<le> length buf"
  obtains m where "tsch_packet_set_frame_pending buf = Some m" and "length m = length buf"
    and "tsch_packet_get_frame_pending m = Some 1"
    and "map_option frame_pending (frame802154_parse_fcf m) = Some 1"
proof -
  obtain a bs where b: "buf = a # bs" using assms by (cases buf) auto
  obtain c cs where c: "bs = c # cs" using assms b by (cases bs) auto
  have one: "drop_bit 4 (a OR push_bit 4 1) AND 1 = (1 :: u8)"
    unfolding mask_numerals by (rule bit_word_eqI) (auto simp: bit_simps)
  show ?thesis
    by (rule that [of "(a OR push_bit 4 1) # bs"])
      (simp_all add: tsch_packet_set_frame_pending_def tsch_packet_get_frame_pending_def mem_read_def mem_write_def
        IEEE802154_FRAME_PENDING_BIT_OFFSET_def frame802154_parse_fcf_def one [simplified] b c)
qed

end
