(* ===== verification/Tsch_Slot.thy ===== *)
theory Tsch_Slot
  imports Tsch_Timesync Tsch_Packet
begin

section \<open>The slot operation\<close>

text \<open>
  Model of \<open>os/net/mac/tsch/tsch-slot-operation.c\<close>: what a node does in one timeslot, and the choice
  of the next one.  The protothreads only yield to wait for a point in time within the slot, and no
  other code changes the queues and the schedule meanwhile (it waits for the lock), so a slot is
  one function.  The radio is a device with a channel, a transmit buffer and the list of the
  frames sent; what it returns in a slot is a record of inputs.  Logs, LEDs and statistics
  are left out, and so are the branches for link-layer security, clear
  channel assessment, custom join sequences and frame filtering, which are off.  Memory that the
  code reads uninitialised (the results of a parser that fails early) is a parameter.
\<close>

record input_packet =
  ip_payload :: "u8 list"
  ip_rx_asn :: tsch_asn
  ip_len :: int
  ip_rssi :: u16
  ip_channel :: u8

record slot_state = timesync_state +
  mac_pan_id :: u16
  tsch_is_associated :: bool
  tsch_current_asn :: tsch_asn
  tsch_join_priority :: u8
  tsch_hopping_sequence :: "u8 list"
  tsch_hopping_sequence_length :: tsch_asn_divisor
  tsch_lock_requested :: bool
  tsch_in_slot_operation :: bool
  tsch_current_channel :: u8
  tsch_current_channel_offset :: u8
  backup_link :: "nat option"
  current_packet :: "nat option"
  current_neighbor :: "nat option"
  burst_link_scheduled :: bool
  tsch_current_burst_count :: int
  drift_correction :: u32
  is_drift_correction_used :: bool
  last_sync_asn :: tsch_asn
  tsch_last_sync_time :: u32
  current_slot_start :: u32
  dequeued_ringbuf :: ringbufindex
  dequeued_array :: "nat option list"
  input_ringbuf :: ringbufindex
  input_array :: "input_packet list"
  input_queue_drop :: int
  tx_count :: nat
  rx_count :: nat
  sync_count :: nat
  tsch_process_polled :: bool
  radio_is_on :: bool
  radio_channel :: u8
  radio_buffer :: "u8 list"
  radio_sent :: "(u8 \<times> u8 list) list"        \<comment> \<open>channel and bytes of every frame sent\<close>

text \<open>Configuration and platform.\<close>

record slot_env =
  se_rtimer :: rtimer_env
  se_guard :: u32                              \<comment> \<open>\<open>RTIMER_GUARD\<close>\<close>
  se_node_addr :: linkaddr
  se_burst_max_len :: int                      \<comment> \<open>\<open>TSCH_BURST_MAX_LEN\<close>\<close>
  se_radio_on_during_timeslot :: bool          \<comment> \<open>\<open>TSCH_RADIO_ON_DURING_TIMESLOT\<close>\<close>
  se_junk_frame :: frame802154
  se_junk_ies :: ieee802154_ies

text \<open>
  The radio and the clock in one slot: whether it accepts a frame to send, the status of the
  transmission, the bytes read as acknowledgement, the frame received in a receive slot with its signal
  strength and the time of its start, and the coarse clock.
\<close>

record slot_input =
  si_prepare :: bool
  si_transmit :: u8
  si_ack :: "u8 list"
  si_frame :: "u8 list option"
  si_rssi :: u16
  si_rx_start :: u32
  si_clock :: u32

definition RADIO_TX_OK :: u8 where "RADIO_TX_OK = 0"
definition TSCH_PACKET_MAX_LEN :: nat where "TSCH_PACKET_MAX_LEN = PACKETBUF_SIZE"
definition TSCH_DESYNC_THRESHOLD :: int where "TSCH_DESYNC_THRESHOLD = 2 * uint TSCH_MAX_KEEPALIVE_TIMEOUT"

abbreviation (input) tsch_ts_tx_offset :: nat where "tsch_ts_tx_offset \<equiv> 2"
abbreviation (input) tsch_ts_rx_wait :: nat where "tsch_ts_rx_wait \<equiv> 6"

subsection \<open>Channels and time\<close>

definition tsch_get_channel_offset :: "tsch_link \<Rightarrow> u8" where
  "tsch_get_channel_offset link = ucast (link_channel_offset link)"

definition tsch_calculate_channel :: "tsch_asn \<Rightarrow> u16 \<Rightarrow> 'm slot_state_scheme \<Rightarrow> u8 ub" where
  "tsch_calculate_channel asn ch_offset s =
     (let len = tsch_hopping_sequence_length s in
      if div_val len = 0 then None
      else let index_of_0 = word_of_int (TSCH_ASN_MOD asn len) :: u16;
               index_of_offset = (uint index_of_0 + uint ch_offset) mod uint (div_val len)
           in arr_get (tsch_hopping_sequence s) (nat index_of_offset))"

definition check_timer_miss :: "u32 \<Rightarrow> u32 \<Rightarrow> u32 \<Rightarrow> bool" where
  "check_timer_miss ref_time offset now =
     (let target = ref_time + offset;
          now_has_overflowed = now < ref_time;
          target_has_overflowed = target < ref_time
      in if now_has_overflowed = target_has_overflowed then target \<le> now else now_has_overflowed)"

text \<open>
  The reading of the clock and the success of \<open>rtimer_set\<close> are arguments.  After a miss the code
  waits until the slot it was to wake up for has begun; this shows in the next reading only.
\<close>

definition tsch_schedule_slot_operation :: "slot_env \<Rightarrow> u32 \<times> bool \<Rightarrow> u32 \<Rightarrow> u32 \<Rightarrow> bool" where
  "tsch_schedule_slot_operation env reading ref_time offset =
     (case reading of (now, rtimer_set_ok) \<Rightarrow>
        \<not> check_timer_miss ref_time (offset - se_guard env) now \<and> rtimer_set_ok)"

definition TSCH_CLOCK_TO_SLOTS :: "slot_env \<Rightarrow> int \<Rightarrow> int \<Rightarrow> int" where
  "TSCH_CLOCK_TO_SLOTS env c timeslot_length =
     ((c * re_second (se_rtimer env)) div 128 + timeslot_length - 1) div timeslot_length"

subsection \<open>The packet of a link\<close>

definition get_packet_and_neighbor_for_link ::
  "nat \<Rightarrow> 'm slot_state_scheme \<Rightarrow> nat option \<times> nat option" where
  "get_packet_and_neighbor_for_link l s =
     (let link = sch_links s ! l in
      if link_options link AND LINK_OPTION_TX \<noteq> 0
      then let (p, n) = (if link_link_type link = LINK_TYPE_ADVERTISING \<or>
                            link_link_type link = LINK_TYPE_ADVERTISING_ONLY
                         then (tsch_queue_get_packet_for_nbr (q_n_eb s) (Some link) s, q_n_eb s)
                         else (None, None))
           in if link_link_type link \<noteq> LINK_TYPE_ADVERTISING_ONLY \<and> p = None
              then let n' = tsch_queue_get_nbr (link_addr link) s;
                       p' = tsch_queue_get_packet_for_nbr n' (Some link) s
                   in if p' = None \<and> n' = q_n_broadcast s
                      then case tsch_queue_get_unicast_packet_for_any (Some link) s of
                             None \<Rightarrow> (None, n')
                           | Some (q, k) \<Rightarrow> (Some q, Some k)
                      else (p', n')
              else (p, n)
      else (None, None))"

definition update_link_backoff :: "nat option \<Rightarrow> 'm slot_state_scheme \<Rightarrow> 'm slot_state_scheme" where
  "update_link_backoff lo s =
     (case lo of
        Some l \<Rightarrow>
          if link_options (sch_links s ! l) AND LINK_OPTION_TX \<noteq> 0 \<and>
             link_options (sch_links s ! l) AND LINK_OPTION_SHARED \<noteq> 0
          then tsch_queue_update_all_backoff_windows (link_addr (sch_links s ! l)) s else s
      | None \<Rightarrow> s)"

text \<open>\<open>(uint64_t)-1\<close> while not associated.  \<open>CLOCK_SECOND\<close> is 128.\<close>

definition tsch_get_network_uptime_ticks :: "slot_env \<Rightarrow> u32 \<Rightarrow> 'm slot_state_scheme \<Rightarrow> (64 word) ub" where
  "tsch_get_network_uptime_ticks env clock s =
     (if \<not> tsch_is_associated s then Some (- 1)
      else do {
        len \<leftarrow> arr_get (tsch_timing s) tsch_ts_timeslot_length;
        let uptime_asn = (ucast (ls4b (last_sync_asn s)) + push_bit 32 (ucast (ms1b (last_sync_asn s))) :: 64 word);
        let ticks = uptime_asn * ucast len;
        let divisor = (word_of_int (re_second (se_rtimer env) div 128) :: 64 word);
        if divisor = 0 then None
        else Some (ticks div divisor + ucast (clock - tsch_last_sync_time s))
      })"

subsection \<open>The radio\<close>

datatype tsch_radio_state_on_cmd =
  TSCH_RADIO_CMD_ON_START_OF_TIMESLOT | TSCH_RADIO_CMD_ON_WITHIN_TIMESLOT | TSCH_RADIO_CMD_ON_FORCE

datatype tsch_radio_state_off_cmd =
  TSCH_RADIO_CMD_OFF_END_OF_TIMESLOT | TSCH_RADIO_CMD_OFF_WITHIN_TIMESLOT | TSCH_RADIO_CMD_OFF_FORCE

definition tsch_radio_on :: "slot_env \<Rightarrow> tsch_radio_state_on_cmd \<Rightarrow> 'm slot_state_scheme \<Rightarrow> 'm slot_state_scheme" where
  "tsch_radio_on env command s =
     (let do_it = (case command of
            TSCH_RADIO_CMD_ON_START_OF_TIMESLOT \<Rightarrow> se_radio_on_during_timeslot env
          | TSCH_RADIO_CMD_ON_WITHIN_TIMESLOT \<Rightarrow> \<not> se_radio_on_during_timeslot env
          | TSCH_RADIO_CMD_ON_FORCE \<Rightarrow> True)
      in s\<lparr>radio_is_on := do_it \<or> radio_is_on s\<rparr>)"

definition tsch_radio_off :: "slot_env \<Rightarrow> tsch_radio_state_off_cmd \<Rightarrow> 'm slot_state_scheme \<Rightarrow> 'm slot_state_scheme" where
  "tsch_radio_off env command s =
     (let do_it = (case command of
            TSCH_RADIO_CMD_OFF_END_OF_TIMESLOT \<Rightarrow> se_radio_on_during_timeslot env
          | TSCH_RADIO_CMD_OFF_WITHIN_TIMESLOT \<Rightarrow> \<not> se_radio_on_during_timeslot env
          | TSCH_RADIO_CMD_OFF_FORCE \<Rightarrow> True)
      in s\<lparr>radio_is_on := \<not> do_it \<and> radio_is_on s\<rparr>)"

text \<open>Handing a frame to the radio and sending the first \<open>len\<close> bytes of its buffer.\<close>

definition radio_prepare :: "bool \<Rightarrow> u8 list \<Rightarrow> 'm slot_state_scheme \<Rightarrow> 'm slot_state_scheme" where
  "radio_prepare ok bytes s = (if ok then s\<lparr>radio_buffer := bytes\<rparr> else s)"

definition radio_transmit :: "nat \<Rightarrow> 'm slot_state_scheme \<Rightarrow> 'm slot_state_scheme" where
  "radio_transmit len s = s\<lparr>radio_sent := radio_sent s @ [(radio_channel s, take len (radio_buffer s))]\<rparr>"

subsection \<open>Sending\<close>

definition SYNC_IE_BOUND :: "slot_env \<Rightarrow> 'm slot_state_scheme \<Rightarrow> u32 ub" where
  "SYNC_IE_BOUND env s = do {
     us \<leftarrow> arr_get (tsch_timing_us s) tsch_ts_rx_wait;
     Some (word_of_int (re_us_to_ticks (se_rtimer env) (uint us div 4)))
   }"

text \<open>The acknowledgement came from the time source: note its correction.\<close>

definition ack_time_correction ::
  "slot_env \<Rightarrow> u32 \<Rightarrow> nat \<Rightarrow> ieee802154_ies \<Rightarrow> 'm slot_state_scheme \<Rightarrow> 'm slot_state_scheme ub" where
  "ack_time_correction env clock n ies s = do {
     let correction = (word_of_int (re_us_to_ticks (se_rtimer env) (sint (ie_time_correction ies))) :: u32);
     let since_last_timesync = TSCH_ASN_DIFF (tsch_current_asn s) (last_sync_asn s);
     bound \<leftarrow> SYNC_IE_BOUND env s;
     let drift = (if sint bound < sint correction then bound
                  else if sint correction < sint (- bound) then - bound else correction);
     s1 \<leftarrow> tsch_timesync_update (Some n) (ucast since_last_timesync) drift
            (s\<lparr>drift_correction := drift, is_drift_correction_used := True\<rparr>);
     Some (tsch_schedule_keepalive False
       (s1\<lparr>last_sync_asn := tsch_current_asn s1, tsch_last_sync_time := clock\<rparr>))
   }"

text \<open>The wait for an acknowledgement after a unicast frame with sequence number \<open>seqno\<close>.\<close>

definition receive_ack ::
  "slot_env \<Rightarrow> slot_input \<Rightarrow> nat \<Rightarrow> u8 \<Rightarrow> bool \<Rightarrow> 'm slot_state_scheme \<Rightarrow> (u8 \<times> 'm slot_state_scheme) ub" where
  "receive_ack env inp n seqno burst_link_requested s = do {
     let ackbuf = take TSCH_PACKET_MAX_LEN (si_ack inp);
     (accepted, ies) \<leftarrow>
       (if ackbuf = [] then Some (False, se_junk_ies env)
        else do {
          (ret, _, ies, _) \<leftarrow> tsch_packet_parse_eack (mac_pan_id s) (se_node_addr env) ackbuf (int (length ackbuf))
             seqno (Some (se_junk_frame env)) (Some (se_junk_ies env)) (Some 0);
          if ret \<noteq> 0 then do { ies' \<leftarrow> ies; Some (True, ies') } else Some (False, se_junk_ies env)
        });
     if accepted then do {
       s1 \<leftarrow> (if is_time_source (q_nbrs s ! n) then ack_time_correction env (si_clock inp) n ies s else Some s);
       Some (MAC_TX_OK, if burst_link_requested then s1\<lparr>burst_link_scheduled := True\<rparr> else s1)
     }
     else Some (MAC_TX_NOACK, s)
   }"

text \<open>The frame of packet \<open>p\<close>: with the pending bit in a burst, a beacon with the current slot number.\<close>

definition prepare_frame ::
  "slot_env \<Rightarrow> nat \<Rightarrow> nat \<Rightarrow> nat \<Rightarrow> 'm slot_state_scheme \<Rightarrow>
   (bool \<times> bool \<times> u8 \<times> u8 list \<times> 'm slot_state_scheme) ub" where
  "prepare_frame env n p r s = do {
     let packet = qd_data (qb_ram s ! r);
     let packet_len = (ucast (qd_len (qb_ram s ! r)) :: u8);
     let do_wait_for_ack = (\<not> is_broadcast (q_nbrs s ! n));
     let burst_link_requested = (do_wait_for_ack \<and>
           tsch_current_burst_count s + 1 < se_burst_max_len env \<and>
           1 < tsch_queue_nbr_packet_count (Some n) s);
     packet1 \<leftarrow> (if burst_link_requested then tsch_packet_set_frame_pending packet else Some packet);
     seqno \<leftarrow> arr_get packet1 2;
     (ready, packet2) \<leftarrow>
       (if Some n = q_n_eb s
        then tsch_packet_update_eb (tsch_current_asn s) (tsch_join_priority s) packet1 (uint packet_len)
               (pkt_tsch_sync_ie_offset (q_packets s ! p)) (se_junk_ies env)
        else Some (True, packet1));
     Some (ready, burst_link_requested, seqno, take (unat packet_len) packet2,
       s\<lparr>qb_ram := (qb_ram s)[r := (qb_ram s ! r)\<lparr>qd_data := packet2\<rparr>]\<rparr>)
   }"

definition tx_transmit ::
  "slot_env \<Rightarrow> slot_input \<Rightarrow> 'm slot_state_scheme \<Rightarrow> (u8 \<times> 'm slot_state_scheme) ub" where
  "tx_transmit env inp s =
     (case current_packet s of
        None \<Rightarrow> Some (MAC_TX_ERR_FATAL, s)
      | Some p \<Rightarrow>
          (case pkt_qb (q_packets s ! p) of
             None \<Rightarrow> Some (MAC_TX_ERR_FATAL, s)
           | Some qb \<Rightarrow> do {
               r \<leftarrow> queuebuf_load_to_ram qb s;
               n \<leftarrow> current_neighbor s;
               (ready, burst_link_requested, seqno, frame, s1) \<leftarrow> prepare_frame env n p r s;
               if ready \<and> si_prepare inp then do {
                 let s2 = radio_transmit (length frame) (radio_prepare True frame s1);
                 let s3 = tsch_radio_off env TSCH_RADIO_CMD_OFF_WITHIN_TIMESLOT (s2\<lparr>tx_count := tx_count s2 + 1\<rparr>);
                 if si_transmit inp = RADIO_TX_OK
                 then if \<not> is_broadcast (q_nbrs s3 ! n)
                      then receive_ack env inp n seqno burst_link_requested
                             (tsch_radio_off env TSCH_RADIO_CMD_OFF_WITHIN_TIMESLOT
                               (tsch_radio_on env TSCH_RADIO_CMD_ON_WITHIN_TIMESLOT s3))
                      else Some (MAC_TX_OK, s3)
                 else Some (MAC_TX_ERR, s3)
               }
               else Some (MAC_TX_ERR, s1)
             }))"

text \<open>After the transmission: count it, update the queue, hand over a packet that left it.\<close>

definition tx_done :: "int \<Rightarrow> u8 \<Rightarrow> 'm slot_state_scheme \<Rightarrow> 'm slot_state_scheme ub" where
  "tx_done dequeued_index mac_tx_status s = do {
     p \<leftarrow> current_packet s;
     n \<leftarrow> current_neighbor s;
     l \<leftarrow> sch_current_link s;
     let s1 = s\<lparr>q_packets := (q_packets s)[p := (q_packets s ! p)
            \<lparr>pkt_transmissions := pkt_transmissions (q_packets s ! p) + 1, pkt_ret := mac_tx_status\<rparr>]\<rparr>;
     let (in_queue, s2) = tsch_queue_packet_sent n p (sch_links s1 ! l) mac_tx_status s1;
     s3 \<leftarrow> (if in_queue = 0
            then do {
              a \<leftarrow> arr_set (dequeued_array s2) (nat dequeued_index) (Some p);
              Some (s2\<lparr>dequeued_array := a, dequeued_ringbuf := snd (ringbufindex_put (dequeued_ringbuf s2))\<rparr>)
            }
            else Some s2);
     s4 \<leftarrow> (if is_time_source (q_nbrs s3 ! n) \<and> link_timeslot (sch_links s3 ! l) \<noteq> 0
            then pdr_tx_update (sch_links s3 ! l) mac_tx_status s3 else Some s3);
     Some (s4\<lparr>pending_events_polled := True\<rparr>)
   }"

definition tsch_tx_slot :: "slot_env \<Rightarrow> slot_input \<Rightarrow> 'm slot_state_scheme \<Rightarrow> 'm slot_state_scheme ub" where
  "tsch_tx_slot env inp s =
     (let dequeued_index = ringbufindex_peek_put (dequeued_ringbuf s) in
      if dequeued_index = -1 then Some s
      else do {
        (mac_tx_status, s1) \<leftarrow> tx_transmit env inp s;
        tx_done dequeued_index mac_tx_status (tsch_radio_off env TSCH_RADIO_CMD_OFF_END_OF_TIMESLOT s1)
      })"

subsection \<open>Receiving\<close>

text \<open>The frame was addressed to this node and not from it.\<close>

definition rx_acknowledge ::
  "slot_env \<Rightarrow> frame802154 \<Rightarrow> linkaddr \<Rightarrow> u32 \<Rightarrow> u8 list \<Rightarrow> 'm slot_state_scheme \<Rightarrow> 'm slot_state_scheme ub" where
  "rx_acknowledge env frame source estimated_drift payload s =
     (if ack_required (fr_fcf frame) \<noteq> 0
      then do {
        (ack_len, buf) \<leftarrow> tsch_packet_create_eack (mac_pan_id s) (se_junk_frame env)
          (Some (replicate TSCH_PACKET_MAX_LEN 0)) (of_nat TSCH_PACKET_MAX_LEN) (Some source) (fr_seq frame)
          (word_of_int (re_ticks_to_us (se_rtimer env) (sint estimated_drift))) 0;
        ack_buf \<leftarrow> buf;
        if 0 < ack_len then do {
          let s1 = tsch_radio_off env TSCH_RADIO_CMD_OFF_WITHIN_TIMESLOT
            (radio_transmit (nat ack_len) (radio_prepare True (take (nat ack_len) ack_buf) s));
          b \<leftarrow> tsch_packet_get_frame_pending payload;
          Some (s1\<lparr>burst_link_scheduled := b \<noteq> 0\<rparr>)
        }
        else Some s
      }
      else Some s)"

definition rx_synchronize ::
  "slot_env \<Rightarrow> u32 \<Rightarrow> linkaddr \<Rightarrow> u32 \<Rightarrow> 'm slot_state_scheme \<Rightarrow> 'm slot_state_scheme ub" where
  "rx_synchronize env clock source estimated_drift s =
     (case tsch_queue_get_nbr source s of
        Some n \<Rightarrow>
          if is_time_source (q_nbrs s ! n)
          then do {
            let since_last_timesync = TSCH_ASN_DIFF (tsch_current_asn s) (last_sync_asn s);
            s1 \<leftarrow> tsch_timesync_update (Some n) (ucast since_last_timesync) (- estimated_drift)
              (s\<lparr>last_sync_asn := tsch_current_asn s, tsch_last_sync_time := clock,
                drift_correction := - estimated_drift, is_drift_correction_used := True,
                sync_count := sync_count s + 1\<rparr>);
            Some (tsch_schedule_keepalive False s1)
          }
          else Some s
      | None \<Rightarrow> Some s)"

definition frame_accepted :: "slot_env \<Rightarrow> u16 \<Rightarrow> int \<Rightarrow> frame802154 \<Rightarrow> bool" where
  "frame_accepted env pan header_len frame \<longleftrightarrow>
     0 < header_len \<and> frame802154_check_dest_panid pan (Some frame) \<noteq> 0 \<and>
     fst (frame802154_extract_linkaddr (Some frame) (Some 0) (Some 0)) \<noteq> 0 \<and>
     (frame_type (fr_fcf frame) = ucast FRAME802154_DATAFRAME \<or> frame_type (fr_fcf frame) = FRAME802154_BEACONFRAME)"

text \<open>A frame that has been read and parsed, \<open>estimated_drift\<close> being the time it came before it was expected.\<close>

definition rx_frame ::
  "slot_env \<Rightarrow> slot_input \<Rightarrow> int \<Rightarrow> frame802154 \<Rightarrow> u32 \<Rightarrow> u8 list \<Rightarrow> 'm slot_state_scheme \<Rightarrow> 'm slot_state_scheme ub" where
  "rx_frame env inp header_len frame estimated_drift payload s =
     (if frame_accepted env (mac_pan_id s) header_len frame then do {
        let (_, src, dest) = frame802154_extract_linkaddr (Some frame) (Some 0) (Some 0);
        source \<leftarrow> src;
        destination \<leftarrow> dest;
        s1 \<leftarrow> (if (destination = se_node_addr env \<or> destination = 0) \<and> source \<noteq> se_node_addr env
          then do {
            s1 \<leftarrow> rx_acknowledge env frame source estimated_drift payload (s\<lparr>rx_count := rx_count s + 1\<rparr>);
            s2 \<leftarrow> rx_synchronize env (si_clock inp) source estimated_drift s1;
            Some (s2\<lparr>input_ringbuf := snd (ringbufindex_put (input_ringbuf s2))\<rparr>)
          }
          else Some s);
        Some (s1\<lparr>pending_events_polled := True\<rparr>)
      }
      else Some s)"

definition tsch_rx_slot :: "slot_env \<Rightarrow> slot_input \<Rightarrow> 'm slot_state_scheme \<Rightarrow> 'm slot_state_scheme ub" where
  "tsch_rx_slot env inp s =
     (let input_index = ringbufindex_peek_put (input_ringbuf s) in
      if input_index = -1 then Some (s\<lparr>input_queue_drop := input_queue_drop s + 1\<rparr>)
      else do {
        tx_offset \<leftarrow> arr_get (tsch_timing s) tsch_ts_tx_offset;
        let expected_rx_time = current_slot_start s + tx_offset;
        let s0 = tsch_radio_on env TSCH_RADIO_CMD_ON_WITHIN_TIMESLOT s;
        s1 \<leftarrow> (case si_frame inp of
          None \<Rightarrow> Some (tsch_radio_off env TSCH_RADIO_CMD_OFF_FORCE s0)
        | Some air \<Rightarrow> do {
            old \<leftarrow> arr_get (input_array s) (nat input_index);
            let bytes = take TSCH_PACKET_MAX_LEN air;
            let payload = bytes @ drop (length bytes) (ip_payload old);
            let cur = \<lparr>ip_payload = payload, ip_rx_asn = tsch_current_asn s, ip_len = int (length bytes),
                       ip_rssi = si_rssi inp, ip_channel = tsch_current_channel s\<rparr>;
            let s1 = tsch_radio_off env TSCH_RADIO_CMD_OFF_WITHIN_TIMESLOT
              (s0\<lparr>input_array := (input_array s)[nat input_index := cur]\<rparr>);
            (header_len, frame) \<leftarrow> frame802154_parse llsec_off payload (ip_len cur) (se_junk_frame env);
            s2 \<leftarrow> rx_frame env inp header_len frame (expected_rx_time - si_rx_start inp) payload s1;
            Some (tsch_radio_off env TSCH_RADIO_CMD_OFF_END_OF_TIMESLOT s2)
          });
        Some (s1\<lparr>input_queue_drop := 0\<rparr>)
      })"

subsection \<open>A slot\<close>

definition tsch_disassociate :: "'m slot_state_scheme \<Rightarrow> 'm slot_state_scheme" where
  "tsch_disassociate s =
     (if tsch_is_associated s
      then (tsch_adaptive_timesync_reset (s\<lparr>tsch_is_associated := False\<rparr>))\<lparr>tsch_process_polled := True\<rparr>
      else s)"

text \<open>The packet for the current link, or the switch to the backup link.\<close>

definition choose_link :: "nat \<Rightarrow> 'm slot_state_scheme \<Rightarrow> 'm slot_state_scheme" where
  "choose_link l s =
     (let (p, n) = get_packet_and_neighbor_for_link l s;
          s1 = s\<lparr>current_packet := p, current_neighbor := n\<rparr>
      in case backup_link s1 of
           Some b \<Rightarrow>
             if p = None \<and>
                (link_options (sch_links s1 ! l) AND LINK_OPTION_RX = 0 \<or>
                 link_slotframe_handle (sch_links s1 ! b) < link_slotframe_handle (sch_links s1 ! l))
             then let s2 = (update_link_backoff (Some l) s1)\<lparr>sch_current_link := Some b\<rparr>;
                      (p', n') = get_packet_and_neighbor_for_link b s2
                  in s2\<lparr>current_packet := p', current_neighbor := n'\<rparr>
             else s1
         | None \<Rightarrow> s1)"

definition hop_channel :: "nat \<Rightarrow> 'm slot_state_scheme \<Rightarrow> 'm slot_state_scheme ub" where
  "hop_channel l s = do {
     let off = tsch_get_channel_offset (sch_links s ! l);
     ch \<leftarrow> tsch_calculate_channel (tsch_current_asn s) (ucast off) s;
     Some (s\<lparr>tsch_current_channel_offset := off, tsch_current_channel := ch\<rparr>)
   }"

definition slot_action :: "slot_env \<Rightarrow> slot_input \<Rightarrow> 'm slot_state_scheme \<Rightarrow> 'm slot_state_scheme ub" where
  "slot_action env inp s =
     (case sch_current_link s of
        None \<Rightarrow> Some s
      | Some l0 \<Rightarrow>
          if tsch_lock_requested s then Some s
          else do {
            let s1 = choose_link l0 (s\<lparr>tsch_in_slot_operation := True, drift_correction := 0,
                                       is_drift_correction_used := False\<rparr>);
            l \<leftarrow> sch_current_link s1;
            if current_packet s1 \<noteq> None \<or> link_options (sch_links s1 ! l) AND LINK_OPTION_RX \<noteq> 0
            then do {
              s2 \<leftarrow> (if burst_link_scheduled s1 then Some (s1\<lparr>burst_link_scheduled := False\<rparr>)
                     else hop_channel l s1);
              let s3 = tsch_radio_on env TSCH_RADIO_CMD_ON_START_OF_TIMESLOT
                (s2\<lparr>radio_channel := tsch_current_channel s2\<rparr>);
              if current_packet s3 \<noteq> None then tsch_tx_slot env inp s3 else tsch_rx_slot env inp s3
            }
            else Some (s1\<lparr>burst_link_scheduled := False\<rparr>)
          })"

subsection \<open>The next slot\<close>

text \<open>One attempt to find the next slot, and the time until then.\<close>

definition next_slot :: "slot_env \<Rightarrow> 'm slot_state_scheme \<Rightarrow> (u32 \<times> 'm slot_state_scheme) ub" where
  "next_slot env s = do {
     let s1 = update_link_backoff (sch_current_link s) s;
     let (timeslot_diff, s2) =
       (if burst_link_scheduled s1 \<and> sch_current_link s1 \<noteq> None
        then (1, s1\<lparr>backup_link := None, tsch_current_burst_count := tsch_current_burst_count s1 + 1\<rparr>)
        else let (best, t, backup) = tsch_schedule_get_next_active_link (tsch_current_asn s1) s1;
                 s2 = s1\<lparr>sch_current_link := best, backup_link := backup\<rparr>
             in case best of
                  None \<Rightarrow> (1, s2)
                | Some _ \<Rightarrow> (case t of None \<Rightarrow> 0 | Some d \<Rightarrow> d, s2\<lparr>tsch_current_burst_count := 0\<rparr>));
     len \<leftarrow> arr_get (tsch_timing s2) tsch_ts_timeslot_length;
     let time_to_next = ucast timeslot_diff * len + drift_correction s2;
     let (comp, s3) = tsch_timesync_adaptive_compensate (se_rtimer env) time_to_next
                        (s2\<lparr>tsch_current_asn := TSCH_ASN_INC (tsch_current_asn s2) (ucast timeslot_diff)\<rparr>);
     Some (time_to_next + comp,
       s3\<lparr>drift_correction := 0, is_drift_correction_used := False,
         current_slot_start := current_slot_start s3 + (time_to_next + comp)\<rparr>)
   }"

text \<open>At the start of the operation there is no link and no correction yet.\<close>

definition first_slot_step :: "slot_env \<Rightarrow> 'm slot_state_scheme \<Rightarrow> (u32 \<times> 'm slot_state_scheme) ub" where
  "first_slot_step env s = do {
     let (best, t, backup) = tsch_schedule_get_next_active_link (tsch_current_asn s) s;
     let timeslot_diff = (case best of None \<Rightarrow> 1 | Some _ \<Rightarrow> (case t of None \<Rightarrow> 0 | Some d \<Rightarrow> d));
     len \<leftarrow> arr_get (tsch_timing s) tsch_ts_timeslot_length;
     let time_to_next = ucast timeslot_diff * len;
     let (comp, s1) = tsch_timesync_adaptive_compensate (se_rtimer env) time_to_next
                        (s\<lparr>sch_current_link := best, backup_link := backup,
                          tsch_current_asn := TSCH_ASN_INC (tsch_current_asn s) (ucast timeslot_diff)\<rparr>);
     Some (time_to_next + comp,
       s1\<lparr>current_slot_start := current_slot_start s1 + (time_to_next + comp)\<rparr>)
   }"

text \<open>
  The loop that skips slots until a wake-up can be scheduled.  The readings of the clock and of
  \<open>rtimer_set\<close> are a stream; a loop that never succeeds is \<open>None\<close>.
\<close>

partial_function (option) schedule_loop ::
  "slot_env \<Rightarrow> (slot_env \<Rightarrow> 'm slot_state_scheme \<Rightarrow> (u32 \<times> 'm slot_state_scheme) ub) \<Rightarrow>
   (nat \<Rightarrow> u32 \<times> bool) \<Rightarrow> nat \<Rightarrow> 'm slot_state_scheme \<Rightarrow> 'm slot_state_scheme option" where
  "schedule_loop env step readings k s = do {
     (t, s') \<leftarrow> step env s;
     if tsch_schedule_slot_operation env (readings k) (current_slot_start s) t then Some s'
     else schedule_loop env step readings (Suc k) s'
   }"

definition desynchronized :: "slot_env \<Rightarrow> 'm slot_state_scheme \<Rightarrow> bool ub" where
  "desynchronized env s =
     (if tsch_is_coordinator s then Some False
      else do {
        len \<leftarrow> arr_get (tsch_timing s) tsch_ts_timeslot_length;
        if len = 0 then None
        else Some (100 * TSCH_CLOCK_TO_SLOTS env (TSCH_DESYNC_THRESHOLD div 100) (uint len) <
                   uint (TSCH_ASN_DIFF (tsch_current_asn s) (last_sync_asn s)))
      })"

text \<open>One activation of the slot operation: the slot and what follows it.\<close>

definition tsch_slot_operation ::
  "slot_env \<Rightarrow> slot_input \<Rightarrow> (nat \<Rightarrow> u32 \<times> bool) \<Rightarrow> 'm slot_state_scheme \<Rightarrow> 'm slot_state_scheme ub" where
  "tsch_slot_operation env inp readings s =
     (if \<not> tsch_is_associated s then Some s
      else do {
        s1 \<leftarrow> slot_action env inp s;
        let s2 = (if tsch_is_coordinator s1
                  then s1\<lparr>last_sync_asn := tsch_current_asn s1, tsch_last_sync_time := si_clock inp\<rparr> else s1);
        leave \<leftarrow> desynchronized env s2;
        s3 \<leftarrow> (if leave then Some (tsch_disassociate s2) else schedule_loop env next_slot readings 0 s2);
        Some (s3\<lparr>tsch_in_slot_operation := False\<rparr>)
      })"

definition tsch_slot_operation_start ::
  "slot_env \<Rightarrow> (nat \<Rightarrow> u32 \<times> bool) \<Rightarrow> 'm slot_state_scheme \<Rightarrow> 'm slot_state_scheme ub" where
  "tsch_slot_operation_start env readings s = schedule_loop env first_slot_step readings 0 s"

definition tsch_slot_operation_sync ::
  "u32 \<Rightarrow> tsch_asn \<Rightarrow> u32 \<Rightarrow> 'm slot_state_scheme \<Rightarrow> 'm slot_state_scheme" where
  "tsch_slot_operation_sync next_slot_start next_slot_asn clock s =
     s\<lparr>current_slot_start := next_slot_start, tsch_current_asn := next_slot_asn,
       last_sync_asn := next_slot_asn, tsch_last_sync_time := clock, sch_current_link := None\<rparr>"

subsection \<open>Points in time\<close>

lemma timer_miss_iff: "check_timer_miss ref_time offset now \<longleftrightarrow> offset \<le> now - ref_time"
proof -
  have b: "0 \<le> uint x" "uint x < 4294967296" for x :: u32
    using uint_bounded [of x] by simp_all
  have L: "(2 :: int) ^ LENGTH(32) = 4294967296" by simp
  show ?thesis
    unfolding check_timer_miss_def Let_def word_le_def word_less_def uint_plus_if' uint_sub_if' L
    using b [of ref_time] b [of offset] b [of now] by (smt (verit, best))
qed

text \<open>The test for a missed deadline, with its case distinction on overflows, is exact for every
  reference time: it asks whether at least \<open>offset\<close> ticks have passed, modulo \<open>2 ^ 32\<close>.\<close>

theorem check_timer_miss_correct: "check_timer_miss ref_time offset now \<longleftrightarrow> offset \<le> now - ref_time"
  by (rule timer_miss_iff)

subsection \<open>Channel hopping\<close>

definition hopping_ok :: "'m slot_state_scheme \<Rightarrow> bool" where
  "hopping_ok s \<longleftrightarrow>
     (\<exists>n. n \<noteq> 0 \<and> unat n \<le> length (tsch_hopping_sequence s) \<and>
          tsch_hopping_sequence_length s = TSCH_ASN_DIVISOR_INIT n)"

definition hopping_index :: "tsch_asn \<Rightarrow> u16 \<Rightarrow> 'm slot_state_scheme \<Rightarrow> nat" where
  "hopping_index asn ch_offset s =
     nat ((asn_value asn + uint ch_offset) mod uint (div_val (tsch_hopping_sequence_length s)))"

lemma calculate_channel:
  assumes "hopping_ok s"
  shows "tsch_calculate_channel asn ch_offset s = Some (tsch_hopping_sequence s ! hopping_index asn ch_offset s)"
    and "hopping_index asn ch_offset s < length (tsch_hopping_sequence s)"
proof -
  obtain n where n: "n \<noteq> 0" "unat n \<le> length (tsch_hopping_sequence s)"
    "tsch_hopping_sequence_length s = TSCH_ASN_DIVISOR_INIT n"
    using assms by (auto simp: hopping_ok_def)
  have d: "div_val (TSCH_ASN_DIVISOR_INIT n) = n" by (simp add: TSCH_ASN_DIVISOR_INIT_def)
  have n0: "0 < uint n" using n(1) by (simp add: word_greater_zero_iff [symmetric] word_less_def)
  have x: "uint (word_of_int (asn_value asn mod uint n) :: u16) = asn_value asn mod uint n"
    using n0 u16_trunc [of "asn_value asn mod uint n" n] by (simp add: uint_word_of_int)
  have i: "(asn_value asn mod uint n + uint ch_offset) mod uint n = (asn_value asn + uint ch_offset) mod uint n"
    by (simp add: mod_add_left_eq)
  have "(asn_value asn + uint ch_offset) mod uint n < uint n" using n0 by simp
  then have l: "nat ((asn_value asn + uint ch_offset) mod uint n) < unat n"
    using n0 by (simp add: nat_less_iff)
  then show "hopping_index asn ch_offset s < length (tsch_hopping_sequence s)"
    using n(2,3) by (simp add: hopping_index_def d)
  then show "tsch_calculate_channel asn ch_offset s = Some (tsch_hopping_sequence s ! hopping_index asn ch_offset s)"
    using n(1) by (simp add: tsch_calculate_channel_def n(3) d asn_mod [OF n(1)] x i arr_get_def hopping_index_def)
qed

subsection \<open>The choice of the next slot\<close>

lemma adaptive_compensate_frame:
  assumes "tsch_timesync_adaptive_compensate re t s = (c, s')"
  shows "\<exists>rm er ct. s' = s\<lparr>ts_remainder := rm, ts_tick_conversion_error := er, compensated_ticks := ct\<rparr>"
proof (cases "drift_ppm s \<noteq> 0 \<and> last_timesource_neighbor s \<noteq> None")
  case True
  with assms show ?thesis
    by (auto simp: tsch_timesync_adaptive_compensate_def Let_def split: prod.splits)
next
  case False
  then have "s' = s" using assms by (auto simp: tsch_timesync_adaptive_compensate_def)
  then have "s' = s\<lparr>ts_remainder := ts_remainder s,
      ts_tick_conversion_error := ts_tick_conversion_error s, compensated_ticks := compensated_ticks s\<rparr>" by simp
  then show ?thesis by blast
qed

lemma update_backoff_frame: "\<exists>q. tsch_queue_update_all_backoff_windows a s = s\<lparr>q_nbrs := q\<rparr>"
  for s :: "'m tsch_queue_state_scheme"
proof -
  have step: "\<exists>q. tsch_queue_update_backoff_window a n s = s\<lparr>q_nbrs := q\<rparr>" for n and s :: "'m tsch_queue_state_scheme"
    by (cases "tsch_queue_update_backoff_window a n s = s")
      (auto simp: tsch_queue_update_backoff_window_def Let_def upd_nbr_def intro: exI [of _ "q_nbrs s"])
  have "\<exists>q. fold (tsch_queue_update_backoff_window a) ns s = s\<lparr>q_nbrs := q\<rparr>" for ns
  proof (induction ns arbitrary: s)
    case Nil
    show ?case by (rule exI [of _ "q_nbrs s"]) simp
  next
    case (Cons n ns)
    obtain q where q: "tsch_queue_update_backoff_window a n s = s\<lparr>q_nbrs := q\<rparr>" using step by blast
    from Cons.IH [of "s\<lparr>q_nbrs := q\<rparr>"] show ?case by (auto simp: q)
  qed
  from this [of "nbr_table_items tsch_neighbors s"] obtain q where "fold (tsch_queue_update_backoff_window a) (nbr_table_items tsch_neighbors s) s = s\<lparr>q_nbrs := q\<rparr>" by blast
  moreover have "\<exists>q. s = s\<lparr>q_nbrs := q\<rparr>" by (rule exI [of _ "q_nbrs s"]) simp
  ultimately show ?thesis
    unfolding tsch_queue_update_all_backoff_windows_def by (auto split: if_splits)
qed

lemma link_backoff_frame: "\<exists>q. update_link_backoff lo s = s\<lparr>q_nbrs := q\<rparr>"
proof -
  have same: "\<exists>q. s = s\<lparr>q_nbrs := q\<rparr>" by (rule exI [of _ "q_nbrs s"]) simp
  show ?thesis
  proof (cases lo)
    case None
    then show ?thesis using same by (simp only: update_link_backoff_def option.case)
  next
    case (Some l)
    then show ?thesis using same update_backoff_frame [of "link_addr (sch_links s ! l)" s]
      by (simp only: update_link_backoff_def option.case split: if_split) blast
  qed
qed

definition slot_ready :: "'m slot_state_scheme \<Rightarrow> bool" where
  "slot_ready s \<longleftrightarrow> sched_wf s \<and> \<not> tsch_locked s \<and> length (tsch_timing s) = 12"

definition slot_length :: "'m slot_state_scheme \<Rightarrow> u32" where
  "slot_length s = tsch_timing s ! tsch_ts_timeslot_length"

definition same_schedule :: "'m slot_state_scheme \<Rightarrow> 'm slot_state_scheme \<Rightarrow> bool" where
  "same_schedule s s' \<longleftrightarrow>
     sch_links s' = sch_links s \<and> sch_slotframes s' = sch_slotframes s \<and>
     sch_slotframe_list s' = sch_slotframe_list s \<and> sch_link_memb s' = sch_link_memb s \<and>
     sch_slotframe_memb s' = sch_slotframe_memb s \<and> tsch_locked s' = tsch_locked s \<and>
     tsch_timing s' = tsch_timing s \<and> drift_ppm s' = drift_ppm s \<and>
     last_timesource_neighbor s' = last_timesource_neighbor s \<and>
     burst_link_scheduled s' = burst_link_scheduled s"

lemma same_schedule_refl [simp]: "same_schedule s s"
  by (simp add: same_schedule_def)

lemma same_schedule_trans: "same_schedule s t \<Longrightarrow> same_schedule t u \<Longrightarrow> same_schedule s u"
  by (simp add: same_schedule_def)

lemma same_schedule_facts:
  assumes "same_schedule s s'"
  shows "sched_wf s' = sched_wf s" and "slot_ready s' = slot_ready s" and "slot_length s' = slot_length s"
    and "next_active_ok s' = next_active_ok s"
proof -
  have e: "sf_links s' = sf_links s" "active_at s' = active_at s" "tx_link s' = tx_link s"
    "rx_link s' = rx_link s" "handle_of s' = handle_of s" "slotframe_ok s' = slotframe_ok s"
    using assms
    by (auto simp: fun_eq_iff same_schedule_def slotframe_ok_def sf_links_def active_at_def tx_link_def
        rx_link_def handle_of_def)
  show wf: "sched_wf s' = sched_wf s"
    using assms by (simp add: sched_wf_def e) (simp add: same_schedule_def)
  show "slot_ready s' = slot_ready s"
    using assms by (simp add: slot_ready_def wf) (simp add: same_schedule_def)
  show "slot_length s' = slot_length s"
    using assms by (simp add: slot_length_def same_schedule_def)
  have "sch_slotframe_list s' = sch_slotframe_list s" using assms by (simp add: same_schedule_def)
  then show "next_active_ok s' = next_active_ok s"
    by (intro ext) (simp only: next_active_ok_def e)
qed

lemma next_slot_step:
  assumes s: "slot_ready s"
  shows "\<exists>t s' d comp. next_slot env s = Some (t, s') \<and> same_schedule s s' \<and>
    tsch_current_asn s' = TSCH_ASN_INC (tsch_current_asn s) (ucast d) \<and>
    t = ucast (d :: u16) * slot_length s + drift_correction s + comp \<and>
    current_slot_start s' = current_slot_start s + t \<and> drift_correction s' = 0 \<and>
    (drift_ppm s = 0 \<longrightarrow> comp = 0) \<and>
    (if burst_link_scheduled s \<and> sch_current_link s \<noteq> None
     then d = 1 \<and> sch_current_link s' = sch_current_link s \<and> backup_link s' = None
     else next_active_ok s (tsch_current_asn s) (sch_current_link s') (Some d) (backup_link s') \<and>
       (sch_current_link s' = None \<longrightarrow> d = 1))"
proof -
  obtain q where q: "update_link_backoff (sch_current_link s) s = s\<lparr>q_nbrs := q\<rparr>"
    using link_backoff_frame by blast
  define s1 where "s1 = s\<lparr>q_nbrs := q\<rparr>"
  have same1: "same_schedule s s1" by (simp add: same_schedule_def s1_def)
  obtain best t backup where g: "tsch_schedule_get_next_active_link (tsch_current_asn s1) s1 = (best, t, backup)"
    by (metis prod_cases3)
  have "sched_wf s1" "\<not> tsch_locked s1"
    using s same1 by (simp_all add: slot_ready_def same_schedule_facts) (simp add: same_schedule_def)
  from next_active_link_ok [OF this g] have ok: "next_active_ok s (tsch_current_asn s) best t backup"
    using same_schedule_facts(4) [OF same1] by (simp add: s1_def)
  define burst where "burst \<longleftrightarrow> burst_link_scheduled s \<and> sch_current_link s \<noteq> None"
  define d :: u16 where "d = (if burst then 1 else case best of None \<Rightarrow> 1 | Some _ \<Rightarrow> (case t of None \<Rightarrow> 0 | Some x \<Rightarrow> x))"
  define s2 where "s2 = (if burst
    then s1\<lparr>backup_link := None, tsch_current_burst_count := tsch_current_burst_count s1 + 1\<rparr>
    else case best of None \<Rightarrow> s1\<lparr>sch_current_link := best, backup_link := backup\<rparr>
         | Some _ \<Rightarrow> s1\<lparr>sch_current_link := best, backup_link := backup\<rparr>\<lparr>tsch_current_burst_count := 0\<rparr>)"
  have f2: "same_schedule s s2" "drift_correction s2 = drift_correction s"
    "tsch_current_asn s2 = tsch_current_asn s" "current_slot_start s2 = current_slot_start s"
    by (simp_all add: s2_def s1_def same_schedule_def split: option.splits)
  have link2: "sch_current_link s2 = (if burst then sch_current_link s else best)"
    "backup_link s2 = (if burst then None else backup)"
    by (simp_all add: s2_def s1_def split: option.splits)
  have len: "arr_get (tsch_timing s2) 11 = Some (slot_length s)"
    using s f2(1) by (simp add: arr_get_def slot_ready_def slot_length_def same_schedule_def)
  define base where "base = ucast d * slot_length s + drift_correction s"
  define s3 where "s3 = s2\<lparr>tsch_current_asn := TSCH_ASN_INC (tsch_current_asn s2) (ucast d)\<rparr>"
  obtain comp s4 where c: "tsch_timesync_adaptive_compensate (se_rtimer env) base s3 = (comp, s4)"
    by (metis prod.exhaust)
  obtain rm er ct where s4: "s4 = s3\<lparr>ts_remainder := rm, ts_tick_conversion_error := er, compensated_ticks := ct\<rparr>"
    using adaptive_compensate_frame [OF c] by blast
  have z: "comp = 0" if "drift_ppm s = 0"
    using c that f2(1) by (simp add: tsch_timesync_adaptive_compensate_def s3_def same_schedule_def)
  define s5 where "s5 = s4\<lparr>drift_correction := 0, is_drift_correction_used := False,
    current_slot_start := current_slot_start s4 + (base + comp)\<rparr>"
  have pick: "(if burst_link_scheduled s1 \<and> sch_current_link s1 \<noteq> None
        then (1, s1\<lparr>backup_link := None, tsch_current_burst_count := tsch_current_burst_count s1 + 1\<rparr>)
        else let (best, t, backup) = tsch_schedule_get_next_active_link (tsch_current_asn s1) s1;
                 s2 = s1\<lparr>sch_current_link := best, backup_link := backup\<rparr>
             in case best of
                  None \<Rightarrow> (1, s2)
                | Some _ \<Rightarrow> (case t of None \<Rightarrow> 0 | Some d \<Rightarrow> d, s2\<lparr>tsch_current_burst_count := 0\<rparr>)) = (d, s2)"
    unfolding g by (auto simp: d_def s2_def burst_def s1_def split: option.splits)
  have run: "next_slot env s = Some (base + comp, s5)"
    unfolding next_slot_def q s1_def [symmetric] Let_def [of s1] pick [unfolded Let_def] Let_def prod.case len
      Option.bind_lunit f2(2) base_def [symmetric] s3_def [symmetric] c s5_def ..
  have same5: "same_schedule s s5" using f2(1) by (simp add: same_schedule_def s5_def s4 s3_def)
  have nxt: "next_active_ok s (tsch_current_asn s) best (Some d) backup \<and> (best = None \<longrightarrow> d = 1)" if "\<not> burst"
    using ok that by (auto simp: d_def next_active_ok_def split: option.splits)
  show ?thesis
    by (rule exI [of _ "base + comp"], rule exI [of _ s5], rule exI [of _ d], rule exI [of _ comp])
      (use run same5 z nxt link2 f2 in \<open>auto simp: base_def s5_def s4 s3_def burst_def d_def\<close>)
qed

lemma next_slot_next:
  assumes s: "slot_ready s" and n: "next_slot env s = Some (t, s')"
  obtains d comp where "same_schedule s s'" and "tsch_current_asn s' = TSCH_ASN_INC (tsch_current_asn s) (ucast (d :: u16))"
    and "t = ucast d * slot_length s + drift_correction s + comp"
    and "current_slot_start s' = current_slot_start s + t" and "drift_correction s' = 0"
    and "drift_ppm s = 0 \<longrightarrow> comp = 0" and "0 < uint d"
    and "if burst_link_scheduled s \<and> sch_current_link s \<noteq> None
      then d = 1 \<and> sch_current_link s' = sch_current_link s \<and> backup_link s' = None
      else next_active_ok s (tsch_current_asn s) (sch_current_link s') (Some d) (backup_link s')"
proof -
  from next_slot_step [OF s, of env] n obtain d comp where
    *: "same_schedule s s'" "tsch_current_asn s' = TSCH_ASN_INC (tsch_current_asn s) (ucast (d :: u16))"
    "t = ucast d * slot_length s + drift_correction s + comp"
    "current_slot_start s' = current_slot_start s + t" "drift_correction s' = 0"
    "drift_ppm s = 0 \<longrightarrow> comp = 0"
    and c: "if burst_link_scheduled s \<and> sch_current_link s \<noteq> None
      then d = 1 \<and> sch_current_link s' = sch_current_link s \<and> backup_link s' = None
      else next_active_ok s (tsch_current_asn s) (sch_current_link s') (Some d) (backup_link s') \<and>
        (sch_current_link s' = None \<longrightarrow> d = 1)" by auto
  have "0 < uint d" using c by (auto simp: next_active_ok_def split: if_splits option.splits)
  with * c show thesis by (intro that [of d comp]) (auto split: if_splits)
qed

text \<open>The link of the next slot and the distance to it are right for slot number \<open>asn\<close>.\<close>

definition link_due :: "'m slot_state_scheme \<Rightarrow> tsch_asn \<Rightarrow> u16 \<Rightarrow> 'm slot_state_scheme \<Rightarrow> bool" where
  "link_due s asn d s' \<longleftrightarrow>
     (if burst_link_scheduled s \<and> sch_current_link s \<noteq> None
      then d = 1 \<and> sch_current_link s' = sch_current_link s \<and> backup_link s' = None
      else next_active_ok s asn (sch_current_link s') (Some d) (backup_link s'))"

lemma asn_diff_word:
  "(word_of_int (asn_value (TSCH_ASN_INC a (ucast (d :: u16)))) :: u32) = word_of_int (asn_value a) + ucast d"
proof -
  have "(word_of_int ((x + y) mod 2 ^ 40) :: u32) = word_of_int x + word_of_int y" for x y :: int
  proof -
    have "(word_of_int (z mod 2 ^ 40) :: u32) = word_of_int z" for z :: int
      by (simp add: word_of_int_eq_iff take_bit_eq_mod mod_mod_cancel)
    then show ?thesis by simp
  qed
  moreover have "(word_of_int (uint (ucast d :: u32)) :: u32) = ucast d" by simp
  ultimately show ?thesis unfolding asn_value_inc by metis
qed

definition in_step :: "'m slot_state_scheme \<Rightarrow> 'm slot_state_scheme \<Rightarrow> bool" where
  "in_step s s' \<longleftrightarrow> current_slot_start s' =
     current_slot_start s + drift_correction s +
     word_of_int (asn_value (tsch_current_asn s') - asn_value (tsch_current_asn s)) * slot_length s"

lemma in_step_trans:
  assumes "in_step s t" and "in_step t u" and "drift_correction t = 0" and "same_schedule s t"
  shows "in_step s u"
proof -
  have w: "a = b + (z - y) * L \<Longrightarrow> b = c + e + (y - x) * L \<Longrightarrow> a = c + e + (z - x) * L"
    for a b c e x y z L :: u32 by (simp add: algebra_simps)
  show ?thesis
    using w assms by (simp add: in_step_def same_schedule_facts(3))
qed

definition slot_found :: "'m slot_state_scheme \<Rightarrow> 'm slot_state_scheme \<Rightarrow> bool" where
  "slot_found s s' \<longleftrightarrow> in_step s s' \<and> same_schedule s s' \<and> drift_correction s' = 0 \<and>
     (\<exists>asn d. tsch_current_asn s' = TSCH_ASN_INC asn (ucast d) \<and> link_due s asn d s')"

lemma next_slot_found:
  assumes "slot_ready s" and "drift_ppm s = 0" and "next_slot env s = Some (t, s')"
  shows "slot_found s s'"
    and "burst_link_scheduled s \<and> sch_current_link s \<noteq> None \<longrightarrow> sch_current_link s' = sch_current_link s"
proof -
  obtain d comp where *: "same_schedule s s'" "tsch_current_asn s' = TSCH_ASN_INC (tsch_current_asn s) (ucast (d :: u16))"
    "t = ucast d * slot_length s + drift_correction s + comp"
    "current_slot_start s' = current_slot_start s + t" "drift_correction s' = 0" "comp = 0"
    and link: "link_due s (tsch_current_asn s) d s'"
    using next_slot_next [OF assms(1,3)] assms(2) unfolding link_due_def by metis
  have "in_step s s'"
    using * asn_diff_word [of "tsch_current_asn s" d] by (simp add: in_step_def algebra_simps)
  with * link show "slot_found s s'" by (auto simp: slot_found_def)
  show "burst_link_scheduled s \<and> sch_current_link s \<noteq> None \<longrightarrow> sch_current_link s' = sch_current_link s"
    using link by (simp add: link_due_def)
qed

lemma slot_found_step:
  assumes "slot_found s t" and "slot_found t u" and "burst_link_scheduled s \<longrightarrow> sch_current_link s \<noteq> None"
    and "burst_link_scheduled s \<and> sch_current_link s \<noteq> None \<longrightarrow> sch_current_link t = sch_current_link s"
  shows "slot_found s u"
proof -
  have same: "same_schedule s t" "same_schedule t u" "drift_correction t = 0" "in_step s t" "in_step t u"
    and d: "drift_correction u = 0" using assms(1,2) by (simp_all add: slot_found_def)
  obtain asn d where u: "tsch_current_asn u = TSCH_ASN_INC asn (ucast (d :: u16))" "link_due t asn d u"
    using assms(2) by (auto simp: slot_found_def)
  have b: "burst_link_scheduled t = burst_link_scheduled s" using same(1) by (simp add: same_schedule_def)
  have "link_due s asn d u"
    using u(2) assms(3,4) same_schedule_facts(4) [OF same(1)] b by (auto simp: link_due_def split: if_splits)
  with u(1) d same show ?thesis
    using in_step_trans same_schedule_trans by (auto simp: slot_found_def)
qed

lemma schedule_loop_found:
  assumes "schedule_loop env next_slot readings k s = Some s'"
  shows "slot_ready s \<longrightarrow> drift_ppm s = 0 \<longrightarrow> (burst_link_scheduled s \<longrightarrow> sch_current_link s \<noteq> None) \<longrightarrow> slot_found s s'"
proof -
  have "step = next_slot \<longrightarrow> slot_ready s \<longrightarrow> drift_ppm s = 0 \<longrightarrow>
      (burst_link_scheduled s \<longrightarrow> sch_current_link s \<noteq> None) \<longrightarrow> slot_found s s'"
    if "schedule_loop env step readings k s = Some s'" for step
  proof (rule schedule_loop.raw_induct [where P = "\<lambda>env step readings k s s'. step = next_slot \<longrightarrow> slot_ready s \<longrightarrow>
      drift_ppm s = 0 \<longrightarrow> (burst_link_scheduled s \<longrightarrow> sch_current_link s \<noteq> None) \<longrightarrow> slot_found s s'", OF _ that],
      goal_cases)
    case (1 loop env step readings k s r)
    show ?case
    proof (intro impI)
      assume h: "step = next_slot" "slot_ready s" "drift_ppm s = 0" "burst_link_scheduled s \<longrightarrow> sch_current_link s \<noteq> None"
      from 1(2) h(1) obtain t s1 where n: "next_slot env s = Some (t, s1)"
        and r: "(if tsch_schedule_slot_operation env (readings k) (current_slot_start s) t then Some s1
          else loop env step readings (Suc k) s1) = Some r"
        by (auto split: option.splits simp: bind_eq_Some_conv)
      note f = next_slot_found [OF h(2,3) n]
      show "slot_found s r"
      proof (cases "tsch_schedule_slot_operation env (readings k) (current_slot_start s) t")
        case True
        with r f(1) show ?thesis by simp
      next
        case False
        then have l: "loop env step readings (Suc k) s1 = Some r" using r by simp
        have same: "same_schedule s s1" using f(1) by (simp add: slot_found_def)
        then have "slot_ready s1" "drift_ppm s1 = 0" "burst_link_scheduled s1 = burst_link_scheduled s"
          using h same_schedule_facts(2) [OF same] by (simp_all add: same_schedule_def)
        then have "slot_found s1 r" using 1(1) [OF l] h f(2) by auto
        then show ?thesis using slot_found_step [OF f(1) _ h(4) f(2)] by simp
      qed
    qed
  qed
  with assms show ?thesis by simp
qed

lemma wakeup_in_time:
  assumes d: "0 < uint (d :: u16)" and L: "uint (slot_length s) < 2 ^ 16" and g: "se_guard env \<le> slot_length s"
    and now: "now - ref_time < slot_length s - se_guard env"
  shows "tsch_schedule_slot_operation env (now, True) ref_time (ucast d * slot_length s)"
proof -
  have ub: "uint d < 2 ^ 16" using uint_bounded [of d] by simp
  have l0: "0 \<le> uint (slot_length s)" by simp
  have "uint d * uint (slot_length s) < 2 ^ 16 * 2 ^ 16" using mult_strict_mono [OF ub L] by simp
  then have "uint (ucast d * slot_length s) = uint d * uint (slot_length s)"
    using iffD1 [OF uint_mult_lem, of "ucast d :: u32" "slot_length s"] by simp
  moreover have "uint (slot_length s) \<le> uint d * uint (slot_length s)"
    using mult_right_mono [of 1 "uint d" "uint (slot_length s)"] d l0 by simp
  ultimately have le: "slot_length s \<le> ucast d * slot_length s" by (simp add: word_le_def)
  then have "slot_length s - se_guard env \<le> ucast d * slot_length s - se_guard env"
    using g by (auto simp: word_le_def uint_sub_if')
  then have "\<not> ucast d * slot_length s - se_guard env \<le> now - ref_time" using now by simp
  then show ?thesis by (simp add: tsch_schedule_slot_operation_def timer_miss_iff)
qed



text \<open>The states before each attempt.\<close>

fun slot_attempts :: "slot_env \<Rightarrow> nat \<Rightarrow> 'm slot_state_scheme \<Rightarrow> 'm slot_state_scheme ub" where
  "slot_attempts env 0 s = Some s"
| "slot_attempts env (Suc k) s = do { (t, s') \<leftarrow> next_slot env s; slot_attempts env k s' }"

lemma schedule_loop_ends:
  assumes "slot_ready s" and "drift_ppm s = 0" and "drift_correction s = 0"
    and "uint (slot_length s) < 2 ^ 16" and "se_guard env \<le> slot_length s"
    and "slot_attempts env k s = Some sk"
    and "readings (j + k) = (now, True)" and "now - current_slot_start sk < slot_length s - se_guard env"
  shows "\<exists>s'. schedule_loop env next_slot readings j s = Some s'"
  using assms
proof (induction k arbitrary: j s)
  case 0
  from next_slot_step [OF 0(1), of env] obtain t s' where n: "next_slot env s = Some (t, s')" by blast
  from next_slot_next [OF 0(1) n] 0(2,3) obtain d where t: "t = ucast (d :: u16) * slot_length s" "0 < uint d"
    by (metis add.right_neutral)
  have "schedule_loop env next_slot readings j s = Some s'"
  proof -
    have sk: "sk = s" using 0(6) by simp
    show ?thesis
      using wakeup_in_time [OF t(2) 0(4,5) 0(8) [unfolded sk]] 0(7)
      by (subst schedule_loop.simps) (simp add: n t(1))
  qed
  then show ?case ..
next
  case (Suc k)
  from next_slot_step [OF Suc.prems(1), of env] obtain t s1 where n: "next_slot env s = Some (t, s1)" by blast
  note f = next_slot_found(1) [OF Suc.prems(1,2) n]
  have same: "same_schedule s s1" and d: "drift_correction s1 = 0" using f by (simp_all add: slot_found_def)
  then have "slot_ready s1" "drift_ppm s1 = 0" "slot_length s1 = slot_length s"
    using Suc.prems same_schedule_facts(2,3) [OF same] by (simp_all add: same_schedule_def)
  then have "\<exists>s'. schedule_loop env next_slot readings (Suc j) s1 = Some s'"
    using Suc.prems d n by (intro Suc.IH) simp_all
  then show ?case by (subst schedule_loop.simps) (simp add: n)
qed


subsection \<open>What happens to a packet\<close>

text \<open>The parts of the state that synchronisation does not touch.\<close>

definition sync_frame :: "'m timesync_state_scheme \<Rightarrow> 'm timesync_state_scheme \<Rightarrow> bool" where
  "sync_frame s s' \<longleftrightarrow>
     q_nbrs s' = q_nbrs s \<and> q_packets s' = q_packets s \<and> tsch_locked s' = tsch_locked s \<and>
     sch_links s' = sch_links s \<and> sch_current_link s' = sch_current_link s \<and>
     timesync_state.more s' = timesync_state.more s"

lemma sync_frame_trans: "sync_frame s t \<Longrightarrow> sync_frame t u \<Longrightarrow> sync_frame s u"
  by (simp add: sync_frame_def)

lemma entry_add_frame:
  assumes "timesync_entry_add val s = Some (v, s')"
  shows "sync_frame s s'"
proof -
  obtain buf where s': "s' = (let s1 = (if timesync_entry_count s = 0 then s\<lparr>ts_pos := 0\<rparr> else s);
      s2 = s1\<lparr>ts_buffer := buf\<rparr>;
      s3 = (if unat (timesync_entry_count s2) < NUM_TIMESYNC_ENTRIES
               then s2\<lparr>timesync_entry_count := timesync_entry_count s2 + 1\<rparr>
               else tsch_set_ka_timeout TSCH_MAX_KEEPALIVE_TIMEOUT s2) in s3\<lparr>ts_pos := (ts_pos s3 + 1) mod of_nat NUM_TIMESYNC_ENTRIES\<rparr>)"
    using assms unfolding timesync_entry_add_def Let_def bind_eq_Some_conv option.inject prod.inject by blast
  show ?thesis
    unfolding s' Let_def by (simp add: sync_frame_def tsch_set_ka_timeout_def tsch_schedule_keepalive_def)
qed

lemma learn_frame:
  assumes "timesync_learn_drift_ticks a d s = Some s'"
  shows "sync_frame s s'"
proof -
  obtain p x v s1 where "timesync_entry_add x s = Some (v, s1)" "s' = s1\<lparr>drift_ppm := p\<rparr>"
    using assms unfolding timesync_learn_drift_ticks_def Let_def bind_eq_Some_conv
    by (auto simp: bind_eq_Some_conv split: if_splits)
  then show ?thesis using entry_add_frame by (fastforce simp: sync_frame_def)
qed

lemma timesync_update_frame:
  assumes "tsch_timesync_update n t d s = Some s'"
  shows "sync_frame s s'"
proof -
  obtain s1 x y where s1: "(if last_timesource_neighbor s \<noteq> n
            then Some ((tsch_adaptive_timesync_reset s)\<lparr>last_timesource_neighbor := n\<rparr>)
            else do {
              let since = asn_since_last_learning s + ucast t;
              let s' = s\<lparr>asn_since_last_learning := since\<rparr>;
              rate \<leftarrow> TSCH_SLOTS_PER_SECOND s';
              if 4 * rate \<le> uint since
              then do {
                s'' \<leftarrow> timesync_learn_drift_ticks since d s';
                Some (s''\<lparr>compensated_ticks := 0, asn_since_last_learning := 0\<rparr>)
              }
              else Some (s'\<lparr>compensated_ticks := compensated_ticks s' + d\<rparr>)
            }) = Some s1" and s': "s' = s1\<lparr>min_drift_seen := x, max_drift_seen := y\<rparr>"
    using assms unfolding tsch_timesync_update_def bind_eq_Some_conv by blast
  have "sync_frame s s1"
  proof (cases "last_timesource_neighbor s = n")
    case False
    with s1 show ?thesis by (auto simp: sync_frame_def tsch_adaptive_timesync_reset_def)
  next
    case True
    define s2 where "s2 = s\<lparr>asn_since_last_learning := asn_since_last_learning s + ucast t\<rparr>"
    have "(\<exists>s3. timesync_learn_drift_ticks (asn_since_last_learning s + ucast t) d s2 = Some s3 \<and>
        s1 = s3\<lparr>compensated_ticks := 0, asn_since_last_learning := 0\<rparr>) \<or>
      s1 = s2\<lparr>compensated_ticks := compensated_ticks s2 + d\<rparr>"
      using s1 True unfolding s2_def Let_def by (auto simp: bind_eq_Some_conv split: if_splits)
    then show ?thesis
    proof (elim disjE exE conjE)
      fix s3 assume l: "timesync_learn_drift_ticks (asn_since_last_learning s + ucast t) d s2 = Some s3"
        and "s1 = s3\<lparr>compensated_ticks := 0, asn_since_last_learning := 0\<rparr>"
      then show ?thesis using learn_frame [OF l] by (simp add: sync_frame_def s2_def)
    qed (simp add: sync_frame_def s2_def)
  qed
  then show ?thesis by (simp add: s' sync_frame_def)
qed

lemma keepalive_frame: "sync_frame s (tsch_schedule_keepalive b s)"
  by (simp add: tsch_schedule_keepalive_def sync_frame_def)

definition stats_frame :: "'m pdr_state_scheme \<Rightarrow> 'm pdr_state_scheme \<Rightarrow> bool" where
  "stats_frame s s' \<longleftrightarrow>
     q_nbrs s' = q_nbrs s \<and> q_packets s' = q_packets s \<and> tsch_locked s' = tsch_locked s \<and>
     sch_links s' = sch_links s \<and> sch_current_link s' = sch_current_link s \<and>
     pdr_state.more s' = pdr_state.more s"

lemma pdr_update_frame:
  assumes "pdr_tx_update l st s = Some s'"
  shows "stats_frame s s'"
  using assms by (auto simp: pdr_tx_update_def stats_frame_def bind_eq_Some_conv split: if_splits option.splits)

definition tx_frame :: "'m slot_state_scheme \<Rightarrow> 'm slot_state_scheme \<Rightarrow> bool" where
  "tx_frame s s' \<longleftrightarrow>
     q_nbrs s' = q_nbrs s \<and> q_packets s' = q_packets s \<and> tsch_locked s' = tsch_locked s \<and>
     sch_links s' = sch_links s \<and> sch_current_link s' = sch_current_link s \<and>
     current_packet s' = current_packet s \<and> current_neighbor s' = current_neighbor s \<and>
     dequeued_ringbuf s' = dequeued_ringbuf s \<and> dequeued_array s' = dequeued_array s"

lemma tx_frame_refl [simp]: "tx_frame s s" by (simp add: tx_frame_def)

lemma tx_frame_trans: "tx_frame s t \<Longrightarrow> tx_frame t u \<Longrightarrow> tx_frame s u"
  by (simp add: tx_frame_def)

lemma radio_fields [simp]:
  "tx_frame s (tsch_radio_on env con s)" "tx_frame s (tsch_radio_off env coff s)"
  "q_nbrs (tsch_radio_on env con s) = q_nbrs s" "q_nbrs (tsch_radio_off env coff s) = q_nbrs s"
  "q_packets (tsch_radio_on env con s) = q_packets s" "q_packets (tsch_radio_off env coff s) = q_packets s"
  "tsch_locked (tsch_radio_on env con s) = tsch_locked s" "tsch_locked (tsch_radio_off env coff s) = tsch_locked s"
  "sch_links (tsch_radio_on env con s) = sch_links s" "sch_links (tsch_radio_off env coff s) = sch_links s"
  "sch_current_link (tsch_radio_on env con s) = sch_current_link s"
  "sch_current_link (tsch_radio_off env coff s) = sch_current_link s"
  "current_packet (tsch_radio_on env con s) = current_packet s" "current_packet (tsch_radio_off env coff s) = current_packet s"
  "current_neighbor (tsch_radio_on env con s) = current_neighbor s"
  "current_neighbor (tsch_radio_off env coff s) = current_neighbor s"
  "dequeued_ringbuf (tsch_radio_on env con s) = dequeued_ringbuf s"
  "dequeued_ringbuf (tsch_radio_off env coff s) = dequeued_ringbuf s"
  "dequeued_array (tsch_radio_on env con s) = dequeued_array s"
  "dequeued_array (tsch_radio_off env coff s) = dequeued_array s"
  by (simp_all add: tsch_radio_on_def tsch_radio_off_def tx_frame_def)

lemma sync_tx_frame: "sync_frame s s' \<Longrightarrow> tx_frame s s'" for s s' :: "'m slot_state_scheme"
  by (cases s; cases s') (simp add: sync_frame_def tx_frame_def)

lemma stats_tx_frame: "stats_frame s s' \<Longrightarrow> tx_frame s s'" for s s' :: "'m slot_state_scheme"
  by (cases s; cases s') (simp add: stats_frame_def tx_frame_def)

lemma ack_correction_frame:
  assumes "ack_time_correction env c n ies s = Some s'"
  shows "tx_frame s s'"
proof -
  obtain since drift s1 where u: "tsch_timesync_update (Some n) since drift
      (s\<lparr>drift_correction := drift, is_drift_correction_used := True\<rparr>) = Some s1"
    and s': "s' = tsch_schedule_keepalive False (s1\<lparr>last_sync_asn := tsch_current_asn s1, tsch_last_sync_time := c\<rparr>)"
    using assms by (auto simp: ack_time_correction_def Let_def bind_eq_Some_conv)
  have "tx_frame s s1" using sync_tx_frame [OF timesync_update_frame [OF u]] by (simp add: tx_frame_def)
  moreover have "tx_frame s1 s'"
    using sync_tx_frame [OF keepalive_frame, of "s1\<lparr>last_sync_asn := tsch_current_asn s1, tsch_last_sync_time := c\<rparr>" False]
    unfolding s' by (simp add: tx_frame_def)
  ultimately show ?thesis by (rule tx_frame_trans)
qed

lemma receive_ack_result:
  assumes "receive_ack env inp n seqno b s = Some (st, s')"
  shows "tx_frame s s' \<and> (st = MAC_TX_OK \<and> si_ack inp \<noteq> [] \<or> st = MAC_TX_NOACK)"
proof -
  obtain acc ies where a: "acc \<longrightarrow> si_ack inp \<noteq> []"
    and r: "(if acc then do {
       s1 \<leftarrow> (if is_time_source (q_nbrs s ! n) then ack_time_correction env (si_clock inp) n ies s else Some s);
       Some (MAC_TX_OK, if b then s1\<lparr>burst_link_scheduled := True\<rparr> else s1)
     } else Some (MAC_TX_NOACK, s)) = Some (st, s')"
    using assms unfolding receive_ack_def Let_def bind_eq_Some_conv
    by (cases "si_ack inp = []") auto
  show ?thesis
  proof (cases acc)
    case True
    then obtain s1 where s1: "(if is_time_source (q_nbrs s ! n) then ack_time_correction env (si_clock inp) n ies s else Some s) = Some s1"
      "s' = (if b then s1\<lparr>burst_link_scheduled := True\<rparr> else s1)" "st = MAC_TX_OK"
      using r by (auto simp: bind_eq_Some_conv)
    have "tx_frame s s1" using s1(1) ack_correction_frame by (auto split: if_splits)
    with s1 True a show ?thesis by (auto simp: tx_frame_def)
  qed (use r in auto)
qed

lemma prepare_frame_frame:
  assumes "prepare_frame env n p r s = Some (ready, b, seqno, frame, s')"
  shows "tx_frame s s'"
  using assms unfolding prepare_frame_def Let_def bind_eq_Some_conv
  by (auto simp: bind_eq_Some_conv tx_frame_def)

lemma tx_transmit_result:
  assumes "tx_transmit env inp s = Some (st, s')"
  shows "tx_frame s s'"
    and "st = MAC_TX_OK \<longrightarrow> si_prepare inp \<and> si_transmit inp = RADIO_TX_OK \<and>
      (\<exists>n. current_neighbor s = Some n \<and> (is_broadcast (q_nbrs s ! n) \<or> si_ack inp \<noteq> []))"
proof -
  have "tx_frame s s' \<and> (st = MAC_TX_OK \<longrightarrow> si_prepare inp \<and> si_transmit inp = RADIO_TX_OK \<and>
      (\<exists>n. current_neighbor s = Some n \<and> (is_broadcast (q_nbrs s ! n) \<or> si_ack inp \<noteq> [])))"
  proof (cases "\<exists>p qb. current_packet s = Some p \<and> pkt_qb (q_packets s ! p) = Some qb")
    case False
    then have "st = MAC_TX_ERR_FATAL" "s' = s"
      using assms by (auto simp: tx_transmit_def split: option.splits)
    then show ?thesis by (simp add: MAC_TX_ERR_FATAL_def MAC_TX_OK_def)
  next
    case True
    then obtain p qb where p: "current_packet s = Some p" "pkt_qb (q_packets s ! p) = Some qb" by blast
    obtain r n ready b seqno frame s1 where n: "current_neighbor s = Some n"
      and pf: "prepare_frame env n p r s = Some (ready, b, seqno, frame, s1)"
      and t: "(if ready \<and> si_prepare inp then do {
                 let s2 = radio_transmit (length frame) (radio_prepare True frame s1);
                 let s3 = tsch_radio_off env TSCH_RADIO_CMD_OFF_WITHIN_TIMESLOT (s2\<lparr>tx_count := tx_count s2 + 1\<rparr>);
                 if si_transmit inp = RADIO_TX_OK
                 then if \<not> is_broadcast (q_nbrs s3 ! n)
                      then receive_ack env inp n seqno b
                             (tsch_radio_off env TSCH_RADIO_CMD_OFF_WITHIN_TIMESLOT
                               (tsch_radio_on env TSCH_RADIO_CMD_ON_WITHIN_TIMESLOT s3))
                      else Some (MAC_TX_OK, s3)
                 else Some (MAC_TX_ERR, s3)
               }
               else Some (MAC_TX_ERR, s1)) = Some (st, s')"
      using assms unfolding tx_transmit_def p option.case bind_eq_Some_conv by (auto simp only: prod.case split_paired_Ex)
    have f1: "tx_frame s s1" by (rule prepare_frame_frame [OF pf])
    define s3 where "s3 = tsch_radio_off env TSCH_RADIO_CMD_OFF_WITHIN_TIMESLOT
      ((radio_transmit (length frame) (radio_prepare True frame s1))
        \<lparr>tx_count := tx_count (radio_transmit (length frame) (radio_prepare True frame s1)) + 1\<rparr>)"
    have f3: "tx_frame s s3" using f1 by (simp add: tx_frame_def s3_def radio_transmit_def radio_prepare_def)
    define s4 where "s4 = tsch_radio_off env TSCH_RADIO_CMD_OFF_WITHIN_TIMESLOT (tsch_radio_on env TSCH_RADIO_CMD_ON_WITHIN_TIMESLOT s3)"
    have f4: "tx_frame s s4" using f3 by (simp add: tx_frame_def s4_def)
    have nb: "q_nbrs s3 = q_nbrs s" using f3 by (simp add: tx_frame_def)
    have x: "MAC_TX_ERR \<noteq> MAC_TX_OK" "MAC_TX_NOACK \<noteq> MAC_TX_OK"
      by (simp_all add: MAC_TX_ERR_def MAC_TX_OK_def MAC_TX_NOACK_def)
    show ?thesis
    proof (cases "ready \<and> si_prepare inp \<and> si_transmit inp = RADIO_TX_OK \<and> \<not> is_broadcast (q_nbrs s ! n)")
      case True
      then have "receive_ack env inp n seqno b s4 = Some (st, s')"
        using t nb unfolding Let_def s3_def [symmetric] s4_def [symmetric] by simp
      note a = receive_ack_result [OF this]
      have "tx_frame s s'" using tx_frame_trans [OF f4] a by simp
      moreover have "st = MAC_TX_OK \<longrightarrow> si_ack inp \<noteq> []" using a x by auto
      ultimately show ?thesis using True n by simp
    next
      case False
      then have "s' \<in> {s1, s3} \<and> (st = MAC_TX_ERR \<or> st = MAC_TX_OK \<and> si_prepare inp \<and> si_transmit inp = RADIO_TX_OK \<and>
          is_broadcast (q_nbrs s ! n))"
        using t unfolding Let_def s3_def [symmetric] nb
        by (cases "ready \<and> si_prepare inp"; cases "si_transmit inp = RADIO_TX_OK"; cases "is_broadcast (q_nbrs s ! n)") auto
      with f1 f3 n x show ?thesis by auto
    qed
  qed
  then show "tx_frame s s'" "st = MAC_TX_OK \<longrightarrow> si_prepare inp \<and> si_transmit inp = RADIO_TX_OK \<and>
      (\<exists>n. current_neighbor s = Some n \<and> (is_broadcast (q_nbrs s ! n) \<or> si_ack inp \<noteq> []))" by blast+
qed

text \<open>The packets handed over to the process, in order.\<close>

definition dequeued_packets :: "'m slot_state_scheme \<Rightarrow> nat option list" where
  "dequeued_packets s = map ((!) (dequeued_array s)) (rb_indices (dequeued_ringbuf s))"

definition dequeued_ok :: "'m slot_state_scheme \<Rightarrow> bool" where
  "dequeued_ok s \<longleftrightarrow> rb_wf (dequeued_ringbuf s) \<and> length (dequeued_array s) = rb_size (dequeued_ringbuf s)"

lemma dequeued_put:
  assumes ok: "dequeued_ok s" and room: "ringbufindex_peek_put (dequeued_ringbuf s) \<noteq> -1"
  obtains a where "arr_set (dequeued_array s) (nat (ringbufindex_peek_put (dequeued_ringbuf s))) x = Some a"
    and "dequeued_packets (s\<lparr>dequeued_array := a, dequeued_ringbuf := snd (ringbufindex_put (dequeued_ringbuf s))\<rparr>) =
      dequeued_packets s @ [x]"
    and "dequeued_ok (s\<lparr>dequeued_array := a, dequeued_ringbuf := snd (ringbufindex_put (dequeued_ringbuf s))\<rparr>)"
proof -
  let ?r = "dequeued_ringbuf s"
  have wf: "rb_wf ?r" and len: "length (dequeued_array s) = rb_size ?r" using ok by (simp_all add: dequeued_ok_def)
  have rm: "Suc (rb_count ?r) < rb_size ?r" using ringbufindex_put_full(1) [OF wf] room by blast
  note p = ringbufindex_put_room [OF wf rm]
  have i: "unat (rb_put_ptr ?r) < rb_size ?r" using rb_wf_size(3,4) [OF wf] by simp
  let ?a = "(dequeued_array s)[unat (rb_put_ptr ?r) := x]"
  have old: "map ((!) ?a) (rb_indices ?r) = map ((!) (dequeued_array s)) (rb_indices ?r)"
    using rb_put_not_queued [OF wf rm] by (intro map_cong refl nth_list_update_neq) auto
  show thesis
  proof (rule that [of ?a])
    show "arr_set (dequeued_array s) (nat (ringbufindex_peek_put ?r)) x = Some ?a"
      using i len by (simp add: p(1) arr_set_def)
    show "dequeued_packets (s\<lparr>dequeued_array := ?a, dequeued_ringbuf := snd (ringbufindex_put ?r)\<rparr>) = dequeued_packets s @ [x]"
      using i len old by (simp add: dequeued_packets_def p(3))
    show "dequeued_ok (s\<lparr>dequeued_array := ?a, dequeued_ringbuf := snd (ringbufindex_put ?r)\<rparr>)"
      using len rb_put_wf [OF wf] by (simp add: dequeued_ok_def)
  qed
qed

lemma packet_sent_frame: "\<exists>q r. snd (tsch_queue_packet_sent n p link st s) = s\<lparr>q_nbrs := q, rand_pos := r\<rparr>"
  for s :: "'m tsch_queue_state_scheme"
proof -
  have same: "\<exists>q r. s = s\<lparr>q_nbrs := q, rand_pos := r\<rparr>" for s :: "'m tsch_queue_state_scheme"
    by (rule exI [of _ "q_nbrs s"], rule exI [of _ "rand_pos s"]) simp
  have upd: "\<exists>q r. upd_nbr n f s = s\<lparr>q_nbrs := q, rand_pos := r\<rparr>" for n f and s :: "'m tsch_queue_state_scheme"
    unfolding upd_nbr_def by (rule exI, rule exI [of _ "rand_pos s"]) simp
  have inc: "\<exists>q r. tsch_queue_backoff_inc n s = s\<lparr>q_nbrs := q, rand_pos := r\<rparr>" for s :: "'m tsch_queue_state_scheme"
    by (rule exI [of _ "q_nbrs (tsch_queue_backoff_inc n s)"], rule exI [of _ "rand_pos (tsch_queue_backoff_inc n s)"])
      (simp add: tsch_queue_backoff_inc_def random_rand_def upd_nbr_def Let_def)
  have rem: "\<exists>q r. snd (tsch_queue_remove_packet_from_queue (Some n) s) = s\<lparr>q_nbrs := q, rand_pos := r\<rparr>"
  proof (cases "tsch_is_locked s")
    case True
    then show ?thesis using same by (simp only: tsch_queue_remove_packet_from_queue_def snd_conv) simp
  next
    case False
    then have "snd (tsch_queue_remove_packet_from_queue (Some n) s) =
        upd_nbr n (\<lambda>b. b\<lparr>tx_ringbuf := snd (ringbufindex_get (tx_ringbuf (q_nbrs s ! n)))\<rparr>) s"
      by (simp add: tsch_queue_remove_packet_from_queue_def split_beta Let_def)
    then show ?thesis using upd by metis
  qed
  define s1 where "s1 = snd (tsch_queue_remove_packet_from_queue (Some n) s)"
  obtain q r where s1: "s1 = s\<lparr>q_nbrs := q, rand_pos := r\<rparr>" using rem s1_def by blast
  have two: "\<exists>q r. t = s\<lparr>q_nbrs := q, rand_pos := r\<rparr>"
    if "\<exists>q r. t = s1\<lparr>q_nbrs := q, rand_pos := r\<rparr>" for t using that s1 by auto
  have "snd (tsch_queue_packet_sent n p link st s) \<in>
      {s, s1, upd_nbr n tsch_queue_backoff_reset s1, tsch_queue_backoff_inc n s1, tsch_queue_backoff_inc n s}"
    by (auto simp: tsch_queue_packet_sent_def Let_def s1_def)
  then show ?thesis
    using same [of s] two [OF same] two [OF upd] two [OF inc] inc [of s] by (elim insertE emptyE) (simp_all only:)
qed

text \<open>The fate of the packet that was tried: it has a status, and one more transmission.\<close>

definition packet_fate :: "'m slot_state_scheme \<Rightarrow> nat \<Rightarrow> nat \<Rightarrow> u8 \<Rightarrow> 'm slot_state_scheme \<Rightarrow> bool" where
  "packet_fate s n p st s' \<longleftrightarrow>
     q_packets s' = (q_packets s)[p := (q_packets s ! p)
       \<lparr>pkt_transmissions := pkt_transmissions (q_packets s ! p) + 1, pkt_ret := st\<rparr>] \<and>
     (if st = MAC_TX_OK \<or>
         pkt_max_transmissions (q_packets s ! p) \<le> pkt_transmissions (q_packets s ! p) + 1
      then nbr_queue n s' = tl (nbr_queue n s) \<and> dequeued_packets s' = dequeued_packets s @ [Some p]
      else nbr_queue n s' = nbr_queue n s \<and> dequeued_packets s' = dequeued_packets s)"

definition tx_ready :: "'m slot_state_scheme \<Rightarrow> nat \<Rightarrow> nat \<Rightarrow> bool" where
  "tx_ready s n p \<longleftrightarrow>
     current_packet s = Some p \<and> current_neighbor s = Some n \<and> p < length (q_packets s) \<and>
     n < length (q_nbrs s) \<and> nbr_ring_ok (q_nbrs s ! n) \<and> \<not> tsch_locked s \<and> dequeued_ok s"

lemma tx_done_fate:
  assumes ready: "tx_ready s n p" and room: "ringbufindex_peek_put (dequeued_ringbuf s) \<noteq> -1"
    and r: "tx_done (ringbufindex_peek_put (dequeued_ringbuf s)) st s = Some s'"
  shows "packet_fate s n p st s'" and "dequeued_ok s'"
proof -
  have cur: "current_packet s = Some p" "current_neighbor s = Some n" "p < length (q_packets s)"
    "n < length (q_nbrs s)" "nbr_ring_ok (q_nbrs s ! n)" "\<not> tsch_locked s" and deq: "dequeued_ok s"
    using ready by (simp_all add: tx_ready_def)
  let ?q = "(q_packets s)[p := (q_packets s ! p)\<lparr>pkt_transmissions := pkt_transmissions (q_packets s ! p) + 1, pkt_ret := st\<rparr>]"
  let ?gone = "st = MAC_TX_OK \<or> pkt_max_transmissions (q_packets s ! p) \<le> pkt_transmissions (q_packets s ! p) + 1"
  define s1 where "s1 = s\<lparr>q_packets := ?q\<rparr>"
  obtain l where l: "sch_current_link s = Some l"
    using r cur by (auto simp: tx_done_def bind_eq_Some_conv)
  obtain in_queue s2 where ps: "tsch_queue_packet_sent n p (sch_links s1 ! l) st s1 = (in_queue, s2)" by fastforce
  obtain s3 s4 where
        s3: "(if in_queue = 0
            then do {
              a \<leftarrow> arr_set (dequeued_array s2) (nat (ringbufindex_peek_put (dequeued_ringbuf s))) (Some p);
              Some (s2\<lparr>dequeued_array := a, dequeued_ringbuf := snd (ringbufindex_put (dequeued_ringbuf s2))\<rparr>)
            }
            else Some s2) = Some s3"
    and s4: "(if is_time_source (q_nbrs s3 ! n) \<and> link_timeslot (sch_links s3 ! l) \<noteq> 0
            then pdr_tx_update (sch_links s3 ! l) st s3 else Some s3) = Some s4"
    and s': "s' = s4\<lparr>pending_events_polled := True\<rparr>"
    using r unfolding tx_done_def cur l Option.bind_lunit Let_def s1_def [symmetric] ps prod.case bind_eq_Some_conv option.inject
    by blast
  have h: "\<not> tsch_locked s1" "n < length (q_nbrs s1)" "nbr_ring_ok (q_nbrs s1 ! n)"
    using cur by (simp_all add: s1_def)
  have g: "(st = MAC_TX_OK \<or> pkt_max_transmissions (q_packets s1 ! p) \<le> pkt_transmissions (q_packets s1 ! p)) = ?gone"
    using cur(3) by (simp add: s1_def)
  have q1: "nbr_queue n s1 = nbr_queue n s" by (simp add: s1_def nbr_queue_def)
  note parts = tsch_queue_packet_sent_parts(1,2) [OF h, where p = p and link = "sch_links s1 ! l" and st = st,
      unfolded ps snd_conv fst_conv g q1]
  obtain qq rr where s2: "s2 = s1\<lparr>q_nbrs := qq, rand_pos := rr\<rparr>"
    using packet_sent_frame [of n p "sch_links s1 ! l" st s1] unfolding ps by auto
  have d2: "dequeued_ok s2" "dequeued_packets s2 = dequeued_packets s"
    and rb2: "dequeued_ringbuf s2 = dequeued_ringbuf s" and room2: "ringbufindex_peek_put (dequeued_ringbuf s2) \<noteq> -1"
    using deq room by (simp_all add: s2 s1_def dequeued_ok_def dequeued_packets_def)
  have f3: "q_packets s3 = ?q \<and> nbr_queue n s3 = nbr_queue n s2 \<and>
    dequeued_packets s3 = (if ?gone then dequeued_packets s @ [Some p] else dequeued_packets s) \<and> dequeued_ok s3"
  proof (cases ?gone)
    case True
    obtain a where a: "arr_set (dequeued_array s2) (nat (ringbufindex_peek_put (dequeued_ringbuf s2))) (Some p) = Some a"
      "dequeued_packets (s2\<lparr>dequeued_array := a, dequeued_ringbuf := snd (ringbufindex_put (dequeued_ringbuf s2))\<rparr>) =
        dequeued_packets s2 @ [Some p]"
      "dequeued_ok (s2\<lparr>dequeued_array := a, dequeued_ringbuf := snd (ringbufindex_put (dequeued_ringbuf s2))\<rparr>)"
      using dequeued_put [OF d2(1) room2] by blast
    have "s3 = s2\<lparr>dequeued_array := a, dequeued_ringbuf := snd (ringbufindex_put (dequeued_ringbuf s2))\<rparr>"
      using s3 a(1) True parts(2) by (simp add: rb2)
    then show ?thesis using a True by (simp add: d2(2)) (simp add: s2 s1_def nbr_queue_def)
  next
    case False
    then have "s3 = s2" using s3 parts(2) by simp
    then show ?thesis using False d2 by simp (simp add: s2 s1_def)
  qed
  have "stats_frame s3 s4"
    using s4 pdr_update_frame by (auto simp: stats_frame_def split: if_splits)
  then have f4: "tx_frame s3 s4" by (rule stats_tx_frame)
  then have e: "q_packets s' = q_packets s3" "nbr_queue n s' = nbr_queue n s3" "dequeued_packets s' = dequeued_packets s3"
    "dequeued_ok s' = dequeued_ok s3"
    by (simp_all add: s' tx_frame_def nbr_queue_def dequeued_packets_def dequeued_ok_def)
  show "packet_fate s n p st s'" using f3 parts(1) by (auto simp: packet_fate_def e)
  show "dequeued_ok s'" using f3 e by simp
qed


subsection \<open>Acknowledgements over the air\<close>

definition junk_ok :: "slot_env \<Rightarrow> bool" where
  "junk_ok env \<longleftrightarrow> length (fr_dest_addr (se_junk_frame env)) = 8 \<and> length (fr_src_addr (se_junk_frame env)) = 8"

definition drift_us :: "slot_env \<Rightarrow> u32 \<Rightarrow> u16" where
  "drift_us env d = word_of_int (re_ticks_to_us (se_rtimer env) (sint d))"

lemma rx_acknowledge_sends:
  assumes junk: "junk_ok env" and req: "ack_required (fr_fcf frame) \<noteq> 0"
    and d: "- 2048 \<le> sint (drift_us env drift)" "sint (drift_us env drift) < 2048"
    and pend: "tsch_packet_get_frame_pending payload = Some b"
  obtains s' ack where "rx_acknowledge env frame a drift payload s = Some s'"
    and "radio_sent s' = radio_sent s @ [(radio_channel s, ack)]" and "burst_link_scheduled s' \<longleftrightarrow> b \<noteq> 0"
    and "length ack = 17"
    and "\<And>frm old. \<exists>f. tsch_packet_parse_eack (mac_pan_id s) a ack 17 (fr_seq frame) (Some frm) (Some old) (Some 0) =
      Some (17, Some f, Some (ies_zero\<lparr>ie_is_nack := 0, ie_time_correction := drift_us env drift, ie_payload_ie_offset := 4\<rparr>), Some 17)"
    and "\<And>frm old pan' a' seqno'. seqno' \<noteq> fr_seq frame \<or> pan' \<noteq> mac_pan_id s \<and> mac_pan_id s \<noteq> 0xffff \<or> a' \<noteq> a \<and> a \<noteq> 0 \<and> a \<noteq> -1 \<Longrightarrow>
      map_option fst (tsch_packet_parse_eack pan' a' ack 17 seqno' (Some frm) (Some old) (Some 0)) = Some 0"
proof -
  let ?m = "replicate TSCH_PACKET_MAX_LEN (0 :: u8)" and ?len = "of_nat TSCH_PACKET_MAX_LEN :: u16"
  have j: "length (fr_dest_addr (se_junk_frame env)) = 8" "length (fr_src_addr (se_junk_frame env)) = 8"
    using junk by (simp_all add: junk_ok_def)
  have room: "17 \<le> unat ?len" "unat ?len \<le> length ?m"
    by (simp_all add: TSCH_PACKET_MAX_LEN_def PACKETBUF_SIZE_def)
  note rt = eack_roundtrip [OF j room d, where pan = "mac_pan_id s" and a = a and seqno = "fr_seq frame" and nack = 0
      and h = 0, simplified]
  obtain m' where c: "tsch_packet_create_eack (mac_pan_id s) (se_junk_frame env) (Some ?m) ?len (Some a) (fr_seq frame) (drift_us env drift) 0 =
      Some (17, Some m')" and l: "length m' = length ?m"
    using rt by fastforce
  let ?ack = "take 17 m'"
  have la: "length ?ack = 17" using l by (simp add: TSCH_PACKET_MAX_LEN_def PACKETBUF_SIZE_def)
  define s1 where "s1 = tsch_radio_off env TSCH_RADIO_CMD_OFF_WITHIN_TIMESLOT (radio_transmit 17 (radio_prepare True ?ack s))"
  show thesis
  proof (rule that [of "s1\<lparr>burst_link_scheduled := b \<noteq> 0\<rparr>" ?ack])
    show "rx_acknowledge env frame a drift payload s = Some (s1\<lparr>burst_link_scheduled := b \<noteq> 0\<rparr>)"
      using req by (simp add: rx_acknowledge_def c [unfolded drift_us_def] pend s1_def)
    show "radio_sent (s1\<lparr>burst_link_scheduled := b \<noteq> 0\<rparr>) = radio_sent s @ [(radio_channel s, ?ack)]"
      using la by (simp add: s1_def radio_transmit_def radio_prepare_def tsch_radio_off_def)
    show "length ?ack = 17" by (rule la)
  next
    fix frm old
    show "\<exists>f. tsch_packet_parse_eack (mac_pan_id s) a ?ack 17 (fr_seq frame) (Some frm) (Some old) (Some 0) =
      Some (17, Some f, Some (ies_zero\<lparr>ie_is_nack := 0, ie_time_correction := drift_us env drift, ie_payload_ie_offset := 4\<rparr>), Some 17)"
      using rt [of frm old] c by auto
  next
    fix frm old pan' a' seqno'
    assume "seqno' \<noteq> fr_seq frame \<or> pan' \<noteq> mac_pan_id s \<and> mac_pan_id s \<noteq> 0xffff \<or> a' \<noteq> a \<and> a \<noteq> 0 \<and> a \<noteq> -1"
    then show "map_option fst (tsch_packet_parse_eack pan' a' ?ack 17 seqno' (Some frm) (Some old) (Some 0)) = Some 0"
      using rt [of frm old] c by auto
  qed simp
qed

text \<open>C21: An acknowledgement settles a transmission.  The receiver of a frame that asks for one sends 17 bytes on its
  current channel, and plans a burst exactly if the frame had its pending bit set.  When these bytes reach
  the sender in the same PAN, waiting for the sequence number of its frame, the transmission
  counts as sent; if the receiver is its time source, the clock is corrected by the drift the receiver has measured
  (in microseconds).  A sender that waits for another number, or a node with another address or PAN, does
  not take it for an acknowledgement of its own frame.\<close>

theorem tsch_ack_over_the_air:
  assumes junk: "junk_ok envB" and req: "ack_required (fr_fcf frame) \<noteq> 0"
    and d: "- 2048 \<le> sint (drift_us envB drift)" "sint (drift_us envB drift) < 2048"
    and pend: "tsch_packet_get_frame_pending payload = Some b"
  shows "\<exists>sB' ack. rx_acknowledge envB frame a drift payload sB = Some sB' \<and>
    radio_sent sB' = radio_sent sB @ [(radio_channel sB, ack)] \<and> (burst_link_scheduled sB' \<longleftrightarrow> b \<noteq> 0) \<and>
    (\<forall>envA inp n burst (sA :: 'm slot_state_scheme). si_ack inp = ack \<and> se_node_addr envA = a \<and> mac_pan_id sA = mac_pan_id sB \<longrightarrow>
       receive_ack envA inp n (fr_seq frame) burst sA = do {
         s1 \<leftarrow> (if is_time_source (q_nbrs sA ! n)
               then ack_time_correction envA (si_clock inp) n
                 (ies_zero\<lparr>ie_is_nack := 0, ie_time_correction := drift_us envB drift, ie_payload_ie_offset := 4\<rparr>) sA
               else Some sA);
         Some (MAC_TX_OK, if burst then s1\<lparr>burst_link_scheduled := True\<rparr> else s1)
       }) \<and>
    (\<forall>envA inp n seqno' burst (sA :: 'm slot_state_scheme). si_ack inp = ack \<and>
       (seqno' \<noteq> fr_seq frame \<or> mac_pan_id sA \<noteq> mac_pan_id sB \<and> mac_pan_id sB \<noteq> 0xffff \<or>
        se_node_addr envA \<noteq> a \<and> a \<noteq> 0 \<and> a \<noteq> -1) \<longrightarrow>
       receive_ack envA inp n seqno' burst sA = Some (MAC_TX_NOACK, sA))"
proof -
  obtain s' ack where r: "rx_acknowledge envB frame a drift payload sB = Some s'"
    "radio_sent s' = radio_sent sB @ [(radio_channel sB, ack)]" "burst_link_scheduled s' \<longleftrightarrow> b \<noteq> 0"
    and l: "length ack = 17"
    and ok: "\<And>frm old. \<exists>f. tsch_packet_parse_eack (mac_pan_id sB) a ack 17 (fr_seq frame) (Some frm) (Some old) (Some 0) =
      Some (17, Some f, Some (ies_zero\<lparr>ie_is_nack := 0, ie_time_correction := drift_us envB drift, ie_payload_ie_offset := 4\<rparr>), Some 17)"
    and no: "\<And>frm old pan' a' seqno'. seqno' \<noteq> fr_seq frame \<or> pan' \<noteq> mac_pan_id sB \<and> mac_pan_id sB \<noteq> 0xffff \<or> a' \<noteq> a \<and> a \<noteq> 0 \<and> a \<noteq> -1 \<Longrightarrow>
      map_option fst (tsch_packet_parse_eack pan' a' ack 17 seqno' (Some frm) (Some old) (Some 0)) = Some 0"
    by (rule rx_acknowledge_sends [OF junk req d pend, of a sB]) blast
  have t: "take TSCH_PACKET_MAX_LEN ack = ack" "ack \<noteq> []" "int (length ack) = 17"
    using l by (auto simp: TSCH_PACKET_MAX_LEN_def PACKETBUF_SIZE_def)
  have yes: "receive_ack envA inp n (fr_seq frame) burst sA = do {
         s1 \<leftarrow> (if is_time_source (q_nbrs sA ! n)
               then ack_time_correction envA (si_clock inp) n
                 (ies_zero\<lparr>ie_is_nack := 0, ie_time_correction := drift_us envB drift, ie_payload_ie_offset := 4\<rparr>) sA
               else Some sA);
         Some (MAC_TX_OK, if burst then s1\<lparr>burst_link_scheduled := True\<rparr> else s1)
       }" if "si_ack inp = ack" "se_node_addr envA = a" "mac_pan_id sA = mac_pan_id sB"
    for envA inp n burst and sA :: "'m slot_state_scheme"
  proof -
    obtain f where "tsch_packet_parse_eack (mac_pan_id sB) a ack 17 (fr_seq frame) (Some (se_junk_frame envA)) (Some (se_junk_ies envA)) (Some 0) =
      Some (17, Some f, Some (ies_zero\<lparr>ie_is_nack := 0, ie_time_correction := drift_us envB drift, ie_payload_ie_offset := 4\<rparr>), Some 17)"
      using ok by blast
    then show ?thesis using that t by (simp add: receive_ack_def Let_def)
  qed
  have nack: "receive_ack envA inp n seqno' burst sA = Some (MAC_TX_NOACK, sA)"
    if "si_ack inp = ack" "seqno' \<noteq> fr_seq frame \<or> mac_pan_id sA \<noteq> mac_pan_id sB \<and> mac_pan_id sB \<noteq> 0xffff \<or>
        se_node_addr envA \<noteq> a \<and> a \<noteq> 0 \<and> a \<noteq> -1" for envA inp n seqno' burst and sA :: "'m slot_state_scheme"
  proof -
    from no [OF that(2), of "se_junk_frame envA" "se_junk_ies envA"] obtain f ies h where
      "tsch_packet_parse_eack (mac_pan_id sA) (se_node_addr envA) ack 17 seqno' (Some (se_junk_frame envA)) (Some (se_junk_ies envA)) (Some 0) =
        Some (0, f, ies, h)" by auto
    then show ?thesis using that(1) t by (simp add: receive_ack_def Let_def)
  qed
  show ?thesis using r yes nack by (intro exI [of _ s'] exI [of _ ack]) blast
qed

subsection \<open>Hopping and stale links\<close>

text \<open>C24: The channel of a slot.  With a hopping sequence in place, the slot is played on the channel of the
  sequence at the position slot number plus channel offset, modulo its length, whatever the state of the
  rest of the node: two nodes with the same sequence and slot number meet on a link of the same
  offset.  Two offsets below the length never collide, and the next slot is one position further.\<close>

theorem tsch_channel_hopping:
  fixes s :: "'m slot_state_scheme" and l m :: nat
  assumes ok: "hopping_ok s"
  shows "let off = (\<lambda>i. tsch_get_channel_offset (sch_links s ! i)); len = div_val (tsch_hopping_sequence_length s);
      pos = (\<lambda>asn i. nat ((asn_value asn + uint (off i)) mod uint len))
    in hop_channel l s = Some (s\<lparr>tsch_current_channel_offset := off l,
         tsch_current_channel := tsch_hopping_sequence s ! pos (tsch_current_asn s) l\<rparr>) \<and>
       pos asn l < length (tsch_hopping_sequence s) \<and>
       (uint (off l) < uint len \<and> uint (off m) < uint len \<longrightarrow> (pos asn l = pos asn m \<longleftrightarrow> off l = off m)) \<and>
       (asn_value asn + 1 < 2 ^ 40 \<longrightarrow> pos (TSCH_ASN_INC asn 1) l = (pos asn l + 1) mod unat len)"
proof -
  let ?off = "\<lambda>i. tsch_get_channel_offset (sch_links s ! i)"
  let ?len = "div_val (tsch_hopping_sequence_length s)"
  let ?pos = "\<lambda>asn i. nat ((asn_value asn + uint (?off i)) mod uint ?len)"
  have len: "0 < uint ?len"
    using ok by (auto simp: hopping_ok_def TSCH_ASN_DIVISOR_INIT_def word_greater_zero_iff [symmetric] word_less_def)
  have u: "uint (ucast x :: u16) = uint x" for x :: u8
    using uint_bounded [of x] by (simp add: unsigned_ucast_eq take_bit_eq_mod)
  have p: "hopping_index asn (ucast (?off i)) s = ?pos asn i" for asn i by (simp add: hopping_index_def u)
  note c = calculate_channel [OF ok, of _ "ucast (?off l)", unfolded p]
  have hop: "hop_channel l s = Some (s\<lparr>tsch_current_channel_offset := ?off l,
         tsch_current_channel := tsch_hopping_sequence s ! ?pos (tsch_current_asn s) l\<rparr>)"
    by (simp add: hop_channel_def Let_def c(1))
  have inj: "?pos asn l = ?pos asn m \<longleftrightarrow> ?off l = ?off m" if h: "uint (?off l) < uint ?len" "uint (?off m) < uint ?len"
  proof -
    have "?pos asn l = ?pos asn m \<longleftrightarrow> (asn_value asn + uint (?off l)) mod uint ?len = (asn_value asn + uint (?off m)) mod uint ?len"
      using len by (simp add: eq_nat_nat_iff)
    also have "\<dots> \<longleftrightarrow> uint (?off l) mod uint ?len = uint (?off m) mod uint ?len"
      by (simp add: mod_eq_dvd_iff)
    finally show ?thesis using h by (simp add: mod_pos_pos_trivial word_uint_eq_iff)
  qed
  have step: "?pos (TSCH_ASN_INC asn 1) l = (?pos asn l + 1) mod unat ?len" if "asn_value asn + 1 < 2 ^ 40"
  proof -
    have a: "asn_value (TSCH_ASN_INC asn 1) = asn_value asn + 1"
      using that asn_value_bounds(1) [of asn] by (simp add: asn_value_inc mod_pos_pos_trivial)
    have "int (?pos (TSCH_ASN_INC asn 1) l) = (asn_value asn + uint (?off l) + 1) mod uint ?len"
      using len by (simp add: a ac_simps)
    also have "\<dots> = ((asn_value asn + uint (?off l)) mod uint ?len + 1) mod uint ?len" by (rule mod_add_left_eq [symmetric])
    also have "\<dots> = int ((?pos asn l + 1) mod unat ?len)" using len by (simp add: zmod_int add.commute)
    finally show ?thesis by linarith
  qed
  show ?thesis unfolding Let_def using hop c(2) inj step by blast
qed

lemma remove_link_more:
  "tsch_sched_state.more (snd (tsch_schedule_remove_link i l s)) = tsch_sched_state.more s"
proof -
  have unc: "tsch_sched_state.more (tsch_schedule_uncount_link opt a s) = tsch_sched_state.more s" for opt a
      and s :: "'x tsch_sched_state_scheme"
    by (auto simp: tsch_schedule_uncount_link_def upd_nbr_def split: option.splits)
  show ?thesis
    by (auto simp: tsch_schedule_remove_link_def Let_def unc tsch_get_lock_def tsch_release_lock_def upd_slotframe_def
        split: option.splits)
qed

lemma remove_link_slot_state:
  fixes s :: "'m slot_state_scheme"
  shows "backup_link (snd (tsch_schedule_remove_link i l s)) = backup_link s"
  using remove_link_more [of i l s] by (cases s; cases "snd (tsch_schedule_remove_link i l s)") simp

text \<open>C26: A link that is the backup of the next slot can be removed from the schedule: only \<open>current_link\<close> is
  reset.  The pointer then leads to a block that has been freed, and the slot still switches to it
  when there is nothing to send on the current link and it is not one to listen on.\<close>

theorem tsch_backup_link_dangling:
  fixes s :: "'m slot_state_scheme"
  assumes wf: "sched_wf s" "\<not> tsch_locked s" and b: "i \<in> set (sch_slotframe_list s)" "b \<in> set (sf_links s i)" "backup_link s = Some b"
    and l: "sch_current_link s = Some l" "l \<noteq> b" "\<not> rx_link s l"
  shows "\<exists>s'. tsch_schedule_remove_link (Some i) (Some b) s = (1, s') \<and> b \<notin> memb_blocks (sch_link_memb s') \<and>
    sch_current_link s' = Some l \<and> backup_link s' = Some b \<and>
    (fst (get_packet_and_neighbor_for_link l s') = None \<longrightarrow> sch_current_link (choose_link l s') = Some b)"
proof -
  from remove_link_spec [OF wf b(1,2)] obtain s' where s': "tsch_schedule_remove_link (Some i) (Some b) s = (1, s')"
    "sch_links s' = sch_links s" "memb_blocks (sch_link_memb s') = memb_blocks (sch_link_memb s) - {b}"
    "sch_current_link s' = (if sch_current_link s = Some b then None else sch_current_link s)" by blast
  have bk: "backup_link s' = Some b" using remove_link_slot_state [of "Some i" "Some b" s] b(3) by (simp add: s'(1))
  have cur: "sch_current_link s' = Some l" using s'(4) l by simp
  have "sch_current_link (choose_link l s') = Some b" if "fst (get_packet_and_neighbor_for_link l s') = None"
    using that bk l(3) by (auto simp: choose_link_def Let_def s'(2) rx_link_def split: prod.splits)
  then show ?thesis using s'(1,3) bk cur by auto
qed

subsection \<open>Examples\<close>

definition slot_env_example :: slot_env where
  "slot_env_example = \<lparr>se_rtimer = cooja_rtimer, se_guard = 2, se_node_addr = 6, se_burst_max_len = 32,
     se_radio_on_during_timeslot = False, se_junk_frame = frame802154_zero, se_junk_ies = ies_zero\<rparr>"

definition slot_input_example :: slot_input where
  "slot_input_example = \<lparr>si_prepare = True, si_transmit = 0, si_ack = [], si_frame = None, si_rssi = 0,
     si_rx_start = 0, si_clock = 500\<rparr>"

text \<open>Slot 1000 of the schedule of the examples, with a frame for the first neighbour.\<close>

definition slot_example :: slot_state where
  "slot_example = timesync_state.extend
     (timesync_example\<lparr>drift_ppm := 0, sch_current_link := Some 0,
        qb_bufmem := [True], qb_buframmem := [True], qb_ram_ptr := [Some 0],
        qb_ram := [\<lparr>qd_data = replicate 128 0, qd_len = 20, qd_attrs = (\<lambda>_. 0), qd_addrs = (\<lambda>_. 0)\<rparr>],
        q_packets := (q_packets timesync_example)[0 := (q_packets timesync_example ! 0)\<lparr>pkt_qb := Some 0\<rparr>],
        q_nbrs := (q_nbrs timesync_example)[0 := (q_nbrs timesync_example ! 0)\<lparr>is_broadcast := True\<rparr>]\<rparr>)
     (slot_state.fields 0xabcd True \<lparr>ls4b = 1000, ms1b = 0\<rparr> 1 [15, 25, 26, 20] (TSCH_ASN_DIVISOR_INIT 4) False True 0 0
        (Some 1) (Some 0) (Some 0) False 0 0 False \<lparr>ls4b = 900, ms1b = 0\<rparr> 0 5000
        \<lparr>rb_mask = 15, rb_put_ptr = 0, rb_get_ptr = 0\<rparr> (replicate 16 None)
        \<lparr>rb_mask = 15, rb_put_ptr = 0, rb_get_ptr = 0\<rparr> (replicate 16 undefined) 0 0 0 0 False False 20 [] [])"

lemmas slot_example_defs = slot_example_def timesync_state.extend_def slot_state.fields_def
  timesync_example_def pdr_state.extend_def timesync_state.fields_def pdr_of_def sf_state.extend_def pdr_state.fields_def
  sf_example_defs

lemma slot_example_fields [simp]:
  "mac_pan_id slot_example = 0xabcd" "tsch_current_asn slot_example = \<lparr>ls4b = 1000, ms1b = 0\<rparr>"
  "tsch_hopping_sequence slot_example = [15, 25, 26, 20]"
  "tsch_hopping_sequence_length slot_example = TSCH_ASN_DIVISOR_INIT 4"
  "backup_link slot_example = Some 1" "current_packet slot_example = Some 0" "current_neighbor slot_example = Some 0"
  "burst_link_scheduled slot_example = False" "drift_correction slot_example = 0"
  "current_slot_start slot_example = 5000" "dequeued_ringbuf slot_example = \<lparr>rb_mask = 15, rb_put_ptr = 0, rb_get_ptr = 0\<rparr>"
  "dequeued_array slot_example = replicate 16 None" "tsch_current_burst_count slot_example = 0"
  "radio_channel slot_example = 20" "radio_is_on slot_example = False" "radio_sent slot_example = []" "tsch_join_priority slot_example = 1"
  by (simp_all add: slot_example_def timesync_state.extend_def slot_state.fields_def)

lemma slot_example_fields' [simp]:
  "tsch_timing slot_example = map ucast tsch_timeslot_timing_us_10000"
  "drift_ppm slot_example = 0" "sch_current_link slot_example = Some 0"
  "qb_ram slot_example = [\<lparr>qd_data = replicate 128 0, qd_len = 20, qd_attrs = (\<lambda>_. 0), qd_addrs = (\<lambda>_. 0)\<rparr>]"
  "qb_ram_ptr slot_example = [Some 0]"
  by (simp_all add: slot_example_def timesync_state.extend_def timesync_example_def pdr_state.extend_def timesync_state.fields_def)

lemma slot_example_fields'' [simp]:
  "sch_links slot_example = sch_links sched_example" "sch_slotframes slot_example = sch_slotframes sched_example"
  "sch_slotframe_list slot_example = [0]" "sch_link_memb slot_example = [True, True, False]"
  "sch_slotframe_memb slot_example = [True]" "\<not> tsch_locked slot_example"
  "q_packets slot_example = (q_packets tsch_example)[0 := (q_packets tsch_example ! 0)\<lparr>pkt_qb := Some 0\<rparr>]"
  "q_nbrs slot_example = (q_nbrs tsch_example)[0 := (q_nbrs tsch_example ! 0)\<lparr>is_broadcast := True\<rparr>]"
  "q_n_eb slot_example = None"
  by (simp_all add: slot_example_defs)

lemma slot_example_ready: "slot_ready slot_example" "slot_length slot_example = 10000" "hopping_ok slot_example"
proof -
  have "sched_wf slot_example"
    using sched_example_wf(1)
    by (simp add: sched_wf_def slotframe_ok_def sf_links_def) (simp add: sched_example_def tsch_queue_state.extend_def)
  then show "slot_ready slot_example"
    by (simp add: slot_ready_def tsch_timeslot_timing_us_10000_def)
  show "slot_length slot_example = 10000"
    by (simp add: slot_length_def tsch_timeslot_timing_us_10000_def)
  show "hopping_ok slot_example"
    unfolding hopping_ok_def by (rule exI [of _ 4]) simp
qed

lemma slot_env_example_fields [simp]:
  "se_guard slot_env_example = 2" "se_node_addr slot_env_example = 6" "se_burst_max_len slot_env_example = 32"
  "se_junk_frame slot_env_example = frame802154_zero" "se_junk_ies slot_env_example = ies_zero"
  "se_rtimer slot_env_example = cooja_rtimer"
  by (simp_all add: slot_env_example_def)




theorem tsch_channel_hopping_witness:
  "\<exists>s'. hop_channel 0 slot_example = Some s' \<and> tsch_current_channel s' = 25"
proof -
  have off: "tsch_get_channel_offset (sch_links slot_example ! 0) = 1"
    by (simp add: tsch_get_channel_offset_def sched_example_def tsch_queue_state.extend_def)
  show ?thesis
    using tsch_channel_hopping [OF slot_example_ready(3), where l = 0 and m = 0 and asn = "\<lparr>ls4b = 1000, ms1b = 0\<rparr>"] unfolding Let_def off
    by (auto simp: asn_value_def TSCH_ASN_DIVISOR_INIT_def)
qed

theorem tsch_backup_link_dangling_witness:
  "\<exists>s'. tsch_schedule_remove_link (Some 0) (Some 1) slot_example = (1, s') \<and> 1 \<notin> memb_blocks (sch_link_memb s') \<and>
     backup_link s' = Some 1"
proof -
  have h: "sched_wf slot_example" "\<not> tsch_locked slot_example" "0 \<in> set (sch_slotframe_list slot_example)"
    "1 \<in> set (sf_links slot_example 0)" "\<not> rx_link slot_example 0"
    using slot_example_ready(1)
    by (simp_all add: slot_ready_def sf_links_def rx_link_def sched_example_def tsch_queue_state.extend_def LINK_OPTION_RX_def)
  from tsch_backup_link_dangling [OF h(1-4) _ _ _ h(5)] show ?thesis by auto
qed

definition unicast_example :: frame802154 where
  "unicast_example = frame802154_zero\<lparr>fr_fcf := (fr_fcf frame802154_zero)\<lparr>ack_required := 1\<rparr>, fr_seq := 9\<rparr>"

theorem tsch_ack_over_the_air_witness:
  "\<exists>sB' ack. rx_acknowledge slot_env_example unicast_example 6 (- 40) [0x10] slot_example = Some sB' \<and>
     radio_sent sB' = [(20, ack)] \<and> burst_link_scheduled sB' \<and>
     receive_ack slot_env_example (slot_input_example\<lparr>si_ack := ack\<rparr>) 0 9 False slot_example = Some (MAC_TX_OK, slot_example) \<and>
     receive_ack slot_env_example (slot_input_example\<lparr>si_ack := ack\<rparr>) 0 10 False slot_example = Some (MAC_TX_NOACK, slot_example)"
proof -
  have h: "junk_ok slot_env_example" "ack_required (fr_fcf unicast_example) \<noteq> 0"
    "- 2048 \<le> sint (drift_us slot_env_example (- 40))" "sint (drift_us slot_env_example (- 40)) < 2048"
    "tsch_packet_get_frame_pending [0x10] = Some 1" and sq: "fr_seq unicast_example = 9"
    by (simp_all add: junk_ok_def frame802154_zero_def unicast_example_def drift_us_def cooja_rtimer_def
        tsch_packet_get_frame_pending_def mem_read_def IEEE802154_FRAME_PENDING_BIT_OFFSET_def)
  have ts: "\<not> is_time_source (q_nbrs slot_example ! 0)" by (simp add: tsch_example_def nbr_memset0_def)
  define e where "e = ies_zero\<lparr>ie_is_nack := 0, ie_time_correction := drift_us slot_env_example (- 40), ie_payload_ie_offset := 4\<rparr>"
  from tsch_ack_over_the_air [OF h, of 6 slot_example, where 'm = unit, folded e_def] obtain sB' ack where
    r: "rx_acknowledge slot_env_example unicast_example 6 (- 40) [0x10] slot_example = Some sB'"
    "radio_sent sB' = radio_sent slot_example @ [(radio_channel slot_example, ack)]" "burst_link_scheduled sB' \<longleftrightarrow> (1 :: u8) \<noteq> 0"
    and a: "\<forall>envA inp n burst (sA :: slot_state). si_ack inp = ack \<and> se_node_addr envA = 6 \<and> mac_pan_id sA = mac_pan_id slot_example \<longrightarrow>
      receive_ack envA inp n (fr_seq unicast_example) burst sA = do {
        s1 \<leftarrow> (if is_time_source (q_nbrs sA ! n) then ack_time_correction envA (si_clock inp) n e sA else Some sA);
        Some (MAC_TX_OK, if burst then s1\<lparr>burst_link_scheduled := True\<rparr> else s1)
      }"
    and n: "\<forall>envA inp n seqno' burst (sA :: slot_state). si_ack inp = ack \<and>
       (seqno' \<noteq> fr_seq unicast_example \<or> mac_pan_id sA \<noteq> mac_pan_id slot_example \<and> mac_pan_id slot_example \<noteq> 0xffff \<or>
        se_node_addr envA \<noteq> 6 \<and> (6 :: linkaddr) \<noteq> 0 \<and> (6 :: linkaddr) \<noteq> -1) \<longrightarrow>
       receive_ack envA inp n seqno' burst sA = Some (MAC_TX_NOACK, sA)"
    by (elim exE conjE) (rule that)
  let ?i = "slot_input_example\<lparr>si_ack := ack\<rparr>"
  have "receive_ack slot_env_example ?i 0 9 False slot_example = Some (MAC_TX_OK, slot_example)"
    using a [rule_format, of ?i slot_env_example slot_example 0 False] sq ts by simp
  moreover have "receive_ack slot_env_example ?i 0 10 False slot_example = Some (MAC_TX_NOACK, slot_example)"
    using n [rule_format, of ?i 10 slot_example slot_env_example 0 False] sq by simp
  ultimately show ?thesis using r by (intro exI [of _ sB'] exI [of _ ack]) simp
qed

lemma slot_example_tx_ready: "tx_ready slot_example 0 0" "dequeued_packets slot_example = []"
  "ringbufindex_peek_put (dequeued_ringbuf slot_example) = 0"
proof -
  have m: "(15 :: u8) = mask 4" by (simp add: mask_eq_exp_minus_1)
  have wf: "rb_wf (dequeued_ringbuf slot_example)" by (auto simp: rb_wf_def m intro: exI [of _ 4])
  have "nbr_ring_ok (q_nbrs slot_example ! 0)"
    using tsch_example_facts(1,7) by (simp add: nbr_ring_ok_def)
  then show "tx_ready slot_example 0 0"
    using wf tsch_example_facts(7) by (simp add: tx_ready_def dequeued_ok_def rb_size_def) (simp add: tsch_example_def)
  show "dequeued_packets slot_example = []" by (simp add: dequeued_packets_def rb_indices_def rb_count_def rb_size_def)
  show "ringbufindex_peek_put (dequeued_ringbuf slot_example) = 0" by (simp add: ringbufindex_peek_put_def)
qed

lemma slot_example_tx: "\<exists>s'. tsch_tx_slot slot_env_example slot_input_example slot_example = Some s'"
proof -
  have q: "queuebuf_load_to_ram 0 slot_example = Some 0" by (simp add: queuebuf_load_to_ram_def)
  have b: "is_broadcast (q_nbrs slot_example ! 0)" using tsch_example_facts(7) by simp
  have p: "pkt_qb (q_packets slot_example ! 0) = Some 0" by (simp add: tsch_example_def)
  obtain seqno frame s1 where f: "prepare_frame slot_env_example 0 0 0 slot_example = Some (True, False, seqno, frame, s1)"
    using b by (auto simp: prepare_frame_def Let_def arr_get_def)
  have "is_broadcast (q_nbrs s1 ! 0)" using b prepare_frame_frame [OF f] by (simp only: tx_frame_def)
  then have "\<exists>s2. tx_transmit slot_env_example slot_input_example slot_example = Some (MAC_TX_OK, s2)"
    unfolding tx_transmit_def slot_example_fields(6,7) option.case p q Option.bind_lunit f prod.case Let_def
    by (simp add: slot_input_example_def RADIO_TX_OK_def radio_prepare_def radio_transmit_def)
  then obtain s2 where s2: "tx_transmit slot_env_example slot_input_example slot_example = Some (MAC_TX_OK, s2)" by blast
  define s3 where "s3 = tsch_radio_off slot_env_example TSCH_RADIO_CMD_OFF_END_OF_TIMESLOT s2"
  have fr: "tx_frame slot_example s3"
    using tx_frame_trans [OF tx_transmit_result(1) [OF s2]] by (simp add: s3_def)
  have n1: "\<not> is_time_source (q_nbrs slot_example ! 0)" by (simp add: tsch_example_def nbr_memset0_def)
  have e: "current_packet s3 = Some 0" "current_neighbor s3 = Some 0" "sch_current_link s3 = Some 0"
    "q_nbrs s3 = q_nbrs slot_example" "dequeued_ringbuf s3 = dequeued_ringbuf slot_example"
    "dequeued_array s3 = replicate 16 None" "\<not> tsch_locked s3"
    using fr by (simp_all add: tx_frame_def)
  have n: "0 < length (q_nbrs slot_example)" using tsch_example_facts(7) by simp
  have "\<exists>s'. tx_done 0 MAC_TX_OK s3 = Some s'"
    unfolding tx_done_def e(1-3) Option.bind_lunit Let_def tsch_queue_packet_sent_def tsch_queue_remove_packet_from_queue_def
    using b n n1
    by (simp add: e(4-7) tsch_is_locked_def split_beta upd_nbr_def arr_set_def del: slot_example_fields'')
  then show ?thesis by (simp add: tsch_tx_slot_def slot_example_tx_ready(3) [simplified] s2 s3_def [symmetric])
qed


subsection \<open>The radio is switched off\<close>

lemma radio_is_on_cmds [simp]:
  "radio_is_on (tsch_radio_on env TSCH_RADIO_CMD_ON_START_OF_TIMESLOT s) \<longleftrightarrow> se_radio_on_during_timeslot env \<or> radio_is_on s"
  "radio_is_on (tsch_radio_on env TSCH_RADIO_CMD_ON_WITHIN_TIMESLOT s) \<longleftrightarrow> \<not> se_radio_on_during_timeslot env \<or> radio_is_on s"
  "radio_is_on (tsch_radio_off env TSCH_RADIO_CMD_OFF_END_OF_TIMESLOT s) \<longleftrightarrow> \<not> se_radio_on_during_timeslot env \<and> radio_is_on s"
  "radio_is_on (tsch_radio_off env TSCH_RADIO_CMD_OFF_WITHIN_TIMESLOT s) \<longleftrightarrow> se_radio_on_during_timeslot env \<and> radio_is_on s"
  "\<not> radio_is_on (tsch_radio_off env TSCH_RADIO_CMD_OFF_FORCE s)"
  by (simp_all add: tsch_radio_on_def tsch_radio_off_def)

lemma sync_radio: "sync_frame s s' \<Longrightarrow> radio_is_on s' = radio_is_on s" for s s' :: "'m slot_state_scheme"
  by (cases s; cases s') (simp add: sync_frame_def)

lemma stats_radio: "stats_frame s s' \<Longrightarrow> radio_is_on s' = radio_is_on s" for s s' :: "'m slot_state_scheme"
  by (cases s; cases s') (simp add: stats_frame_def)

lemma ack_correction_radio:
  assumes "ack_time_correction env c n ies s = Some s'"
  shows "radio_is_on s' = radio_is_on s"
proof -
  obtain since drift s1 where u: "tsch_timesync_update (Some n) since drift
      (s\<lparr>drift_correction := drift, is_drift_correction_used := True\<rparr>) = Some s1"
    and s': "s' = tsch_schedule_keepalive False (s1\<lparr>last_sync_asn := tsch_current_asn s1, tsch_last_sync_time := c\<rparr>)"
    using assms by (auto simp: ack_time_correction_def Let_def bind_eq_Some_conv)
  show ?thesis
    using sync_radio [OF timesync_update_frame [OF u]]
      sync_radio [OF keepalive_frame, of False "s1\<lparr>last_sync_asn := tsch_current_asn s1, tsch_last_sync_time := c\<rparr>"]
    by (simp add: s')
qed

lemma receive_ack_radio:
  assumes "receive_ack env inp n seqno b s = Some (st, s')"
  shows "radio_is_on s' = radio_is_on s"
proof -
  obtain acc ies where r: "(if acc then do {
       s1 \<leftarrow> (if is_time_source (q_nbrs s ! n) then ack_time_correction env (si_clock inp) n ies s else Some s);
       Some (MAC_TX_OK, if b then s1\<lparr>burst_link_scheduled := True\<rparr> else s1)
     } else Some (MAC_TX_NOACK, s)) = Some (st, s')"
    using assms unfolding receive_ack_def Let_def bind_eq_Some_conv by auto
  show ?thesis
  proof (cases acc)
    case True
    then obtain s1 where s1: "(if is_time_source (q_nbrs s ! n) then ack_time_correction env (si_clock inp) n ies s else Some s) = Some s1"
      "s' = (if b then s1\<lparr>burst_link_scheduled := True\<rparr> else s1)"
      using r by (auto simp: bind_eq_Some_conv)
    have "radio_is_on s1 = radio_is_on s" using s1(1) by (auto dest: ack_correction_radio split: if_splits)
    with s1 show ?thesis by simp
  qed (use r in auto)
qed

lemma tx_transmit_radio:
  assumes "tx_transmit env inp s = Some (st, s')" and "radio_is_on s'"
  shows "radio_is_on s"
proof (cases "\<exists>p qb. current_packet s = Some p \<and> pkt_qb (q_packets s ! p) = Some qb")
  case False
  then show ?thesis using assms by (auto simp: tx_transmit_def split: option.splits)
next
  case True
  then obtain p qb where p: "current_packet s = Some p" "pkt_qb (q_packets s ! p) = Some qb" by blast
  obtain r n ready b seqno frame s1 where pf: "prepare_frame env n p r s = Some (ready, b, seqno, frame, s1)"
    and t: "(if ready \<and> si_prepare inp then do {
                 let s2 = radio_transmit (length frame) (radio_prepare True frame s1);
                 let s3 = tsch_radio_off env TSCH_RADIO_CMD_OFF_WITHIN_TIMESLOT (s2\<lparr>tx_count := tx_count s2 + 1\<rparr>);
                 if si_transmit inp = RADIO_TX_OK
                 then if \<not> is_broadcast (q_nbrs s3 ! n)
                      then receive_ack env inp n seqno b
                             (tsch_radio_off env TSCH_RADIO_CMD_OFF_WITHIN_TIMESLOT
                               (tsch_radio_on env TSCH_RADIO_CMD_ON_WITHIN_TIMESLOT s3))
                      else Some (MAC_TX_OK, s3)
                 else Some (MAC_TX_ERR, s3)
               }
               else Some (MAC_TX_ERR, s1)) = Some (st, s')"
    using assms(1) unfolding tx_transmit_def p option.case bind_eq_Some_conv by (auto simp only: prod.case split_paired_Ex)
  have on1: "radio_is_on s1 = radio_is_on s"
    using pf unfolding prepare_frame_def Let_def bind_eq_Some_conv by (auto simp: bind_eq_Some_conv)
  define s3 where "s3 = tsch_radio_off env TSCH_RADIO_CMD_OFF_WITHIN_TIMESLOT
    ((radio_transmit (length frame) (radio_prepare True frame s1))
      \<lparr>tx_count := tx_count (radio_transmit (length frame) (radio_prepare True frame s1)) + 1\<rparr>)"
  have on3: "radio_is_on s3 \<longrightarrow> radio_is_on s" using on1 by (simp add: s3_def radio_transmit_def radio_prepare_def)
  have t3: "s' = s1 \<or> s' = s3 \<or> (\<exists>st. receive_ack env inp n seqno b (tsch_radio_off env TSCH_RADIO_CMD_OFF_WITHIN_TIMESLOT
      (tsch_radio_on env TSCH_RADIO_CMD_ON_WITHIN_TIMESLOT s3)) = Some (st, s'))"
    using t unfolding Let_def s3_def [symmetric]
    by (cases "ready \<and> si_prepare inp"; cases "si_transmit inp = RADIO_TX_OK"; cases "is_broadcast (q_nbrs s3 ! n)") auto
  then show ?thesis
    using assms(2) on1 on3 by (auto dest: receive_ack_radio)
qed

lemma tx_done_radio:
  assumes "tx_done i st s = Some s'"
  shows "radio_is_on s' = radio_is_on s"
proof -
  obtain p n l where e: "current_packet s = Some p" "current_neighbor s = Some n" "sch_current_link s = Some l"
    using assms by (auto simp: tx_done_def bind_eq_Some_conv)
  define s1 where "s1 = s\<lparr>q_packets := (q_packets s)[p := (q_packets s ! p)
            \<lparr>pkt_transmissions := pkt_transmissions (q_packets s ! p) + 1, pkt_ret := st\<rparr>]\<rparr>"
  obtain in_queue s2 where ps: "tsch_queue_packet_sent n p (sch_links s1 ! l) st s1 = (in_queue, s2)" by fastforce
  obtain s3 s4 where s3: "(if in_queue = 0
            then do {
              a \<leftarrow> arr_set (dequeued_array s2) (nat i) (Some p);
              Some (s2\<lparr>dequeued_array := a, dequeued_ringbuf := snd (ringbufindex_put (dequeued_ringbuf s2))\<rparr>)
            }
            else Some s2) = Some s3"
    and s4: "(if is_time_source (q_nbrs s3 ! n) \<and> link_timeslot (sch_links s3 ! l) \<noteq> 0
            then pdr_tx_update (sch_links s3 ! l) st s3 else Some s3) = Some s4"
    and s': "s' = s4\<lparr>pending_events_polled := True\<rparr>"
    using assms unfolding tx_done_def e Option.bind_lunit Let_def s1_def [symmetric] ps prod.case bind_eq_Some_conv option.inject
    by blast
  have "radio_is_on s2 = radio_is_on s"
    using packet_sent_frame [of n p "sch_links s1 ! l" st s1] unfolding ps by (auto simp: s1_def)
  moreover have "radio_is_on s3 = radio_is_on s2" using s3 by (auto simp: bind_eq_Some_conv split: if_splits)
  moreover have "radio_is_on s4 = radio_is_on s3"
    using s4 by (auto dest: pdr_update_frame stats_radio split: if_splits)
  ultimately show ?thesis by (simp add: s')
qed

lemma rx_acknowledge_radio:
  assumes "rx_acknowledge env frame a d payload s = Some s'" and "radio_is_on s'"
  shows "radio_is_on s"
  using assms
  by (auto simp: rx_acknowledge_def Let_def bind_eq_Some_conv radio_transmit_def radio_prepare_def split: if_splits)

lemma rx_synchronize_radio:
  assumes "rx_synchronize env c a d s = Some s'"
  shows "radio_is_on s' = radio_is_on s"
proof -
  have "s' = s \<or> (\<exists>n t x s1. tsch_timesync_update n t x (s\<lparr>last_sync_asn := tsch_current_asn s, tsch_last_sync_time := c,
      drift_correction := - d, is_drift_correction_used := True, sync_count := sync_count s + 1\<rparr>) = Some s1 \<and>
      s' = tsch_schedule_keepalive False s1)"
    using assms by (auto simp: rx_synchronize_def Let_def bind_eq_Some_conv split: option.splits if_splits)
  then show ?thesis
    by (auto dest!: timesync_update_frame sync_radio simp: sync_radio [OF keepalive_frame])
qed

lemma rx_frame_radio:
  assumes "rx_frame env inp header_len frame d payload s = Some s'" and "radio_is_on s'"
  shows "radio_is_on s"
  using assms
  by (auto simp: rx_frame_def bind_eq_Some_conv Let_def split: if_splits prod.splits dest!: rx_acknowledge_radio rx_synchronize_radio)

lemma rx_slot_radio:
  assumes "tsch_rx_slot env inp s = Some s'" and "ringbufindex_peek_put (input_ringbuf s) \<noteq> -1"
    and "se_radio_on_during_timeslot env \<or> \<not> radio_is_on s"
  shows "\<not> radio_is_on s'"
proof -
  define s0 where "s0 = tsch_radio_on env TSCH_RADIO_CMD_ON_WITHIN_TIMESLOT s"
  show ?thesis
  proof (cases "si_frame inp")
    case None
    then show ?thesis using assms(1,2) by (auto simp: tsch_rx_slot_def bind_eq_Some_conv Let_def)
  next
    case (Some air)
    from assms(1,2) Some obtain ia s1 payload header_len frame d s2 where
      s1: "s1 = tsch_radio_off env TSCH_RADIO_CMD_OFF_WITHIN_TIMESLOT (s0\<lparr>input_array := ia\<rparr>)"
      and s2: "rx_frame env inp header_len frame d payload s1 = Some s2"
      and s': "s' = (tsch_radio_off env TSCH_RADIO_CMD_OFF_END_OF_TIMESLOT s2)\<lparr>input_queue_drop := 0\<rparr>"
      unfolding tsch_rx_slot_def Let_def s0_def [symmetric] by (auto simp: bind_eq_Some_conv Let_def)
    have "radio_is_on s1 \<longrightarrow> se_radio_on_during_timeslot env" by (simp add: s1)
    with rx_frame_radio [OF s2] show ?thesis by (auto simp: s')
  qed
qed

definition ring_full :: "ringbufindex \<Rightarrow> bool" where
  "ring_full r \<longleftrightarrow> ringbufindex_peek_put r = -1"

lemma link_backoff_fields [simp]:
  "radio_is_on (update_link_backoff lo s) = radio_is_on s"
  "dequeued_ringbuf (update_link_backoff lo s) = dequeued_ringbuf s"
  "input_ringbuf (update_link_backoff lo s) = input_ringbuf s" "sch_links (update_link_backoff lo s) = sch_links s"
proof -
  obtain q where "update_link_backoff lo s = s\<lparr>q_nbrs := q\<rparr>" using link_backoff_frame by blast
  then show "radio_is_on (update_link_backoff lo s) = radio_is_on s"
    "dequeued_ringbuf (update_link_backoff lo s) = dequeued_ringbuf s"
    "input_ringbuf (update_link_backoff lo s) = input_ringbuf s" "sch_links (update_link_backoff lo s) = sch_links s"
    by simp_all
qed

lemma choose_link_frame:
  "radio_is_on (choose_link l s) = radio_is_on s" "dequeued_ringbuf (choose_link l s) = dequeued_ringbuf s"
  "input_ringbuf (choose_link l s) = input_ringbuf s" "sch_links (choose_link l s) = sch_links s"
  "backup_link s = None \<Longrightarrow> sch_current_link (choose_link l s) = sch_current_link s"
  "sch_current_link s = Some l \<Longrightarrow> sch_current_link (choose_link l s) \<noteq> None"
  by (simp_all add: choose_link_def Let_def split_beta split: option.split)

lemma hop_channel_frame:
  assumes "hop_channel l s = Some s'"
  shows "radio_is_on s' = radio_is_on s" "dequeued_ringbuf s' = dequeued_ringbuf s" "input_ringbuf s' = input_ringbuf s"
  using assms by (auto simp: hop_channel_def Let_def bind_eq_Some_conv)

text \<open>The slots of an activation: none, an idle one, or one played on a state with the radio set up.\<close>

lemma slot_action_cases:
  assumes r: "slot_action env inp s = Some s'"
  obtains (skipped) "s' = s" "sch_current_link s = None \<or> tsch_lock_requested s"
  | (idle) "radio_is_on s' = radio_is_on s" "\<And>l. sch_current_link s = Some l \<Longrightarrow> rx_link s l \<Longrightarrow> backup_link s \<noteq> None"
  | (tx) s3 where "tsch_tx_slot env inp s3 = Some s'" "radio_is_on s3 \<longleftrightarrow> se_radio_on_during_timeslot env \<or> radio_is_on s"
      "dequeued_ringbuf s3 = dequeued_ringbuf s"
  | (rx) s3 where "tsch_rx_slot env inp s3 = Some s'" "radio_is_on s3 \<longleftrightarrow> se_radio_on_during_timeslot env \<or> radio_is_on s"
      "input_ringbuf s3 = input_ringbuf s"
proof (cases "sch_current_link s = None \<or> tsch_lock_requested s")
  case True
  then show ?thesis using r skipped by (auto simp: slot_action_def split: option.splits)
next
  case False
  then obtain l0 where l0: "sch_current_link s = Some l0" "\<not> tsch_lock_requested s" by auto
  define s0 where "s0 = s\<lparr>tsch_in_slot_operation := True, drift_correction := 0, is_drift_correction_used := False\<rparr>"
  define s1 where "s1 = choose_link l0 s0"
  have f1: "radio_is_on s1 = radio_is_on s" "dequeued_ringbuf s1 = dequeued_ringbuf s" "input_ringbuf s1 = input_ringbuf s"
    "sch_links s1 = sch_links s" "backup_link s = None \<Longrightarrow> sch_current_link s1 = Some l0"
    using choose_link_frame [where s = s0 and l = l0] l0 by (simp_all add: s1_def s0_def)
  obtain l where l: "sch_current_link s1 = Some l"
    using choose_link_frame(6) [where s = s0 and l = l0] l0 by (auto simp: s1_def s0_def)
  have run: "(if current_packet s1 \<noteq> None \<or> link_options (sch_links s1 ! l) AND LINK_OPTION_RX \<noteq> 0
            then do {
              s2 \<leftarrow> (if burst_link_scheduled s1 then Some (s1\<lparr>burst_link_scheduled := False\<rparr>)
                     else hop_channel l s1);
              let s3 = tsch_radio_on env TSCH_RADIO_CMD_ON_START_OF_TIMESLOT (s2\<lparr>radio_channel := tsch_current_channel s2\<rparr>);
              if current_packet s3 \<noteq> None then tsch_tx_slot env inp s3 else tsch_rx_slot env inp s3
            }
            else Some (s1\<lparr>burst_link_scheduled := False\<rparr>)) = Some s'"
    using r l unfolding slot_action_def l0 option.case s0_def [symmetric] Let_def s1_def [symmetric] by (simp add: l0)
  show ?thesis
  proof (cases "current_packet s1 \<noteq> None \<or> link_options (sch_links s1 ! l) AND LINK_OPTION_RX \<noteq> 0")
    case False
    then have "s' = s1\<lparr>burst_link_scheduled := False\<rparr>" "\<not> rx_link s l" using run f1(4) by (simp_all add: rx_link_def)
    then show ?thesis using f1 l l0 by (intro idle) auto
  next
    case True
    then obtain s2 where s2: "(if burst_link_scheduled s1 then Some (s1\<lparr>burst_link_scheduled := False\<rparr>) else hop_channel l s1) = Some s2"
      and go: "(let s3 = tsch_radio_on env TSCH_RADIO_CMD_ON_START_OF_TIMESLOT (s2\<lparr>radio_channel := tsch_current_channel s2\<rparr>)
        in if current_packet s3 \<noteq> None then tsch_tx_slot env inp s3 else tsch_rx_slot env inp s3) = Some s'"
      using run by (auto simp: bind_eq_Some_conv)
    have f2: "radio_is_on s2 = radio_is_on s" "dequeued_ringbuf s2 = dequeued_ringbuf s" "input_ringbuf s2 = input_ringbuf s"
      using s2 f1 hop_channel_frame [of l s1 s2] by (auto split: if_splits)
    define s3 where "s3 = tsch_radio_on env TSCH_RADIO_CMD_ON_START_OF_TIMESLOT (s2\<lparr>radio_channel := tsch_current_channel s2\<rparr>)"
    have f3: "radio_is_on s3 \<longleftrightarrow> se_radio_on_during_timeslot env \<or> radio_is_on s" "dequeued_ringbuf s3 = dequeued_ringbuf s"
      "input_ringbuf s3 = input_ringbuf s"
      using f2 by (simp_all add: s3_def tsch_radio_on_def)
    show ?thesis
      using go f3 tx [of s3] rx [of s3] unfolding Let_def s3_def [symmetric] by (auto split: if_splits)
  qed
qed

text \<open>C25: A slot leaves the radio off.  If it was off before, it is off afterwards, whatever was sent and
  received; with one exception: configured to switch the radio on at the start of the slot, the code returns
  with the radio on when there is no room for the packet that would be dequeued or received.
  This happens whenever both rings are full and the slot is one to listen on.\<close>

theorem tsch_slot_radio_off:
  assumes r: "slot_action env inp s = Some s'" and off: "\<not> radio_is_on s"
  shows "(radio_is_on s' \<longrightarrow> se_radio_on_during_timeslot env \<and>
      (ring_full (dequeued_ringbuf s) \<or> ring_full (input_ringbuf s))) \<and>
    (se_radio_on_during_timeslot env \<and> ring_full (dequeued_ringbuf s) \<and> ring_full (input_ringbuf s) \<and>
      sch_current_link s = Some l \<and> rx_link s l \<and> backup_link s = None \<and> \<not> tsch_lock_requested s \<longrightarrow> radio_is_on s')"
  using r
proof (cases rule: slot_action_cases)
    case skipped
    then show ?thesis using off by auto
  next
    case idle
    then show ?thesis using off by auto
  next
    case (tx s3)
    show ?thesis
    proof (cases "ring_full (dequeued_ringbuf s)")
      case True
      then have "s' = s3" using tx by (simp add: tsch_tx_slot_def ring_full_def)
      then show ?thesis using tx True off by simp
    next
      case False
      then obtain st s4 where t: "tx_transmit env inp s3 = Some (st, s4)"
        and d: "tx_done (ringbufindex_peek_put (dequeued_ringbuf s)) st (tsch_radio_off env TSCH_RADIO_CMD_OFF_END_OF_TIMESLOT s4) = Some s'"
        using tx by (auto simp: tsch_tx_slot_def ring_full_def bind_eq_Some_conv)
      have "\<not> radio_is_on s'" using tx_done_radio [OF d] tx_transmit_radio [OF t] tx(2) off by auto
      with False show ?thesis by simp
    qed
  next
    case (rx s3)
    show ?thesis
    proof (cases "ring_full (input_ringbuf s)")
      case True
      then have "s' = s3\<lparr>input_queue_drop := input_queue_drop s3 + 1\<rparr>" using rx by (simp add: tsch_rx_slot_def ring_full_def)
      then show ?thesis using rx True off by simp
    next
      case False
      then have "\<not> radio_is_on s'" using rx_slot_radio [OF rx(1)] rx(2,3) off by (auto simp: ring_full_def)
      with False show ?thesis by simp
    qed
  qed

theorem tsch_slot_radio_off_witness:
  "\<exists>s'. slot_action (slot_env_example\<lparr>se_radio_on_during_timeslot := True\<rparr>) slot_input_example
      (slot_example\<lparr>sch_current_link := Some 1, backup_link := None,
        dequeued_ringbuf := \<lparr>rb_mask = 15, rb_put_ptr = 15, rb_get_ptr = 0\<rparr>,
        input_ringbuf := \<lparr>rb_mask = 15, rb_put_ptr = 15, rb_get_ptr = 0\<rparr>\<rparr>) = Some s' \<and> radio_is_on s'"
proof -
  define s where "s = slot_example\<lparr>sch_current_link := Some 1, backup_link := None,
        dequeued_ringbuf := \<lparr>rb_mask = 15, rb_put_ptr = 15, rb_get_ptr = 0\<rparr>,
        input_ringbuf := \<lparr>rb_mask = 15, rb_put_ptr = 15, rb_get_ptr = 0\<rparr>\<rparr>"
  let ?env = "slot_env_example\<lparr>se_radio_on_during_timeslot := True\<rparr>"
  have lk: "link_options (sch_links slot_example ! 1) = 2"
    by (simp add: sched_example_def tsch_queue_state.extend_def)
  define s0 where "s0 = s\<lparr>tsch_in_slot_operation := True, drift_correction := 0, is_drift_correction_used := False\<rparr>"
  have c: "choose_link 1 s0 = s0\<lparr>current_packet := None, current_neighbor := None\<rparr>"
    using lk by (simp add: choose_link_def get_packet_and_neighbor_for_link_def s0_def s_def LINK_OPTION_TX_def)
  define s1 where "s1 = s0\<lparr>current_packet := None, current_neighbor := None\<rparr>"
  have "hopping_ok s1" using slot_example_ready(3) by (simp add: hopping_ok_def s1_def s0_def s_def)
  then obtain s2 where h: "hop_channel 1 s1 = Some s2" "input_ringbuf s2 = input_ringbuf s" "current_packet s2 = None"
    by (auto simp: hop_channel_def Let_def calculate_channel(1) s1_def s0_def)
  have full: "ringbufindex_peek_put \<lparr>rb_mask = 15, rb_put_ptr = 15, rb_get_ptr = 0\<rparr> = -1"
    by (simp add: ringbufindex_peek_put_def)
  have f1: "burst_link_scheduled s1 = False" "current_packet s1 = None" "sch_links s1 = sch_links slot_example"
    "sch_current_link s1 = Some 1" by (simp_all add: s1_def s0_def s_def)
  have sq: "sch_current_link s = Some 1" "\<not> tsch_lock_requested s" "input_ringbuf s = \<lparr>rb_mask = 15, rb_put_ptr = 15, rb_get_ptr = 0\<rparr>"
    by (simp_all add: s_def) (simp add: slot_example_def timesync_state.extend_def slot_state.fields_def)
  have "slot_action ?env slot_input_example s = tsch_rx_slot ?env slot_input_example
      (tsch_radio_on ?env TSCH_RADIO_CMD_ON_START_OF_TIMESLOT (s2\<lparr>radio_channel := tsch_current_channel s2\<rparr>))"
    unfolding slot_action_def sq(1) option.case s0_def [symmetric] Let_def c s1_def [symmetric] f1 Option.bind_lunit
    using sq(2) lk h by (simp add: LINK_OPTION_RX_def del: slot_example_fields'')
  then obtain s' where r: "slot_action ?env slot_input_example s = Some s'"
    using h(2) full sq(3) by (simp add: tsch_rx_slot_def tsch_radio_on_def)
  have "rx_link s 1" using lk by (simp add: rx_link_def s_def LINK_OPTION_RX_def del: slot_example_fields'')
  moreover have "\<not> radio_is_on s" "ring_full (dequeued_ringbuf s)" "ring_full (input_ringbuf s)" "backup_link s = None"
    using full sq(3) by (simp_all add: s_def ring_full_def)
  ultimately have "radio_is_on s'" using tsch_slot_radio_off [OF r, of 1] sq by simp
  with r show ?thesis unfolding s_def by blast
qed

end
