(* ===== verification/Linked_List.thy ===== *)
theory Linked_List
  imports Prelude
begin

section \<open>Linked lists\<close>

text \<open>
  Model of \<open>os/lib/list.c\<close> on a heap.  An item is an address, \<open>nx\<close> is the \<open>next\<close> field of
  every item (\<open>None\<close> for NULL) and the list is its head pointer.  A loop that walks the list
  is a \<open>partial_function\<close>, since on a cyclic list it does not return (\<open>None\<close>).  \<open>lseg nx h xs\<close>
  says that the list starting at \<open>h\<close> consists of the items \<open>xs\<close>; the refinement lemmas say
  that on such a list every operation returns and does what the operation of HOL's lists
  does.  The other components use the list operations in that abstract form.
\<close>

type_synonym next_fields = "nat \<Rightarrow> nat option"

fun lseg :: "next_fields \<Rightarrow> nat option \<Rightarrow> nat list \<Rightarrow> bool" where
  "lseg nx h [] = (h = None)"
| "lseg nx h (x # xs) = (h = Some x \<and> lseg nx (nx x) xs)"

definition is_list :: "next_fields \<Rightarrow> nat option \<Rightarrow> nat list \<Rightarrow> bool" where
  "is_list nx h xs \<longleftrightarrow> lseg nx h xs \<and> distinct xs"

subsection \<open>Operations\<close>

partial_function (option) list_tail_loop :: "next_fields \<Rightarrow> nat \<Rightarrow> nat option" where
  "list_tail_loop nx l = (case nx l of None \<Rightarrow> Some l | Some l' \<Rightarrow> list_tail_loop nx l')"

definition list_tail :: "next_fields \<Rightarrow> nat option \<Rightarrow> nat option option" where
  "list_tail nx lst = (case lst of None \<Rightarrow> Some None | Some h \<Rightarrow> map_option Some (list_tail_loop nx h))"

partial_function (option) list_remove_loop ::
  "nat \<Rightarrow> nat option \<Rightarrow> nat option \<Rightarrow> next_fields \<Rightarrow> nat option \<Rightarrow> (next_fields \<times> nat option) option" where
  "list_remove_loop item r l nx lst =
     (case l of
        None \<Rightarrow> Some (nx, lst)
      | Some x \<Rightarrow>
          if x = item
          then (case r of
                  None \<Rightarrow> Some (nx(x := None), nx x)
                | Some p \<Rightarrow> Some ((nx(p := nx x))(x := None), lst))
          else list_remove_loop item (Some x) (nx x) nx lst)"

definition list_remove :: "nat \<Rightarrow> next_fields \<Rightarrow> nat option \<Rightarrow> (next_fields \<times> nat option) option" where
  "list_remove item nx lst =
     (if lst = None then Some (nx, lst) else list_remove_loop item None lst nx lst)"

definition list_add :: "nat \<Rightarrow> next_fields \<Rightarrow> nat option \<Rightarrow> (next_fields \<times> nat option) option" where
  "list_add item nx lst = do {
     (nx1, lst1) \<leftarrow> list_remove item nx lst;
     (let nx2 = nx1(item := None)
      in do {
        l \<leftarrow> list_tail nx2 lst1;
        (case l of
           None \<Rightarrow> Some (nx2, Some item)
         | Some t \<Rightarrow> Some (nx2(t := Some item), lst1))
      })
   }"

definition list_push :: "nat \<Rightarrow> next_fields \<Rightarrow> nat option \<Rightarrow> (next_fields \<times> nat option) option" where
  "list_push item nx lst = do {
     (nx1, lst1) \<leftarrow> list_remove item nx lst;
     Some (nx1(item := lst1), Some item)
   }"

partial_function (option) list_chop_loop :: "next_fields \<Rightarrow> nat \<Rightarrow> nat option" where
  "list_chop_loop nx l =
     (case nx l of
        None \<Rightarrow> None
      | Some l' \<Rightarrow> if nx l' \<noteq> None then list_chop_loop nx l' else Some l)"

definition list_chop ::
  "next_fields \<Rightarrow> nat option \<Rightarrow> (nat option \<times> next_fields \<times> nat option) option" where
  "list_chop nx lst =
     (case lst of
        None \<Rightarrow> Some (None, nx, lst)
      | Some h \<Rightarrow>
          if nx h = None then Some (Some h, nx, None)
          else do {
            l \<leftarrow> list_chop_loop nx h;
            Some (nx l, nx(l := None), lst)
          })"

definition list_pop :: "next_fields \<Rightarrow> nat option \<Rightarrow> nat option \<times> nat option" where
  "list_pop nx lst = (case lst of None \<Rightarrow> (None, None) | Some h \<Rightarrow> (Some h, nx h))"

partial_function (option) list_length_loop :: "next_fields \<Rightarrow> nat option \<Rightarrow> nat \<Rightarrow> nat option" where
  "list_length_loop nx l n =
     (case l of None \<Rightarrow> Some n | Some x \<Rightarrow> list_length_loop nx (nx x) (Suc n))"

definition list_length :: "next_fields \<Rightarrow> nat option \<Rightarrow> nat option" where
  "list_length nx lst = list_length_loop nx lst 0"

definition list_insert ::
  "nat option \<Rightarrow> nat \<Rightarrow> next_fields \<Rightarrow> nat option \<Rightarrow> (next_fields \<times> nat option) option" where
  "list_insert previtem newitem nx lst =
     (case previtem of
        None \<Rightarrow> list_push newitem nx lst
      | Some p \<Rightarrow> do {
          (nx1, lst1) \<leftarrow> list_remove newitem nx lst;
          Some ((nx1(newitem := nx1 p))(p := Some newitem), lst1)
        })"

partial_function (option) list_contains_loop :: "nat \<Rightarrow> next_fields \<Rightarrow> nat option \<Rightarrow> bool option" where
  "list_contains_loop item nx l =
     (case l of None \<Rightarrow> Some False
      | Some x \<Rightarrow> if item = x then Some True else list_contains_loop item nx (nx x))"

definition list_contains :: "nat \<Rightarrow> next_fields \<Rightarrow> nat option \<Rightarrow> bool option" where
  "list_contains item nx lst = list_contains_loop item nx lst"

subsection \<open>Segments\<close>

lemma lseg_cong: "(\<And>x. x \<in> set xs \<Longrightarrow> nx x = nx' x) \<Longrightarrow> lseg nx h xs = lseg nx' h xs"
  by (induction xs arbitrary: h) auto

lemma lseg_upd [simp]: "x \<notin> set xs \<Longrightarrow> lseg (nx(x := v)) h xs = lseg nx h xs"
  by (induction xs arbitrary: h) auto

lemma lseg_append:
  "lseg nx h (xs @ y # ys) \<Longrightarrow> xs \<noteq> [] \<Longrightarrow> nx (last xs) = Some y \<and> lseg nx (nx y) ys"
  by (induction xs arbitrary: h) (auto split: if_splits)

lemma lseg_last: "lseg nx h xs \<Longrightarrow> xs \<noteq> [] \<Longrightarrow> nx (last xs) = None"
  by (induction xs arbitrary: h) (auto split: if_splits)

lemma lseg_set_last:
  "lseg nx h (xs @ [z]) \<Longrightarrow> distinct (xs @ [z]) \<Longrightarrow> y \<notin> set (xs @ [z]) \<Longrightarrow> nx y = None \<Longrightarrow>
   lseg (nx(z := Some y)) h (xs @ [z, y])"
  by (induction xs arbitrary: h) auto

subsection \<open>Refinement\<close>

lemma list_tail_loop_lseg: "lseg nx (Some x) (x # xs) \<Longrightarrow> list_tail_loop nx x = Some (last (x # xs))"
  by (induction xs arbitrary: x) (subst list_tail_loop.simps; auto)+

lemma list_tail_lseg: "lseg nx h xs \<Longrightarrow> list_tail nx h = Some (if xs = [] then None else Some (last xs))"
  using list_tail_loop_lseg by (cases xs) (auto simp: list_tail_def)

lemma list_length_loop_lseg: "lseg nx h xs \<Longrightarrow> list_length_loop nx h n = Some (n + length xs)"
  by (induction xs arbitrary: h n) (subst list_length_loop.simps; auto)+

lemma list_contains_loop_lseg: "lseg nx h xs \<Longrightarrow> list_contains_loop y nx h = Some (y \<in> set xs)"
  by (induction xs arbitrary: h) (subst list_contains_loop.simps; auto)+

lemma list_chop_loop_lseg:
  "lseg nx (Some x) (x # y # xs) \<Longrightarrow> list_chop_loop nx x = Some (last (butlast (x # y # xs)))"
  by (induction xs arbitrary: x y) (subst list_chop_loop.simps; auto)+

lemma lseg_butlast:
  "lseg nx h (xs @ [y, z]) \<Longrightarrow> distinct (xs @ [y, z]) \<Longrightarrow> lseg (nx(y := None)) h (xs @ [y])"
  by (induction xs arbitrary: h) auto

text \<open>The loop of \<open>list_remove\<close>: \<open>r\<close> is the last item already passed.\<close>

lemma list_remove_loop_none:
  "lseg nx l ys \<Longrightarrow> item \<notin> set ys \<Longrightarrow> list_remove_loop item r l nx lst = Some (nx, lst)"
  by (induction ys arbitrary: l r) (subst list_remove_loop.simps; auto)+

lemma list_remove_loop_found:
  "lseg nx l (ys @ item # zs) \<Longrightarrow> item \<notin> set ys \<Longrightarrow>
   list_remove_loop item r l nx lst =
     (case (if ys = [] then r else Some (last ys)) of
        None \<Rightarrow> Some (nx(item := None), nx item)
      | Some p \<Rightarrow> Some ((nx(p := nx item))(item := None), lst))"
  by (induction ys arbitrary: l r) (subst list_remove_loop.simps; auto)+

lemma lseg_unlink:
  "lseg nx h (ys @ item # zs) \<Longrightarrow> distinct (ys @ item # zs) \<Longrightarrow> ys \<noteq> [] \<Longrightarrow>
   lseg ((nx(last ys := nx item))(item := None)) h (ys @ zs)"
proof (induction ys arbitrary: h)
  case (Cons y ys)
  show ?case
  proof (cases ys)
    case Nil
    have "lseg ((nx(y := nx item))(item := None)) (nx item) zs = lseg nx (nx item) zs"
      using Cons.prems by (intro lseg_cong) auto
    moreover have "((nx(y := nx item))(item := None)) y = nx item" using Cons.prems Nil by auto
    ultimately show ?thesis using Nil Cons.prems by (simp del: fun_upd_apply)
  next
    case (Cons y' ys')
    then have ne: "ys \<noteq> []" by simp
    have a: "lseg nx (nx y) (ys @ item # zs)" and b: "distinct (ys @ item # zs)"
      using Cons.prems by auto
    note i = Cons.IH [OF a b ne]
    have "y \<noteq> last ys" "y \<noteq> item" using Cons.prems Cons by auto
    then have "((nx(last ys := nx item))(item := None)) y = nx y" by simp
    with i ne Cons.prems show ?thesis by (simp del: fun_upd_apply)
  qed
qed simp

lemma list_remove_refines:
  assumes l: "is_list nx h xs"
  shows "\<exists>nx' h'. list_remove y nx h = Some (nx', h') \<and> is_list nx' h' (remove1 y xs) \<and>
    (\<forall>z. z \<notin> set xs \<longrightarrow> nx' z = nx z)"
proof (cases "y \<in> set xs")
  case False
  have s: "lseg nx h xs" using l by (simp add: is_list_def)
  have "list_remove y nx h = Some (nx, h)"
    using list_remove_loop_none [OF s False, of None h] by (simp add: list_remove_def)
  with l False show ?thesis by (simp add: remove1_idem)
next
  case True
  then obtain ys zs where xs: "xs = ys @ y # zs" and ny: "y \<notin> set ys" by (meson split_list_first)
  have s: "lseg nx h (ys @ y # zs)" and d: "distinct (ys @ y # zs)"
    using l xs by (auto simp: is_list_def)
  have r: "remove1 y xs = ys @ zs" using xs ny d by (simp add: remove1_append)
  have h: "h \<noteq> None" using s by (cases ys) auto
  show ?thesis
  proof (cases "ys = []")
    case True
    have "lseg (nx(y := None)) (nx y) zs" using s d True by simp
    then show ?thesis
      using list_remove_loop_found [OF s ny, of None h] True h r d xs
      by (auto simp: list_remove_def is_list_def)
  next
    case False
    let ?nx = "(nx(last ys := nx y))(y := None)"
    have e: "list_remove y nx h = Some (?nx, h)"
      using list_remove_loop_found [OF s ny, of None h] False h by (auto simp: list_remove_def)
    have i: "is_list ?nx h (ys @ zs)" using lseg_unlink [OF s d False] d by (simp add: is_list_def)
    have f: "\<forall>z. z \<notin> set xs \<longrightarrow> ?nx z = nx z" using False xs by auto
    show ?thesis unfolding r by (rule exI [of _ ?nx], rule exI [of _ h]) (intro conjI e i f)
  qed
qed

lemma list_push_refines:
  assumes l: "is_list nx h xs"
  shows "\<exists>nx' h'. list_push y nx h = Some (nx', h') \<and> is_list nx' h' (y # remove1 y xs)"
proof -
  obtain nx1 h1 where r: "list_remove y nx h = Some (nx1, h1)" and l1: "is_list nx1 h1 (remove1 y xs)"
    using list_remove_refines [OF l, of y] by blast
  have "y \<notin> set (remove1 y xs)" using l by (simp add: is_list_def)
  with r l1 show ?thesis by (auto simp: list_push_def is_list_def)
qed

lemma list_chop_refines:
  assumes l: "is_list nx h xs"
  shows "\<exists>nx' h'. list_chop nx h = Some (if xs = [] then None else Some (last xs), nx', h') \<and>
    is_list nx' h' (butlast xs)"
proof (cases xs rule: rev_cases)
  case Nil
  with l show ?thesis by (simp add: list_chop_def is_list_def)
next
  case (snoc ys z)
  have s: "lseg nx h xs" and d: "distinct xs" using l by (auto simp: is_list_def)
  show ?thesis
  proof (cases ys rule: rev_cases)
    case Nil
    with snoc s show ?thesis by (simp add: list_chop_def is_list_def)
  next
    case (snoc vs w)
    with \<open>xs = ys @ [z]\<close> have xs: "xs = vs @ [w, z]" by simp
    then obtain x y rest where x: "xs = x # y # rest" by (cases vs; cases "tl vs") auto
    have h: "h = Some x" "nx x = Some y" using s x by auto
    have bl: "butlast xs = vs @ [w]" unfolding xs by (simp add: butlast_append)
    have "list_chop_loop nx x = Some (last (butlast (x # y # rest)))"
      by (rule list_chop_loop_lseg) (use s x h in simp)
    then have c: "list_chop_loop nx x = Some w" unfolding x [symmetric] bl by simp
    have nw: "nx w = Some z" using lseg_append [of nx h "vs @ [w]" z "[]"] s xs by simp
    have "lseg (nx(w := None)) h (vs @ [w])" using lseg_butlast [of nx h vs w z] s d xs by simp
    with h c nw xs d bl show ?thesis by (auto simp: list_chop_def is_list_def)
  qed
qed

text \<open>
  Adding an item to a list returns, and the item ends up at the tail exactly once: a
  second copy is taken out first.  No item outside the list and the added item is touched.
\<close>

theorem list_add_refines:
  assumes l: "is_list nx h xs"
  shows "\<exists>nx' h'. list_add y nx h = Some (nx', h') \<and> is_list nx' h' (remove1 y xs @ [y]) \<and>
    (\<forall>z. z \<notin> insert y (set xs) \<longrightarrow> nx' z = nx z)"
proof -
  obtain nx1 h1 where r: "list_remove y nx h = Some (nx1, h1)" and l1: "is_list nx1 h1 (remove1 y xs)"
    and f: "\<And>z. z \<notin> set xs \<Longrightarrow> nx1 z = nx z"
    using list_remove_refines [OF l, of y] by blast
  let ?xs = "remove1 y xs" and ?nx = "nx1(y := None)"
  have y: "y \<notin> set ?xs" using l by (simp add: is_list_def)
  then have s: "lseg ?nx h1 ?xs" and d: "distinct ?xs" using l1 by (auto simp: is_list_def)
  note t = list_tail_lseg [OF s]
  show ?thesis
  proof (cases "?xs = []")
    case True
    with s have "h1 = None" by simp
    with True t r f show ?thesis by (auto simp: list_add_def is_list_def)
  next
    case False
    then obtain zs z where xs: "?xs = zs @ [z]" by (metis rev_exhaust)
    then have zin: "z \<in> set xs" by (metis in_set_conv_decomp set_remove1_subset subsetD)
    have "lseg (?nx(z := Some y)) h1 (zs @ [z, y])"
      using lseg_set_last [of ?nx h1 zs z y] s d y xs by simp
    with False t r f xs d y zin show ?thesis by (auto simp: list_add_def is_list_def)
  qed
qed

theorem list_add_refines_witness:
  "\<exists>nx' h'. list_add 5 ((\<lambda>_. None)(3 := Some 5)) (Some 3) = Some (nx', h') \<and>
    is_list nx' h' (remove1 5 [3, 5] @ [5]) \<and>
    (\<forall>z. z \<notin> insert 5 (set [3, 5]) \<longrightarrow> nx' z = ((\<lambda>_. None)(3 := Some 5)) z)"
  by (rule list_add_refines) (simp add: is_list_def)



end
