(* ===== verification/Mac_Sequence.thy ===== *)
theory Mac_Sequence
  imports Packetbuf
begin

section \<open>MAC sequence numbers\<close>

text \<open>
  Model of \<open>os/net/mac/mac-sequence.c\<close>: the sequence number of the next frame and the table of the
  last number received from each of the last 16 senders, most recent first.  The clock is the
  argument \<open>now\<close>, the result of \<open>random_rand\<close> the argument \<open>r\<close>.
\<close>

record seqno =
  sq_sender :: linkaddr
  sq_timestamp :: u32
  sq_seqno :: u8

record mac_seq =
  received_seqnos :: "seqno list"
  mac_dsn :: u8

definition MAX_SEQNOS :: nat where "MAX_SEQNOS = 16"
definition SEQNO_MAX_AGE :: u32 where "SEQNO_MAX_AGE = 20 * 128"

definition mac_sequence_init :: "u16 \<Rightarrow> mac_seq \<Rightarrow> mac_seq" where
  "mac_sequence_init r m = m\<lparr>mac_dsn := ucast r\<rparr>"

definition mac_sequence_set_dsn :: "mac_seq \<Rightarrow> 'a packetbuf_state_scheme \<Rightarrow> mac_seq \<times> 'a packetbuf_state_scheme" where
  "mac_sequence_set_dsn m s =
     (m\<lparr>mac_dsn := mac_dsn m + 1\<rparr>, packetbuf_set_attr PACKETBUF_ATTR_MAC_SEQNO (ucast (mac_dsn m)) s)"

text \<open>The loop stops at the first entry of the sender.\<close>

fun is_duplicate_loop :: "linkaddr \<Rightarrow> u16 \<Rightarrow> u32 \<Rightarrow> seqno list \<Rightarrow> bool" where
  "is_duplicate_loop sender number now [] = False"
| "is_duplicate_loop sender number now (e # es) =
     (if sender = sq_sender e
      then number = ucast (sq_seqno e) \<and> now - sq_timestamp e \<le> SEQNO_MAX_AGE
      else is_duplicate_loop sender number now es)"

definition mac_sequence_is_duplicate :: "u32 \<Rightarrow> mac_seq \<Rightarrow> 'a packetbuf_state_scheme \<Rightarrow> bool" where
  "mac_sequence_is_duplicate now m s =
     is_duplicate_loop (packetbuf_addr PACKETBUF_ADDR_SENDER s) (packetbuf_attr PACKETBUF_ATTR_MAC_SEQNO s) now
       (take MAX_SEQNOS (received_seqnos m))"

text \<open>The first loop: the index behind the first entry of the sender, or the length of the table.\<close>

fun register_index :: "linkaddr \<Rightarrow> seqno list \<Rightarrow> nat" where
  "register_index sender [] = 0"
| "register_index sender (e # es) = (if sender = sq_sender e then 1 else Suc (register_index sender es))"

text \<open>The second loop copies the entries down, from index \<open>j\<close> to index 1.\<close>

primrec shift_down :: "nat \<Rightarrow> seqno list \<Rightarrow> seqno list" where
  "shift_down 0 es = es"
| "shift_down (Suc j) es = shift_down j (es[Suc j := es ! j])"

definition mac_sequence_register_seqno :: "u32 \<Rightarrow> 'a packetbuf_state_scheme \<Rightarrow> mac_seq \<Rightarrow> mac_seq" where
  "mac_sequence_register_seqno now s m =
     (let es = received_seqnos m; sender = packetbuf_addr PACKETBUF_ADDR_SENDER s;
          i = register_index sender (take MAX_SEQNOS es);
          es1 = shift_down (i - 1) es
      in m\<lparr>received_seqnos := es1[0 := \<lparr>sq_sender = sender, sq_timestamp = now,
             sq_seqno = ucast (packetbuf_attr PACKETBUF_ATTR_MAC_SEQNO s)\<rparr>]\<rparr>)"

subsection \<open>The table as a list of senders by recency\<close>

text \<open>What the table should be: the new entry first, and no other entry of its sender.\<close>

definition register :: "seqno \<Rightarrow> seqno list \<Rightarrow> seqno list" where
  "register e es = e # (if sq_sender e \<in> sq_sender ` set es
     then takeWhile (\<lambda>x. sq_sender x \<noteq> sq_sender e) es @ tl (dropWhile (\<lambda>x. sq_sender x \<noteq> sq_sender e) es)
     else butlast es)"

lemma shift_down_spec:
  "j < length es \<Longrightarrow> shift_down j es = hd es # take j es @ drop (Suc j) es"
proof (induction j arbitrary: es)
  case 0
  then show ?case by (cases es) auto
next
  case (Suc j)
  let ?e = "es[Suc j := es ! j]"
  have "shift_down (Suc j) es = hd ?e # take j ?e @ drop (Suc j) ?e" using Suc by simp
  also have "drop (Suc j) ?e = es ! j # drop (Suc (Suc j)) es"
    using Suc.prems by (simp add: drop_update_swap list_update_code Cons_nth_drop_Suc [symmetric] flip: Cons_nth_drop_Suc)
  also have "take j ?e = take j es" by simp
  also have "hd ?e = hd es" using Suc.prems by (cases es) auto
  finally show ?case using Suc.prems by (simp add: take_Suc_conv_app_nth)
qed

lemma register_index_spec:
  "register_index a es =
     (if a \<in> sq_sender ` set es then Suc (length (takeWhile (\<lambda>x. sq_sender x \<noteq> a) es)) else length es)"
  by (induction es) auto

lemma length_filter_takeWhile: "a \<in> sq_sender ` set es \<Longrightarrow> length (takeWhile (\<lambda>x. sq_sender x \<noteq> a) es) < length es"
  by (induction es) auto

lemma take_takeWhile: "take (length (takeWhile P xs)) xs = takeWhile P xs"
  by (induction xs) auto

lemma drop_takeWhile: "drop (Suc (length (takeWhile P xs))) xs = tl (dropWhile P xs)"
  by (induction xs) auto

theorem mac_sequence_register_refines:
  fixes s :: "'a packetbuf_state_scheme" and now :: u32
  assumes l: "length (received_seqnos m) = MAX_SEQNOS"
  defines "e \<equiv> \<lparr>sq_sender = packetbuf_addr PACKETBUF_ADDR_SENDER s, sq_timestamp = now,
      sq_seqno = ucast (packetbuf_attr PACKETBUF_ATTR_MAC_SEQNO s)\<rparr>"
  shows "received_seqnos (mac_sequence_register_seqno now s m) = register e (received_seqnos m)"
proof -
  let ?es = "received_seqnos m" and ?a = "packetbuf_addr PACKETBUF_ADDR_SENDER s"
  let ?k = "register_index ?a ?es - 1"
  have k: "?k < length ?es"
    using l length_filter_takeWhile [of ?a ?es] by (auto simp: register_index_spec MAX_SEQNOS_def)
  have r: "received_seqnos (mac_sequence_register_seqno now s m) = e # take ?k ?es @ drop (Suc ?k) ?es"
    using l shift_down_spec [OF k] by (simp add: mac_sequence_register_seqno_def e_def MAX_SEQNOS_def Let_def)
  show ?thesis
  proof (cases "?a \<in> sq_sender ` set ?es")
    case True
    then show ?thesis
      unfolding r register_index_spec register_def e_def by (simp add: take_takeWhile drop_takeWhile)
  next
    case False
    then show ?thesis
      using l unfolding r register_index_spec register_def e_def by (simp add: MAX_SEQNOS_def butlast_conv_take)
  qed
qed

text \<open>An entry sinks at most one position with every sender seen after it.\<close>

definition held :: "seqno \<Rightarrow> linkaddr set \<Rightarrow> seqno list \<Rightarrow> bool" where
  "held e A es \<longleftrightarrow> length es = MAX_SEQNOS \<and> (\<exists>pre post. es = pre @ e # post \<and> distinct (map sq_sender pre) \<and>
     sq_sender ` set pre \<subseteq> A \<and> sq_sender e \<notin> sq_sender ` set pre)"

lemma heldI: "es = pre @ e # post \<Longrightarrow> length es = MAX_SEQNOS \<Longrightarrow> distinct (map sq_sender pre) \<Longrightarrow>
    sq_sender ` set pre \<subseteq> A \<Longrightarrow> sq_sender e \<notin> sq_sender ` set pre \<Longrightarrow> held e A es"
  unfolding held_def by blast

lemma length_register: "es \<noteq> [] \<Longrightarrow> length (register e es) = length es"
proof (cases "sq_sender e \<in> sq_sender ` set es")
  case True
  then obtain x where "x \<in> set es" "sq_sender x = sq_sender e" by auto
  then have "dropWhile (\<lambda>x. sq_sender x \<noteq> sq_sender e) es \<noteq> []" by (auto simp: dropWhile_eq_Nil_conv)
  moreover have "length es = length (takeWhile (\<lambda>x. sq_sender x \<noteq> sq_sender e) es) + length (dropWhile (\<lambda>x. sq_sender x \<noteq> sq_sender e) es)"
    by (metis length_append takeWhile_dropWhile_id)
  ultimately show ?thesis using True by (auto simp: register_def)
qed (auto simp: register_def)

lemma held_register_same: "length es = MAX_SEQNOS \<Longrightarrow> held e A (register e es)"
proof (rule heldI [of _ "[]"])
  assume l: "length es = MAX_SEQNOS"
  then show "length (register e es) = MAX_SEQNOS" using length_register [of es e] by (cases es) (auto simp: MAX_SEQNOS_def)
qed (auto simp: register_def)

lemma held_register:
  assumes h: "held e A es" and a: "sq_sender x \<noteq> sq_sender e"
    and card: "finite A" "card (insert (sq_sender x) A) < MAX_SEQNOS"
  shows "held e (insert (sq_sender x) A) (register x es)"
proof -
  obtain pre post where es: "es = pre @ e # post" "distinct (map sq_sender pre)" "sq_sender ` set pre \<subseteq> A"
    "sq_sender e \<notin> sq_sender ` set pre" and l: "length es = MAX_SEQNOS"
    using h by (auto simp: held_def)
  let ?P = "\<lambda>y. sq_sender y \<noteq> sq_sender x"
  show ?thesis
  proof (cases "sq_sender x \<in> sq_sender ` set pre")
    case True
    then obtain y us vs where p: "pre = us @ y # vs" "sq_sender y = sq_sender x" "\<forall>u\<in>set us. ?P u"
      using split_list_first_prop [of pre "\<lambda>y. sq_sender y = sq_sender x"] by fastforce
    then have "register x es = x # us @ vs @ e # post"
      using es(1) by (auto simp: register_def takeWhile_append2 dropWhile_append2)
    then show ?thesis
      using es a p l length_register [of es x]
      by (intro heldI [of _ "x # us @ vs" _ post]) (auto simp: MAX_SEQNOS_def)
  next
    case False
    have le: "length pre < MAX_SEQNOS - 1"
    proof -
      have "card (sq_sender ` set (x # pre)) = Suc (length pre)"
        using es(2) False distinct_card [of "map sq_sender (x # pre)"] by simp
      moreover have "card (sq_sender ` set (x # pre)) \<le> card (insert (sq_sender x) A)"
        using es(3) card(1) by (intro card_mono) auto
      ultimately show ?thesis using card(2) by simp
    qed
    then have post: "post \<noteq> []" using l es(1) by auto
    obtain post' where "register x es = x # pre @ e # post'"
    proof (cases "sq_sender x \<in> sq_sender ` set es")
      case True
      have q: "\<forall>u\<in>set (pre @ [e]). ?P u"
        using \<open>sq_sender x \<notin> sq_sender ` set pre\<close> a by (auto simp: image_iff)
      have "takeWhile ?P es = (pre @ [e]) @ takeWhile ?P post" "dropWhile ?P es = dropWhile ?P post"
        using q takeWhile_append2 [of "pre @ [e]" ?P post] dropWhile_append2 [of "pre @ [e]" ?P post] by (auto simp: es(1))
      then show ?thesis using that True by (simp add: register_def)
    next
      case False
      then show ?thesis using that post by (simp add: register_def es(1) butlast_append)
    qed
    then show ?thesis
      using es a False l length_register [of es x]
      by (intro heldI [of _ "x # pre" _ post']) (auto simp: MAX_SEQNOS_def)
  qed
qed

lemma held_duplicate:
  assumes "held e A es"
  shows "is_duplicate_loop (sq_sender e) number now es \<longleftrightarrow>
    number = ucast (sq_seqno e) \<and> now - sq_timestamp e \<le> SEQNO_MAX_AGE"
proof -
  obtain pre post where es: "es = pre @ e # post" "sq_sender e \<notin> sq_sender ` set pre"
    using assms by (auto simp: held_def)
  have "is_duplicate_loop (sq_sender e) number now (pre @ e # post) \<longleftrightarrow>
      number = ucast (sq_seqno e) \<and> now - sq_timestamp e \<le> SEQNO_MAX_AGE" if "sq_sender e \<notin> sq_sender ` set pre" for pre
    using that by (induction pre) auto
  then show ?thesis using es by simp
qed


text \<open>
  C34: duplicates are detected as long as few others have sent: after a frame was registered and
  then frames of fewer than 16 other senders in any order, a frame of the first sender counts as
  a duplicate exactly if it has the same sequence number and at most 20 seconds have passed.
\<close>

theorem mac_sequence_detects:
  fixes m :: mac_seq and s0 s :: "'a packetbuf_state_scheme" and xs :: "(u32 \<times> 'a packetbuf_state_scheme) list"
  defines "a \<equiv> packetbuf_addr PACKETBUF_ADDR_SENDER s0"
    and "senders \<equiv> (\<lambda>x. packetbuf_addr PACKETBUF_ADDR_SENDER (snd x)) ` set xs"
  assumes l: "length (received_seqnos m) = MAX_SEQNOS" and other: "a \<notin> senders" and few: "card senders < MAX_SEQNOS"
    and s: "packetbuf_addr PACKETBUF_ADDR_SENDER s = a"
  shows "mac_sequence_is_duplicate now
      (fold (\<lambda>(t, p). mac_sequence_register_seqno t p) xs (mac_sequence_register_seqno t0 s0 m)) s \<longleftrightarrow>
    packetbuf_attr PACKETBUF_ATTR_MAC_SEQNO s = packetbuf_attr PACKETBUF_ATTR_MAC_SEQNO s0 AND 0xff \<and>
    now - t0 \<le> SEQNO_MAX_AGE"
proof -
  let ?e = "\<lparr>sq_sender = a, sq_timestamp = t0, sq_seqno = ucast (packetbuf_attr PACKETBUF_ATTR_MAC_SEQNO s0)\<rparr>"
  let ?reg = "\<lambda>(t, p :: 'a packetbuf_state_scheme). mac_sequence_register_seqno t p"
  let ?m1 = "mac_sequence_register_seqno t0 s0 m"
  have "held ?e ((\<lambda>x. packetbuf_addr PACKETBUF_ADDR_SENDER (snd x)) ` set ys) (received_seqnos (fold ?reg ys ?m1))"
    if "set ys \<subseteq> set xs" for ys
    using that
  proof (induction ys rule: rev_induct)
    case Nil
    show ?case
      using held_register_same [OF l, of ?e "{}"] mac_sequence_register_refines [OF l, of t0 s0] by (simp add: a_def)
  next
    case (snoc y ys)
    let ?A = "(\<lambda>x. packetbuf_addr PACKETBUF_ADDR_SENDER (snd x)) ` set ys" and ?b = "packetbuf_addr PACKETBUF_ADDR_SENDER (snd y)"
    let ?m = "fold ?reg ys ?m1"
    let ?x = "\<lparr>sq_sender = ?b, sq_timestamp = fst y, sq_seqno = ucast (packetbuf_attr PACKETBUF_ATTR_MAC_SEQNO (snd y))\<rparr>"
    have h: "held ?e ?A (received_seqnos ?m)" using snoc by simp
    have "insert ?b ?A \<subseteq> senders" using snoc.prems by (auto simp: senders_def)
    then have "card (insert ?b ?A) < MAX_SEQNOS" "?b \<noteq> a"
      using few other card_mono [of senders "insert ?b ?A"] by (auto simp: senders_def)
    then have "held ?e (insert ?b ?A) (register ?x (received_seqnos ?m))"
      using held_register [OF h, of ?x] by simp
    moreover have "length (received_seqnos ?m) = MAX_SEQNOS" using h by (simp add: held_def)
    ultimately show ?case
      using mac_sequence_register_refines [of ?m "fst y" "snd y"] by (cases y) simp
  qed
  then have h: "held ?e senders (received_seqnos (fold ?reg xs ?m1))" by (simp add: senders_def)
  have "ucast (ucast (x :: u16) :: u8) = x AND 0xff" for x
  proof -
    have "ucast (ucast x :: u8) = x AND mask 8" by (rule bit_word_eqI) (auto simp: bit_simps)
    then show ?thesis by (simp add: mask_eq_exp_minus_1)
  qed
  then show ?thesis
    using held_duplicate [OF h, of _ now] h s by (simp add: mac_sequence_is_duplicate_def held_def)
qed


definition seqno_example :: mac_seq where
  "seqno_example = \<lparr>received_seqnos = replicate 16 \<lparr>sq_sender = 0, sq_timestamp = 0, sq_seqno = 0\<rparr>, mac_dsn = 0\<rparr>"

definition from_sender :: "linkaddr \<Rightarrow> u16 \<Rightarrow> packetbuf_state" where
  "from_sender a n = \<lparr>pb_mem = [], pb_buflen = 0, pb_bufptr = 0, pb_hdrlen = 0,
     pb_attrs = (\<lambda>_. 0)(PACKETBUF_ATTR_MAC_SEQNO := n), pb_addrs = (\<lambda>_. 0)(PACKETBUF_ADDR_SENDER := a)\<rparr>"

theorem mac_sequence_detects_witness:
  "mac_sequence_is_duplicate 100 (fold (\<lambda>(t, p). mac_sequence_register_seqno t p)
     [(10, from_sender 8 1), (11, from_sender 9 5)] (mac_sequence_register_seqno 5 (from_sender 7 3) seqno_example))
     (from_sender 7 3)"
proof -
  have a: "packetbuf_addr PACKETBUF_ADDR_SENDER (from_sender x n) = x" "packetbuf_attr PACKETBUF_ATTR_MAC_SEQNO (from_sender x n) = n"
    for x n by (simp_all add: from_sender_def packetbuf_addr_def packetbuf_attr_def)
  have l: "length (received_seqnos seqno_example) = MAX_SEQNOS" by (simp add: seqno_example_def MAX_SEQNOS_def)
  show ?thesis
    using mac_sequence_detects [OF l, of "from_sender 7 3" "[(10, from_sender 8 1), (11, from_sender 9 5)]" "from_sender 7 3" 100 5]
    by (simp add: a MAX_SEQNOS_def SEQNO_MAX_AGE_def)
qed

end
