(* ===== verification/Spec2Isabelle.thy ===== *)
theory Spec2Isabelle
  imports Sf_Negotiation Tsch_Slot Linked_List Mac_Sequence
begin

text \<open>
  A verification library for the scheduling core of this Contiki-NG tree: the TSCH schedule and
  queues, the 6top protocol (6P), the scheduling function of the thesis in
  \<open>src/examples/ba_benjamin_ko\<close>, and the libraries below them.

  \<^bold>\<open>How the program works.\<close>  A node has a TSCH schedule: slotframes of timeslots with links.  Two
  neighbours agree on new cells with 6P, in transactions of a request, a response and sometimes
  a confirmation.  The scheduling function \<open>sf-simple.c\<close> decides on the cells: it offers candidates
  (\<open>advanced_cell_alloc.c\<close>), answers requests, and installs or removes links when a message was
  sent or received.  6P (\<open>sixp.c\<close>, \<open>sixp-trans.c\<close>, \<open>sixp-nbr.c\<close>, \<open>sixp-pkt.c\<close>) builds its message in the packet
  buffer, \<open>sixtop.c\<close> wraps it into information elements (\<open>frame802154e-ie.c\<close>) and the MAC layer queues
  the frame (\<open>tsch-queue.c\<close>, \<open>queuebuf.c\<close>) for the link that \<open>tsch-schedule.c\<close> selects.  The result comes
  back through a callback.

  \<^bold>\<open>Theories and code.\<close>
  \<^item> \<open>Prelude\<close>: machine words, byte arrays, little-endian fields.
  \<^item> \<open>Linked_List\<close>, \<open>Memb\<close>, \<open>Ringbufindex\<close>: \<open>os/lib/list.c\<close> on a heap of \<open>next\<close> fields (elsewhere a list is the
    list of its block numbers, which the refinement theorem justifies), \<open>memb.c\<close>, \<open>ringbufindex.c\<close>.
  \<^item> \<open>Packetbuf\<close>, \<open>Queuebuf\<close>, \<open>Nbr_Table\<close>: \<open>packetbuf.c\<close>, \<open>queuebuf.c\<close>, \<open>nbr-table.c\<close> of \<open>os/net\<close>.
  \<^item> \<open>Tsch_Asn\<close>, \<open>Tsch_Queue\<close>, \<open>Tsch_Schedule\<close>: \<open>tsch-asn.h\<close>, \<open>tsch-queue.c\<close>, \<open>tsch-schedule.c\<close>.
  \<^item> \<open>Frame802154\<close>, \<open>Framer802154\<close>, \<open>Mac_Sequence\<close>: the frame headers of \<open>frame802154.c\<close>, the framer
    \<open>framer-802154.c\<close> and the duplicate detection of \<open>mac-sequence.c\<close>.
  \<^item> \<open>Tsch_Packet\<close>: the acknowledgements and beacons of \<open>tsch-packet.c\<close>.
  \<^item> \<open>Frame_Ie\<close>: the writers and the parser of information elements.
  \<^item> \<open>Sixp_Pkt\<close>, \<open>Sixp_Nbr\<close>, \<open>Sixp_Trans\<close>, \<open>Sixtop\<close>, \<open>Sixp\<close>: the directory \<open>os/net/mac/tsch/sixtop\<close>.
  \<^item> \<open>Cell_Alloc\<close>, \<open>Sf_Simple\<close>, \<open>Sf_Negotiation\<close>: the thesis code; the last one holds the proofs only.
  \<^item> \<open>Pdr_Stats\<close>: the statistics that the thesis adds to \<open>tsch-slot-operation.c\<close>.
  \<^item> \<open>Tsch_Timesync\<close>: the drift estimation of \<open>tsch-adaptive-timesync.c\<close>.
  \<^item> \<open>Tsch_Slot\<close>: what a node does in a timeslot and the choice of the next one, \<open>tsch-slot-operation.c\<close>.

  \<^bold>\<open>State.\<close>  The static variables of the program are the fields of a chain of extensible records, in the
  order \<open>packetbuf_state\<close>, \<open>nbr_state\<close>, \<open>queuebuf_state\<close>, \<open>tsch_queue_state\<close>, \<open>tsch_sched_state\<close>, \<open>sixp_nbr_state\<close>,
  \<open>sixp_state\<close>, \<open>alloc_state\<close>, \<open>sf_state\<close>, \<open>pdr_state\<close>, \<open>timesync_state\<close>,
  \<open>slot_state\<close>.  An operation takes the record up to its own layer with any extension, so the operations of the lower layers apply to the states of the higher ones.
  A pointer is an index into a pool with \<open>None\<close> for \<open>NULL\<close>; an access outside an array, a failed
  assertion and a loop that does not end are \<open>None\<close> of the type \<open>ub\<close>.  Machine integers are words of
  their width.  A pointer to an out-parameter is an option, \<open>None\<close> for \<open>NULL\<close>.

  \<^bold>\<open>Parameters.\<close>  Callbacks, the MAC layer and the drivers are fields of environment records (\<open>nbr_env\<close>,
  \<open>queue_env\<close>, \<open>sixp_env\<close>); theorems that need something of them say so in a hypothesis, and their
  witnesses use concrete ones.  The random numbers are a stream in the state.  The passing of time is not
  modelled: a timer is a field that says which handler its expiration calls, and the readings of the
  clock, like what the radio returns, are arguments of the slot operation.

  \<^bold>\<open>What the lemmas show.\<close>  Pools, lists and rings: functional behaviour, FIFO order, refinement of the
  abstract lists.  Queues and schedule: well-formedness is kept by every operation, adding and
  removing links and slotframes does what is promised, the next active link is the first one after
  the given slot number, a transmission result updates queue and backoff correctly.  Slots: every packet tried is
  accounted for, an acknowledgement settles the frame it answers and no other, the search for the next slot
  keeps slot number and time together and ends, the radio is off after a slot.  6P: the
  parsers never read outside the message, messages are read back as written, the transactions keep
  their invariant in every run and end after at most three timer expirations, and a run of any
  received bytes, sent messages and timer events is free of undefined behaviour.  Thesis code: what
  each handler answers and installs, when the loops of the candidate list end and when they do not.
  Several theorems state faults: their names are in the findings of the manifest.

  \<^bold>\<open>Loops and bounds.\<close>  Loops are total functions with a measure, except those that may run for ever:
  they are \<open>partial_function (option)\<close>, and theorems say when they return.  No fuel is used.

  \<^bold>\<open>Conventions.\<close>  The model is of the configuration of the thesis example: 8-byte addresses, no link-layer
  security, no link selector, a slotframe of 101 slots, assertions enabled, little-endian host (cells
  are copied from memory into messages).  The body of a received 6P message is passed to the
  scheduling function by value.  Output for debugging is left out, also where it reads the
  cell list again.

  \<^bold>\<open>Not modelled.\<close>  Association and the processes of TSCH (\<open>tsch.c\<close>; only its keepalive scheduling and
  \<open>tsch_disassociate\<close> are), the processes of the example that call the modelled functions from timers, IP, RPL, applications,
  hardware.  In \<open>nbr-table.c\<close> the key iterators and printing are left out.
\<close>

end
